(* ===== verification/Prelude.thy ===== *)
theory Prelude
  imports Main "HOL-Library.Char_ord" "HOL-Library.Sublist"
begin

section \<open>Bytes, slices and the string functions of the Go library\<close>

text \<open>
  What the components share: a Go \<open>string\<close> or \<open>[]byte\<close> is a list of 8-bit characters
  (\<^typ>\<open>char\<close> is one byte), a slice expression that can be out of range is a value of
  \<open>outcome\<close>, and the functions of the packages \<open>bytes\<close> and \<open>strings\<close> that the sources
  call are defined here once, each with the facts the component proofs use.

  The white-space and case functions treat a byte above 127 as the Go functions treat a
  non-ASCII rune that is neither white space nor has an ASCII counterpart; the two runes
  whose upper case is ASCII (U+0131 and U+017F) are written out in \<open>to_upper\<close>. The lower
  case of U+0130 and U+212A and the white space outside ASCII (U+0085, U+00A0 and others) are
  not modelled.
\<close>

type_synonym bytes = string

named_theorems go_simps "the definitions of the string functions"

subsection \<open>Run-time panics\<close>

datatype 'a outcome = Ret 'a | Panic string

fun bind_outcome :: "'a outcome \<Rightarrow> ('a \<Rightarrow> 'b outcome) \<Rightarrow> 'b outcome" where
  "bind_outcome (Ret x) f = f x"
| "bind_outcome (Panic m) f = Panic m"

fun panics :: "'a outcome \<Rightarrow> bool" where
  "panics (Ret x) = False"
| "panics (Panic m) = True"

lemma panics_bind:
  "panics (bind_outcome m f) \<longleftrightarrow> panics m \<or> (\<exists>x. m = Ret x \<and> panics (f x))"
  by (cases m) auto

lemma bind_outcome_Ret_iff:
  "bind_outcome m f = Ret y \<longleftrightarrow> (\<exists>x. m = Ret x \<and> f x = Ret y)"
  by (cases m) auto

text \<open>
  An operation that can also wait for ever: it ends (\<open>Done\<close>), never returns (\<open>Blocks\<close>) or panics or
  ends the process (\<open>Crash\<close>). \<open>run_of\<close> reads the result of a partial function whose value \<open>None\<close>
  is that it does not return.
\<close>

datatype 'a run = Done 'a | Blocks | Crash bytes

fun bind_run :: "'a run \<Rightarrow> ('a \<Rightarrow> 'b run) \<Rightarrow> 'b run" where
  "bind_run (Done x) f = f x"
| "bind_run Blocks f = Blocks"
| "bind_run (Crash m) f = Crash m"

lemma bind_run_Done [simp]: "bind_run r f = Done y \<longleftrightarrow> (\<exists>x. r = Done x \<and> f x = Done y)"
  by (cases r) auto

fun run_of :: "'a outcome option \<Rightarrow> 'a run" where
  "run_of None = Blocks"
| "run_of (Some (Ret x)) = Done x"
| "run_of (Some (Panic m)) = Crash m"

lemma run_of_Done [simp]: "run_of r = Done x \<longleftrightarrow> r = Some (Ret x)"
  by (cases r rule: run_of.cases) auto

lemma run_of_Blocks [simp]: "run_of r = Blocks \<longleftrightarrow> r = None"
  by (cases r rule: run_of.cases) auto

text \<open>The slice \<open>xs[lo:]\<close>, and \<open>xs[lo:hi]\<close> of a string, with Go's bounds check.\<close>

definition slice_from :: "'a list \<Rightarrow> int \<Rightarrow> 'a list outcome" where
  "slice_from xs lo =
     (if 0 \<le> lo \<and> lo \<le> int (length xs) then Ret (drop (nat lo) xs)
      else Panic ''slice bounds out of range'')"

definition slice :: "'a list \<Rightarrow> int \<Rightarrow> int \<Rightarrow> 'a list outcome" where
  "slice xs lo hi =
     (if 0 \<le> lo \<and> lo \<le> hi \<and> hi \<le> int (length xs)
      then Ret (take (nat (hi - lo)) (drop (nat lo) xs))
      else Panic ''slice bounds out of range'')"

lemma slice_from_panics: "panics (slice_from xs lo) \<longleftrightarrow> lo < 0 \<or> int (length xs) < lo"
  by (auto simp: slice_from_def)

lemma slice_panics: "panics (slice xs lo hi) \<longleftrightarrow> lo < 0 \<or> hi < lo \<or> int (length xs) < hi"
  by (auto simp: slice_def)

lemma slice_Ret:
  "0 \<le> lo \<Longrightarrow> lo \<le> hi \<Longrightarrow> hi \<le> int (length xs) \<Longrightarrow>
   slice xs lo hi = Ret (take (nat (hi - lo)) (drop (nat lo) xs))"
  by (simp add: slice_def)

subsection \<open>Searching\<close>

text \<open>\<open>bytes.Index(s, pat)\<close>, with \<open>None\<close> for -1, and \<open>LastIndex\<close> of one byte.\<close>

fun index_of :: "'a list \<Rightarrow> 'a list \<Rightarrow> nat option" where
  "index_of pat [] = (if pat = [] then Some 0 else None)"
| "index_of pat (x # xs) =
     (if prefix pat (x # xs) then Some 0 else map_option Suc (index_of pat xs))"

lemma index_of_0 [simp]: "index_of pat xs = Some 0 \<longleftrightarrow> prefix pat xs"
  by (cases xs) auto

lemma index_of_Some:
  "index_of pat xs = Some i \<Longrightarrow> i + length pat \<le> length xs \<and> take (length pat) (drop i xs) = pat"
proof (induction xs arbitrary: i)
  case Nil
  then show ?case by (auto split: if_splits)
next
  case (Cons x xs)
  show ?case
  proof (cases "prefix pat (x # xs)")
    case True
    with Cons.prems have "i = 0" by simp
    moreover obtain zs where zs: "x # xs = pat @ zs" using True by (auto simp: prefix_def)
    moreover from zs have "length pat \<le> length (x # xs)" by simp
    ultimately show ?thesis by simp
  next
    case False
    with Cons.prems obtain j where "index_of pat xs = Some j" and "i = Suc j" by auto
    with Cons.IH show ?thesis by fastforce
  qed
qed

lemma index_of_None_iff: "index_of pat xs = None \<longleftrightarrow> \<not> sublist pat xs"
proof (induction xs)
  case Nil
  then show ?case by auto
next
  case (Cons x xs)
  have "sublist pat (x # xs) \<longleftrightarrow> prefix pat (x # xs) \<or> sublist pat xs"
    by (rule sublist_Cons_right)
  with Cons show ?case by auto
qed

definition contains :: "bytes \<Rightarrow> bytes \<Rightarrow> bool" where
  "contains s pat = (index_of pat s \<noteq> None)"

definition has_suffix :: "bytes \<Rightarrow> bytes \<Rightarrow> bool" where
  "has_suffix s suf = (length suf \<le> length s \<and> drop (length s - length suf) s = suf)"

lemma has_suffix_iff: "has_suffix s suf \<longleftrightarrow> (\<exists>p. s = p @ suf)"
proof
  assume h: "has_suffix s suf"
  then have "s = take (length s - length suf) s @ suf"
    using append_take_drop_id [of "length s - length suf" s] by (simp add: has_suffix_def)
  then show "\<exists>p. s = p @ suf" by blast
qed (auto simp: has_suffix_def)

fun last_index :: "char \<Rightarrow> bytes \<Rightarrow> nat option" where
  "last_index c [] = None"
| "last_index c (x # xs) =
     (case last_index c xs of Some i \<Rightarrow> Some (Suc i)
      | None \<Rightarrow> if x = c then Some 0 else None)"

lemma last_index_None: "last_index c xs = None \<longleftrightarrow> c \<notin> set xs"
  by (induction xs) (auto split: option.splits)

lemma last_index_Some:
  "last_index c xs = Some i \<Longrightarrow> i < length xs \<and> xs ! i = c \<and> c \<notin> set (drop (Suc i) xs)"
  by (induction xs arbitrary: i) (auto simp: last_index_None split: option.splits if_splits)

lemma last_index_append:
  "c \<notin> set ys \<Longrightarrow> last_index c (xs @ c # ys) = Some (length xs)"
proof (induction xs)
  case Nil
  then show ?case by (simp add: last_index_None split: option.split)
qed simp

subsection \<open>Splitting and joining\<close>

text \<open>\<open>strings.Split\<close> by a one-byte separator: never the empty list.\<close>

fun split_on :: "char \<Rightarrow> bytes \<Rightarrow> bytes list" where
  "split_on c [] = [[]]"
| "split_on c (x # xs) =
     (if x = c then [] # split_on c xs
      else (x # hd (split_on c xs)) # tl (split_on c xs))"

fun join :: "bytes \<Rightarrow> bytes list \<Rightarrow> bytes" where
  "join sep [] = []"
| "join sep [x] = x"
| "join sep (x # y # zs) = x @ sep @ join sep (y # zs)"

lemma split_on_nonempty [simp]: "split_on c xs \<noteq> []"
  by (induction xs) auto

lemma split_on_notin: "c \<notin> set xs \<Longrightarrow> split_on c xs = [xs]"
  by (induction xs) auto

lemma split_on_append: "c \<notin> set xs \<Longrightarrow> split_on c (xs @ c # ys) = xs # split_on c ys"
  by (induction xs) auto

lemma split_on_set: "w \<in> set (split_on c xs) \<Longrightarrow> c \<notin> set w"
proof (induction xs arbitrary: w)
  case (Cons x xs)
  show ?case
  proof (cases "x = c")
    case False
    have "split_on c xs = hd (split_on c xs) # tl (split_on c xs)" by simp
    then have "set (split_on c xs) = insert (hd (split_on c xs)) (set (tl (split_on c xs)))"
      by (metis list.simps(15))
    with Cons False show ?thesis by auto
  qed (use Cons in auto)
qed simp

lemma join_split_on: "join [c] (split_on c xs) = xs"
proof (induction xs)
  case (Cons x xs)
  obtain w ws where w: "split_on c xs = w # ws" by (cases "split_on c xs") auto
  with Cons show ?case by (cases ws) auto
qed simp

subsection \<open>White space\<close>

definition is_space :: "char \<Rightarrow> bool" where
  "is_space c \<longleftrightarrow> c \<in> {CHR 0x09, CHR 0x0A, CHR 0x0B, CHR 0x0C, CHR 0x0D, CHR '' ''}"

definition trim_by :: "(char \<Rightarrow> bool) \<Rightarrow> bytes \<Rightarrow> bytes" where
  "trim_by P s = rev (dropWhile P (rev (dropWhile P s)))"

definition trim_space :: "bytes \<Rightarrow> bytes" where
  "trim_space s = trim_by is_space s"

text \<open>\<open>bytes.Fields\<close>: the maximal runs of bytes that are no white space.\<close>

fun fields_acc :: "bytes \<Rightarrow> bytes \<Rightarrow> bytes list" where
  "fields_acc acc [] = (if acc = [] then [] else [rev acc])"
| "fields_acc acc (x # xs) =
     (if is_space x then (if acc = [] then fields_acc [] xs else rev acc # fields_acc [] xs)
      else fields_acc (x # acc) xs)"

definition fields :: "bytes \<Rightarrow> bytes list" where
  "fields s = fields_acc [] s"

lemma trim_by_Nil [simp]: "trim_by P [] = []"
  by (simp add: trim_by_def)

lemma trim_by_id:
  "s = [] \<or> (\<not> P (hd s) \<and> \<not> P (last s)) \<Longrightarrow> trim_by P s = s"
proof -
  assume h: "s = [] \<or> (\<not> P (hd s) \<and> \<not> P (last s))"
  show ?thesis
  proof (cases "s = []")
    case False
    with h have "dropWhile P s = s" by (cases s) auto
    moreover from False h have "dropWhile P (rev s) = rev s"
      by (cases "rev s") (auto simp: last_rev hd_rev [symmetric])
    ultimately show ?thesis by (simp add: trim_by_def)
  qed simp
qed

lemma hd_dropWhile_not: "dropWhile P s \<noteq> [] \<Longrightarrow> \<not> P (hd (dropWhile P s))"
  by (rule hd_dropWhile)

lemma trim_by_edges: "trim_by P s \<noteq> [] \<Longrightarrow> \<not> P (hd (trim_by P s)) \<and> \<not> P (last (trim_by P s))"
proof -
  define t where "t = dropWhile P s"
  define u where "u = dropWhile P (rev t)"
  assume "trim_by P s \<noteq> []"
  then have u: "u \<noteq> []" by (simp add: trim_by_def t_def u_def)
  have tr: "trim_by P s = rev u" by (simp add: trim_by_def t_def u_def)
  have "\<not> P (hd u)" using u unfolding u_def by (rule hd_dropWhile)
  then have l: "\<not> P (last (rev u))" using u by (simp add: last_rev)
  obtain v where "rev t = v @ u" unfolding u_def by (metis takeWhile_dropWhile_id)
  then have t: "t = rev u @ rev v" by (metis rev_append rev_rev_ident)
  with u have "hd (rev u) = hd t" by simp
  moreover have "t \<noteq> []" using t u by simp
  then have "\<not> P (hd t)" unfolding t_def by (rule hd_dropWhile)
  ultimately show ?thesis using l tr by simp
qed

lemma trim_by_idem [simp]: "trim_by P (trim_by P s) = trim_by P s"
  by (rule trim_by_id) (use trim_by_edges in blast)

lemma dropWhile_all_append: "\<forall>c \<in> set xs. P c \<Longrightarrow> dropWhile P (xs @ ys) = dropWhile P ys"
  by (induction xs) auto

lemma trim_by_surround:
  assumes "\<forall>c \<in> set pre. P c" and "\<forall>c \<in> set post. P c" and "\<forall>c \<in> set s. \<not> P c"
  shows "trim_by P (pre @ s @ post) = s"
proof (cases s)
  case Nil
  have d: "dropWhile P (pre @ post) = []" using assms by (simp add: dropWhile_all_append)
  show ?thesis unfolding trim_by_def Nil append_Nil d by simp
next
  case (Cons x t)
  have "dropWhile P (pre @ s @ post) = s @ post"
    using assms Cons by (simp add: dropWhile_all_append)
  moreover have s: "s \<noteq> []" using Cons by simp
  then have "\<not> P (hd (rev s))" using assms(3) by (simp add: hd_rev)
  then have "dropWhile P (rev s) = rev s" by (simp add: dropWhile_eq_self_iff)
  ultimately show ?thesis using assms(2) by (simp add: trim_by_def dropWhile_all_append)
qed

lemma trim_space_surround:
  "\<forall>c \<in> set s. \<not> is_space c \<Longrightarrow> \<forall>c \<in> set pre \<union> set post. is_space c \<Longrightarrow> trim_space (pre @ s @ post) = s"
  unfolding trim_space_def by (rule trim_by_surround) auto

lemma trim_space_idem [simp]: "trim_space (trim_space s) = trim_space s"
  by (simp add: trim_space_def)

lemma set_trim_by: "set (trim_by P s) \<subseteq> set s"
  by (auto simp: trim_by_def dest!: set_dropWhileD)

lemma length_trim_by: "length (trim_by P s) \<le> length s"
  unfolding trim_by_def by (metis dual_order.trans length_dropWhile_le length_rev)

subsection \<open>Letter case\<close>

definition upper_byte :: "char \<Rightarrow> char" where
  "upper_byte c = (if CHR ''a'' \<le> c \<and> c \<le> CHR ''z'' then char_of (of_char c - 32 :: nat) else c)"

definition lower_byte :: "char \<Rightarrow> char" where
  "lower_byte c = (if CHR ''A'' \<le> c \<and> c \<le> CHR ''Z'' then char_of (of_char c + 32 :: nat) else c)"

text \<open>
  \<open>bytes.ToUpper\<close>. The runes U+0131 (bytes C4 B1) and U+017F (bytes C5 BF) have the
  ASCII upper cases \<open>I\<close> and \<open>S\<close>; every other non-ASCII rune stays non-ASCII.
\<close>

fun to_upper :: "bytes \<Rightarrow> bytes" where
  "to_upper (x # y # xs) =
     (if x = CHR 0xC4 \<and> y = CHR 0xB1 then CHR ''I'' # to_upper xs
      else if x = CHR 0xC5 \<and> y = CHR 0xBF then CHR ''S'' # to_upper xs
      else upper_byte x # to_upper (y # xs))"
| "to_upper [x] = [upper_byte x]"
| "to_upper [] = []"

definition to_lower :: "bytes \<Rightarrow> bytes" where
  "to_lower s = map lower_byte s"

lemma lower_byte_range: "\<not> (CHR ''A'' \<le> lower_byte c \<and> lower_byte c \<le> CHR ''Z'')"
proof (cases "CHR ''A'' \<le> c \<and> c \<le> CHR ''Z''")
  case True
  then have "65 \<le> (of_char c :: nat)" and "(of_char c :: nat) \<le> 90"
    by (auto simp: less_eq_char_def)
  then show ?thesis by (simp add: lower_byte_def less_eq_char_def)
next
  case False
  then show ?thesis by (auto simp: lower_byte_def)
qed

lemma lower_byte_idem [simp]: "lower_byte (lower_byte c) = lower_byte c"
  using lower_byte_range [of c] by (auto simp: lower_byte_def [of "lower_byte c"])

lemma to_lower_idem [simp]: "to_lower (to_lower s) = to_lower s"
  by (simp add: to_lower_def)

lemma length_to_lower [simp]: "length (to_lower s) = length s"
  by (simp add: to_lower_def)

lemma to_lower_append [simp]: "to_lower (xs @ ys) = to_lower xs @ to_lower ys"
  by (simp add: to_lower_def)

lemma length_to_upper: "length (to_upper s) \<le> length s"
  by (induction s rule: to_upper.induct) auto

lemma to_upper_nonempty [simp]: "to_upper s = [] \<longleftrightarrow> s = []"
  by (induction s rule: to_upper.induct) auto

subsection \<open>Decimal numbers\<close>

definition is_digit :: "char \<Rightarrow> bool" where
  "is_digit c \<longleftrightarrow> CHR ''0'' \<le> c \<and> c \<le> CHR ''9''"

definition digit_val :: "char \<Rightarrow> nat" where
  "digit_val c = of_char c - 48"

definition digit_char :: "nat \<Rightarrow> char" where
  "digit_char n = char_of (48 + n)"

definition dec_val :: "bytes \<Rightarrow> nat" where
  "dec_val ds = foldl (\<lambda>n c. 10 * n + digit_val c) 0 ds"

text \<open>The decimal print of a natural number, as \<open>%d\<close> gives it.\<close>

fun show_nat :: "nat \<Rightarrow> bytes" where
  "show_nat n = (if n < 10 then [digit_char n] else show_nat (n div 10) @ [digit_char (n mod 10)])"

declare show_nat.simps [simp del]

definition show_int :: "int \<Rightarrow> bytes" where
  "show_int i = (if i < 0 then CHR ''-'' # show_nat (nat (- i)) else show_nat (nat i))"

lemma digit_char_val: "n < 10 \<Longrightarrow> is_digit (digit_char n) \<and> digit_val (digit_char n) = n"
  by (simp add: is_digit_def digit_val_def digit_char_def less_eq_char_def)

lemma dec_val_snoc: "dec_val (ds @ [c]) = 10 * dec_val ds + digit_val c"
  by (simp add: dec_val_def)

lemma show_nat_digits: "\<forall>c \<in> set (show_nat n). is_digit c"
proof (induction n rule: show_nat.induct)
  case (1 n)
  then show ?case
    by (subst show_nat.simps) (auto simp: digit_char_val)
qed

lemma dec_val_show_nat: "dec_val (show_nat n) = n"
proof (induction n rule: show_nat.induct)
  case (1 n)
  show ?case
  proof (cases "n < 10")
    case True
    then show ?thesis by (subst show_nat.simps) (simp add: dec_val_def digit_char_val)
  next
    case False
    with 1 have "dec_val (show_nat (n div 10)) = n div 10" by simp
    with False show ?thesis
      by (subst show_nat.simps) (simp add: dec_val_snoc digit_char_val)
  qed
qed

lemma show_nat_nonempty [simp]: "show_nat n \<noteq> []"
  by (subst show_nat.simps) simp

lemma length_show_nat_3: "100 \<le> n \<Longrightarrow> n < 1000 \<Longrightarrow> length (show_nat n) = 3"
  by (simp add: show_nat.simps [of n] show_nat.simps [of "n div 10"]
        show_nat.simps [of "n div 10 div 10"]) linarith

text \<open>The verb \<open>%q\<close> of the Go library, for a text in ASCII.\<close>

fun hex_digit :: "nat \<Rightarrow> char" where
  "hex_digit n = (if n < 10 then char_of (48 + n) else char_of (87 + n))"

definition quote_char :: "char \<Rightarrow> bytes" where
  "quote_char c =
     (if c = CHR 0x22 \<or> c = CHR 0x5C then [CHR 0x5C, c]
      else if c = CHR 0x07 then [CHR 0x5C, CHR ''a''] else if c = CHR 0x08 then [CHR 0x5C, CHR ''b'']
      else if c = CHR 0x0C then [CHR 0x5C, CHR ''f''] else if c = CHR 0x0A then [CHR 0x5C, CHR ''n'']
      else if c = CHR 0x0D then [CHR 0x5C, CHR ''r''] else if c = CHR 0x09 then [CHR 0x5C, CHR ''t'']
      else if c = CHR 0x0B then [CHR 0x5C, CHR ''v'']
      else if of_char c < (32 :: nat) \<or> c = CHR 0x7F then [CHR 0x5C, CHR ''x'', hex_digit (of_char c div 16), hex_digit (of_char c mod 16)]
      else [c])"

definition go_quote :: "bytes \<Rightarrow> bytes" where
  "go_quote s = [CHR 0x22] @ concat (map quote_char s) @ [CHR 0x22]"

text \<open>
  \<open>strconv.Atoi\<close> on a 64-bit machine: an optional sign, then at least one digit, and a
  value in the range of \<open>int\<close>; \<open>None\<close> is its error.
\<close>

definition atoi_digits :: "bytes \<Rightarrow> nat option" where
  "atoi_digits ds = (if ds = [] \<or> \<not> list_all is_digit ds then None else Some (dec_val ds))"

definition atoi :: "bytes \<Rightarrow> int option" where
  "atoi s =
     (case s of
        [] \<Rightarrow> None
      | c # ds \<Rightarrow>
          (case (if c = CHR ''-'' then map_option (\<lambda>n. - int n) (atoi_digits ds)
                 else if c = CHR ''+'' then map_option int (atoi_digits ds)
                 else map_option int (atoi_digits s)) of
             None \<Rightarrow> None
           | Some i \<Rightarrow> if - (2 ^ 63) \<le> i \<and> i < 2 ^ 63 then Some i else None))"

text \<open>The text of that error.\<close>

definition atoi_error :: "bytes \<Rightarrow> bytes" where
  "atoi_error s = ''strconv.Atoi: parsing '' @ go_quote s @
     (if atoi_digits (if s \<noteq> [] \<and> (hd s = CHR ''-'' \<or> hd s = CHR ''+'') then tl s else s) \<noteq> None
      then '': value out of range'' else '': invalid syntax'')"

lemma atoi_show_nat: "n < 2 ^ 63 \<Longrightarrow> atoi (show_nat n) = Some (int n)"
proof -
  assume n: "n < 2 ^ 63"
  obtain c ds where s: "show_nat n = c # ds" by (cases "show_nat n") auto
  with show_nat_digits [of n] have "is_digit c" by auto
  then have "c \<noteq> CHR ''-''" and "c \<noteq> CHR ''+''" by (auto simp: is_digit_def)
  moreover have "atoi_digits (show_nat n) = Some n"
    using show_nat_digits [of n] by (simp add: atoi_digits_def dec_val_show_nat list_all_iff)
  moreover from n have "int n < 2 ^ 63"
    by (metis of_nat_less_iff of_nat_numeral of_nat_power)
  ultimately show ?thesis using s by (auto simp: atoi_def)
qed

lemmas go_defs [go_simps] =
  contains_def has_suffix_def trim_space_def trim_by_def to_lower_def fields_def

end
