(* ===== verification/Net_IP.thy ===== *)
theory Net_IP
  imports Prelude
begin

section \<open>IP addresses of the Go library (net.ParseIP and IP.String)\<close>

text \<open>
  The address parser and the host table call \<open>net.ParseIP\<close> and \<open>net.IP.String\<close>. Both
  are functions of the language's library, so they are written out here: an address is its
  sixteen bytes, an IPv4 address the IPv4-mapped one, as \<open>ParseIP\<close> returns it. A text with
  an IPv6 zone is refused, as \<open>ParseIP\<close> does.
\<close>

type_synonym ip = "nat list"

definition v4_prefix :: "nat list" where
  "v4_prefix = replicate 10 0 @ [255, 255]"

subsection \<open>Dotted decimal\<close>

definition octet_ok :: "bytes \<Rightarrow> bool" where
  "octet_ok w \<longleftrightarrow> w \<noteq> [] \<and> list_all is_digit w \<and> (hd w = CHR ''0'' \<longrightarrow> length w = 1) \<and> dec_val w \<le> 255"

definition parseIPv4Fields :: "bytes \<Rightarrow> nat list option" where
  "parseIPv4Fields s =
     (let ws = split_on (CHR ''.'') s
      in if length ws = 4 \<and> list_all octet_ok ws then Some (map dec_val ws) else None)"

subsection \<open>Colon notation\<close>

definition hex_val :: "char \<Rightarrow> nat option" where
  "hex_val c =
     (if CHR ''0'' \<le> c \<and> c \<le> CHR ''9'' then Some (of_char c - 48)
      else if CHR ''a'' \<le> c \<and> c \<le> CHR ''f'' then Some (of_char c - 87)
      else if CHR ''A'' \<le> c \<and> c \<le> CHR ''F'' then Some (of_char c - 55)
      else None)"

definition is_hex :: "char \<Rightarrow> bool" where
  "is_hex c \<longleftrightarrow> hex_val c \<noteq> None"

definition hex_num :: "bytes \<Rightarrow> nat" where
  "hex_num w = foldl (\<lambda>n c. 16 * n + the (hex_val c)) 0 w"

text \<open>
  The loop of \<open>netip.parseIPv6\<close>: at most eight groups, the first argument the groups left.
  The result is the bytes read, the place of the ellipsis and the text not read.
\<close>

fun parseIPv6_loop ::
    "nat \<Rightarrow> nat list \<Rightarrow> nat option \<Rightarrow> bytes \<Rightarrow> (nat list \<times> nat option \<times> bytes) option" where
  "parseIPv6_loop 0 out ell s = Some (out, ell, s)"
| "parseIPv6_loop (Suc k) out ell s =
     (let w = takeWhile is_hex s; r = dropWhile is_hex s
      in if w = [] \<or> 4 < length w then None
      else case r of
        [] \<Rightarrow> Some (out @ [hex_num w div 256, hex_num w mod 256], ell, [])
      | c # r1 \<Rightarrow>
          if c = CHR ''.'' then
            (if (ell = None \<and> length out \<noteq> 12) \<or> 12 < length out then None
             else case parseIPv4Fields s of None \<Rightarrow> None | Some v \<Rightarrow> Some (out @ v, ell, []))
          else if c \<noteq> CHR '':'' then None
          else
            (let out' = out @ [hex_num w div 256, hex_num w mod 256]
             in case r1 of
                  [] \<Rightarrow> None
                | d # r2 \<Rightarrow>
                    if d = CHR '':'' then
                      (if ell \<noteq> None then None
                       else if r2 = [] then Some (out', Some (length out'), [])
                       else parseIPv6_loop k out' (Some (length out')) r2)
                    else parseIPv6_loop k out' ell r1))"

definition parseIPv6 :: "bytes \<Rightarrow> ip option" where
  "parseIPv6 s =
     (if prefix ''::'' s \<and> length s = 2 then Some (replicate 16 0)
      else case (if prefix ''::'' s then parseIPv6_loop 8 [] (Some 0) (drop 2 s)
                 else parseIPv6_loop 8 [] None s) of
        None \<Rightarrow> None
      | Some (out, ell, r) \<Rightarrow>
          if r \<noteq> [] then None
          else if length out < 16 then
            (case ell of
               None \<Rightarrow> None
             | Some i \<Rightarrow> Some (take i out @ replicate (16 - length out) 0 @ drop i out))
          else if ell \<noteq> None then None else Some out)"

text \<open>\<open>netip.ParseAddr\<close> picks the notation by the first dot, colon or percent sign.\<close>

definition parseIP :: "bytes \<Rightarrow> ip option" where
  "parseIP s =
     (if CHR ''%'' \<in> set s then None
      else case dropWhile (\<lambda>c. c \<noteq> CHR ''.'' \<and> c \<noteq> CHR '':'') s of
        [] \<Rightarrow> None
      | c # _ \<Rightarrow>
          if c = CHR ''.'' then map_option (\<lambda>v. v4_prefix @ v) (parseIPv4Fields s)
          else parseIPv6 s)"

subsection \<open>Printing\<close>

definition hex_char :: "nat \<Rightarrow> char" where
  "hex_char n = (if n < 10 then char_of (48 + n) else char_of (87 + n))"

definition show_hex :: "nat \<Rightarrow> bytes" where
  "show_hex n =
     (let ds = [n div 4096 mod 16, n div 256 mod 16, n div 16 mod 16]
      in map hex_char (dropWhile (\<lambda>d. d = 0) ds @ [n mod 16]))"

fun groups :: "ip \<Rightarrow> nat list" where
  "groups (a # b # xs) = (256 * a + b) # groups xs"
| "groups _ = []"

definition zero_run :: "nat list \<Rightarrow> nat \<Rightarrow> nat" where
  "zero_run gs i = length (takeWhile (\<lambda>g. g = 0) (drop i gs))"

text \<open>The first longest run of at least two zero groups, as start and end.\<close>

definition longest_zeros :: "nat list \<Rightarrow> (nat \<times> nat) option" where
  "longest_zeros gs =
     foldl (\<lambda>best i.
        (let l = zero_run gs i
         in if 2 \<le> l \<and> (case best of None \<Rightarrow> True | Some (a, b) \<Rightarrow> b - a < l)
            then Some (i, i + l) else best)) None [0..<length gs]"

definition show_v6 :: "ip \<Rightarrow> bytes" where
  "show_v6 a =
     (let gs = groups a
      in case longest_zeros gs of
           None \<Rightarrow> join '':'' (map show_hex gs)
         | Some (i, j) \<Rightarrow>
             join '':'' (map show_hex (take i gs)) @ ''::'' @ join '':'' (map show_hex (drop j gs)))"

definition ip_String :: "ip \<Rightarrow> bytes" where
  "ip_String a =
     (if take 12 a = v4_prefix then join ''.'' (map show_nat (drop 12 a)) else show_v6 a)"

subsection \<open>Facts\<close>

lemma parseIPv4Fields_length: "parseIPv4Fields s = Some v \<Longrightarrow> length v = 4"
  by (auto simp: parseIPv4Fields_def Let_def split: if_splits)

lemma parseIP_no_zone: "CHR ''%'' \<in> set s \<Longrightarrow> parseIP s = None"
  by (simp add: parseIP_def)

end
