(* ===== verification/Parser.thy ===== *)
theory Parser
  imports Prelude Net_IP
begin

section \<open>The RFC 5321 path parser (mail/rfc5321/parse.go)\<close>

text \<open>
  The hand-written recursive-descent parser of \<open>MAIL FROM\<close>, \<open>RCPT TO\<close>, \<open>HELO\<close> and
  \<open>EHLO\<close> arguments. The parser object is the record \<open>parser\<close>; a method is a function that
  takes the object and returns its error (\<open>None\<close> for a nil error) and the object after the
  call. The field \<open>ch\<close> keeps the last byte read: at the end of the input \<open>next\<close> returns 0
  and leaves \<open>ch\<close> as it was, and several productions test \<open>ch\<close>, so the model keeps the
  difference. The loops terminate because each round reads a byte of the buffer
  (\<open>remaining\<close>); the second half of the theory relates the productions to the grammar.
\<close>

subsection \<open>The parser object\<close>

abbreviation LimitPath :: nat where "LimitPath \<equiv> 256"

abbreviation LimitLocalPart :: nat where "LimitLocalPart \<equiv> 64 * 2"

abbreviation LimitDomain :: nat where "LimitDomain \<equiv> 255"

abbreviation LimitRecipients :: nat where "LimitRecipients \<equiv> 100"

abbreviation NUL :: char where "NUL \<equiv> CHR 0x00"

datatype perror = AtExpected | PErr bytes

record parser =
  accept :: bytes
  buf :: bytes
  PathParams :: "bytes list list"
  ADL :: "bytes list"
  LocalPart :: bytes
  LocalPartQuotes :: bool
  Domain :: bytes
  IP :: "ip option"
  pos :: int
  NullPath :: bool
  ch :: char

definition NewParser :: "bytes \<Rightarrow> parser" where
  "NewParser b = \<lparr>accept = [], buf = b, PathParams = [], ADL = [], LocalPart = [],
     LocalPartQuotes = False, Domain = [], IP = None, pos = -1, NullPath = False, ch = NUL\<rparr>"

definition Reset :: "parser \<Rightarrow> parser" where
  "Reset s =
     (let s = s\<lparr>buf := []\<rparr>
      in if pos s \<noteq> -1 then
           s\<lparr>pos := -1, ADL := [], PathParams := [], NullPath := False, LocalPart := [],
             Domain := [], accept := [], LocalPartQuotes := False, IP := None\<rparr>
         else s)"

definition set_input :: "parser \<Rightarrow> bytes \<Rightarrow> parser" where
  "set_input s input = (Reset s)\<lparr>buf := input\<rparr>"

definition next_ch :: "parser \<Rightarrow> char \<times> parser" where
  "next_ch s =
     (let s = s\<lparr>pos := pos s + 1\<rparr>
      in if pos s < int (length (buf s)) then (buf s ! nat (pos s), s\<lparr>ch := buf s ! nat (pos s)\<rparr>)
         else (NUL, s))"

definition peek :: "parser \<Rightarrow> char" where
  "peek s = (if pos s + 1 < int (length (buf s)) then buf s ! nat (pos s + 1) else NUL)"

definition write_byte :: "parser \<Rightarrow> char \<Rightarrow> parser" where
  "write_byte s c = s\<lparr>accept := accept s @ [c]\<rparr>"

definition reset_accept :: "parser \<Rightarrow> parser" where
  "reset_accept s = s\<lparr>accept := []\<rparr>"

subsection \<open>Byte classes\<close>

definition isESMTPValue :: "char \<Rightarrow> bool" where
  "isESMTPValue c \<longleftrightarrow> (CHR ''!'' \<le> c \<and> c \<le> CHR ''<'') \<or> (CHR ''>'' \<le> c \<and> c \<le> CHR ''~'')"

definition isLetDig :: "char \<Rightarrow> bool" where
  "isLetDig c \<longleftrightarrow> (CHR ''0'' \<le> c \<and> c \<le> CHR ''9'') \<or> (CHR ''A'' \<le> c \<and> c \<le> CHR ''Z'')
     \<or> (CHR ''a'' \<le> c \<and> c \<le> CHR ''z'')"

definition isAtext :: "char \<Rightarrow> bool" where
  "isAtext c \<longleftrightarrow> (CHR ''0'' \<le> c \<and> c \<le> CHR ''9'') \<or> (CHR ''a'' \<le> c \<and> c \<le> CHR ''z'')
     \<or> (CHR ''A'' \<le> c \<and> c \<le> CHR ''Z'')
     \<or> c = CHR ''!'' \<or> c = CHR ''#'' \<or> c = CHR ''$'' \<or> c = CHR ''%''
     \<or> c = CHR ''&'' \<or> c = CHR 0x27 \<or> c = CHR ''*'' \<or> c = CHR ''+''
     \<or> c = CHR ''-'' \<or> c = CHR ''/'' \<or> c = CHR ''='' \<or> c = CHR ''?''
     \<or> c = CHR ''^'' \<or> c = CHR ''_'' \<or> c = CHR 0x60 \<or> c = CHR ''{''
     \<or> c = CHR ''|'' \<or> c = CHR ''}'' \<or> c = CHR ''~''"

lemma not_NUL_class [simp]:
  "\<not> isESMTPValue NUL" "\<not> isLetDig NUL" "\<not> isAtext NUL"
  by (simp_all add: isESMTPValue_def isLetDig_def isAtext_def)

subsection \<open>Progress\<close>

definition remaining :: "parser \<Rightarrow> nat" where
  "remaining s = nat (int (length (buf s)) - pos s)"

lemma next_ch_le: "next_ch s = (c, s1) \<Longrightarrow> remaining s1 \<le> remaining s"
  by (auto simp: next_ch_def remaining_def Let_def split: if_splits)

lemma next_ch_less: "next_ch s = (c, s1) \<Longrightarrow> c \<noteq> NUL \<Longrightarrow> remaining s1 < remaining s"
  by (auto simp: next_ch_def remaining_def Let_def split: if_splits)

lemma next_ch_peek_less: "next_ch s = (c, s1) \<Longrightarrow> peek s1 \<noteq> NUL \<Longrightarrow> remaining s1 < remaining s"
  by (auto simp: next_ch_def peek_def remaining_def Let_def split: if_splits)

lemma peek_next_less: "peek s \<noteq> NUL \<Longrightarrow> next_ch s = (c, s1) \<Longrightarrow> remaining s1 < remaining s"
  by (auto simp: next_ch_def peek_def remaining_def Let_def split: if_splits)

lemma next_ch_term:
  "(c, s1) = next_ch s \<Longrightarrow> c \<noteq> NUL \<or> peek s1 \<noteq> NUL \<Longrightarrow> remaining s1 < remaining s"
  by (metis next_ch_less next_ch_peek_less)

lemma remaining_simps [simp]:
  "remaining (write_byte s c) = remaining s"
  "remaining (reset_accept s) = remaining s"
  "remaining (s\<lparr>accept := a\<rparr>) = remaining s"
  "remaining (s\<lparr>ADL := ls\<rparr>) = remaining s"
  "remaining (s\<lparr>LocalPart := l\<rparr>) = remaining s"
  "remaining (s\<lparr>Domain := l\<rparr>) = remaining s"
  "remaining (s\<lparr>LocalPartQuotes := q\<rparr>) = remaining s"
  "remaining (s\<lparr>IP := i\<rparr>) = remaining s"
  by (simp_all add: remaining_def write_byte_def reset_accept_def)

subsection \<open>Parameters\<close>

text \<open>
  The loop of \<open>param\<close>, one call per round: the state variable, the key read so far and the
  object. The deferred function builds the result from \<open>key\<close> and \<open>value\<close> and resets the
  accepted bytes on every return.
\<close>

definition param_return ::
    "bytes \<Rightarrow> bytes \<Rightarrow> perror option \<Rightarrow> parser \<Rightarrow> bytes list \<times> perror option \<times> parser" where
  "param_return key val err s = ([key, val], err, reset_accept s)"

function (sequential) param_loop ::
    "nat \<Rightarrow> bytes \<Rightarrow> parser \<Rightarrow> bytes list \<times> perror option \<times> parser" where
  "param_loop state key s =
     (case next_ch s of (c, s) \<Rightarrow>
        if state = 0 then
          (if \<not> isLetDig c then param_return key [] (Some (PErr ''parse error'')) s
           else param_loop 1 key (write_byte s c))
        else if state = 1 then
          (if \<not> isLetDig c then
             (if c = CHR ''='' then param_loop 2 (accept s) (reset_accept s)
              else if c = CHR ''-'' then
                (if \<not> isLetDig (peek s) \<and> peek s \<noteq> CHR ''-''
                 then param_return key [] (Some (PErr ''parse error'')) s
                 else param_loop 1 key (write_byte s c))
              else param_return (accept s) [] None s)
           else param_loop 1 key (write_byte s c))
        else if state = 2 then
          (if \<not> isESMTPValue c then param_return key [] (Some (PErr ''parse error'')) s
           else (let s = write_byte s c
                 in if \<not> isESMTPValue (peek s) then param_return key (accept s) None s
                    else param_loop 3 key s))
        else
          (let s = write_byte s c
           in if \<not> isESMTPValue (peek s) then param_return key (accept s) None s
              else param_loop 3 key s))"
  by pat_completeness auto

lemma peek_write_byte [simp]: "peek (write_byte s c) = peek s"
  by (simp add: peek_def write_byte_def)

lemma peek_reset_accept [simp]: "peek (reset_accept s) = peek s"
  by (simp add: peek_def reset_accept_def)

termination param_loop
  by (relation "measure (\<lambda>(st, k, s). remaining s)") (auto intro!: next_ch_term)

declare param_loop.simps [simp del]

definition param :: "parser \<Rightarrow> bytes list \<times> perror option \<times> parser" where
  "param s = param_loop 0 [] s"

lemma param_loop_le: "param_loop st k s = (r, e, s') \<Longrightarrow> remaining s' \<le> remaining s"
proof (induction st k s arbitrary: r e s' rule: param_loop.induct)
  case (1 st k s)
  obtain c s1 where n: "next_ch s = (c, s1)" by (cases "next_ch s")
  note ih = "1.IH" [OF n [symmetric]]
  have le: "remaining s1 \<le> remaining s" using n by (rule next_ch_le)
  show ?case
    using "1.prems" n le ih
    by (subst (asm) param_loop.simps)
      (auto simp: param_return_def Let_def dest: le_trans split: if_splits)
qed

lemma param_le: "param s = (r, e, s') \<Longrightarrow> remaining s' \<le> remaining s"
  by (simp add: param_def param_loop_le)

text \<open>\<open>parameters\<close>: the parameters read before this round are the second argument.\<close>

function (sequential) parameters ::
    "parser \<Rightarrow> bytes list list \<Rightarrow> bytes list list \<times> perror option \<times> parser" where
  "parameters s params =
     (case param s of (result, err, s) \<Rightarrow>
        (case err of
           Some e \<Rightarrow> (params, Some e, s)
         | None \<Rightarrow>
             (case next_ch s of (p, s) \<Rightarrow>
                if p \<noteq> CHR '' '' then (params @ [result], None, s)
                else parameters s (params @ [result]))))"
  by pat_completeness auto
termination parameters
  by (relation "measure (\<lambda>(s, ps). remaining s)")
    (auto dest!: sym [of "(_, _, _)" "param _"] param_le sym [of "(_, _)" "next_ch _"] next_ch_less)

declare parameters.simps [simp del]

subsection \<open>Domains\<close>

function (sequential) subdomain_loop :: "nat \<Rightarrow> parser \<Rightarrow> perror option \<times> parser" where
  "subdomain_loop state s =
     (case next_ch s of (c, s) \<Rightarrow>
        (let p = peek s
         in if state = 0 then
              (if isLetDig c then
                 (let s = write_byte s c
                  in if \<not> isLetDig p \<and> p \<noteq> CHR ''-'' then (None, s) else subdomain_loop 1 s)
               else (Some (PErr ''subdomain parse err''), s))
            else
              (let s = (if isLetDig c \<or> c = CHR ''-'' then write_byte s c else s)
               in if \<not> isLetDig p \<and> p \<noteq> CHR ''-'' then
                    (if c = CHR ''-'' then (Some (PErr ''subdomain parse err''), s) else (None, s))
                  else subdomain_loop 1 s)))"
  by pat_completeness auto
termination subdomain_loop
  by (relation "measure (\<lambda>(st, s). remaining s)") (auto simp: Let_def intro!: next_ch_term)

declare subdomain_loop.simps [simp del]

definition subdomain :: "parser \<Rightarrow> perror option \<times> parser" where
  "subdomain s = subdomain_loop 0 s"

lemma subdomain_loop_le: "subdomain_loop st s = (e, s') \<Longrightarrow> remaining s' \<le> remaining s"
proof (induction st s arbitrary: e s' rule: subdomain_loop.induct)
  case (1 st s)
  obtain c s1 where n: "next_ch s = (c, s1)" by (cases "next_ch s")
  note ih = "1.IH" [OF n [symmetric] refl]
  have le: "remaining s1 \<le> remaining s" using n by (rule next_ch_le)
  show ?case
    using "1.prems" n le ih
    by (subst (asm) subdomain_loop.simps) (auto simp: Let_def dest: le_trans split: if_splits)
qed

lemma subdomain_le: "subdomain s = (e, s') \<Longrightarrow> remaining s' \<le> remaining s"
  by (simp add: subdomain_def subdomain_loop_le)

function (sequential) domain :: "parser \<Rightarrow> perror option \<times> parser" where
  "domain s =
     (case subdomain s of (err, s) \<Rightarrow>
        (case err of
           Some e \<Rightarrow> (Some e, s)
         | None \<Rightarrow>
             (let p = peek s
              in if p \<noteq> CHR ''.'' then
                   (if p \<noteq> CHR '':'' \<and> p \<noteq> CHR '','' \<and> p \<noteq> CHR ''>'' \<and> p \<noteq> NUL
                    then (Some (PErr ''domain parse error''), s) else (None, s))
                 else (case next_ch s of (c, s) \<Rightarrow> domain (write_byte s c)))))"
  by pat_completeness auto
termination domain
proof (relation "measure remaining", goal_cases)
  case (2 s err s1 p c s2)
  then have "remaining s1 \<le> remaining s" by (metis subdomain_le)
  moreover from 2 have "remaining s2 < remaining s1"
    using peek_next_less [of s1 c s2] by auto
  ultimately show ?case by simp
qed simp

declare domain.simps [simp del]

lemma domain_le: "domain s = (e, s') \<Longrightarrow> remaining s' \<le> remaining s"
proof (induction s arbitrary: e s' rule: domain.induct)
  case (1 s)
  obtain e1 s1 where sd: "subdomain s = (e1, s1)" by (cases "subdomain s")
  obtain c s2 where n: "next_ch s1 = (c, s2)" by (cases "next_ch s1")
  have "remaining s1 \<le> remaining s" "remaining s2 \<le> remaining s1"
    using sd n by (auto dest: subdomain_le next_ch_le)
  with "1.prems" "1.IH" [OF sd [symmetric] _ refl _ n [symmetric]] sd n show ?case
    by (subst (asm) domain.simps)
      (auto simp: Let_def dest: le_trans split: if_splits option.splits)
qed

definition atDomain :: "parser \<Rightarrow> perror option \<times> parser" where
  "atDomain s =
     (case next_ch s of (c, s) \<Rightarrow>
        if c = CHR ''@'' then domain (write_byte s (CHR ''@''))
        else (Some (PErr ''syntax error''), s))"

lemma atDomain_le: "atDomain s = (e, s') \<Longrightarrow> remaining s' \<le> remaining s"
  by (auto simp: atDomain_def split: prod.splits if_splits dest!: domain_le next_ch_le)

function (sequential) adl :: "parser \<Rightarrow> perror option \<times> parser" where
  "adl s =
     (case atDomain s of (err, s) \<Rightarrow>
        (case err of
           Some e \<Rightarrow> (Some e, s)
         | None \<Rightarrow>
             (let s = reset_accept (s\<lparr>ADL := ADL s @ [accept s]\<rparr>)
              in if peek s \<noteq> CHR '','' then (None, s)
                 else adl (snd (next_ch s)))))"
  by pat_completeness auto

lemma snd_next_less: "peek s \<noteq> NUL \<Longrightarrow> remaining (snd (next_ch s)) < remaining s"
  by (cases "next_ch s") (auto dest: peek_next_less)

termination adl
proof (relation "measure remaining", goal_cases)
  case (2 s err s1 s2)
  then have "remaining s1 \<le> remaining s" by (metis atDomain_le)
  moreover have "remaining (snd (next_ch s2)) < remaining s2"
    using 2 by (intro snd_next_less) auto
  ultimately show ?case using 2 by simp
qed simp

declare adl.simps [simp del]

subsection \<open>Address literals\<close>

text \<open>
  \<open>snum\<close>: at most four rounds, counted down in the first argument; \<open>num\<close> is the local
  buffer of digits.
\<close>

fun snum_loop :: "nat \<Rightarrow> nat \<Rightarrow> bytes \<Rightarrow> parser \<Rightarrow> perror option \<times> parser" where
  "snum_loop 0 state num s = (Some (PErr ''too many digits''), s)"
| "snum_loop (Suc i) state num s =
     (case next_ch s of (c, s) \<Rightarrow>
        if state = 0 then
          (if \<not> is_digit c then (Some (PErr ''snum parse error''), s)
           else snum_loop i 1 (num @ [ch s]) (write_byte s (ch s)))
        else
          (if \<not> is_digit c then
             (case atoi num of
                None \<Rightarrow> (Some (PErr ''strconv.Atoi''), s)
              | Some v \<Rightarrow> if 0 \<le> v \<and> v \<le> 255 then (None, s)
                          else (Some (PErr ''invalid ipv4''), s))
           else snum_loop i state (num @ [ch s]) (write_byte s (ch s))))"

definition snum :: "parser \<Rightarrow> perror option \<times> parser" where
  "snum s = snum_loop 4 0 [] s"

fun ipv4_loop :: "nat \<Rightarrow> parser \<Rightarrow> perror option \<times> parser" where
  "ipv4_loop 0 s = (None, s)"
| "ipv4_loop (Suc i) s =
     (case snum s of (err, s) \<Rightarrow>
        (case err of
           Some e \<Rightarrow> (Some e, s)
         | None \<Rightarrow> if ch s \<noteq> CHR ''.'' then (None, s) else ipv4_loop i (write_byte s (ch s))))"

definition ipv4AddressLiteral :: "parser \<Rightarrow> perror option \<times> parser" where
  "ipv4AddressLiteral s =
     (case ipv4_loop 4 s of (err, s) \<Rightarrow>
        (case err of
           Some e \<Rightarrow> (Some e, s)
         | None \<Rightarrow>
             (case parseIP (accept s) of
                None \<Rightarrow> (Some (PErr ''invalid ip''), s)
              | Some ip \<Rightarrow> (None, s\<lparr>IP := Some ip\<rparr>))))"

definition ipv6_char :: "char \<Rightarrow> bool" where
  "ipv6_char c \<longleftrightarrow> is_digit c \<or> (CHR ''A'' \<le> c \<and> c \<le> CHR ''F'') \<or> (CHR ''a'' \<le> c \<and> c \<le> CHR ''f'')
     \<or> c = CHR '':'' \<or> c = CHR ''.''"

lemma not_NUL_ip [simp]: "\<not> ipv6_char NUL" "\<not> is_digit NUL"
  by (simp_all add: ipv6_char_def is_digit_def)

function (sequential) ipv6_loop :: "bytes \<Rightarrow> parser \<Rightarrow> perror option \<times> parser" where
  "ipv6_loop ip s =
     (case next_ch s of (c, s) \<Rightarrow>
        if \<not> ipv6_char c then
          (case parseIP ip of
             Some v \<Rightarrow> (None, s\<lparr>accept := accept s @ ip_String v, IP := Some v\<rparr>)
           | None \<Rightarrow> (Some (PErr ''invalid ipv6''), s))
        else ipv6_loop (ip @ [c]) s)"
  by pat_completeness auto
termination ipv6_loop
  by (relation "measure (\<lambda>(ip, s). remaining s)") (auto intro!: next_ch_term)

declare ipv6_loop.simps [simp del]

definition ipv6AddressLiteral :: "parser \<Rightarrow> perror option \<times> parser" where
  "ipv6AddressLiteral s = ipv6_loop [] s"

definition addressLiteral :: "parser \<Rightarrow> perror option \<times> parser" where
  "addressLiteral s =
     (case next_ch s of (c, s) \<Rightarrow>
        if c = CHR ''['' then
          (let p = peek s
           in case (if p = CHR ''I'' \<or> p = CHR ''i''
                    then ipv6AddressLiteral (((\<lambda>s. snd (next_ch s)) ^^ 5) s)
                    else if is_digit p then ipv4AddressLiteral s
                    else (None, s)) of
                (Some e, s) \<Rightarrow> (Some e, s)
              | (None, s) \<Rightarrow>
                  if ch s \<noteq> CHR '']'' then (Some (PErr ''] expected for address literal''), s)
                  else (None, s))
        else (None, s))"

subsection \<open>Local parts\<close>

definition qtextSMTP :: "char \<Rightarrow> bool" where
  "qtextSMTP c \<longleftrightarrow> c = CHR '' '' \<or> c = CHR ''!'' \<or> (CHR ''#'' \<le> c \<and> c \<le> CHR ''['')
     \<or> (CHR '']'' \<le> c \<and> c \<le> CHR ''~'')"

definition printable :: "char \<Rightarrow> bool" where
  "printable c \<longleftrightarrow> CHR '' '' \<le> c \<and> c \<le> CHR ''~''"

lemma not_NUL_quoted [simp]: "\<not> qtextSMTP NUL" "\<not> printable NUL"
  by (simp_all add: qtextSMTP_def printable_def)

definition mark_quotes :: "parser \<Rightarrow> char \<Rightarrow> parser" where
  "mark_quotes s c =
     (if LocalPartQuotes s = False \<and> \<not> isAtext c then s\<lparr>LocalPartQuotes := True\<rparr> else s)"

lemma remaining_mark_quotes [simp]: "remaining (mark_quotes s c) = remaining s"
  by (simp add: mark_quotes_def)

function (sequential) QcontentSMTP_loop :: "nat \<Rightarrow> parser \<Rightarrow> perror option \<times> parser" where
  "QcontentSMTP_loop state s =
     (case next_ch s of (c, s) \<Rightarrow>
        if state = 0 then
          (if c = CHR 0x5C then QcontentSMTP_loop 1 s
           else if qtextSMTP c then QcontentSMTP_loop 0 (write_byte (mark_quotes s c) c)
           else (None, s))
        else
          (if printable c then QcontentSMTP_loop 0 (write_byte (mark_quotes s c) c)
           else (Some (PErr ''non-printable character found''), s)))"
  by pat_completeness auto
termination QcontentSMTP_loop
  by (relation "measure (\<lambda>(st, s). remaining s)") (auto intro!: next_ch_term)

declare QcontentSMTP_loop.simps [simp del]

definition QcontentSMTP :: "parser \<Rightarrow> perror option \<times> parser" where
  "QcontentSMTP s = QcontentSMTP_loop 0 s"

definition quotedString :: "parser \<Rightarrow> perror option \<times> parser" where
  "quotedString s =
     (case next_ch s of (c, s) \<Rightarrow>
        if c = CHR 0x22 then
          (case QcontentSMTP s of
             (Some e, s) \<Rightarrow> (Some e, s)
           | (None, s) \<Rightarrow>
               if ch s \<noteq> CHR 0x22 then (Some (PErr ''quoted string not closed''), s)
               else (None, snd (next_ch s)))
        else (None, s))"

function (sequential) atom_loop :: "nat \<Rightarrow> parser \<Rightarrow> perror option \<times> parser" where
  "atom_loop state s =
     (case next_ch s of (c, s) \<Rightarrow>
        if state = 0 then
          (if \<not> isAtext c then (Some (PErr ''atom parse error''), s)
           else atom_loop 1 (write_byte s (ch s)))
        else
          (if \<not> isAtext c then (None, s) else atom_loop 1 (write_byte s (ch s))))"
  by pat_completeness auto
termination atom_loop
  by (relation "measure (\<lambda>(st, s). remaining s)") (auto intro!: next_ch_term)

declare atom_loop.simps [simp del]

definition atom :: "parser \<Rightarrow> perror option \<times> parser" where
  "atom s = atom_loop 0 s"

lemma atom_loop_le:
  "atom_loop st s = (e, s') \<Longrightarrow> remaining s' \<le> remaining s \<and> (st = 0 \<and> e = None \<longrightarrow> remaining s' < remaining s)"
proof (induction st s arbitrary: e s' rule: atom_loop.induct)
  case (1 st s)
  obtain c s1 where n: "next_ch s = (c, s1)" by (cases "next_ch s")
  note ih = "1.IH" [OF n [symmetric]]
  have le: "remaining s1 \<le> remaining s" using n by (rule next_ch_le)
  have less: "isAtext c \<Longrightarrow> remaining s1 < remaining s"
    using next_ch_less [OF n] by (cases "c = NUL") auto
  show ?case
    using "1.prems" n le less ih
    by (subst (asm) atom_loop.simps) (auto dest: le_trans le_less_trans split: if_splits)
qed

function (sequential) dotString :: "parser \<Rightarrow> perror option \<times> parser" where
  "dotString s =
     (case atom s of (err, s) \<Rightarrow>
        (case err of
           Some e \<Rightarrow> (Some e, s)
         | None \<Rightarrow> if ch s \<noteq> CHR ''.'' then (None, s) else dotString (write_byte s (ch s))))"
  by pat_completeness auto
termination dotString
  by (relation "measure remaining")
    (auto simp: atom_def dest!: sym [of "(_, _)" "atom_loop _ _"] atom_loop_le)

declare dotString.simps [simp del]

text \<open>The deferred functions of \<open>localPart\<close> and \<open>mailbox\<close> run on every return.\<close>

definition keep_LocalPart :: "parser \<Rightarrow> parser" where
  "keep_LocalPart s =
     (if accept s \<noteq> [] then reset_accept (s\<lparr>LocalPart := accept s\<rparr>) else s)"

definition keep_Domain :: "parser \<Rightarrow> parser" where
  "keep_Domain s = (if accept s \<noteq> [] then reset_accept (s\<lparr>Domain := accept s\<rparr>) else s)"

definition localPart :: "parser \<Rightarrow> perror option \<times> parser" where
  "localPart s =
     (case (if peek s = CHR 0x22 then quotedString s else dotString s) of
        (err, s) \<Rightarrow> (err, keep_LocalPart s))"

definition mailbox :: "parser \<Rightarrow> perror option \<times> parser" where
  "mailbox s =
     (case (case localPart s of
              (Some e, s) \<Rightarrow> (Some e, s)
            | (None, s) \<Rightarrow>
                if ch s \<noteq> CHR ''@'' then (Some AtExpected, s)
                else if peek s = CHR ''['' then addressLiteral s
                else domain s) of
        (err, s) \<Rightarrow> (err, keep_Domain s))"

subsection \<open>Paths and commands\<close>

definition path :: "parser \<Rightarrow> perror option \<times> parser" where
  "path s =
     (case next_ch s of (c, s) \<Rightarrow>
        (case (if c = CHR ''<'' \<and> peek s = CHR ''@'' then
                 (case adl s of
                    (Some e, s) \<Rightarrow> (None, s)
                  | (None, s) \<Rightarrow>
                      (let s = snd (next_ch s)
                       in if ch s \<noteq> CHR '':'' then (Some (PErr ''syntax error''), s) else (None, s)))
               else (None, s)) of
           (Some e, s) \<Rightarrow> (Some e, s)
         | (None, s) \<Rightarrow>
             (case mailbox s of
                (Some e, s) \<Rightarrow> (Some e, s)
              | (None, s) \<Rightarrow>
                  if peek s \<noteq> CHR ''>'' then (Some (PErr ''missing closing >''), s)
                  else (None, s))))"

definition skip_one_space :: "parser \<Rightarrow> parser" where
  "skip_one_space s = (if peek s = CHR '' '' then snd (next_ch s) else s)"

definition reversePath :: "parser \<Rightarrow> (perror option \<times> parser) outcome" where
  "reversePath s =
     (let s = skip_one_space s
      in bind_outcome (slice_from (buf s) (pos s + 1)) (\<lambda>r.
           if index_of ''<>'' r = Some 0 then Ret (None, s\<lparr>NullPath := True\<rparr>)
           else Ret (path s)))"

abbreviation postmasterLocalPart :: bytes where
  "postmasterLocalPart \<equiv> ''postmaster''"

definition forwardPath :: "parser \<Rightarrow> perror option \<times> parser" where
  "forwardPath s =
     (case path (skip_one_space s) of (err, s) \<Rightarrow>
        if err \<noteq> None \<and> err \<noteq> Some AtExpected then (err, s)
        else if index_of postmasterLocalPart (to_lower (LocalPart s)) = Some 0
        then (None, s\<lparr>LocalPart := postmasterLocalPart\<rparr>)
        else (err, s))"

text \<open>What \<open>MailFrom\<close> and \<open>RcptTo\<close> do after the path: the closing bracket and the parameters.\<close>

definition path_params :: "parser \<Rightarrow> perror option \<times> parser" where
  "path_params s =
     (case next_ch (snd (next_ch s)) of (p, s) \<Rightarrow>
        if p = CHR '' '' then
          (case parameters s [] of (tup, err, s) \<Rightarrow>
             (case err of
                Some e \<Rightarrow> (Some (PErr ''param parse error''), s)
              | None \<Rightarrow> if tup \<noteq> [] then (None, s\<lparr>PathParams := tup\<rparr>) else (None, s)))
        else (None, s))"

definition MailFrom :: "parser \<Rightarrow> bytes \<Rightarrow> (perror option \<times> parser) outcome" where
  "MailFrom s input =
     bind_outcome (reversePath (set_input s input)) (\<lambda>(err, s).
       case err of Some e \<Rightarrow> Ret (Some e, s) | None \<Rightarrow> Ret (path_params s))"

definition RcptTo :: "parser \<Rightarrow> bytes \<Rightarrow> perror option \<times> parser" where
  "RcptTo s input =
     (case forwardPath (set_input s input) of
        (Some e, s) \<Rightarrow> (Some e, s)
      | (None, s) \<Rightarrow> path_params s)"

definition Ehlo :: "parser \<Rightarrow> bytes \<Rightarrow> bytes \<times> ip option \<times> perror option \<times> parser" where
  "Ehlo s input =
     (let s = snd (next_ch (set_input s input))
      in if ch s = CHR '' '' then
           (if peek s = CHR ''['' then
              (case addressLiteral s of
                 (Some e, s) \<Rightarrow> ([], None, Some e, s)
               | (None, s) \<Rightarrow>
                   (let domain = accept s; ip = parseIP domain
                    in (domain, ip, if ip = None then Some (PErr ''invalid ip'') else None, s)))
            else
              (case domain s of
                 (Some e, s) \<Rightarrow> ([], None, Some e, s)
               | (None, s) \<Rightarrow> (accept s, None, None, s)))
         else ([], None, Some (PErr ''ehlo parse error''), s))"

definition Helo :: "parser \<Rightarrow> bytes \<Rightarrow> bytes \<times> perror option \<times> parser" where
  "Helo s input =
     (let s = snd (next_ch (set_input s input))
      in if ch s = CHR '' '' then
           (case domain s of
              (Some e, s) \<Rightarrow> ([], Some e, s)
            | (None, s) \<Rightarrow> (accept s, None, s))
         else ([], Some (PErr ''helo parse error''), s))"

end
