(* ===== verification/Grammar.thy ===== *)
theory Grammar
  imports Parser
begin

section \<open>The parser and the grammar of RFC 5321\<close>

text \<open>
  The productions of the parser related to the strings they stand for. \<open>rest s\<close> is the
  input not yet read and \<open>moved n a s\<close> the parser after reading \<open>n\<close> bytes and accepting the
  bytes \<open>a\<close>; each production is characterised by equations over these two, from which the
  soundness and completeness of the commands follow.
\<close>

subsection \<open>Grammar\<close>

definition isLDH :: "char \<Rightarrow> bool" where
  "isLDH c \<longleftrightarrow> isLetDig c \<or> c = CHR ''-''"

definition isSubdomain :: "bytes \<Rightarrow> bool" where
  "isSubdomain w \<longleftrightarrow> w \<noteq> [] \<and> list_all isLDH w \<and> isLetDig (hd w) \<and> isLetDig (last w)"

definition isDomain :: "bytes \<Rightarrow> bool" where
  "isDomain d \<longleftrightarrow> list_all isSubdomain (split_on (CHR ''.'') d)"

definition isAtom :: "bytes \<Rightarrow> bool" where
  "isAtom w \<longleftrightarrow> w \<noteq> [] \<and> list_all isAtext w"

definition isDotString :: "bytes \<Rightarrow> bool" where
  "isDotString l \<longleftrightarrow> list_all isAtom (split_on (CHR ''.'') l)"

definition ends_domain :: "bytes \<Rightarrow> bool" where
  "ends_domain r \<longleftrightarrow> (case r of [] \<Rightarrow> True | c # _ \<Rightarrow> c \<in> {CHR '':'', CHR '','', CHR ''>'', NUL})"

lemma isLDH_class [simp]: "\<not> isLDH (CHR ''.'')" "\<not> isLDH NUL" "\<not> isLDH (CHR ''@'')"
  by (simp_all add: isLDH_def isLetDig_def)

lemma isAtext_class [simp]: "\<not> isAtext (CHR ''.'')" "\<not> isAtext (CHR ''@'')" "\<not> isAtext (CHR 0x22)"
  by (simp_all add: isAtext_def)

lemma isDomain_Cons:
  "CHR ''.'' \<notin> set w \<Longrightarrow> isDomain (w @ CHR ''.'' # d) \<longleftrightarrow> isSubdomain w \<and> isDomain d"
  by (simp add: isDomain_def split_on_append)

lemma isDotString_Cons:
  "CHR ''.'' \<notin> set w \<Longrightarrow> isDotString (w @ CHR ''.'' # d) \<longleftrightarrow> isAtom w \<and> isDotString d"
  by (simp add: isDotString_def split_on_append)

lemma list_all_notin: "list_all P w \<Longrightarrow> \<not> P c \<Longrightarrow> c \<notin> set w"
  by (auto simp: list_all_iff)

lemma isDomain_single: "CHR ''.'' \<notin> set w \<Longrightarrow> isDomain w \<longleftrightarrow> isSubdomain w"
  by (simp add: isDomain_def split_on_notin)

lemma isDotString_single: "CHR ''.'' \<notin> set w \<Longrightarrow> isDotString w \<longleftrightarrow> isAtom w"
  by (simp add: isDotString_def split_on_notin)

text \<open>A string is its first label, or its first label, a dot and the other labels.\<close>

lemma label_cases:
  obtains (single) "CHR ''.'' \<notin> set d"
  | (more) w d' where "d = w @ CHR ''.'' # d'" and "CHR ''.'' \<notin> set w"
proof (cases "CHR ''.'' \<in> set d")
  case True
  then obtain w d' where "d = w @ CHR ''.'' # d'" and "CHR ''.'' \<notin> set w"
    by (meson split_list_first)
  then show ?thesis by (rule more)
qed (rule single)

subsection \<open>Reading\<close>

definition pwf :: "parser \<Rightarrow> bool" where
  "pwf s \<longleftrightarrow> -1 \<le> pos s"

definition rest :: "parser \<Rightarrow> bytes" where
  "rest s = drop (nat (pos s + 1)) (buf s)"

definition moved :: "nat \<Rightarrow> bytes \<Rightarrow> parser \<Rightarrow> parser" where
  "moved n a s = s\<lparr>pos := pos s + int n, ch := (if n = 0 then ch s else hd (drop (n - 1) (rest s))),
     accept := accept s @ a\<rparr>"

lemma pwf_moved [simp]: "pwf s \<Longrightarrow> pwf (moved n a s)"
  by (simp add: pwf_def moved_def)

lemma rest_moved [simp]: "pwf s \<Longrightarrow> rest (moved n a s) = drop n (rest s)"
proof -
  assume "pwf s"
  then have "nat (pos s + int n + 1) = n + nat (pos s + 1)" by (simp add: pwf_def)
  then show ?thesis by (simp add: rest_def moved_def)
qed

lemma moved_0 [simp]: "moved 0 [] s = s"
  by (simp add: moved_def)

lemma moved_fields [simp]:
  "accept (moved n a s) = accept s @ a"
  "buf (moved n a s) = buf s"
  "PathParams (moved n a s) = PathParams s"
  "ADL (moved n a s) = ADL s"
  "LocalPart (moved n a s) = LocalPart s"
  "LocalPartQuotes (moved n a s) = LocalPartQuotes s"
  "Domain (moved n a s) = Domain s"
  "IP (moved n a s) = IP s"
  "NullPath (moved n a s) = NullPath s"
  by (simp_all add: moved_def)

lemma pos_moved: "pos (moved n a s) = pos s + int n"
  by (simp add: moved_def)

lemma ch_moved_if: "ch (moved n a s) = (if n = 0 then ch s else hd (drop (n - 1) (rest s)))"
  by (simp add: moved_def)

lemma moved_moved [simp]: "pwf s \<Longrightarrow> moved n b (moved m a s) = moved (m + n) (a @ b) s"
  by (rule parser.equality) (auto simp: pos_moved ch_moved_if add.commute moved_def [of n] moved_def [of "m + n"])

lemma ch_moved [simp]: "ch (moved (Suc n) a s) = hd (drop n (rest s))"
  by (simp add: moved_def)

lemma write_byte_moved [simp]: "write_byte s c = moved 0 [c] s"
  by (simp add: write_byte_def moved_def)

lemma rest_buf: "pwf s \<Longrightarrow> pos s + 1 < int (length (buf s)) \<longleftrightarrow> rest s \<noteq> []"
  by (auto simp: rest_def pwf_def)

lemma next_ch_Cons: "pwf s \<Longrightarrow> rest s = c # cs \<Longrightarrow> next_ch s = (c, moved 1 [] s)"
proof -
  assume s: "pwf s" and r: "rest s = c # cs"
  then have i: "pos s + 1 < int (length (buf s))" by (simp add: rest_buf)
  have "buf s ! nat (pos s + 1) = c"
    using r s by (metis drop_eq_Nil2 hd_drop_conv_nth linorder_not_less list.sel(1) list.simps(3) rest_def)
  with i r show ?thesis by (simp add: next_ch_def Let_def moved_def)
qed

lemma next_ch_Nil: "pwf s \<Longrightarrow> rest s = [] \<Longrightarrow> next_ch s = (NUL, s\<lparr>pos := pos s + 1\<rparr>)"
  using rest_buf [of s] by (simp add: next_ch_def Let_def)

lemma peek_rest: "pwf s \<Longrightarrow> peek s = (case rest s of [] \<Rightarrow> NUL | c # _ \<Rightarrow> c)"
proof -
  assume s: "pwf s"
  show ?thesis
  proof (cases "rest s")
    case Nil
    with rest_buf [OF s] show ?thesis by (simp add: peek_def)
  next
    case (Cons c cs)
    with rest_buf [OF s] have i: "pos s + 1 < int (length (buf s))" by simp
    have "buf s ! nat (pos s + 1) = c"
      using Cons by (metis drop_eq_Nil2 hd_drop_conv_nth linorder_not_less list.sel(1) list.simps(3) rest_def)
    with i Cons show ?thesis by (simp add: peek_def)
  qed
qed

subsection \<open>Domains\<close>

lemma subdomain_loop1:
  "pwf s \<Longrightarrow> rest s = w @ r \<Longrightarrow> w \<noteq> [] \<Longrightarrow> list_all isLDH w \<Longrightarrow> r = [] \<or> \<not> isLDH (hd r) \<Longrightarrow>
   subdomain_loop 1 s
     = (if last w = CHR ''-'' then Some (PErr ''subdomain parse err'') else None, moved (length w) w s)"
proof (induction w arbitrary: s)
  case Nil
  then show ?case by simp
next
  case (Cons c w)
  let ?s = "moved 1 [] s"
  have n: "next_ch s = (c, ?s)" using Cons.prems by (intro next_ch_Cons) auto
  have c: "isLetDig c \<or> c = CHR ''-''" using Cons.prems by (simp add: isLDH_def)
  have pk: "peek ?s = (case w @ r of [] \<Rightarrow> NUL | c # _ \<Rightarrow> c)"
    using Cons.prems by (simp add: peek_rest)
  show ?case
  proof (cases w)
    case Nil
    with pk Cons.prems have "\<not> isLDH (peek ?s)" by (cases r) auto
    then show ?thesis using n c Nil Cons.prems
      by (subst subdomain_loop.simps) (auto simp: Let_def isLDH_def)
  next
    case (Cons d w')
    with pk Cons.prems have "isLDH (peek ?s)" by simp
    moreover have "subdomain_loop 1 (moved 1 [c] s)
      = (if last w = CHR ''-'' then Some (PErr ''subdomain parse err'') else None,
         moved (length w) w (moved 1 [c] s))"
      using Cons \<open>pwf s\<close> Cons.prems by (intro Cons.IH) auto
    ultimately show ?thesis using n c Cons \<open>pwf s\<close>
      by (subst subdomain_loop.simps) (auto simp: Let_def isLDH_def)
  qed
qed

lemma subdomain_rest:
  assumes "pwf s" and "rest s = w @ r" and "w \<noteq> []" and "list_all isLDH w" and "isLetDig (hd w)"
    and "r = [] \<or> \<not> isLDH (hd r)"
  shows "subdomain s
     = (if last w = CHR ''-'' then Some (PErr ''subdomain parse err'') else None, moved (length w) w s)"
proof -
  obtain c v where w: "w = c # v" using assms(3) by (cases w) auto
  let ?s = "moved 1 [] s"
  have n: "next_ch s = (c, ?s)" using assms w by (intro next_ch_Cons) auto
  have c: "isLetDig c" using assms w by simp
  have pk: "peek ?s = (case v @ r of [] \<Rightarrow> NUL | c # _ \<Rightarrow> c)"
    using assms w by (simp add: peek_rest)
  show ?thesis
  proof (cases v)
    case Nil
    with pk assms have "\<not> isLDH (peek ?s)" by (cases r) auto
    moreover have "c \<noteq> CHR ''-''" using c by (auto simp: isLetDig_def)
    ultimately show ?thesis using n c Nil w assms
      unfolding subdomain_def by (subst subdomain_loop.simps) (auto simp: Let_def isLDH_def)
  next
    case (Cons d v')
    with pk assms w have "isLDH (peek ?s)" by simp
    moreover have "subdomain_loop 1 (moved 1 [c] s)
      = (if last v = CHR ''-'' then Some (PErr ''subdomain parse err'') else None,
         moved (length v) v (moved 1 [c] s))"
      using Cons assms w by (intro subdomain_loop1 [where r = r]) auto
    ultimately show ?thesis using n c Cons w assms(1)
      unfolding subdomain_def by (subst subdomain_loop.simps) (auto simp: Let_def isLDH_def)
  qed
qed

lemma subdomain_complete:
  assumes "pwf s" and "rest s = w @ r" and "isSubdomain w" and "r = [] \<or> \<not> isLDH (hd r)"
  shows "subdomain s = (None, moved (length w) w s)"
  using assms subdomain_rest [of s w r] by (auto simp: isSubdomain_def isLetDig_def)

lemma subdomain_sound:
  assumes "pwf s" and "subdomain s = (None, s')"
  shows "\<exists>w r. rest s = w @ r \<and> isSubdomain w \<and> (r = [] \<or> \<not> isLDH (hd r)) \<and> s' = moved (length w) w s"
proof -
  define w where "w = takeWhile isLDH (rest s)"
  define r where "r = dropWhile isLDH (rest s)"
  have wr: "rest s = w @ r" by (simp add: w_def r_def)
  have w: "list_all isLDH w" by (auto simp: w_def list_all_iff dest: set_takeWhileD)
  have r: "r = [] \<or> \<not> isLDH (hd r)" unfolding r_def using hd_dropWhile by blast
  have "rest s \<noteq> [] \<and> isLetDig (hd (rest s))"
  proof (cases "rest s")
    case Nil
    then show ?thesis using assms
      by (simp add: subdomain_def subdomain_loop.simps next_ch_Nil split: if_splits)
  next
    case (Cons c cs)
    then show ?thesis using assms next_ch_Cons [OF assms(1) Cons]
      by (simp add: subdomain_def subdomain_loop.simps [of 0 s] Let_def split: if_splits)
  qed
  then have "w \<noteq> [] \<and> isLetDig (hd w)"
    by (cases "rest s") (auto simp: w_def isLDH_def)
  with assms w r wr show ?thesis
    using subdomain_rest [of s w r] last_in_set [of w]
    by (intro exI [of _ w] exI [of _ r]) (auto simp: isSubdomain_def list_all_iff isLDH_def split: if_splits)
qed

lemma domain_complete:
  "pwf s \<Longrightarrow> rest s = d @ r \<Longrightarrow> isDomain d \<Longrightarrow> ends_domain r \<Longrightarrow> domain s = (None, moved (length d) d s)"
proof (induction "length d" arbitrary: d s rule: less_induct)
  case less
  have r: "r = [] \<or> \<not> isLDH (hd r)"
    using less.prems by (cases r) (auto simp: ends_domain_def isLDH_def isLetDig_def)
  show ?case
  proof (cases d rule: label_cases)
    case single
    have sd: "subdomain s = (None, moved (length d) d s)"
      using less.prems r single by (intro subdomain_complete) (auto simp: isDomain_single)
    have "peek (moved (length d) d s) = (case r of [] \<Rightarrow> NUL | c # _ \<Rightarrow> c)"
      using less.prems by (simp add: peek_rest)
    with less.prems sd show ?thesis
      by (subst domain.simps) (auto simp: ends_domain_def Let_def split: list.splits)
  next
    case (more w d')
    have sd: "subdomain s = (None, moved (length w) w s)"
      using less.prems more by (intro subdomain_complete [where r = "CHR ''.'' # d' @ r"]) (auto simp: isDomain_Cons)
    have pk: "peek (moved (length w) w s) = CHR ''.''"
      using less.prems more by (simp add: peek_rest)
    have n: "next_ch (moved (length w) w s) = (CHR ''.'', moved 1 [] (moved (length w) w s))"
      using less.prems more by (intro next_ch_Cons) auto
    have "domain (moved (length w + 1) (w @ ''.'') s)
      = (None, moved (length d') d' (moved (length w + 1) (w @ ''.'') s))"
      using less.prems more by (intro less.hyps) (auto simp: isDomain_Cons)
    with less.prems sd pk n more show ?thesis
      by (subst domain.simps) (simp add: Let_def)
  qed
qed

lemma domain_sound:
  "pwf s \<Longrightarrow> domain s = (None, s') \<Longrightarrow>
   \<exists>d r. rest s = d @ r \<and> isDomain d \<and> ends_domain r \<and> s' = moved (length d) d s"
proof (induction s arbitrary: s' rule: domain.induct)
  case (1 s)
  obtain s1 where sd: "subdomain s = (None, s1)"
    using "1.prems" by (subst (asm) domain.simps) (auto split: prod.splits option.splits)
  then obtain w r where w: "rest s = w @ r" "isSubdomain w" "r = [] \<or> \<not> isLDH (hd r)"
    "s1 = moved (length w) w s"
    using subdomain_sound "1.prems"(1) by blast
  have dot: "CHR ''.'' \<notin> set w"
    using w(2) list_all_notin [of isLDH w "CHR ''.''"] by (simp add: isSubdomain_def)
  have pk: "peek s1 = (case r of [] \<Rightarrow> NUL | c # _ \<Rightarrow> c)"
    using w "1.prems"(1) by (simp add: peek_rest)
  show ?case
  proof (cases "peek s1 = CHR ''.''")
    case False
    with "1.prems" sd have "s' = s1" and "ends_domain r"
      by (subst (asm) domain.simps,
          use pk in \<open>auto simp: Let_def ends_domain_def split: if_splits list.splits\<close>)+
    with w dot show ?thesis
      by (intro exI [of _ w] exI [of _ r]) (auto simp: isDomain_single)
  next
    case True
    with pk obtain r' where r': "r = CHR ''.'' # r'" by (cases r) auto
    have n: "next_ch s1 = (CHR ''.'', moved 1 [] s1)"
      using w r' "1.prems"(1) by (intro next_ch_Cons) auto
    have "domain (moved 1 ''.'' s1) = (None, s')"
      using "1.prems" sd True n w by (subst (asm) domain.simps) (simp add: Let_def)
    then have "\<exists>d r. rest (moved 1 ''.'' s1) = d @ r \<and> isDomain d \<and> ends_domain r
        \<and> s' = moved (length d) d (moved 1 ''.'' s1)"
      using "1.IH" [OF sd [symmetric] refl refl _ n [symmetric]] True w "1.prems"(1) by simp
    then obtain d q where "r' = d @ q" "isDomain d" "ends_domain q"
        "s' = moved (length w + 1 + length d) (w @ ''.'' @ d) s"
      using w r' "1.prems"(1) by auto
    then show ?thesis using w r' dot
      by (intro exI [of _ "w @ CHR ''.'' # d"] exI [of _ q]) (auto simp: isDomain_Cons)
  qed
qed

subsection \<open>Dot-strings\<close>

definition past_end :: "parser \<Rightarrow> parser" where
  "past_end s = s\<lparr>pos := pos s + 1\<rparr>"

lemma past_end_fields [simp]:
  "accept (past_end s) = accept s" "ch (past_end s) = ch s" "pwf s \<Longrightarrow> pwf (past_end s)"
  "LocalPart (past_end s) = LocalPart s"
  by (simp_all add: past_end_def pwf_def)

lemma atom_loop1:
  "pwf s \<Longrightarrow> rest s = w @ r \<Longrightarrow> list_all isAtext w \<Longrightarrow> r = [] \<or> \<not> isAtext (hd r) \<Longrightarrow>
   atom_loop 1 s = (None, if r = [] then past_end (moved (length w) w s) else moved (length w + 1) w s)"
proof (induction w arbitrary: s)
  case Nil
  then show ?case
    by (subst atom_loop.simps) (cases r; auto simp: next_ch_Nil next_ch_Cons past_end_def)
next
  case (Cons c w)
  have n: "next_ch s = (c, moved 1 [] s)" using Cons.prems by (intro next_ch_Cons) auto
  have "atom_loop 1 (moved 1 [c] s)
    = (None, if r = [] then past_end (moved (length w) w (moved 1 [c] s))
       else moved (length w + 1) w (moved 1 [c] s))"
    using Cons.prems by (intro Cons.IH) auto
  with n Cons.prems show ?case by (subst atom_loop.simps) auto
qed

lemma atom_rest:
  assumes "pwf s" and "rest s = w @ r" and "isAtom w" and "r = [] \<or> \<not> isAtext (hd r)"
  shows "atom s = (None, if r = [] then past_end (moved (length w) w s) else moved (length w + 1) w s)"
proof -
  obtain c v where w: "w = c # v" using assms(3) by (cases w) (auto simp: isAtom_def)
  have n: "next_ch s = (c, moved 1 [] s)" using assms w by (intro next_ch_Cons) auto
  have "atom_loop 1 (moved 1 [c] s)
    = (None, if r = [] then past_end (moved (length v) v (moved 1 [c] s))
       else moved (length v + 1) v (moved 1 [c] s))"
    using assms w by (intro atom_loop1) (auto simp: isAtom_def)
  with n assms w show ?thesis
    unfolding atom_def by (subst atom_loop.simps) (auto simp: isAtom_def)
qed

lemma atom_sound:
  assumes "pwf s" and "atom s = (None, s')"
  shows "\<exists>w r. rest s = w @ r \<and> isAtom w \<and> (r = [] \<or> \<not> isAtext (hd r))
    \<and> s' = (if r = [] then past_end (moved (length w) w s) else moved (length w + 1) w s)"
proof -
  define w where "w = takeWhile isAtext (rest s)"
  define r where "r = dropWhile isAtext (rest s)"
  have wr: "rest s = w @ r" by (simp add: w_def r_def)
  have w: "list_all isAtext w" by (auto simp: w_def list_all_iff dest: set_takeWhileD)
  have r: "r = [] \<or> \<not> isAtext (hd r)" unfolding r_def using hd_dropWhile by blast
  have "rest s \<noteq> [] \<and> isAtext (hd (rest s))"
  proof (cases "rest s")
    case Nil
    then show ?thesis using assms
      by (simp add: atom_def atom_loop.simps [of 0 s] next_ch_Nil)
  next
    case (Cons c cs)
    then show ?thesis using assms next_ch_Cons [OF assms(1) Cons]
      by (simp add: atom_def atom_loop.simps [of 0 s] split: if_splits)
  qed
  then have "w \<noteq> []" by (cases "rest s") (auto simp: w_def)
  with w have "isAtom w" by (simp add: isAtom_def)
  with assms r wr show ?thesis
    using atom_rest [of s w r] by (intro exI [of _ w] exI [of _ r]) auto
qed

lemma dotString_complete:
  "pwf s \<Longrightarrow> rest s = l @ c # r \<Longrightarrow> isDotString l \<Longrightarrow> \<not> isAtext c \<Longrightarrow> c \<noteq> CHR ''.'' \<Longrightarrow>
   dotString s = (None, moved (length l + 1) l s)"
proof (induction "length l" arbitrary: l s rule: less_induct)
  case less
  show ?case
  proof (cases l rule: label_cases)
    case single
    have "atom s = (None, moved (length l + 1) l s)"
      using less.prems single atom_rest [of s l "c # r"] by (simp add: isDotString_single)
    with less.prems show ?thesis by (subst dotString.simps) simp
  next
    case (more w l')
    have a: "atom s = (None, moved (length w + 1) w s)"
      using less.prems more atom_rest [of s w "CHR ''.'' # l' @ c # r"]
      by (simp add: isDotString_Cons)
    have "dotString (moved (length w + 1) (w @ ''.'') s)
      = (None, moved (length l' + 1) l' (moved (length w + 1) (w @ ''.'') s))"
      using less.prems more by (intro less.hyps) (auto simp: isDotString_Cons)
    with less.prems a more show ?thesis by (subst dotString.simps) simp
  qed
qed

lemma dotString_sound:
  "pwf s \<Longrightarrow> dotString s = (None, s') \<Longrightarrow>
   \<exists>l. isDotString l \<and> accept s' = accept s @ l \<and> pwf s' \<and>
     (ch s' = CHR ''@'' \<longrightarrow> (\<exists>r. rest s = l @ CHR ''@'' # r \<and> s' = moved (length l + 1) l s))"
proof (induction s arbitrary: s' rule: dotString.induct)
  case (1 s)
  obtain s1 where a: "atom s = (None, s1)"
    using "1.prems" by (subst (asm) dotString.simps) (auto split: prod.splits option.splits)
  then obtain w r where w: "rest s = w @ r" "isAtom w" "r = [] \<or> \<not> isAtext (hd r)"
    "s1 = (if r = [] then past_end (moved (length w) w s) else moved (length w + 1) w s)"
    using atom_sound "1.prems"(1) by blast
  have dot: "CHR ''.'' \<notin> set w"
    using w(2) list_all_notin [of isAtext w "CHR ''.''"] by (simp add: isAtom_def)
  have fin: "r = [] \<Longrightarrow> isAtext (ch s1)"
    using w by (cases w rule: rev_cases) (auto simp: isAtom_def ch_moved_if)
  show ?case
  proof (cases "ch s1 = CHR ''.''")
    case False
    with a "1.prems" have s': "s' = s1" by (subst (asm) dotString.simps) simp
    have "ch s1 = CHR ''@'' \<Longrightarrow> \<exists>q. r = CHR ''@'' # q"
      using fin w by (cases r) auto
    then show ?thesis using w dot s' "1.prems"(1)
      by (intro exI [of _ w]) (auto simp: isDotString_single)
  next
    case True
    with fin w obtain q where r: "r = CHR ''.'' # q" by (cases r) auto
    with w have s1: "s1 = moved (length w + 1) w s" by simp
    have "dotString (moved 0 ''.'' s1) = (None, s')"
      using "1.prems" a True by (subst (asm) dotString.simps) simp
    with "1.IH" [OF a [symmetric] refl] True "1.prems"(1) s1
    obtain l where l: "isDotString l" "accept s' = accept s @ w @ CHR ''.'' # l" "pwf s'"
      "ch s' = CHR ''@'' \<longrightarrow> (\<exists>t. q = l @ CHR ''@'' # t
         \<and> s' = moved (length w + 1 + (length l + 1)) (w @ ''.'' @ l) s)"
      using w r by auto
    then show ?thesis using w r dot
      by (intro exI [of _ "w @ CHR ''.'' # l"]) (auto simp: isDotString_Cons)
  qed
qed

subsection \<open>Quoted strings\<close>

text \<open>The text of a quoted local part: a backslash before each backslash and quote.\<close>

definition quote_escape :: "bytes \<Rightarrow> bytes" where
  "quote_escape u = concat (map (\<lambda>c. if c = CHR 0x5C \<or> c = CHR 0x22 then [CHR 0x5C, c] else [c]) u)"

lemma quote_escape_simps [simp]:
  "quote_escape [] = []"
  "quote_escape (c # u)
     = (if c = CHR 0x5C \<or> c = CHR 0x22 then [CHR 0x5C, c] else [c]) @ quote_escape u"
  by (simp_all add: quote_escape_def)

lemma quotes_update [simp]:
  "rest (s\<lparr>LocalPartQuotes := q\<rparr>) = rest s" "pwf (s\<lparr>LocalPartQuotes := q\<rparr>) = pwf s"
  "moved n a (s\<lparr>LocalPartQuotes := q\<rparr>) = (moved n a s)\<lparr>LocalPartQuotes := q\<rparr>"
  by (simp_all add: rest_def pwf_def moved_def)

lemma mark_quotes_eq: "mark_quotes s c = s\<lparr>LocalPartQuotes := LocalPartQuotes s \<or> \<not> isAtext c\<rparr>"
  by (simp add: mark_quotes_def)

lemma qtext_printable: "printable c \<Longrightarrow> c \<noteq> CHR 0x5C \<Longrightarrow> c \<noteq> CHR 0x22 \<Longrightarrow> qtextSMTP c"
proof -
  assume c: "printable c" "c \<noteq> CHR 0x5C" "c \<noteq> CHR 0x22"
  then have "(of_char c :: nat) \<noteq> of_char (CHR 0x5C)" "(of_char c :: nat) \<noteq> of_char (CHR 0x22)"
    by (metis of_char_eq_iff)+
  moreover have "32 \<le> (of_char c :: nat)" "(of_char c :: nat) \<le> 126"
    using c(1) by (auto simp: printable_def less_eq_char_def)
  ultimately have "(of_char c :: nat) \<in> {32, 33} \<union> {35..91} \<union> {93..126}" by auto
  moreover have "(of_char c :: nat) = 32 \<Longrightarrow> c = CHR '' ''" "(of_char c :: nat) = 33 \<Longrightarrow> c = CHR ''!''"
    using of_char_eq_iff [where 'a = nat, of c "CHR '' ''"] of_char_eq_iff [where 'a = nat, of c "CHR ''!''"]
    by simp_all
  ultimately show ?thesis by (auto simp: qtextSMTP_def less_eq_char_def)
qed

lemma QcontentSMTP_complete:
  "pwf s \<Longrightarrow> rest s = quote_escape u @ CHR 0x22 # r \<Longrightarrow> list_all printable u \<Longrightarrow>
   QcontentSMTP_loop 0 s
     = (None, (moved (length (quote_escape u) + 1) u s)
                \<lparr>LocalPartQuotes := LocalPartQuotes s \<or> \<not> list_all isAtext u\<rparr>)"
proof (induction u arbitrary: s)
  case Nil
  then have "next_ch s = (CHR 0x22, moved 1 [] s)" by (intro next_ch_Cons) auto
  then show ?case
    by (subst QcontentSMTP_loop.simps) (simp add: qtextSMTP_def)
next
  case (Cons c u)
  let ?q = "LocalPartQuotes s \<or> \<not> isAtext c"
  let ?n = "if c = CHR 0x5C \<or> c = CHR 0x22 then 2 else 1 :: nat"
  let ?t = "(moved ?n [c] s)\<lparr>LocalPartQuotes := ?q\<rparr>"
  have ih: "QcontentSMTP_loop 0 ?t = (None, (moved (length (quote_escape u) + 1) u ?t)
      \<lparr>LocalPartQuotes := LocalPartQuotes ?t \<or> \<not> list_all isAtext u\<rparr>)"
    using Cons.prems by (intro Cons.IH) auto
  have "QcontentSMTP_loop 0 s = QcontentSMTP_loop 0 ?t"
  proof (cases "c = CHR 0x5C \<or> c = CHR 0x22")
    case True
    then have "next_ch s = (CHR 0x5C, moved 1 [] s)"
      using Cons.prems by (intro next_ch_Cons) auto
    moreover have "next_ch (moved 1 [] s) = (c, moved 1 [] (moved 1 [] s))"
      using Cons.prems True by (intro next_ch_Cons) auto
    ultimately show ?thesis using True Cons.prems
      by (subst QcontentSMTP_loop.simps, simp, subst QcontentSMTP_loop.simps)
        (simp add: mark_quotes_eq numeral_2_eq_2)
  next
    case False
    then have "next_ch s = (c, moved 1 [] s)" "qtextSMTP c"
      using Cons.prems by (auto simp: next_ch_Cons intro: qtext_printable)
    with False Cons.prems show ?thesis
      by (subst QcontentSMTP_loop.simps) (simp add: mark_quotes_eq)
  qed
  with ih Cons.prems show ?case by (auto simp: add.assoc)
qed

lemma next_ch_pos: "next_ch s = (c, s1) \<Longrightarrow> pos s1 = pos s + 1"
  by (auto simp: next_ch_def Let_def split: if_splits)

lemma next_ch_accept: "next_ch s = (c, s1) \<Longrightarrow> accept s1 = accept s"
  by (auto simp: next_ch_def Let_def split: if_splits)

lemma QcontentSMTP_sound:
  "pwf s \<Longrightarrow> QcontentSMTP_loop st s = (e, s') \<Longrightarrow>
   \<exists>u. accept s' = accept s @ u \<and> list_all printable u \<and> pwf s'"
proof (induction st s arbitrary: s' rule: QcontentSMTP_loop.induct)
  case (1 st s)
  obtain c s1 where n: "next_ch s = (c, s1)" by (cases "next_ch s")
  have s1: "pwf s1" "accept s1 = accept s"
    using n "1.prems"(1) next_ch_pos [OF n] next_ch_accept [OF n] by (auto simp: pwf_def)
  have q: "qtextSMTP c \<Longrightarrow> printable c" by (auto simp: qtextSMTP_def printable_def less_eq_char_def)
  have w: "pwf (write_byte (mark_quotes s1 c) c)"
    "accept (write_byte (mark_quotes s1 c) c) = accept s @ [c]"
    using s1 by (auto simp: mark_quotes_eq)
  note ih = "1.IH" [OF n [symmetric]]
  consider (esc) "st = 0" "c = CHR 0x5C"
    | (qt) "st = 0 \<and> c \<noteq> CHR 0x5C \<and> qtextSMTP c \<or> st \<noteq> 0 \<and> printable c"
    | (stop) "s' = s1"
    using "1.prems"(2) n by (subst (asm) QcontentSMTP_loop.simps) (auto split: if_splits)
  then show ?case
  proof cases
    case esc
    with "1.prems"(2) n have "QcontentSMTP_loop 1 s1 = (e, s')"
      by (subst (asm) QcontentSMTP_loop.simps) simp
    with ih(1) esc s1 show ?thesis by auto
  next
    case qt
    then have "printable c" using q by auto
    moreover have "QcontentSMTP_loop 0 (write_byte (mark_quotes s1 c) c) = (e, s')"
      using qt "1.prems"(2) n by (subst (asm) QcontentSMTP_loop.simps) (auto split: if_splits)
    ultimately show ?thesis using ih(2,3) qt w by fastforce
  next
    case stop
    with s1 show ?thesis by auto
  qed
qed

end
