(* ===== verification/Parser_Inv.thy ===== *)
theory Parser_Inv
  imports Parser
begin

section \<open>Invariants of the parser object\<close>

text \<open>
  Every production only moves forward in the same buffer (\<open>fwd\<close>), and the commands keep the
  object usable for the next command (\<open>parser_ok\<close>): an object whose position is still \<open>-1\<close>
  has never been used, so \<open>Reset\<close> may skip the clearing of its fields.
\<close>

definition fwd :: "parser \<Rightarrow> parser \<Rightarrow> bool" where
  "fwd s s' \<longleftrightarrow> pos s \<le> pos s' \<and> buf s' = buf s"

definition parser_ok :: "parser \<Rightarrow> bool" where
  "parser_ok s \<longleftrightarrow> -1 \<le> pos s \<and> (pos s = -1 \<longrightarrow>
     accept s = [] \<and> PathParams s = [] \<and> ADL s = [] \<and> LocalPart s = [] \<and> \<not> LocalPartQuotes s
     \<and> Domain s = [] \<and> IP s = None \<and> \<not> NullPath s)"

subsection \<open>What a production may do to the object\<close>

text \<open>
  A relation between the object before and after that allows reading a byte and accepting a
  printable byte holds across every production that builds a domain, a source route or a
  local part (\<open>scanning\<close>); one that allows any accepted bytes holds across the parameters and
  the digits of an address (\<open>scanning_bytes\<close>), and one that allows the address to be set
  holds across the address literals (\<open>scanning_literal\<close>).
\<close>

lemma printable_classes:
  "isLetDig c \<Longrightarrow> printable c" "isAtext c \<Longrightarrow> printable c" "qtextSMTP c \<Longrightarrow> printable c"
  "printable (CHR ''-'')" "printable (CHR ''.'')" "printable (CHR ''@'')"
  by (auto simp: isLetDig_def isAtext_def qtextSMTP_def printable_def less_eq_char_def)

lemma next_ch_is_ch: "next_ch s = (c, s1) \<Longrightarrow> c \<noteq> NUL \<Longrightarrow> ch s1 = c"
  by (auto simp: next_ch_def Let_def split: if_splits)

lemma atext_is_ch: "next_ch s = (c, s1) \<Longrightarrow> isAtext c \<Longrightarrow> ch s1 = c"
  using next_ch_is_ch by fastforce

locale scanning =
  fixes R :: "parser \<Rightarrow> parser \<Rightarrow> bool"
  assumes R_refl: "R s s"
    and R_trans: "R s t \<Longrightarrow> R t u \<Longrightarrow> R s u"
    and R_next: "next_ch s = (c, s1) \<Longrightarrow> R s s1"
    and R_write: "printable c \<Longrightarrow> R s (write_byte s c)"
    and R_reset: "R s (reset_accept s)"
    and R_ADL: "R s (s\<lparr>ADL := ls\<rparr>)"
    and R_quotes: "R s (mark_quotes s c)"
begin

lemma R_snd_next: "R s (snd (next_ch s))"
  using R_next by (cases "next_ch s") auto

lemma R_write_to: "R s t \<Longrightarrow> printable c \<Longrightarrow> R s (write_byte t c)"
  using R_trans R_write by blast

lemma R_subdomain_loop: "subdomain_loop st s = (e, s') \<Longrightarrow> R s s'"
proof (induction st s arbitrary: e s' rule: subdomain_loop.induct)
  case (1 st s)
  obtain c s1 where n: "next_ch s = (c, s1)" by (cases "next_ch s")
  note ih = "1.IH" [OF n [symmetric] refl]
  have 1: "R s s1" using n by (rule R_next)
  have "isLetDig c \<or> c = CHR ''-'' \<Longrightarrow> R s (write_byte s1 c)"
    using R_write_to [OF 1] printable_classes by blast
  with "1.prems" n ih 1 show ?case
    by (subst (asm) subdomain_loop.simps) (auto simp: Let_def intro: R_trans split: if_splits)
qed

lemma R_domain: "domain s = (e, s') \<Longrightarrow> R s s'"
proof (induction s arbitrary: e s' rule: domain.induct)
  case (1 s)
  obtain e1 s1 where sd: "subdomain s = (e1, s1)" by (cases "subdomain s")
  obtain c s2 where n: "next_ch s1 = (c, s2)" by (cases "next_ch s1")
  have 1: "R s s1" "R s1 s2"
    using sd n R_subdomain_loop [of 0 s] R_next [OF n] by (auto simp: subdomain_def)
  have dot: "peek s1 = CHR ''.'' \<Longrightarrow> c = CHR ''.''"
    using n by (auto simp: peek_def next_ch_def Let_def split: if_splits)
  have "peek s1 = CHR ''.'' \<Longrightarrow> R s (write_byte s2 c)"
    using 1 dot R_trans R_write_to printable_classes(5) by blast
  with 1 "1.prems" "1.IH" [OF sd [symmetric] _ refl _ n [symmetric]] sd n show ?case
    by (subst (asm) domain.simps)
      (auto simp: Let_def dest: R_trans split: if_splits option.splits)
qed

lemma R_atDomain: "atDomain s = (e, s') \<Longrightarrow> R s s'"
proof -
  assume h: "atDomain s = (e, s')"
  obtain c s1 where n: "next_ch s = (c, s1)" by (cases "next_ch s")
  obtain e2 s2 where d: "domain (write_byte s1 (CHR ''@'')) = (e2, s2)" by fastforce
  have "R s (write_byte s1 (CHR ''@''))"
    using R_next [OF n] printable_classes(6) by (rule R_write_to)
  with h n d R_next [OF n] R_domain [OF d] show ?thesis
    by (auto simp: atDomain_def split: if_splits intro: R_trans)
qed

lemma R_adl: "adl s = (e, s') \<Longrightarrow> R s s'"
proof (induction s arbitrary: e s' rule: adl.induct)
  case (1 s)
  obtain e1 s1 where a: "atDomain s = (e1, s1)" by (cases "atDomain s")
  define s2 where "s2 = reset_accept (s1\<lparr>ADL := ADL s1 @ [accept s1]\<rparr>)"
  have f: "R s s1" using a by (rule R_atDomain)
  have "R s s2" unfolding s2_def by (rule R_trans [OF R_trans [OF f R_ADL] R_reset])
  then have "R s (snd (next_ch s2))" using R_snd_next by (rule R_trans)
  with f "1.prems" "1.IH" [OF a [symmetric] _ s2_def] a \<open>R s s2\<close> show ?case
    by (subst (asm) adl.simps)
      (auto simp: Let_def s2_def [symmetric] intro: R_trans split: if_splits option.splits)
qed

lemma R_QcontentSMTP_loop: "QcontentSMTP_loop st s = (e, s') \<Longrightarrow> R s s'"
proof (induction st s arbitrary: e s' rule: QcontentSMTP_loop.induct)
  case (1 st s)
  obtain c s1 where n: "next_ch s = (c, s1)" by (cases "next_ch s")
  note ih = "1.IH" [OF n [symmetric]]
  have 1: "R s s1" using n by (rule R_next)
  have w: "printable c \<Longrightarrow> R s (write_byte (mark_quotes s1 c) c)"
    by (rule R_write_to [OF R_trans [OF 1 R_quotes]])
  from "1.prems" n ih 1 w printable_classes(3) [of c] show ?case
    by (subst (asm) QcontentSMTP_loop.simps) (auto dest: R_trans split: if_splits)
qed

lemma R_quotedString: "quotedString s = (e, s') \<Longrightarrow> R s s'"
proof -
  assume h: "quotedString s = (e, s')"
  obtain c s1 where n: "next_ch s = (c, s1)" by (cases "next_ch s")
  obtain e2 s2 where q: "QcontentSMTP s1 = (e2, s2)" by fastforce
  have 1: "R s s1" using n by (rule R_next)
  have 2: "R s s2" using R_trans [OF 1 R_QcontentSMTP_loop] q by (simp add: QcontentSMTP_def)
  show ?thesis using h n q 1 2 R_trans [OF 2 R_snd_next]
    by (auto simp: quotedString_def split: if_splits option.splits)
qed

lemma R_atom_loop: "atom_loop st s = (e, s') \<Longrightarrow> R s s'"
proof (induction st s arbitrary: e s' rule: atom_loop.induct)
  case (1 st s)
  obtain c s1 where n: "next_ch s = (c, s1)" by (cases "next_ch s")
  note ih = "1.IH" [OF n [symmetric]]
  have 1: "R s s1" using n by (rule R_next)
  have w: "isAtext c \<Longrightarrow> R s (write_byte s1 (ch s1))"
    using atext_is_ch [OF n] R_write_to [OF 1] printable_classes(2) by simp
  from "1.prems" n ih 1 w show ?case
    by (subst (asm) atom_loop.simps) (auto dest: R_trans split: if_splits)
qed

lemma R_dotString: "dotString s = (e, s') \<Longrightarrow> R s s'"
proof (induction s arbitrary: e s' rule: dotString.induct)
  case (1 s)
  obtain e1 s1 where a: "atom s = (e1, s1)" by (cases "atom s")
  have 1: "R s s1" using a R_atom_loop by (auto simp: atom_def)
  have "ch s1 = CHR ''.'' \<Longrightarrow> R s (write_byte s1 (ch s1))"
    using R_write_to [OF 1] printable_classes(5) by simp
  with 1 "1.prems" "1.IH" [OF a [symmetric]] a show ?case
    by (subst (asm) dotString.simps) (auto dest: R_trans split: if_splits option.splits)
qed

end

locale scanning_bytes = scanning +
  assumes R_accept: "R s (s\<lparr>accept := a\<rparr>)"
begin

lemma R_write_any: "R s t \<Longrightarrow> R s (write_byte t c)"
  unfolding write_byte_def using R_trans R_accept by blast

lemma R_reset_to: "R s t \<Longrightarrow> R s (reset_accept t)"
  using R_trans R_reset by blast

lemma R_param_loop: "param_loop st k s = (r, e, s') \<Longrightarrow> R s s'"
proof (induction st k s arbitrary: r e s' rule: param_loop.induct)
  case (1 st k s)
  obtain c s1 where n: "next_ch s = (c, s1)" by (cases "next_ch s")
  note ih = "1.IH" [OF n [symmetric]]
  have "R s s1" using n by (rule R_next)
  then have "R s s1" "R s (write_byte s1 c)" "R s (reset_accept s1)" "R s (reset_accept (write_byte s1 c))"
    using R_write_any R_reset_to by blast+
  with "1.prems" n ih show ?case
    by (subst (asm) param_loop.simps)
      (auto simp: param_return_def Let_def intro: R_trans split: if_splits)
qed

lemma R_parameters: "parameters s ps = (r, e, s') \<Longrightarrow> R s s'"
proof (induction s ps arbitrary: r e s' rule: parameters.induct)
  case (1 s ps)
  obtain r1 e1 s1 where p: "param s = (r1, e1, s1)" by (cases "param s")
  obtain c s2 where n: "next_ch s1 = (c, s2)" by (cases "next_ch s1")
  have f: "R s s1" "R s1 s2"
    using p n R_param_loop [of 0 "[]" s] R_next [OF n] by (auto simp: param_def)
  from "1.prems" p n have "s' = s1 \<or> s' = s2 \<or> (e1 = None \<and> c = CHR '' '' \<and> parameters s2 (ps @ [r1]) = (r, e, s'))"
    by (subst (asm) parameters.simps) (auto split: if_splits option.splits)
  with f "1.IH" [OF p [symmetric] refl _ n [symmetric]] show ?case
    by (auto dest: R_trans)
qed

lemma R_snum_loop: "snum_loop i st num s = (e, s') \<Longrightarrow> R s s'"
  by (induction i st num s arbitrary: e s' rule: snum_loop.induct)
    (auto split: prod.splits if_splits option.splits dest!: R_next
      intro: R_refl R_trans R_write_any R_trans [OF R_trans, OF _ R_write_any [OF R_refl]])

lemma R_ipv4_loop: "ipv4_loop i s = (e, s') \<Longrightarrow> R s s'"
  by (induction i s arbitrary: e s' rule: ipv4_loop.induct)
    (auto simp: snum_def split: prod.splits if_splits option.splits dest!: R_snum_loop
      intro: R_refl R_trans R_trans [OF R_trans, OF _ R_write_any [OF R_refl]])

end

locale scanning_literal = scanning_bytes +
  assumes R_IP: "R s (s\<lparr>IP := i\<rparr>)"
begin

lemma R_ipv4: "ipv4AddressLiteral s = (e, s') \<Longrightarrow> R s s'"
  by (auto simp: ipv4AddressLiteral_def split: prod.splits option.splits dest!: R_ipv4_loop
      intro: R_trans [OF _ R_IP])

lemma R_ipv6_loop: "ipv6_loop ip s = (e, s') \<Longrightarrow> R s s'"
proof (induction ip s arbitrary: e s' rule: ipv6_loop.induct)
  case (1 ip s)
  obtain c s1 where n: "next_ch s = (c, s1)" by (cases "next_ch s")
  note ih = "1.IH" [OF n [symmetric]]
  have 1: "R s s1" using n by (rule R_next)
  have "R s (s1\<lparr>accept := a, IP := i\<rparr>)" for a i
    by (rule R_trans [OF R_trans [OF 1 R_accept] R_IP])
  with 1 "1.prems" n ih show ?case
    by (subst (asm) ipv6_loop.simps) (auto dest: R_trans split: if_splits option.splits)
qed

lemma R_next_n: "R s (((\<lambda>s. snd (next_ch s)) ^^ n) s)"
  by (induction n) (auto intro: R_refl R_trans R_snd_next)

lemma R_addressLiteral: "addressLiteral s = (e, s') \<Longrightarrow> R s s'"
proof -
  assume h: "addressLiteral s = (e, s')"
  obtain c s1 where n: "next_ch s = (c, s1)" by (cases "next_ch s")
  have 1: "R s s1" using n by (rule R_next)
  let ?s5 = "((\<lambda>s. snd (next_ch s)) ^^ 5) s1"
  have 5: "R s ?s5" by (rule R_trans [OF 1 R_next_n])
  obtain e6 s6 where v6: "ipv6AddressLiteral ?s5 = (e6, s6)" by fastforce
  obtain e4 s4 where v4: "ipv4AddressLiteral s1 = (e4, s4)" by fastforce
  have "R s s6" using R_trans [OF 5 R_ipv6_loop] v6 by (simp add: ipv6AddressLiteral_def)
  moreover have "R s s4" by (rule R_trans [OF 1 R_ipv4 [OF v4]])
  ultimately show ?thesis using h 1 n v4 v6
    by (auto simp: addressLiteral_def Let_def split: if_splits option.splits)
qed

end

subsection \<open>Productions move forward\<close>

lemma fwd_refl [simp]: "fwd s s"
  by (simp add: fwd_def)

lemma fwd_trans [trans]: "fwd s t \<Longrightarrow> fwd t u \<Longrightarrow> fwd s u"
  by (auto simp: fwd_def)

lemma fwd_next: "next_ch s = (c, s1) \<Longrightarrow> fwd s s1 \<and> pos s < pos s1"
  by (auto simp: fwd_def next_ch_def Let_def split: if_splits)

lemma fwd_upd [simp]:
  "fwd s (write_byte t c) = fwd s t"
  "fwd s (reset_accept t) = fwd s t"
  "fwd s (t\<lparr>accept := a\<rparr>) = fwd s t"
  "fwd s (t\<lparr>ADL := ls\<rparr>) = fwd s t"
  "fwd s (t\<lparr>LocalPart := l\<rparr>) = fwd s t"
  "fwd s (t\<lparr>Domain := l\<rparr>) = fwd s t"
  "fwd s (t\<lparr>IP := i\<rparr>) = fwd s t"
  "fwd s (t\<lparr>NullPath := q\<rparr>) = fwd s t"
  "fwd s (t\<lparr>PathParams := ps\<rparr>) = fwd s t"
  "fwd s (mark_quotes t c) = fwd s t"
  by (simp_all add: fwd_def write_byte_def reset_accept_def mark_quotes_def)

interpretation fwd: scanning_literal fwd
  by unfold_locales (auto dest: fwd_next intro: fwd_trans)

lemmas fwd_snd_next [simp] = fwd.R_snd_next

lemma fwd_localPart: "localPart s = (e, s') \<Longrightarrow> fwd s s'"
  by (auto simp: localPart_def keep_LocalPart_def split: prod.splits if_splits
      dest!: fwd.R_quotedString fwd.R_dotString)

lemma fwd_mailbox: "mailbox s = (e, s') \<Longrightarrow> fwd s s'"
proof -
  assume h: "mailbox s = (e, s')"
  obtain e1 s1 where l: "localPart s = (e1, s1)" by fastforce
  obtain e2 s2 where a: "addressLiteral s1 = (e2, s2)" by fastforce
  obtain e3 s3 where d: "domain s1 = (e3, s3)" by fastforce
  have 1: "fwd s s1" using l by (rule fwd_localPart)
  have 2: "fwd s s2" by (rule fwd_trans [OF 1 fwd.R_addressLiteral [OF a]])
  have 3: "fwd s s3" by (rule fwd_trans [OF 1 fwd.R_domain [OF d]])
  show ?thesis using h l a d 1 2 3
    by (auto simp: mailbox_def keep_Domain_def split: if_splits option.splits)
qed

lemma fwd_path: "path s = (e, s') \<Longrightarrow> fwd s s' \<and> pos s < pos s'"
proof -
  assume h: "path s = (e, s')"
  obtain c s1 where n: "next_ch s = (c, s1)" by fastforce
  obtain e2 s2 where a: "adl s1 = (e2, s2)" by fastforce
  define t where "t = (if c = CHR ''<'' \<and> peek s1 = CHR ''@''
    then (if e2 = None then snd (next_ch s2) else s2) else s1)"
  obtain e3 s3 where m: "mailbox t = (e3, s3)" by fastforce
  have 1: "fwd s s1" "pos s < pos s1" using fwd_next [OF n] by auto
  have 2: "fwd s1 s2" using a by (rule fwd.R_adl)
  have 3: "fwd s1 t" using 2 fwd_trans [OF 2 fwd_snd_next] by (simp add: t_def)
  have 4: "fwd t s3" using m by (rule fwd_mailbox)
  have "s' = t \<or> s' = s3"
    using h n a m
    by (auto simp: path_def t_def Let_def split: if_splits option.splits)
  with 1 3 4 show ?thesis by (auto simp: fwd_def)
qed

lemma fwd_path_params: "path_params s = (e, s') \<Longrightarrow> fwd s s' \<and> pos s < pos s'"
proof -
  assume h: "path_params s = (e, s')"
  obtain p s1 where n: "next_ch (snd (next_ch s)) = (p, s1)" by fastforce
  obtain r e2 s2 where a: "parameters s1 [] = (r, e2, s2)" by (cases "parameters s1 []")
  have 1: "fwd s s1 \<and> pos s < pos s1"
    using fwd_next [OF n] fwd_snd_next [of s] by (auto simp: fwd_def)
  have 2: "fwd s1 s2" using a by (rule fwd.R_parameters)
  have "fwd s s' = fwd s s1 \<and> pos s' = pos s1 \<or> fwd s s' = fwd s s2 \<and> pos s' = pos s2"
    using h n a by (auto simp: path_params_def split: if_splits option.splits)
  with 1 2 show ?thesis by (auto simp: fwd_def)
qed

lemma skip_one_space_fwd: "fwd s (skip_one_space s)"
  by (simp add: skip_one_space_def)

lemma fwd_forwardPath: "forwardPath s = (e, s') \<Longrightarrow> fwd s s' \<and> pos s < pos s'"
proof -
  assume h: "forwardPath s = (e, s')"
  obtain e1 s1 where p: "path (skip_one_space s) = (e1, s1)" by fastforce
  have "fwd (skip_one_space s) s1 \<and> pos (skip_one_space s) < pos s1" using p by (rule fwd_path)
  with skip_one_space_fwd [of s] have "fwd s s1 \<and> pos s < pos s1" by (auto simp: fwd_def)
  with h p show ?thesis by (auto simp: forwardPath_def fwd_def split: if_splits)
qed

subsection \<open>A fresh start for every command\<close>

lemma set_input_fresh: "parser_ok p \<Longrightarrow> set_input p input = (NewParser input)\<lparr>ch := ch p\<rparr>"
  by (auto simp: set_input_def Reset_def NewParser_def parser_ok_def Let_def)

lemma parser_ok_pos: "0 \<le> pos s \<Longrightarrow> parser_ok s"
  by (simp add: parser_ok_def)

lemma parser_ok_New: "parser_ok (NewParser b)"
  by (simp add: parser_ok_def NewParser_def)

lemma pos_set_input: "pos (set_input p input) = -1"
  by (simp add: set_input_def Reset_def Let_def)

lemma reversePath_Ret:
  "pos s = -1 \<Longrightarrow>
   \<exists>e s'. reversePath s = Ret (e, s') \<and> fwd s s' \<and> (e \<noteq> None \<longrightarrow> pos s < pos s')"
proof -
  assume p: "pos s = -1"
  define t where "t = skip_one_space s"
  have t: "fwd s t" by (simp add: t_def skip_one_space_fwd)
  have "pos t + 1 \<le> int (length (buf t))"
    using p by (auto simp: t_def skip_one_space_def peek_def next_ch_def Let_def Suc_le_eq split: if_splits)
  moreover have "0 \<le> pos t + 1" using t p by (simp add: fwd_def)
  ultimately obtain r where r: "slice_from (buf t) (pos t + 1) = Ret r"
    by (simp add: slice_from_def)
  obtain e s' where q: "path t = (e, s')" by fastforce
  with t have "fwd s s' \<and> pos s < pos s'" using fwd_path [OF q] by (auto simp: fwd_def)
  with r q t show ?thesis
    unfolding reversePath_def t_def [symmetric] Let_def
    by (cases "index_of ''<>'' r = Some 0") auto
qed

lemma MailFrom_Ret: "\<exists>e s'. MailFrom p input = Ret (e, s') \<and> 0 \<le> pos s'"
proof -
  obtain e s where r: "reversePath (set_input p input) = Ret (e, s)" "fwd (set_input p input) s"
    "e \<noteq> None \<longrightarrow> -1 < pos s"
    using reversePath_Ret [of "set_input p input"] pos_set_input by fastforce
  have "-1 \<le> pos s" using r(2) by (simp add: fwd_def pos_set_input)
  moreover obtain e2 s2 where q: "path_params s = (e2, s2)" by fastforce
  ultimately show ?thesis using r fwd_path_params [OF q]
    by (cases e) (auto simp: MailFrom_def)
qed

lemma RcptTo_pos: "RcptTo p input = (e, s') \<Longrightarrow> 0 \<le> pos s'"
proof -
  assume h: "RcptTo p input = (e, s')"
  obtain e1 s1 where f: "forwardPath (set_input p input) = (e1, s1)" by fastforce
  obtain e2 s2 where q: "path_params s1 = (e2, s2)" by fastforce
  from fwd_forwardPath [OF f] fwd_path_params [OF q] h f q show ?thesis
    by (auto simp: RcptTo_def fwd_def pos_set_input split: option.splits)
qed

lemma first_next_pos: "0 \<le> pos (snd (next_ch (set_input p input)))"
  by (simp add: next_ch_def pos_set_input Let_def)

lemma Helo_pos: "Helo p input = (d, e, s') \<Longrightarrow> 0 \<le> pos s'"
proof -
  assume h: "Helo p input = (d, e, s')"
  let ?s = "snd (next_ch (set_input p input))"
  obtain e1 s1 where q: "domain ?s = (e1, s1)" by fastforce
  from h q fwd.R_domain [OF q] first_next_pos [of p input] show ?thesis
    by (auto simp: Helo_def Let_def fwd_def split: if_splits option.splits)
qed

lemma Ehlo_pos: "Ehlo p input = (d, i, e, s') \<Longrightarrow> 0 \<le> pos s'"
proof -
  assume h: "Ehlo p input = (d, i, e, s')"
  let ?s = "snd (next_ch (set_input p input))"
  obtain e1 s1 where q: "domain ?s = (e1, s1)" by fastforce
  obtain e2 s2 where a: "addressLiteral ?s = (e2, s2)" by fastforce
  have "s' = ?s \<or> s' = s1 \<or> s' = s2"
    using h q a by (auto simp: Ehlo_def Let_def split: if_splits option.splits)
  with fwd.R_domain [OF q] fwd.R_addressLiteral [OF a] first_next_pos [of p input] show ?thesis
    by (auto simp: fwd_def)
qed

subsection \<open>The byte left over from the previous command is never read\<close>

lemma next_ch_stale:
  "-1 \<le> pos s \<Longrightarrow> pos s + 1 < int (length (buf s)) \<Longrightarrow> next_ch (s\<lparr>ch := x\<rparr>) = next_ch s"
  by (simp add: next_ch_def)

lemma peek_stale [simp]: "peek (s\<lparr>ch := x\<rparr>) = peek s"
  by (simp add: peek_def)

lemma skip_one_space_stale:
  "pos s = -1 \<Longrightarrow> skip_one_space (s\<lparr>ch := x\<rparr>) = skip_one_space s \<or>
    skip_one_space (s\<lparr>ch := x\<rparr>) = s\<lparr>ch := x\<rparr> \<and> skip_one_space s = s"
  by (auto simp: skip_one_space_def peek_def next_ch_def)

lemma path_stale:
  "-1 \<le> pos s \<Longrightarrow> pos s + 1 < int (length (buf s)) \<Longrightarrow> path (s\<lparr>ch := x\<rparr>) = path s"
  by (simp add: path_def next_ch_stale)

lemma path_params_stale:
  "-1 \<le> pos s \<Longrightarrow> pos s + 1 < int (length (buf s)) \<Longrightarrow> path_params (s\<lparr>ch := x\<rparr>) = path_params s"
  by (simp add: path_params_def next_ch_stale)

lemma New_fields [simp]: "pos (NewParser b) = -1" "buf (NewParser b) = b"
  by (simp_all add: NewParser_def)

lemma set_input_New: "set_input (NewParser []) input = NewParser input"
  by (simp add: set_input_def Reset_def NewParser_def)

lemma MailFrom_stale:
  assumes "parser_ok p" and "input \<noteq> []"
  shows "MailFrom p input = MailFrom (NewParser []) input"
proof -
  let ?n = "NewParser input" and ?s = "(NewParser input)\<lparr>ch := ch p\<rparr>"
  have len: "0 < int (length input)" using assms(2) by simp
  have nul: "path_params (?s\<lparr>NullPath := True\<rparr>) = path_params (?n\<lparr>NullPath := True\<rparr>)"
    using path_params_stale [of "?n\<lparr>NullPath := True\<rparr>" "ch p"] len
    by (simp add: NewParser_def)
  have pth: "path ?s = path ?n" using len by (intro path_stale) auto
  have "MailFrom p input = bind_outcome (reversePath ?s)
      (\<lambda>(err, s). case err of Some e \<Rightarrow> Ret (Some e, s) | None \<Rightarrow> Ret (path_params s))"
    by (simp add: MailFrom_def set_input_fresh [OF assms(1)])
  also have "\<dots> = bind_outcome (reversePath ?n)
      (\<lambda>(err, s). case err of Some e \<Rightarrow> Ret (Some e, s) | None \<Rightarrow> Ret (path_params s))"
    using skip_one_space_stale [of ?n "ch p"] nul pth
    by (auto simp: reversePath_def Let_def slice_from_def)
  finally show ?thesis by (simp add: MailFrom_def set_input_New)
qed

lemma RcptTo_stale:
  assumes "parser_ok p" and "input \<noteq> []"
  shows "RcptTo p input = RcptTo (NewParser []) input"
proof -
  let ?n = "NewParser input"
  have "path (?n\<lparr>ch := ch p\<rparr>) = path ?n" using assms(2) by (intro path_stale) auto
  then have "forwardPath (?n\<lparr>ch := ch p\<rparr>) = forwardPath ?n"
    using skip_one_space_stale [of ?n "ch p"] by (auto simp: forwardPath_def)
  then show ?thesis by (simp add: RcptTo_def set_input_fresh [OF assms(1)] set_input_New)
qed

lemma Helo_Ehlo_stale:
  assumes "parser_ok p" and "input \<noteq> []"
  shows "Helo p input = Helo (NewParser []) input" "Ehlo p input = Ehlo (NewParser []) input"
proof -
  have "next_ch (set_input p input) = next_ch (NewParser input)"
    using next_ch_stale [of "NewParser input"] assms by (simp add: set_input_fresh)
  then show "Helo p input = Helo (NewParser []) input" "Ehlo p input = Ehlo (NewParser []) input"
    by (simp_all add: Helo_def Ehlo_def set_input_New)
qed

subsection \<open>Properties\<close>

text \<open>
  The parser is total and safe. \<open>MailFrom\<close> takes the slice \<open>buf[pos+1:]\<close>, and whatever the
  state of the object and the input, it is in range: no command argument makes the parser
  panic, and the object it leaves can be used for the next command.
\<close>

theorem MailFrom_no_panic:
  "\<not> panics (MailFrom p input) \<and> (\<exists>err p'. MailFrom p input = Ret (err, p') \<and> parser_ok p')"
  using MailFrom_Ret [of p input] parser_ok_pos by auto

text \<open>
  C35: one parser object serves the whole session. Whatever command it parsed before, the next
  non-empty argument gives the same error, the same fields and the same position as a parser
  made by \<open>NewParser\<close>, so that nothing of an address can leak into a later one; and the
  object stays in a state for which this holds again.
\<close>

theorem parser_reuse:
  assumes "parser_ok p" and "input \<noteq> []"
  shows "MailFrom p input = MailFrom (NewParser []) input
    \<and> RcptTo p input = RcptTo (NewParser []) input
    \<and> Helo p input = Helo (NewParser []) input
    \<and> Ehlo p input = Ehlo (NewParser []) input
    \<and> parser_ok (snd (RcptTo p input))
    \<and> parser_ok (snd (snd (Helo p input)))
    \<and> parser_ok (snd (snd (snd (Ehlo p input))))"
proof -
  have "parser_ok (snd (RcptTo p input))"
    by (cases "RcptTo p input") (auto dest: RcptTo_pos parser_ok_pos)
  moreover have "parser_ok (snd (snd (Helo p input)))"
    by (cases "Helo p input") (auto dest: Helo_pos parser_ok_pos)
  moreover have "parser_ok (snd (snd (snd (Ehlo p input))))"
    by (cases "Ehlo p input") (auto dest: Ehlo_pos parser_ok_pos)
  ultimately show ?thesis
    using MailFrom_stale [OF assms] RcptTo_stale [OF assms] Helo_Ehlo_stale [OF assms] by blast
qed

theorem parser_reuse_witness:
  "RcptTo (snd (RcptTo (NewParser []) ''<a@b.c>'')) ''<d@e.f>'' = RcptTo (NewParser []) ''<d@e.f>''"
proof -
  have "parser_ok (snd (RcptTo (NewParser []) ''<a@b.c>''))"
    using parser_reuse [of "NewParser []" "''<a@b.c>''"] by (simp add: parser_ok_New)
  from parser_reuse [OF this, of "''<d@e.f>''"] show ?thesis by simp
qed

end
