(* ===== verification/Path_Spec.thy ===== *)
theory Path_Spec
  imports Grammar Parser_Inv
begin

section \<open>What the commands accept, and what they store\<close>

text \<open>
  The commands \<open>MailFrom\<close>, \<open>RcptTo\<close>, \<open>Helo\<close> and \<open>Ehlo\<close> against the grammar: a well-formed
  path is accepted and its parts are stored unchanged (round trips), and whatever is accepted
  leaves a domain of the grammar or an address literal (soundness).
\<close>

subsection \<open>Paths that are accepted\<close>

lemma isDotString_first: "isDotString l \<Longrightarrow> \<exists>c l'. l = c # l' \<and> isAtext c"
  by (cases l) (auto simp: isDotString_def isAtom_def split: if_splits)

lemma isDomain_first: "isDomain d \<Longrightarrow> \<exists>c d'. d = c # d' \<and> isLetDig c"
  by (cases d) (auto simp: isDomain_def isSubdomain_def split: if_splits)

lemma LocalPart_update [simp]:
  "rest (s\<lparr>LocalPart := l\<rparr>) = rest s" "pwf (s\<lparr>LocalPart := l\<rparr>) = pwf s"
  "moved n a (s\<lparr>LocalPart := l\<rparr>) = (moved n a s)\<lparr>LocalPart := l\<rparr>"
  "rest (s\<lparr>Domain := l\<rparr>) = rest s" "pwf (s\<lparr>Domain := l\<rparr>) = pwf s"
  "moved n a (s\<lparr>Domain := l\<rparr>) = (moved n a s)\<lparr>Domain := l\<rparr>"
  by (simp_all add: rest_def pwf_def moved_def)

lemma reset_moved: "accept s = [] \<Longrightarrow> reset_accept (moved n a s) = moved n [] s"
  by (simp add: reset_accept_def moved_def)

lemma keep_LocalPart_moved:
  "accept s = [] \<Longrightarrow> l \<noteq> [] \<Longrightarrow> keep_LocalPart (moved n l s) = (moved n [] s)\<lparr>LocalPart := l\<rparr>"
  by (simp add: keep_LocalPart_def reset_accept_def moved_def)

lemma keep_Domain_moved:
  "accept s = [] \<Longrightarrow> d \<noteq> [] \<Longrightarrow> keep_Domain (moved n d s) = (moved n [] s)\<lparr>Domain := d\<rparr>"
  by (simp add: keep_Domain_def reset_accept_def moved_def)

lemma localPart_dot:
  assumes "pwf s" and "accept s = []" and "rest s = l @ CHR ''@'' # r" and "isDotString l"
  shows "localPart s = (None, (moved (length l + 1) [] s)\<lparr>LocalPart := l\<rparr>)"
proof -
  obtain c l' where l: "l = c # l'" "isAtext c" using isDotString_first [OF assms(4)] by blast
  then have "c \<noteq> CHR 0x22" by auto
  then have "peek s \<noteq> CHR 0x22" using assms l by (simp add: peek_rest)
  moreover have "dotString s = (None, moved (length l + 1) l s)"
    using assms by (intro dotString_complete) auto
  ultimately show ?thesis using assms l by (simp add: localPart_def keep_LocalPart_moved)
qed

lemma localPart_quoted:
  assumes "pwf s" and "accept s = []"
    and "rest s = CHR 0x22 # quote_escape u @ CHR 0x22 # CHR ''@'' # r"
    and "list_all printable u" and "u \<noteq> []"
  shows "localPart s = (None, (moved (length (quote_escape u) + 3) [] s)
      \<lparr>LocalPart := u, LocalPartQuotes := LocalPartQuotes s \<or> \<not> list_all isAtext u\<rparr>)"
proof -
  let ?n = "length (quote_escape u)"
  let ?q = "LocalPartQuotes s \<or> \<not> list_all isAtext u"
  have n: "next_ch s = (CHR 0x22, moved 1 [] s)" using assms by (intro next_ch_Cons) auto
  have q: "QcontentSMTP (moved 1 [] s)
      = (None, (moved (?n + 2) u s)\<lparr>LocalPartQuotes := ?q\<rparr>)"
    using assms QcontentSMTP_complete [of "moved 1 [] s" u "CHR ''@'' # r"]
    by (simp add: QcontentSMTP_def)
  let ?t = "(moved (?n + 2) u s)\<lparr>LocalPartQuotes := ?q\<rparr>"
  have "next_ch ?t = (CHR ''@'', moved 1 [] ?t)"
    using assms by (intro next_ch_Cons [where cs = r]) auto
  moreover have "ch ?t = CHR 0x22" using assms by (simp add: numeral_2_eq_2)
  ultimately have "quotedString s = (None, moved 1 [] ?t)"
    using n q by (simp add: quotedString_def)
  moreover have "peek s = CHR 0x22" using assms by (simp add: peek_rest)
  ultimately have "localPart s = (None, keep_LocalPart (moved 1 [] ?t))" by (simp add: localPart_def)
  also have "keep_LocalPart (moved 1 [] ?t)
      = (moved (?n + 3) [] s)\<lparr>LocalPart := u, LocalPartQuotes := ?q\<rparr>"
    using assms by (simp add: keep_LocalPart_def reset_accept_def numeral_3_eq_3) (simp add: moved_def)
  finally show ?thesis .
qed

lemma mailbox_domain:
  assumes "localPart s = (None, t)" and "ch t = CHR ''@''" and "pwf t" and "accept t = []"
    and "rest t = d @ r" and "isDomain d" and "ends_domain r"
  shows "mailbox s = (None, (moved (length d) [] t)\<lparr>Domain := d\<rparr>)"
proof -
  obtain c d' where d: "d = c # d'" "isLetDig c" using isDomain_first [OF assms(6)] by blast
  then have "c \<noteq> CHR ''[''" by (auto simp: isLetDig_def)
  then have "peek t \<noteq> CHR ''[''" using assms d by (simp add: peek_rest)
  moreover have "domain t = (None, moved (length d) d t)"
    using assms by (intro domain_complete) auto
  ultimately show ?thesis using assms d by (simp add: mailbox_def keep_Domain_moved)
qed

lemma path_closed:
  assumes "pwf s" and "rest s = CHR ''<'' # c # r" and "c \<noteq> CHR ''@''"
    and "mailbox (moved 1 [] s) = (None, t)" and "pwf t" and "rest t = CHR ''>'' # q"
  shows "path s = (None, t)"
proof -
  have "next_ch s = (CHR ''<'', moved 1 [] s)" using assms by (intro next_ch_Cons) auto
  moreover have "peek (moved 1 [] s) \<noteq> CHR ''@''" using assms by (simp add: peek_rest)
  moreover have "peek t = CHR ''>''" using assms by (simp add: peek_rest)
  ultimately show ?thesis using assms by (simp add: path_def)
qed

lemma path_params_end:
  "pwf t \<Longrightarrow> rest t = ''>'' \<Longrightarrow> path_params t = (None, past_end (moved 1 [] t))"
  by (simp add: path_params_def next_ch_Cons next_ch_Nil past_end_def)

lemma New_input:
  "pwf (NewParser b)" "rest (NewParser b) = b" "accept (NewParser b) = []"
  "ADL (NewParser b) = []" "PathParams (NewParser b) = []" "\<not> NullPath (NewParser b)"
  "IP (NewParser b) = None" "\<not> LocalPartQuotes (NewParser b)" "LocalPart (NewParser b) = []"
  "Domain (NewParser b) = []"
  by (simp_all add: NewParser_def pwf_def rest_def)

lemma MailFrom_path:
  assumes "parser_ok p" and "b = CHR ''<'' # c # r" and "c \<noteq> CHR ''>''"
    and "path (NewParser b) = (None, t)" and "pwf t" and "rest t = ''>''"
  shows "MailFrom p b = Ret (None, past_end (moved 1 [] t))"
proof -
  have "skip_one_space (NewParser b) = NewParser b"
    using assms by (simp add: skip_one_space_def peek_rest New_input)
  moreover have "\<not> prefix ''<>'' b" using assms by simp
  ultimately have "reversePath (NewParser b) = Ret (None, t)"
    using assms(4) by (simp add: reversePath_def slice_from_def)
  then have "MailFrom (NewParser []) b = Ret (path_params t)"
    by (simp add: MailFrom_def set_input_New)
  moreover have "MailFrom p b = MailFrom (NewParser []) b"
    using assms by (intro MailFrom_stale) auto
  ultimately show ?thesis using assms path_params_end by simp
qed

lemma RcptTo_path:
  assumes "parser_ok p" and "b = CHR ''<'' # r"
    and "path (NewParser b) = (None, t)" and "pwf t" and "rest t = ''>''"
  shows "RcptTo p b = (None, past_end (moved 1 []
     (if prefix postmasterLocalPart (to_lower (LocalPart t))
      then t\<lparr>LocalPart := postmasterLocalPart\<rparr> else t)))"
proof -
  have "skip_one_space (NewParser b) = NewParser b"
    using assms by (simp add: skip_one_space_def peek_rest New_input)
  then have "forwardPath (NewParser b) = (None, if prefix postmasterLocalPart (to_lower (LocalPart t))
      then t\<lparr>LocalPart := postmasterLocalPart\<rparr> else t)"
    using assms(3) by (simp add: forwardPath_def)
  moreover have "RcptTo p b = RcptTo (NewParser []) b"
    using assms by (intro RcptTo_stale) auto
  ultimately show ?thesis
    using assms path_params_end [of t] path_params_end [of "t\<lparr>LocalPart := postmasterLocalPart\<rparr>"]
    by (simp add: RcptTo_def set_input_New)
qed

text \<open>The parser after the path \<open>\<langle>l@d\<rangle>\<close> has been read up to the closing bracket.\<close>

lemma path_dot:
  assumes "isDotString l" and "isDomain d" and "b = CHR ''<'' # l @ CHR ''@'' # d @ ''>''"
  shows "path (NewParser b) = (None, (moved (length l + length d + 2) [] (NewParser b))\<lparr>LocalPart := l, Domain := d\<rparr>)"
    (is "_ = (None, ?t)")
proof -
  let ?s = "moved 1 [] (NewParser b)"
  obtain c l' where l: "l = c # l'" "isAtext c" using isDotString_first [OF assms(1)] by blast
  then have c: "c \<noteq> CHR ''@''" by auto
  have lp: "localPart ?s = (None, (moved (length l + 2) [] (NewParser b))\<lparr>LocalPart := l\<rparr>)"
    using assms localPart_dot [of ?s l "d @ ''>''"] by (simp add: New_input)
  have "mailbox ?s = (None, (moved (length d) [] ((moved (length l + 2) [] (NewParser b))\<lparr>LocalPart := l\<rparr>))\<lparr>Domain := d\<rparr>)"
    using assms by (intro mailbox_domain [OF lp, where r = "''>''"]) (auto simp: New_input ends_domain_def)
  then have "mailbox ?s = (None, ?t)" by (simp add: New_input add.commute add.left_commute)
  then show ?thesis
    by (rule path_closed [rotated 3]) (use assms l c in \<open>auto simp: New_input\<close>)
qed

lemma path_quoted:
  assumes "list_all printable u" and "u \<noteq> []" and "isDomain d"
    and "b = CHR ''<'' # CHR 0x22 # quote_escape u @ CHR 0x22 # CHR ''@'' # d @ ''>''"
  shows "path (NewParser b) = (None, (moved (length (quote_escape u) + length d + 4) [] (NewParser b))
      \<lparr>LocalPart := u, LocalPartQuotes := \<not> list_all isAtext u, Domain := d\<rparr>)" (is "_ = (None, ?t)")
proof -
  let ?s = "moved 1 [] (NewParser b)" and ?n = "length (quote_escape u)"
  let ?l = "(moved (?n + 4) [] (NewParser b))\<lparr>LocalPart := u, LocalPartQuotes := \<not> list_all isAtext u\<rparr>"
  have lp: "localPart ?s = (None, ?l)"
    using assms localPart_quoted [of ?s u "d @ ''>''"] by (simp add: New_input add.commute)
  have "mailbox ?s = (None, (moved (length d) [] ?l)\<lparr>Domain := d\<rparr>)"
    using assms by (intro mailbox_domain [OF lp, where r = "''>''"])
      (auto simp: New_input ends_domain_def eval_nat_numeral)
  then have "mailbox ?s = (None, ?t)" by (simp add: New_input add.commute add.left_commute)
  then show ?thesis
    by (rule path_closed [rotated 3]) (use assms in \<open>auto simp: New_input eval_nat_numeral\<close>)
qed

subsection \<open>What an accepted path leaves in the object\<close>

definition frame :: "parser \<Rightarrow> parser \<Rightarrow> bool" where
  "frame s s' \<longleftrightarrow> LocalPart s' = LocalPart s \<and> Domain s' = Domain s \<and> IP s' = IP s
     \<and> NullPath s' = NullPath s \<and> (pwf s \<longrightarrow> pwf s')"

definition clean :: "parser \<Rightarrow> parser \<Rightarrow> bool" where
  "clean s s' \<longleftrightarrow> frame s s' \<and> (list_all printable (accept s) \<longrightarrow> list_all printable (accept s'))"

definition keeps_local :: "parser \<Rightarrow> parser \<Rightarrow> bool" where
  "keeps_local s s' \<longleftrightarrow> LocalPart s' = LocalPart s \<and> NullPath s' = NullPath s"

lemma next_ch_frame:
  "next_ch s = (c, s1) \<Longrightarrow> frame s s1 \<and> accept s1 = accept s"
  by (auto simp: next_ch_def frame_def pwf_def Let_def split: if_splits)

interpretation frame: scanning_bytes frame
  by unfold_locales
    (auto dest: next_ch_frame,
      auto simp: frame_def pwf_def write_byte_def reset_accept_def mark_quotes_def moved_def)

interpretation clean: scanning clean
  by unfold_locales
    (auto simp: clean_def dest: next_ch_frame intro: frame.R_refl frame.R_trans,
      auto simp: frame_def pwf_def write_byte_def reset_accept_def mark_quotes_def moved_def)

interpretation keeps_local: scanning_literal keeps_local
  by unfold_locales
    (auto dest!: next_ch_frame simp: frame_def,
      auto simp: keeps_local_def write_byte_def reset_accept_def mark_quotes_def)

definition address_ok :: "parser \<Rightarrow> bool" where
  "address_ok s \<longleftrightarrow> (IP s = None \<longrightarrow> isDomain (Domain s)) \<and> list_all printable (LocalPart s)"

lemma keep_LocalPart_clean:
  "list_all printable (accept s) \<Longrightarrow> list_all printable (LocalPart s) \<Longrightarrow>
   list_all printable (LocalPart (keep_LocalPart s)) \<and> accept (keep_LocalPart s) = []
   \<and> NullPath (keep_LocalPart s) = NullPath s \<and> pwf (keep_LocalPart s) = pwf s"
  by (simp add: keep_LocalPart_def reset_accept_def pwf_def)

lemma localPart_clean:
  assumes "localPart s = (e, t)" and "list_all printable (accept s)" and "list_all printable (LocalPart s)"
    and "pwf s"
  shows "list_all printable (LocalPart t) \<and> accept t = [] \<and> NullPath t = NullPath s \<and> pwf t"
proof -
  obtain u where u: "t = keep_LocalPart u" "clean s u"
    using assms(1) by (auto simp: localPart_def split: prod.splits if_splits
        dest: clean.R_quotedString clean.R_dotString)
  then have "list_all printable (accept u)" "list_all printable (LocalPart u)"
    "NullPath u = NullPath s" "pwf u"
    using assms by (auto simp: clean_def frame_def)
  then show ?thesis using u keep_LocalPart_clean by simp
qed

lemma ipv4_IP: "ipv4AddressLiteral s = (None, s') \<Longrightarrow> IP s' \<noteq> None"
  by (auto simp: ipv4AddressLiteral_def split: prod.splits option.splits)

lemma ipv6_IP: "ipv6_loop ip s = (None, s') \<Longrightarrow> IP s' \<noteq> None"
proof (induction ip s rule: ipv6_loop.induct)
  case (1 ip s)
  obtain c s1 where n: "next_ch s = (c, s1)" by (cases "next_ch s")
  with "1.prems" "1.IH" [OF n [symmetric]] show ?case
    by (subst (asm) ipv6_loop.simps) (auto split: if_splits option.splits)
qed

lemma addressLiteral_IP:
  assumes "addressLiteral s = (None, s')" and "pwf s" and "peek s = CHR ''[''"
  shows "IP s' \<noteq> None"
proof -
  obtain cs where r: "rest s = CHR ''['' # cs" using assms by (auto simp: peek_rest split: list.splits)
  then have n: "next_ch s = (CHR ''['', moved 1 [] s)" using assms by (intro next_ch_Cons) auto
  obtain e6 s6 where v6: "ipv6AddressLiteral (((\<lambda>s. snd (next_ch s)) ^^ 5) (moved 1 [] s)) = (e6, s6)"
    by fastforce
  obtain e4 s4 where v4: "ipv4AddressLiteral (moved 1 [] s) = (e4, s4)" by fastforce
  from assms r n v4 v6 show ?thesis
    by (auto simp: addressLiteral_def Let_def ipv6AddressLiteral_def split: if_splits option.splits
        dest: ipv4_IP ipv6_IP)
qed

lemma mailbox_sound:
  assumes "mailbox s = (None, s')" and "pwf s" and "list_all printable (accept s)"
    and "list_all printable (LocalPart s)"
  shows "address_ok s' \<and> NullPath s' = NullPath s"
proof -
  obtain t where t: "localPart s = (None, t)" "ch t = CHR ''@''"
    using assms(1) by (auto simp: mailbox_def split: prod.splits option.splits if_splits)
  note lp = localPart_clean [OF t(1) assms(3,4,2)]
  obtain u where u: "s' = keep_Domain u"
    and br: "if peek t = CHR ''['' then addressLiteral t = (None, u) else domain t = (None, u)"
    using assms(1) t by (auto simp: mailbox_def split: prod.splits if_splits)
  show ?thesis
  proof (cases "peek t = CHR ''[''")
    case True
    with br have a: "addressLiteral t = (None, u)" by simp
    with True lp have "IP u \<noteq> None" using addressLiteral_IP by blast
    moreover have "keeps_local t u" using a by (rule keeps_local.R_addressLiteral)
    ultimately show ?thesis using lp u
      by (auto simp: address_ok_def keeps_local_def keep_Domain_def reset_accept_def)
  next
    case False
    with br have d: "domain t = (None, u)" by simp
    then obtain w where "isDomain w" and w: "u = moved (length w) w t"
      using domain_sound lp by blast
    moreover from this obtain c v where "w = c # v" using isDomain_first by blast
    ultimately show ?thesis using lp u
      by (simp add: address_ok_def keep_Domain_def reset_accept_def)
  qed
qed

lemma path_sound:
  assumes "path s = (None, s')" and "pwf s" and "list_all printable (accept s)"
    and "list_all printable (LocalPart s)"
  shows "address_ok s' \<and> NullPath s' = NullPath s"
proof -
  obtain c s1 where n: "next_ch s = (c, s1)" by fastforce
  obtain e2 s2 where a: "adl s1 = (e2, s2)" by fastforce
  have 1: "clean s s1" using n by (rule clean.R_next)
  have 2: "clean s s2" by (rule clean.R_trans [OF 1 clean.R_adl [OF a]])
  obtain t where t: "clean s t" "mailbox t = (None, s')"
    using assms(1) n a 1 2 clean.R_trans [OF 2 clean.R_snd_next]
    by (auto simp: path_def Let_def split: if_splits option.splits prod.splits)
  then have "pwf t" "list_all printable (accept t)" "list_all printable (LocalPart t)"
    "NullPath t = NullPath s"
    using assms by (auto simp: clean_def frame_def)
  with mailbox_sound [OF t(2)] show ?thesis by simp
qed

lemma path_params_frame: "path_params s = (e, s') \<Longrightarrow> frame s s'"
proof -
  assume h: "path_params s = (e, s')"
  obtain c s1 where n: "next_ch (snd (next_ch s)) = (c, s1)" by fastforce
  obtain r e2 s2 where q: "parameters s1 [] = (r, e2, s2)" by (cases "parameters s1 []")
  have 1: "frame s s1" by (rule frame.R_trans [OF frame.R_snd_next frame.R_next [OF n]])
  have 2: "frame s s2" by (rule frame.R_trans [OF 1 frame.R_parameters [OF q]])
  have 3: "frame s (s2\<lparr>PathParams := ps\<rparr>)" for ps using 2 by (simp add: frame_def pwf_def)
  show ?thesis using h n q 1 2 3
    by (auto simp: path_params_def split: if_splits option.splits)
qed

lemma frame_address_ok: "frame s s' \<Longrightarrow> address_ok s' = address_ok s \<and> NullPath s' = NullPath s"
  by (simp add: frame_def address_ok_def)

lemma fresh_input:
  "parser_ok p \<Longrightarrow> frame (set_input p b) s \<and> accept s = [] \<Longrightarrow>
   pwf s \<and> list_all printable (accept s) \<and> list_all printable (LocalPart s) \<and> \<not> NullPath s"
  by (auto simp: set_input_fresh frame_def NewParser_def pwf_def)

lemma skip_one_space_frame:
  "frame s (skip_one_space s) \<and> accept (skip_one_space s) = accept s"
  using next_ch_frame [of s] frame.R_refl [of s]
  by (cases "next_ch s") (auto simp: skip_one_space_def)

lemma set_input_accept: "parser_ok p \<Longrightarrow> accept (set_input p b) = []"
  by (simp add: set_input_fresh NewParser_def)

lemma MailFrom_ok:
  assumes "parser_ok p" and "MailFrom p b = Ret (None, p')"
  shows "NullPath p' \<or> address_ok p'"
proof -
  let ?s = "skip_one_space (set_input p b)"
  have s: "pwf ?s \<and> list_all printable (accept ?s) \<and> list_all printable (LocalPart ?s) \<and> \<not> NullPath ?s"
    using assms(1) skip_one_space_frame [of "set_input p b"] set_input_accept
    by (intro fresh_input) auto
  from assms(2) obtain t where t: "reversePath (set_input p b) = Ret (None, t)" "path_params t = (None, p')"
    by (auto simp: MailFrom_def bind_outcome_Ret_iff split: option.splits prod.splits)
  then have "NullPath t \<or> path ?s = (None, t)"
    by (auto simp: reversePath_def bind_outcome_Ret_iff Let_def split: if_splits)
  with s path_sound [of ?s t] have "NullPath t \<or> address_ok t" by auto
  with path_params_frame [OF t(2)] show ?thesis using frame_address_ok by blast
qed

lemma postmaster_printable: "list_all printable postmasterLocalPart"
  by (simp add: printable_def less_eq_char_def)

lemma forwardPath_ok:
  assumes "forwardPath s = (None, s')" and "path (skip_one_space s) = (None, t)" and "address_ok t"
  shows "address_ok s'"
  using assms postmaster_printable
  by (auto simp: forwardPath_def address_ok_def split: if_splits)

lemma RcptTo_ok:
  assumes "parser_ok p" and "RcptTo p b = (None, p')"
  shows "address_ok p' \<or> LocalPart p' = postmasterLocalPart"
proof -
  let ?s = "skip_one_space (set_input p b)"
  have s: "pwf ?s \<and> list_all printable (accept ?s) \<and> list_all printable (LocalPart ?s) \<and> \<not> NullPath ?s"
    using assms(1) skip_one_space_frame [of "set_input p b"] set_input_accept
    by (intro fresh_input) auto
  from assms(2) obtain t where t: "forwardPath (set_input p b) = (None, t)" "path_params t = (None, p')"
    by (auto simp: RcptTo_def split: option.splits prod.splits)
  obtain e u where pu: "path ?s = (e, u)" by fastforce
  have "address_ok t \<or> LocalPart t = postmasterLocalPart"
  proof (cases e)
    case None
    then show ?thesis using forwardPath_ok [OF t(1), of u] path_sound [of ?s u] pu s by auto
  next
    case (Some x)
    then show ?thesis using t(1) pu by (auto simp: forwardPath_def split: if_splits)
  qed
  moreover have "address_ok p' = address_ok t" "LocalPart p' = LocalPart t"
    using path_params_frame [OF t(2)] by (simp_all add: frame_def address_ok_def)
  ultimately show ?thesis by simp
qed

lemma Helo_first:
  "parser_ok p \<Longrightarrow> ch (snd (next_ch (set_input p b))) = CHR '' '' \<and> b \<noteq> [] \<longleftrightarrow> (\<exists>r. b = CHR '' '' # r)"
  by (cases b) (auto simp: set_input_fresh next_ch_def NewParser_def)

lemma after_first:
  "parser_ok p \<Longrightarrow> b = c # r \<Longrightarrow> snd (next_ch (set_input p b)) = moved 1 [] (NewParser b)"
  using next_ch_stale [of "NewParser b" "ch p"] next_ch_Cons [of "NewParser b" c r]
  by (simp add: set_input_fresh New_input)

lemma Helo_empty: "parser_ok p \<Longrightarrow> fst (snd (Helo p [])) \<noteq> None"
proof -
  assume p: "parser_ok p"
  let ?s = "snd (next_ch (set_input p []))"
  have s: "pwf ?s \<and> rest ?s = []"
    using p by (simp add: set_input_fresh next_ch_def NewParser_def pwf_def rest_def)
  obtain e t where d: "domain ?s = (e, t)" by fastforce
  have "\<not> isDomain []" using isDomain_first by blast
  then have "e \<noteq> None" using domain_sound [of ?s t] s d by (cases e) auto
  with d show ?thesis by (auto simp: Helo_def Let_def)
qed

lemma MailFrom_dot:
  assumes "parser_ok p" and "isDotString l" and "isDomain d"
  shows "\<exists>p'. MailFrom p (''<'' @ l @ ''@'' @ d @ ''>'') = Ret (None, p')
    \<and> LocalPart p' = l \<and> Domain p' = d \<and> \<not> LocalPartQuotes p'
    \<and> ADL p' = [] \<and> PathParams p' = [] \<and> IP p' = None \<and> \<not> NullPath p'"
proof -
  let ?b = "''<'' @ l @ ''@'' @ d @ ''>''"
  let ?t = "(moved (length l + length d + 2) [] (NewParser ?b))\<lparr>LocalPart := l, Domain := d\<rparr>"
  obtain c l' where l: "l = c # l'" "isAtext c" using isDotString_first [OF assms(2)] by blast
  then have "c \<noteq> CHR ''>''" by (auto simp: isAtext_def)
  moreover have "path (NewParser ?b) = (None, ?t)" using assms by (intro path_dot) auto
  ultimately have "MailFrom p ?b = Ret (None, past_end (moved 1 [] ?t))"
    using assms(1) l
    by (intro MailFrom_path [where c = c and r = "l' @ CHR ''@'' # d @ ''>''"]) (auto simp: New_input)
  then show ?thesis by (simp add: past_end_def New_input)
qed

lemma MailFrom_quoted:
  assumes "parser_ok p" and "u \<noteq> []" and "list_all printable u" and "isDomain d"
  shows "\<exists>p'. MailFrom p (''<'' @ [CHR 0x22] @ quote_escape u @ [CHR 0x22] @ ''@'' @ d @ ''>'') = Ret (None, p')
    \<and> LocalPart p' = u \<and> Domain p' = d \<and> LocalPartQuotes p' = (\<not> list_all isAtext u)"
proof -
  let ?b = "''<'' @ [CHR 0x22] @ quote_escape u @ [CHR 0x22] @ ''@'' @ d @ ''>''"
  let ?t = "(moved (length (quote_escape u) + length d + 4) [] (NewParser ?b))
      \<lparr>LocalPart := u, LocalPartQuotes := \<not> list_all isAtext u, Domain := d\<rparr>"
  have "path (NewParser ?b) = (None, ?t)" using assms by (intro path_quoted) auto
  then have "MailFrom p ?b = Ret (None, past_end (moved 1 [] ?t))"
    using assms(1) by (intro MailFrom_path [where c = "CHR 0x22"]) (auto simp: New_input eval_nat_numeral)
  then show ?thesis by (simp add: past_end_def New_input)
qed

subsection \<open>Properties\<close>

text \<open>
  The reverse path of a well-formed mailbox is stored as it was sent. For every dot-string
  \<open>l\<close> and domain \<open>d\<close> of the grammar, \<open>MailFrom\<close> on \<open>\<langle>l@d\<rangle>\<close> succeeds with exactly
  that local part and domain, no source route, no parameter, no literal and no null path, whatever
  the parser was used for before.
\<close>

theorem MailFrom_roundtrip:
  assumes "parser_ok p" and "isDotString l" and "isDomain d"
  shows "\<exists>p'. MailFrom p (''<'' @ l @ ''@'' @ d @ ''>'') = Ret (None, p')
    \<and> LocalPart p' = l \<and> Domain p' = d \<and> \<not> LocalPartQuotes p'
    \<and> ADL p' = [] \<and> PathParams p' = [] \<and> IP p' = None \<and> \<not> NullPath p'"
  using assms by (rule MailFrom_dot)

theorem MailFrom_roundtrip_witness:
  "\<exists>p'. MailFrom (NewParser []) ''<jane.doe@mx-1.example.com>'' = Ret (None, p')
     \<and> LocalPart p' = ''jane.doe'' \<and> Domain p' = ''mx-1.example.com''"
proof -
  have "isDotString ''jane.doe''" "isDomain ''mx-1.example.com''"
    by (simp_all add: isDotString_def isAtom_def isAtext_def isDomain_def isSubdomain_def isLDH_def
        isLetDig_def less_eq_char_def)
  from MailFrom_roundtrip [OF parser_ok_New [of "[]"] this] show ?thesis by auto
qed

text \<open>
  C32: a recipient is stored as it was sent, with the one exception the code makes: a local part
  that starts with \<open>postmaster\<close> in any letter case is replaced by \<open>postmaster\<close>.
\<close>

theorem RcptTo_roundtrip:
  assumes "parser_ok p" and "isDotString l" and "isDomain d"
  shows "\<exists>p'. RcptTo p (''<'' @ l @ ''@'' @ d @ ''>'') = (None, p')
    \<and> LocalPart p' = (if prefix ''postmaster'' (to_lower l) then ''postmaster'' else l)
    \<and> Domain p' = d \<and> ADL p' = [] \<and> PathParams p' = [] \<and> IP p' = None \<and> \<not> NullPath p'"
proof -
  let ?b = "''<'' @ l @ ''@'' @ d @ ''>''"
  let ?t = "(moved (length l + length d + 2) [] (NewParser ?b))\<lparr>LocalPart := l, Domain := d\<rparr>"
  have "path (NewParser ?b) = (None, ?t)" using assms by (intro path_dot) auto
  from RcptTo_path [OF assms(1) _ this, of "l @ ''@'' @ d @ ''>''"] show ?thesis
    by (auto simp: past_end_def New_input)
qed

theorem RcptTo_roundtrip_witness:
  "\<exists>p'. RcptTo (NewParser []) ''<PostMaster@example.com>'' = (None, p')
     \<and> LocalPart p' = ''postmaster'' \<and> Domain p' = ''example.com''"
proof -
  have "isDotString ''PostMaster''" "isDomain ''example.com''"
    by (simp_all add: isDotString_def isAtom_def isAtext_def isDomain_def isSubdomain_def isLDH_def
        isLetDig_def less_eq_char_def)
  from RcptTo_roundtrip [OF parser_ok_New [of "[]"] this] show ?thesis
    by (auto simp: to_lower_def lower_byte_def less_eq_char_def char_of_def bit_nat_def)
qed

text \<open>
  Quoted local parts. The quoted form of any non-empty printable string, with a backslash
  before each quote and backslash, is accepted and the string itself is stored; \<open>LocalPartQuotes\<close>
  is set exactly when the string needs the quotes.
\<close>

theorem MailFrom_quoted_roundtrip:
  assumes "parser_ok p" and "u \<noteq> []" and "list_all printable u" and "isDomain d"
  shows "\<exists>p'. MailFrom p (''<'' @ [CHR 0x22] @ quote_escape u @ [CHR 0x22] @ ''@'' @ d @ ''>'') = Ret (None, p')
    \<and> LocalPart p' = u \<and> Domain p' = d \<and> LocalPartQuotes p' = (\<not> list_all isAtext u)"
  using assms by (rule MailFrom_quoted)

theorem MailFrom_quoted_roundtrip_witness:
  "\<exists>p'. MailFrom (NewParser []) [CHR ''<'', CHR 0x22, CHR ''a'', CHR '' '', CHR 0x5C, CHR 0x22, CHR 0x22,
     CHR ''@'', CHR ''b'', CHR ''>''] = Ret (None, p')
     \<and> LocalPart p' = [CHR ''a'', CHR '' '', CHR 0x22] \<and> LocalPartQuotes p'"
proof -
  have "list_all printable [CHR ''a'', CHR '' '', CHR 0x22]" "isDomain ''b''"
    by (simp_all add: printable_def isDomain_def isSubdomain_def isLDH_def isLetDig_def less_eq_char_def)
  from MailFrom_quoted_roundtrip [OF parser_ok_New [of "[]"] _ this] show ?thesis
    by (auto simp: isAtext_def less_eq_char_def)
qed



text \<open>
  C34: \<open>HELO\<close> accepts exactly a space and a domain. It succeeds with the name \<open>d\<close> if and only if
  the argument is a space, \<open>d\<close>, and then the end of the line or one of the characters that end a
  domain, and \<open>d\<close> is a domain of the grammar.
\<close>

theorem Helo_exact:
  assumes "parser_ok p"
  shows "(\<exists>p'. Helo p b = (d, None, p')) \<longleftrightarrow>
    (\<exists>r. b = '' '' @ d @ r \<and> isDomain d \<and> ends_domain r)"
proof (cases b)
  case Nil
  then show ?thesis using Helo_empty [OF assms] by auto
next
  case (Cons c r)
  let ?s = "moved 1 [] (NewParser b)"
  have h: "Helo p b = (if c = CHR '' '' then
      (case domain ?s of (Some e, s) \<Rightarrow> ([], Some e, s) | (None, s) \<Rightarrow> (accept s, None, s))
      else ([], Some (PErr ''helo parse error''), ?s))"
    using Cons after_first [OF assms Cons] by (simp add: Helo_def New_input)
  have s: "pwf ?s" "rest ?s = r" "accept ?s = []" using Cons by (simp_all add: New_input)
  show ?thesis
  proof
    assume "\<exists>p'. Helo p b = (d, None, p')"
    with h obtain t where t: "c = CHR '' ''" "domain ?s = (None, t)" "d = accept t"
      by (auto split: if_splits prod.splits option.splits)
    with domain_sound [OF s(1) t(2)] s Cons show "\<exists>r. b = '' '' @ d @ r \<and> isDomain d \<and> ends_domain r"
      by auto
  next
    assume "\<exists>r. b = '' '' @ d @ r \<and> isDomain d \<and> ends_domain r"
    then obtain q where "c = CHR '' ''" "r = d @ q" "isDomain d" "ends_domain q" using Cons by auto
    with domain_complete [of ?s d q] h s show "\<exists>p'. Helo p b = (d, None, p')" by simp
  qed
qed

theorem Helo_exact_witness: "\<exists>p'. Helo (NewParser []) '' mx.example.com'' = (''mx.example.com'', None, p')"
proof -
  have "isDomain ''mx.example.com''" "ends_domain []"
    by (simp_all add: isDomain_def isSubdomain_def isLDH_def isLetDig_def less_eq_char_def ends_domain_def)
  then show ?thesis
    using Helo_exact [OF parser_ok_New [of "[]"], of "'' mx.example.com''" "''mx.example.com''"] by auto
qed

end
