(* ===== verification/Tenant.thy ===== *)
theory Tenant
  imports Prelude
begin

section \<open>Tenant records (backends/tenant.go)\<close>

text \<open>
  The tenant records that the authentication service and the tenant registry return, and their
  validation. A record of a richer Go struct extends the poorer one, as the structs do field by
  field; a nil pointer is \<open>None\<close>. The decoding of the JSON body is an argument
  (\<open>unmarshal\<close>): its error or the decoded struct. An error is its text.
\<close>

abbreviation envelopeTenantSendKey :: bytes where
  "envelopeTenantSendKey \<equiv> ''tenant_send''"

abbreviation defaultOCIEmailPort :: int where
  "defaultOCIEmailPort \<equiv> 587"

record tenantSES =
  ses_Region :: bytes
  ses_AccessKeyID :: bytes
  ses_SecretAccessKey :: bytes

record tenantOCI =
  oci_Host :: bytes
  oci_Region :: bytes
  oci_Port :: int
  oci_Username :: bytes
  oci_Password :: bytes

record tenantPOP3 =
  pop3_Host :: bytes
  pop3_Port :: int
  pop3_TLS :: bool
  pop3_User :: bytes
  pop3_Password :: bytes

record tenantIMAP =
  imap_Host :: bytes
  imap_Port :: int
  imap_TLS :: bool
  imap_User :: bytes
  imap_Password :: bytes

record tenantSendConfig =
  TenantID :: bytes
  Provider :: bytes
  SES :: "tenantSES option"
  OCIEmail :: "tenantOCI option"

record tenant = tenantSendConfig +
  POP3Accounts :: "tenantPOP3 list"
  IMAPAccounts :: "tenantIMAP list"

record tenantJSON = tenant +
  OK :: bool

subsection \<open>Validation\<close>

definition validateTenantSES :: "tenantSendConfig \<Rightarrow> bytes + tenantSendConfig" where
  "validateTenantSES cfg =
     (case SES cfg of
        None \<Rightarrow> Inl ''ses block is required for provider ses''
      | Some ses \<Rightarrow>
          (let ses = ses\<lparr>ses_Region := trim_space (ses_Region ses)\<rparr>
           in if ses_Region ses = [] then Inl ''ses.region is required''
              else Inr (cfg\<lparr>SES := Some ses\<rparr>)))"

definition validateTenantOCI :: "tenantSendConfig \<Rightarrow> bytes + tenantSendConfig" where
  "validateTenantOCI cfg =
     (case OCIEmail cfg of
        None \<Rightarrow> Inl ''ociemail block is required for provider oci''
      | Some oci \<Rightarrow>
          (let oci = oci\<lparr>oci_Username := trim_space (oci_Username oci)\<rparr>
           in if oci_Username oci = [] then Inl ''ociemail.username is required''
              else if oci_Password oci = [] then Inl ''ociemail.password is required''
              else Inr (cfg\<lparr>OCIEmail := Some (if oci_Port oci \<le> 0
                                              then oci\<lparr>oci_Port := defaultOCIEmailPort\<rparr> else oci)\<rparr>)))"

definition validateTenantSendConfig :: "tenantSendConfig option \<Rightarrow> bytes + tenantSendConfig" where
  "validateTenantSendConfig c =
     (case c of
        None \<Rightarrow> Inl ''tenant config is nil''
      | Some cfg \<Rightarrow>
          (let cfg = cfg\<lparr>TenantID := trim_space (TenantID cfg),
                         Provider := to_lower (trim_space (Provider cfg))\<rparr>
           in if TenantID cfg = [] then Inl ''tenant_id is required''
              else if Provider cfg = ''ses'' then validateTenantSES cfg
              else if Provider cfg = ''oci'' then validateTenantOCI cfg
              else Inl ''provider must be ses or oci''))"

definition send_config_of :: "'a tenantSendConfig_scheme \<Rightarrow> tenantSendConfig" where
  "send_config_of t = \<lparr>TenantID = TenantID t, Provider = Provider t, SES = SES t, OCIEmail = OCIEmail t\<rparr>"

definition ParseTenantSendConfigFromAuth ::
    "(bytes \<Rightarrow> bytes + tenantJSON) \<Rightarrow> bytes \<Rightarrow> bytes + tenantSendConfig option" where
  "ParseTenantSendConfigFromAuth unmarshal body =
     (case unmarshal body of
        Inl err \<Rightarrow> Inl err
      | Inr raw \<Rightarrow>
          if trim_space (TenantID raw) = [] then Inr None
          else (case validateTenantSendConfig (Some (send_config_of raw)) of
                  Inl err \<Rightarrow> Inl err
                | Inr cfg \<Rightarrow> Inr (Some cfg)))"

definition default_POP3 :: "tenantPOP3 \<Rightarrow> tenantPOP3" where
  "default_POP3 a =
     (let a = (if pop3_Port a \<le> 0 then a\<lparr>pop3_Port := 995\<rparr> else a)
      in if \<not> pop3_TLS a then a\<lparr>pop3_TLS := True\<rparr> else a)"

definition default_IMAP :: "tenantIMAP \<Rightarrow> tenantIMAP" where
  "default_IMAP a =
     (let a = (if imap_Port a \<le> 0 then a\<lparr>imap_Port := 993\<rparr> else a)
      in if \<not> imap_TLS a then a\<lparr>imap_TLS := True\<rparr> else a)"

definition parseTenantRecord :: "tenantJSON \<Rightarrow> bytes + tenant" where
  "parseTenantRecord raw =
     (case validateTenantSendConfig (Some (send_config_of raw)) of
        Inl err \<Rightarrow> Inl err
      | Inr s \<Rightarrow> Inr \<lparr>TenantID = TenantID s, Provider = Provider s, SES = SES s, OCIEmail = OCIEmail s,
                     POP3Accounts = map default_POP3 (POP3Accounts raw),
                     IMAPAccounts = map default_IMAP (IMAPAccounts raw)\<rparr>)"

text \<open>The loop of \<open>ParseTenantsList\<close>: the index of the next record and the records left.\<close>

fun parse_tenants :: "nat \<Rightarrow> tenantJSON list \<Rightarrow> bytes + tenant list" where
  "parse_tenants i [] = Inr []"
| "parse_tenants i (t # ts) =
     (case parseTenantRecord t of
        Inl err \<Rightarrow> Inl (''tenants['' @ show_nat i @ '']: '' @ err)
      | Inr tenant \<Rightarrow>
          (case parse_tenants (Suc i) ts of
             Inl err \<Rightarrow> Inl err
           | Inr out \<Rightarrow> Inr (tenant # out)))"

definition ParseTenantsList ::
    "(bytes \<Rightarrow> bytes + tenantJSON list) \<Rightarrow> bytes \<Rightarrow> bytes + tenant list" where
  "ParseTenantsList unmarshal body =
     (case unmarshal body of Inl err \<Rightarrow> Inl err | Inr tenants \<Rightarrow> parse_tenants 0 tenants)"

definition TenantSendFromTenant :: "tenant option \<Rightarrow> tenantSendConfig option" where
  "TenantSendFromTenant t = map_option send_config_of t"

subsection \<open>What a validated record satisfies\<close>

definition send_ok :: "tenantSendConfig \<Rightarrow> bool" where
  "send_ok c \<longleftrightarrow> TenantID c \<noteq> [] \<and> trim_space (TenantID c) = TenantID c \<and>
     (Provider c = ''ses'' \<and> (\<exists>s. SES c = Some s \<and> ses_Region s \<noteq> [] \<and> trim_space (ses_Region s) = ses_Region s)
      \<or> Provider c = ''oci'' \<and> (\<exists>o'. OCIEmail c = Some o' \<and> oci_Username o' \<noteq> []
           \<and> trim_space (oci_Username o') = oci_Username o' \<and> oci_Password o' \<noteq> [] \<and> 0 < oci_Port o'))"

lemma validateTenantSendConfig_ok: "validateTenantSendConfig c = Inr cfg \<Longrightarrow> send_ok cfg"
  by (auto simp: validateTenantSendConfig_def validateTenantSES_def validateTenantOCI_def send_ok_def
      Let_def split: option.splits if_splits)

lemma trim_lower_providers:
  "to_lower (trim_space ''ses'') = ''ses''" "to_lower (trim_space ''oci'') = ''oci''"
  by code_simp+

lemma validateTenantSendConfig_fix: "send_ok cfg \<Longrightarrow> validateTenantSendConfig (Some cfg) = Inr cfg"
  by (auto simp: validateTenantSendConfig_def validateTenantSES_def validateTenantOCI_def send_ok_def
      Let_def trim_lower_providers)

lemma parse_tenants_ok:
  "parse_tenants i ts = Inr out \<Longrightarrow>
   length out = length ts \<and> (\<forall>t \<in> set out. send_ok (send_config_of t)
     \<and> (\<forall>a \<in> set (POP3Accounts t). 0 < pop3_Port a \<and> pop3_TLS a)
     \<and> (\<forall>a \<in> set (IMAPAccounts t). 0 < imap_Port a \<and> imap_TLS a))"
proof (induction i ts arbitrary: out rule: parse_tenants.induct)
  case (2 i t ts)
  then obtain x xs where x: "parseTenantRecord t = Inr x" and xs: "parse_tenants (Suc i) ts = Inr xs"
    and out: "out = x # xs" by (auto split: sum.splits)
  obtain v where v: "validateTenantSendConfig (Some (send_config_of t)) = Inr v" "send_config_of x = v"
    using x by (auto simp: parseTenantRecord_def send_config_of_def split: sum.splits)
  then have "send_ok (send_config_of x)" using validateTenantSendConfig_ok by blast
  moreover have "(\<forall>a \<in> set (POP3Accounts x). 0 < pop3_Port a \<and> pop3_TLS a)"
    "(\<forall>a \<in> set (IMAPAccounts x). 0 < imap_Port a \<and> imap_TLS a)"
    using x by (auto simp: parseTenantRecord_def default_POP3_def default_IMAP_def Let_def split: sum.splits)
  ultimately show ?case using "2.IH" [OF x xs] out by auto
qed simp

subsection \<open>Properties\<close>

text \<open>
  Tenant credentials reach the mail path only complete. A configuration that passes
  \<open>validateTenantSendConfig\<close> has a trimmed, non-empty tenant id and the full block of its
  provider (\<open>ses\<close> with a region; \<open>oci\<close> with user, password and a positive port), and
  validating it again changes nothing.
\<close>

theorem validated_tenant:
  assumes "validateTenantSendConfig c = Inr cfg"
  shows "send_ok cfg \<and> validateTenantSendConfig (Some cfg) = Inr cfg"
  using validateTenantSendConfig_ok [OF assms] validateTenantSendConfig_fix by blast

theorem validated_tenant_witness:
  "send_ok \<lparr>TenantID = ''t1'', Provider = ''oci'', SES = None, OCIEmail = Some
     \<lparr>oci_Host = [], oci_Region = [], oci_Port = 587, oci_Username = ''u'', oci_Password = ''p''\<rparr>\<rparr>"
proof -
  let ?c = "\<lambda>i p u n. \<lparr>TenantID = i, Provider = p, SES = None, OCIEmail = Some
     \<lparr>oci_Host = [], oci_Region = [], oci_Port = n, oci_Username = u, oci_Password = ''p''\<rparr>\<rparr>"
  have "validateTenantSendConfig (Some (?c '' t1'' ''OCI '' '' u'' 0)) = Inr (?c ''t1'' ''oci'' ''u'' 587)"
    by code_simp
  from validated_tenant [OF this] show ?thesis by simp
qed

text \<open>
  The tenant list is all or nothing. If \<open>ParseTenantsList\<close> succeeds, it returns every
  record of the body, each with complete send credentials, and every POP3 and IMAP account has a
  positive port and TLS on.
\<close>

theorem tenants_list_ok:
  assumes "ParseTenantsList unmarshal body = Inr out"
  shows "\<exists>ts. unmarshal body = Inr ts \<and> length out = length ts \<and>
    (\<forall>t \<in> set out. send_ok (send_config_of t)
       \<and> (\<forall>a \<in> set (POP3Accounts t). 0 < pop3_Port a \<and> pop3_TLS a)
       \<and> (\<forall>a \<in> set (IMAPAccounts t). 0 < imap_Port a \<and> imap_TLS a))"
proof -
  obtain ts where "unmarshal body = Inr ts" "parse_tenants 0 ts = Inr out"
    using assms by (auto simp: ParseTenantsList_def split: sum.splits)
  with parse_tenants_ok show ?thesis by blast
qed

theorem tenants_list_ok_witness:
  "send_ok \<lparr>TenantID = ''a'', Provider = ''ses'',
     SES = Some \<lparr>ses_Region = ''eu'', ses_AccessKeyID = [], ses_SecretAccessKey = []\<rparr>, OCIEmail = None\<rparr>"
proof -
  let ?p = "\<lambda>n b. \<lparr>pop3_Host = ''h'', pop3_Port = n, pop3_TLS = b, pop3_User = ''u'', pop3_Password = ''p''\<rparr>"
  let ?ses = "Some \<lparr>ses_Region = ''eu'', ses_AccessKeyID = [], ses_SecretAccessKey = []\<rparr>"
  let ?u = "\<lambda>b :: bytes. Inr [\<lparr>TenantID = ''a '', Provider = ''SES'', SES = ?ses, OCIEmail = None,
       POP3Accounts = [?p 0 False], IMAPAccounts = [], OK = False\<rparr>] :: bytes + tenantJSON list"
  have "ParseTenantsList ?u [] = Inr [\<lparr>TenantID = ''a'', Provider = ''ses'', SES = ?ses, OCIEmail = None,
       POP3Accounts = [?p 995 True], IMAPAccounts = []\<rparr>]"
    by code_simp
  from tenants_list_ok [OF this] show ?thesis by (simp add: send_config_of_def)
qed

end
