(* ===== verification/Envelope.thy ===== *)
theory Envelope
  imports Path_Spec Tenant "HOL-Library.AList"
begin

section \<open>Addresses, envelopes and the envelope pool (mail/envelope.go)\<close>

text \<open>
  The record \<open>address\<close> is \<open>mail.Address\<close> and \<open>envelope\<close> is \<open>mail.Envelope\<close>; the
  operations take the envelope and return it updated. The queue id of \<open>queuedID\<close> (an MD5 of the
  clock and the client id) is an argument of the two operations that make one. \<open>Values\<close> is an
  association list from the keys to the kinds of value the program stores there.

  The envelope pool is two buffered channels: \<open>pool\<close> as the list of envelopes waiting in it and
  \<open>sem\<close> as the number of values in it; an operation that would block is \<open>None\<close>.
\<close>

subsection \<open>Addresses\<close>

record address =
  User :: bytes
  Host :: bytes
  AddrADL :: "bytes list"
  AddrPathParams :: "bytes list list"
  AddrNullPath :: bool
  Quoted :: bool
  AddrIP :: "ip option"
  DisplayName :: bytes
  DisplayNameQuoted :: bool

definition empty_address :: address where
  "empty_address = \<lparr>User = [], Host = [], AddrADL = [], AddrPathParams = [], AddrNullPath = False,
     Quoted = False, AddrIP = None, DisplayName = [], DisplayNameQuoted = False\<rparr>"

definition IsEmpty :: "address \<Rightarrow> bool" where
  "IsEmpty a \<longleftrightarrow> User a = [] \<and> Host a = []"

definition IsPostmaster :: "address \<Rightarrow> bool" where
  "IsPostmaster a = (if User a = ''postmaster'' then True else False)"

text \<open>The loop of \<open>Address.String\<close> over the bytes of a quoted user.\<close>

fun escape_user :: "bytes \<Rightarrow> bytes" where
  "escape_user [] = []"
| "escape_user (c # cs) =
     (if c = CHR 0x5C \<or> c = CHR 0x22 then [CHR 0x5C, c] else [c]) @ escape_user cs"

definition addr_String :: "address \<Rightarrow> bytes" where
  "addr_String a =
     (if IsEmpty a then []
      else if User a = ''postmaster'' \<and> Host a = [] then ''postmaster''
      else (let local = (if Quoted a then [CHR 0x22] @ escape_user (User a) @ [CHR 0x22] else User a)
            in if Host a \<noteq> [] then
                 (if AddrIP a \<noteq> None then local @ ''@['' @ Host a @ '']'' else local @ ''@'' @ Host a)
               else local))"

subsection \<open>Envelopes\<close>

datatype 'c value_of = VTenantSend tenantSendConfig | VString bytes | VCompressor 'c

text \<open>
  A compressor value (\<open>p_compressor.go\<close>) has the extra headers it was given and a pointer to a data
  buffer, which is nil or the buffer of its own envelope.
\<close>

type_synonym val = "(bytes \<times> bool) value_of"

type_synonym mime_header = "(bytes \<times> bytes list) list"

record envelope =
  eRemoteIP :: bytes
  eHelo :: bytes
  eMailFrom :: address
  eRcptTo :: "address list"
  eData :: bytes
  eSubject :: bytes
  eTLS :: bool
  eHeader :: "mime_header option"
  eValues :: "(bytes \<times> val) list"
  eHashes :: "bytes list"
  eDeliveryHeader :: bytes
  eQueuedId :: bytes
  eESMTP :: bool

definition NewEnvelope :: "bytes \<Rightarrow> bytes \<Rightarrow> envelope" where
  "NewEnvelope remoteAddr qid = \<lparr>eRemoteIP = remoteAddr, eHelo = [], eMailFrom = empty_address, eRcptTo = [],
     eData = [], eSubject = [], eTLS = False, eHeader = None, eValues = [], eHashes = [],
     eDeliveryHeader = [], eQueuedId = qid, eESMTP = False\<rparr>"

definition env_Len :: "envelope \<Rightarrow> nat" where
  "env_Len e = length (eDeliveryHeader e) + length (eData e)"

definition NewReader :: "envelope \<Rightarrow> bytes" where
  "NewReader e = concat [eDeliveryHeader e, eData e]"

definition env_String :: "envelope \<Rightarrow> bytes" where
  "env_String e = eDeliveryHeader e @ eData e"

definition ResetTransaction :: "envelope \<Rightarrow> envelope" where
  "ResetTransaction e = e\<lparr>eMailFrom := empty_address, eRcptTo := [], eData := [], eSubject := [],
     eHeader := None, eHashes := [], eDeliveryHeader := [], eValues := []\<rparr>"

definition Reseed :: "envelope \<Rightarrow> bytes \<Rightarrow> bytes \<Rightarrow> envelope" where
  "Reseed e remoteIP qid = e\<lparr>eRemoteIP := remoteIP, eQueuedId := qid, eHelo := [], eTLS := False,
     eESMTP := False\<rparr>"

definition PushRcpt :: "envelope \<Rightarrow> address \<Rightarrow> envelope" where
  "PushRcpt e addr = e\<lparr>eRcptTo := eRcptTo e @ [addr]\<rparr>"

definition PopRcpt :: "envelope \<Rightarrow> (address \<times> envelope) outcome" where
  "PopRcpt e =
     (if eRcptTo e = [] then Panic ''index out of range''
      else Ret (last (eRcptTo e), e\<lparr>eRcptTo := butlast (eRcptTo e)\<rparr>))"

subsection \<open>The tenant of an envelope (backends/tenant.go, backends/tenant_send.go)\<close>

definition SetEnvelopeTenantSend :: "envelope \<Rightarrow> tenantSendConfig option \<Rightarrow> envelope" where
  "SetEnvelopeTenantSend e cfg =
     (case cfg of None \<Rightarrow> e
      | Some c \<Rightarrow> e\<lparr>eValues := AList.update envelopeTenantSendKey (VTenantSend c) (eValues e)\<rparr>)"

definition GetEnvelopeTenantSend :: "envelope option \<Rightarrow> tenantSendConfig option" where
  "GetEnvelopeTenantSend e =
     (case e of None \<Rightarrow> None
      | Some e \<Rightarrow> (case map_of (eValues e) envelopeTenantSendKey of Some (VTenantSend c) \<Rightarrow> Some c | _ \<Rightarrow> None))"

subsection \<open>The envelope pool\<close>

record epool =
  ep_size :: nat
  ep_pool :: "envelope list"
  ep_sem :: nat

definition NewEnvelopePool :: "nat \<Rightarrow> epool" where
  "NewEnvelopePool poolSize = \<lparr>ep_size = poolSize, ep_pool = [], ep_sem = 0\<rparr>"

definition BorrowEnvelope :: "epool \<Rightarrow> bytes \<Rightarrow> bytes \<Rightarrow> (envelope \<times> epool) option" where
  "BorrowEnvelope p remoteAddr qid =
     (if ep_sem p \<ge> ep_size p then None
      else (let p = p\<lparr>ep_sem := ep_sem p + 1\<rparr>
            in case ep_pool p of
                 e # es \<Rightarrow> Some (Reseed e remoteAddr qid, p\<lparr>ep_pool := es\<rparr>)
               | [] \<Rightarrow> Some (NewEnvelope remoteAddr qid, p)))"

definition ReturnEnvelope :: "epool \<Rightarrow> envelope \<Rightarrow> epool option" where
  "ReturnEnvelope p e =
     (let p = (if length (ep_pool p) < ep_size p then p\<lparr>ep_pool := ep_pool p @ [e]\<rparr> else p)
      in if ep_sem p = 0 then None else Some (p\<lparr>ep_sem := ep_sem p - 1\<rparr>))"

subsection \<open>Lemmas\<close>

lemma escape_user_eq: "escape_user u = quote_escape u"
  by (induction u) auto

lemma push_pop: "PopRcpt (PushRcpt e a) = Ret (a, e)"
  by (simp add: PopRcpt_def PushRcpt_def)

lemma tenant_set_get:
  "GetEnvelopeTenantSend (Some (SetEnvelopeTenantSend e (Some c))) = Some c"
  by (simp add: GetEnvelopeTenantSend_def SetEnvelopeTenantSend_def update_conv')

lemma tenant_after_reset: "GetEnvelopeTenantSend (Some (ResetTransaction e)) = None"
  by (simp add: GetEnvelopeTenantSend_def ResetTransaction_def)

text \<open>The states of the pool, by any sequence of borrowing and returning.\<close>

inductive epool_reach :: "nat \<Rightarrow> epool \<Rightarrow> bool" for n where
  new: "epool_reach n (NewEnvelopePool n)"
| borrow: "epool_reach n p \<Longrightarrow> BorrowEnvelope p a q = Some (e, p') \<Longrightarrow> epool_reach n p'"
| return: "epool_reach n p \<Longrightarrow> ReturnEnvelope p e = Some p' \<Longrightarrow> epool_reach n p'"

lemma epool_bounds: "epool_reach n p \<Longrightarrow> ep_size p = n \<and> length (ep_pool p) \<le> n \<and> ep_sem p \<le> n"
  by (induction rule: epool_reach.induct)
    (auto simp: NewEnvelopePool_def BorrowEnvelope_def ReturnEnvelope_def Let_def
      split: if_splits list.splits)

subsection \<open>Properties\<close>

text \<open>
  Printing an address and parsing the print gives the address back. For an address with a
  domain of the grammar whose user is a dot-string, or any printable text marked as quoted,
  \<open>MailFrom\<close> on \<open>String()\<close> in angle brackets stores the same user and host.
\<close>

theorem address_print_parse:
  assumes "parser_ok p" and "isDomain (Host a)" and "AddrIP a = None" and "User a \<noteq> []"
    and "if Quoted a then list_all printable (User a) else isDotString (User a)"
  shows "\<exists>p'. MailFrom p (''<'' @ addr_String a @ ''>'') = Ret (None, p')
    \<and> LocalPart p' = User a \<and> Domain p' = Host a"
proof -
  have h: "Host a \<noteq> []" using assms(2) isDomain_first by fastforce
  show ?thesis
  proof (cases "Quoted a")
    case True
    with assms h have "addr_String a = [CHR 0x22] @ quote_escape (User a) @ [CHR 0x22] @ ''@'' @ Host a"
      by (auto simp: addr_String_def IsEmpty_def escape_user_eq)
    with MailFrom_quoted [OF assms(1,4) _ assms(2)] True assms(5) show ?thesis by auto
  next
    case False
    with assms h have "addr_String a = User a @ ''@'' @ Host a"
      by (auto simp: addr_String_def IsEmpty_def)
    with MailFrom_dot [OF assms(1) _ assms(2)] False assms(5) show ?thesis by auto
  qed
qed

theorem address_print_parse_witness:
  "\<exists>p'. MailFrom (NewParser []) (''<'' @ addr_String (empty_address\<lparr>User := ''a b'', Quoted := True, Host := ''c.d''\<rparr>) @ ''>'')
     = Ret (None, p') \<and> LocalPart p' = ''a b'' \<and> Domain p' = ''c.d''"
  using address_print_parse [OF parser_ok_New [of "[]"],
      of "empty_address\<lparr>User := ''a b'', Quoted := True, Host := ''c.d''\<rparr>"]
  by (simp add: empty_address_def printable_def isDomain_def isSubdomain_def isLDH_def isLetDig_def less_eq_char_def)

text \<open>
  Resetting the transaction forgets the message and keeps the session. No sender, recipient,
  data, header, hash, delivery header or value (the tenant included) survives, while the remote
  address, the greeting name, the TLS and ESMTP flags and the queue id are as before, and
  resetting twice is resetting once.
\<close>

theorem reset_transaction:
  "let e' = ResetTransaction e in
     IsEmpty (eMailFrom e') \<and> eRcptTo e' = [] \<and> env_Len e' = 0 \<and> NewReader e' = []
     \<and> eSubject e' = [] \<and> eHeader e' = None \<and> eHashes e' = []
     \<and> GetEnvelopeTenantSend (Some e') = None
     \<and> eRemoteIP e' = eRemoteIP e \<and> eHelo e' = eHelo e \<and> eTLS e' = eTLS e \<and> eESMTP e' = eESMTP e
     \<and> eQueuedId e' = eQueuedId e \<and> ResetTransaction e' = e'"
  using tenant_after_reset [of e]
  by (simp add: Let_def ResetTransaction_def IsEmpty_def empty_address_def env_Len_def NewReader_def)

text \<open>
  An envelope is lent under the name of its new session. Whatever sequence of calls led to
  the pool, at most its size of envelopes is lent or kept, and a borrowed envelope carries the
  remote address and queue id of the new connection, no greeting name, and neither TLS nor ESMTP.
\<close>

theorem envelope_pool:
  assumes "epool_reach n p"
  shows "ep_sem p \<le> n \<and> length (ep_pool p) \<le> n \<and>
    (BorrowEnvelope p a q = None \<longleftrightarrow> ep_sem p = n) \<and>
    (\<forall>e p'. BorrowEnvelope p a q = Some (e, p') \<longrightarrow>
       eRemoteIP e = a \<and> eQueuedId e = q \<and> eHelo e = [] \<and> \<not> eTLS e \<and> \<not> eESMTP e \<and> ep_sem p' = ep_sem p + 1)"
  using epool_bounds [OF assms]
  by (auto simp: BorrowEnvelope_def Reseed_def NewEnvelope_def Let_def split: if_splits list.splits)

theorem envelope_pool_witness:
  "BorrowEnvelope (NewEnvelopePool 2) ''10.0.0.1'' ''id'' \<noteq> None
   \<and> ep_sem (snd (the (BorrowEnvelope (NewEnvelopePool 2) ''10.0.0.1'' ''id''))) \<le> 2"
proof -
  have 1: "epool_reach 2 (NewEnvelopePool 2)" by (rule epool_reach.new)
  have "BorrowEnvelope (NewEnvelopePool 2) ''10.0.0.1'' ''id'' \<noteq> None"
    using envelope_pool [OF 1, of "''10.0.0.1''" "''id''"] by (simp add: NewEnvelopePool_def)
  then show ?thesis by (auto simp: BorrowEnvelope_def NewEnvelopePool_def Let_def)
qed

end
