(* ===== verification/Address5322.thy ===== *)
theory Address5322
  imports Envelope
begin

section \<open>The RFC 5322 address parser (mail/rfc5321/address.go) and NewAddress\<close>

text \<open>
  The parser of header addresses embeds the path parser of the theory Parser: the record
  \<open>rfc5322\<close> has it in the field \<open>aParser\<close>. Its own productions test the last byte read (\<open>ch\<close>), and
  \<open>next\<close> leaves that byte as it was at the end of the input, so a loop that waits for another byte
  class does not end there. The loops are partial functions whose value \<open>None\<close> is that the call
  never returns. The index expression of \<open>mailbox\<close> after its rewind is a value of \<open>outcome\<close>.

  The lemmas give what the loops read, the inputs on which \<open>NewAddress\<close> does not return, that the
  index expression is never out of range, and the result on the usual forms of an address.
\<close>

subsection \<open>The parser object\<close>

record singleAddress =
  sDisplayName :: bytes
  sDisplayNameQuoted :: bool
  sLocalPart :: bytes
  sLocalPartQuoted :: bool
  sDomain :: bytes
  sIP :: "ip option"
  sNullPath :: bool

definition empty_single :: singleAddress where
  "empty_single = \<lparr>sDisplayName = [], sDisplayNameQuoted = False, sLocalPart = [], sLocalPartQuoted = False,
     sDomain = [], sIP = None, sNullPath = False\<rparr>"

record rfc5322 =
  aList :: "singleAddress list"
  aGroup :: bytes
  aParser :: parser
  aAddr :: singleAddress

text \<open>The zero value of the object: the position of its parser is 0, not -1.\<close>

definition zero_rfc5322 :: rfc5322 where
  "zero_rfc5322 = \<lparr>aList = [], aGroup = [], aParser = (NewParser [])\<lparr>pos := 0\<rparr>, aAddr = empty_single\<rparr>"

definition with_parser :: "rfc5322 \<Rightarrow> parser \<Rightarrow> rfc5322" where
  "with_parser s p = s\<lparr>aParser := p\<rparr>"

abbreviation next_5322 :: "rfc5322 \<Rightarrow> rfc5322" where
  "next_5322 s \<equiv> with_parser s (snd (next_ch (aParser s)))"

abbreviation errNotAtom :: perror where "errNotAtom \<equiv> PErr ''not atom''"

abbreviation errExpectingAngleAddress :: perror where
  "errExpectingAngleAddress \<equiv> PErr ''not angle address''"

abbreviation errNotAWord :: perror where "errNotAWord \<equiv> PErr ''not a word''"

abbreviation errExpectingColon :: perror where "errExpectingColon \<equiv> PErr ''expecting : ''"

abbreviation errExpectingSemicolon :: perror where "errExpectingSemicolon \<equiv> PErr ''expecting ; ''"

abbreviation errExpectingAngleClose :: perror where "errExpectingAngleClose \<equiv> PErr ''expecting >''"

abbreviation errExpectingAngleOpen :: perror where "errExpectingAngleOpen \<equiv> PErr ''< expected''"

abbreviation errQuotedUnclosed :: perror where
  "errQuotedUnclosed \<equiv> PErr ''quoted string not closed''"

subsection \<open>Words and display names\<close>

definition is_wsp :: "char \<Rightarrow> bool" where
  "is_wsp c \<longleftrightarrow> c = CHR '' '' \<or> c = CHR 0x09"

partial_function (option) skipSpace_loop :: "nat \<Rightarrow> parser \<Rightarrow> (nat \<times> parser) option" where
  "skipSpace_loop skipped s =
     (if \<not> is_wsp (ch s) then Some (skipped, s)
      else skipSpace_loop (skipped + 1) (snd (next_ch s)))"

definition skipSpace :: "parser \<Rightarrow> (nat \<times> parser) option" where
  "skipSpace s = skipSpace_loop 0 s"

partial_function (option) atom5322_loop :: "parser \<Rightarrow> (perror option \<times> parser) option" where
  "atom5322_loop s =
     (if isAtext (ch s) then atom5322_loop (snd (next_ch (write_byte s (ch s))))
      else (case skipSpace s of None \<Rightarrow> None
            | Some (skipped, s) \<Rightarrow>
                if \<not> isAtext (ch s) then Some (None, s)
                else (let s = (if skipped > 0 then write_byte s (CHR '' '') else s)
                      in atom5322_loop (snd (next_ch (write_byte s (ch s)))))))"

definition atom5322 :: "parser \<Rightarrow> (perror option \<times> parser) option" where
  "atom5322 s =
     (case skipSpace s of None \<Rightarrow> None
      | Some (_, s) \<Rightarrow> if \<not> isAtext (ch s) then Some (Some errNotAtom, s) else atom5322_loop s)"

definition quotedString5322 :: "parser \<Rightarrow> perror option \<times> parser" where
  "quotedString5322 s =
     (if ch s = CHR 0x22 then
        (case QcontentSMTP s of
           (Some e, s) \<Rightarrow> (Some e, s)
         | (None, s) \<Rightarrow> if ch s \<noteq> CHR 0x22 then (Some errQuotedUnclosed, s) else (None, snd (next_ch s)))
      else (None, s))"

definition word5322 :: "rfc5322 \<Rightarrow> (perror option \<times> rfc5322) option" where
  "word5322 s =
     (let p = aParser s
      in if ch p = CHR 0x22 then
           (let s = s\<lparr>aAddr := (aAddr s)\<lparr>sDisplayNameQuoted := True\<rparr>\<rparr>
            in case quotedString5322 p of (err, p) \<Rightarrow> Some (err, with_parser s p))
         else if isAtext (ch p) \<or> is_wsp (ch p) then
           (case atom5322 p of None \<Rightarrow> None | Some (err, p) \<Rightarrow> Some (err, with_parser s p))
         else Some (Some errNotAWord, s))"

partial_function (option) words_loop :: "rfc5322 \<Rightarrow> rfc5322 option" where
  "words_loop s =
     (case word5322 s of None \<Rightarrow> None
      | Some (err, s) \<Rightarrow> (case err of Some e \<Rightarrow> Some s | None \<Rightarrow> words_loop s))"

text \<open>The deferred function of \<open>displayName\<close> runs on every return.\<close>

definition keep_DisplayName :: "rfc5322 \<Rightarrow> rfc5322" where
  "keep_DisplayName s =
     (let p = aParser s
      in if accept p \<noteq> []
         then s\<lparr>aAddr := (aAddr s)\<lparr>sDisplayName := accept p\<rparr>, aParser := reset_accept p\<rparr> else s)"

definition displayName :: "rfc5322 \<Rightarrow> (perror option \<times> rfc5322) option" where
  "displayName s =
     (case word5322 s of None \<Rightarrow> None
      | Some (Some e, s) \<Rightarrow> Some (Some e, keep_DisplayName s)
      | Some (None, s) \<Rightarrow>
          (case words_loop s of None \<Rightarrow> None | Some s \<Rightarrow> Some (None, keep_DisplayName s)))"

subsection \<open>Addresses\<close>

definition angleAddr :: "parser \<Rightarrow> (perror option \<times> parser) option" where
  "angleAddr s =
     (case skipSpace s of None \<Rightarrow> None
      | Some (_, s) \<Rightarrow>
          if ch s \<noteq> CHR ''<'' then Some (Some errExpectingAngleOpen, s)
          else (case mailbox s of
                  (Some e, s) \<Rightarrow> Some (Some e, s)
                | (None, s) \<Rightarrow> (case skipSpace s of None \<Rightarrow> None | Some (_, s) \<Rightarrow> Some (None, s))))"

definition addAddress :: "rfc5322 \<Rightarrow> rfc5322" where
  "addAddress s =
     (let p = aParser s;
          a = (aAddr s)\<lparr>sLocalPart := LocalPart p, sLocalPartQuoted := LocalPartQuotes p,
                 sDomain := Domain p, sIP := IP p\<rparr>
      in s\<lparr>aList := aList s @ [a], aAddr := empty_single\<rparr>)"

definition nameAddr :: "rfc5322 \<Rightarrow> (perror option \<times> rfc5322) option" where
  "nameAddr s =
     (case displayName s of None \<Rightarrow> None
      | Some (_, s) \<Rightarrow>
          if ch (aParser s) = CHR ''<'' then
            (case angleAddr (aParser s) of None \<Rightarrow> None
             | Some (Some e, p) \<Rightarrow> Some (Some e, with_parser s p)
             | Some (None, p) \<Rightarrow>
                 (let s = next_5322 (with_parser s p)
                  in if ch (aParser s) \<noteq> CHR ''>'' then Some (Some errExpectingAngleClose, s)
                     else Some (None, addAddress s)))
          else Some (Some errExpectingAngleAddress, s))"

text \<open>The rewind of \<open>mailbox\<close>: the position before the saved one, and the byte there if there is one.\<close>

definition rewind :: "int \<Rightarrow> parser \<Rightarrow> parser outcome" where
  "rewind saved p =
     (let p = p\<lparr>pos := saved - 1\<rparr>
      in if pos p > -1 then
           (if pos p < int (length (buf p)) then Ret (p\<lparr>ch := buf p ! nat (pos p)\<rparr>)
            else Panic ''index out of range'')
         else Ret p)"

definition mailbox5322 :: "rfc5322 \<Rightarrow> (perror option \<times> rfc5322) outcome option" where
  "mailbox5322 s =
     (let saved = pos (aParser s)
      in case nameAddr s of None \<Rightarrow> None
         | Some (None, s) \<Rightarrow> Some (Ret (None, s))
         | Some (Some e, s) \<Rightarrow>
             if e = errExpectingAngleAddress \<and> ch (aParser s) \<noteq> CHR '':'' then
               (let s = s\<lparr>aAddr := (aAddr s)\<lparr>sDisplayName := [], sDisplayNameQuoted := False\<rparr>\<rparr>
                in Some (bind_outcome (rewind saved (aParser s)) (\<lambda>p.
                     case mailbox p of
                       (Some e, p) \<Rightarrow> Ret (Some e, with_parser s p)
                     | (None, p) \<Rightarrow> Ret (None, addAddress (with_parser s p)))))
             else Some (Ret (Some e, s)))"

partial_function (option) groupList_loop :: "rfc5322 \<Rightarrow> (perror option \<times> rfc5322) outcome option" where
  "groupList_loop s =
     (case skipSpace (aParser s) of None \<Rightarrow> None
      | Some (_, p) \<Rightarrow>
          if ch p \<noteq> CHR '','' then Some (Ret (None, with_parser s p))
          else (case skipSpace (snd (next_ch p)) of None \<Rightarrow> None
                | Some (_, p) \<Rightarrow>
                    (case mailbox5322 (with_parser s p) of None \<Rightarrow> None
                     | Some r \<Rightarrow>
                         (case r of Panic m \<Rightarrow> Some (Panic m)
                          | Ret (err, s) \<Rightarrow>
                              (case err of Some e \<Rightarrow> Some (Ret (Some e, s))
                               | None \<Rightarrow> groupList_loop (next_5322 s))))))"

definition groupList :: "rfc5322 \<Rightarrow> (perror option \<times> rfc5322) outcome option" where
  "groupList s =
     (case mailbox5322 s of None \<Rightarrow> None
      | Some (Panic m) \<Rightarrow> Some (Panic m)
      | Some (Ret (Some e, s)) \<Rightarrow> Some (Ret (Some e, s))
      | Some (Ret (None, s)) \<Rightarrow> groupList_loop (next_5322 s))"

text \<open>What \<open>group\<close> does first: the name of the group, parsed again when the mailbox had none.\<close>

definition group_name :: "rfc5322 \<Rightarrow> (perror option \<times> rfc5322) option" where
  "group_name s =
     (if sDisplayName (aAddr s) = [] then displayName s
      else Some (None, s\<lparr>aGroup := sDisplayName (aAddr s), aAddr := (aAddr s)\<lparr>sDisplayName := []\<rparr>\<rparr>))"

definition group :: "rfc5322 \<Rightarrow> (perror option \<times> rfc5322) outcome option" where
  "group s =
     (case group_name s of None \<Rightarrow> None
      | Some (Some e, s) \<Rightarrow> Some (Ret (Some e, s))
      | Some (None, s) \<Rightarrow>
          if ch (aParser s) \<noteq> CHR '':'' then Some (Ret (Some errExpectingColon, s))
          else (case groupList (next_5322 s) of None \<Rightarrow> None
                | Some (Panic m) \<Rightarrow> Some (Panic m)
                | Some (Ret (_, s)) \<Rightarrow>
                    (case skipSpace (aParser s) of None \<Rightarrow> None
                     | Some (_, p) \<Rightarrow>
                         Some (Ret (if ch p \<noteq> CHR '';'' then Some errExpectingSemicolon else None, with_parser s p)))))"

definition Address :: "rfc5322 \<Rightarrow> bytes \<Rightarrow> (perror option \<times> rfc5322) outcome option" where
  "Address s input =
     (let s = next_5322 (with_parser s (set_input (aParser s) input));
          s = s\<lparr>aList := [], aAddr := empty_single\<rparr>
      in case mailbox5322 s of None \<Rightarrow> None
         | Some (Panic m) \<Rightarrow> Some (Panic m)
         | Some (Ret (None, s)) \<Rightarrow> Some (Ret (None, s))
         | Some (Ret (Some e, s)) \<Rightarrow>
             if ch (aParser s) = CHR '':'' then group s else Some (Ret (Some e, s)))"

subsection \<open>NewAddress (mail/envelope.go)\<close>

definition address_of :: "singleAddress \<Rightarrow> address" where
  "address_of s = \<lparr>User = sLocalPart s, Host = sDomain s, AddrADL = [], AddrPathParams = [],
     AddrNullPath = sNullPath s, Quoted = sLocalPartQuoted s, AddrIP = sIP s,
     DisplayName = sDisplayName s, DisplayNameQuoted = sDisplayNameQuoted s\<rparr>"

definition NewAddress :: "bytes \<Rightarrow> (perror + address) run" where
  "NewAddress str =
     bind_run (run_of (Address zero_rfc5322 str)) (\<lambda>(err, s).
       Done (case err of
               Some e \<Rightarrow> Inl e
             | None \<Rightarrow> (case aList s of [] \<Rightarrow> Inl (PErr ''no email address matched'')
                        | addr # _ \<Rightarrow> Inr (address_of addr))))"

subsection \<open>Reading at and before the end of the input\<close>

lemma rest_past_end [simp]: "pwf s \<Longrightarrow> rest s = [] \<Longrightarrow> rest (past_end s) = []"
  by (simp add: rest_def past_end_def pwf_def)

lemma next_at_end: "pwf s \<Longrightarrow> rest s = [] \<Longrightarrow> snd (next_ch s) = past_end s"
  by (simp add: next_ch_Nil past_end_def)

lemma next_before_end: "pwf s \<Longrightarrow> rest s = c # cs \<Longrightarrow> snd (next_ch s) = moved 1 [] s"
  by (simp add: next_ch_Cons)

text \<open>The bytes from the last byte read on; reading one more keeps a property of all of them.\<close>

abbreviation pending :: "parser \<Rightarrow> bytes" where
  "pending s \<equiv> ch s # rest s"

lemma pending_next: "pwf s \<Longrightarrow> list_all P (pending s) \<Longrightarrow> list_all P (pending (snd (next_ch s)))"
  by (cases "rest s") (auto simp: next_at_end next_before_end)

lemma pwf_next [simp]: "pwf s \<Longrightarrow> pwf (snd (next_ch s))"
  by (cases "rest s") (auto simp: next_at_end next_before_end)

lemma skipSpace_stuck:
  assumes "skipSpace_loop n s = Some r" and "pwf s"
  shows "\<not> list_all is_wsp (pending s)"
proof -
  have "pwf s \<longrightarrow> \<not> list_all is_wsp (pending s)"
  proof (rule skipSpace_loop.raw_induct [OF _ assms(1)])
    fix f n s r
    assume "\<And>n s r. f n s = Some r \<Longrightarrow> pwf s \<longrightarrow> \<not> list_all is_wsp (pending s)"
      and "(if \<not> is_wsp (ch s) then Some (n, s) else f (n + 1) (snd (next_ch s))) = Some r"
    then show "pwf s \<longrightarrow> \<not> list_all is_wsp (pending s)"
      using pending_next [of s is_wsp] pwf_next [of s] by (cases r) (auto split: if_splits)
  qed
  with assms(2) show ?thesis by blast
qed

lemma skipSpace_moved:
  "pwf s \<Longrightarrow> \<exists>c \<in> set (pending s). \<not> is_wsp c \<Longrightarrow>
   skipSpace_loop n s = Some (n + length (takeWhile is_wsp (pending s)),
     moved (length (takeWhile is_wsp (pending s))) [] s)"
proof (induction "rest s" arbitrary: n s)
  case Nil
  then show ?case by (subst skipSpace_loop.simps) auto
next
  case (Cons c cs)
  let ?t = "moved 1 [] s"
  have t: "snd (next_ch s) = ?t" "pwf ?t" "rest ?t = cs" "ch ?t = c"
    using Cons.prems Cons.hyps(2) [symmetric] by (simp_all add: next_before_end)
  show ?case
  proof (cases "is_wsp (ch s)")
    case True
    then have "\<exists>c \<in> set (pending ?t). \<not> is_wsp c" using Cons.prems t Cons.hyps(2) [symmetric] by auto
    from Cons.hyps(1) [OF t(3) [symmetric] t(2) this, of "n + 1"] True t Cons.prems Cons.hyps(2) [symmetric]
    show ?thesis by (subst skipSpace_loop.simps) auto
  next
    case False
    then show ?thesis by (subst skipSpace_loop.simps) auto
  qed
qed

lemma skipSpace_None_iff: "pwf s \<Longrightarrow> skipSpace s = None \<longleftrightarrow> list_all is_wsp (pending s)"
  using skipSpace_stuck [of 0 s] skipSpace_moved [of s 0]
  by (cases "skipSpace_loop 0 s") (auto simp: skipSpace_def list_all_iff)

lemma skipSpace_Some:
  "pwf s \<Longrightarrow> skipSpace s = Some (n, t) \<Longrightarrow>
   n = length (takeWhile is_wsp (pending s)) \<and> t = moved n [] s \<and> (\<exists>c \<in> set (pending s). \<not> is_wsp c)"
proof -
  assume p: "pwf s" and e: "skipSpace s = Some (n, t)"
  then have "\<exists>c \<in> set (pending s). \<not> is_wsp c"
    using skipSpace_stuck [of 0 s "(n, t)"] by (auto simp: skipSpace_def list_all_iff)
  with skipSpace_moved [OF p this, of 0] e show ?thesis by (auto simp: skipSpace_def)
qed

lemma skipSpace_none: "\<not> is_wsp (ch s) \<Longrightarrow> skipSpace s = Some (0, s)"
  by (simp add: skipSpace_def skipSpace_loop.simps)

text \<open>Where the skipping of space ends: the pending bytes without their leading space.\<close>

lemma pending_moved:
  "pwf s \<Longrightarrow> n < length (pending s) \<Longrightarrow> pending (moved n a s) = drop n (pending s)"
  by (cases n) (auto simp: ch_moved_if hd_drop_conv_nth Cons_nth_drop_Suc)

lemma skipSpace_pending:
  "pwf s \<Longrightarrow> skipSpace s = Some (n, t) \<Longrightarrow> pwf t \<and> pending t = dropWhile is_wsp (pending s)"
proof -
  assume p: "pwf s" and e: "skipSpace s = Some (n, t)"
  note s = skipSpace_Some [OF p e]
  then have "length (takeWhile is_wsp (pending s)) < length (pending s)"
    by (metis length_takeWhile_le linorder_neqE_nat not_le set_takeWhileD takeWhile_eq_take take_all_iff order_refl)
  from pending_moved [OF p this, of "[]"] s p show ?thesis by (metis dropWhile_eq_drop pwf_moved)
qed

subsection \<open>Atoms\<close>

definition is_phrase :: "char \<Rightarrow> bool" where
  "is_phrase c \<longleftrightarrow> isAtext c \<or> is_wsp c"

lemma wsp_not_atext: "is_wsp c \<Longrightarrow> \<not> isAtext c"
  by (auto simp: is_wsp_def isAtext_def)

lemma ch_moved_0 [simp]: "ch (moved 0 a s) = ch s"
  by (simp add: moved_def)

lemma atom5322_stuck:
  assumes "atom5322_loop s = Some r" and "pwf s"
  shows "\<not> list_all is_phrase (pending s)"
proof -
  have "pwf s \<longrightarrow> \<not> list_all is_phrase (pending s)"
  proof (rule atom5322_loop.raw_induct [OF _ assms(1)])
    fix f s r
    assume ih: "\<And>s r. f s = Some r \<Longrightarrow> pwf s \<longrightarrow> \<not> list_all is_phrase (pending s)"
      and b: "(if isAtext (ch s) then f (snd (next_ch (write_byte s (ch s))))
          else (case skipSpace s of None \<Rightarrow> None
            | Some (skipped, s) \<Rightarrow>
                if \<not> isAtext (ch s) then Some (None, s)
                else (let s = (if skipped > 0 then write_byte s (CHR '' '') else s)
                      in f (snd (next_ch (write_byte s (ch s))))))) = Some r"
    have step: "\<not> list_all is_phrase (pending t)" if "f (snd (next_ch (moved 0 a t))) = Some r" "pwf t" for t a
      using ih [OF that(1)] that(2) pending_next [of "moved 0 a t" is_phrase] by auto
    show "pwf s \<longrightarrow> \<not> list_all is_phrase (pending s)"
    proof (intro impI notI)
      assume p: "pwf s" and all: "list_all is_phrase (pending s)"
      show False
      proof (cases "isAtext (ch s)")
        case True
        then show ?thesis using b step [of "[ch s]" s] p all by simp
      next
        case False
        then obtain n t where t: "skipSpace s = Some (n, t)" using b by (auto split: option.splits)
        from skipSpace_pending [OF p t] all have pt: "pwf t" "list_all is_phrase (pending t)"
          by (metis, metis list_all_iff set_dropWhileD)
        moreover have "\<not> is_wsp (ch t)"
          using skipSpace_pending [OF p t] by (metis hd_dropWhile list.sel(1) list.simps(3))
        ultimately have "isAtext (ch t)" by (simp add: is_phrase_def)
        then show ?thesis
          using b False t pt step [of "[CHR '' '', ch t]" t] step [of "[ch t]" t]
          by (auto simp: Let_def split: if_splits)
      qed
    qed
  qed
  with assms(2) show ?thesis by blast
qed

lemma atom_step: "isAtext (ch s) \<Longrightarrow> atom5322_loop s = atom5322_loop (snd (next_ch (moved 0 [ch s] s)))"
  by (subst atom5322_loop.simps) simp

lemma atom_skip:
  "\<not> isAtext (ch s) \<Longrightarrow> skipSpace s = Some (n, t) \<Longrightarrow> isAtext (ch t) \<Longrightarrow> pwf t \<Longrightarrow>
   atom5322_loop s = atom5322_loop (moved 0 (if n > 0 then '' '' else []) t)"
  by (subst atom5322_loop.simps) (simp add: atom_step Let_def)

lemma atom_stop:
  "\<not> isAtext (ch s) \<Longrightarrow> skipSpace s = Some (n, t) \<Longrightarrow> \<not> isAtext (ch t) \<Longrightarrow> atom5322_loop s = Some (None, t)"
  by (subst atom5322_loop.simps) simp

lemma next_pending:
  "pwf s \<Longrightarrow> pending s = c # d # cs \<Longrightarrow> snd (next_ch (moved 0 a s)) = moved 1 a s"
  by (cases "rest s") (simp_all add: next_before_end)

lemma dropWhile_mono: "(\<And>c. P c \<Longrightarrow> Q c) \<Longrightarrow> dropWhile Q (dropWhile P xs) = dropWhile Q xs"
  by (induction xs) auto

text \<open>The loop ends at the first byte that no phrase has, if there is one.\<close>

definition atom_ends :: "parser \<Rightarrow> bool" where
  "atom_ends s \<longleftrightarrow> (\<exists>n a. atom5322_loop s = Some (None, moved n a s)
     \<and> pending (moved n a s) = dropWhile is_phrase (pending s))"

lemma atom_ends_moved:
  assumes "pwf s" and "atom5322_loop s = atom5322_loop (moved m b s)" and "atom_ends (moved m b s)"
    and "dropWhile is_phrase (pending (moved m b s)) = dropWhile is_phrase (pending s)"
  shows "atom_ends s"
proof -
  obtain n a where na: "atom5322_loop (moved m b s) = Some (None, moved (m + n) (b @ a) s)"
      "pending (moved (m + n) (b @ a) s) = dropWhile is_phrase (pending (moved m b s))"
    using assms(1,3) by (auto simp: atom_ends_def)
  with assms(2,4) show ?thesis unfolding atom_ends_def by metis
qed

lemma atom_ends_atext:
  assumes "pwf s" and "isAtext (ch s)" and "\<exists>c \<in> set (pending s). \<not> is_phrase c"
    and "\<And>a. rest s \<noteq> [] \<Longrightarrow> atom_ends (moved 1 a s)"
  shows "atom_ends s"
proof -
  obtain d cs where r: "rest s = d # cs" using assms(2,3) by (cases "rest s") (auto simp: is_phrase_def)
  then have "atom5322_loop s = atom5322_loop (moved 1 [ch s] s)"
    using assms(1,2) by (simp add: atom_step next_pending)
  then show ?thesis
    by (rule atom_ends_moved [OF assms(1)]) (use assms r in \<open>auto simp: is_phrase_def\<close>)
qed

lemma atom5322_ends:
  "pwf s \<Longrightarrow> \<exists>c \<in> set (pending s). \<not> is_phrase c \<Longrightarrow> atom_ends s"
proof (induction "length (rest s)" arbitrary: s rule: less_induct)
  case less
  have atext: "atom_ends t"
    if "isAtext (ch t)" "pwf t" "\<exists>c \<in> set (pending t). \<not> is_phrase c" "length (rest t) \<le> length (rest s)" for t
  proof (rule atom_ends_atext [OF that(2,1,3)])
    fix a assume "rest t \<noteq> []"
    with that show "atom_ends (moved 1 a t)"
      by (intro less.hyps) (auto simp: is_phrase_def neq_Nil_conv)
  qed
  show ?case
  proof (cases "isAtext (ch s)")
    case False
    obtain n t where t: "skipSpace s = Some (n, t)"
      using less.prems skipSpace_None_iff [of s] by (cases "skipSpace s") (auto simp: list_all_iff is_phrase_def)
    note sp = skipSpace_pending [OF less.prems(1) t] and mv = skipSpace_Some [OF less.prems(1) t]
    have nw: "\<not> is_wsp (ch t)" using sp by (metis hd_dropWhile list.sel(1) list.simps(3))
    have dw: "dropWhile is_phrase (pending t) = dropWhile is_phrase (pending s)"
      using sp by (metis dropWhile_mono is_phrase_def)
    show ?thesis
    proof (cases "isAtext (ch t)")
      case True
      let ?b = "if n > 0 then '' '' else []"
      have "atom5322_loop s = atom5322_loop (moved n ?b s)"
        using atom_skip [OF False t True] sp mv less.prems(1) by simp
      moreover have "atom_ends (moved n ?b s)"
      proof (rule atext)
        have pm: "pending (moved n ?b s) = pending t" using mv less.prems(1) by (simp add: ch_moved_if)
        show "\<exists>c \<in> set (pending (moved n ?b s)). \<not> is_phrase c"
          unfolding pm using dw less.prems(2) by (metis dropWhile_eq_Nil_conv)
      qed (use True mv less.prems in \<open>auto simp: ch_moved_if\<close>)
      ultimately show ?thesis
        by (rule atom_ends_moved [OF less.prems(1)]) (use dw mv less.prems in \<open>simp add: ch_moved_if\<close>)
    next
      case no: False
      then have "dropWhile is_phrase (pending s) = pending t"
        using dw nw by (simp add: is_phrase_def)
      then show ?thesis
        using atom_stop [OF False t no] mv by (metis atom_ends_def)
    qed
  qed (use atext less.prems in blast)
qed

subsection \<open>Display names without quotes\<close>

lemma pwf_with_parser [simp]: "aParser (with_parser s p) = p" "with_parser (with_parser s p) q = with_parser s q"
  "with_parser s (aParser s) = s"
  by (simp_all add: with_parser_def)

lemma atom5322_diverges:
  assumes "pwf p" and "list_all is_phrase (pending p)"
  shows "atom5322 p = None"
proof (cases "skipSpace p")
  case (Some nt)
  obtain n t where nt: "nt = (n, t)" by fastforce
  note sp = skipSpace_pending [OF assms(1) Some [unfolded nt]]
  have all: "list_all is_phrase (pending t)" using sp assms(2) by (metis list_all_iff set_dropWhileD)
  then have "atom5322_loop t = None" using sp atom5322_stuck [of t] by (metis not_Some_eq)
  moreover have "\<not> is_wsp (ch t)" using sp by (metis hd_dropWhile list.sel(1) list.simps(3))
  then have "isAtext (ch t)" using all by (simp add: is_phrase_def)
  ultimately show ?thesis using Some nt by (simp add: atom5322_def)
qed (simp add: atom5322_def)

lemma atom5322_ret:
  assumes "pwf p" and "\<exists>c \<in> set (pending p). \<not> is_phrase c"
  shows "\<exists>e n a. atom5322 p = Some (e, moved n a p) \<and> pending (moved n a p) = dropWhile is_phrase (pending p)"
proof -
  obtain n t where t: "skipSpace p = Some (n, t)"
    using assms skipSpace_None_iff [of p] by (cases "skipSpace p") (auto simp: list_all_iff is_phrase_def)
  note sp = skipSpace_pending [OF assms(1) t] and mv = skipSpace_Some [OF assms(1) t]
  have nw: "\<not> is_wsp (ch t)" using sp by (metis hd_dropWhile list.sel(1) list.simps(3))
  have dw: "dropWhile is_phrase (pending t) = dropWhile is_phrase (pending p)"
    using sp by (metis dropWhile_mono is_phrase_def)
  show ?thesis
  proof (cases "isAtext (ch t)")
    case True
    have "\<exists>c \<in> set (pending t). \<not> is_phrase c" using dw assms(2) by (metis dropWhile_eq_Nil_conv)
    then obtain m a where "atom5322_loop t = Some (None, moved m a t)"
        "pending (moved m a t) = dropWhile is_phrase (pending t)"
      using atom5322_ends [of t] sp by (auto simp: atom_ends_def)
    moreover have "moved m a t = moved (n + m) a p" using mv assms(1) by simp
    moreover have "atom5322 p = atom5322_loop t" using True t by (simp add: atom5322_def)
    ultimately show ?thesis using dw by metis
  next
    case False
    then have "dropWhile is_phrase (pending p) = pending t" using dw nw by (simp add: is_phrase_def)
    moreover have "atom5322 p = Some (Some errNotAtom, t)" using False t by (simp add: atom5322_def)
    ultimately show ?thesis using mv by metis
  qed
qed

lemma word5322_other: "\<not> is_phrase (ch (aParser s)) \<Longrightarrow> ch (aParser s) \<noteq> CHR 0x22 \<Longrightarrow> word5322 s = Some (Some errNotAWord, s)"
  by (simp add: word5322_def is_phrase_def Let_def)

lemma word5322_phrase:
  "is_phrase (ch (aParser s)) \<Longrightarrow>
   word5322 s = (case atom5322 (aParser s) of None \<Rightarrow> None | Some (err, p) \<Rightarrow> Some (err, with_parser s p))"
  by (auto simp: word5322_def is_phrase_def is_wsp_def Let_def)

lemma displayName_diverges:
  "pwf (aParser s) \<Longrightarrow> list_all is_phrase (pending (aParser s)) \<Longrightarrow> displayName s = None"
  by (simp add: displayName_def word5322_phrase atom5322_diverges)

lemma displayName_returns:
  assumes "pwf (aParser s)" and "\<exists>c \<in> set (pending (aParser s)). \<not> is_phrase c"
    and "CHR 0x22 \<notin> set (pending (aParser s))"
  shows "\<exists>e n a. displayName s = Some (e, keep_DisplayName (with_parser s (moved n a (aParser s))))
    \<and> pending (moved n a (aParser s)) = dropWhile is_phrase (pending (aParser s))"
proof (cases "is_phrase (ch (aParser s))")
  case True
  obtain e n a where a: "atom5322 (aParser s) = Some (e, moved n a (aParser s))"
      "pending (moved n a (aParser s)) = dropWhile is_phrase (pending (aParser s))"
    using atom5322_ret [OF assms(1,2)] by blast
  let ?t = "with_parser s (moved n a (aParser s))"
  have "\<not> is_phrase (ch (aParser ?t))" using a(2) by (metis hd_dropWhile list.sel(1) list.simps(3) pwf_with_parser(1))
  moreover have "ch (aParser ?t) \<noteq> CHR 0x22"
    using a(2) assms(3) by (metis list.set_intros(1) pwf_with_parser(1) set_dropWhileD)
  ultimately have "words_loop ?t = Some ?t" by (subst words_loop.simps) (simp add: word5322_other)
  with a True show ?thesis by (cases e) (auto simp: displayName_def word5322_phrase)
next
  case False
  moreover from assms(3) have "ch (aParser s) \<noteq> CHR 0x22" by auto
  ultimately have "displayName s = Some (Some errNotAWord, keep_DisplayName s)"
    by (simp add: displayName_def word5322_other)
  moreover have "dropWhile is_phrase (pending (aParser s)) = pending (aParser s)" using False by simp
  ultimately show ?thesis using moved_0 [of "aParser s"] pwf_with_parser(3) [of s] by metis
qed

subsection \<open>What the productions may do to the object\<close>

text \<open>
  A relation that allows reading, accepting and the setting of the address holds across the
  productions of this parser too, on every call that returns.
\<close>

locale scanning_mailbox = scanning_literal +
  assumes R_LocalPart: "R s (s\<lparr>LocalPart := l\<rparr>)"
    and R_Domain: "R s (s\<lparr>Domain := d\<rparr>)"
begin

lemma R_keep_LocalPart: "R s (keep_LocalPart s)"
  using R_trans [OF R_LocalPart R_reset] R_refl by (simp add: keep_LocalPart_def)

lemma R_keep_Domain: "R s (keep_Domain s)"
  using R_trans [OF R_Domain R_reset] R_refl by (simp add: keep_Domain_def)

lemma R_localPart: "localPart s = (e, s') \<Longrightarrow> R s s'"
  by (auto simp: localPart_def split: prod.splits if_splits dest!: R_quotedString R_dotString
      intro: R_trans [OF _ R_keep_LocalPart])

lemma R_mailbox: "mailbox s = (e, s') \<Longrightarrow> R s s'"
proof -
  assume h: "mailbox s = (e, s')"
  obtain e1 t where t: "localPart s = (e1, t)" by fastforce
  have 1: "R s t" by (rule R_localPart [OF t])
  with h t show ?thesis
    by (auto simp: mailbox_def split: prod.splits option.splits if_splits
        dest!: R_addressLiteral R_domain intro: R_trans [OF _ R_keep_Domain] R_trans [OF 1] 1)
qed

lemma R_skipSpace: "skipSpace s = Some (n, t) \<Longrightarrow> R s t"
proof -
  have "R s (snd r)" if "skipSpace_loop n s = Some r" for n s r
  proof (rule skipSpace_loop.raw_induct [OF _ that])
    fix f n s r
    assume "\<And>n s r. f n s = Some r \<Longrightarrow> R s (snd r)"
      and "(if \<not> is_wsp (ch s) then Some (n, s) else f (n + 1) (snd (next_ch s))) = Some r"
    then show "R s (snd r)" using R_refl R_trans [OF R_snd_next] by (auto split: if_splits)
  qed
  then show "skipSpace s = Some (n, t) \<Longrightarrow> R s t" by (fastforce simp: skipSpace_def)
qed

lemma R_read_atext: "R s (snd (next_ch (write_byte s c)))"
  by (rule R_trans [OF R_write_any [OF R_refl] R_snd_next])

lemma R_atom5322_loop: "atom5322_loop s = Some r \<Longrightarrow> R s (snd r)"
proof (rule atom5322_loop.raw_induct [where P = "\<lambda>s r. R s (snd r)"])
  fix f s r
  assume ih: "\<And>s r. f s = Some r \<Longrightarrow> R s (snd r)"
    and b: "(if isAtext (ch s) then f (snd (next_ch (write_byte s (ch s))))
        else (case skipSpace s of None \<Rightarrow> None
          | Some (skipped, s) \<Rightarrow>
              if \<not> isAtext (ch s) then Some (None, s)
              else (let s = (if skipped > 0 then write_byte s (CHR '' '') else s)
                    in f (snd (next_ch (write_byte s (ch s))))))) = Some r"
  have step: "R s (snd r)" if "R s t" "f (snd (next_ch (write_byte t c))) = Some r" for t c
    using R_trans [OF that(1) R_trans [OF R_read_atext ih [OF that(2)]]] .
  show "R s (snd r)"
  proof (cases "isAtext (ch s)")
    case True
    with b step [OF R_refl] show ?thesis by simp
  next
    case False
    with b obtain n t where t: "skipSpace s = Some (n, t)" by (auto split: option.splits)
    note 1 = R_skipSpace [OF t]
    from b False t 1 step [OF 1] step [OF R_write_any [OF 1, of "CHR '' ''"]] show ?thesis
      by (auto simp: Let_def split: if_splits)
  qed
qed

lemma R_atom5322: "atom5322 s = Some (e, t) \<Longrightarrow> R s t"
  using R_trans [OF R_skipSpace R_atom5322_loop]
  by (fastforce simp: atom5322_def split: option.splits if_splits dest: R_skipSpace)

lemma R_quotedString5322: "quotedString5322 s = (e, t) \<Longrightarrow> R s t"
  by (auto simp: quotedString5322_def QcontentSMTP_def split: prod.splits option.splits if_splits
      dest!: R_QcontentSMTP_loop intro: R_refl R_trans [OF _ R_snd_next])

lemma R_word5322: "word5322 s = Some (e, t) \<Longrightarrow> R (aParser s) (aParser t)"
  by (auto simp: word5322_def Let_def split: prod.splits option.splits if_splits
      dest!: R_quotedString5322 R_atom5322 intro: R_refl)

lemma R_words_loop: "words_loop s = Some t \<Longrightarrow> R (aParser s) (aParser t)"
proof (rule words_loop.raw_induct [where P = "\<lambda>s t. R (aParser s) (aParser t)"])
  fix f s t
  assume "\<And>s t. f s = Some t \<Longrightarrow> R (aParser s) (aParser t)"
    and "(case word5322 s of None \<Rightarrow> None
      | Some (err, s) \<Rightarrow> (case err of Some e \<Rightarrow> Some s | None \<Rightarrow> f s)) = Some t"
  then show "R (aParser s) (aParser t)"
    using R_trans by (fastforce split: option.splits dest!: R_word5322)
qed

lemma R_keep_DisplayName: "R (aParser s) (aParser (keep_DisplayName s))"
  using R_reset R_refl by (simp add: keep_DisplayName_def Let_def)

lemma R_displayName: "displayName s = Some (e, t) \<Longrightarrow> R (aParser s) (aParser t)"
  by (auto simp: displayName_def split: prod.splits option.splits dest!: R_word5322 R_words_loop
      intro: R_trans [OF _ R_keep_DisplayName] R_trans)

lemma R_angleAddr: "angleAddr s = Some (e, t) \<Longrightarrow> R s t"
  by (auto simp: angleAddr_def split: prod.splits option.splits if_splits dest!: R_skipSpace R_mailbox
      intro: R_trans [OF R_trans] R_trans)

lemma R_nameAddr: "nameAddr s = Some (e, t) \<Longrightarrow> R (aParser s) (aParser t)"
  by (auto simp: nameAddr_def addAddress_def Let_def split: prod.splits option.splits if_splits
      dest!: R_displayName R_angleAddr intro: R_trans [OF R_trans [OF _ _] R_snd_next] R_trans)

end

text \<open>
  The byte last read is the one read before or a byte of the buffer (\<open>reads\<close>), and it is the byte
  at the position while the position is in the buffer (\<open>tracks\<close>).
\<close>

definition reads :: "parser \<Rightarrow> parser \<Rightarrow> bool" where
  "reads s t \<longleftrightarrow> buf t = buf s \<and> (pwf s \<longrightarrow> pwf t \<and> (ch t = ch s \<or> ch t \<in> set (buf s)))"

lemma next_reads: "next_ch s = (c, t) \<Longrightarrow> reads s t"
  by (auto simp: next_ch_def reads_def pwf_def Let_def split: if_splits)

interpretation reads: scanning_mailbox reads
  by unfold_locales
    (auto dest: next_reads,
      auto simp: reads_def pwf_def write_byte_def reset_accept_def mark_quotes_def moved_def)

lemma fwd_fields: "fwd s (s\<lparr>LocalPart := l\<rparr>)" "fwd s (s\<lparr>Domain := l\<rparr>)"
  by (simp_all add: fwd_def)

interpretation forward: scanning_mailbox fwd
  by unfold_locales (auto simp: fwd_fields)

subsection \<open>The end of an address\<close>

lemma addressLiteral_ch:
  "addressLiteral s = (None, t) \<Longrightarrow> pwf s \<Longrightarrow> peek s = CHR ''['' \<Longrightarrow> ch t = CHR '']''"
proof -
  assume h: "addressLiteral s = (None, t)" "pwf s" "peek s = CHR ''[''"
  then obtain cs where "rest s = CHR ''['' # cs" by (auto simp: peek_rest split: list.splits)
  then have "next_ch s = (CHR ''['', moved 1 [] s)" using h by (intro next_ch_Cons) auto
  with h(1) show ?thesis by (auto simp: addressLiteral_def Let_def split: prod.splits option.splits if_splits)
qed

lemma isDomain_last: "isDomain d \<Longrightarrow> isLetDig (last d)"
proof (induction "length d" arbitrary: d rule: less_induct)
  case less
  show ?case
  proof (cases d rule: label_cases)
    case single
    then show ?thesis using less.prems by (simp add: isDomain_single isSubdomain_def)
  next
    case (more w d')
    then have "isDomain d'" using less.prems by (simp add: isDomain_Cons)
    moreover from this isDomain_first have "d' \<noteq> []" by blast
    ultimately show ?thesis using less.hyps [of d'] more by simp
  qed
qed

lemma ch_keep_Domain [simp]: "ch (keep_Domain s) = ch s"
  by (simp add: keep_Domain_def reset_accept_def)

lemma pwf_keep_LocalPart [simp]: "pwf (keep_LocalPart s) = pwf s"
  by (simp add: keep_LocalPart_def reset_accept_def pwf_def)

lemma mailbox_ch:
  assumes "mailbox s = (None, t)" and "pwf s"
  shows "isLetDig (ch t) \<or> ch t = CHR '']''"
proof -
  obtain u where u: "localPart s = (None, u)" "ch u = CHR ''@''"
    using assms(1) by (auto simp: mailbox_def split: prod.splits option.splits if_splits)
  have p: "pwf u" using reads.R_localPart [OF u(1)] assms(2) by (simp add: reads_def)
  show ?thesis
  proof (cases "peek u = CHR ''[''")
    case True
    with assms u obtain v where "addressLiteral u = (None, v)" "t = keep_Domain v"
      by (auto simp: mailbox_def split: prod.splits)
    with True p show ?thesis using addressLiteral_ch by auto
  next
    case False
    with assms u obtain v where v: "domain u = (None, v)" "t = keep_Domain v"
      by (auto simp: mailbox_def split: prod.splits)
    obtain d r where d: "rest u = d @ r" "isDomain d" "v = moved (length d) d u"
      using domain_sound [OF p v(1)] by blast
    then have "d \<noteq> []" using isDomain_first by blast
    then obtain d0 x where "d = d0 @ [x]" by (metis rev_exhaust)
    then have "ch v = last d" using d by simp
    then show ?thesis using isDomain_last [OF d(2)] v by simp
  qed
qed

lemma mailbox_ch_not:
  assumes "mailbox s = (None, t)" and "pwf s"
  shows "\<not> is_wsp (ch t) \<and> ch t \<noteq> CHR '','' \<and> ch t \<noteq> CHR '':''"
  using mailbox_ch [OF assms] by (auto simp: is_wsp_def isLetDig_def)

lemma angleAddr_returns: "pwf s \<Longrightarrow> ch s = CHR ''<'' \<Longrightarrow> angleAddr s \<noteq> None"
proof -
  assume s: "pwf s" "ch s = CHR ''<''"
  then have "skipSpace s = Some (0, s)" by (intro skipSpace_none) (simp add: is_wsp_def)
  with s show ?thesis
    using mailbox_ch_not [of s] skipSpace_none
    by (cases "mailbox s") (auto simp: angleAddr_def split: option.splits)
qed

subsection \<open>The inputs on which NewAddress does not return\<close>

lemma set_input_zero: "set_input ((NewParser [])\<lparr>pos := 0\<rparr>) str = NewParser str"
  by (simp add: set_input_def Reset_def NewParser_def Let_def)

definition start :: "bytes \<Rightarrow> rfc5322" where
  "start str = \<lparr>aList = [], aGroup = [], aParser = snd (next_ch (NewParser str)), aAddr = empty_single\<rparr>"

lemma Address_start:
  "Address zero_rfc5322 str =
     (case mailbox5322 (start str) of None \<Rightarrow> None
      | Some (Panic m) \<Rightarrow> Some (Panic m)
      | Some (Ret (None, s)) \<Rightarrow> Some (Ret (None, s))
      | Some (Ret (Some e, s)) \<Rightarrow>
          if ch (aParser s) = CHR '':'' then group s else Some (Ret (Some e, s)))"
  by (simp add: Address_def zero_rfc5322_def with_parser_def set_input_zero start_def)

lemma start_parser:
  "pwf (aParser (start str))" "pending (aParser (start str)) = (if str = [] then [NUL] else str)"
  "buf (aParser (start str)) = str" "pos (aParser (start str)) = 0"
  by (cases str; simp add: start_def next_ch_def NewParser_def pwf_def rest_def)+

lemma keep_DisplayName_parser [simp]:
  "ch (aParser (keep_DisplayName s)) = ch (aParser s)" "rest (aParser (keep_DisplayName s)) = rest (aParser s)"
  "pwf (aParser (keep_DisplayName s)) = pwf (aParser s)"
  by (simp_all add: keep_DisplayName_def reset_accept_def Let_def rest_def pwf_def)

lemma nameAddr_returns:
  assumes "pwf (aParser s)" and "\<exists>c \<in> set (pending (aParser s)). \<not> is_phrase c"
    and "CHR 0x22 \<notin> set (pending (aParser s))"
  shows "nameAddr s \<noteq> None"
proof -
  obtain e t where t: "displayName s = Some (e, t)" "pwf (aParser t)"
    using displayName_returns [OF assms] assms(1) by fastforce
  show ?thesis
  proof (cases "ch (aParser t) = CHR ''<''")
    case True
    then obtain e2 p where "angleAddr (aParser t) = Some (e2, p)" using angleAddr_returns [OF t(2)] by auto
    with True t show ?thesis by (cases e2) (auto simp: nameAddr_def Let_def)
  qed (simp add: nameAddr_def t)
qed

lemma mailbox5322_at_start:
  assumes "nameAddr (start str) = Some (e, t)"
  shows "\<exists>e' s. mailbox5322 (start str) = Some (Ret (e', s)) \<and> ch (aParser s) \<in> insert NUL (set str)"
proof -
  have start_ch: "ch (aParser (start str)) \<in> insert NUL (set str)" "buf (aParser (start str)) = str"
    using start_parser(2,3) [of str] by (auto split: if_splits) (metis list.set_intros(1))
  have t: "ch (aParser t) \<in> insert NUL (set str)" "buf (aParser t) = str"
    using reads.R_nameAddr [OF assms] start_parser(1) start_ch by (auto simp: reads_def)
  obtain e2 p where p: "mailbox ((aParser t)\<lparr>pos := -1\<rparr>) = (e2, p)" by fastforce
  have "ch p \<in> insert NUL (set str)"
    using reads.R_mailbox [OF p] t by (auto simp: reads_def pwf_def)
  with assms t p start_parser(4) [of str] show ?thesis
    by (cases e; cases e2) (auto simp: mailbox5322_def rewind_def addAddress_def Let_def)
qed

lemma NewAddress_blocks_iff:
  assumes "CHR 0x22 \<notin> set str" and "CHR '':'' \<notin> set str"
  shows "NewAddress str = Blocks \<longleftrightarrow> str \<noteq> [] \<and> list_all is_phrase str"
proof (cases "str \<noteq> [] \<and> list_all is_phrase str")
  case True
  then have "list_all is_phrase (pending (aParser (start str)))" unfolding start_parser(2) by simp
  then have "displayName (start str) = None" by (rule displayName_diverges [OF start_parser(1)])
  then have "mailbox5322 (start str) = None" by (simp add: mailbox5322_def nameAddr_def)
  with True show ?thesis by (simp add: NewAddress_def Address_start)
next
  case False
  then have "\<exists>c \<in> set (pending (aParser (start str))). \<not> is_phrase c"
    unfolding start_parser(2) by (auto simp: list_all_iff is_phrase_def is_wsp_def)
  moreover have "CHR 0x22 \<notin> set (pending (aParser (start str)))"
    unfolding start_parser(2) using assms(1) by simp
  ultimately obtain e t where "nameAddr (start str) = Some (e, t)"
    using nameAddr_returns [OF start_parser(1)] by fastforce
  then obtain e' s where m: "mailbox5322 (start str) = Some (Ret (e', s))" "ch (aParser s) \<in> insert NUL (set str)"
    using mailbox5322_at_start by blast
  with assms(2) have "ch (aParser s) \<noteq> CHR '':''" by auto
  with m have "Address zero_rfc5322 str = Some (Ret (e', s))" by (cases e') (simp_all add: Address_start)
  with False show ?thesis by (auto simp: NewAddress_def)
qed

text \<open>
  C29: A text without a double quote and without a colon makes \<open>NewAddress\<close> run for ever exactly
  when it is not empty and all its bytes are atom bytes, spaces and tabs, as in \<open>joe\<close>: the loops of
  \<open>atom\<close> and \<open>skipSpace\<close> test the last byte read, which stays the same at the end of the text.
\<close>

theorem NewAddress_returns:
  assumes "CHR 0x22 \<notin> set str" and "CHR '':'' \<notin> set str"
  shows "NewAddress str = Blocks \<longleftrightarrow> str \<noteq> [] \<and> list_all is_phrase str"
  using assms by (rule NewAddress_blocks_iff)

theorem NewAddress_returns_witness:
  "NewAddress ''joe'' = Blocks \<and> NewAddress ''joe@example.com'' \<noteq> Blocks"
  using NewAddress_returns [of "''joe''"] NewAddress_returns [of "''joe@example.com''"]
  by (simp add: is_phrase_def is_wsp_def isAtext_def less_eq_char_def)

subsection \<open>No index out of range\<close>

text \<open>
  A production of a group may start past the end of the text only behind a colon, and then it
  returns before the rewind.
\<close>

definition may_parse :: "parser \<Rightarrow> bool" where
  "may_parse p \<longleftrightarrow> 0 \<le> pos p \<and> (pos p \<le> int (length (buf p)) \<or> ch p = CHR '':'')"

lemma displayName_colon:
  "ch (aParser s) = CHR '':'' \<Longrightarrow> displayName s = Some (Some errNotAWord, keep_DisplayName s)"
  by (simp add: displayName_def word5322_other is_phrase_def isAtext_def is_wsp_def)

lemma nameAddr_colon:
  "ch (aParser s) = CHR '':'' \<Longrightarrow> nameAddr s = Some (Some errExpectingAngleAddress, keep_DisplayName s)"
  by (simp add: nameAddr_def displayName_colon)

lemma rewind_ok: "0 \<le> n \<Longrightarrow> n \<le> int (length (buf p)) \<Longrightarrow> \<exists>q. rewind n p = Ret q \<and> fwd (p\<lparr>pos := n - 1\<rparr>) q"
  by (auto simp: rewind_def fwd_def Let_def)

lemma mailbox5322_no_panic:
  assumes "may_parse (aParser s)"
  shows "mailbox5322 s \<noteq> Some (Panic m)"
proof (cases "ch (aParser s) = CHR '':''")
  case True
  then show ?thesis by (simp add: mailbox5322_def nameAddr_colon)
next
  case False
  show ?thesis
  proof (cases "nameAddr s")
    case (Some et)
    obtain e t where et: "et = (e, t)" by fastforce
    let ?t = "t\<lparr>aAddr := (aAddr t)\<lparr>sDisplayName := [], sDisplayNameQuoted := False\<rparr>\<rparr>"
    have "buf (aParser t) = buf (aParser s)" using forward.R_nameAddr [of s e t] Some et by (simp add: fwd_def)
    then obtain q where "rewind (pos (aParser s)) (aParser ?t) = Ret q"
      using rewind_ok [of "pos (aParser s)" "aParser ?t"] assms False by (auto simp: may_parse_def)
    with Some et show ?thesis
      by (cases e) (auto simp: mailbox5322_def Let_def split: prod.splits option.splits)
  qed (simp add: mailbox5322_def)
qed

lemma aParser_addAddress [simp]: "aParser (addAddress s) = aParser s"
  by (simp add: addAddress_def Let_def)

lemma mailbox5322_ok:
  assumes "mailbox5322 s = Some (Ret (None, t))" and "may_parse (aParser s)"
  shows "ch (aParser t) \<noteq> CHR '','' \<and> 0 \<le> pos (aParser t) + 1 \<and> buf (aParser t) = buf (aParser s)"
proof -
  obtain e u where u: "nameAddr s = Some (e, u)"
    using assms(1) by (auto simp: mailbox5322_def Let_def split: option.splits)
  have f: "fwd (aParser s) (aParser u)" using forward.R_nameAddr [OF u] .
  show ?thesis
  proof (cases e)
    case None
    then have "ch (aParser u) = CHR ''>''"
      using u by (auto simp: nameAddr_def addAddress_def Let_def split: option.splits if_splits)
    moreover have "t = u" using assms(1) u None by (simp add: mailbox5322_def)
    ultimately show ?thesis using f assms(2) by (auto simp: fwd_def may_parse_def)
  next
    case (Some x)
    with assms(1) u obtain q where q1: "rewind (pos (aParser s)) (aParser u) = Ret q"
      by (auto simp: mailbox5322_def Let_def bind_outcome_Ret_iff split: if_splits)
    obtain e2 p where m: "mailbox q = (e2, p)" by fastforce
    with q1 assms(1) u Some have q: "rewind (pos (aParser s)) (aParser u) = Ret q" "mailbox q = (None, p)" "aParser t = p"
      by (cases e2; auto simp: mailbox5322_def Let_def split: if_splits)+
    from q(1) assms(2) have "pwf q" "buf q = buf (aParser u)"
      by (auto simp: rewind_def pwf_def may_parse_def Let_def split: if_splits)
    with mailbox_ch_not [OF q(2)] forward.R_mailbox [OF q(2)] q(3) f show ?thesis
      by (auto simp: fwd_def pwf_def)
  qed
qed

lemma rest_length: "pwf p \<Longrightarrow> rest p \<noteq> [] \<Longrightarrow> pos p + int (length (rest p)) = int (length (buf p)) - 1"
  by (auto simp: rest_def pwf_def)

lemma skipSpace_pos:
  assumes "skipSpace p = Some (n, q)" and "pwf p"
  shows "pos q = pos p + int n" "buf q = buf p" "q = p \<or> pos q < int (length (buf q))"
proof -
  note m = skipSpace_Some [OF assms(2,1)]
  then show "pos q = pos p + int n" "buf q = buf p" by (simp_all add: pos_moved)
  have "n \<le> length (rest p)"
    using m length_takeWhile_le [of is_wsp "pending p"] by (metis length_Cons less_Suc_eq_le
        linorder_neqE_nat not_le set_takeWhileD takeWhile_eq_take take_all_iff order_refl)
  then have "n = 0 \<or> pos q < int (length (buf q))"
    using rest_length [OF assms(2)] m by (cases "rest p") (auto simp: pos_moved)
  then show "q = p \<or> pos q < int (length (buf q))" using m by auto
qed

lemma next_pos: "pos (snd (next_ch p)) = pos p + 1" "buf (snd (next_ch p)) = buf p"
  "pos p + 1 < int (length (buf p)) \<or> ch (snd (next_ch p)) = ch p"
  by (auto simp: next_ch_def Let_def)

text \<open>Between two mailboxes of a group a comma was read from the text.\<close>

definition at_separator :: "parser \<Rightarrow> bool" where
  "at_separator p \<longleftrightarrow> 0 \<le> pos p \<and> (ch p = CHR '','' \<longrightarrow> pos p < int (length (buf p)))"

lemma after_mailbox:
  assumes "mailbox5322 s = Some (Ret (None, t))" and "may_parse (aParser s)"
  shows "at_separator (snd (next_ch (aParser t)))"
  using mailbox5322_ok [OF assms] next_pos [of "aParser t"] by (auto simp: at_separator_def)

lemma comma_may_parse:
  assumes "at_separator p" and "skipSpace p = Some (n, q)" and "ch q = CHR '',''"
    and "skipSpace (snd (next_ch q)) = Some (m, r)"
  shows "may_parse r"
proof -
  have p: "pwf p" using assms(1) by (simp add: at_separator_def pwf_def)
  note q = skipSpace_pos [OF assms(2) p]
  have "pos q < int (length (buf q))" using q assms(1,3) by (auto simp: at_separator_def)
  then have le: "0 \<le> pos (snd (next_ch q))" "pos (snd (next_ch q)) \<le> int (length (buf q))"
    using q assms(1) next_pos [of q] by (auto simp: at_separator_def)
  then have "pwf (snd (next_ch q))" by (simp add: pwf_def)
  from skipSpace_pos [OF assms(4) this] le next_pos [of q] show ?thesis by (auto simp: may_parse_def)
qed

lemma groupList_loop_no_panic:
  assumes "groupList_loop s = Some r" and "at_separator (aParser s)"
  shows "\<not> panics r"
proof -
  have "at_separator (aParser s) \<longrightarrow> \<not> panics r"
  proof (rule groupList_loop.raw_induct [OF _ assms(1)])
    fix f s r
    assume ih: "\<And>s r. f s = Some r \<Longrightarrow> at_separator (aParser s) \<longrightarrow> \<not> panics r"
      and b: "(case skipSpace (aParser s) of None \<Rightarrow> None
        | Some (_, p) \<Rightarrow>
          if ch p \<noteq> CHR '','' then Some (Ret (None, with_parser s p))
          else (case skipSpace (snd (next_ch p)) of None \<Rightarrow> None
            | Some (_, p) \<Rightarrow>
              (case mailbox5322 (with_parser s p) of None \<Rightarrow> None
               | Some r \<Rightarrow>
                 (case r of Panic m \<Rightarrow> Some (Panic m)
                  | Ret (err, s) \<Rightarrow>
                      (case err of Some e \<Rightarrow> Some (Ret (Some e, s)) | None \<Rightarrow> f (next_5322 s)))))) = Some r"
    show "at_separator (aParser s) \<longrightarrow> \<not> panics r"
    proof
      assume sep: "at_separator (aParser s)"
      obtain n p where p: "skipSpace (aParser s) = Some (n, p)" using b by (auto split: option.splits)
      show "\<not> panics r"
      proof (cases "ch p = CHR '',''")
        case True
        then obtain m q where q: "skipSpace (snd (next_ch p)) = Some (m, q)" using b p by (auto split: option.splits)
        have ok: "may_parse (aParser (with_parser s q))" using comma_may_parse [OF sep p True q] by simp
        with mailbox5322_no_panic [OF ok] b p q True obtain e t
          where t: "mailbox5322 (with_parser s q) = Some (Ret (e, t))"
          by (auto split: option.splits outcome.splits)
        show ?thesis
          using b p q True t ih [of "next_5322 t"] after_mailbox [OF _ ok, of t] by (cases e) auto
      qed (use b p in auto)
    qed
  qed
  with assms(2) show ?thesis by blast
qed

lemma group_no_panic:
  assumes "group s = Some r" and "pwf (aParser s)"
  shows "\<not> panics r"
proof -
  obtain e t where t: "group_name s = Some (e, t)" using assms(1) by (auto simp: group_def split: option.splits)
  have pos: "-1 \<le> pos (aParser t)"
    using t assms(2) forward.R_displayName [of s e t] by (auto simp: group_name_def fwd_def pwf_def split: if_splits)
  show ?thesis
  proof (cases "e = None \<and> ch (aParser t) = CHR '':''")
    case True
    have ok: "may_parse (aParser (next_5322 t))"
      using next_pos [of "aParser t"] pos True by (auto simp: may_parse_def)
    show ?thesis
    proof (cases "groupList (next_5322 t)")
      case (Some gr)
      have "\<not> panics gr"
      proof (cases "mailbox5322 (next_5322 t)")
        case m: (Some x)
        with mailbox5322_no_panic [OF ok] obtain e2 u where u: "mailbox5322 (next_5322 t) = Some (Ret (e2, u))"
          by (cases x) auto
        show ?thesis
          using Some u groupList_loop_no_panic [of "next_5322 u" gr] after_mailbox [OF _ ok, of u]
          by (cases e2) (auto simp: groupList_def)
      qed (use Some in \<open>simp add: groupList_def\<close>)
      with Some True t assms(1) show ?thesis
        by (cases gr) (auto simp: group_def split: option.splits)
    qed (use assms(1) t True in \<open>simp add: group_def\<close>)
  qed (use assms(1) t in \<open>auto simp: group_def split: option.splits\<close>)
qed

lemma mailbox5322_pwf:
  assumes "mailbox5322 (start str) = Some (Ret (e, t))"
  shows "pwf (aParser t)"
proof -
  obtain e1 u where u: "nameAddr (start str) = Some (e1, u)"
    using assms by (auto simp: mailbox5322_def Let_def split: option.splits)
  have pu: "pwf (aParser u)" using reads.R_nameAddr [OF u] start_parser(1) by (simp add: reads_def)
  obtain e2 p where p: "mailbox ((aParser u)\<lparr>pos := -1\<rparr>) = (e2, p)" by fastforce
  have "pwf p" using reads.R_mailbox [OF p] by (simp add: reads_def pwf_def)
  with assms u pu p start_parser(4) [of str] show ?thesis
    by (cases e1; cases e2) (auto simp: mailbox5322_def rewind_def Let_def split: if_splits)
qed

lemma NewAddress_not_Crash: "NewAddress str \<noteq> Crash m"
proof -
  have ok: "may_parse (aParser (start str))" by (simp add: may_parse_def start_parser)
  have "r \<noteq> Panic m" if r: "Address zero_rfc5322 str = Some r" for r
  proof (cases "mailbox5322 (start str)")
    case (Some x)
    with mailbox5322_no_panic [OF ok] obtain e t where x: "x = Ret (e, t)" by (cases x) auto
    from r Some x group_no_panic [of t r] mailbox5322_pwf [of str e t] show ?thesis
      by (cases e) (auto simp: Address_start split: if_splits)
  qed (use r in \<open>simp add: Address_start\<close>)
  then show ?thesis
    unfolding NewAddress_def
    by (cases "Address zero_rfc5322 str" rule: run_of.cases) auto
qed

text \<open>
  No text makes \<open>NewAddress\<close> panic: the byte that \<open>mailbox\<close> reads after its rewind is always in
  the text, for a single address, a group, and whatever the address parser left behind.
\<close>

theorem NewAddress_no_panic: "NewAddress str \<noteq> Crash m"
  by (rule NewAddress_not_Crash)

subsection \<open>The usual forms of an address\<close>

definition parsed_address :: "bytes \<Rightarrow> bytes \<Rightarrow> bytes \<Rightarrow> bool \<Rightarrow> bool \<Rightarrow> address" where
  "parsed_address l d name quoted lq = empty_address\<lparr>User := l, Host := d, DisplayName := name,
     DisplayNameQuoted := quoted, Quoted := lq\<rparr>"

lemma mailbox_at:
  assumes "pwf p" and "accept p = []" and "rest p = l @ CHR ''@'' # d @ r" and "isDotString l" and "isDomain d"
    and "ends_domain r"
  shows "mailbox p = (None, (moved (length l + length d + 1) [] p)\<lparr>LocalPart := l, Domain := d\<rparr>)"
proof -
  let ?t = "(moved (length l + 1) [] p)\<lparr>LocalPart := l\<rparr>"
  have "localPart p = (None, ?t)" using assms by (intro localPart_dot) auto
  then have "mailbox p = (None, (moved (length d) [] ?t)\<lparr>Domain := d\<rparr>)"
    by (rule mailbox_domain) (use assms in auto)
  then show ?thesis using assms(1) by (simp add: add.commute add.left_commute)
qed

lemma nameAddr_angle:
  assumes "displayName s = Some (e, t)" and "p = aParser t" and "pwf p" and "ch p = CHR ''<''" and "accept p = []"
    and "rest p = l @ CHR ''@'' # d @ CHR ''>'' # r" and "isDotString l" and "isDomain d"
  shows "nameAddr s = Some (None,
    addAddress (with_parser t ((moved (length l + length d + 2) [] p)\<lparr>LocalPart := l, Domain := d\<rparr>)))"
proof -
  let ?q = "(moved (length l + length d + 1) [] p)\<lparr>LocalPart := l, Domain := d\<rparr>"
  have m: "mailbox p = (None, ?q)" using assms by (intro mailbox_at) (auto simp: ends_domain_def)
  have "skipSpace p = Some (0, p)" using assms(4) by (intro skipSpace_none) (simp add: is_wsp_def)
  moreover have "skipSpace ?q = Some (0, ?q)"
    using mailbox_ch_not [OF m assms(3)] by (intro skipSpace_none) simp
  ultimately have "angleAddr p = Some (None, ?q)" using m assms(4) by (simp add: angleAddr_def)
  moreover have "snd (next_ch ?q) = moved 1 [] ?q" using assms by (intro next_before_end) auto
  ultimately show ?thesis
    using assms by (simp add: nameAddr_def Let_def nth_append hd_drop_conv_nth)
qed

lemma NewAddress_named:
  assumes "displayName (start str) = Some (e, t)" and "p = aParser t" and "pwf p" and "ch p = CHR ''<''"
    and "accept p = []" and "rest p = l @ CHR ''@'' # d @ ''>''" and "isDotString l" and "isDomain d"
    and "aList t = []" and "IP p = None" and "sNullPath (aAddr t) = False"
  shows "NewAddress str = Done (Inr (parsed_address l d (sDisplayName (aAddr t)) (sDisplayNameQuoted (aAddr t))
     (LocalPartQuotes p)))"
proof -
  note n = nameAddr_angle [OF assms(1,2,3,4,5,6,7,8)]
  then have "mailbox5322 (start str) = Some (Ret (None,
    addAddress (with_parser t ((moved (length l + length d + 2) [] p)\<lparr>LocalPart := l, Domain := d\<rparr>))))"
    by (simp add: mailbox5322_def)
  with assms show ?thesis
    by (simp add: NewAddress_def Address_start addAddress_def with_parser_def address_of_def parsed_address_def
        empty_address_def Let_def)
qed

text \<open>A display name of atoms with single spaces is read as it is.\<close>

lemma atom5322_run:
  "pwf s \<Longrightarrow> pending s = w @ c # r \<Longrightarrow> list_all isAtext w \<Longrightarrow> atom5322_loop s = atom5322_loop (moved (length w) w s)"
proof (induction w arbitrary: s)
  case (Cons x w)
  then obtain d cs where r: "rest s = d # cs" "d # cs = w @ c # r" by (cases w) auto
  have "atom5322_loop s = atom5322_loop (moved 1 [x] s)"
    using Cons.prems next_pending [of s x d cs "[x]"] r by (simp add: atom_step)
  moreover have "pending (moved 1 [x] s) = w @ c # r"
    unfolding r(2) [symmetric] using Cons.prems(1) r(1) by simp
  ultimately show ?case using Cons.IH [of "moved 1 [x] s"] Cons.prems by simp
qed simp

lemma skipSpace_spaces:
  "pwf s \<Longrightarrow> pending s = sp @ c # r \<Longrightarrow> list_all is_wsp sp \<Longrightarrow> \<not> is_wsp c \<Longrightarrow>
   skipSpace s = Some (length sp, moved (length sp) [] s)"
proof -
  assume h: "pwf s" "pending s = sp @ c # r" "list_all is_wsp sp" "\<not> is_wsp c"
  have "takeWhile is_wsp (sp @ c # r) = sp" using h by (simp add: takeWhile_append2 list_all_iff)
  then show ?thesis
    using skipSpace_moved [OF h(1), of 0] unfolding h(2) using h(4) by (simp add: skipSpace_def)
qed

lemma ch_after: "pwf s \<Longrightarrow> pending s = w @ c # r \<Longrightarrow> pending (moved (length w) a s) = c # r"
  using pending_moved [of s "length w" a] by simp

lemma atom_spaces:
  assumes "pwf s" and "pending s = sp @ c # r" and "list_all is_wsp sp" and "\<not> is_phrase c"
  shows "atom5322_loop s = Some (None, moved (length sp) [] s)"
proof -
  have c: "\<not> is_wsp c" "\<not> isAtext c" using assms(4) by (auto simp: is_phrase_def)
  have "\<not> isAtext (ch s)" using assms c wsp_not_atext by (cases sp) auto
  moreover have "ch (moved (length sp) [] s) = c" using ch_after [OF assms(1,2), of "[]"] by simp
  ultimately show ?thesis using skipSpace_spaces [OF assms(1-3) c(1)] c by (intro atom_stop) auto
qed

lemma atom5322_words:
  "pwf s \<Longrightarrow> ws \<noteq> [] \<Longrightarrow> list_all isAtom ws \<Longrightarrow> pending s = join '' '' ws @ sp @ c # r \<Longrightarrow>
   list_all is_wsp sp \<Longrightarrow> \<not> is_phrase c \<Longrightarrow>
   atom5322_loop s = Some (None, moved (length (join '' '' ws) + length sp) (join '' '' ws) s)"
proof (induction "'' ''" ws arbitrary: s rule: join.induct)
  case (2 w)
  have w: "list_all isAtext w" using "2.prems" by (simp add: isAtom_def)
  obtain c' r' where cr: "sp @ c # r = c' # r'" by (cases sp) auto
  let ?t = "moved (length w) w s"
  have "pending ?t = sp @ c # r" using ch_after [of s w c' r'] "2.prems" cr by simp
  from atom_spaces [OF _ this] "2.prems" have "atom5322_loop ?t = Some (None, moved (length sp) [] ?t)" by simp
  with atom5322_run [of s w c' r'] w "2.prems" cr show ?case by simp
next
  case (3 w w2 ws)
  let ?tail = "join '' '' (w2 # ws) @ sp @ c # r"
  have w: "list_all isAtext w" using "3.prems" by (simp add: isAtom_def)
  have pend: "pending s = w @ CHR '' '' # ?tail" using "3.prems" by simp
  obtain x xs where x: "?tail = x # xs" "isAtext x"
    using "3.prems" by (cases w2; cases ws) (auto simp: isAtom_def)
  let ?t = "moved (length w) w s" and ?u = "moved (length w + 1) (w @ '' '') s"
  have pt: "pending ?t = '' '' @ x # xs" "pwf ?t" using ch_after [OF "3.prems"(1) pend] "3.prems"(1) x by simp_all
  have nx: "\<not> is_wsp x" using x wsp_not_atext by blast
  have sk: "skipSpace ?t = Some (1, moved 1 [] ?t)"
    using skipSpace_spaces [OF pt(2,1)] nx by (simp add: is_wsp_def)
  have pu: "pending ?u = ?tail" "pwf ?u"
    using ch_after [OF pt(2,1)] "3.prems"(1) x by simp_all
  have "ch (moved 1 [] ?t) = x" "ch ?t = CHR '' ''" using pu pt x "3.prems"(1) by simp_all
  then have "atom5322_loop ?t = atom5322_loop (moved 0 '' '' (moved 1 [] ?t))"
    using atom_skip [OF _ sk] x "3.prems"(1) by (simp add: isAtext_def)
  then have "atom5322_loop s = atom5322_loop ?u"
    using atom5322_run [OF "3.prems"(1) pend w] "3.prems"(1) by simp
  moreover have "atom5322_loop ?u = Some (None, moved (length (join '' '' (w2 # ws)) + length sp) (join '' '' (w2 # ws)) ?u)"
    by (rule "3.hyps") (use "3.prems" pu in auto)
  ultimately show ?case using "3.prems"(1) by (simp add: add.assoc)
qed simp

lemma start_nonempty: "str \<noteq> [] \<Longrightarrow> start str = \<lparr>aList = [], aGroup = [],
    aParser = moved 1 [] (NewParser str), aAddr = empty_single\<rparr>"
  by (cases str) (simp_all add: start_def next_before_end New_input)

lemma join_first: "ws \<noteq> [] \<Longrightarrow> list_all isAtom ws \<Longrightarrow> \<exists>x xs. join sep ws = x # xs \<and> isAtext x"
  by (cases "(sep, ws)" rule: join.cases; cases "hd ws") (auto simp: isAtom_def)

lemma displayName_words:
  assumes "ws \<noteq> []" and "list_all isAtom ws" and "str = join '' '' ws @ '' '' @ CHR ''<'' # r"
  shows "displayName (start str) = Some (None, (start str)\<lparr>
     aParser := moved (length (join '' '' ws) + 2) [] (NewParser str),
     aAddr := empty_single\<lparr>sDisplayName := join '' '' ws\<rparr>\<rparr>)"
proof -
  let ?p = "aParser (start str)" and ?n = "length (join '' '' ws) + 1"
  have nz: "str \<noteq> []" using assms(3) by simp
  have p: "pwf ?p" "pending ?p = join '' '' ws @ '' '' @ CHR ''<'' # r"
    using start_parser [of str] assms(3) by auto
  obtain x xs where x: "join '' '' ws = x # xs" "isAtext x"
    using join_first [OF assms(1,2)] by blast
  have ch: "ch ?p = x" using p(2) x by simp
  have lt: "\<not> is_phrase (CHR ''<'')" by (simp add: is_phrase_def isAtext_def is_wsp_def)
  have "atom5322_loop ?p = Some (None, moved ?n (join '' '' ws) ?p)"
    using atom5322_words [OF p(1) assms(1,2), of "'' ''" "CHR ''<''" r] p lt by (simp add: is_wsp_def)
  moreover have "\<not> is_wsp (ch ?p)" using ch x wsp_not_atext by blast
  ultimately have at: "atom5322 ?p = Some (None, moved ?n (join '' '' ws) ?p)"
    using skipSpace_none [of ?p] ch x by (simp add: atom5322_def)
  let ?t = "with_parser (start str) (moved ?n (join '' '' ws) ?p)"
  have "pending (moved ?n (join '' '' ws) ?p) = CHR ''<'' # r"
    using ch_after [OF p(1), of "join '' '' ws @ '' ''" "CHR ''<''" r] p(2) by simp
  then have "words_loop ?t = Some ?t"
    using lt by (subst words_loop.simps) (simp add: word5322_other)
  then have "displayName (start str) = Some (None, keep_DisplayName ?t)"
    using at ch x by (simp add: displayName_def word5322_phrase is_phrase_def)
  then show ?thesis
    using start_nonempty [OF nz] x
    by (simp add: keep_DisplayName_def with_parser_def Let_def New_input reset_moved)
qed

lemma split_on_cover: "x \<in> set xs \<Longrightarrow> x = c \<or> (\<exists>w \<in> set (split_on c xs). x \<in> set w)"
proof (induction xs)
  case (Cons y xs)
  have "split_on c xs = hd (split_on c xs) # tl (split_on c xs)" by simp
  then have "set (split_on c xs) = insert (hd (split_on c xs)) (set (tl (split_on c xs)))"
    by (metis list.simps(15))
  with Cons show ?case by auto
qed simp

lemma isDotString_bytes: "isDotString l \<Longrightarrow> x \<in> set l \<Longrightarrow> isAtext x \<or> x = CHR ''.''"
  using split_on_cover [of x l "CHR ''.''"] by (auto simp: isDotString_def isAtom_def list_all_iff)

lemma bare_stop:
  assumes "isDotString l" and "str = l @ CHR ''@'' # d"
  shows "\<exists>c cs. dropWhile is_phrase str = c # cs \<and> (c = CHR ''.'' \<or> c = CHR ''@'')"
proof -
  have at: "\<not> is_phrase (CHR ''@'')" by (simp add: is_phrase_def isAtext_def is_wsp_def)
  show ?thesis
  proof (cases "\<exists>c \<in> set l. \<not> is_phrase c")
    case True
    then have "dropWhile is_phrase str = dropWhile is_phrase l @ CHR ''@'' # d" "dropWhile is_phrase l \<noteq> []"
      using assms(2) by (auto simp: dropWhile_append1 dropWhile_eq_Nil_conv)
    moreover from this(2) have "hd (dropWhile is_phrase l) \<in> set l" "\<not> is_phrase (hd (dropWhile is_phrase l))"
      by (metis hd_in_set set_dropWhileD, metis hd_dropWhile)
    ultimately show ?thesis
      using isDotString_bytes [OF assms(1)] by (cases "dropWhile is_phrase l") (auto simp: is_phrase_def)
  next
    case False
    then have "dropWhile is_phrase str = dropWhile is_phrase (CHR ''@'' # d)"
      using assms(2) by (simp add: dropWhile_append2)
    then show ?thesis using at by simp
  qed
qed

lemma mailbox5322_bare:
  assumes "isDotString l" and "isDomain d" and "str = l @ CHR ''@'' # d" and "CHR 0x22 \<notin> set str"
  shows "\<exists>s. mailbox5322 (start str) = Some (Ret (None, s)) \<and> aList s =
    [empty_single\<lparr>sLocalPart := l, sDomain := d\<rparr>]"
proof -
  let ?p = "aParser (start str)"
  have nz: "str \<noteq> []" using assms(3) by simp
  have pend: "pending ?p = str" using start_parser(2) [of str] nz by simp
  obtain c cs where c: "dropWhile is_phrase str = c # cs" "c = CHR ''.'' \<or> c = CHR ''@''"
    using bare_stop [OF assms(1,3)] by blast
  have "\<exists>c \<in> set (pending ?p). \<not> is_phrase c" unfolding pend using c(1) by (metis dropWhile_eq_Nil_conv list.distinct(1))
  then obtain e n a where dn: "displayName (start str) = Some (e, keep_DisplayName (with_parser (start str) (moved n a ?p)))"
      "pending (moved n a ?p) = c # cs"
    using displayName_returns [OF start_parser(1)] assms(4) pend c(1) by metis
  let ?t = "keep_DisplayName (with_parser (start str) (moved n a ?p))"
  let ?q = "(aParser ?t)\<lparr>pos := -1\<rparr>"
  have "ch (aParser ?t) = c" using dn(2) by simp
  with dn(1) c(2) have na: "nameAddr (start str) = Some (Some errExpectingAngleAddress, ?t)" "ch (aParser ?t) \<noteq> CHR '':''"
    by (auto simp: nameAddr_def)
  have q: "pwf ?q" "accept ?q = []" "rest ?q = l @ CHR ''@'' # d @ []" "IP ?q = None" "\<not> LocalPartQuotes ?q"
    using assms(3) nz by (auto simp: keep_DisplayName_def start_nonempty reset_accept_def with_parser_def Let_def
        New_input pwf_def rest_def NewParser_def moved_def)
  have m: "mailbox ?q = (None, (moved (length l + length d + 1) [] ?q)\<lparr>LocalPart := l, Domain := d\<rparr>)"
    by (rule mailbox_at [OF q(1,2,3) assms(1,2)]) (simp add: ends_domain_def)
  have rw: "rewind (pos ?p) (aParser ?t) = Ret ?q" by (simp add: rewind_def start_parser)
  have "aList ?t = []" "(aAddr ?t)\<lparr>sDisplayName := [], sDisplayNameQuoted := False\<rparr> = empty_single"
    by (simp_all add: keep_DisplayName_def with_parser_def start_def empty_single_def Let_def)
  with na m rw q show ?thesis
    by (simp add: mailbox5322_def addAddress_def with_parser_def empty_single_def)
qed

lemma isLetDig_plain: "isLetDig c \<Longrightarrow> c \<noteq> CHR 0x22 \<and> c \<noteq> CHR '':''"
  by (auto simp: isLetDig_def)

lemma isDomain_bytes: "isDomain d \<Longrightarrow> x \<in> set d \<Longrightarrow> isLDH x \<or> x = CHR ''.''"
  using split_on_cover [of x d "CHR ''.''"] by (auto simp: isDomain_def isSubdomain_def list_all_iff)

lemma bare_no_quote: "isDotString l \<Longrightarrow> isDomain d \<Longrightarrow> CHR 0x22 \<notin> set (l @ CHR ''@'' # d)"
  using isDotString_bytes [of l "CHR 0x22"] isDomain_bytes [of d "CHR 0x22"]
  by (auto simp: isLDH_def isLetDig_def)

lemma NewAddress_usual:
  assumes "isDotString l" and "isDomain d" and "ws \<noteq> []" and "list_all isAtom ws"
  shows "NewAddress (l @ ''@'' @ d) = Done (Inr (parsed_address l d [] False False))
    \<and> NewAddress (join '' '' ws @ '' <'' @ l @ ''@'' @ d @ ''>'')
        = Done (Inr (parsed_address l d (join '' '' ws) False False))"
proof
  obtain s where s: "mailbox5322 (start (l @ CHR ''@'' # d)) = Some (Ret (None, s))"
      "aList s = [empty_single\<lparr>sLocalPart := l, sDomain := d\<rparr>]"
    using mailbox5322_bare [OF assms(1,2) refl bare_no_quote [OF assms(1,2)]] by blast
  then show "NewAddress (l @ ''@'' @ d) = Done (Inr (parsed_address l d [] False False))"
    by (simp add: NewAddress_def Address_start address_of_def parsed_address_def empty_address_def empty_single_def)
  let ?r = "l @ CHR ''@'' # d @ ''>''"
  let ?str = "join '' '' ws @ '' '' @ CHR ''<'' # ?r"
  have dn: "displayName (start ?str) = Some (None, (start ?str)\<lparr>
     aParser := moved (length (join '' '' ws) + 2) [] (NewParser ?str),
     aAddr := empty_single\<lparr>sDisplayName := join '' '' ws\<rparr>\<rparr>)" (is "_ = Some (None, ?t)")
    by (rule displayName_words [OF assms(3,4) refl])
  have "NewAddress ?str = Done (Inr (parsed_address l d (sDisplayName (aAddr ?t)) (sDisplayNameQuoted (aAddr ?t))
      (LocalPartQuotes (aParser ?t))))"
    by (rule NewAddress_named [OF dn refl])
      (use assms in \<open>simp_all add: New_input start_def empty_single_def\<close>)
  then show "NewAddress (join '' '' ws @ '' <'' @ l @ ''@'' @ d @ ''>'')
        = Done (Inr (parsed_address l d (join '' '' ws) False False))"
    by (simp add: New_input empty_single_def)
qed

text \<open>
  \<open>NewAddress\<close> reads the two usual forms of an address as they are written: \<open>local@domain\<close>, and
  a display name of atoms separated by single spaces before \<open><local@domain>\<close>.
\<close>

theorem NewAddress_forms:
  assumes "isDotString l" and "isDomain d" and "ws \<noteq> []" and "list_all isAtom ws"
  shows "NewAddress (l @ ''@'' @ d) = Done (Inr (parsed_address l d [] False False))
    \<and> NewAddress (join '' '' ws @ '' <'' @ l @ ''@'' @ d @ ''>'')
        = Done (Inr (parsed_address l d (join '' '' ws) False False))"
  using assms by (rule NewAddress_usual)

theorem NewAddress_forms_witness:
  "NewAddress (''joe'' @ ''@'' @ ''x.org'') = Done (Inr (parsed_address ''joe'' ''x.org'' [] False False))
    \<and> NewAddress (join '' '' [''Ed'', ''Jones''] @ '' <'' @ ''joe'' @ ''@'' @ ''x.org'' @ ''>'')
        = Done (Inr (parsed_address ''joe'' ''x.org'' (join '' '' [''Ed'', ''Jones'']) False False))"
  by (rule NewAddress_forms) code_simp+

lemma displayName_quoted:
  assumes "list_all printable u" and "u \<noteq> []"
    and "str = CHR 0x22 # quote_escape u @ CHR 0x22 # '' '' @ CHR ''<'' # r"
  shows "displayName (start str) = Some (None, (start str)\<lparr>
     aParser := (moved (length (quote_escape u) + 4) [] (NewParser str))\<lparr>LocalPartQuotes := \<not> list_all isAtext u\<rparr>,
     aAddr := empty_single\<lparr>sDisplayName := u, sDisplayNameQuoted := True\<rparr>\<rparr>)"
proof -
  let ?n = "length (quote_escape u)" and ?s = "start str"
  let ?p = "aParser ?s"
  have st: "?s = \<lparr>aList = [], aGroup = [], aParser = moved 1 [] (NewParser str), aAddr = empty_single\<rparr>"
    using assms(3) by (simp add: start_nonempty)
  have p: "pwf ?p" "ch ?p = CHR 0x22" "rest ?p = quote_escape u @ CHR 0x22 # CHR '' '' # CHR ''<'' # r"
    using start_parser(1,2) [of str] assms(3) by auto
  let ?q = "(moved (?n + 1) u ?p)\<lparr>LocalPartQuotes := \<not> list_all isAtext u\<rparr>"
  have "QcontentSMTP ?p = (None, ?q)"
    using QcontentSMTP_complete [OF p(1,3) assms(1)] by (simp add: QcontentSMTP_def st New_input)
  moreover have "ch ?q = CHR 0x22" using p by simp
  moreover have "snd (next_ch ?q) = moved 1 [] ?q" using p by (intro next_before_end [of _ "CHR '' ''" "CHR ''<'' # r"]) simp_all
  ultimately have qs: "quotedString5322 ?p = (None, moved 1 [] ?q)" using p by (simp add: quotedString5322_def)
  let ?t = "?s\<lparr>aAddr := empty_single\<lparr>sDisplayNameQuoted := True\<rparr>\<rparr>"
  have w: "word5322 ?s = Some (None, with_parser ?t (moved 1 [] ?q))" using p qs by (simp add: word5322_def st Let_def)
  let ?v = "moved 1 [] ?q"
  have v: "pwf ?v" "pending ?v = '' '' @ CHR ''<'' # r" using p by simp_all
  have "skipSpace ?v = Some (1, moved 1 [] ?v)"
    using skipSpace_spaces [OF v] by (simp add: is_wsp_def)
  moreover have "ch (moved 1 [] ?v) = CHR ''<''" using v by simp
  ultimately have at: "atom5322 ?v = Some (Some errNotAtom, moved 1 [] ?v)" by (simp add: atom5322_def isAtext_def)
  have "ch ?v = CHR '' ''" using v by simp
  then have "word5322 (with_parser ?t ?v) = Some (Some errNotAtom, with_parser ?t (moved 1 [] ?v))"
    using at by (simp add: word5322_phrase is_phrase_def is_wsp_def)
  then have "words_loop (with_parser ?t ?v) = Some (with_parser ?t (moved 1 [] ?v))"
    by (subst words_loop.simps) simp
  with w have "displayName ?s = Some (None, keep_DisplayName (with_parser ?t (moved 1 [] ?v)))"
    by (simp add: displayName_def)
  then show ?thesis
    using assms(2) by (simp add: st keep_DisplayName_def with_parser_def New_input reset_accept_def moved_def rest_def NewParser_def
        nat_add_distrib)
qed

text \<open>
  A quoted display name decides whether the local part of the address is quoted: with a space or
  another byte in the name that no atom has, the address that \<open>NewAddress\<close> returns for
  \<open>"name" <local@domain>\<close> prints with quotes around its local part, which the text does not have.
\<close>

theorem NewAddress_quoted_name:
  assumes "isDotString l" and "isDomain d" and "list_all printable u" and "u \<noteq> []"
  shows "NewAddress ([CHR 0x22] @ quote_escape u @ [CHR 0x22] @ '' <'' @ l @ ''@'' @ d @ ''>'')
    = Done (Inr (parsed_address l d u True (\<not> list_all isAtext u)))"
proof -
  let ?str = "CHR 0x22 # quote_escape u @ CHR 0x22 # '' '' @ CHR ''<'' # l @ CHR ''@'' # d @ ''>''"
  have dn: "displayName (start ?str) = Some (None, (start ?str)\<lparr>
     aParser := (moved (length (quote_escape u) + 4) [] (NewParser ?str))\<lparr>LocalPartQuotes := \<not> list_all isAtext u\<rparr>,
     aAddr := empty_single\<lparr>sDisplayName := u, sDisplayNameQuoted := True\<rparr>\<rparr>)" (is "_ = Some (None, ?t)")
    by (rule displayName_quoted [OF assms(3,4) refl])
  have "NewAddress ?str = Done (Inr (parsed_address l d (sDisplayName (aAddr ?t)) (sDisplayNameQuoted (aAddr ?t))
      (LocalPartQuotes (aParser ?t))))"
    by (rule NewAddress_named [OF dn refl])
      (use assms in \<open>simp_all add: New_input start_def empty_single_def numeral_eq_Suc\<close>)
  then show ?thesis by simp
qed

theorem NewAddress_quoted_name_witness:
  "(let a = parsed_address ''test'' ''x.org'' ''Mike Jones'' True True
    in NewAddress ([CHR 0x22] @ quote_escape ''Mike Jones'' @ [CHR 0x22] @ '' <'' @ ''test'' @ ''@'' @ ''x.org'' @ ''>'')
         = Done (Inr a)
       \<and> addr_String a = [CHR 0x22] @ ''test'' @ [CHR 0x22] @ ''@x.org'')"
proof -
  have h: "isDotString ''test''" "isDomain ''x.org''" "list_all printable ''Mike Jones''" "''Mike Jones'' \<noteq> []"
    "\<not> list_all isAtext ''Mike Jones''"
    by code_simp+
  have "addr_String (parsed_address ''test'' ''x.org'' ''Mike Jones'' True True) = [CHR 0x22] @ ''test'' @ [CHR 0x22] @ ''@x.org''"
    by (simp add: addr_String_def parsed_address_def empty_address_def IsEmpty_def)
  with NewAddress_quoted_name [OF h(1-4)] h(5) show ?thesis by (simp only: Let_def simp_thms)
qed

end
