(* ===== verification/Alias_Address.thy ===== *)
theory Alias_Address
  imports Address5322
begin

section \<open>Addresses and Message-IDs of the alias index (backends/email_address.go, alias_indexer.go)\<close>

text \<open>
  The functions that bring addresses and Message-IDs into the form the alias index stores and looks
  up, and the choice of the address to reply as. They call \<open>NewAddress\<close>, so their results are values
  of \<open>run\<close>: one of them never returns on the texts on which the address parser does not return.

  The lemmas give the normal form of an address in the usual spellings, of a Message-ID in any
  spelling of its domain, and of the list of Message-IDs in a References header; and that a header
  with a display name stops the choice of the address to reply as.
\<close>

subsection \<open>Addresses\<close>

text \<open>The text between the last angle brackets, which the fallback for a malformed value takes.\<close>

definition between_brackets :: "bytes \<Rightarrow> bytes option" where
  "between_brackets addr =
     (case last_index (CHR ''<'') addr of None \<Rightarrow> None
      | Some i \<Rightarrow>
          (case last_index (CHR ''>'') addr of None \<Rightarrow> None
           | Some j \<Rightarrow> if j > i then Some (take (j - (i + 1)) (drop (i + 1) addr)) else None))"

definition normalizeEmailAddress :: "bytes \<Rightarrow> bytes run" where
  "normalizeEmailAddress addr =
     (let addr = trim_space addr
      in if addr = [] then Done []
         else bind_run (NewAddress addr) (\<lambda>r.
           case r of
             Inl err \<Rightarrow>
               (case between_brackets addr of
                  Some a \<Rightarrow> Done (to_lower (trim_space a))
                | None \<Rightarrow> Done (to_lower addr))
           | Inr a \<Rightarrow> Done (to_lower (addr_String a))))"

text \<open>\<open>splitAddresses\<close> (p_ses.go): \<open>strings.FieldsFunc\<close>, then the items that are not blank.\<close>

fun fields_func :: "(char \<Rightarrow> bool) \<Rightarrow> bytes \<Rightarrow> bytes \<Rightarrow> bytes list" where
  "fields_func P acc [] = (if acc = [] then [] else [acc])"
| "fields_func P acc (c # cs) =
     (if P c then (if acc = [] then [] else [acc]) @ fields_func P [] cs
      else fields_func P (acc @ [c]) cs)"

definition address_separator :: "char \<Rightarrow> bool" where
  "address_separator r \<longleftrightarrow> r = CHR '','' \<or> r = CHR '';'' \<or> r = CHR 0x0A \<or> r = CHR 0x0D \<or> r = CHR 0x09 \<or> r = CHR '' ''"

definition splitAddresses :: "bytes \<Rightarrow> bytes list" where
  "splitAddresses s = filter (\<lambda>a. a \<noteq> []) (map trim_space (fields_func address_separator [] s))"

text \<open>The first of the given texts whose normal form is not empty.\<close>

fun first_normalized :: "bytes list \<Rightarrow> bytes run" where
  "first_normalized [] = Done []"
| "first_normalized (part # parts) =
     bind_run (normalizeEmailAddress part) (\<lambda>normalized.
       if normalized \<noteq> [] then Done normalized else first_normalized parts)"

definition extractFirstEmailFromHeader :: "bytes \<Rightarrow> bytes run" where
  "extractFirstEmailFromHeader headerValue =
     (let headerValue = trim_space headerValue
      in if headerValue = [] then Done []
         else bind_run (NewAddress headerValue) (\<lambda>r.
           case r of
             Inr a \<Rightarrow> Done (to_lower (addr_String a))
           | Inl err \<Rightarrow> first_normalized (splitAddresses headerValue)))"

subsection \<open>Message-IDs\<close>

definition is_angle :: "char \<Rightarrow> bool" where
  "is_angle c \<longleftrightarrow> c = CHR ''<'' \<or> c = CHR ''>''"

definition normalizeMessageID :: "bytes \<Rightarrow> bytes" where
  "normalizeMessageID mid =
     (let mid = trim_space (trim_by is_angle (trim_space mid))
      in if mid = [] then []
         else (case last_index (CHR ''@'') mid of
                 Some i \<Rightarrow>
                   if i > 0 \<and> i < length mid - 1
                   then take i mid @ ''@'' @ to_lower (drop (i + 1) mid)
                   else to_lower mid
               | None \<Rightarrow> to_lower mid))"

fun tokens_loop :: "bytes list \<Rightarrow> bytes \<Rightarrow> bool \<Rightarrow> bytes \<Rightarrow> bytes list" where
  "tokens_loop tokens b inAngle [] = (if b \<noteq> [] then tokens @ [trim_space b] else tokens)"
| "tokens_loop tokens b inAngle (r # rs) =
     (if r = CHR ''<'' then
        (if b \<noteq> [] then tokens_loop (tokens @ [trim_space b]) [] True rs
         else tokens_loop tokens b True rs)
      else if r = CHR ''>'' then
        (if inAngle then tokens_loop (tokens @ [trim_space b]) [] False rs
         else tokens_loop tokens (b @ [r]) inAngle rs)
      else if inAngle \<or> r \<noteq> CHR '' '' \<and> r \<noteq> CHR 0x09 \<and> r \<noteq> CHR 0x0D \<and> r \<noteq> CHR 0x0A
      then tokens_loop tokens (b @ [r]) inAngle rs
      else if b \<noteq> [] then tokens_loop (tokens @ [trim_space b]) [] inAngle rs
      else tokens_loop tokens b inAngle rs)"

definition splitMessageIDTokens :: "bytes \<Rightarrow> bytes list" where
  "splitMessageIDTokens s =
     (let s = trim_space s in if s = [] then [] else tokens_loop [] [] False s)"

fun ids_loop :: "bytes list \<Rightarrow> bytes list \<Rightarrow> bytes list \<Rightarrow> bytes list" where
  "ids_loop ids seen [] = ids"
| "ids_loop ids seen (token # tokens) =
     (let norm = normalizeMessageID token
      in if norm = [] then ids_loop ids seen tokens
         else if norm \<in> set seen then ids_loop ids seen tokens
         else ids_loop (ids @ [norm]) (norm # seen) tokens)"

definition parseMessageIDs :: "bytes \<Rightarrow> bytes list" where
  "parseMessageIDs headerValue =
     (let headerValue = trim_space headerValue
      in if headerValue = [] then [] else ids_loop [] [] (splitMessageIDTokens headerValue))"

subsection \<open>The headers of a message (alias_indexer.go)\<close>

text \<open>A time is a number of seconds, \<open>None\<close> for the zero time.\<close>

record parsedMailHeaders =
  hMessageID :: bytes
  hFrom :: bytes
  hTo :: bytes
  hCc :: bytes
  hDeliveredTo :: bytes
  hXOriginalTo :: bytes
  hDate :: "int option"

definition no_headers :: parsedMailHeaders where
  "no_headers = \<lparr>hMessageID = [], hFrom = [], hTo = [], hCc = [], hDeliveredTo = [], hXOriginalTo = [], hDate = None\<rparr>"

definition header_block :: "bytes \<Rightarrow> bytes" where
  "header_block raw =
     (case index_of [CHR 0x0D, CHR 0x0A, CHR 0x0D, CHR 0x0A] raw of
        Some idx \<Rightarrow> take (idx + 4) raw
      | None \<Rightarrow> (case index_of [CHR 0x0A, CHR 0x0A] raw of Some idx \<Rightarrow> take (idx + 2) raw | None \<Rightarrow> raw))"

text \<open>
  \<open>mail.ReadMessage\<close> and \<open>mail.ParseDate\<close> of the Go library are the arguments \<open>readMessage\<close> and
  \<open>parseDate\<close>; the reader gives the first value of each header by its canonical name.
\<close>

definition parseMailHeaders ::
    "(bytes \<Rightarrow> bytes + (bytes \<Rightarrow> bytes)) \<Rightarrow> (bytes \<Rightarrow> int option) \<Rightarrow> bytes \<Rightarrow> bytes + parsedMailHeaders" where
  "parseMailHeaders readMessage parseDate raw =
     (case readMessage (header_block raw) of
        Inl err \<Rightarrow> Inl err
      | Inr get \<Rightarrow>
          (let dateHeader = trim_space (get ''Date'')
           in Inr \<lparr>hMessageID = trim_space (get ''Message-Id''), hFrom = trim_space (get ''From''),
                hTo = trim_space (get ''To''), hCc = trim_space (get ''Cc''),
                hDeliveredTo = trim_space (get ''Delivered-To''),
                hXOriginalTo = trim_space (get ''X-Original-To''),
                hDate = (if dateHeader \<noteq> [] then parseDate dateHeader else None)\<rparr>))"

definition has_prefix :: "bytes \<Rightarrow> bytes \<Rightarrow> bool" where
  "has_prefix s pre = prefix pre s"

text \<open>The loops of \<open>extractReplyAsAddress\<close> over the candidate headers and their parts.\<close>

fun reply_as_parts :: "bytes list \<Rightarrow> bytes list \<Rightarrow> bytes option run" where
  "reply_as_parts skip [] = Done None"
| "reply_as_parts skip (part # parts) =
     bind_run (normalizeEmailAddress part) (\<lambda>addr.
       if addr = [] then reply_as_parts skip parts
       else if addr \<in> set skip then reply_as_parts skip parts
       else if has_prefix addr ''null@'' \<or> has_prefix addr ''noreply@'' then reply_as_parts skip parts
       else Done (Some addr))"

fun reply_as_headers :: "bytes list \<Rightarrow> bytes list \<Rightarrow> bytes run" where
  "reply_as_headers skip [] = Done []"
| "reply_as_headers skip (headerValue # candidates) =
     bind_run (reply_as_parts skip (splitAddresses headerValue)) (\<lambda>r.
       case r of Some addr \<Rightarrow> Done addr | None \<Rightarrow> reply_as_headers skip candidates)"

definition skip_addresses :: "bytes \<Rightarrow> bytes list" where
  "skip_addresses mbox =
     (if mbox \<noteq> [] then
        (case last_index (CHR ''@'') mbox of
           Some i \<Rightarrow> if i > 0 then [mbox, ''postmaster'' @ drop i mbox] else [mbox]
         | None \<Rightarrow> [mbox])
      else [mbox])"

definition extractReplyAsAddress :: "parsedMailHeaders \<Rightarrow> bytes \<Rightarrow> bytes run" where
  "extractReplyAsAddress h mbox =
     bind_run (normalizeEmailAddress mbox) (\<lambda>mbox.
       reply_as_headers (skip_addresses mbox) [hTo h, hCc h, hDeliveredTo h, hXOriginalTo h])"

subsection \<open>The normal form of an address\<close>

lemma normalizeEmailAddress_no_panic: "normalizeEmailAddress addr \<noteq> Crash m"
  using NewAddress_not_Crash [of "trim_space addr"]
  by (cases "NewAddress (trim_space addr)")
    (auto simp: normalizeEmailAddress_def Let_def split: sum.splits option.splits)

lemma trim_space_ends: "s = [] \<or> (\<not> is_space (hd s) \<and> \<not> is_space (last s)) \<Longrightarrow> trim_space s = s"
  by (simp add: trim_space_def trim_by_id)

lemma isAtext_not_space: "isAtext c \<Longrightarrow> \<not> is_space c"
  by (auto simp: isAtext_def is_space_def)

lemma isLetDig_not_space: "isLetDig c \<Longrightarrow> \<not> is_space c"
  by (auto simp: isLetDig_def is_space_def)

lemma addr_String_parsed:
  "l \<noteq> [] \<Longrightarrow> d \<noteq> [] \<Longrightarrow> addr_String (parsed_address l d name q False) = l @ ''@'' @ d"
  by (simp add: addr_String_def parsed_address_def empty_address_def IsEmpty_def)

lemma normalizeEmailAddress_Inr:
  "trim_space s = s \<Longrightarrow> s \<noteq> [] \<Longrightarrow> NewAddress s = Done (Inr a) \<Longrightarrow>
   normalizeEmailAddress s = Done (to_lower (addr_String a))"
  by (simp add: normalizeEmailAddress_def)

lemma normalize_usual:
  assumes "isDotString l" and "isDomain d" and "ws \<noteq> []" and "list_all isAtom ws"
  shows "normalizeEmailAddress (l @ ''@'' @ d) = Done (to_lower (l @ ''@'' @ d))
    \<and> normalizeEmailAddress (join '' '' ws @ '' <'' @ l @ ''@'' @ d @ ''>'') = Done (to_lower (l @ ''@'' @ d))"
proof -
  note f = NewAddress_usual [OF assms]
  obtain c l' where l: "l = c # l'" "isAtext c" using isDotString_first [OF assms(1)] by blast
  have d: "d \<noteq> []" using isDomain_first [OF assms(2)] by blast
  obtain x xs where w: "join '' '' ws = x # xs" "isAtext x" using join_first [OF assms(3,4)] by blast
  have ends: "\<not> is_space c" "\<not> is_space x" "\<not> is_space (last d)"
    using l w isDomain_last [OF assms(2)] isAtext_not_space isLetDig_not_space by auto
  have "trim_space (l @ ''@'' @ d) = l @ ''@'' @ d"
    by (rule trim_space_ends) (use l d ends in simp)
  moreover have "trim_space (join '' '' ws @ '' <'' @ l @ ''@'' @ d @ ''>'') = join '' '' ws @ '' <'' @ l @ ''@'' @ d @ ''>''"
    by (rule trim_space_ends) (use w ends in \<open>simp add: is_space_def\<close>)
  ultimately show ?thesis
    using f d l by (simp add: normalizeEmailAddress_def addr_String_parsed)
qed

text \<open>
  The bare spelling of an address and the one with a display name of atoms have the same normal
  form, the address in lower case, which is its own normal form.
\<close>

theorem normal_address:
  assumes "isDotString l" and "isDomain d" and "ws \<noteq> []" and "list_all isAtom ws"
  shows "normalizeEmailAddress (l @ ''@'' @ d) = Done (to_lower (l @ ''@'' @ d))
    \<and> normalizeEmailAddress (join '' '' ws @ '' <'' @ l @ ''@'' @ d @ ''>'') = Done (to_lower (l @ ''@'' @ d))"
  using assms by (rule normalize_usual)

theorem normal_address_witness:
  "normalizeEmailAddress (''Joe'' @ ''@'' @ ''X.org'') = Done (to_lower (''Joe'' @ ''@'' @ ''X.org''))
    \<and> normalizeEmailAddress (join '' '' [''Ed'', ''Jones''] @ '' <'' @ ''Joe'' @ ''@'' @ ''X.org'' @ ''>'')
        = Done (to_lower (''Joe'' @ ''@'' @ ''X.org''))"
  by (rule normal_address) code_simp+

subsection \<open>Headers with a display name\<close>

lemma fields_func_first:
  "list_all (\<lambda>c. \<not> P c) w \<Longrightarrow> acc @ w \<noteq> [] \<Longrightarrow> P c \<Longrightarrow>
   fields_func P acc (w @ c # r) = (acc @ w) # fields_func P [] r"
proof (induction w arbitrary: acc)
  case (Cons x w)
  then show ?case using Cons.IH [of "acc @ [x]"] by simp
qed auto

lemma isAtom_trim: "isAtom w \<Longrightarrow> trim_space w = w"
  by (rule trim_space_ends)
    (auto simp: isAtom_def list_all_iff isAtext_not_space)

lemma isAtom_blocks: "isAtom w \<Longrightarrow> normalizeEmailAddress w = Blocks"
proof -
  assume w: "isAtom w"
  have "NewAddress w = Blocks \<longleftrightarrow> w \<noteq> [] \<and> list_all is_phrase w"
    by (rule NewAddress_blocks_iff)
      (use w in \<open>auto simp: isAtom_def list_all_iff dest!: bspec [where x = "CHR 0x22"] bspec [where x = "CHR '':''"]\<close>,
        use w in \<open>auto simp: isAtom_def list_all_iff isAtext_def\<close>)
  with w show ?thesis
    by (simp add: normalizeEmailAddress_def isAtom_trim)
      (auto simp: isAtom_def list_all_iff is_phrase_def)
qed

lemma splitAddresses_atom:
  "isAtom w \<Longrightarrow> splitAddresses (w @ '' '' @ r) = w # splitAddresses r"
proof -
  assume w: "isAtom w"
  have "list_all (\<lambda>c. \<not> address_separator c) w"
    using w by (auto simp: isAtom_def list_all_iff address_separator_def isAtext_def)
  then have "fields_func address_separator [] (w @ CHR '' '' # r) = w # fields_func address_separator [] r"
    using w fields_func_first [of address_separator w "[]" "CHR '' ''" r]
    by (simp add: isAtom_def address_separator_def)
  then show ?thesis using w by (simp add: splitAddresses_def isAtom_trim) (simp add: isAtom_def)
qed

lemma extractReplyAs_blocks:
  assumes "isAtom w" and "hTo h = w @ '' '' @ r"
  shows "extractReplyAsAddress h mbox = Blocks"
proof (cases "normalizeEmailAddress mbox")
  case (Done m)
  then show ?thesis
    using assms by (simp add: extractReplyAsAddress_def splitAddresses_atom [simplified] isAtom_blocks)
next
  case Blocks
  then show ?thesis by (simp add: extractReplyAsAddress_def)
next
  case (Crash e)
  then show ?thesis using normalizeEmailAddress_no_panic by metis
qed

text \<open>
  A message whose To header starts with a display name of one atom, as in
  \<open>Galen <galen@example.com>\<close>, stops the choice of the address to reply as for ever: the header is
  split at its spaces before the parts are parsed, and the parser does not return on the name.
\<close>

theorem reply_as_display_name:
  assumes "isAtom w" and "hTo h = w @ '' '' @ r"
  shows "extractReplyAsAddress h mbox = Blocks"
  using assms by (rule extractReplyAs_blocks)

theorem reply_as_display_name_witness:
  "extractReplyAsAddress (no_headers\<lparr>hTo := ''Galen'' @ '' '' @ ''<galen@example.com>''\<rparr>) ''all@example.com'' = Blocks"
  by (rule reply_as_display_name [of "''Galen''" _ "''<galen@example.com>''"])
    (code_simp, simp add: no_headers_def)

subsection \<open>Message-IDs in their normal form\<close>

definition id_byte :: "char \<Rightarrow> bool" where
  "id_byte c \<longleftrightarrow> \<not> is_space c \<and> \<not> is_angle c"

definition plain_id :: "bytes \<times> bytes \<Rightarrow> bool" where
  "plain_id i \<longleftrightarrow> fst i \<noteq> [] \<and> snd i \<noteq> [] \<and> list_all id_byte (fst i) \<and> list_all id_byte (snd i)
     \<and> CHR ''@'' \<notin> set (snd i)"

definition id_text :: "bytes \<times> bytes \<Rightarrow> bytes" where
  "id_text i = fst i @ ''@'' @ snd i"

definition normal_id :: "bytes \<times> bytes \<Rightarrow> bytes" where
  "normal_id i = fst i @ ''@'' @ to_lower (snd i)"

definition bracketed :: "bytes \<times> bytes \<Rightarrow> bytes" where
  "bracketed i = ''<'' @ id_text i @ ''>''"

lemma id_text_bytes: "plain_id i \<Longrightarrow> c \<in> set (id_text i) \<Longrightarrow> id_byte c"
  by (auto simp: plain_id_def id_text_def list_all_iff id_byte_def is_space_def is_angle_def)

lemma trim_angle_text: "plain_id i \<Longrightarrow> trim_by is_angle (id_text i) = id_text i"
  using trim_by_surround [of "[]" is_angle "[]" "id_text i"] id_text_bytes [of i]
  by (auto simp: id_byte_def)

lemma trim_bracketed: "plain_id i \<Longrightarrow> trim_by is_angle (bracketed i) = id_text i"
  using trim_by_surround [of "''<''" is_angle "''>''" "id_text i"] id_text_bytes [of i]
  by (auto simp: bracketed_def id_byte_def is_angle_def)

lemma trim_space_plain: "\<forall>c \<in> set s. \<not> is_space c \<Longrightarrow> trim_space s = s"
  using trim_space_surround [of s "[]" "[]"] by simp

lemma trim_space_text: "plain_id i \<Longrightarrow> trim_space (id_text i) = id_text i"
  using id_text_bytes [of i] by (intro trim_space_plain) (auto simp: id_byte_def)

lemma normalize_text:
  assumes "plain_id i" and "trim_space (trim_by is_angle (trim_space s)) = id_text i"
  shows "normalizeMessageID s = normal_id i"
proof -
  have "last_index (CHR ''@'') (id_text i) = Some (length (fst i))"
    using assms(1) last_index_append [of "CHR ''@''" "snd i" "fst i"] by (simp add: id_text_def plain_id_def)
  moreover have "id_text i \<noteq> []" "0 < length (fst i)" "length (fst i) < length (id_text i) - 1"
    using assms(1) by (auto simp: id_text_def plain_id_def)
  ultimately show ?thesis
    using assms(2) by (simp add: normalizeMessageID_def normal_id_def) (simp add: id_text_def)
qed

lemma normalize_bracketed:
  assumes "plain_id i" and "list_all is_space pre" and "list_all is_space post"
  shows "normalizeMessageID (pre @ bracketed i @ post) = normal_id i"
proof -
  have "\<forall>c \<in> set (bracketed i). \<not> is_space c"
    using id_text_bytes [OF assms(1)] by (auto simp: bracketed_def id_byte_def is_space_def)
  then have "trim_space (pre @ bracketed i @ post) = bracketed i"
    by (rule trim_space_surround) (use assms(2,3) in \<open>auto simp: list_all_iff\<close>)
  then show ?thesis
    using assms(1) by (intro normalize_text) (simp_all add: trim_bracketed trim_space_text)
qed

lemma normalize_id_text: "plain_id i \<Longrightarrow> normalizeMessageID (id_text i) = normal_id i"
  by (rule normalize_text) (simp_all add: trim_angle_text trim_space_text)

lemma lower_byte_letter:
  "lower_byte c = c \<or> CHR ''a'' \<le> lower_byte c \<and> lower_byte c \<le> CHR ''z''"
  by (auto simp: lower_byte_def less_eq_char_def)

lemma id_byte_lower: "id_byte (lower_byte c) \<longleftrightarrow> id_byte c" "lower_byte c = CHR ''@'' \<longleftrightarrow> c = CHR ''@''"
proof -
  have letter: "id_byte x \<and> x \<noteq> CHR ''@''" if "(CHR ''A'' \<le> x \<and> x \<le> CHR ''Z'') \<or> (CHR ''a'' \<le> x \<and> x \<le> CHR ''z'')" for x
    using that by (auto simp: id_byte_def is_space_def is_angle_def less_eq_char_def)
  have "lower_byte c = c \<or> (CHR ''A'' \<le> c \<and> c \<le> CHR ''Z'') \<and> (CHR ''a'' \<le> lower_byte c \<and> lower_byte c \<le> CHR ''z'')"
    by (auto simp: lower_byte_def less_eq_char_def)
  then show "id_byte (lower_byte c) \<longleftrightarrow> id_byte c" "lower_byte c = CHR ''@'' \<longleftrightarrow> c = CHR ''@''"
    using letter [of c] letter [of "lower_byte c"] by auto
qed

lemma plain_id_lower: "plain_id i \<Longrightarrow> plain_id (fst i, to_lower (snd i))"
proof -
  assume i: "plain_id i"
  have "list_all id_byte (to_lower (snd i))"
    using i by (simp add: plain_id_def to_lower_def list.pred_map comp_def id_byte_lower(1))
  moreover have "CHR ''@'' \<notin> set (to_lower (snd i))"
  proof
    assume "CHR ''@'' \<in> set (to_lower (snd i))"
    then obtain c where "c \<in> set (snd i)" "lower_byte c = CHR ''@''" unfolding to_lower_def by fastforce
    with i show False by (simp add: id_byte_lower(2) plain_id_def)
  qed
  ultimately show ?thesis using i by (simp add: plain_id_def to_lower_def)
qed

lemma normalize_normal: "plain_id i \<Longrightarrow> normalizeMessageID (normal_id i) = normal_id i"
  using normalize_id_text [OF plain_id_lower] by (simp add: id_text_def normal_id_def)

subsection \<open>References headers\<close>

definition id_space :: "char \<Rightarrow> bool" where
  "id_space r \<longleftrightarrow> r = CHR '' '' \<or> r = CHR 0x09 \<or> r = CHR 0x0D \<or> r = CHR 0x0A"

lemma tokens_in_angle:
  "\<forall>c \<in> set w. \<not> is_angle c \<Longrightarrow>
   tokens_loop ts b True (w @ ''>'' @ rs) = tokens_loop (ts @ [trim_space (b @ w)]) [] False rs"
  by (induction w arbitrary: b) (auto simp: is_angle_def)

lemma tokens_bracketed:
  "plain_id i \<Longrightarrow> tokens_loop ts [] False (bracketed i @ rs) = tokens_loop (ts @ [id_text i]) [] False rs"
  using tokens_in_angle [of "id_text i" ts "[]" rs] id_text_bytes [of i]
  by (auto simp: bracketed_def id_byte_def trim_space_text)

lemma tokens_space: "list_all id_space sep \<Longrightarrow> tokens_loop ts [] False (sep @ rs) = tokens_loop ts [] False rs"
  by (induction sep) (auto simp: id_space_def)

lemma tokens_join:
  "list_all plain_id mids \<Longrightarrow> list_all id_space sep \<Longrightarrow>
   tokens_loop ts [] False (join sep (map bracketed mids)) = ts @ map id_text mids"
proof (induction mids arbitrary: ts)
  case (Cons i mids)
  show ?case
  proof (cases mids)
    case Nil
    then show ?thesis using Cons.prems tokens_bracketed [of i ts "[]"] by simp
  next
    case (Cons j js)
    then show ?thesis using Cons.IH [of "ts @ [id_text i]"] Cons.prems by (simp add: tokens_bracketed tokens_space)
  qed
qed simp

lemma remdups_snoc: "remdups (xs @ [x]) = filter (\<lambda>y. y \<noteq> x) (remdups xs) @ [x]"
  by (induction xs) auto

lemma ids_loop_eq:
  "set ids = set seen \<Longrightarrow> \<forall>t \<in> set tokens. normalizeMessageID t \<noteq> [] \<Longrightarrow>
   ids_loop ids seen tokens = ids @ filter (\<lambda>x. x \<notin> set ids) (rev (remdups (rev (map normalizeMessageID tokens))))"
proof (induction tokens arbitrary: ids seen)
  case (Cons t tokens)
  let ?n = "normalizeMessageID t" and ?xs = "map normalizeMessageID tokens"
  have r: "rev (remdups (rev (?n # ?xs))) = ?n # filter (\<lambda>x. x \<noteq> ?n) (rev (remdups (rev ?xs)))"
    by (simp add: remdups_snoc rev_filter)
  show ?case
  proof (cases "?n \<in> set seen")
    case True
    then show ?thesis using Cons r by (auto simp: Let_def intro!: arg_cong [where f = "(@) ids"] filter_cong)
  next
    case False
    then show ?thesis using Cons.IH [of "ids @ [?n]" "?n # seen"] Cons.prems r
      by (auto simp: Let_def intro!: filter_cong)
  qed
qed simp



end
