(* ===== verification/Effects.thy ===== *)
theory Effects
  imports Prelude
begin

section \<open>Calls that use the world outside the program\<close>

text \<open>
  The alias index talks to a database and to mail servers. Such a call is an action: it takes the
  state of the world and either ends with an error or a value and the new world, never returns or
  panics. \<open>act_bind\<close> is the early return of an error, \<open>attempt\<close> gives the error as a value to
  code that goes on after it. The world is a type variable: what is outside the repository enters as
  actions that are arguments.
\<close>

type_synonym ('w, 'a) act = "'w \<Rightarrow> ((bytes + 'a) \<times> 'w) run"

definition ok :: "'a \<Rightarrow> ('w, 'a) act" where
  "ok x = (\<lambda>w. Done (Inr x, w))"

definition fail :: "bytes \<Rightarrow> ('w, 'a) act" where
  "fail e = (\<lambda>w. Done (Inl e, w))"

definition lift_run :: "'a run \<Rightarrow> ('w, 'a) act" where
  "lift_run r = (\<lambda>w. bind_run r (\<lambda>x. Done (Inr x, w)))"

definition lift_sum :: "bytes + 'a \<Rightarrow> ('w, 'a) act" where
  "lift_sum r = (\<lambda>w. Done (r, w))"

definition act_bind :: "('w, 'a) act \<Rightarrow> ('a \<Rightarrow> ('w, 'b) act) \<Rightarrow> ('w, 'b) act" where
  "act_bind m f = (\<lambda>w. bind_run (m w) (\<lambda>(r, w). case r of Inl e \<Rightarrow> Done (Inl e, w) | Inr x \<Rightarrow> f x w))"

definition attempt :: "('w, 'a) act \<Rightarrow> ('w, bytes + 'a) act" where
  "attempt m = (\<lambda>w. bind_run (m w) (\<lambda>(r, w). Done (Inr r, w)))"

text \<open>An error with a prefix, as \<open>fmt.Errorf("prefix: %w", err)\<close> gives it.\<close>

definition wrap_err :: "bytes \<Rightarrow> ('w, 'a) act \<Rightarrow> ('w, 'a) act" where
  "wrap_err pre m = (\<lambda>w. bind_run (m w) (\<lambda>(r, w). Done (case r of Inl e \<Rightarrow> Inl (pre @ e) | Inr x \<Rightarrow> Inr x, w)))"

named_theorems act_simps "results of actions"

lemma ok_Done [act_simps]: "ok x w = Done (r, w') \<longleftrightarrow> r = Inr x \<and> w' = w"
  by (auto simp: ok_def)

lemma fail_Done [act_simps]: "fail e w = Done (r, w') \<longleftrightarrow> r = Inl e \<and> w' = w"
  by (auto simp: fail_def)

lemma lift_sum_Done [act_simps]: "lift_sum q w = Done (r, w') \<longleftrightarrow> r = q \<and> w' = w"
  by (auto simp: lift_sum_def)

lemma lift_run_Done [act_simps]: "lift_run q w = Done (r, w') \<longleftrightarrow> (\<exists>x. q = Done x \<and> r = Inr x \<and> w' = w)"
  by (auto simp: lift_run_def)

lemma act_bind_Done [act_simps]:
  "act_bind m f w = Done (r, w') \<longleftrightarrow>
     (\<exists>e. m w = Done (Inl e, w') \<and> r = Inl e) \<or> (\<exists>x w1. m w = Done (Inr x, w1) \<and> f x w1 = Done (r, w'))"
proof (cases "m w")
  case (Done q)
  then show ?thesis by (cases q; cases "fst q") (auto simp: act_bind_def)
qed (simp_all add: act_bind_def)

lemma attempt_Done [act_simps]: "attempt m w = Done (r, w') \<longleftrightarrow> (\<exists>q. m w = Done (q, w') \<and> r = Inr q)"
  by (auto simp: attempt_def)

lemma wrap_err_Done [act_simps]:
  "wrap_err pre m w = Done (r, w') \<longleftrightarrow>
     (\<exists>e. m w = Done (Inl e, w') \<and> r = Inl (pre @ e)) \<or> (\<exists>x. m w = Done (Inr x, w') \<and> r = Inr x)"
proof (cases "m w")
  case (Done q)
  then show ?thesis by (cases q; cases "fst q") (auto simp: wrap_err_def)
qed (simp_all add: wrap_err_def)

text \<open>What holds of every result and every world an action leaves.\<close>

definition act_ok :: "('w, 'a) act \<Rightarrow> 'w \<Rightarrow> (bytes + 'a \<Rightarrow> 'w \<Rightarrow> bool) \<Rightarrow> bool" where
  "act_ok m w Q \<longleftrightarrow> (\<forall>r w'. m w = Done (r, w') \<longrightarrow> Q r w')"

lemma act_okD: "act_ok m w Q \<Longrightarrow> m w = Done (r, w') \<Longrightarrow> Q r w'"
  by (simp add: act_ok_def)

lemma act_ok_bind:
  assumes "act_ok m w P" and "\<And>e w1. P (Inl e) w1 \<Longrightarrow> Q (Inl e) w1"
    and "\<And>x w1. P (Inr x) w1 \<Longrightarrow> act_ok (f x) w1 Q"
  shows "act_ok (act_bind m f) w Q"
  using assms by (fastforce simp: act_ok_def act_simps)

lemma act_ok_mono: "act_ok m w P \<Longrightarrow> (\<And>r w'. P r w' \<Longrightarrow> Q r w') \<Longrightarrow> act_ok m w Q"
  by (auto simp: act_ok_def)

lemma act_ok_simple [simp]:
  "act_ok (ok x) w Q \<longleftrightarrow> Q (Inr x) w" "act_ok (fail e) w Q \<longleftrightarrow> Q (Inl e) w"
  "act_ok (lift_sum r) w Q \<longleftrightarrow> Q r w"
  by (auto simp: act_ok_def act_simps)

lemma act_ok_lift_run: "(\<And>x. q = Done x \<Longrightarrow> Q (Inr x) w) \<Longrightarrow> act_ok (lift_run q) w Q"
  by (auto simp: act_ok_def act_simps)

lemma act_ok_attempt: "act_ok m w (\<lambda>r. Q (Inr r)) \<Longrightarrow> act_ok (attempt m) w Q"
  by (auto simp: act_ok_def act_simps)

lemma act_ok_attempt_bind:
  "act_ok m w P \<Longrightarrow> (\<And>r w1. P r w1 \<Longrightarrow> act_ok (f r) w1 Q) \<Longrightarrow> act_ok (act_bind (attempt m) f) w Q"
  by (auto simp: act_ok_def act_simps)

lemma act_ok_wrap: "act_ok m w Q \<Longrightarrow> (\<And>e w'. Q (Inl e) w' \<Longrightarrow> Q (Inl (pre @ e)) w') \<Longrightarrow> act_ok (wrap_err pre m) w Q"
  by (fastforce simp: act_ok_def act_simps)

subsection \<open>Actions that end\<close>

definition runs :: "('w, 'a) act \<Rightarrow> 'w \<Rightarrow> (bytes + 'a \<Rightarrow> 'w \<Rightarrow> bool) \<Rightarrow> bool" where
  "runs m w Q \<longleftrightarrow> (\<exists>r w'. m w = Done (r, w') \<and> Q r w')"

text \<open>The weakest precondition of a composed action, part by part.\<close>

named_theorems run_simps "preconditions of actions"

lemma runs_simple [run_simps]:
  "runs (ok x) w Q \<longleftrightarrow> Q (Inr x) w" "runs (fail err) w Q \<longleftrightarrow> Q (Inl err) w" "runs (lift_sum r) w Q \<longleftrightarrow> Q r w"
  by (auto simp: runs_def ok_def fail_def lift_sum_def)

lemma runs_bind [run_simps]:
  "runs (act_bind m f) w Q \<longleftrightarrow> runs m w (\<lambda>r w1. case r of Inl err \<Rightarrow> Q (Inl err) w1 | Inr x \<Rightarrow> runs (f x) w1 Q)"
proof (cases "m w")
  case (Done q)
  then show ?thesis by (cases q; cases "fst q") (auto simp: runs_def act_bind_def)
qed (auto simp: runs_def act_bind_def)

lemma runs_attempt [run_simps]: "runs (attempt m) w Q \<longleftrightarrow> runs m w (\<lambda>r. Q (Inr r))"
  by (auto simp: runs_def attempt_def)

lemma runs_mono: "runs m w P \<Longrightarrow> (\<And>r w'. P r w' \<Longrightarrow> Q r w') \<Longrightarrow> runs m w Q"
  unfolding runs_def by blast

end
