(* ===== verification/Alias_Store.thy ===== *)
theory Alias_Store
  imports Alias_Address Effects "HOL-Library.Word"
begin

section \<open>The alias store (backends/alias_store.go)\<close>

text \<open>
  The store keeps the alias index in an SQLite database. The database is outside the repository: the
  record \<open>sqlite\<close> has one action per SQL statement of the source, with its parameters, and is an
  argument of every operation; \<open>sql_ok\<close> says what the statements do to the tables, as the
  documentation of SQL and of database/sql has it. The clock is an argument too, in seconds.

  The lemmas give what the operations do to the tables: what a lookup finds after an insertion,
  which rows a purge keeps, and that a list of identifiers marked in batches is marked as a whole.
\<close>

subsection \<open>Records\<close>

record imapCursor =
  cMailbox :: bytes
  cFolder :: bytes
  cUIDValidity :: "32 word"
  cLastUID :: "32 word"
  cBaselineDone :: bool

record aliasThread =
  tMessageID :: bytes
  tReplyAs :: bytes
  tOrigFrom :: bytes
  tTenantID :: bytes
  tCreatedAt :: "int option"

record aliasStoreConfig =
  scDBPath :: bytes
  scTTL :: int
  scMaxRows :: int
  scPurgeInterval :: int

record aliasStore =
  as_db :: bool
  as_config :: aliasStoreConfig

abbreviation second :: int where "second \<equiv> 10 ^ 9"

abbreviation hour :: int where "hour \<equiv> 3600 * second"

abbreviation defaultAliasIndexTTL :: int where "defaultAliasIndexTTL \<equiv> 180 * 24 * hour"

abbreviation defaultAliasIndexMaxRows :: int where "defaultAliasIndexMaxRows \<equiv> 100000"

abbreviation defaultAliasIndexPurge :: int where "defaultAliasIndexPurge \<equiv> hour"

abbreviation aliasIndexUIDLBatchSize :: nat where "aliasIndexUIDLBatchSize \<equiv> 2000"

abbreviation aliasIndexSeenMessageBatchSize :: nat where "aliasIndexSeenMessageBatchSize \<equiv> 2000"

subsection \<open>The statements\<close>

datatype ddl = AliasThreadsSchema | AliasIndexUIDLSchema | AliasIndexStateSchema | AliasIndexIMAPCursorSchema
  | AliasIndexSeenMessageSchema | AddTenantColumn | CreateTenantIndex
  | CreateUIDLv2 | CopyUIDLv2 | DropUIDL | RenameUIDLv2

record 'w sqlite =
  q_open :: "bytes \<Rightarrow> ('w, unit) act"
  q_close :: "('w, unit) act"
  q_ddl :: "ddl \<Rightarrow> ('w, unit) act"
  q_has_column :: "bytes \<Rightarrow> bytes \<Rightarrow> ('w, int) act"
  q_upsert_thread :: "bytes \<Rightarrow> bytes \<Rightarrow> bytes \<Rightarrow> bytes \<Rightarrow> int \<Rightarrow> ('w, unit) act"
  q_select_thread :: "bytes \<Rightarrow> ('w, (bytes \<times> bytes \<times> bytes \<times> bytes \<times> int) option) act"
  q_delete_older :: "int \<Rightarrow> ('w, unit) act"
  q_count_threads :: "('w, int) act"
  q_delete_oldest :: "int \<Rightarrow> ('w, unit) act"
  q_select_state :: "bytes \<Rightarrow> ('w, bytes option) act"
  q_upsert_state :: "bytes \<Rightarrow> ('w, unit) act"
  q_exists_uidl :: "bytes \<Rightarrow> bytes \<Rightarrow> ('w, bool) act"
  q_insert_uidl :: "bytes \<Rightarrow> bytes \<Rightarrow> int \<Rightarrow> ('w, unit) act"
  q_select_uidls :: "bytes \<Rightarrow> ('w, bytes list) act"
  q_begin :: "('w, unit) act"
  q_prepare_uidl :: "('w, unit) act"
  q_tx_uidl :: "bytes \<Rightarrow> bytes \<Rightarrow> int \<Rightarrow> ('w, unit) act"
  q_prepare_seen :: "('w, unit) act"
  q_tx_seen :: "bytes \<Rightarrow> bytes \<Rightarrow> int \<Rightarrow> ('w, unit) act"
  q_rollback :: "('w, unit) act"
  q_commit :: "('w, unit) act"
  q_select_cursor :: "bytes \<Rightarrow> bytes \<Rightarrow> ('w, imapCursor option) act"
  q_upsert_cursor :: "bytes \<Rightarrow> bytes \<Rightarrow> 32 word \<Rightarrow> 32 word \<Rightarrow> int \<Rightarrow> ('w, unit) act"
  q_delete_cursor :: "bytes \<Rightarrow> bytes \<Rightarrow> ('w, unit) act"
  q_exists_seen :: "bytes \<Rightarrow> bytes \<Rightarrow> ('w, bool) act"
  q_insert_seen :: "bytes \<Rightarrow> bytes \<Rightarrow> int \<Rightarrow> ('w, unit) act"

subsection \<open>Opening\<close>

definition store_config :: "aliasStoreConfig \<Rightarrow> aliasStoreConfig" where
  "store_config cfg = cfg\<lparr>scTTL := (if scTTL cfg \<le> 0 then defaultAliasIndexTTL else scTTL cfg),
     scMaxRows := (if scMaxRows cfg \<le> 0 then defaultAliasIndexMaxRows else scMaxRows cfg),
     scPurgeInterval := (if scPurgeInterval cfg \<le> 0 then defaultAliasIndexPurge else scPurgeInterval cfg)\<rparr>"

fun exec_all :: "'w sqlite \<Rightarrow> ddl list \<Rightarrow> ('w, unit) act" where
  "exec_all D [] = ok ()"
| "exec_all D (stmt # stmts) = act_bind (q_ddl D stmt) (\<lambda>_. exec_all D stmts)"

definition migrateTenantIDColumn :: "'w sqlite \<Rightarrow> ('w, unit) act" where
  "migrateTenantIDColumn D =
     act_bind (q_has_column D ''alias_threads'' ''tenant_id'') (\<lambda>hasTenantID.
       if hasTenantID > 0 then ok ()
       else act_bind (wrap_err ''alias store migrate tenant_id: '' (q_ddl D AddTenantColumn)) (\<lambda>_.
              q_ddl D CreateTenantIndex))"

definition migrateUIDLTable :: "'w sqlite \<Rightarrow> ('w, unit) act" where
  "migrateUIDLTable D =
     act_bind (q_has_column D ''alias_index_uidl'' ''mailbox'') (\<lambda>hasMailbox.
       if hasMailbox > 0 then ok () else exec_all D [CreateUIDLv2, CopyUIDLv2, DropUIDL, RenameUIDLv2])"

definition migrate :: "'w sqlite \<Rightarrow> ('w, unit) act" where
  "migrate D =
     act_bind (wrap_err ''alias store migrate: '' (exec_all D [AliasThreadsSchema, AliasIndexUIDLSchema,
       AliasIndexStateSchema, AliasIndexIMAPCursorSchema, AliasIndexSeenMessageSchema])) (\<lambda>_.
     act_bind (migrateUIDLTable D) (\<lambda>_. migrateTenantIDColumn D))"

definition OpenAliasStore :: "'w sqlite \<Rightarrow> aliasStoreConfig \<Rightarrow> ('w, aliasStore) act" where
  "OpenAliasStore D cfg =
     (let path = trim_space (scDBPath cfg)
      in if path = [] then fail ''alias_db_path is required''
         else (let cfg = store_config cfg
               in act_bind (q_open D path) (\<lambda>_.
                  act_bind (attempt (migrate D)) (\<lambda>r.
                    case r of
                      Inl err \<Rightarrow> act_bind (attempt (q_close D)) (\<lambda>_. fail err)
                    | Inr _ \<Rightarrow> ok \<lparr>as_db = True, as_config = cfg\<rparr>))))"

definition not_open :: "aliasStore option \<Rightarrow> bool" where
  "not_open s = (case s of None \<Rightarrow> True | Some s \<Rightarrow> \<not> as_db s)"

abbreviation errNotOpen :: bytes where "errNotOpen \<equiv> ''alias store not open''"

definition store_Close :: "'w sqlite \<Rightarrow> aliasStore option \<Rightarrow> ('w, unit) act" where
  "store_Close D s = (if not_open s then ok () else q_close D)"

subsection \<open>Threads\<close>

definition UpsertThread :: "'w sqlite \<Rightarrow> int \<Rightarrow> aliasStore option \<Rightarrow> aliasThread \<Rightarrow> ('w, unit) act" where
  "UpsertThread D now_unix s thread =
     (if not_open s then fail errNotOpen
      else (let messageID = normalizeMessageID (tMessageID thread)
            in if messageID = [] then fail ''empty message_id''
               else act_bind (lift_run (normalizeEmailAddress (tReplyAs thread))) (\<lambda>replyAs.
                    act_bind (lift_run (normalizeEmailAddress (tOrigFrom thread))) (\<lambda>origFrom.
                      if replyAs = [] \<or> origFrom = [] then fail ''reply_as and orig_from are required''
                      else q_upsert_thread D messageID replyAs origFrom (trim_space (tTenantID thread))
                             (case tCreatedAt thread of None \<Rightarrow> now_unix | Some t \<Rightarrow> t)))))"

definition LookupThread :: "'w sqlite \<Rightarrow> aliasStore option \<Rightarrow> bytes \<Rightarrow> ('w, aliasThread option) act" where
  "LookupThread D s messageID =
     (if not_open s then fail errNotOpen
      else (let messageID = normalizeMessageID messageID
            in if messageID = [] then ok None
               else act_bind (q_select_thread D messageID) (\<lambda>row.
                 case row of
                   None \<Rightarrow> ok None
                 | Some (mid, replyAs, origFrom, tenantID, createdAtUnix) \<Rightarrow>
                     ok (Some \<lparr>tMessageID = mid, tReplyAs = replyAs, tOrigFrom = origFrom,
                               tTenantID = tenantID, tCreatedAt = Some createdAtUnix\<rparr>))))"

fun LookupAnyThread :: "'w sqlite \<Rightarrow> aliasStore option \<Rightarrow> bytes list \<Rightarrow> ('w, (aliasThread \<times> bytes) option) act" where
  "LookupAnyThread D s [] = ok None"
| "LookupAnyThread D s (raw # messageIDs) =
     act_bind (LookupThread D s raw) (\<lambda>thread.
       case thread of
         Some t \<Rightarrow> ok (Some (t, normalizeMessageID raw))
       | None \<Rightarrow> LookupAnyThread D s messageIDs)"

text \<open>
  \<open>PurgeExpired\<close>: the cut-off is the clock less the retention time in whole seconds. The retention
  time counts nanoseconds, so the subtraction of one with a fraction of a second rounds down.
\<close>

definition PurgeExpired :: "'w sqlite \<Rightarrow> int \<Rightarrow> aliasStore option \<Rightarrow> ('w, unit) act" where
  "PurgeExpired D now_nano s =
     (case s of None \<Rightarrow> fail errNotOpen
      | Some st \<Rightarrow>
          if \<not> as_db st then fail errNotOpen
          else (let cutoff = (now_nano - scTTL (as_config st)) div second
                in act_bind (q_delete_older D cutoff) (\<lambda>_.
                   act_bind (q_count_threads D) (\<lambda>count.
                     if count \<le> scMaxRows (as_config st) then ok ()
                     else q_delete_oldest D (count - scMaxRows (as_config st))))))"

subsection \<open>POP3 identifiers\<close>

definition HasBaseline :: "'w sqlite \<Rightarrow> aliasStore option \<Rightarrow> bytes \<Rightarrow> ('w, bool) act" where
  "HasBaseline D s key =
     (if not_open s then fail errNotOpen
      else act_bind (q_select_state D key) (\<lambda>v.
             case v of None \<Rightarrow> ok False | Some v \<Rightarrow> ok (v = ''baseline'')))"

definition SetBaseline :: "'w sqlite \<Rightarrow> aliasStore option \<Rightarrow> bytes \<Rightarrow> ('w, unit) act" where
  "SetBaseline D s key = (if not_open s then fail errNotOpen else q_upsert_state D key)"

definition IsKnownUIDL :: "'w sqlite \<Rightarrow> aliasStore option \<Rightarrow> bytes \<Rightarrow> bytes \<Rightarrow> ('w, bool) act" where
  "IsKnownUIDL D s mbox uidl =
     (if not_open s then fail errNotOpen
      else (let mbox = trim_space mbox; uidl = trim_space uidl
            in if uidl = [] then ok False else q_exists_uidl D mbox uidl))"

definition MarkUIDLKnown :: "'w sqlite \<Rightarrow> int \<Rightarrow> aliasStore option \<Rightarrow> bytes \<Rightarrow> bytes \<Rightarrow> ('w, unit) act" where
  "MarkUIDLKnown D now_unix s mbox uidl =
     (if not_open s then fail errNotOpen
      else (let mbox = trim_space mbox; uidl = trim_space uidl
            in if uidl = [] then ok () else q_insert_uidl D mbox uidl now_unix))"

text \<open>
  One transaction: the statement is prepared and run for each key that is not empty, and the first
  error rolls the transaction back. \<open>key\<close> is the conversion of an item, \<open>exec\<close> the statement.
\<close>

fun tx_items :: "'w sqlite \<Rightarrow> (bytes \<Rightarrow> bytes) \<Rightarrow> (bytes \<Rightarrow> ('w, unit) act) \<Rightarrow> bytes list \<Rightarrow> ('w, unit) act" where
  "tx_items D key exec [] = q_commit D"
| "tx_items D key exec (item # items) =
     (let k = key item
      in if k = [] then tx_items D key exec items
         else act_bind (attempt (exec k)) (\<lambda>r.
                case r of
                  Inl err \<Rightarrow> act_bind (attempt (q_rollback D)) (\<lambda>_. fail err)
                | Inr _ \<Rightarrow> tx_items D key exec items))"

definition tx_batch :: "'w sqlite \<Rightarrow> ('w, unit) act \<Rightarrow> (bytes \<Rightarrow> bytes) \<Rightarrow> (bytes \<Rightarrow> ('w, unit) act) \<Rightarrow>
    bytes list \<Rightarrow> ('w, unit) act" where
  "tx_batch D prepare key exec items =
     act_bind (q_begin D) (\<lambda>_.
     act_bind (attempt prepare) (\<lambda>r.
       case r of
         Inl err \<Rightarrow> act_bind (attempt (q_rollback D)) (\<lambda>_. fail err)
       | Inr _ \<Rightarrow> tx_items D key exec items))"

definition markUIDLsKnownBatch :: "'w sqlite \<Rightarrow> int \<Rightarrow> aliasStore option \<Rightarrow> bytes \<Rightarrow> bytes list \<Rightarrow> ('w, unit) act" where
  "markUIDLsKnownBatch D now_unix s mbox uidls =
     (if uidls = [] then ok ()
      else if not_open s then (\<lambda>w. Crash ''nil pointer dereference'')
      else tx_batch D (q_prepare_uidl D) trim_space (\<lambda>uidl. q_tx_uidl D mbox uidl now_unix) uidls)"

text \<open>The loop over the slices \<open>items[start:end]\<close> of at most \<open>n\<close> items.\<close>

function batches :: "nat \<Rightarrow> (bytes list \<Rightarrow> ('w, unit) act) \<Rightarrow> bytes list \<Rightarrow> ('w, unit) act" where
  "batches n f items =
     (if items = [] \<or> n = 0 then ok () else act_bind (f (take n items)) (\<lambda>_. batches n f (drop n items)))"
  by pat_completeness auto
termination by (relation "measure (\<lambda>(n, f, items). length items)") auto

declare batches.simps [simp del]

definition MarkUIDLsKnown :: "'w sqlite \<Rightarrow> int \<Rightarrow> aliasStore option \<Rightarrow> bytes \<Rightarrow> bytes list \<Rightarrow> ('w, unit) act" where
  "MarkUIDLsKnown D now_unix s mbox uidls =
     (if uidls = [] then ok ()
      else batches aliasIndexUIDLBatchSize (markUIDLsKnownBatch D now_unix s (trim_space mbox)) uidls)"

definition KnownUIDLsForMailbox :: "'w sqlite \<Rightarrow> aliasStore option \<Rightarrow> bytes \<Rightarrow> ('w, bytes set) act" where
  "KnownUIDLsForMailbox D s mbox =
     (if not_open s then fail errNotOpen
      else act_bind (q_select_uidls D (trim_space mbox)) (\<lambda>rows. ok (set rows)))"

subsection \<open>IMAP cursors\<close>

definition GetIMAPCursor :: "'w sqlite \<Rightarrow> aliasStore option \<Rightarrow> bytes \<Rightarrow> bytes \<Rightarrow> ('w, imapCursor option) act" where
  "GetIMAPCursor D s mbox folder =
     (if not_open s then fail errNotOpen else q_select_cursor D (trim_space mbox) (trim_space folder))"

definition SetIMAPCursor :: "'w sqlite \<Rightarrow> aliasStore option \<Rightarrow> imapCursor \<Rightarrow> ('w, unit) act" where
  "SetIMAPCursor D s cursor =
     (if not_open s then fail errNotOpen
      else q_upsert_cursor D (trim_space (cMailbox cursor)) (trim_space (cFolder cursor))
             (cUIDValidity cursor) (cLastUID cursor) (if cBaselineDone cursor then 1 else 0))"

definition DeleteIMAPCursor :: "'w sqlite \<Rightarrow> aliasStore option \<Rightarrow> bytes \<Rightarrow> bytes \<Rightarrow> ('w, unit) act" where
  "DeleteIMAPCursor D s mbox folder =
     (if not_open s then fail errNotOpen else q_delete_cursor D (trim_space mbox) (trim_space folder))"

subsection \<open>Seen messages\<close>

definition IsSeenMessage :: "'w sqlite \<Rightarrow> aliasStore option \<Rightarrow> bytes \<Rightarrow> bytes \<Rightarrow> ('w, bool) act" where
  "IsSeenMessage D s mbox messageID =
     (if not_open s then fail errNotOpen
      else (let messageID = normalizeMessageID messageID
            in if messageID = [] then ok False else q_exists_seen D (trim_space mbox) messageID))"

definition MarkSeenMessage :: "'w sqlite \<Rightarrow> int \<Rightarrow> aliasStore option \<Rightarrow> bytes \<Rightarrow> bytes \<Rightarrow> ('w, unit) act" where
  "MarkSeenMessage D now_unix s mbox messageID =
     (if not_open s then fail errNotOpen
      else (let messageID = normalizeMessageID messageID
            in if messageID = [] then ok () else q_insert_seen D (trim_space mbox) messageID now_unix))"

definition markSeenMessagesBatch :: "'w sqlite \<Rightarrow> int \<Rightarrow> aliasStore option \<Rightarrow> bytes \<Rightarrow> bytes list \<Rightarrow> ('w, unit) act" where
  "markSeenMessagesBatch D now_unix s mbox messageIDs =
     (if messageIDs = [] then ok ()
      else if not_open s then (\<lambda>w. Crash ''nil pointer dereference'')
      else tx_batch D (q_prepare_seen D) normalizeMessageID (\<lambda>messageID. q_tx_seen D mbox messageID now_unix) messageIDs)"

definition MarkSeenMessages :: "'w sqlite \<Rightarrow> int \<Rightarrow> aliasStore option \<Rightarrow> bytes \<Rightarrow> bytes list \<Rightarrow> ('w, unit) act" where
  "MarkSeenMessages D now_unix s mbox messageIDs =
     (if messageIDs = [] then ok ()
      else batches aliasIndexSeenMessageBatchSize (markSeenMessagesBatch D now_unix s (trim_space mbox)) messageIDs)"

subsection \<open>Durations\<close>

text \<open>
  \<open>time.ParseDuration\<close> is the argument \<open>parseDuration\<close>. The product of a number of days wraps around at
  64 bits, as the product of two Go integers does.
\<close>

definition wrap64 :: "int \<Rightarrow> int" where
  "wrap64 i = (i + 2 ^ 63) mod 2 ^ 64 - 2 ^ 63"

definition ParseAliasDuration :: "(bytes \<Rightarrow> bytes + int) \<Rightarrow> bytes \<Rightarrow> bytes + int" where
  "ParseAliasDuration parseDuration s =
     (let s = trim_space s
      in if s = [] then Inr 0
         else if has_suffix s ''d'' then
           (case atoi (butlast s) of
              None \<Rightarrow> Inl (''invalid day duration '' @ go_quote s @ '': '' @ atoi_error (butlast s))
            | Some days \<Rightarrow> Inr (wrap64 (wrap64 (days * 24) * hour)))
         else parseDuration s)"

subsection \<open>What the statements do\<close>

text \<open>
  The tables as maps from their primary keys to the other columns. A statement that fails changes
  nothing; an insertion with \<open>ON CONFLICT DO NOTHING\<close> keeps the row that is there; the deletion of
  the \<open>n\<close> oldest rows takes rows that are not newer than any row it leaves, and the order of rows of
  the same second is left open. A transaction works on a copy of the tables that \<open>Commit\<close> installs.
\<close>

record tables =
  T_threads :: "bytes \<rightharpoonup> (bytes \<times> bytes \<times> bytes \<times> int)"
  T_uidl :: "bytes \<times> bytes \<rightharpoonup> int"
  T_state :: "bytes \<rightharpoonup> bytes"
  T_cursor :: "bytes \<times> bytes \<rightharpoonup> (32 word \<times> 32 word \<times> int)"
  T_seen :: "bytes \<times> bytes \<rightharpoonup> int"

abbreviation created :: "(bytes \<times> bytes \<times> bytes \<times> int) option \<Rightarrow> int" where
  "created row \<equiv> snd (snd (snd (the row)))"

definition insert_new :: "'k \<Rightarrow> 'v \<Rightarrow> ('k \<rightharpoonup> 'v) \<Rightarrow> ('k \<rightharpoonup> 'v)" where
  "insert_new k v m = (if m k = None then m(k \<mapsto> v) else m)"

definition exec_law :: "('w \<Rightarrow> tables) \<Rightarrow> ('w, unit) act \<Rightarrow> (tables \<Rightarrow> tables) \<Rightarrow> bool" where
  "exec_law \<alpha> m F \<longleftrightarrow> (\<forall>w. act_ok m w (\<lambda>r w'. case r of Inl e \<Rightarrow> \<alpha> w' = \<alpha> w | Inr _ \<Rightarrow> \<alpha> w' = F (\<alpha> w)))"

definition query_law :: "('w \<Rightarrow> tables) \<Rightarrow> ('w, 'a) act \<Rightarrow> (tables \<Rightarrow> 'a) \<Rightarrow> bool" where
  "query_law \<alpha> m Q \<longleftrightarrow> (\<forall>w. act_ok m w (\<lambda>r w'. \<alpha> w' = \<alpha> w \<and> (case r of Inl e \<Rightarrow> True | Inr x \<Rightarrow> x = Q (\<alpha> w))))"

definition oldest_rows :: "int \<Rightarrow> tables \<Rightarrow> bytes set \<Rightarrow> bool" where
  "oldest_rows n t S \<longleftrightarrow> S \<subseteq> dom (T_threads t) \<and> int (card S) = min (max n 0) (int (card (dom (T_threads t))))
     \<and> (\<forall>k \<in> S. \<forall>k' \<in> dom (T_threads t) - S. created (T_threads t k) \<le> created (T_threads t k'))"

definition thread_laws :: "'w sqlite \<Rightarrow> ('w \<Rightarrow> tables) \<Rightarrow> bool" where
  "thread_laws D \<alpha> \<longleftrightarrow>
     (\<forall>w. finite (dom (T_threads (\<alpha> w))))
     \<and> (\<forall>mid ra fr tid ts. exec_law \<alpha> (q_upsert_thread D mid ra fr tid ts)
          (\<lambda>t. t\<lparr>T_threads := (T_threads t)(mid \<mapsto> (ra, fr, tid, ts))\<rparr>))
     \<and> (\<forall>mid. query_law \<alpha> (q_select_thread D mid) (\<lambda>t. map_option (\<lambda>r. (mid, r)) (T_threads t mid)))
     \<and> (\<forall>c. exec_law \<alpha> (q_delete_older D c)
          (\<lambda>t. t\<lparr>T_threads := (\<lambda>k. if T_threads t k \<noteq> None \<and> created (T_threads t k) < c then None else T_threads t k)\<rparr>))
     \<and> query_law \<alpha> (q_count_threads D) (\<lambda>t. int (card (dom (T_threads t))))
     \<and> (\<forall>n w. act_ok (q_delete_oldest D n) w (\<lambda>r w'. case r of
          Inl e \<Rightarrow> \<alpha> w' = \<alpha> w
        | Inr _ \<Rightarrow> (\<exists>S. oldest_rows n (\<alpha> w) S \<and> \<alpha> w' = (\<alpha> w)\<lparr>T_threads := T_threads (\<alpha> w) |` (- S)\<rparr>)))"

definition mark_laws :: "'w sqlite \<Rightarrow> ('w \<Rightarrow> tables) \<Rightarrow> bool" where
  "mark_laws D \<alpha> \<longleftrightarrow>
     (\<forall>k. query_law \<alpha> (q_select_state D k) (\<lambda>t. T_state t k))
     \<and> (\<forall>k. exec_law \<alpha> (q_upsert_state D k) (\<lambda>t. t\<lparr>T_state := (T_state t)(k \<mapsto> ''baseline'')\<rparr>))
     \<and> (\<forall>m u. query_law \<alpha> (q_exists_uidl D m u) (\<lambda>t. T_uidl t (m, u) \<noteq> None))
     \<and> (\<forall>m u ts. exec_law \<alpha> (q_insert_uidl D m u ts) (\<lambda>t. t\<lparr>T_uidl := insert_new (m, u) ts (T_uidl t)\<rparr>))
     \<and> (\<forall>m w. act_ok (q_select_uidls D m) w (\<lambda>r w'. \<alpha> w' = \<alpha> w
          \<and> (case r of Inl e \<Rightarrow> True | Inr us \<Rightarrow> set us = {u. T_uidl (\<alpha> w) (m, u) \<noteq> None})))
     \<and> (\<forall>m u. query_law \<alpha> (q_exists_seen D m u) (\<lambda>t. T_seen t (m, u) \<noteq> None))
     \<and> (\<forall>m u ts. exec_law \<alpha> (q_insert_seen D m u ts) (\<lambda>t. t\<lparr>T_seen := insert_new (m, u) ts (T_seen t)\<rparr>))"

definition cursor_laws :: "'w sqlite \<Rightarrow> ('w \<Rightarrow> tables) \<Rightarrow> bool" where
  "cursor_laws D \<alpha> \<longleftrightarrow>
     (\<forall>m f. query_law \<alpha> (q_select_cursor D m f)
        (\<lambda>t. map_option (\<lambda>(v, u, b). \<lparr>cMailbox = m, cFolder = f, cUIDValidity = v, cLastUID = u, cBaselineDone = b \<noteq> 0\<rparr>)
               (T_cursor t (m, f))))
     \<and> (\<forall>m f v u b. exec_law \<alpha> (q_upsert_cursor D m f v u b) (\<lambda>t. t\<lparr>T_cursor := (T_cursor t)((m, f) \<mapsto> (v, u, b))\<rparr>))
     \<and> (\<forall>m f. exec_law \<alpha> (q_delete_cursor D m f) (\<lambda>t. t\<lparr>T_cursor := (T_cursor t)((m, f) := None)\<rparr>))"

text \<open>\<open>\<tau>\<close> is the copy the running transaction works on.\<close>

definition tx_step :: "('w \<Rightarrow> tables) \<Rightarrow> ('w \<Rightarrow> tables) \<Rightarrow> ('w, unit) act \<Rightarrow> (tables \<Rightarrow> tables) \<Rightarrow> bool" where
  "tx_step \<alpha> \<tau> m F \<longleftrightarrow> (\<forall>w. act_ok m w (\<lambda>r w'. \<alpha> w' = \<alpha> w \<and> (case r of Inl e \<Rightarrow> True | Inr _ \<Rightarrow> \<tau> w' = F (\<tau> w))))"

definition tx_laws :: "'w sqlite \<Rightarrow> ('w \<Rightarrow> tables) \<Rightarrow> ('w \<Rightarrow> tables) \<Rightarrow> bool" where
  "tx_laws D \<alpha> \<tau> \<longleftrightarrow>
     (\<forall>w. act_ok (q_begin D) w (\<lambda>r w'. \<alpha> w' = \<alpha> w \<and> (case r of Inl e \<Rightarrow> True | Inr _ \<Rightarrow> \<tau> w' = \<alpha> w)))
     \<and> tx_step \<alpha> \<tau> (q_prepare_uidl D) id \<and> tx_step \<alpha> \<tau> (q_prepare_seen D) id
     \<and> (\<forall>m u ts. tx_step \<alpha> \<tau> (q_tx_uidl D m u ts) (\<lambda>t. t\<lparr>T_uidl := insert_new (m, u) ts (T_uidl t)\<rparr>))
     \<and> (\<forall>m u ts. tx_step \<alpha> \<tau> (q_tx_seen D m u ts) (\<lambda>t. t\<lparr>T_seen := insert_new (m, u) ts (T_seen t)\<rparr>))
     \<and> exec_law \<alpha> (q_rollback D) id
     \<and> (\<forall>w. act_ok (q_commit D) w (\<lambda>r w'. case r of Inl e \<Rightarrow> \<alpha> w' = \<alpha> w | Inr _ \<Rightarrow> \<alpha> w' = \<tau> w))"

definition sql_ok :: "'w sqlite \<Rightarrow> ('w \<Rightarrow> tables) \<Rightarrow> ('w \<Rightarrow> tables) \<Rightarrow> bool" where
  "sql_ok D \<alpha> \<tau> \<longleftrightarrow> thread_laws D \<alpha> \<and> mark_laws D \<alpha> \<and> cursor_laws D \<alpha> \<and> tx_laws D \<alpha> \<tau>"

lemma exec_lawD:
  "exec_law \<alpha> m F \<Longrightarrow> m w = Done (r, w') \<Longrightarrow> \<alpha> w' = (case r of Inl e \<Rightarrow> \<alpha> w | Inr _ \<Rightarrow> F (\<alpha> w))"
  by (auto simp: exec_law_def act_ok_def split: sum.splits)

lemma query_lawD:
  "query_law \<alpha> m Q \<Longrightarrow> m w = Done (r, w') \<Longrightarrow> \<alpha> w' = \<alpha> w \<and> (\<forall>x. r = Inr x \<longrightarrow> x = Q (\<alpha> w))"
  by (auto simp: query_law_def act_ok_def split: sum.splits)

subsection \<open>Threads: insertion and lookup\<close>

lemma thread_lawsD:
  assumes "sql_ok D \<alpha> \<tau>"
  shows "finite (dom (T_threads (\<alpha> w)))"
    "exec_law \<alpha> (q_upsert_thread D mid ra fr tid ts) (\<lambda>t. t\<lparr>T_threads := (T_threads t)(mid \<mapsto> (ra, fr, tid, ts))\<rparr>)"
    "query_law \<alpha> (q_select_thread D mid) (\<lambda>t. map_option (\<lambda>r. (mid, r)) (T_threads t mid))"
    "exec_law \<alpha> (q_delete_older D c)
       (\<lambda>t. t\<lparr>T_threads := (\<lambda>k. if T_threads t k \<noteq> None \<and> created (T_threads t k) < c then None else T_threads t k)\<rparr>)"
    "query_law \<alpha> (q_count_threads D) (\<lambda>t. int (card (dom (T_threads t))))"
  using assms by (auto simp: sql_ok_def thread_laws_def)

lemma delete_oldestD:
  assumes "sql_ok D \<alpha> \<tau>" and "q_delete_oldest D n w = Done (Inr x, w')"
  obtains S where "oldest_rows n (\<alpha> w) S" and "\<alpha> w' = (\<alpha> w)\<lparr>T_threads := T_threads (\<alpha> w) |` (- S)\<rparr>"
proof -
  have "act_ok (q_delete_oldest D n) w (\<lambda>r w'. case r of
      Inl e \<Rightarrow> \<alpha> w' = \<alpha> w
    | Inr _ \<Rightarrow> (\<exists>S. oldest_rows n (\<alpha> w) S \<and> \<alpha> w' = (\<alpha> w)\<lparr>T_threads := T_threads (\<alpha> w) |` (- S)\<rparr>))"
    using assms(1) by (simp add: sql_ok_def thread_laws_def)
  from act_okD [OF this assms(2)] that show ?thesis by auto
qed

definition stored_thread :: "int \<Rightarrow> aliasThread \<Rightarrow> bytes \<Rightarrow> bytes \<Rightarrow> bytes \<times> bytes \<times> bytes \<times> int" where
  "stored_thread now_unix th ra fr = (ra, fr, trim_space (tTenantID th),
     (case tCreatedAt th of None \<Rightarrow> now_unix | Some t \<Rightarrow> t))"

lemma UpsertThread_ok:
  assumes "sql_ok D \<alpha> \<tau>" and "UpsertThread D now_unix s th w = Done (Inr x, w1)"
  obtains ra fr where "normalizeEmailAddress (tReplyAs th) = Done ra" and "normalizeEmailAddress (tOrigFrom th) = Done fr"
    and "ra \<noteq> []" and "fr \<noteq> []" and "normalizeMessageID (tMessageID th) \<noteq> []" and "\<not> not_open s"
    and "\<alpha> w1 = (\<alpha> w)\<lparr>T_threads := (T_threads (\<alpha> w))(normalizeMessageID (tMessageID th) \<mapsto> stored_thread now_unix th ra fr)\<rparr>"
proof -
  from assms(2) obtain ra fr where h: "normalizeEmailAddress (tReplyAs th) = Done ra"
      "normalizeEmailAddress (tOrigFrom th) = Done fr" "ra \<noteq> []" "fr \<noteq> []"
      "normalizeMessageID (tMessageID th) \<noteq> []" "\<not> not_open s"
    and u: "q_upsert_thread D (normalizeMessageID (tMessageID th)) ra fr (trim_space (tTenantID th))
      (case tCreatedAt th of None \<Rightarrow> now_unix | Some t \<Rightarrow> t) w = Done (Inr x, w1)"
    by (auto simp: UpsertThread_def Let_def act_simps split: if_splits)
  from that [OF h] exec_lawD [OF thread_lawsD(2) [OF assms(1)] u] show ?thesis by (simp add: stored_thread_def)
qed

lemma LookupThread_ok:
  assumes "sql_ok D \<alpha> \<tau>" and "LookupThread D s mid w = Done (Inr r, w')"
  shows "\<alpha> w' = \<alpha> w \<and> r = (if normalizeMessageID mid = [] then None
     else map_option (\<lambda>(ra, fr, tid, ts). \<lparr>tMessageID = normalizeMessageID mid, tReplyAs = ra, tOrigFrom = fr,
            tTenantID = tid, tCreatedAt = Some ts\<rparr>) (T_threads (\<alpha> w) (normalizeMessageID mid)))"
proof (cases "normalizeMessageID mid = []")
  case True
  then show ?thesis using assms(2) by (auto simp: LookupThread_def act_simps split: if_splits)
next
  case False
  with assms(2) obtain row w1 where q: "q_select_thread D (normalizeMessageID mid) w = Done (Inr row, w1)"
      "(case row of None \<Rightarrow> ok None | Some (mid, replyAs, origFrom, tenantID, createdAtUnix) \<Rightarrow>
        ok (Some \<lparr>tMessageID = mid, tReplyAs = replyAs, tOrigFrom = origFrom, tTenantID = tenantID,
                 tCreatedAt = Some createdAtUnix\<rparr>)) w1 = Done (Inr r, w')"
    by (auto simp: LookupThread_def Let_def act_simps split: if_splits)
  from query_lawD [OF thread_lawsD(3) [OF assms(1)] q(1)] q(2) False show ?thesis
    by (cases "T_threads (\<alpha> w) (normalizeMessageID mid)") (auto simp: act_simps)
qed

text \<open>
  C25: What the store finds after it has stored a thread: a lookup with any Message-ID of the same
  normal form gives the thread with its addresses in their normal form, the tenant id it was stored
  with and its time, and no other entry of the index has changed.
\<close>

theorem thread_roundtrip:
  assumes "sql_ok D \<alpha> \<tau>" and "UpsertThread D now_unix s th w = Done (Inr (), w1)"
    and "normalizeMessageID mid = normalizeMessageID (tMessageID th)"
    and "LookupThread D s mid w1 = Done (Inr r, w2)"
  shows "(\<exists>ra fr. normalizeEmailAddress (tReplyAs th) = Done ra \<and> normalizeEmailAddress (tOrigFrom th) = Done fr
      \<and> r = Some \<lparr>tMessageID = normalizeMessageID mid, tReplyAs = ra, tOrigFrom = fr, tTenantID = trim_space (tTenantID th),
                  tCreatedAt = Some (case tCreatedAt th of None \<Rightarrow> now_unix | Some t \<Rightarrow> t)\<rparr>)
    \<and> (\<forall>k. k \<noteq> normalizeMessageID mid \<longrightarrow> T_threads (\<alpha> w2) k = T_threads (\<alpha> w) k)"
proof -
  obtain ra fr where u: "normalizeEmailAddress (tReplyAs th) = Done ra" "normalizeEmailAddress (tOrigFrom th) = Done fr"
      "normalizeMessageID (tMessageID th) \<noteq> []"
      "\<alpha> w1 = (\<alpha> w)\<lparr>T_threads := (T_threads (\<alpha> w))(normalizeMessageID (tMessageID th) \<mapsto> stored_thread now_unix th ra fr)\<rparr>"
    using UpsertThread_ok [OF assms(1,2)] by metis
  from LookupThread_ok [OF assms(1,4)] u assms(3) show ?thesis by (auto simp: stored_thread_def)
qed

subsection \<open>Purging\<close>

lemma card_restrict: "finite (dom m) \<Longrightarrow> S \<subseteq> dom m \<Longrightarrow> card (dom (m |` (- S))) = card (dom m) - card S"
proof -
  assume m: "finite (dom m)" "S \<subseteq> dom m"
  have "dom (m |` (- S)) = dom m - S" by auto
  then show ?thesis using m by (simp add: card_Diff_subset finite_subset)
qed

text \<open>
  A purge that succeeds leaves only rows that were there and are not older than the retention
  time, at most \<open>MaxRows\<close> of them, and a row it removed is older than the retention time or not newer
  than any row it left; the other tables are as they were.
\<close>

theorem purge_bounds:
  assumes "sql_ok D \<alpha> \<tau>" and "PurgeExpired D now_nano (Some st) w = Done (Inr (), w')" and "0 \<le> scMaxRows (as_config st)"
  shows "(let cutoff = (now_nano - scTTL (as_config st)) div second; T = T_threads (\<alpha> w); T' = T_threads (\<alpha> w')
    in T' \<subseteq>\<^sub>m T \<and> (\<forall>k \<in> dom T'. cutoff \<le> created (T' k))
       \<and> int (card (dom T')) \<le> scMaxRows (as_config st)
       \<and> (\<forall>k \<in> dom T - dom T'. created (T k) < cutoff \<or> (\<forall>k' \<in> dom T'. created (T k) \<le> created (T' k')))
       \<and> \<alpha> w' = (\<alpha> w)\<lparr>T_threads := T'\<rparr>)"
proof -
  define cutoff where "cutoff = (now_nano - scTTL (as_config st)) div second"
  define T where "T = T_threads (\<alpha> w)"
  define T1 where "T1 = (\<lambda>k. if T k \<noteq> None \<and> created (T k) < cutoff then None else T k)"
  let ?max = "scMaxRows (as_config st)"
  from assms(2) obtain w1 n w2 where q: "q_delete_older D cutoff w = Done (Inr (), w1)"
      "q_count_threads D w1 = Done (Inr n, w2)"
      "(if n \<le> ?max then ok () else q_delete_oldest D (n - ?max)) w2 = Done (Inr (), w')"
    by (auto simp: PurgeExpired_def Let_def act_simps cutoff_def split: if_splits)
  have a1: "\<alpha> w1 = (\<alpha> w)\<lparr>T_threads := T1\<rparr>"
    using exec_lawD [OF thread_lawsD(4) [OF assms(1)] q(1)] unfolding T1_def T_def by simp
  have n: "n = int (card (dom T1))" and a2: "\<alpha> w2 = (\<alpha> w)\<lparr>T_threads := T1\<rparr>"
    using query_lawD [OF thread_lawsD(5) [OF assms(1)] q(2)] a1 by simp_all
  have le: "T1 \<subseteq>\<^sub>m T" by (auto simp: T1_def map_le_def dom_def)
  have fin: "finite (dom T1)" using thread_lawsD(1) [OF assms(1), of w1] a1 by simp
  have new: "cutoff \<le> created (T1 k)" if "k \<in> dom T1" for k
    using that by (auto simp: T1_def dom_def split: if_splits)
  have old: "created (T k) < cutoff" if "k \<in> dom T - dom T1" for k
    using that by (auto simp: T1_def dom_def split: if_splits)
  show ?thesis
  proof (cases "n \<le> ?max")
    case True
    with q(3) a2 have "\<alpha> w' = (\<alpha> w)\<lparr>T_threads := T1\<rparr>" by (simp add: act_simps)
    with le new old n True show ?thesis
      unfolding Let_def cutoff_def [symmetric] T_def [symmetric] by simp
  next
    case False
    with q(3) have "q_delete_oldest D (n - ?max) w2 = Done (Inr (), w')" by simp
    from delete_oldestD [OF assms(1) this] a2 obtain S
      where S: "oldest_rows (n - ?max) (\<alpha> w2) S" "\<alpha> w' = (\<alpha> w)\<lparr>T_threads := T1 |` (- S)\<rparr>" by auto
    have S1: "S \<subseteq> dom T1" "int (card S) = min (max (n - ?max) 0) n"
      "\<forall>k \<in> S. \<forall>k' \<in> dom T1 - S. created (T1 k) \<le> created (T1 k')"
      using S(1) a2 n by (simp_all add: oldest_rows_def)
    have "card S \<le> card (dom T1)" using S1(1) fin by (rule card_mono [rotated])
    then have c: "int (card (dom (T1 |` (- S)))) \<le> ?max"
      using card_restrict [OF fin S1(1)] S1(2) n assms(3) by auto
    have sub: "T1 |` (- S) \<subseteq>\<^sub>m T" using le by (auto simp: map_le_def dom_def restrict_map_def)
    have gone: "created (T k) < cutoff \<or> (\<forall>k' \<in> dom (T1 |` (- S)). created (T k) \<le> created ((T1 |` (- S)) k'))"
      if "k \<in> dom T - dom (T1 |` (- S))" for k
    proof (cases "k \<in> dom T1")
      case True
      with that have "k \<in> S" by auto
      moreover have "T k = T1 k" using True le by (auto simp: map_le_def)
      ultimately show ?thesis using S1(3) by (auto simp: restrict_map_def dom_def split: if_splits)
    qed (use that old in auto)
    have keep: "cutoff \<le> created ((T1 |` (- S)) k)" if "k \<in> dom (T1 |` (- S))" for k
      using that new [of k] by (auto simp: restrict_map_def dom_def split: if_splits)
    show ?thesis
      unfolding Let_def cutoff_def [symmetric] T_def [symmetric] using S(2) sub keep c gone by simp
  qed
qed

subsection \<open>Marking in batches\<close>

definition marks :: "(bytes \<Rightarrow> bytes) \<Rightarrow> (bytes \<Rightarrow> tables \<Rightarrow> tables) \<Rightarrow> bytes list \<Rightarrow> tables \<Rightarrow> tables" where
  "marks key F items t = fold (\<lambda>i t. if key i = [] then t else F (key i) t) items t"

lemma marks_simps [simp]:
  "marks key F [] t = t"
  "marks key F (i # items) t = marks key F items (if key i = [] then t else F (key i) t)"
  by (simp_all add: marks_def)

lemma marks_append: "marks key F (xs @ ys) t = marks key F ys (marks key F xs t)"
  by (simp add: marks_def)

lemma tx_lawsD:
  assumes "sql_ok D \<alpha> \<tau>"
  shows "act_ok (q_begin D) w (\<lambda>r w'. \<alpha> w' = \<alpha> w \<and> (case r of Inl e \<Rightarrow> True | Inr _ \<Rightarrow> \<tau> w' = \<alpha> w))"
    "act_ok (q_commit D) w (\<lambda>r w'. case r of Inl e \<Rightarrow> \<alpha> w' = \<alpha> w | Inr _ \<Rightarrow> \<alpha> w' = \<tau> w)"
    "tx_step \<alpha> \<tau> (q_prepare_uidl D) id" "tx_step \<alpha> \<tau> (q_prepare_seen D) id"
    "tx_step \<alpha> \<tau> (q_tx_uidl D m u ts) (\<lambda>t. t\<lparr>T_uidl := insert_new (m, u) ts (T_uidl t)\<rparr>)"
    "tx_step \<alpha> \<tau> (q_tx_seen D m u ts) (\<lambda>t. t\<lparr>T_seen := insert_new (m, u) ts (T_seen t)\<rparr>)"
    "exec_law \<alpha> (q_rollback D) id"
  using assms by (simp_all add: sql_ok_def tx_laws_def)

definition all_or_nothing :: "('w \<Rightarrow> tables) \<Rightarrow> tables \<Rightarrow> tables \<Rightarrow> bytes + unit \<Rightarrow> 'w \<Rightarrow> bool" where
  "all_or_nothing \<alpha> t t' r w' \<longleftrightarrow> \<alpha> w' = (case r of Inl e \<Rightarrow> t | Inr _ \<Rightarrow> t')"

lemma all_or_nothing_simps [simp]:
  "all_or_nothing \<alpha> t t' (Inl e) w' \<longleftrightarrow> \<alpha> w' = t" "all_or_nothing \<alpha> t t' (Inr u) w' \<longleftrightarrow> \<alpha> w' = t'"
  by (simp_all add: all_or_nothing_def)

lemma rollback_fails:
  assumes "sql_ok D \<alpha> \<tau>" and "\<alpha> w = t"
  shows "act_ok (act_bind (attempt (q_rollback D)) (\<lambda>_. fail err)) w (all_or_nothing \<alpha> t t')"
proof (rule act_ok_attempt_bind [where P = "\<lambda>r w'. \<alpha> w' = t"])
  show "act_ok (q_rollback D) w (\<lambda>r w'. \<alpha> w' = t)"
    using exec_lawD [OF tx_lawsD(7) [OF assms(1)]] assms(2) by (fastforce simp: act_ok_def split: sum.splits)
qed simp

lemma tx_items_ok:
  assumes "sql_ok D \<alpha> \<tau>" and "\<And>k. tx_step \<alpha> \<tau> (exec k) (F k)" and "\<alpha> w = t"
  shows "act_ok (tx_items D key exec items) w (all_or_nothing \<alpha> t (marks key F items (\<tau> w)))"
  using assms(3)
proof (induction items arbitrary: w)
  case Nil
  have "act_ok (q_commit D) w (all_or_nothing \<alpha> t (\<tau> w))"
    by (rule act_ok_mono [OF tx_lawsD(2) [OF assms(1)]]) (use Nil in \<open>auto simp: all_or_nothing_def split: sum.splits\<close>)
  then show ?case by simp
next
  case (Cons i items)
  show ?case
  proof (cases "key i = []")
    case False
    have step: "act_ok (exec (key i)) w (\<lambda>r w'. \<alpha> w' = t \<and> (case r of Inl e \<Rightarrow> True | Inr _ \<Rightarrow> \<tau> w' = F (key i) (\<tau> w)))"
      using assms(2) [of "key i"] Cons.prems by (auto simp: tx_step_def)
    show ?thesis
      unfolding tx_items.simps Let_def if_not_P [OF False]
    proof (rule act_ok_attempt_bind [OF step])
      fix r :: "bytes + unit" and w1
      assume "\<alpha> w1 = t \<and> (case r of Inl e \<Rightarrow> True | Inr _ \<Rightarrow> \<tau> w1 = F (key i) (\<tau> w))"
      then show "act_ok (case r of Inl err \<Rightarrow> act_bind (attempt (q_rollback D)) (\<lambda>_. fail err)
          | Inr _ \<Rightarrow> tx_items D key exec items) w1 (all_or_nothing \<alpha> t (marks key F (i # items) (\<tau> w)))"
        using rollback_fails [OF assms(1), of w1 t] Cons.IH [of w1] False by (cases r) auto
    qed
  qed (use Cons in simp)
qed

lemma tx_batch_ok:
  assumes "sql_ok D \<alpha> \<tau>" and "tx_step \<alpha> \<tau> prepare id" and "\<And>k. tx_step \<alpha> \<tau> (exec k) (F k)"
  shows "act_ok (tx_batch D prepare key exec items) w (all_or_nothing \<alpha> (\<alpha> w) (marks key F items (\<alpha> w)))"
  unfolding tx_batch_def
proof (rule act_ok_bind [OF tx_lawsD(1) [OF assms(1)]])
  fix u w1
  assume 1: "\<alpha> w1 = \<alpha> w \<and> (case Inr u of Inl (e :: bytes) \<Rightarrow> True | Inr _ \<Rightarrow> \<tau> w1 = \<alpha> w)"
  have p: "act_ok prepare w1 (\<lambda>r w'. \<alpha> w' = \<alpha> w1 \<and> (case r of Inl e \<Rightarrow> True | Inr _ \<Rightarrow> \<tau> w' = id (\<tau> w1)))"
    using assms(2) by (simp add: tx_step_def)
  show "act_ok (act_bind (attempt prepare) (\<lambda>r. case r of Inl err \<Rightarrow> act_bind (attempt (q_rollback D)) (\<lambda>_. fail err)
      | Inr _ \<Rightarrow> tx_items D key exec items)) w1 (all_or_nothing \<alpha> (\<alpha> w) (marks key F items (\<alpha> w)))"
  proof (rule act_ok_attempt_bind [OF p])
    fix r :: "bytes + unit" and w2
    assume "\<alpha> w2 = \<alpha> w1 \<and> (case r of Inl e \<Rightarrow> True | Inr _ \<Rightarrow> \<tau> w2 = id (\<tau> w1))"
    then show "act_ok (case r of Inl err \<Rightarrow> act_bind (attempt (q_rollback D)) (\<lambda>_. fail err)
        | Inr _ \<Rightarrow> tx_items D key exec items) w2 (all_or_nothing \<alpha> (\<alpha> w) (marks key F items (\<alpha> w)))"
      using 1 rollback_fails [OF assms(1), of w2 "\<alpha> w"] tx_items_ok [OF assms(1,3), where w = w2 and t = "\<alpha> w" and key = key and items = items]
      by (cases r) auto
  qed
qed simp

text \<open>Every prefix of whole batches is marked or not as one; without an error all of them are.\<close>

definition batched :: "nat \<Rightarrow> ('w \<Rightarrow> tables) \<Rightarrow> (bytes list \<Rightarrow> tables \<Rightarrow> tables) \<Rightarrow> bytes list \<Rightarrow> tables \<Rightarrow>
    bytes + unit \<Rightarrow> 'w \<Rightarrow> bool" where
  "batched n \<alpha> G items t r w' \<longleftrightarrow>
     (\<exists>j. \<alpha> w' = G (take (j * n) items) t \<and> ((\<exists>x. r = Inr x) \<longrightarrow> length items \<le> j * n))"

lemma batches_ok:
  assumes "\<And>items w. length items \<le> n \<Longrightarrow> items \<noteq> [] \<Longrightarrow> act_ok (f items) w (all_or_nothing \<alpha> (\<alpha> w) (G items (\<alpha> w)))"
    and "\<And>t. G [] t = t" and "\<And>xs ys t. G (xs @ ys) t = G ys (G xs t)" and "0 < n"
  shows "act_ok (batches n f items) w (batched n \<alpha> G items (\<alpha> w))"
proof (induction "length items" arbitrary: items w rule: less_induct)
  case less
  show ?case
  proof (cases "items = []")
    case True
    then show ?thesis using assms(2) by (subst batches.simps) (auto simp: batched_def)
  next
    case False
    have first: "act_ok (f (take n items)) w (all_or_nothing \<alpha> (\<alpha> w) (G (take n items) (\<alpha> w)))"
      by (rule assms(1)) (use False assms(4) in auto)
    have "act_ok (act_bind (f (take n items)) (\<lambda>_. batches n f (drop n items))) w (batched n \<alpha> G items (\<alpha> w))"
    proof (rule act_ok_bind [OF first])
      fix e w1 assume "all_or_nothing \<alpha> (\<alpha> w) (G (take n items) (\<alpha> w)) (Inl e) w1"
      then show "batched n \<alpha> G items (\<alpha> w) (Inl e) w1"
        using assms(2) by (auto simp: batched_def intro!: exI [of _ 0])
    next
      fix x w1 assume w1: "all_or_nothing \<alpha> (\<alpha> w) (G (take n items) (\<alpha> w)) (Inr x) w1"
      have "act_ok (batches n f (drop n items)) w1 (batched n \<alpha> G (drop n items) (\<alpha> w1))"
        by (rule less.hyps) (use False assms(4) in simp)
      then show "act_ok (batches n f (drop n items)) w1 (batched n \<alpha> G items (\<alpha> w))"
      proof (rule act_ok_mono)
        fix r w' assume "batched n \<alpha> G (drop n items) (\<alpha> w1) r w'"
        then obtain j where j: "\<alpha> w' = G (take (j * n) (drop n items)) (\<alpha> w1)"
            "(\<exists>x. r = Inr x) \<longrightarrow> length (drop n items) \<le> j * n" by (auto simp: batched_def)
        have "take (Suc j * n) items = take n items @ take (j * n) (drop n items)" by (simp add: take_add)
        then have "\<alpha> w' = G (take (Suc j * n) items) (\<alpha> w)" using j(1) w1 assms(3) by simp
        moreover have "(\<exists>x. r = Inr x) \<longrightarrow> length items \<le> Suc j * n" using j(2) by auto
        ultimately show "batched n \<alpha> G items (\<alpha> w) r w'" unfolding batched_def by blast
      qed
    qed
    then show ?thesis using False assms(4) by (subst batches.simps) simp
  qed
qed

definition uidl_row :: "bytes \<Rightarrow> int \<Rightarrow> bytes \<Rightarrow> tables \<Rightarrow> tables" where
  "uidl_row m ts u t = t\<lparr>T_uidl := insert_new (m, u) ts (T_uidl t)\<rparr>"

definition seen_row :: "bytes \<Rightarrow> int \<Rightarrow> bytes \<Rightarrow> tables \<Rightarrow> tables" where
  "seen_row m ts u t = t\<lparr>T_seen := insert_new (m, u) ts (T_seen t)\<rparr>"

lemma marks_uidl:
  "marks key (uidl_row m ts) items t = t\<lparr>T_uidl := (\<lambda>k. if T_uidl t k = None \<and> k \<in> (\<lambda>i. (m, key i)) ` set items
     \<and> snd k \<noteq> [] then Some ts else T_uidl t k)\<rparr>"
  by (induction items arbitrary: t) (auto simp: uidl_row_def insert_new_def fun_eq_iff)

lemma marks_seen:
  "marks key (seen_row m ts) items t = t\<lparr>T_seen := (\<lambda>k. if T_seen t k = None \<and> k \<in> (\<lambda>i. (m, key i)) ` set items
     \<and> snd k \<noteq> [] then Some ts else T_seen t k)\<rparr>"
  by (induction items arbitrary: t) (auto simp: seen_row_def insert_new_def fun_eq_iff)

lemma MarkUIDLsKnown_ok:
  assumes "sql_ok D \<alpha> \<tau>" and "\<not> not_open s"
  shows "act_ok (MarkUIDLsKnown D ts s m uidls) w
    (batched aliasIndexUIDLBatchSize \<alpha> (marks trim_space (uidl_row (trim_space m) ts)) uidls (\<alpha> w))"
proof (cases "uidls = []")
  case True
  then show ?thesis by (auto simp: MarkUIDLsKnown_def batched_def)
next
  case False
  have step: "tx_step \<alpha> \<tau> (q_tx_uidl D (trim_space m) k ts) (uidl_row (trim_space m) ts k)" for k
    using tx_lawsD(5) [OF assms(1)] unfolding uidl_row_def [abs_def] by simp
  have "act_ok (batches aliasIndexUIDLBatchSize (markUIDLsKnownBatch D ts s (trim_space m)) uidls) w
      (batched aliasIndexUIDLBatchSize \<alpha> (marks trim_space (uidl_row (trim_space m) ts)) uidls (\<alpha> w))"
  proof (rule batches_ok)
    fix items :: "bytes list" and w assume "items \<noteq> []"
    then show "act_ok (markUIDLsKnownBatch D ts s (trim_space m) items) w
        (all_or_nothing \<alpha> (\<alpha> w) (marks trim_space (uidl_row (trim_space m) ts) items (\<alpha> w)))"
      using tx_batch_ok [OF assms(1) tx_lawsD(3) [OF assms(1)] step] assms(2) by (simp add: markUIDLsKnownBatch_def)
  qed (simp_all add: marks_append)
  with False show ?thesis by (simp add: MarkUIDLsKnown_def)
qed

lemma MarkSeenMessages_ok:
  assumes "sql_ok D \<alpha> \<tau>" and "\<not> not_open s"
  shows "act_ok (MarkSeenMessages D ts s m mids) w
    (batched aliasIndexSeenMessageBatchSize \<alpha> (marks normalizeMessageID (seen_row (trim_space m) ts)) mids (\<alpha> w))"
proof (cases "mids = []")
  case True
  then show ?thesis by (auto simp: MarkSeenMessages_def batched_def)
next
  case False
  have step: "tx_step \<alpha> \<tau> (q_tx_seen D (trim_space m) k ts) (seen_row (trim_space m) ts k)" for k
    using tx_lawsD(6) [OF assms(1)] unfolding seen_row_def [abs_def] by simp
  have "act_ok (batches aliasIndexSeenMessageBatchSize (markSeenMessagesBatch D ts s (trim_space m)) mids) w
      (batched aliasIndexSeenMessageBatchSize \<alpha> (marks normalizeMessageID (seen_row (trim_space m) ts)) mids (\<alpha> w))"
  proof (rule batches_ok)
    fix items :: "bytes list" and w assume "items \<noteq> []"
    then show "act_ok (markSeenMessagesBatch D ts s (trim_space m) items) w
        (all_or_nothing \<alpha> (\<alpha> w) (marks normalizeMessageID (seen_row (trim_space m) ts) items (\<alpha> w)))"
      using tx_batch_ok [OF assms(1) tx_lawsD(4) [OF assms(1)] step] assms(2) by (simp add: markSeenMessagesBatch_def)
  qed (simp_all add: marks_append)
  with False show ?thesis by (simp add: MarkSeenMessages_def)
qed

text \<open>
  C26: Marking a list of UIDLs in batches of 2000 is the same as marking all of them: a call that
  succeeds adds exactly the UIDLs of the list that are not blank to the mailbox, keeps the time of
  those that were known and touches no other table; a call that fails has marked a number of whole
  batches from the front of the list.
\<close>

theorem mark_batches:
  assumes "sql_ok D \<alpha> \<tau>" and "\<not> not_open s" and "MarkUIDLsKnown D ts s m uidls w = Done (r, w')"
  shows "\<exists>n. \<alpha> w' = (\<alpha> w)\<lparr>T_uidl := (\<lambda>k. if T_uidl (\<alpha> w) k = None
           \<and> k \<in> (\<lambda>u. (trim_space m, trim_space u)) ` set (take (n * 2000) uidls) \<and> snd k \<noteq> []
           then Some ts else T_uidl (\<alpha> w) k)\<rparr>
    \<and> (r = Inr () \<longrightarrow> take (n * 2000) uidls = uidls)"
  using act_okD [OF MarkUIDLsKnown_ok [OF assms(1,2)] assms(3)]
  by (auto simp: batched_def marks_uidl)

end
