(* ===== verification/Tenant_Registry.thy ===== *)
theory Tenant_Registry
  imports Tenant Effects "HOL-Library.AList"
begin

section \<open>The tenant registry (backends/tenant_registry.go, tenant_registry.go)\<close>

text \<open>
  The registry caches the tenants of the service behind \<open>GET /tenants\<close> and the mail accounts that
  they bring. The map of the tenants is an association list with one entry for each id; the answer
  of the service is an argument of \<open>Refresh\<close>: an error of the request or the status and the body.

  The lemmas show that a refresh is all or nothing, that a cached tenant has complete credentials,
  and that every account is tagged with the tenant whose record has it.
\<close>

subsection \<open>Configuration values\<close>

text \<open>
  A value of a decoded JSON configuration. A number is a float64; the code converts it to an integer
  before any use, and the model keeps that integer.
\<close>

datatype gvalue = GStr bytes | GNum int | GBool bool | GNull | GArr "gvalue list" | GMap "(bytes \<times> gvalue) list"

type_synonym gmap = "(bytes \<times> gvalue) list"

fun g_string :: "gvalue option \<Rightarrow> bytes option" where
  "g_string (Some (GStr s)) = Some s"
| "g_string _ = None"

fun g_bool :: "gvalue option \<Rightarrow> bool option" where
  "g_bool (Some (GBool b)) = Some b"
| "g_bool _ = None"

fun g_pos :: "gvalue option \<Rightarrow> int option" where
  "g_pos (Some (GNum n)) = (if n > 0 then Some n else None)"
| "g_pos _ = None"

text \<open>A string that is set and not blank, without its white space.\<close>

definition g_text :: "gvalue option \<Rightarrow> bytes option" where
  "g_text v = (case g_string v of Some s \<Rightarrow> if trim_space s \<noteq> [] then Some (trim_space s) else None | None \<Rightarrow> None)"

text \<open>A duration that may be set: \<open>parseDuration\<close> is \<open>time.ParseDuration\<close>, the error is wrapped.\<close>

definition opt_duration :: "(bytes \<Rightarrow> bytes + int) \<Rightarrow> bytes \<Rightarrow> gvalue option \<Rightarrow> int \<Rightarrow> bytes + int" where
  "opt_duration parseDuration what v dflt =
     (case g_text v of
        None \<Rightarrow> Inr dflt
      | Some s \<Rightarrow> (case parseDuration s of Inl e \<Rightarrow> Inl (''invalid '' @ what @ '': '' @ e) | Inr d \<Rightarrow> Inr d))"

subsection \<open>Accounts\<close>

record mailAccount =
  ac_Host :: bytes
  ac_Port :: int
  ac_TLS :: bool
  ac_User :: bytes
  ac_Password :: bytes
  ac_TenantID :: bytes

definition pop3_account :: "bytes \<Rightarrow> tenantPOP3 \<Rightarrow> mailAccount" where
  "pop3_account tid p = \<lparr>ac_Host = trim_space (pop3_Host p),
     ac_Port = (if pop3_Port p \<le> 0 then 995 else pop3_Port p), ac_TLS = pop3_TLS p,
     ac_User = trim_space (pop3_User p), ac_Password = pop3_Password p, ac_TenantID = tid\<rparr>"

definition imap_account :: "bytes \<Rightarrow> tenantIMAP \<Rightarrow> mailAccount" where
  "imap_account tid p = \<lparr>ac_Host = trim_space (imap_Host p),
     ac_Port = (if imap_Port p \<le> 0 then 993 else imap_Port p), ac_TLS = imap_TLS p,
     ac_User = trim_space (imap_User p), ac_Password = imap_Password p, ac_TenantID = tid\<rparr>"

subsection \<open>The registry\<close>

abbreviation seconds :: "int \<Rightarrow> int" where "seconds n \<equiv> n * 10 ^ 9"

record tenantRegistryConfig =
  tr_URL :: bytes
  tr_PollInterval :: int
  tr_Timeout :: int
  tr_Headers :: "(bytes \<times> bytes) list"

record httpTenantRegistry =
  hr_cfg :: tenantRegistryConfig
  hr_tenants :: "(bytes \<times> tenant) list"
  hr_pop3 :: "(bytes \<times> mailAccount) list"
  hr_imap :: "(bytes \<times> mailAccount) list"

definition NewHTTPTenantRegistry :: "tenantRegistryConfig \<Rightarrow> bytes + httpTenantRegistry" where
  "NewHTTPTenantRegistry cfg =
     (if trim_space (tr_URL cfg) = [] then Inl ''tenant_registry.url is required''
      else Inr \<lparr>hr_cfg = cfg\<lparr>tr_Timeout := (if tr_Timeout cfg \<le> 0 then seconds 10 else tr_Timeout cfg),
                             tr_PollInterval := (if tr_PollInterval cfg \<le> 0 then seconds 300 else tr_PollInterval cfg)\<rparr>,
                hr_tenants = [], hr_pop3 = [], hr_imap = []\<rparr>)"

fun string_headers :: "gmap \<Rightarrow> (bytes \<times> bytes) list" where
  "string_headers [] = []"
| "string_headers ((k, v) # kvs) = (case v of GStr s \<Rightarrow> (k, s) # string_headers kvs | _ \<Rightarrow> string_headers kvs)"

definition TenantRegistryConfigFromMap :: "(bytes \<Rightarrow> bytes + int) \<Rightarrow> gmap option \<Rightarrow> bytes + tenantRegistryConfig" where
  "TenantRegistryConfigFromMap parseDuration raw =
     (case raw of
        None \<Rightarrow> Inl ''tenant_registry is nil''
      | Some m \<Rightarrow>
          (case opt_duration parseDuration ''tenant_registry.poll_interval'' (map_of m ''poll_interval'') (seconds 300) of
             Inl e \<Rightarrow> Inl e
           | Inr poll \<Rightarrow>
               (case opt_duration parseDuration ''tenant_registry.timeout'' (map_of m ''timeout'') (seconds 10) of
                  Inl e \<Rightarrow> Inl e
                | Inr timeout \<Rightarrow>
                    Inr \<lparr>tr_URL = (case g_string (map_of m ''url'') of Some s \<Rightarrow> trim_space s | None \<Rightarrow> []),
                         tr_PollInterval = poll, tr_Timeout = timeout,
                         tr_Headers = (case map_of m ''headers'' of Some (GMap hs) \<Rightarrow> string_headers hs | _ \<Rightarrow> [])\<rparr>)))"

definition applyTenants :: "httpTenantRegistry \<Rightarrow> tenant list \<Rightarrow> httpTenantRegistry" where
  "applyTenants r tenants = r\<lparr>
     hr_tenants := fold (\<lambda>t m. AList.update (TenantID t) t m) tenants [],
     hr_pop3 := concat (map (\<lambda>t. map (\<lambda>p. (TenantID t, pop3_account (TenantID t) p)) (POP3Accounts t)) tenants),
     hr_imap := concat (map (\<lambda>t. map (\<lambda>p. (TenantID t, imap_account (TenantID t) p)) (IMAPAccounts t)) tenants)\<rparr>"

text \<open>
  \<open>Refresh\<close>: the request cannot be made, cannot be sent or its body cannot be read (\<open>Inl\<close>), or the
  service answers with a status and a body. \<open>unmarshal\<close> decodes the body.
\<close>

definition Refresh :: "(bytes \<Rightarrow> bytes + tenantJSON list) \<Rightarrow> bytes + (int \<times> bytes) \<Rightarrow> httpTenantRegistry \<Rightarrow>
    bytes option \<times> httpTenantRegistry" where
  "Refresh unmarshal answer r =
     (case answer of
        Inl err \<Rightarrow> (Some err, r)
      | Inr (status, body) \<Rightarrow>
          if status < 200 \<or> status \<ge> 300 then (Some (''tenant registry returned status '' @ show_int status), r)
          else (case ParseTenantsList unmarshal body of
                  Inl err \<Rightarrow> (Some err, r)
                | Inr tenants \<Rightarrow> (None, applyTenants r tenants)))"

definition reg_All :: "httpTenantRegistry \<Rightarrow> tenant list" where
  "reg_All r = map snd (hr_tenants r)"

definition reg_Get :: "httpTenantRegistry \<Rightarrow> bytes \<Rightarrow> tenant option" where
  "reg_Get r tenantID = map_of (hr_tenants r) (trim_space tenantID)"

definition reg_POP3Accounts :: "httpTenantRegistry \<Rightarrow> (bytes \<times> mailAccount) list" where
  "reg_POP3Accounts r = hr_pop3 r"

definition reg_IMAPAccounts :: "httpTenantRegistry \<Rightarrow> (bytes \<times> mailAccount) list" where
  "reg_IMAPAccounts r = hr_imap r"

definition reg_PollInterval :: "httpTenantRegistry \<Rightarrow> int" where
  "reg_PollInterval r = tr_PollInterval (hr_cfg r)"

subsection \<open>The registry of the daemon (tenant_registry.go)\<close>

definition duration_or :: "(bytes \<Rightarrow> bytes + int) \<Rightarrow> bytes \<Rightarrow> int \<Rightarrow> bytes + int" where
  "duration_or parseDuration s dflt = (if trim_space s \<noteq> [] then parseDuration s else Inr dflt)"

definition NewTenantRegistryFromConfig :: "(bytes \<Rightarrow> bytes + int) \<Rightarrow> bytes \<Rightarrow> bytes \<Rightarrow> bytes \<Rightarrow>
    (bytes \<times> bytes) list \<Rightarrow> bytes + httpTenantRegistry option" where
  "NewTenantRegistryFromConfig parseDuration url timeout poll headers =
     (if trim_space url = [] then Inr None
      else (case duration_or parseDuration timeout (seconds 10) of
              Inl e \<Rightarrow> Inl e
            | Inr timeout \<Rightarrow>
                (case duration_or parseDuration poll (seconds 300) of
                   Inl e \<Rightarrow> Inl e
                 | Inr poll \<Rightarrow>
                     (case NewHTTPTenantRegistry \<lparr>tr_URL = url, tr_PollInterval = poll, tr_Timeout = timeout,
                             tr_Headers = headers\<rparr> of
                        Inl e \<Rightarrow> Inl e
                      | Inr r \<Rightarrow> Inr (Some r)))))"

text \<open>The poller: a refresh at the start and one at every tick; an error is only logged.\<close>

fun poller :: "(bytes \<Rightarrow> bytes + tenantJSON list) \<Rightarrow> (bytes + (int \<times> bytes)) list \<Rightarrow> httpTenantRegistry \<Rightarrow> httpTenantRegistry" where
  "poller unmarshal [] r = r"
| "poller unmarshal (a # answers) r = poller unmarshal answers (snd (Refresh unmarshal a r))"

subsection \<open>What the registry keeps\<close>

definition tenant_ok :: "tenant \<Rightarrow> bool" where
  "tenant_ok t \<longleftrightarrow> send_ok (send_config_of t) \<and> (\<forall>a \<in> set (POP3Accounts t). 0 < pop3_Port a \<and> pop3_TLS a)
     \<and> (\<forall>a \<in> set (IMAPAccounts t). 0 < imap_Port a \<and> imap_TLS a)"

definition account_ok :: "bytes set \<Rightarrow> bytes \<times> mailAccount \<Rightarrow> bool" where
  "account_ok ids e \<longleftrightarrow> ac_TenantID (snd e) = fst e \<and> 0 < ac_Port (snd e) \<and> ac_TLS (snd e) \<and> fst e \<in> ids"

definition registry_ok :: "httpTenantRegistry \<Rightarrow> bool" where
  "registry_ok r \<longleftrightarrow> 0 < tr_Timeout (hr_cfg r) \<and> 0 < tr_PollInterval (hr_cfg r)
     \<and> distinct (map fst (hr_tenants r))
     \<and> (\<forall>e \<in> set (hr_tenants r). TenantID (snd e) = fst e \<and> send_ok (send_config_of (snd e)))
     \<and> (\<forall>e \<in> set (hr_pop3 r) \<union> set (hr_imap r). account_ok (fst ` set (hr_tenants r)) e)"

lemma applyTenants_map: "map_of (hr_tenants (applyTenants r ts)) k = map_of (rev (map (\<lambda>t. (TenantID t, t)) ts)) k"
proof -
  have "map_of (fold (\<lambda>t m. AList.update (TenantID t) t m) ts m) k
      = (case map_of (rev (map (\<lambda>t. (TenantID t, t)) ts)) k of Some t \<Rightarrow> Some t | None \<Rightarrow> map_of m k)" for m
  proof (induction ts arbitrary: m)
    case (Cons t ts)
    then show ?case by (auto simp: update_conv' map_add_def split: option.splits)
  qed simp
  from this [of "[]"] show ?thesis by (simp add: applyTenants_def split: option.splits)
qed

lemma fold_update_keys:
  "set (map fst (fold (\<lambda>t m. AList.update (TenantID t) t m) ts m)) = set (map fst m) \<union> TenantID ` set ts"
  by (induction ts arbitrary: m) (auto simp: dom_update)

lemma fold_update_distinct:
  "distinct (map fst m) \<Longrightarrow> distinct (map fst (fold (\<lambda>t m. AList.update (TenantID t) t m) ts m))"
  by (induction ts arbitrary: m) (auto simp: distinct_update)

lemma tagged_pop3:
  assumes "e \<in> set (hr_pop3 (applyTenants r ts))"
  obtains t p where "t \<in> set ts" and "p \<in> set (POP3Accounts t)" and "e = (TenantID t, pop3_account (TenantID t) p)"
  using assms that by (auto simp: applyTenants_def)

lemma tagged_imap:
  assumes "e \<in> set (hr_imap (applyTenants r ts))"
  obtains t p where "t \<in> set ts" and "p \<in> set (IMAPAccounts t)" and "e = (TenantID t, imap_account (TenantID t) p)"
  using assms that by (auto simp: applyTenants_def)

lemma applyTenants_ok:
  assumes "registry_ok r" and "\<forall>t \<in> set ts. tenant_ok t"
  shows "registry_ok (applyTenants r ts)"
proof -
  let ?m = "hr_tenants (applyTenants r ts)"
  have dist: "distinct (map fst ?m)" using fold_update_distinct [of "[]" ts] by (simp add: applyTenants_def)
  have keys: "fst ` set ?m = TenantID ` set ts" using fold_update_keys [of ts "[]"] by (simp add: applyTenants_def)
  have "TenantID (snd e) = fst e \<and> send_ok (send_config_of (snd e))" if "e \<in> set ?m" for e
  proof -
    have "map_of ?m (fst e) = Some (snd e)" using that dist by simp
    then have "e \<in> set (map (\<lambda>t. (TenantID t, t)) ts)"
      unfolding applyTenants_map using map_of_SomeD by fastforce
    with assms(2) show ?thesis by (auto simp: tenant_ok_def)
  qed
  moreover have "account_ok (fst ` set ?m) e" if "e \<in> set (hr_pop3 (applyTenants r ts))" for e
    using that assms(2) unfolding keys by (elim tagged_pop3) (auto simp: pop3_account_def account_ok_def tenant_ok_def)
  moreover have "account_ok (fst ` set ?m) e" if "e \<in> set (hr_imap (applyTenants r ts))" for e
    using that assms(2) unfolding keys by (elim tagged_imap) (auto simp: imap_account_def account_ok_def tenant_ok_def)
  moreover have "hr_cfg (applyTenants r ts) = hr_cfg r" by (simp add: applyTenants_def)
  ultimately show ?thesis using dist assms(1) unfolding registry_ok_def by auto
qed

lemma Refresh_cases:
  assumes "Refresh unmarshal a r = (e, r')"
  obtains (failed) x where "e = Some x" and "r' = r"
  | (applied) ts where "e = None" and "r' = applyTenants r ts" and "\<forall>t \<in> set ts. tenant_ok t"
proof -
  have good: "\<forall>t \<in> set ts. tenant_ok t" if "ParseTenantsList unmarshal body = Inr ts" for body ts
    using that parse_tenants_ok by (fastforce simp: ParseTenantsList_def tenant_ok_def split: sum.splits)
  show ?thesis
    using assms good that by (auto simp: Refresh_def split: sum.splits prod.splits if_splits)
qed

lemma Refresh_ok: "registry_ok r \<Longrightarrow> registry_ok (snd (Refresh unmarshal a r))"
proof -
  assume r: "registry_ok r"
  obtain e r' where e: "Refresh unmarshal a r = (e, r')" by fastforce
  then have "registry_ok r'" using r applyTenants_ok [OF r] by (cases rule: Refresh_cases) auto
  with e show ?thesis by simp
qed

lemma poller_ok: "registry_ok r \<Longrightarrow> registry_ok (poller unmarshal answers r)"
  by (induction answers arbitrary: r) (auto intro: Refresh_ok)

lemma New_registry_ok: "NewHTTPTenantRegistry cfg = Inr r \<Longrightarrow> registry_ok r"
  by (auto simp: NewHTTPTenantRegistry_def registry_ok_def split: if_splits)

text \<open>
  C27: Whatever the registry service answers, the registry of the daemon keeps only complete records:
  a tenant found under an id has that id and complete send credentials, every POP3 and IMAP account is
  tagged with a tenant of the registry, has a port and uses TLS; and a refresh that fails leaves the
  registry as it was.
\<close>

theorem registry_polled:
  assumes "NewHTTPTenantRegistry cfg = Inr r"
  shows "(let r' = poller unmarshal answers r
    in (\<forall>tid t. reg_Get r' tid = Some t \<longrightarrow> TenantID t = trim_space tid \<and> send_ok (send_config_of t))
       \<and> (\<forall>e \<in> set (reg_POP3Accounts r') \<union> set (reg_IMAPAccounts r').
            ac_TenantID (snd e) = fst e \<and> 0 < ac_Port (snd e) \<and> ac_TLS (snd e) \<and> fst e \<in> TenantID ` set (reg_All r'))
       \<and> (\<forall>a e r''. Refresh unmarshal a r' = (Some e, r'') \<longrightarrow> r'' = r'))"
proof -
  define r' where "r' = poller unmarshal answers r"
  have inv: "registry_ok r'" unfolding r'_def by (rule poller_ok [OF New_registry_ok [OF assms]])
  have "TenantID ` set (reg_All r') = fst ` set (hr_tenants r')"
    using inv by (force simp: registry_ok_def reg_All_def)
  moreover have "TenantID t = trim_space tid \<and> send_ok (send_config_of t)" if "reg_Get r' tid = Some t" for tid t
    using inv map_of_SomeD [OF that [unfolded reg_Get_def]] by (auto simp: registry_ok_def)
  moreover have "r'' = r'" if "Refresh unmarshal a r' = (Some e, r'')" for a e r''
    using that by (cases rule: Refresh_cases) auto
  ultimately show ?thesis
    unfolding Let_def r'_def [symmetric] using inv
    by (auto simp: registry_ok_def reg_POP3Accounts_def reg_IMAPAccounts_def account_ok_def)
qed

theorem registry_polled_witness:
  "(let ses = Some \<lparr>ses_Region = ''eu'', ses_AccessKeyID = [], ses_SecretAccessKey = []\<rparr>;
        u = (\<lambda>b. if b = ''1'' then Inr [\<lparr>TenantID = '' a'', Provider = ''SES'', SES = ses, OCIEmail = None,
               POP3Accounts = [], IMAPAccounts = [], OK = False\<rparr>] else Inl ''bad'');
        r = \<lparr>hr_cfg = \<lparr>tr_URL = ''http://r'', tr_PollInterval = seconds 300, tr_Timeout = seconds 10, tr_Headers = []\<rparr>,
              hr_tenants = [], hr_pop3 = [], hr_imap = []\<rparr>;
        t = \<lparr>TenantID = ''a'', Provider = ''ses'', SES = ses, OCIEmail = None, POP3Accounts = [], IMAPAccounts = []\<rparr>
    in reg_Get (poller u [Inr (200, ''1''), Inr (200, ''2''), Inr (500, ''1'')] r) '' a '' = Some t \<and> send_ok (send_config_of t))"
proof -
  let ?ses = "Some \<lparr>ses_Region = ''eu'', ses_AccessKeyID = [], ses_SecretAccessKey = []\<rparr>"
  let ?u = "\<lambda>b. if b = ''1'' then Inr [\<lparr>TenantID = '' a'', Provider = ''SES'', SES = ?ses, OCIEmail = None,
       POP3Accounts = [], IMAPAccounts = [], OK = False\<rparr>] else (Inl ''bad'' :: bytes + tenantJSON list)"
  let ?cfg = "\<lparr>tr_URL = ''http://r'', tr_PollInterval = 0, tr_Timeout = 0, tr_Headers = []\<rparr>"
  let ?r = "\<lparr>hr_cfg = \<lparr>tr_URL = ''http://r'', tr_PollInterval = seconds 300, tr_Timeout = seconds 10, tr_Headers = []\<rparr>,
              hr_tenants = [], hr_pop3 = [], hr_imap = []\<rparr>"
  have n: "NewHTTPTenantRegistry ?cfg = Inr ?r" by code_simp
  have g: "reg_Get (poller ?u [Inr (200, ''1''), Inr (200, ''2''), Inr (500, ''1'')] ?r) '' a ''
      = Some \<lparr>TenantID = ''a'', Provider = ''ses'', SES = ?ses, OCIEmail = None, POP3Accounts = [], IMAPAccounts = []\<rparr>"
    by code_simp
  from registry_polled [OF n, of ?u "[Inr (200, ''1''), Inr (200, ''2''), Inr (500, ''1'')]"] g show ?thesis
    unfolding Let_def by blast
qed

end
