(* ===== verification/Pop3.thy ===== *)
theory Pop3
  imports Effects "HOL-Library.Sublist"
begin

section \<open>The POP3 client (backends/pop3_client.go)\<close>

text \<open>
  The client on a connection: the record \<open>conn\<close> has the dialling, the reading of a line (without its
  line end), the writing of a line and the closing, as actions on the world. A multi-line answer is
  read until its last line; a server that never sends that line is a call that does not return.

  The lemmas show that a multi-line answer is read as it was before the server doubled the dots, and
  that a user name or a password cannot add a command to the session.
\<close>

record 'w conn =
  c_dial :: "bytes \<Rightarrow> int \<Rightarrow> bool \<Rightarrow> ('w, unit) act"
  c_read :: "('w, bytes) act"
  c_write :: "bytes \<Rightarrow> ('w, unit) act"
  c_close :: "('w, unit) act"

subsection \<open>Answers\<close>

definition positive :: "bytes \<Rightarrow> bytes" where
  "positive line = (if length line > 3 then trim_space (drop 3 line) else [])"

definition readResponse :: "'w conn \<Rightarrow> ('w, bytes) act" where
  "readResponse c =
     act_bind (c_read c) (\<lambda>line.
       if prefix ''+OK'' line then ok (positive line)
       else if prefix ''-ERR'' line then fail (''pop3 error: '' @ line)
       else fail (''pop3 unexpected response: '' @ go_quote line))"

definition readPositive :: "'w conn \<Rightarrow> ('w, bytes) act" where
  "readPositive c =
     act_bind (c_read c) (\<lambda>line.
       if \<not> prefix ''+OK'' line then fail (''pop3 error: '' @ line) else ok (positive line))"

definition unstuff :: "bytes \<Rightarrow> bytes" where
  "unstuff line = (if prefix ''..'' line then tl line else line)"

partial_function (option) multiline_loop :: "'w conn \<Rightarrow> bytes list \<Rightarrow> 'w \<Rightarrow> ((bytes + bytes list) \<times> 'w) run option" where
  "multiline_loop c lines w =
     (case c_read c w of
        Blocks \<Rightarrow> None
      | Crash m \<Rightarrow> Some (Crash m)
      | Done rw \<Rightarrow>
          (case fst rw of
             Inl err \<Rightarrow> Some (Done (Inl err, snd rw))
           | Inr line \<Rightarrow>
               if line = ''.'' then Some (Done (Inr lines, snd rw))
               else multiline_loop c (lines @ [unstuff line]) (snd rw)))"

definition readMultiline :: "'w conn \<Rightarrow> ('w, bytes list) act" where
  "readMultiline c = (\<lambda>w. case multiline_loop c [] w of None \<Rightarrow> Blocks | Some r \<Rightarrow> r)"

subsection \<open>Commands\<close>

definition cmd :: "'w conn \<Rightarrow> bytes \<Rightarrow> ('w, bytes) act" where
  "cmd c line = act_bind (c_write c line) (\<lambda>_. readResponse c)"

definition dialPOP3 :: "'w conn \<Rightarrow> bytes \<Rightarrow> int \<Rightarrow> bool \<Rightarrow> ('w, unit) act" where
  "dialPOP3 c host port useTLS =
     act_bind (c_dial c host port useTLS) (\<lambda>_.
     act_bind (attempt (readPositive c)) (\<lambda>r.
       case r of Inl err \<Rightarrow> act_bind (attempt (c_close c)) (\<lambda>_. fail err) | Inr _ \<Rightarrow> ok ()))"

definition pop3_Close :: "'w conn \<Rightarrow> ('w, unit) act" where
  "pop3_Close c = act_bind (attempt (cmd c ''QUIT'')) (\<lambda>_. c_close c)"

definition has_crlf :: "bytes \<Rightarrow> bool" where
  "has_crlf s \<longleftrightarrow> CHR 0x0D \<in> set s \<or> CHR 0x0A \<in> set s"

definition pop3_Auth :: "'w conn \<Rightarrow> bytes \<Rightarrow> bytes \<Rightarrow> ('w, unit) act" where
  "pop3_Auth c user password =
     (if has_crlf user \<or> has_crlf password then fail ''pop3 auth: user/password must not contain CR or LF''
      else act_bind (cmd c (''USER '' @ user)) (\<lambda>_.
           act_bind (cmd c (''PASS '' @ password)) (\<lambda>_. ok ())))"

fun uidl_lines :: "bytes list \<Rightarrow> (int \<times> bytes) list" where
  "uidl_lines [] = []"
| "uidl_lines (line # raw) =
     (case Prelude.fields line of
        n # u # _ \<Rightarrow> (case atoi n of Some num \<Rightarrow> (num, u) # uidl_lines raw | None \<Rightarrow> uidl_lines raw)
      | _ \<Rightarrow> uidl_lines raw)"

definition pop3_UIDL :: "'w conn \<Rightarrow> ('w, (int \<times> bytes) list) act" where
  "pop3_UIDL c = act_bind (cmd c ''UIDL'') (\<lambda>_. act_bind (readMultiline c) (\<lambda>raw. ok (uidl_lines raw)))"

definition pop3_Retr :: "'w conn \<Rightarrow> int \<Rightarrow> ('w, bytes) act" where
  "pop3_Retr c num =
     act_bind (cmd c (''RETR '' @ show_int num)) (\<lambda>_.
     act_bind (readMultiline c) (\<lambda>lines. ok (join [CHR 0x0A] lines)))"

definition pop3_Top :: "'w conn \<Rightarrow> int \<Rightarrow> int \<Rightarrow> ('w, bytes) act" where
  "pop3_Top c num lines =
     (let lines = (if lines \<le> 0 then 128 else lines)
      in act_bind (cmd c (''TOP '' @ show_int num @ '' '' @ show_int lines)) (\<lambda>_.
         act_bind (readMultiline c) (\<lambda>raw. ok (join [CHR 0x0A] raw))))"

subsection \<open>A connection with a script\<close>

text \<open>
  The lines that the server will send and those that the client has written: what a connection is to
  the client. Reading past the end of the script is an error.
\<close>

type_synonym script = "bytes list \<times> bytes list"

definition script_conn :: "script conn" where
  "script_conn = \<lparr>c_dial = (\<lambda>_ _ _. ok ()),
     c_read = (\<lambda>(ins, outs). case ins of [] \<Rightarrow> Done (Inl ''EOF'', ([], outs)) | l # ls \<Rightarrow> Done (Inr l, (ls, outs))),
     c_write = (\<lambda>line (ins, outs). Done (Inr (), (ins, outs @ [line]))), c_close = ok ()\<rparr>"

text \<open>The server's part: a line that starts with a dot gets another one.\<close>

definition stuff :: "bytes \<Rightarrow> bytes" where
  "stuff line = (if prefix ''.'' line then CHR ''.'' # line else line)"

lemma unstuff_stuff: "unstuff (stuff line) = line \<and> stuff line \<noteq> ''.''"
  by (cases line) (auto simp: unstuff_def stuff_def)

lemma multiline_stuffed:
  "multiline_loop script_conn acc (map stuff lines @ ''.'' # later, outs) = Some (Done (Inr (acc @ lines), (later, outs)))"
proof (induction lines arbitrary: acc)
  case Nil
  show ?case by (subst multiline_loop.simps) (simp add: script_conn_def)
next
  case (Cons l lines)
  then show ?case
    using unstuff_stuff [of l] by (subst multiline_loop.simps) (simp add: script_conn_def)
qed

text \<open>
  A message that the server sends with its dots doubled and a final dot is read back line by line
  as it was, and the client stops exactly behind the final dot.
\<close>

theorem pop3_dot_stuffing:
  assumes "prefix ''+OK'' answer"
  shows "pop3_Top script_conn num n (answer # map stuff lines @ ''.'' # later, outs)
    = Done (Inr (join [CHR 0x0A] lines),
        (later, outs @ [''TOP '' @ show_int num @ '' '' @ show_int (if n \<le> 0 then 128 else n)]))"
  using assms multiline_stuffed [of "[]" lines later]
  by (simp add: pop3_Top_def cmd_def readResponse_def readMultiline_def act_bind_def ok_def Let_def)
    (simp add: script_conn_def ok_def)

theorem pop3_dot_stuffing_witness:
  "pop3_Top script_conn 3 0 ([''+OK'', ''Subject: x'', ''...'', ''..x'', ''.'', ''+OK bye''], [])
    = Done (Inr (join [CHR 0x0A] [''Subject: x'', ''..'', ''.x'']), ([''+OK bye''], [''TOP 3 128'']))"
proof -
  have s: "map stuff [''Subject: x'', ''..'', ''.x''] = [''Subject: x'', ''...'', ''..x'']" by (simp add: stuff_def)
  have "''TOP '' @ show_int 3 @ '' '' @ show_int (if (0 :: int) \<le> 0 then 128 else 0) = ''TOP 3 128''" by code_simp
  with pop3_dot_stuffing [of "''+OK''" 3 0 "[''Subject: x'', ''..'', ''.x'']" "[''+OK bye'']" "[]"] s show ?thesis by simp
qed

subsection \<open>The commands of a login\<close>

text \<open>What a call has written to the connection, as far as its result tells.\<close>

lemma cmd_script:
  "cmd script_conn line (ins, outs) = Done (r, (ins', outs')) \<Longrightarrow> outs' = outs @ [line]"
  by (auto simp: cmd_def readResponse_def act_simps script_conn_def split: list.splits if_splits)

text \<open>
  A login sends no line but \<open>USER\<close> and \<open>PASS\<close> with the name and the password of the account, and none
  of them has a line break in it: credentials of the tenant registry cannot add a command to the
  session, whatever the server answers.
\<close>

theorem pop3_login_lines:
  "\<exists>r ins' sent. pop3_Auth script_conn user password (ins, outs) = Done (r, (ins', outs @ sent))
     \<and> prefix sent [''USER '' @ user, ''PASS '' @ password] \<and> (\<forall>l \<in> set sent. \<not> has_crlf l)
     \<and> (\<forall>x. r = Inr x \<longrightarrow> length sent = 2)"
proof (cases "has_crlf user \<or> has_crlf password")
  case True
  then show ?thesis by (auto simp: pop3_Auth_def fail_def)
next
  case False
  have c: "\<exists>r ins'. cmd script_conn l (i, os) = Done (r, (ins', os @ [l]))" for l i os
    by (cases i) (auto simp: cmd_def readResponse_def act_bind_def script_conn_def ok_def fail_def)
  obtain r1 i1 where 1: "cmd script_conn (''USER '' @ user) (ins, outs) = Done (r1, (i1, outs @ [''USER '' @ user]))"
    using c by blast
  obtain r2 i2 where 2: "cmd script_conn (''PASS '' @ password) (i1, outs @ [''USER '' @ user])
      = Done (r2, (i2, outs @ [''USER '' @ user, ''PASS '' @ password]))"
    using c [of "''PASS '' @ password" i1 "outs @ [''USER '' @ user]"] by auto
  have lines: "\<not> has_crlf (''USER '' @ user)" "\<not> has_crlf (''PASS '' @ password)"
    using False by (auto simp: has_crlf_def)
  show ?thesis
  proof (cases r1)
    case (Inl e)
    with False 1 lines show ?thesis
      by (intro exI [of _ "Inl e"] exI [of _ i1] exI [of _ "[''USER '' @ user]"]) (simp add: pop3_Auth_def act_bind_def)
  next
    case (Inr x)
    then have a: "pop3_Auth script_conn user password (ins, outs)
        = Done (case r2 of Inl e \<Rightarrow> Inl e | Inr _ \<Rightarrow> Inr (), (i2, outs @ [''USER '' @ user, ''PASS '' @ password]))"
      using False 1 2 by (cases r2) (simp_all add: pop3_Auth_def act_bind_def ok_def)
    with lines show ?thesis
      by (intro exI [of _ "case r2 of Inl e \<Rightarrow> Inl e | Inr _ \<Rightarrow> Inr ()"] exI [of _ i2]
          exI [of _ "[''USER '' @ user, ''PASS '' @ password]"]) simp
  qed
qed

theorem pop3_login_lines_witness:
  "\<exists>r ins' sent. pop3_Auth script_conn ''bob'' (''x'' @ [CHR 0x0A] @ ''DELE 1'') ([''+OK''], []) = Done (r, (ins', [] @ sent))
     \<and> (\<forall>l \<in> set sent. \<not> has_crlf l)"
  using pop3_login_lines [of "''bob''" "''x'' @ [CHR 0x0A] @ ''DELE 1''" "[''+OK'']" "[]"] by blast

end
