(* ===== verification/Alias_Index.thy ===== *)
theory Alias_Index
  imports Alias_Store Tenant_Registry Pop3
begin

section \<open>The alias indexer (backends/alias_message_index.go, alias_indexer.go)\<close>

text \<open>
  The indexer reads the headers of new messages in the mailboxes of the tenants and stores for each
  Message-ID the address to reply as. Database, POP3 connection and clock are arguments; the world is
  the state of all of them. A POP3 account and an IMAP account have the same fields and are one
  record, and the two kinds of mailbox keys are told apart by their prefix.

  The lemmas show that a message is stored at most once and only with the tenant of its mailbox, that
  a mailbox that has been polled has no new message left, and which accounts a configuration gives.
\<close>

subsection \<open>Indexing one message (alias_message_index.go)\<close>

record indexMessageOpts =
  io_mailboxKey :: bytes
  io_mailboxUser :: bytes
  io_tenantID :: bytes
  io_since :: "int option"
  io_folder :: bytes

datatype indexMessageOutcome = outcomeIndexed | outcomeSkippedSeen | outcomeSkippedDate | outcomeNotIndexable

definition mark_if :: "'w sqlite \<Rightarrow> int \<Rightarrow> aliasStore option \<Rightarrow> bytes \<Rightarrow> bytes \<Rightarrow> ('w, unit) act" where
  "mark_if D now_unix s key messageID = (if messageID \<noteq> [] then MarkSeenMessage D now_unix s key messageID else ok ())"

definition too_old :: "parsedMailHeaders \<Rightarrow> indexMessageOpts \<Rightarrow> bool" where
  "too_old headers opts \<longleftrightarrow>
     (case (io_since opts, hDate headers) of (Some s, Some d) \<Rightarrow> d < s | _ \<Rightarrow> False)"

text \<open>The part of \<open>indexMessageFromHeaders\<close> behind the check for a message that has been seen.\<close>

definition index_unseen :: "'w sqlite \<Rightarrow> int \<Rightarrow> aliasStore option \<Rightarrow> parsedMailHeaders \<Rightarrow> indexMessageOpts \<Rightarrow> bytes \<Rightarrow>
    ('w, indexMessageOutcome) act" where
  "index_unseen D now_unix s headers opts messageID =
     (let key = io_mailboxKey opts
      in if too_old headers opts then act_bind (mark_if D now_unix s key messageID) (\<lambda>_. ok outcomeSkippedDate)
         else
           act_bind (lift_run (extractReplyAsAddress headers (io_mailboxUser opts))) (\<lambda>replyAs.
           act_bind (lift_run (extractFirstEmailFromHeader (hFrom headers))) (\<lambda>origFrom.
             if messageID = [] \<or> replyAs = [] \<or> origFrom = [] then
               act_bind (mark_if D now_unix s key messageID) (\<lambda>_. ok outcomeNotIndexable)
             else
               act_bind (UpsertThread D now_unix s \<lparr>tMessageID = messageID, tReplyAs = replyAs, tOrigFrom = origFrom,
                           tTenantID = io_tenantID opts, tCreatedAt = Some now_unix\<rparr>) (\<lambda>_.
               act_bind (MarkSeenMessage D now_unix s key messageID) (\<lambda>_. ok outcomeIndexed)))))"

definition indexMessageFromHeaders :: "'w sqlite \<Rightarrow> int \<Rightarrow> aliasStore option \<Rightarrow> parsedMailHeaders \<Rightarrow>
    indexMessageOpts \<Rightarrow> ('w, indexMessageOutcome) act" where
  "indexMessageFromHeaders D now_unix s headers opts =
     (let messageID = normalizeMessageID (hMessageID headers)
      in act_bind (if messageID \<noteq> [] then IsSeenMessage D s (io_mailboxKey opts) messageID else ok False) (\<lambda>seen.
           if seen then ok outcomeSkippedSeen else index_unseen D now_unix s headers opts messageID))"

subsection \<open>Accounts\<close>

definition pop3_MailboxKey :: "mailAccount \<Rightarrow> bytes" where
  "pop3_MailboxKey a = ''pop3:'' @ trim_space (ac_User a) @ ''@'' @ trim_space (ac_Host a)"

definition imap_MailboxKey :: "mailAccount \<Rightarrow> bytes" where
  "imap_MailboxKey a = ''imap:'' @ trim_space (ac_User a) @ ''@'' @ trim_space (ac_Host a)"

definition pop3_validate :: "mailAccount \<Rightarrow> bytes option" where
  "pop3_validate a =
     (if trim_space (ac_Host a) = [] then Some ''alias_index pop3 host is required''
      else if trim_space (ac_User a) = [] then Some (''alias_index pop3 user is required for host '' @ ac_Host a)
      else None)"

definition imap_validate :: "mailAccount \<Rightarrow> bytes option" where
  "imap_validate a =
     (if trim_space (ac_Host a) = [] then Some ''alias_index imap host is required''
      else if trim_space (ac_User a) = [] then Some (''alias_index imap user is required for host '' @ ac_Host a)
      else None)"

definition account_of_map :: "int \<Rightarrow> gmap \<Rightarrow> mailAccount" where
  "account_of_map port m = \<lparr>
     ac_Host = (case g_string (map_of m ''host'') of Some v \<Rightarrow> trim_space v | None \<Rightarrow> []),
     ac_Port = (case g_pos (map_of m ''port'') of Some v \<Rightarrow> v | None \<Rightarrow> port),
     ac_TLS = (case g_bool (map_of m ''tls'') of Some v \<Rightarrow> v | None \<Rightarrow> True),
     ac_User = (case g_string (map_of m ''user'') of Some v \<Rightarrow> trim_space v | None \<Rightarrow> []),
     ac_Password = (case g_string (map_of m ''password'') of Some v \<Rightarrow> v | None \<Rightarrow> []),
     ac_TenantID = []\<rparr>"

definition parseAliasPOP3AccountMap :: "gmap \<Rightarrow> bytes + mailAccount" where
  "parseAliasPOP3AccountMap m =
     (let a = account_of_map 995 m in case pop3_validate a of Some e \<Rightarrow> Inl e | None \<Rightarrow> Inr a)"

definition parseAliasIMAPAccountMap :: "gmap \<Rightarrow> bytes + mailAccount" where
  "parseAliasIMAPAccountMap m =
     (let a = account_of_map 993 m in case imap_validate a of Some e \<Rightarrow> Inl e | None \<Rightarrow> Inr a)"

text \<open>The loop over the items of an accounts array, with the index of the item in the error.\<close>

fun parse_accounts :: "bytes \<Rightarrow> (gmap \<Rightarrow> bytes + mailAccount) \<Rightarrow> nat \<Rightarrow> gvalue list \<Rightarrow> bytes + mailAccount list" where
  "parse_accounts key f i [] = Inr []"
| "parse_accounts key f i (item # items) =
     (case item of
        GMap m \<Rightarrow>
          (case f m of
             Inl e \<Rightarrow> Inl (key @ ''['' @ show_nat i @ '']: '' @ e)
           | Inr a \<Rightarrow> (case parse_accounts key f (i + 1) items of Inl e \<Rightarrow> Inl e | Inr l \<Rightarrow> Inr (a # l)))
      | _ \<Rightarrow> Inl (key @ ''['' @ show_nat i @ ''] must be an object''))"

definition parseAliasPOP3AccountsList :: "gvalue \<Rightarrow> bytes + mailAccount list" where
  "parseAliasPOP3AccountsList raw =
     (case raw of
        GArr items \<Rightarrow> parse_accounts ''alias_index_pop3_accounts'' parseAliasPOP3AccountMap 0 items
      | _ \<Rightarrow> Inl ''alias_index_pop3_accounts must be an array'')"

definition parseLegacyAliasPOP3Account :: "gmap \<Rightarrow> mailAccount option" where
  "parseLegacyAliasPOP3Account c =
     (let host = (case g_string (map_of c ''alias_index_pop3_host'') of Some v \<Rightarrow> v | None \<Rightarrow> []);
          user = (case g_string (map_of c ''alias_index_pop3_user'') of Some v \<Rightarrow> v | None \<Rightarrow> [])
      in if trim_space host = [] \<and> trim_space user = [] then None
         else Some \<lparr>ac_Host = trim_space host,
                ac_Port = (case g_pos (map_of c ''alias_index_pop3_port'') of Some v \<Rightarrow> v | None \<Rightarrow> 995),
                ac_TLS = (case g_bool (map_of c ''alias_index_pop3_tls'') of Some v \<Rightarrow> v | None \<Rightarrow> True),
                ac_User = trim_space user,
                ac_Password = (case g_string (map_of c ''alias_index_pop3_password'') of Some v \<Rightarrow> v | None \<Rightarrow> []),
                ac_TenantID = []\<rparr>)"

definition set_value :: "gvalue option \<Rightarrow> gvalue option" where
  "set_value v = (case v of Some GNull \<Rightarrow> None | _ \<Rightarrow> v)"

definition legacy_accounts :: "gmap \<Rightarrow> bytes + mailAccount list" where
  "legacy_accounts c =
     (case parseLegacyAliasPOP3Account c of
        Some a \<Rightarrow> Inr [a]
      | None \<Rightarrow> Inl ''alias_index_pop3_accounts or alias_index_pop3_host/user is required'')"

definition parseAliasPOP3Accounts :: "gmap \<Rightarrow> bytes + mailAccount list" where
  "parseAliasPOP3Accounts c =
     (case set_value (map_of c ''alias_index_pop3_accounts'') of
        None \<Rightarrow> legacy_accounts c
      | Some raw \<Rightarrow>
          (case parseAliasPOP3AccountsList raw of
             Inl e \<Rightarrow> Inl e
           | Inr accounts \<Rightarrow> if accounts \<noteq> [] then Inr accounts else legacy_accounts c))"

definition parseAliasIMAPAccounts :: "gmap \<Rightarrow> bytes + mailAccount list" where
  "parseAliasIMAPAccounts c =
     (case set_value (map_of c ''alias_index_imap_accounts'') of
        None \<Rightarrow> Inl ''alias_index_imap_accounts is required''
      | Some (GArr items) \<Rightarrow>
          (case parse_accounts ''alias_index_imap_accounts'' parseAliasIMAPAccountMap 0 items of
             Inl e \<Rightarrow> Inl e
           | Inr accounts \<Rightarrow>
               if accounts \<noteq> [] then Inr accounts else Inl ''alias_index_imap_accounts is required'')
      | Some _ \<Rightarrow> Inl ''alias_index_imap_accounts must be an array'')"

subsection \<open>Configuration\<close>

record imapWatcherConfig =
  iw_IdleRefresh :: int
  iw_ResyncInterval :: int
  iw_SearchBatch :: int
  iw_BaselineHeaderLimit :: int
  iw_ExcludeFolders :: "bytes list"

definition imap_normalize :: "imapWatcherConfig \<Rightarrow> imapWatcherConfig" where
  "imap_normalize c = c\<lparr>
     iw_IdleRefresh := (if iw_IdleRefresh c \<le> 0 then seconds (28 * 60) else iw_IdleRefresh c),
     iw_ResyncInterval := (if iw_ResyncInterval c \<le> 0 then seconds (5 * 60) else iw_ResyncInterval c),
     iw_SearchBatch := (if iw_SearchBatch c \<le> 0 then 500 else iw_SearchBatch c),
     iw_BaselineHeaderLimit := (if iw_BaselineHeaderLimit c \<le> 0 then 200 else iw_BaselineHeaderLimit c)\<rparr>"

record aliasIndexerConfig =
  ai_DBPath :: bytes
  ai_Accounts :: "mailAccount list"
  ai_IMAPAccounts :: "mailAccount list"
  ai_IMAP :: imapWatcherConfig
  ai_PollInterval :: int
  ai_PurgeInterval :: int
  ai_SkipExistingOnStart :: bool
  ai_Since :: "int option"
  ai_StoreCfg :: aliasStoreConfig
  ai_Registry :: "httpTenantRegistry option"

text \<open>\<open>ix_watchers\<close> has the accounts whose IMAP watcher has been started.\<close>

record aliasIndexer =
  ix_cfg :: aliasIndexerConfig
  ix_store :: "aliasStore option"
  ix_watchers :: "mailAccount list"

definition g_nat_or :: "gvalue option \<Rightarrow> int \<Rightarrow> int" where
  "g_nat_or v dflt = (case g_pos v of Some n \<Rightarrow> n | None \<Rightarrow> dflt)"

fun exclude_names :: "nat \<Rightarrow> gvalue list \<Rightarrow> bytes + bytes list" where
  "exclude_names i [] = Inr []"
| "exclude_names i (item # items) =
     (case item of
        GStr name \<Rightarrow>
          (case exclude_names (i + 1) items of
             Inl e \<Rightarrow> Inl e
           | Inr l \<Rightarrow> Inr (if trim_space name \<noteq> [] then trim_space name # l else l))
      | _ \<Rightarrow> Inl (''alias_index_imap_exclude_folders['' @ show_nat i @ ''] must be a string''))"

definition exclude_folders :: "gvalue option \<Rightarrow> bytes + bytes list" where
  "exclude_folders v =
     (case set_value v of
        None \<Rightarrow> Inr []
      | Some (GArr items) \<Rightarrow> exclude_names 0 items
      | Some _ \<Rightarrow> Inl ''alias_index_imap_exclude_folders must be an array'')"

text \<open>
  The handling of an error of the static accounts: one that contains \<open>is required\<close> counts as no account
  at all, since the tenant registry may supply the accounts.
\<close>

definition optional_accounts :: "bytes + mailAccount list \<Rightarrow> bytes + mailAccount list" where
  "optional_accounts r =
     (case r of Inl err \<Rightarrow> if contains err ''is required'' then Inr [] else Inl err | Inr accounts \<Rightarrow> Inr accounts)"

definition sum_bind :: "'e + 'a \<Rightarrow> ('a \<Rightarrow> 'e + 'b) \<Rightarrow> 'e + 'b" where
  "sum_bind r f = (case r of Inl e \<Rightarrow> Inl e | Inr x \<Rightarrow> f x)"

text \<open>
  \<open>AliasIndexerConfigFromBackend\<close>: \<open>parseDuration\<close> is \<open>time.ParseDuration\<close>, \<open>parseDate\<close> is \<open>time.Parse\<close> with
  the layout of a date. A zero interval is replaced by its default later.
\<close>

definition AliasIndexerConfigFromBackend :: "(bytes \<Rightarrow> bytes + int) \<Rightarrow> (bytes \<Rightarrow> bytes + int) \<Rightarrow> gmap \<Rightarrow>
    bytes + aliasIndexerConfig" where
  "AliasIndexerConfigFromBackend parseDuration parseDate c =
     (let db = (case g_string (map_of c ''alias_db_path'') of Some v \<Rightarrow> trim_space v | None \<Rightarrow> []);
          dur = (\<lambda>key. opt_duration parseDuration key (map_of c key) 0)
      in sum_bind (dur ''alias_index_poll_interval'') (\<lambda>poll.
         sum_bind (dur ''alias_index_purge_interval'') (\<lambda>purge.
         sum_bind (opt_duration (ParseAliasDuration parseDuration) ''alias_index_ttl'' (map_of c ''alias_index_ttl'') 0) (\<lambda>ttl.
         sum_bind (case g_text (map_of c ''alias_index_since'') of
                     None \<Rightarrow> Inr None
                   | Some raw \<Rightarrow> (case parseDate raw of Inl e \<Rightarrow> Inl (''invalid alias_index_since: '' @ e) | Inr t \<Rightarrow> Inr (Some t))) (\<lambda>since.
         sum_bind (optional_accounts (parseAliasPOP3Accounts c)) (\<lambda>accounts.
         sum_bind (optional_accounts (parseAliasIMAPAccounts c)) (\<lambda>imapAccounts.
         sum_bind (dur ''alias_index_imap_idle_refresh'') (\<lambda>idle.
         sum_bind (dur ''alias_index_imap_resync_interval'') (\<lambda>resync.
         sum_bind (exclude_folders (map_of c ''alias_index_imap_exclude_folders'')) (\<lambda>exclude.
           Inr \<lparr>ai_DBPath = db, ai_Accounts = accounts, ai_IMAPAccounts = imapAccounts,
                ai_IMAP = imap_normalize \<lparr>iw_IdleRefresh = idle, iw_ResyncInterval = resync,
                  iw_SearchBatch = g_nat_or (map_of c ''alias_index_imap_search_batch'') 0,
                  iw_BaselineHeaderLimit = g_nat_or (map_of c ''alias_index_imap_baseline_header_limit'') 0,
                  iw_ExcludeFolders = exclude\<rparr>,
                ai_PollInterval = poll, ai_PurgeInterval = purge,
                ai_SkipExistingOnStart = (case g_bool (map_of c ''alias_index_skip_existing_on_start'') of Some v \<Rightarrow> v | None \<Rightarrow> True),
                ai_Since = since,
                ai_StoreCfg = \<lparr>scDBPath = db, scTTL = ttl, scMaxRows = g_nat_or (map_of c ''alias_index_max_rows'') 0,
                  scPurgeInterval = 0\<rparr>,
                ai_Registry = None\<rparr>))))))))))"

text \<open>The accounts with their default port, checked one by one.\<close>

fun check_accounts :: "bytes \<Rightarrow> int \<Rightarrow> (mailAccount \<Rightarrow> bytes option) \<Rightarrow> nat \<Rightarrow> mailAccount list \<Rightarrow> bytes + mailAccount list" where
  "check_accounts key port validate i [] = Inr []"
| "check_accounts key port validate i (a # as) =
     (let a = (if ac_Port a \<le> 0 then a\<lparr>ac_Port := port\<rparr> else a)
      in case validate a of
           Some e \<Rightarrow> Inl (key @ ''['' @ show_nat i @ '']: '' @ e)
         | None \<Rightarrow> (case check_accounts key port validate (i + 1) as of Inl e \<Rightarrow> Inl e | Inr l \<Rightarrow> Inr (a # l)))"

definition indexer_defaults :: "aliasIndexerConfig \<Rightarrow> aliasIndexerConfig" where
  "indexer_defaults cfg = cfg\<lparr>ai_IMAP := imap_normalize (ai_IMAP cfg),
     ai_PollInterval := (if ai_PollInterval cfg \<le> 0 then seconds 60 else ai_PollInterval cfg),
     ai_PurgeInterval := (if ai_PurgeInterval cfg \<le> 0 then defaultAliasIndexPurge else ai_PurgeInterval cfg),
     ai_StoreCfg := (ai_StoreCfg cfg)\<lparr>scDBPath := trim_space (ai_DBPath cfg),
       scTTL := (if scTTL (ai_StoreCfg cfg) \<le> 0 then defaultAliasIndexTTL else scTTL (ai_StoreCfg cfg)),
       scMaxRows := (if scMaxRows (ai_StoreCfg cfg) \<le> 0 then defaultAliasIndexMaxRows else scMaxRows (ai_StoreCfg cfg))\<rparr>\<rparr>"

definition NewAliasIndexer :: "'w sqlite \<Rightarrow> aliasIndexerConfig \<Rightarrow> ('w, aliasIndexer) act" where
  "NewAliasIndexer D cfg =
     (if ai_Registry cfg = None \<and> ai_Accounts cfg = [] \<and> ai_IMAPAccounts cfg = []
      then fail ''at least one alias_index mail account or tenant_registry is required''
      else (let cfg = (if ai_Registry cfg \<noteq> None then cfg\<lparr>ai_Accounts := [], ai_IMAPAccounts := []\<rparr> else cfg)
            in act_bind (lift_sum (check_accounts ''alias_index_pop3_accounts'' 995 pop3_validate 0 (ai_Accounts cfg))) (\<lambda>pop3.
               act_bind (lift_sum (check_accounts ''alias_index_imap_accounts'' 993 imap_validate 0 (ai_IMAPAccounts cfg))) (\<lambda>imap.
                 let cfg = indexer_defaults (cfg\<lparr>ai_Accounts := pop3, ai_IMAPAccounts := imap\<rparr>)
                 in if scDBPath (ai_StoreCfg cfg) = [] then fail ''alias_db_path is required''
                    else act_bind (OpenAliasStore D (ai_StoreCfg cfg)) (\<lambda>st.
                           ok \<lparr>ix_cfg = cfg, ix_store = Some st, ix_watchers = []\<rparr>)))))"

definition refreshAccountsFromRegistry :: "aliasIndexer \<Rightarrow> aliasIndexer" where
  "refreshAccountsFromRegistry i =
     (case ai_Registry (ix_cfg i) of
        None \<Rightarrow> i
      | Some r \<Rightarrow> i\<lparr>ix_cfg := (ix_cfg i)\<lparr>ai_Accounts := map snd (reg_POP3Accounts r),
                                       ai_IMAPAccounts := map snd (reg_IMAPAccounts r)\<rparr>\<rparr>)"

definition currentAccounts :: "aliasIndexer \<Rightarrow> mailAccount list" where
  "currentAccounts i =
     (case ai_Registry (ix_cfg i) of
        Some r \<Rightarrow> map snd (reg_POP3Accounts r)
      | None \<Rightarrow> ai_Accounts (ix_cfg i))"

definition currentIMAPAccounts :: "aliasIndexer \<Rightarrow> mailAccount list" where
  "currentIMAPAccounts i =
     (case ai_Registry (ix_cfg i) of
        Some r \<Rightarrow> map snd (reg_IMAPAccounts r)
      | None \<Rightarrow> ai_IMAPAccounts (ix_cfg i))"

subsection \<open>Polling a POP3 mailbox\<close>

text \<open>The parsing of a header block (\<open>parseMailHeaders\<close>) is the argument \<open>parse\<close>.\<close>

definition index_opts :: "aliasIndexer \<Rightarrow> mailAccount \<Rightarrow> bytes \<Rightarrow> bytes \<Rightarrow> indexMessageOpts" where
  "index_opts i account key folder = \<lparr>io_mailboxKey = key, io_mailboxUser = ac_User account,
     io_tenantID = ac_TenantID account, io_since = ai_Since (ix_cfg i), io_folder = folder\<rparr>"

fun poll_messages :: "'w sqlite \<Rightarrow> 'w conn \<Rightarrow> (bytes \<Rightarrow> bytes + parsedMailHeaders) \<Rightarrow> int \<Rightarrow> aliasStore option \<Rightarrow>
    indexMessageOpts \<Rightarrow> bytes set \<Rightarrow> (int \<times> bytes) list \<Rightarrow> ('w, unit) act" where
  "poll_messages D c parse now_unix s opts known [] = ok ()"
| "poll_messages D c parse now_unix s opts known (item # items) =
     (if snd item \<in> known then poll_messages D c parse now_unix s opts known items
      else act_bind (pop3_Top c (fst item) 128) (\<lambda>raw.
             case parse raw of
               Inl err \<Rightarrow>
                 act_bind (MarkUIDLKnown D now_unix s (io_mailboxKey opts) (snd item)) (\<lambda>_.
                   poll_messages D c parse now_unix s opts known items)
             | Inr headers \<Rightarrow>
                 act_bind (indexMessageFromHeaders D now_unix s headers opts) (\<lambda>_.
                 act_bind (MarkUIDLKnown D now_unix s (io_mailboxKey opts) (snd item)) (\<lambda>_.
                   poll_messages D c parse now_unix s opts known items))))"

definition poll_session :: "'w sqlite \<Rightarrow> 'w conn \<Rightarrow> (bytes \<Rightarrow> bytes + parsedMailHeaders) \<Rightarrow> int \<Rightarrow> aliasIndexer \<Rightarrow>
    mailAccount \<Rightarrow> ('w, unit) act" where
  "poll_session D c parse now_unix i account =
     (let s = ix_store i; mailboxKey = pop3_MailboxKey account
      in act_bind (pop3_Auth c (ac_User account) (ac_Password account)) (\<lambda>_.
         act_bind (pop3_UIDL c) (\<lambda>uidls.
         act_bind (HasBaseline D s mailboxKey) (\<lambda>hasBaseline.
           if ai_SkipExistingOnStart (ix_cfg i) \<and> \<not> hasBaseline then
             act_bind (MarkUIDLsKnown D now_unix s mailboxKey (map snd uidls)) (\<lambda>_. SetBaseline D s mailboxKey)
           else
             act_bind (KnownUIDLsForMailbox D s mailboxKey) (\<lambda>known.
               poll_messages D c parse now_unix s (index_opts i account mailboxKey []) known uidls)))))"

text \<open>The deferred \<open>Close\<close> runs after the session, whatever its result.\<close>

definition pollMailbox :: "'w sqlite \<Rightarrow> 'w conn \<Rightarrow> (bytes \<Rightarrow> bytes + parsedMailHeaders) \<Rightarrow> int \<Rightarrow> aliasIndexer \<Rightarrow>
    mailAccount \<Rightarrow> ('w, unit) act" where
  "pollMailbox D c parse now_unix i account =
     act_bind (dialPOP3 c (ac_Host account) (ac_Port account) (ac_TLS account)) (\<lambda>_.
     act_bind (attempt (poll_session D c parse now_unix i account)) (\<lambda>r.
     act_bind (attempt (pop3_Close c)) (\<lambda>_. lift_sum r)))"

text \<open>
  \<open>pollAll\<close>: nothing while an earlier poll holds the lock; otherwise every account is polled, here in
  the given order of its goroutines, and an error of one mailbox is logged and does not stop another.
\<close>

fun poll_each :: "'w sqlite \<Rightarrow> (mailAccount \<Rightarrow> 'w conn) \<Rightarrow> (bytes \<Rightarrow> bytes + parsedMailHeaders) \<Rightarrow> int \<Rightarrow> aliasIndexer \<Rightarrow>
    mailAccount list \<Rightarrow> ('w, unit) act" where
  "poll_each D conns parse now_unix i [] = ok ()"
| "poll_each D conns parse now_unix i (a # as) =
     act_bind (attempt (pollMailbox D (conns a) parse now_unix i a)) (\<lambda>_. poll_each D conns parse now_unix i as)"

definition pollAll :: "'w sqlite \<Rightarrow> (mailAccount \<Rightarrow> 'w conn) \<Rightarrow> (bytes \<Rightarrow> bytes + parsedMailHeaders) \<Rightarrow> int \<Rightarrow> aliasIndexer \<Rightarrow>
    bool \<Rightarrow> ('w, unit) act" where
  "pollAll D conns parse now_unix i locked =
     (if locked then ok () else poll_each D conns parse now_unix i (currentAccounts i))"

subsection \<open>Running\<close>

definition startIMAPWatchers :: "aliasIndexer \<Rightarrow> aliasIndexer" where
  "startIMAPWatchers i = i\<lparr>ix_watchers := ix_watchers i @ currentIMAPAccounts i\<rparr>"

text \<open>A refresh of the registry in \<open>Run\<close>: the answer of the service is an argument; an error is logged.\<close>

definition refresh_in_run :: "(bytes \<Rightarrow> bytes + tenantJSON list) \<Rightarrow> bytes + (int \<times> bytes) \<Rightarrow> aliasIndexer \<Rightarrow> aliasIndexer" where
  "refresh_in_run unmarshal answer i =
     (case ai_Registry (ix_cfg i) of
        None \<Rightarrow> i
      | Some r \<Rightarrow>
          (case Refresh unmarshal answer r of
             (Some err, r') \<Rightarrow> i\<lparr>ix_cfg := (ix_cfg i)\<lparr>ai_Registry := Some r'\<rparr>\<rparr>
           | (None, r') \<Rightarrow> refreshAccountsFromRegistry (i\<lparr>ix_cfg := (ix_cfg i)\<lparr>ai_Registry := Some r'\<rparr>\<rparr>)))"

text \<open>
  What the loop of \<open>Run\<close> waits for: a tick with the time and, for the registry, the answer of the service,
  or the closing of the channel \<open>done\<close>. The result says whether \<open>Run\<close> has returned.
\<close>

datatype indexer_event = Purge_tick int | Registry_tick "bytes + (int \<times> bytes)" | Poll_tick int | Done_closed

definition registry_ticks :: "aliasIndexer \<Rightarrow> bool" where
  "registry_ticks i = (case ai_Registry (ix_cfg i) of None \<Rightarrow> False | Some r \<Rightarrow> reg_PollInterval r > 0)"

fun run_events :: "'w sqlite \<Rightarrow> (mailAccount \<Rightarrow> 'w conn) \<Rightarrow> (bytes \<Rightarrow> bytes + parsedMailHeaders) \<Rightarrow>
    (bytes \<Rightarrow> bytes + tenantJSON list) \<Rightarrow> aliasIndexer \<Rightarrow> indexer_event list \<Rightarrow> ('w, aliasIndexer \<times> bool) act" where
  "run_events D conns parse unmarshal i [] = ok (i, False)"
| "run_events D conns parse unmarshal i (Done_closed # es) = ok (i, True)"
| "run_events D conns parse unmarshal i (Purge_tick now_nano # es) =
     act_bind (attempt (PurgeExpired D now_nano (ix_store i))) (\<lambda>_. run_events D conns parse unmarshal i es)"
| "run_events D conns parse unmarshal i (Registry_tick answer # es) =
     run_events D conns parse unmarshal (if registry_ticks i then refresh_in_run unmarshal answer i else i) es"
| "run_events D conns parse unmarshal i (Poll_tick now_unix # es) =
     act_bind (pollAll D conns parse now_unix i False) (\<lambda>_. run_events D conns parse unmarshal i es)"

definition indexer_Run :: "'w sqlite \<Rightarrow> (mailAccount \<Rightarrow> 'w conn) \<Rightarrow> (bytes \<Rightarrow> bytes + parsedMailHeaders) \<Rightarrow>
    (bytes \<Rightarrow> bytes + tenantJSON list) \<Rightarrow> bytes + (int \<times> bytes) \<Rightarrow> int \<Rightarrow> aliasIndexer \<Rightarrow> indexer_event list \<Rightarrow>
    ('w, aliasIndexer \<times> bool) act" where
  "indexer_Run D conns parse unmarshal answer now_unix i es =
     (let i = startIMAPWatchers i; i = (if registry_ticks i then refresh_in_run unmarshal answer i else i)
      in act_bind (pollAll D conns parse now_unix i False) (\<lambda>_. run_events D conns parse unmarshal i es))"

definition indexer_Close :: "'w sqlite \<Rightarrow> aliasIndexer option \<Rightarrow> ('w, unit) act" where
  "indexer_Close D i =
     (case i of None \<Rightarrow> ok () | Some i \<Rightarrow> if ix_store i = None then ok () else store_Close D (ix_store i))"

subsection \<open>A message is stored once\<close>

lemma mark_lawsD:
  assumes "sql_ok D \<alpha> \<tau>"
  shows "query_law \<alpha> (q_select_state D k) (\<lambda>t. T_state t k)"
    "exec_law \<alpha> (q_upsert_state D k) (\<lambda>t. t\<lparr>T_state := (T_state t)(k \<mapsto> ''baseline'')\<rparr>)"
    "exec_law \<alpha> (q_insert_uidl D m u ts) (uidl_row m ts u)"
    "act_ok (q_select_uidls D m) w (\<lambda>r w'. \<alpha> w' = \<alpha> w
       \<and> (case r of Inl e \<Rightarrow> True | Inr us \<Rightarrow> set us = {u. T_uidl (\<alpha> w) (m, u) \<noteq> None}))"
    "query_law \<alpha> (q_exists_seen D m u) (\<lambda>t. T_seen t (m, u) \<noteq> None)"
    "exec_law \<alpha> (q_insert_seen D m u ts) (seen_row m ts u)"
  using assms unfolding uidl_row_def [abs_def] seen_row_def [abs_def]
  by (simp_all add: sql_ok_def mark_laws_def)

lemma IsSeenMessage_ok:
  assumes "sql_ok D \<alpha> \<tau>" and "IsSeenMessage D s key mid w = Done (r, w')"
  shows "\<alpha> w' = \<alpha> w \<and> (\<forall>x. r = Inr x \<longrightarrow>
    x = (normalizeMessageID mid \<noteq> [] \<and> T_seen (\<alpha> w) (trim_space key, normalizeMessageID mid) \<noteq> None))"
  using assms(2) query_lawD [OF mark_lawsD(5) [OF assms(1)], of "trim_space key" "normalizeMessageID mid" w r w']
  by (auto simp: IsSeenMessage_def Let_def act_simps split: if_splits)

lemma MarkSeenMessage_ok:
  assumes "sql_ok D \<alpha> \<tau>" and "MarkSeenMessage D ts s key mid w = Done (r, w')"
  shows "\<alpha> w' = (case r of Inl e \<Rightarrow> \<alpha> w
    | Inr _ \<Rightarrow> if normalizeMessageID mid = [] then \<alpha> w else seen_row (trim_space key) ts (normalizeMessageID mid) (\<alpha> w))"
  using assms(2) exec_lawD [OF mark_lawsD(6) [OF assms(1)], of "trim_space key" "normalizeMessageID mid" ts w r w']
  by (auto simp: MarkSeenMessage_def Let_def act_simps split: if_splits)

lemma MarkUIDLKnown_ok:
  assumes "sql_ok D \<alpha> \<tau>" and "MarkUIDLKnown D ts s key u w = Done (Inr x, w')"
  shows "\<alpha> w' = (if trim_space u = [] then \<alpha> w else uidl_row (trim_space key) ts (trim_space u) (\<alpha> w))"
  using assms(2) exec_lawD [OF mark_lawsD(3) [OF assms(1)], of "trim_space key" "trim_space u" ts w "Inr x" w']
  by (auto simp: MarkUIDLKnown_def Let_def act_simps split: if_splits)

lemma seen_row_simps [simp]:
  "T_threads (seen_row m ts u t) = T_threads t" "T_uidl (seen_row m ts u t) = T_uidl t"
  "T_cursor (seen_row m ts u t) = T_cursor t" "T_state (seen_row m ts u t) = T_state t"
  "T_seen (seen_row m ts u t) k = (if k = (m, u) \<and> T_seen t k = None then Some ts else T_seen t k)"
  by (auto simp: seen_row_def insert_new_def)

lemma uidl_row_simps [simp]:
  "T_threads (uidl_row m ts u t) = T_threads t" "T_seen (uidl_row m ts u t) = T_seen t"
  "T_cursor (uidl_row m ts u t) = T_cursor t" "T_state (uidl_row m ts u t) = T_state t"
  "T_uidl (uidl_row m ts u t) k = (if k = (m, u) \<and> T_uidl t k = None then Some ts else T_uidl t k)"
  by (auto simp: uidl_row_def insert_new_def)

text \<open>The tables after a message has been handled, by the outcome; \<open>mid\<close> is the key of the message.\<close>

definition indexed_tables :: "int \<Rightarrow> parsedMailHeaders \<Rightarrow> indexMessageOpts \<Rightarrow> bytes \<Rightarrow> indexMessageOutcome \<Rightarrow> tables \<Rightarrow> tables \<Rightarrow> bool" where
  "indexed_tables ts h opts mid out t t' \<longleftrightarrow>
     (let mark = (if mid = [] then id else seen_row (trim_space (io_mailboxKey opts)) ts mid)
      in case out of
           outcomeSkippedSeen \<Rightarrow> t' = t
         | outcomeIndexed \<Rightarrow> mid \<noteq> [] \<and> (\<exists>a ra fr. extractReplyAsAddress h (io_mailboxUser opts) = Done a
             \<and> normalizeEmailAddress a = Done ra \<and> ra \<noteq> [] \<and> fr \<noteq> []
             \<and> t' = mark (t\<lparr>T_threads := (T_threads t)(mid \<mapsto> (ra, fr, trim_space (io_tenantID opts), ts))\<rparr>))
         | _ \<Rightarrow> t' = mark t)"

lemma mark_if_ok:
  assumes "sql_ok D \<alpha> \<tau>" and "mark_if D ts s key mid w = Done (Inr x, w')"
  shows "\<alpha> w' = (if normalizeMessageID mid = [] then \<alpha> w else seen_row (trim_space key) ts (normalizeMessageID mid) (\<alpha> w))"
proof (cases "mid = []")
  case True
  then have "normalizeMessageID mid = []" by (simp add: normalizeMessageID_def trim_space_def)
  with True assms(2) show ?thesis by (simp add: mark_if_def act_simps)
next
  case False
  with assms(2) MarkSeenMessage_ok [OF assms(1), of ts s key mid w "Inr x" w'] show ?thesis by (simp add: mark_if_def)
qed

lemma index_seen:
  assumes "sql_ok D \<alpha> \<tau>" and "(if mid \<noteq> [] then IsSeenMessage D s key mid else ok False) w = Done (r, w')"
  shows "\<alpha> w' = \<alpha> w \<and> (\<forall>x. r = Inr x \<longrightarrow>
    x = (normalizeMessageID mid \<noteq> [] \<and> T_seen (\<alpha> w) (trim_space key, normalizeMessageID mid) \<noteq> None))"
proof (cases "mid = []")
  case True
  then have "normalizeMessageID mid = []" by (simp add: normalizeMessageID_def trim_space_def)
  with True assms(2) show ?thesis by (auto simp: act_simps)
qed (use assms(2) IsSeenMessage_ok [OF assms(1)] in simp)

lemma store_and_mark:
  assumes "sql_ok D \<alpha> \<tau>" and "UpsertThread D ts s \<lparr>tMessageID = mid, tReplyAs = a, tOrigFrom = b, tTenantID = tid,
      tCreatedAt = Some ts\<rparr> w = Done (Inr u, w1)" and "MarkSeenMessage D ts s key mid w1 = Done (Inr v, w')"
  shows "normalizeMessageID mid \<noteq> [] \<and> (\<exists>ra fr. normalizeEmailAddress a = Done ra \<and> ra \<noteq> [] \<and> fr \<noteq> []
    \<and> \<alpha> w' = seen_row (trim_space key) ts (normalizeMessageID mid)
        ((\<alpha> w)\<lparr>T_threads := (T_threads (\<alpha> w))(normalizeMessageID mid \<mapsto> (ra, fr, trim_space tid, ts))\<rparr>))"
  by (rule UpsertThread_ok [OF assms(1,2)]) (use MarkSeenMessage_ok [OF assms(1,3)] in \<open>auto simp: stored_thread_def\<close>)

lemma index_unseen_ok:
  assumes "sql_ok D \<alpha> \<tau>" and i: "index_unseen D ts s h opts mid w = Done (Inr out, w')"
  shows "indexed_tables ts h opts (normalizeMessageID mid) out (\<alpha> w) (\<alpha> w') \<and> out \<noteq> outcomeSkippedSeen"
proof -
  let ?key = "io_mailboxKey opts"
  let ?th = "\<lambda>a b. \<lparr>tMessageID = mid, tReplyAs = a, tOrigFrom = b, tTenantID = io_tenantID opts, tCreatedAt = Some ts\<rparr>"
  from i consider x where "out = outcomeSkippedDate \<or> out = outcomeNotIndexable" "mark_if D ts s ?key mid w = Done (Inr x, w')"
    | a b w1 x y where "out = outcomeIndexed" "extractReplyAsAddress h (io_mailboxUser opts) = Done a"
        "UpsertThread D ts s (?th a b) w = Done (Inr x, w1)" "MarkSeenMessage D ts s ?key mid w1 = Done (Inr y, w')"
    by (auto simp: index_unseen_def Let_def act_simps split: if_splits)
  then show ?thesis
  proof cases
    case 1
    then show ?thesis using mark_if_ok [OF assms(1) 1(2)] by (auto simp: indexed_tables_def)
  next
    case 2
    then show ?thesis using store_and_mark [OF assms(1) 2(3,4)] by (auto simp: indexed_tables_def)
  qed
qed

lemma index_ok:
  assumes D: "sql_ok D \<alpha> \<tau>" and i: "indexMessageFromHeaders D ts s h opts w = Done (Inr out, w')"
  defines "mid \<equiv> normalizeMessageID (normalizeMessageID (hMessageID h))"
  shows "indexed_tables ts h opts mid out (\<alpha> w) (\<alpha> w')
    \<and> (out = outcomeSkippedSeen \<longleftrightarrow> mid \<noteq> [] \<and> T_seen (\<alpha> w) (trim_space (io_mailboxKey opts), mid) \<noteq> None)"
proof -
  let ?m = "normalizeMessageID (hMessageID h)" and ?key = "io_mailboxKey opts"
  from i obtain seen w1 where s: "(if ?m \<noteq> [] then IsSeenMessage D s ?key ?m else ok False) w = Done (Inr seen, w1)"
    and j: "(if seen then ok outcomeSkippedSeen else index_unseen D ts s h opts ?m) w1 = Done (Inr out, w')"
    unfolding indexMessageFromHeaders_def Let_def act_bind_Done [of _ _ w] by blast
  have w1: "\<alpha> w1 = \<alpha> w" and seen: "seen = (mid \<noteq> [] \<and> T_seen (\<alpha> w) (trim_space ?key, mid) \<noteq> None)"
    using index_seen [OF D s] by (simp_all add: mid_def)
  show ?thesis
  proof (cases seen)
    case True
    then show ?thesis using j w1 seen by (simp add: indexed_tables_def act_simps)
  next
    case False
    with j have "index_unseen D ts s h opts ?m w1 = Done (Inr out, w')" by simp
    from index_unseen_ok [OF D this] w1 seen False show ?thesis by (simp add: mid_def)
  qed
qed


subsection \<open>A polled mailbox\<close>

text \<open>The connection to a mail server does not touch the database.\<close>

definition quiet :: "('w \<Rightarrow> 't) \<Rightarrow> ('w, 'a) act \<Rightarrow> bool" where
  "quiet \<alpha> m \<longleftrightarrow> (\<forall>w r w'. m w = Done (r, w') \<longrightarrow> \<alpha> w' = \<alpha> w)"

definition conn_quiet :: "('w \<Rightarrow> tables) \<Rightarrow> 'w conn \<Rightarrow> bool" where
  "conn_quiet \<alpha> c \<longleftrightarrow> (\<forall>h p t. quiet \<alpha> (c_dial c h p t)) \<and> quiet \<alpha> (c_read c) \<and> (\<forall>l. quiet \<alpha> (c_write c l))
     \<and> quiet \<alpha> (c_close c)"

lemma quietD: "quiet \<alpha> m \<Longrightarrow> m w = Done (r, w') \<Longrightarrow> \<alpha> w' = \<alpha> w"
  by (simp add: quiet_def)

lemma quiet_bind [intro]:
  assumes "quiet \<alpha> m" and "\<And>x. quiet \<alpha> (f x)"
  shows "quiet \<alpha> (act_bind m f)"
  unfolding quiet_def
proof (intro allI impI)
  fix w r w' assume "act_bind m f w = Done (r, w')"
  then consider e where "m w = Done (Inl e, w')" | x w1 where "m w = Done (Inr x, w1)" "f x w1 = Done (r, w')"
    by (auto simp: act_bind_Done)
  then show "\<alpha> w' = \<alpha> w" using quietD [OF assms(1)] quietD [OF assms(2)] by cases fastforce+
qed

lemma quiet_simple [simp, intro]:
  "quiet \<alpha> (ok x)" "quiet \<alpha> (fail e)" "quiet \<alpha> (lift_sum r)" "quiet \<alpha> (lift_run q)"
  by (auto simp: quiet_def act_simps)

lemma quiet_attempt [intro]: "quiet \<alpha> m \<Longrightarrow> quiet \<alpha> (attempt m)"
  by (auto simp: quiet_def act_simps)

lemma multiline_quiet:
  assumes "quiet \<alpha> (c_read c)" and "multiline_loop c lines w = Some (Done (r, w'))"
  shows "\<alpha> w' = \<alpha> w"
proof -
  have "quiet \<alpha> (c_read c) \<longrightarrow> (\<forall>r w'. Done (r0, w0) = Done (r, w') \<longrightarrow> \<alpha> w' = \<alpha> w)"
    if "multiline_loop c lines w = Some (Done (r0, w0))" for r0 w0
  proof (rule multiline_loop.raw_induct [where P = "\<lambda>c lines w q. quiet \<alpha> (c_read c) \<longrightarrow>
      (\<forall>r w'. q = Done (r, w') \<longrightarrow> \<alpha> w' = \<alpha> w)", OF _ that])
    fix f c lines w q
    assume ih: "\<And>c lines w q. f c lines w = Some q \<Longrightarrow> quiet \<alpha> (c_read c) \<longrightarrow> (\<forall>r w'. q = Done (r, w') \<longrightarrow> \<alpha> w' = \<alpha> w)"
      and b: "(case c_read c w of Blocks \<Rightarrow> None | Crash m \<Rightarrow> Some (Crash m)
        | Done rw \<Rightarrow> (case fst rw of Inl err \<Rightarrow> Some (Done (Inl err, snd rw))
            | Inr line \<Rightarrow> if line = ''.'' then Some (Done (Inr lines, snd rw)) else f c (lines @ [unstuff line]) (snd rw)))
        = Some q"
    show "quiet \<alpha> (c_read c) \<longrightarrow> (\<forall>r w'. q = Done (r, w') \<longrightarrow> \<alpha> w' = \<alpha> w)"
      using b ih [of c _ _ q] by (fastforce simp: quiet_def split: run.splits sum.splits if_splits)
  qed
  with assms show ?thesis by blast
qed

lemma quiet_commands:
  assumes "conn_quiet \<alpha> c"
  shows "quiet \<alpha> (cmd c l)" "quiet \<alpha> (readMultiline c)" "quiet \<alpha> (readPositive c)"
proof -
  have c: "quiet \<alpha> (c_read c)" "\<And>l. quiet \<alpha> (c_write c l)" using assms by (simp_all add: conn_quiet_def)
  show "quiet \<alpha> (cmd c l)" unfolding cmd_def readResponse_def using c by (auto intro!: quiet_bind)
  show "quiet \<alpha> (readMultiline c)"
    using multiline_quiet [OF c(1)] by (auto simp: quiet_def readMultiline_def split: option.splits)
  show "quiet \<alpha> (readPositive c)" unfolding readPositive_def using c by (auto intro!: quiet_bind)
qed

lemma quiet_pop3:
  assumes "conn_quiet \<alpha> c"
  shows "quiet \<alpha> (dialPOP3 c h p t)" "quiet \<alpha> (pop3_Auth c u pw)" "quiet \<alpha> (pop3_UIDL c)" "quiet \<alpha> (pop3_Top c n k)"
    "quiet \<alpha> (pop3_Close c)"
proof -
  have c: "quiet \<alpha> (c_dial c h p t)" "quiet \<alpha> (c_close c)" using assms by (simp_all add: conn_quiet_def)
  note q = quiet_commands [OF assms]
  show "quiet \<alpha> (dialPOP3 c h p t)" unfolding dialPOP3_def using c q by (auto intro!: quiet_bind split: sum.splits)
  show "quiet \<alpha> (pop3_Auth c u pw)" unfolding pop3_Auth_def using q by (auto intro!: quiet_bind)
  show "quiet \<alpha> (pop3_UIDL c)" unfolding pop3_UIDL_def using q by (auto intro!: quiet_bind)
  show "quiet \<alpha> (pop3_Top c n k)" unfolding pop3_Top_def Let_def using q by (auto intro!: quiet_bind)
  show "quiet \<alpha> (pop3_Close c)" unfolding pop3_Close_def using c q by (auto intro!: quiet_bind)
qed

lemma fields_acc_words:
  "list_all (\<lambda>c. \<not> is_space c) acc \<Longrightarrow> u \<in> set (fields_acc acc s) \<Longrightarrow> u \<noteq> [] \<and> list_all (\<lambda>c. \<not> is_space c) u"
proof (induction s arbitrary: acc)
  case (Cons x xs)
  then show ?case
  proof (cases "is_space x")
    case True
    then show ?thesis using Cons.IH [of "[]"] Cons.prems by (cases "acc = []") auto
  qed (use Cons.IH [of "x # acc"] Cons.prems in simp)
qed (auto split: if_splits)

lemma uidl_lines_trimmed: "item \<in> set (uidl_lines raw) \<Longrightarrow> snd item \<noteq> [] \<and> trim_space (snd item) = snd item"
proof (induction raw)
  case (Cons line raw)
  have word: "u \<noteq> [] \<and> trim_space u = u" if "u \<in> set (Prelude.fields line)" for u
  proof -
    have "u \<noteq> [] \<and> list_all (\<lambda>c. \<not> is_space c) u"
      by (rule fields_acc_words [of "[]"]) (use that in \<open>simp_all add: Prelude.fields_def\<close>)
    then show ?thesis using trim_space_surround [of u "[]" "[]"] by (simp add: list_all_iff)
  qed
  from Cons.prems consider "item \<in> set (uidl_lines raw)" | n u l where "Prelude.fields line = n # u # l" "snd item = u"
    by (auto split: list.splits option.splits)
  then show ?case by cases (use Cons.IH word in simp_all)
qed simp

text \<open>The identifiers that a mailbox knows, and that a step keeps the ones that are known.\<close>

definition known_uidls :: "tables \<Rightarrow> bytes \<Rightarrow> bytes set" where
  "known_uidls t key = {u. T_uidl t (trim_space key, u) \<noteq> None}"

lemma index_keeps_known:
  "sql_ok D \<alpha> \<tau> \<Longrightarrow> indexMessageFromHeaders D ts s h opts w = Done (Inr out, w') \<Longrightarrow> T_uidl (\<alpha> w') = T_uidl (\<alpha> w)"
  using index_ok [of D \<alpha> \<tau> ts s h opts w out w']
  by (cases out) (auto simp: indexed_tables_def Let_def split: if_splits)

lemma mark_known:
  assumes "sql_ok D \<alpha> \<tau>" and "MarkUIDLKnown D ts s key u w = Done (Inr x, w')"
  shows "known_uidls (\<alpha> w) key \<subseteq> known_uidls (\<alpha> w') key \<and> (trim_space u \<noteq> [] \<longrightarrow> trim_space u \<in> known_uidls (\<alpha> w') key)"
  using MarkUIDLKnown_ok [OF assms] by (auto simp: known_uidls_def)

lemma poll_step:
  assumes D: "sql_ok D \<alpha> \<tau>" and q: "conn_quiet \<alpha> c" and "snd item \<notin> known"
    and "poll_messages D c parse ts s opts known (item # items) w = Done (Inr x, w')"
  obtains w1 where "poll_messages D c parse ts s opts known items w1 = Done (Inr x, w')"
    and "known_uidls (\<alpha> w) (io_mailboxKey opts) \<subseteq> known_uidls (\<alpha> w1) (io_mailboxKey opts)"
    and "trim_space (snd item) \<noteq> [] \<longrightarrow> trim_space (snd item) \<in> known_uidls (\<alpha> w1) (io_mailboxKey opts)"
proof -
  let ?key = "io_mailboxKey opts"
  from assms(3,4) obtain raw wt where t: "pop3_Top c (fst item) 128 w = Done (Inr raw, wt)"
    and k: "(case parse raw of
               Inl err \<Rightarrow> act_bind (MarkUIDLKnown D ts s ?key (snd item)) (\<lambda>_. poll_messages D c parse ts s opts known items)
             | Inr headers \<Rightarrow> act_bind (indexMessageFromHeaders D ts s headers opts) (\<lambda>_.
                 act_bind (MarkUIDLKnown D ts s ?key (snd item)) (\<lambda>_. poll_messages D c parse ts s opts known items))) wt
           = Done (Inr x, w')"
    by (auto simp: act_bind_Done [of _ _ w])
  have wt: "known_uidls (\<alpha> wt) ?key = known_uidls (\<alpha> w) ?key" using quietD [OF quiet_pop3(4) [OF q] t] by simp
  obtain wi u w1 where i: "T_uidl (\<alpha> wi) = T_uidl (\<alpha> wt)"
      and m: "MarkUIDLKnown D ts s ?key (snd item) wi = Done (Inr u, w1)"
      and p: "poll_messages D c parse ts s opts known items w1 = Done (Inr x, w')"
  proof (cases "parse raw")
    case (Inl e)
    with k that [of wt] show thesis by (auto simp: act_simps)
  next
    case (Inr h)
    with k obtain out wi where "indexMessageFromHeaders D ts s h opts wt = Done (Inr out, wi)"
        "act_bind (MarkUIDLKnown D ts s ?key (snd item)) (\<lambda>_. poll_messages D c parse ts s opts known items) wi = Done (Inr x, w')"
      by (auto simp: act_bind_Done [of _ _ wt])
    with index_keeps_known [OF D this(1)] that [of wi] show thesis by (auto simp: act_simps)
  qed
  have "known_uidls (\<alpha> wi) ?key = known_uidls (\<alpha> w) ?key" using i wt by (simp add: known_uidls_def)
  with mark_known [OF D m] that [OF p] show ?thesis by simp
qed

lemma poll_messages_ok:
  assumes "sql_ok D \<alpha> \<tau>" and "conn_quiet \<alpha> c" and "poll_messages D c parse ts s opts known items w = Done (Inr x, w')"
  shows "known_uidls (\<alpha> w) (io_mailboxKey opts) \<subseteq> known_uidls (\<alpha> w') (io_mailboxKey opts)
    \<and> (\<forall>item \<in> set items. snd item \<in> known \<or> trim_space (snd item) = [] \<or> trim_space (snd item) \<in> known_uidls (\<alpha> w') (io_mailboxKey opts))"
  using assms(3)
proof (induction items arbitrary: w)
  case Nil
  then show ?case by (simp add: act_simps)
next
  case (Cons item items)
  show ?case
  proof (cases "snd item \<in> known")
    case True
    then show ?thesis using Cons by auto
  next
    case False
    from poll_step [OF assms(1,2) this Cons.prems] Cons.IH show ?thesis by (metis set_ConsD subsetD subset_trans)
  qed
qed

lemma poll_known: "\<forall>item \<in> set items. snd item \<in> known \<Longrightarrow> poll_messages D c parse ts s opts known items = ok ()"
  by (induction items) auto

lemma KnownUIDLs_ok:
  assumes "sql_ok D \<alpha> \<tau>" and "KnownUIDLsForMailbox D s key w = Done (Inr known, w')"
  shows "\<alpha> w' = \<alpha> w \<and> known = known_uidls (\<alpha> w) key"
proof -
  from assms(2) obtain rows where "q_select_uidls D (trim_space key) w = Done (Inr rows, w')" "known = set rows"
    by (auto simp: KnownUIDLsForMailbox_def act_simps split: if_splits)
  with act_okD [OF mark_lawsD(4) [OF assms(1)]] show ?thesis by (fastforce simp: known_uidls_def)
qed

lemma HasBaseline_quiet: "sql_ok D \<alpha> \<tau> \<Longrightarrow> quiet \<alpha> (HasBaseline D s key)"
proof -
  assume D: "sql_ok D \<alpha> \<tau>"
  have "quiet \<alpha> (q_select_state D key)" using query_lawD [OF mark_lawsD(1) [OF D]] by (auto simp: quiet_def)
  then show ?thesis by (auto simp: HasBaseline_def intro!: quiet_bind split: option.splits)
qed

lemma baseline_known:
  assumes D: "sql_ok D \<alpha> \<tau>" and "\<not> not_open s" and "MarkUIDLsKnown D ts s key us w = Done (Inr x, w1)"
    and "SetBaseline D s key w1 = Done (Inr y, w')" and "u \<in> set us" and "u \<noteq> []" and "trim_space u = u"
  shows "u \<in> known_uidls (\<alpha> w') key"
proof -
  from act_okD [OF MarkUIDLsKnown_ok [OF D assms(2)] assms(3)]
  obtain j where j: "\<alpha> w1 = marks trim_space (uidl_row (trim_space key) ts) (take (j * aliasIndexUIDLBatchSize) us) (\<alpha> w)"
      "length us \<le> j * aliasIndexUIDLBatchSize" by (auto simp: batched_def)
  then have w1: "\<alpha> w1 = marks trim_space (uidl_row (trim_space key) ts) us (\<alpha> w)" by simp
  have "(trim_space key, u) \<in> (\<lambda>i. (trim_space key, trim_space i)) ` set us" using assms(5,7) by (metis imageI)
  then have "T_uidl (\<alpha> w1) (trim_space key, u) \<noteq> None" using assms(6) unfolding w1 marks_uidl by simp
  moreover have "T_uidl (\<alpha> w') = T_uidl (\<alpha> w1)"
    using assms(2,4) exec_lawD [OF mark_lawsD(2) [OF D]] by (auto simp: SetBaseline_def split: if_splits)
  ultimately show ?thesis by (simp add: known_uidls_def)
qed

lemma poll_session_known:
  assumes D: "sql_ok D \<alpha> \<tau>" and q: "conn_quiet \<alpha> c" and i: "\<not> not_open (ix_store i)"
    and "poll_session D c parse ts i account w = Done (Inr (), w')"
  shows "\<exists>wu uidls w1. pop3_UIDL c wu = Done (Inr uidls, w1) \<and> snd ` set uidls \<subseteq> known_uidls (\<alpha> w') (pop3_MailboxKey account)"
proof -
  let ?key = "pop3_MailboxKey account" and ?opts = "index_opts i account (pop3_MailboxKey account) []"
  from assms(4) obtain wu uidls w1 base w2 where u: "pop3_UIDL c wu = Done (Inr uidls, w1)"
    and b: "(if ai_SkipExistingOnStart (ix_cfg i) \<and> \<not> base
        then act_bind (MarkUIDLsKnown D ts (ix_store i) ?key (map snd uidls)) (\<lambda>_. SetBaseline D (ix_store i) ?key)
        else act_bind (KnownUIDLsForMailbox D (ix_store i) ?key) (\<lambda>known.
               poll_messages D c parse ts (ix_store i) ?opts known uidls)) w2 = Done (Inr (), w')"
    unfolding poll_session_def Let_def by (simp only: act_bind_Done [of _ _ w]) (auto simp only: act_bind_Done [of "pop3_UIDL c"] act_bind_Done [of "HasBaseline D _ _"])
  have t: "snd item \<noteq> [] \<and> trim_space (snd item) = snd item" if "item \<in> set uidls" for item
  proof -
    obtain raw where "uidls = uidl_lines raw" using u by (auto simp: pop3_UIDL_def act_simps)
    with uidl_lines_trimmed [of item raw] that show ?thesis by simp
  qed
  have "snd item \<in> known_uidls (\<alpha> w') ?key" if item: "item \<in> set uidls" for item
  proof (cases "ai_SkipExistingOnStart (ix_cfg i) \<and> \<not> base")
    case True
    with b obtain x w3 where "MarkUIDLsKnown D ts (ix_store i) ?key (map snd uidls) w2 = Done (Inr x, w3)"
        "SetBaseline D (ix_store i) ?key w3 = Done (Inr (), w')" by (auto simp: act_simps)
    from baseline_known [OF D i this, of "snd item"] t [OF item] item show ?thesis by simp
  next
    case False
    with b obtain known w3 where k: "KnownUIDLsForMailbox D (ix_store i) ?key w2 = Done (Inr known, w3)"
        "poll_messages D c parse ts (ix_store i) ?opts known uidls w3 = Done (Inr (), w')" by (auto simp: act_simps)
    from poll_messages_ok [OF D q k(2)] KnownUIDLs_ok [OF D k(1)] t [OF item] item show ?thesis
      by (auto simp: index_opts_def)
  qed
  with u show ?thesis by blast
qed

text \<open>
  C15: A poll of a mailbox that ends without an error leaves no message behind: every identifier that the
  server has listed in it is known afterwards, so the loop over the same list finds nothing to fetch.
\<close>

theorem polled_mailbox:
  assumes "sql_ok D \<alpha> \<tau>" and "conn_quiet \<alpha> c" and "\<not> not_open (ix_store i)"
    and "pollMailbox D c parse ts i account w = Done (Inr (), w')"
  shows "\<exists>wu uidls w1. pop3_UIDL c wu = Done (Inr uidls, w1)
    \<and> snd ` set uidls \<subseteq> known_uidls (\<alpha> w') (pop3_MailboxKey account)
    \<and> poll_messages D c parse ts' (ix_store i) (index_opts i account (pop3_MailboxKey account) [])
        (known_uidls (\<alpha> w') (pop3_MailboxKey account)) uidls = ok ()"
proof -
  from assms(4) obtain wd ws r where s: "poll_session D c parse ts i account wd = Done (Inr (), ws)"
    and c: "pop3_Close c ws = Done (r, w')"
    unfolding pollMailbox_def by (auto simp: act_simps)
  have "\<alpha> w' = \<alpha> ws" by (rule quietD [OF quiet_pop3(5) [OF assms(2)] c])
  with poll_session_known [OF assms(1-3) s] show ?thesis by (auto intro!: poll_known)
qed

subsection \<open>A message that stops the poll\<close>

text \<open>
  A Message-ID that is not empty in its normal form but whose normal form has an empty normal form
  itself (such as \<open>< < >\<close>) ends every poll of the mailbox: the poll fails at this message with the error
  of the store, before it has marked the message as known and before it has looked at any later one.
\<close>

theorem odd_message_id_stops_poll:
  assumes "pop3_Top c (fst item) 128 w = Done (Inr raw, w1)" and "snd item \<notin> known" and "parse raw = Inr h"
    and "normalizeMessageID (hMessageID h) \<noteq> []" and "normalizeMessageID (normalizeMessageID (hMessageID h)) = []"
    and "extractReplyAsAddress h (io_mailboxUser opts) = Done ra" and "ra \<noteq> []"
    and "extractFirstEmailFromHeader (hFrom h) = Done fr" and "fr \<noteq> []"
    and "\<not> too_old h opts" and "\<not> not_open s"
  shows "poll_messages D c parse ts s opts known (item # items) w = Done (Inl ''empty message_id'', w1)"
proof -
  have "indexMessageFromHeaders D ts s h opts w1 = Done (Inl ''empty message_id'', w1)"
    using assms(4-11) by (simp add: indexMessageFromHeaders_def index_unseen_def Let_def act_bind_def IsSeenMessage_def
        UpsertThread_def lift_run_def ok_def fail_def)
  with assms(1-3) show ?thesis by (simp add: act_bind_def)
qed

subsection \<open>Accounts from the registry\<close>

lemma refresh_watchers: "ix_watchers (refresh_in_run unmarshal a i) = ix_watchers i"
  by (auto simp: refresh_in_run_def refreshAccountsFromRegistry_def split: option.splits prod.splits)

lemma refresh_registered: "ai_Registry (ix_cfg (refresh_in_run unmarshal a i))
  = map_option (\<lambda>r. snd (Refresh unmarshal a r)) (ai_Registry (ix_cfg i))"
  by (auto simp: refresh_in_run_def refreshAccountsFromRegistry_def split: option.splits prod.splits)

text \<open>The answers of the service among the events, up to the end of \<open>Run\<close>.\<close>

fun registry_answers :: "indexer_event list \<Rightarrow> (bytes + (int \<times> bytes)) list" where
  "registry_answers [] = []"
| "registry_answers (Done_closed # es) = []"
| "registry_answers (Registry_tick a # es) = a # registry_answers es"
| "registry_answers (_ # es) = registry_answers es"

lemma Refresh_interval: "reg_PollInterval (snd (Refresh unmarshal a r)) = reg_PollInterval r"
  by (auto simp: Refresh_def applyTenants_def reg_PollInterval_def split: sum.splits prod.splits if_splits)

lemma run_events_registry:
  assumes "ai_Registry (ix_cfg i) = Some r" and "reg_PollInterval r > 0"
    and "run_events D conns parse unmarshal i es w = Done (Inr (i', b), w')"
  shows "ix_watchers i' = ix_watchers i \<and> ai_Registry (ix_cfg i') = Some (poller unmarshal (registry_answers es) r)"
  using assms
proof (induction D conns parse unmarshal i es arbitrary: r w rule: run_events.induct)
  case (4 D conns parse unmarshal i answer es)
  have t: "registry_ticks i" using "4.prems"(1,2) by (simp add: registry_ticks_def)
  have "ai_Registry (ix_cfg (refresh_in_run unmarshal answer i)) = Some (snd (Refresh unmarshal answer r))"
    using "4.prems"(1) by (simp add: refresh_registered)
  from "4.IH" [of "snd (Refresh unmarshal answer r)"] this "4.prems"(2,3) t show ?case
    by (simp add: Refresh_interval refresh_watchers)
qed (auto simp: act_simps)

text \<open>
  With a tenant registry, the mailboxes of a running indexer follow the answers of the registry, but its
  IMAP watchers do not: they are started once, for the accounts the registry has when \<open>Run\<close> is called.
  An IMAP account that a later refresh brings is known to the indexer and never watched.
\<close>

theorem watchers_fixed_at_start:
  assumes "ai_Registry (ix_cfg i) = Some r" and "reg_PollInterval r > 0" and "ix_watchers i = []"
    and "indexer_Run D conns parse unmarshal answer ts i es w = Done (Inr (i', b), w')"
  shows "currentAccounts i' = map snd (reg_POP3Accounts (poller unmarshal (answer # registry_answers es) r))
    \<and> currentIMAPAccounts i' = map snd (reg_IMAPAccounts (poller unmarshal (answer # registry_answers es) r))
    \<and> ix_watchers i' = map snd (reg_IMAPAccounts r)"
proof -
  define i1 where "i1 = refresh_in_run unmarshal answer (startIMAPWatchers i)"
  let ?r1 = "snd (Refresh unmarshal answer r)"
  have start: "ix_cfg (startIMAPWatchers i) = ix_cfg i" by (simp add: startIMAPWatchers_def)
  have w: "ix_watchers i1 = map snd (reg_IMAPAccounts r)"
    using assms(1,3) by (simp add: i1_def refresh_watchers startIMAPWatchers_def currentIMAPAccounts_def)
  have r1: "ai_Registry (ix_cfg i1) = Some ?r1" using assms(1) start by (simp add: i1_def refresh_registered)
  have t: "registry_ticks (startIMAPWatchers i)" using assms(1,2) start by (simp add: registry_ticks_def)
  from assms(4) t obtain w1 where "run_events D conns parse unmarshal i1 es w1 = Done (Inr (i', b), w')"
    by (auto simp: indexer_Run_def Let_def i1_def act_simps)
  from run_events_registry [OF r1 _ this] w assms(2) show ?thesis
    by (simp add: currentAccounts_def currentIMAPAccounts_def Refresh_interval)
qed

subsection \<open>Accounts of the configuration\<close>

lemma contains_middle: "contains (a @ pat @ b) pat"
proof -
  have "sublist pat (a @ pat @ b)" by (auto simp: sublist_def)
  then have "index_of pat (a @ pat @ b) \<noteq> None" by (simp add: index_of_None_iff)
  then show ?thesis by (auto simp: contains_def)
qed

lemma parse_accounts_bad:
  assumes "\<And>m' e. f m' = Inl e \<Longrightarrow> contains e ''is required''" and "\<forall>item \<in> set items. \<exists>m. item = GMap m"
    and "m \<in> set items" and "m = GMap m0" and "f m0 = Inl e0"
  shows "\<exists>e. parse_accounts key f n items = Inl e \<and> contains e ''is required''"
  using assms(2,3)
proof (induction items arbitrary: n)
  case (Cons item items)
  obtain m1 where m1: "item = GMap m1" using Cons.prems(1) by auto
  have wrap: "contains (key @ ''['' @ show_nat n @ '']: '' @ e) ''is required''" if "contains e ''is required''" for e
  proof -
    have "sublist ''is required'' e" using that index_of_None_iff [of "''is required''" e] by (auto simp: contains_def)
    then obtain a b where "e = a @ ''is required'' @ b" by (auto simp: sublist_def)
    then show ?thesis using contains_middle [of "key @ ''['' @ show_nat n @ '']: '' @ a" "''is required''" b] by simp
  qed
  show ?case
  proof (cases "f m1")
    case (Inl e)
    then show ?thesis using m1 wrap assms(1) by auto
  next
    case (Inr a)
    then have "m \<in> set items" using Cons.prems(2) m1 assms(4,5) by auto
    with Cons.IH [of "n + 1"] Cons.prems(1) Inr m1 show ?thesis by auto
  qed
qed simp

lemma pop3_map_errors: "parseAliasPOP3AccountMap m = Inl e \<Longrightarrow> contains e ''is required''"
proof -
  have "contains ''alias_index pop3 host is required'' ''is required''" by code_simp
  moreover have "contains (''alias_index pop3 user is required for host '' @ x) ''is required''" for x
    using contains_middle [of "''alias_index pop3 user ''" "''is required''" "'' for host '' @ x"] by simp
  ultimately show "parseAliasPOP3AccountMap m = Inl e \<Longrightarrow> contains e ''is required''"
    by (auto simp: parseAliasPOP3AccountMap_def pop3_validate_def Let_def split: if_splits)
qed

text \<open>
  One entry of \<open>alias_index_pop3_accounts\<close> without a host or a user makes the whole list disappear: the
  configuration is accepted without an error and has no POP3 account at all, whatever the other entries
  are, because the error of the entry contains the words that mark a missing list.
\<close>

theorem incomplete_account_drops_all:
  assumes "map_of c ''alias_index_pop3_accounts'' = Some (GArr items)" and "\<forall>item \<in> set items. \<exists>m. item = GMap m"
    and "GMap m \<in> set items" and "pop3_validate (account_of_map 995 m) \<noteq> None"
    and "AliasIndexerConfigFromBackend parseDuration parseDate c = r"
  shows "optional_accounts (parseAliasPOP3Accounts c) = Inr [] \<and> (\<forall>cfg. r = Inr cfg \<longrightarrow> ai_Accounts cfg = [])"
proof -
  from assms(4) obtain e0 where e0: "parseAliasPOP3AccountMap m = Inl e0"
    by (auto simp: parseAliasPOP3AccountMap_def Let_def)
  have "\<exists>e. parse_accounts ''alias_index_pop3_accounts'' parseAliasPOP3AccountMap 0 items = Inl e \<and> contains e ''is required''"
    using assms(2,3) e0 by (intro parse_accounts_bad [where m = "GMap m" and ?m0.0 = m and ?e0.0 = e0]) (simp_all add: pop3_map_errors)
  then obtain e where "parse_accounts ''alias_index_pop3_accounts'' parseAliasPOP3AccountMap 0 items = Inl e"
      "contains e ''is required''" by blast
  then have a: "optional_accounts (parseAliasPOP3Accounts c) = Inr []"
    using assms(1) by (simp add: parseAliasPOP3Accounts_def set_value_def parseAliasPOP3AccountsList_def optional_accounts_def)
  with assms(5) show ?thesis
    by (auto simp: AliasIndexerConfigFromBackend_def Let_def sum_bind_def split: sum.splits)
qed

end
