(* ===== verification/Imap_Watcher.thy ===== *)
theory Imap_Watcher
  imports Alias_Index
begin

section \<open>The IMAP watcher (backends/imap_client.go, imap_watcher.go)\<close>

text \<open>
  The watcher of an IMAP account keeps, for every folder, the highest UID it has indexed and indexes the
  range up to the folder's UIDNEXT at each round. The IMAP library, the context of the goroutines and
  the clock are arguments, in the record \<open>env\<close>; UIDs are 32-bit words with their wrap-around. The order
  in which Go walks over a map is an argument too.

  The lemmas show that the UIDs of a round are exactly the new ones, that the batches cover them once
  and in order, that the cursor of a folder moves only when the whole range has been handled, and what
  the order of the folders is.
\<close>

subsection \<open>The client (imap_client.go)\<close>

record imapSelectResult =
  sel_UIDValidity :: "32 word"
  sel_NumMessages :: "32 word"
  sel_UIDNext :: "32 word"

record imapFetchedMessage =
  fm_UID :: "32 word"
  fm_Headers :: parsedMailHeaders

text \<open>The items of a message in the answer to a \<open>FETCH\<close>; the body section may fail to be read.\<close>

datatype fetch_item = FetchItemDataUID "32 word" | FetchItemDataBodySection "bytes + bytes" | FetchItemOther

record 'w imap_lib =
  im_dial :: "bytes \<Rightarrow> int \<Rightarrow> bool \<Rightarrow> ('w, unit) act"
  im_close :: "('w, unit) act"
  im_login :: "bytes \<Rightarrow> bytes \<Rightarrow> ('w, unit) act"
  im_list :: "('w, (bytes list \<times> bytes) list) act"
  im_select :: "bytes \<Rightarrow> ('w, imapSelectResult) act"
  im_search_all :: "('w, 32 word list) act"
  im_fetch :: "32 word list \<Rightarrow> ('w, fetch_item list list) act"
  im_fetch_close :: "('w, unit) act"
  im_idle :: "('w, unit) act"

datatype idle_event = Ctx_done | Notify | Resync | Idle_ended "bytes option"

record 'w ctx =
  x_err :: "('w, bytes option) act"
  x_sleep :: "int \<Rightarrow> ('w, bool) act"
  x_race :: "int \<Rightarrow> ('w, bytes option) act"
  x_select :: "('w, unit) act \<Rightarrow> ('w, idle_event) act"

record 'w env =
  e_db :: "'w sqlite"
  e_imap :: "'w imap_lib"
  e_ctx :: "'w ctx"
  e_parse :: "bytes \<Rightarrow> bytes + parsedMailHeaders"
  e_now :: int
  e_order :: "imapFetchedMessage list \<Rightarrow> imapFetchedMessage list"

abbreviation attrNoSelect :: bytes where "attrNoSelect \<equiv> [CHR 0x5C] @ ''Noselect''"

fun hasIMAPAttr :: "bytes list \<Rightarrow> bytes \<Rightarrow> bool" where
  "hasIMAPAttr [] target = False"
| "hasIMAPAttr (attr # attrs) target = (if attr = target then True else hasIMAPAttr attrs target)"

fun list_names :: "(bytes list \<times> bytes) list \<Rightarrow> bytes list" where
  "list_names [] = []"
| "list_names (mbox # mboxes) =
     (if hasIMAPAttr (fst mbox) attrNoSelect then list_names mboxes
      else if trim_space (snd mbox) = [] then list_names mboxes
      else trim_space (snd mbox) # list_names mboxes)"

definition ListFolders :: "'w imap_lib \<Rightarrow> ('w, bytes list) act" where
  "ListFolders L = act_bind (im_list L) (\<lambda>mailboxes. ok (list_names mailboxes))"

definition SelectFolder :: "'w imap_lib \<Rightarrow> bytes \<Rightarrow> ('w, imapSelectResult) act" where
  "SelectFolder L folder = im_select L folder"

definition UIDSearchAll :: "'w imap_lib \<Rightarrow> ('w, 32 word list) act" where
  "UIDSearchAll L = im_search_all L"

text \<open>The loops of \<open>FetchHeaderFields\<close>: over the items of a message and over the messages.\<close>

fun message_items :: "32 word \<times> bytes \<Rightarrow> fetch_item list \<Rightarrow> bytes + (32 word \<times> bytes)" where
  "message_items r [] = Inr r"
| "message_items r (item # items) =
     (case item of
        FetchItemDataUID uid \<Rightarrow> message_items (uid, snd r) items
      | FetchItemDataBodySection (Inl err) \<Rightarrow> Inl err
      | FetchItemDataBodySection (Inr b) \<Rightarrow> message_items (fst r, b) items
      | FetchItemOther \<Rightarrow> message_items r items)"

fun fetched_messages :: "(bytes \<Rightarrow> bytes + parsedMailHeaders) \<Rightarrow> fetch_item list list \<Rightarrow> bytes + imapFetchedMessage list" where
  "fetched_messages parse [] = Inr []"
| "fetched_messages parse (msg # msgs) =
     (case message_items (0, []) msg of
        Inl err \<Rightarrow> Inl err
      | Inr (uid, headerBytes) \<Rightarrow>
          if uid = 0 then fetched_messages parse msgs
          else (case parse headerBytes of
                  Inl err \<Rightarrow> fetched_messages parse msgs
                | Inr headers \<Rightarrow>
                    (case fetched_messages parse msgs of
                       Inl err \<Rightarrow> Inl err
                     | Inr out \<Rightarrow> Inr (\<lparr>fm_UID = uid, fm_Headers = headers\<rparr> # out))))"

definition FetchHeaderFields :: "'w imap_lib \<Rightarrow> (bytes \<Rightarrow> bytes + parsedMailHeaders) \<Rightarrow> 32 word list \<Rightarrow>
    ('w, imapFetchedMessage list) act" where
  "FetchHeaderFields L parse uids =
     (if uids = [] then ok []
      else act_bind (im_fetch L uids) (\<lambda>msgs.
             case fetched_messages parse msgs of
               Inl err \<Rightarrow> act_bind (attempt (im_fetch_close L)) (\<lambda>_. fail err)
             | Inr out \<Rightarrow> act_bind (im_fetch_close L) (\<lambda>_. ok out)))"

subsection \<open>Watcher and folders\<close>

record imapAccountWatcher =
  wa_account :: mailAccount
  wa_cfg :: imapWatcherConfig
  wa_indexer :: aliasIndexer

definition newIMAPAccountWatcher :: "mailAccount \<Rightarrow> imapWatcherConfig \<Rightarrow> aliasIndexer \<Rightarrow> imapAccountWatcher" where
  "newIMAPAccountWatcher account cfg indexer =
     \<lparr>wa_account = account, wa_cfg = imap_normalize cfg, wa_indexer = indexer\<rparr>"

abbreviation wa_store :: "imapAccountWatcher \<Rightarrow> aliasStore option" where
  "wa_store W \<equiv> ix_store (wa_indexer W)"

definition filterFolders :: "imapAccountWatcher \<Rightarrow> bytes list \<Rightarrow> bytes list" where
  "filterFolders W folders = filter (\<lambda>folder. folder \<notin> set (iw_ExcludeFolders (wa_cfg W))) folders"

definition is_inbox :: "bytes \<Rightarrow> bool" where
  "is_inbox folder \<longleftrightarrow> to_lower (trim_space folder) = to_lower ''INBOX''"

fun split_inbox :: "bytes list \<Rightarrow> bytes list \<Rightarrow> bytes list \<Rightarrow> bytes list" where
  "split_inbox out others [] = out @ others"
| "split_inbox out others (folder # folders) =
     (if is_inbox folder then split_inbox (out @ [folder]) others folders
      else split_inbox out (others @ [folder]) folders)"

definition prioritizeIMAPFolders :: "bytes list \<Rightarrow> bytes list" where
  "prioritizeIMAPFolders folders = (if length folders \<le> 1 then folders else split_inbox [] [] folders)"

subsection \<open>The new UIDs\<close>

fun maxIMAPUID :: "32 word \<Rightarrow> 32 word list \<Rightarrow> 32 word" where
  "maxIMAPUID m [] = m"
| "maxIMAPUID m (uid # uids) = maxIMAPUID (if uid > m then uid else m) uids"

definition newMailUIDRange :: "32 word \<Rightarrow> 32 word \<Rightarrow> 32 word \<times> 32 word \<times> bool" where
  "newMailUIDRange lastUID uidNext =
     (let fromUID = lastUID + 1
      in if uidNext = 0 \<or> uidNext - 1 < fromUID then (fromUID, 0, False) else (fromUID, uidNext - 1, True))"

text \<open>
  The loop that lists the UIDs of a batch. It ends for every \<open>end\<close> but the largest word, behind which
  the counter starts again at 0.
\<close>

partial_function (option) uid_list :: "32 word \<Rightarrow> 32 word \<Rightarrow> 32 word list \<Rightarrow> 32 word list option" where
  "uid_list uid end_uid batch = (if uid \<le> end_uid then uid_list (uid + 1) end_uid (batch @ [uid]) else Some batch)"

definition batch_end :: "32 word \<Rightarrow> 32 word \<Rightarrow> 32 word \<Rightarrow> 32 word" where
  "batch_end batchSize startUID toUID =
     (let end_uid = startUID + batchSize - 1 in if end_uid > toUID \<or> end_uid < startUID then toUID else end_uid)"

subsection \<open>Empty header blocks\<close>

definition headerBlockLooksEmpty :: "parsedMailHeaders \<Rightarrow> bool" where
  "headerBlockLooksEmpty h \<longleftrightarrow> hMessageID h = [] \<and> hFrom h = [] \<and> hTo h = []"

text \<open>
  The map from UIDs to messages is an association list without repeated keys: a later entry replaces
  an earlier one.
\<close>

fun by_uid :: "imapFetchedMessage list \<Rightarrow> (32 word \<times> imapFetchedMessage) list \<Rightarrow> (32 word \<times> imapFetchedMessage) list" where
  "by_uid [] m = m"
| "by_uid (msg # msgs) m = by_uid msgs (AList.update (fm_UID msg) msg m)"

fun merge_retried :: "(32 word \<times> imapFetchedMessage) list \<Rightarrow> 32 word list \<Rightarrow> (32 word \<times> imapFetchedMessage) list \<Rightarrow>
    32 word list \<times> (32 word \<times> imapFetchedMessage) list" where
  "merge_retried refetched [] m = ([], m)"
| "merge_retried refetched (uid # pend) m =
     (case map_of refetched uid of
        None \<Rightarrow> merge_retried refetched pend m
      | Some msg \<Rightarrow>
          if headerBlockLooksEmpty (fm_Headers msg)
          then (let (later, m) = merge_retried refetched pend m in (uid # later, m))
          else merge_retried refetched pend (AList.update uid msg m))"

abbreviation imapEmptyHeaderMaxRetries :: nat where "imapEmptyHeaderMaxRetries \<equiv> 3"

fun retry_loop :: "'w env \<Rightarrow> nat \<Rightarrow> 32 word list \<Rightarrow> (32 word \<times> imapFetchedMessage) list \<Rightarrow>
    ('w, (32 word \<times> imapFetchedMessage) list) act" where
  "retry_loop E 0 pend m = ok m"
| "retry_loop E (Suc n) pend m =
     (if pend = [] then ok m
      else act_bind (x_sleep (e_ctx E) (seconds 4)) (\<lambda>slept.
             if \<not> slept then ok m
             else act_bind (wrap_err ''retry fetch headers: '' (FetchHeaderFields (e_imap E) (e_parse E) pend)) (\<lambda>refetched.
                    let r = merge_retried (by_uid refetched []) pend m
                    in retry_loop E n (fst r) (snd r))))"

definition retryEmptyHeaderFetches :: "'w env \<Rightarrow> imapFetchedMessage list \<Rightarrow> ('w, imapFetchedMessage list) act" where
  "retryEmptyHeaderFetches E messages =
     (let pend = map fm_UID (filter (\<lambda>msg. headerBlockLooksEmpty (fm_Headers msg)) messages)
      in if pend = [] then ok messages
         else act_bind (retry_loop E imapEmptyHeaderMaxRetries pend (by_uid messages [])) (\<lambda>m.
                ok (e_order E (map snd m))))"

subsection \<open>Indexing a range\<close>

record imapIndexStats =
  st_indexed :: nat
  st_skippedSeen :: nat
  st_skippedOther :: nat

definition count_outcome :: "indexMessageOutcome \<Rightarrow> imapIndexStats \<Rightarrow> imapIndexStats" where
  "count_outcome out stats =
     (case out of
        outcomeIndexed \<Rightarrow> stats\<lparr>st_indexed := st_indexed stats + 1\<rparr>
      | outcomeSkippedSeen \<Rightarrow> stats\<lparr>st_skippedSeen := st_skippedSeen stats + 1\<rparr>
      | _ \<Rightarrow> stats\<lparr>st_skippedOther := st_skippedOther stats + 1\<rparr>)"

fun index_messages :: "'w env \<Rightarrow> imapAccountWatcher \<Rightarrow> bytes \<Rightarrow> bytes \<Rightarrow> imapIndexStats \<Rightarrow> imapFetchedMessage list \<Rightarrow>
    ('w, imapIndexStats) act" where
  "index_messages E W mailboxKey folder stats [] = ok stats"
| "index_messages E W mailboxKey folder stats (msg # msgs) =
     act_bind (indexMessageFromHeaders (e_db E) (e_now E) (wa_store W) (fm_Headers msg)
                 (index_opts (wa_indexer W) (wa_account W) mailboxKey folder)) (\<lambda>outcome.
       index_messages E W mailboxKey folder (count_outcome outcome stats) msgs)"

definition check_ctx :: "'w env \<Rightarrow> ('w, unit) act" where
  "check_ctx E = act_bind (x_err (e_ctx E)) (\<lambda>e. case e of None \<Rightarrow> ok () | Some err \<Rightarrow> fail err)"

definition index_batch :: "'w env \<Rightarrow> imapAccountWatcher \<Rightarrow> bytes \<Rightarrow> bytes \<Rightarrow> imapIndexStats \<Rightarrow> 32 word list \<Rightarrow>
    ('w, imapIndexStats) act" where
  "index_batch E W mailboxKey folder stats batch =
     act_bind (wrap_err ''fetch headers: '' (FetchHeaderFields (e_imap E) (e_parse E) batch)) (\<lambda>messages.
     act_bind (retryEmptyHeaderFetches E messages) (\<lambda>messages.
       index_messages E W mailboxKey folder stats messages))"

text \<open>The loop over the batches; on an error the statistics are not used.\<close>

lemma batch_end_less:
  assumes "startUID \<le> toUID" and "batch_end n startUID toUID \<noteq> toUID"
  shows "unat startUID < unat (batch_end n startUID toUID + 1) \<and> unat (batch_end n startUID toUID + 1) \<le> unat toUID"
proof -
  let ?e = "batch_end n startUID toUID"
  have e: "startUID \<le> ?e" "?e < toUID"
    using assms by (auto simp: batch_end_def Let_def word_le_less_eq split: if_splits)
  have "unat (?e + 1) = unat ?e + 1"
    using e(2) by unat_arith
  with e show ?thesis by (simp add: word_le_nat_alt word_less_nat_alt)
qed

function index_batches :: "'w env \<Rightarrow> imapAccountWatcher \<Rightarrow> bytes \<Rightarrow> bytes \<Rightarrow> 32 word \<Rightarrow> 32 word \<Rightarrow> imapIndexStats \<Rightarrow>
    ('w, imapIndexStats) act" where
  "index_batches E W mailboxKey folder startUID toUID stats =
     (if \<not> startUID \<le> toUID then ok stats
      else (let end_uid = batch_end (word_of_int (iw_SearchBatch (wa_cfg W))) startUID toUID
            in act_bind (check_ctx E) (\<lambda>_.
               act_bind (lift_run (case uid_list startUID end_uid [] of None \<Rightarrow> Blocks | Some batch \<Rightarrow> Done batch)) (\<lambda>batch.
               act_bind (index_batch E W mailboxKey folder stats batch) (\<lambda>stats.
                 if end_uid = toUID then ok stats
                 else index_batches E W mailboxKey folder (end_uid + 1) toUID stats)))))"
  by pat_completeness auto
termination
proof (relation "measure (\<lambda>(E, W, k, f, startUID, toUID, stats). unat toUID + 1 - unat startUID)")
  fix W :: imapAccountWatcher and startUID toUID e :: "32 word" and E :: "'w env" and k f and stats s :: imapIndexStats
  assume "\<not> \<not> startUID \<le> toUID" "e = batch_end (word_of_int (iw_SearchBatch (wa_cfg W))) startUID toUID" "e \<noteq> toUID"
  with batch_end_less [of startUID toUID "word_of_int (iw_SearchBatch (wa_cfg W))"]
  show "((E, W, k, f, e + 1, toUID, s), E, W, k, f, startUID, toUID, stats)
      \<in> measure (\<lambda>(E, W, k, f, startUID, toUID, stats). unat toUID + 1 - unat startUID)" by auto
qed auto

declare index_batches.simps [simp del]

definition no_stats :: imapIndexStats where
  "no_stats = \<lparr>st_indexed = 0, st_skippedSeen = 0, st_skippedOther = 0\<rparr>"

definition indexUIDRange :: "'w env \<Rightarrow> imapAccountWatcher \<Rightarrow> bytes \<Rightarrow> bytes \<Rightarrow> 32 word \<Rightarrow> 32 word \<Rightarrow>
    ('w, imapIndexStats) act" where
  "indexUIDRange E W mailboxKey folder fromUID toUID = index_batches E W mailboxKey folder fromUID toUID no_stats"

subsection \<open>One folder\<close>

text \<open>The result is the number of indexed messages and the last UID.\<close>

definition syncFolderUIDs :: "'w env \<Rightarrow> imapAccountWatcher \<Rightarrow> bytes \<Rightarrow> bytes \<Rightarrow> imapSelectResult \<Rightarrow> imapCursor option \<Rightarrow>
    ('w, nat \<times> 32 word) act" where
  "syncFolderUIDs E W mailboxKey folder selected cursor =
     act_bind (check_ctx E) (\<lambda>_.
       let lastUID = (case cursor of None \<Rightarrow> 0 | Some c \<Rightarrow> cLastUID c);
           (fromUID, toUID, hasNew) = newMailUIDRange lastUID (sel_UIDNext selected)
       in if \<not> hasNew then ok (0, lastUID)
          else act_bind (indexUIDRange E W mailboxKey folder fromUID toUID) (\<lambda>stats.
               act_bind (SetIMAPCursor (e_db E) (wa_store W) \<lparr>cMailbox = mailboxKey, cFolder = folder,
                           cUIDValidity = sel_UIDValidity selected, cLastUID = toUID,
                           cBaselineDone = (case cursor of None \<Rightarrow> True | Some c \<Rightarrow> cBaselineDone c)\<rparr>) (\<lambda>_.
                 ok (st_indexed stats, toUID))))"

text \<open>The messages of a batch of the baseline: their identifiers and the highest UID.\<close>

fun baseline_messages :: "32 word \<Rightarrow> bytes list \<times> 32 word \<Rightarrow> imapFetchedMessage list \<Rightarrow> bytes list \<times> 32 word" where
  "baseline_messages preMaxUID acc [] = acc"
| "baseline_messages preMaxUID acc (msg # msgs) =
     (let fetchedMaxUID = (if fm_UID msg > snd acc then fm_UID msg else snd acc);
          mid = normalizeMessageID (hMessageID (fm_Headers msg))
      in if fm_UID msg > preMaxUID then baseline_messages preMaxUID (fst acc, fetchedMaxUID) msgs
         else baseline_messages preMaxUID (if mid \<noteq> [] then fst acc @ [mid] else fst acc, fetchedMaxUID) msgs)"

text \<open>With a batch size of 0 the loop would not advance; \<open>normalize\<close> has made it positive.\<close>

function baseline_batches :: "'w env \<Rightarrow> nat \<Rightarrow> 32 word \<Rightarrow> bytes list \<times> 32 word \<Rightarrow> 32 word list \<Rightarrow>
    ('w, bytes list \<times> 32 word) act" where
  "baseline_batches E n preMaxUID acc uids =
     (if uids = [] then ok acc
      else if n = 0 then (\<lambda>w. Blocks)
      else act_bind (check_ctx E) (\<lambda>_.
           act_bind (FetchHeaderFields (e_imap E) (e_parse E) (take n uids)) (\<lambda>messages.
             baseline_batches E n preMaxUID (baseline_messages preMaxUID acc messages) (drop n uids))))"
  by pat_completeness auto
termination by (relation "measure (\<lambda>(E, n, p, acc, uids). length uids)") auto

declare baseline_batches.simps [simp del]

definition baselineFolderCursorOnly :: "'w env \<Rightarrow> imapAccountWatcher \<Rightarrow> bytes \<Rightarrow> bytes \<Rightarrow> 32 word \<Rightarrow> 32 word \<Rightarrow> ('w, unit) act" where
  "baselineFolderCursorOnly E W mailboxKey folder uidValidity maxUID =
     SetIMAPCursor (e_db E) (wa_store W) \<lparr>cMailbox = mailboxKey, cFolder = folder, cUIDValidity = uidValidity,
       cLastUID = maxUID, cBaselineDone = True\<rparr>"

definition baselineFolder :: "'w env \<Rightarrow> imapAccountWatcher \<Rightarrow> bytes \<Rightarrow> bytes \<Rightarrow> 32 word \<Rightarrow> ('w, unit) act" where
  "baselineFolder E W mailboxKey folder uidValidity =
     act_bind (check_ctx E) (\<lambda>_.
     act_bind (UIDSearchAll (e_imap E)) (\<lambda>uids.
       let maxUID = maxIMAPUID 0 uids
       in if int (length uids) > iw_BaselineHeaderLimit (wa_cfg W)
          then baselineFolderCursorOnly E W mailboxKey folder uidValidity maxUID
          else act_bind (baseline_batches E (nat (iw_SearchBatch (wa_cfg W))) maxUID ([], 0) uids) (\<lambda>r.
               act_bind (MarkSeenMessages (e_db E) (e_now E) (wa_store W) mailboxKey (fst r)) (\<lambda>_.
                 SetIMAPCursor (e_db E) (wa_store W) \<lparr>cMailbox = mailboxKey, cFolder = folder, cUIDValidity = uidValidity,
                   cLastUID = (if snd r > maxUID then snd r else maxUID), cBaselineDone = True\<rparr>))))"

text \<open>
  \<open>syncFolderOnClient\<close>. The text of an error that wraps a nil error is the one that the format of
  Go's \<open>fmt\<close> gives.
\<close>

definition after_baseline :: "'w env \<Rightarrow> imapAccountWatcher \<Rightarrow> bytes \<Rightarrow> bytes \<Rightarrow> imapSelectResult \<Rightarrow> ('w, nat \<times> 32 word) act" where
  "after_baseline E W mailboxKey folder selected =
     act_bind (wrap_err ''baseline: '' (baselineFolder E W mailboxKey folder (sel_UIDValidity selected))) (\<lambda>_.
     act_bind (wrap_err ''re-select after baseline: '' (SelectFolder (e_imap E) folder)) (\<lambda>selected.
     act_bind (wrap_err ''cursor after baseline: '' (GetIMAPCursor (e_db E) (wa_store W) mailboxKey folder)) (\<lambda>cursor.
       case cursor of
         None \<Rightarrow> fail ''cursor after baseline: %!w(<nil>)''
       | Some c \<Rightarrow> wrap_err ''sync: '' (syncFolderUIDs E W mailboxKey folder selected (Some c)))))"

definition reset_cursor :: "'w env \<Rightarrow> imapAccountWatcher \<Rightarrow> bytes \<Rightarrow> bytes \<Rightarrow> imapSelectResult \<Rightarrow> imapCursor option \<Rightarrow>
    ('w, imapCursor option) act" where
  "reset_cursor E W mailboxKey folder selected cursor =
     (case cursor of
        Some c \<Rightarrow>
          if cUIDValidity c \<noteq> 0 \<and> cUIDValidity c \<noteq> sel_UIDValidity selected
          then act_bind (attempt (DeleteIMAPCursor (e_db E) (wa_store W) mailboxKey folder)) (\<lambda>_. ok None)
          else ok (Some c)
      | None \<Rightarrow> ok None)"

definition needs_baseline :: "imapAccountWatcher \<Rightarrow> imapCursor option \<Rightarrow> bool" where
  "needs_baseline W cursor \<longleftrightarrow> ai_SkipExistingOnStart (ix_cfg (wa_indexer W))
     \<and> (case cursor of None \<Rightarrow> True | Some c \<Rightarrow> \<not> cBaselineDone c)"

definition syncFolderOnClient :: "'w env \<Rightarrow> imapAccountWatcher \<Rightarrow> bytes \<Rightarrow> ('w, nat \<times> 32 word) act" where
  "syncFolderOnClient E W folder =
     (let mailboxKey = imap_MailboxKey (wa_account W)
      in act_bind (wrap_err ''select: '' (SelectFolder (e_imap E) folder)) (\<lambda>selected.
         act_bind (wrap_err ''cursor: '' (GetIMAPCursor (e_db E) (wa_store W) mailboxKey folder)) (\<lambda>cursor.
         act_bind (reset_cursor E W mailboxKey folder selected cursor) (\<lambda>cursor.
           if needs_baseline W cursor then after_baseline E W mailboxKey folder selected
           else wrap_err ''sync: '' (syncFolderUIDs E W mailboxKey folder selected cursor)))))"

subsection \<open>The rounds of an account\<close>

text \<open>
  \<open>runWithIMAPTimeout\<close>: the operation runs to its end and the race between its end, the context and the
  timer decides what the caller sees. When the operation loses, the connection is closed and its later
  calls fail; that is part of what the calls in \<open>fn\<close> do to the world.
\<close>

definition runWithIMAPTimeout :: "'w env \<Rightarrow> int \<Rightarrow> ('w, 'a) act \<Rightarrow> ('w, 'a) act" where
  "runWithIMAPTimeout E d fn =
     (if d \<le> 0 then fn
      else act_bind (attempt fn) (\<lambda>r.
           act_bind (x_race (e_ctx E) d) (\<lambda>lost.
             case lost of
               None \<Rightarrow> lift_sum r
             | Some err \<Rightarrow> act_bind (attempt (im_close (e_imap E))) (\<lambda>_. fail err))))"

abbreviation imapFolderOpTimeout :: int where "imapFolderOpTimeout \<equiv> seconds 45"

abbreviation imapSessionTimeoutCap :: int where "imapSessionTimeoutCap \<equiv> seconds 180"

definition account_dial :: "'w env \<Rightarrow> imapAccountWatcher \<Rightarrow> ('w, unit) act" where
  "account_dial E W = im_dial (e_imap E) (ac_Host (wa_account W)) (ac_Port (wa_account W)) (ac_TLS (wa_account W))"

definition account_login :: "'w env \<Rightarrow> imapAccountWatcher \<Rightarrow> ('w, unit) act" where
  "account_login E W = im_login (e_imap E) (ac_User (wa_account W)) (ac_Password (wa_account W))"

fun sync_each :: "'w env \<Rightarrow> imapAccountWatcher \<Rightarrow> nat \<Rightarrow> bytes list \<Rightarrow> ('w, nat) act" where
  "sync_each E W failed [] = ok failed"
| "sync_each E W failed (folder # folders) =
     act_bind (attempt (syncFolderOnClient E W folder)) (\<lambda>r.
       sync_each E W (case r of Inl err \<Rightarrow> failed + 1 | Inr _ \<Rightarrow> failed) folders)"

definition sleep_unless_done :: "'w env \<Rightarrow> int \<Rightarrow> ('w, unit) act" where
  "sleep_unless_done E d =
     act_bind (x_err (e_ctx E)) (\<lambda>e. if e = None then act_bind (x_sleep (e_ctx E) d) (\<lambda>_. ok ()) else ok ())"

definition syncAllFolders :: "'w env \<Rightarrow> imapAccountWatcher \<Rightarrow> bytes list \<Rightarrow> ('w, unit) act" where
  "syncAllFolders E W folders =
     act_bind (attempt (account_dial E W)) (\<lambda>r.
       case r of
         Inl err \<Rightarrow> act_bind (x_sleep (e_ctx E) (seconds 30)) (\<lambda>_. ok ())
       | Inr _ \<Rightarrow>
           (let sessionTimeout = min (imapFolderOpTimeout * int (length folders)) imapSessionTimeoutCap
            in act_bind (attempt (runWithIMAPTimeout E sessionTimeout
                   (act_bind (wrap_err ''login: '' (account_login E W)) (\<lambda>_.
                    act_bind (sync_each E W 0 folders) (\<lambda>failed.
                      if failed > 0 then fail (show_nat failed @ '' of '' @ show_nat (length folders) @ '' folder(s) failed'')
                      else ok ()))))) (\<lambda>opErr.
               act_bind (attempt (im_close (e_imap E))) (\<lambda>_.
                 case opErr of Inl err \<Rightarrow> sleep_unless_done E (seconds 30) | Inr _ \<Rightarrow> ok ()))))"

definition runIdleSession :: "'w env \<Rightarrow> imapAccountWatcher \<Rightarrow> bytes \<Rightarrow> ('w, unit) act" where
  "runIdleSession E W folder =
     act_bind (check_ctx E) (\<lambda>_.
     act_bind (account_dial E W) (\<lambda>_.
     act_bind (attempt (act_bind (runWithIMAPTimeout E imapFolderOpTimeout
                 (act_bind (account_login E W) (\<lambda>_. SelectFolder (e_imap E) folder))) (\<lambda>_. im_idle (e_imap E)))) (\<lambda>r.
     act_bind (attempt (im_close (e_imap E))) (\<lambda>_. lift_sum r))))"

text \<open>A loop that goes on while its body gives true; a body that does so for ever never returns.\<close>

partial_function (option) act_while :: "('w, bool) act \<Rightarrow> 'w \<Rightarrow> ((bytes + unit) \<times> 'w) run option" where
  "act_while m w =
     (case m w of
        Blocks \<Rightarrow> None
      | Crash e \<Rightarrow> Some (Crash e)
      | Done rw \<Rightarrow>
          (case fst rw of
             Inl err \<Rightarrow> Some (Done (Inl err, snd rw))
           | Inr cont \<Rightarrow> if cont then act_while m (snd rw) else Some (Done (Inr (), snd rw))))"

definition while_act :: "('w, bool) act \<Rightarrow> ('w, unit) act" where
  "while_act m = (\<lambda>w. case act_while m w of None \<Rightarrow> Blocks | Some r \<Rightarrow> r)"

definition unless_done :: "'w env \<Rightarrow> ('w, bool) act \<Rightarrow> ('w, bool) act" where
  "unless_done E m = act_bind (x_err (e_ctx E)) (\<lambda>e. if e \<noteq> None then ok False else m)"

definition watch_round :: "'w env \<Rightarrow> imapAccountWatcher \<Rightarrow> bytes list \<Rightarrow> ('w, bool) act" where
  "watch_round E W folders =
     unless_done E (act_bind (syncAllFolders E W folders) (\<lambda>_.
     unless_done E (act_bind (x_select (e_ctx E) (runIdleSession E W (hd folders))) (\<lambda>ev.
       case ev of
         Ctx_done \<Rightarrow> ok False
       | Idle_ended (Some err) \<Rightarrow> act_bind (sleep_unless_done E (seconds 5)) (\<lambda>_. ok True)
       | _ \<Rightarrow> ok True))))"

definition watchAccount :: "'w env \<Rightarrow> imapAccountWatcher \<Rightarrow> bytes list \<Rightarrow> ('w, unit) act" where
  "watchAccount E W folders =
     (if folders = [] then (\<lambda>w. Crash ''index out of range'') else while_act (watch_round E W folders))"

definition connect_folders :: "'w env \<Rightarrow> imapAccountWatcher \<Rightarrow> ('w, bytes list) act" where
  "connect_folders E W =
     act_bind (attempt (runWithIMAPTimeout E imapFolderOpTimeout
       (act_bind (wrap_err ''login: '' (account_login E W)) (\<lambda>_. wrap_err ''list folders: '' (ListFolders (e_imap E)))))) (\<lambda>r.
     act_bind (attempt (im_close (e_imap E))) (\<lambda>_. lift_sum r))"

definition run_round :: "'w env \<Rightarrow> imapAccountWatcher \<Rightarrow> ('w, bool) act" where
  "run_round E W =
     unless_done E (act_bind (attempt (account_dial E W)) (\<lambda>r.
       case r of
         Inl err \<Rightarrow> x_sleep (e_ctx E) (seconds 30)
       | Inr _ \<Rightarrow>
           act_bind (attempt (connect_folders E W)) (\<lambda>r.
             case r of
               Inl err \<Rightarrow> x_sleep (e_ctx E) (seconds 30)
             | Inr listed \<Rightarrow>
                 (let folders = prioritizeIMAPFolders (filterFolders W listed)
                  in if folders = [] then x_sleep (e_ctx E) (seconds 60)
                     else act_bind (watchAccount E W folders) (\<lambda>_.
                          unless_done E (x_sleep (e_ctx E) (seconds 30)))))))"

definition watcher_run :: "'w env \<Rightarrow> imapAccountWatcher \<Rightarrow> ('w, unit) act" where
  "watcher_run E W = while_act (run_round E W)"

end
