(* ===== verification/Mem_Db.thy ===== *)
theory Mem_Db
  imports Alias_Store Pop3
begin

section \<open>A database in memory\<close>

text \<open>
  An instance of the statements of the alias store that keeps every table as an association list and
  never fails. It shows that the laws of the statements (\<open>sql_ok\<close>) can hold, and the witnesses of the
  alias index run on it. The state is the tables and the copy of the running transaction; the lines
  that a mail server will send are part of the same world.
\<close>

record mem =
  M_threads :: "(bytes \<times> bytes \<times> bytes \<times> bytes \<times> int) list"
  M_uidl :: "((bytes \<times> bytes) \<times> int) list"
  M_state :: "(bytes \<times> bytes) list"
  M_cursor :: "((bytes \<times> bytes) \<times> 32 word \<times> 32 word \<times> int) list"
  M_seen :: "((bytes \<times> bytes) \<times> int) list"
  M_ins :: "bytes list"

type_synonym mem_world = "mem \<times> mem"

definition mem_tables :: "mem \<Rightarrow> tables" where
  "mem_tables m = \<lparr>T_threads = map_of (M_threads m), T_uidl = map_of (M_uidl m), T_state = map_of (M_state m),
     T_cursor = map_of (M_cursor m), T_seen = map_of (M_seen m)\<rparr>"

definition committed :: "mem_world \<Rightarrow> tables" where
  "committed w = mem_tables (fst w)"

definition in_tx :: "mem_world \<Rightarrow> tables" where
  "in_tx w = mem_tables (snd w)"

definition empty_mem :: mem where
  "empty_mem = \<lparr>M_threads = [], M_uidl = [], M_state = [], M_cursor = [], M_seen = [], M_ins = []\<rparr>"

definition keep_keys :: "('k \<Rightarrow> bool) \<Rightarrow> ('k \<times> 'v) list \<Rightarrow> ('k \<times> 'v) list" where
  "keep_keys P l = filter (\<lambda>kv. P (fst kv)) l"

definition add_row :: "'k \<Rightarrow> 'v \<Rightarrow> ('k \<times> 'v) list \<Rightarrow> ('k \<times> 'v) list" where
  "add_row k v l = (if map_of l k = None then (k, v) # l else l)"

definition mem_exec :: "(mem \<Rightarrow> mem) \<Rightarrow> (mem_world, unit) act" where
  "mem_exec f = (\<lambda>(m, c). Done (Inr (), (f m, c)))"

definition mem_query :: "(mem \<Rightarrow> 'a) \<Rightarrow> (mem_world, 'a) act" where
  "mem_query f = (\<lambda>(m, c). Done (Inr (f m), (m, c)))"

definition mem_tx :: "(mem \<Rightarrow> mem) \<Rightarrow> (mem_world, unit) act" where
  "mem_tx f = (\<lambda>(m, c). Done (Inr (), (m, f c)))"

definition oldest_keys :: "int \<Rightarrow> (bytes \<times> bytes \<times> bytes \<times> bytes \<times> int) list \<Rightarrow> bytes list" where
  "oldest_keys n l = take (nat n) (sort_key (\<lambda>k. created (map_of l k)) (remdups (map fst l)))"

definition mem_db :: "mem_world sqlite" where
  "mem_db = \<lparr>q_open = (\<lambda>_. ok ()), q_close = ok (), q_ddl = (\<lambda>_. ok ()), q_has_column = (\<lambda>_ _. ok 1),
     q_upsert_thread = (\<lambda>mid ra fr tid ts. mem_exec (\<lambda>m. m\<lparr>M_threads := (mid, ra, fr, tid, ts) # M_threads m\<rparr>)),
     q_select_thread = (\<lambda>mid. mem_query (\<lambda>m. map_option (\<lambda>r. (mid, r)) (map_of (M_threads m) mid))),
     q_delete_older = (\<lambda>c. mem_exec (\<lambda>m. m\<lparr>M_threads :=
       keep_keys (\<lambda>k. \<not> created (map_of (M_threads m) k) < c) (M_threads m)\<rparr>)),
     q_count_threads = mem_query (\<lambda>m. int (length (remdups (map fst (M_threads m))))),
     q_delete_oldest = (\<lambda>n. mem_exec (\<lambda>m. m\<lparr>M_threads :=
       keep_keys (\<lambda>k. k \<notin> set (oldest_keys n (M_threads m))) (M_threads m)\<rparr>)),
     q_select_state = (\<lambda>k. mem_query (\<lambda>m. map_of (M_state m) k)),
     q_upsert_state = (\<lambda>k. mem_exec (\<lambda>m. m\<lparr>M_state := (k, ''baseline'') # M_state m\<rparr>)),
     q_exists_uidl = (\<lambda>mb u. mem_query (\<lambda>m. map_of (M_uidl m) (mb, u) \<noteq> None)),
     q_insert_uidl = (\<lambda>mb u ts. mem_exec (\<lambda>m. m\<lparr>M_uidl := add_row (mb, u) ts (M_uidl m)\<rparr>)),
     q_select_uidls = (\<lambda>mb. mem_query (\<lambda>m. map (\<lambda>kv. snd (fst kv)) (filter (\<lambda>kv. fst (fst kv) = mb) (M_uidl m)))),
     q_begin = (\<lambda>(m, c). Done (Inr (), (m, m))),
     q_prepare_uidl = ok (),
     q_tx_uidl = (\<lambda>mb u ts. mem_tx (\<lambda>m. m\<lparr>M_uidl := add_row (mb, u) ts (M_uidl m)\<rparr>)),
     q_prepare_seen = ok (),
     q_tx_seen = (\<lambda>mb u ts. mem_tx (\<lambda>m. m\<lparr>M_seen := add_row (mb, u) ts (M_seen m)\<rparr>)),
     q_rollback = ok (),
     q_commit = (\<lambda>(m, c). Done (Inr (), (c, c))),
     q_select_cursor = (\<lambda>mb f. mem_query (\<lambda>m. map_option (\<lambda>(v, u, b).
       \<lparr>cMailbox = mb, cFolder = f, cUIDValidity = v, cLastUID = u, cBaselineDone = b \<noteq> 0\<rparr>) (map_of (M_cursor m) (mb, f)))),
     q_upsert_cursor = (\<lambda>mb f v u b. mem_exec (\<lambda>m. m\<lparr>M_cursor := ((mb, f), v, u, b) # M_cursor m\<rparr>)),
     q_delete_cursor = (\<lambda>mb f. mem_exec (\<lambda>m. m\<lparr>M_cursor := keep_keys (\<lambda>k. k \<noteq> (mb, f)) (M_cursor m)\<rparr>)),
     q_exists_seen = (\<lambda>mb u. mem_query (\<lambda>m. map_of (M_seen m) (mb, u) \<noteq> None)),
     q_insert_seen = (\<lambda>mb u ts. mem_exec (\<lambda>m. m\<lparr>M_seen := add_row (mb, u) ts (M_seen m)\<rparr>))\<rparr>"

text \<open>A connection to a mail server that sends the lines \<open>M_ins\<close> and takes whatever is written.\<close>

definition mem_conn :: "mem_world conn" where
  "mem_conn = \<lparr>c_dial = (\<lambda>_ _ _. ok ()),
     c_read = (\<lambda>(m, c). case M_ins m of
        [] \<Rightarrow> Done (Inl ''EOF'', (m, c))
      | l # ls \<Rightarrow> Done (Inr l, (m\<lparr>M_ins := ls\<rparr>, c))),
     c_write = (\<lambda>_. ok ()), c_close = ok ()\<rparr>"

subsection \<open>The laws hold\<close>

lemma map_of_keep: "map_of (keep_keys P l) = (map_of l) |` {k. P k}"
  by (induction l) (auto simp: keep_keys_def restrict_map_def fun_eq_iff)

lemma map_of_add: "map_of (add_row k v l) = insert_new k v (map_of l)"
  by (simp add: add_row_def insert_new_def)

lemma mem_exec_law:
  "(\<And>m. mem_tables (f m) = F (mem_tables m)) \<Longrightarrow> exec_law committed (mem_exec f) F"
  by (auto simp: exec_law_def act_ok_def mem_exec_def committed_def)

lemma mem_query_law: "(\<And>m. f m = Q (mem_tables m)) \<Longrightarrow> query_law committed (mem_query f) Q"
  by (auto simp: query_law_def act_ok_def mem_query_def committed_def)

lemma mem_tx_law: "(\<And>m. mem_tables (f m) = F (mem_tables m)) \<Longrightarrow> tx_step committed in_tx (mem_tx f) F"
  by (auto simp: tx_step_def act_ok_def mem_tx_def committed_def in_tx_def)

lemma oldest_keys_ok: "oldest_rows n (mem_tables m) (set (oldest_keys n (M_threads m)))"
proof -
  define f where "f = (\<lambda>k. created (map_of (M_threads m) k))"
  define xs where "xs = sort_key f (remdups (map fst (M_threads m)))"
  have keys: "set xs = dom (map_of (M_threads m))" by (simp add: xs_def dom_map_of_conv_image_fst)
  have dist: "distinct xs" by (simp add: xs_def)
  have old: "oldest_keys n (M_threads m) = take (nat n) xs" by (simp add: oldest_keys_def xs_def f_def)
  have "card (set xs) = length xs" using dist by (rule distinct_card)
  then have card: "int (card (set (take (nat n) xs))) = min (max n 0) (int (card (dom (map_of (M_threads m)))))"
    using dist by (simp add: distinct_card keys [symmetric] del: length_take) (auto simp: min_def max_def)
  have "sorted (map f xs)" by (simp add: xs_def)
  then have "sorted (map f (take (nat n) xs) @ map f (drop (nat n) xs))" by (simp flip: map_append)
  then have "f k \<le> f k'" if "k \<in> set (take (nat n) xs)" "k' \<in> set (drop (nat n) xs)" for k k'
    using that by (simp add: sorted_append)
  moreover have "set xs - set (take (nat n) xs) \<subseteq> set (drop (nat n) xs)"
    by (metis Diff_subset_conv append_take_drop_id order_refl set_append)
  ultimately have "\<forall>k \<in> set (take (nat n) xs). \<forall>k' \<in> set xs - set (take (nat n) xs). f k \<le> f k'" by blast
  with card keys show ?thesis
    using set_take_subset [of "nat n" xs] unfolding oldest_rows_def old f_def by (simp add: mem_tables_def)
qed

lemma mem_threads: "thread_laws mem_db committed"
  unfolding thread_laws_def
proof (intro conjI allI)
  fix w show "finite (dom (T_threads (committed w)))" by (simp add: committed_def mem_tables_def finite_dom_map_of)
next
  fix c
  show "exec_law committed (q_delete_older mem_db c)
     (\<lambda>t. t\<lparr>T_threads := (\<lambda>k. if T_threads t k \<noteq> None \<and> created (T_threads t k) < c then None else T_threads t k)\<rparr>)"
    unfolding mem_db_def sqlite.simps
    by (rule mem_exec_law) (auto simp: mem_tables_def map_of_keep restrict_map_def fun_eq_iff simp del: not_None_eq)
next
  fix n w
  have "\<exists>S. oldest_rows n (mem_tables m) S \<and> mem_tables (m\<lparr>M_threads :=
      keep_keys (\<lambda>k. k \<notin> set (oldest_keys n (M_threads m))) (M_threads m)\<rparr>)
    = (mem_tables m)\<lparr>T_threads := T_threads (mem_tables m) |` (- S)\<rparr>" for m
    by (rule exI [of _ "set (oldest_keys n (M_threads m))"])
      (simp add: oldest_keys_ok, simp add: mem_tables_def map_of_keep Collect_neg_eq)
  then show "act_ok (q_delete_oldest mem_db n) w (\<lambda>r w'. case r of
      Inl e \<Rightarrow> committed w' = committed w
    | Inr _ \<Rightarrow> (\<exists>S. oldest_rows n (committed w) S \<and> committed w' = (committed w)\<lparr>T_threads := T_threads (committed w) |` (- S)\<rparr>))"
    by (auto simp: mem_db_def mem_exec_def act_ok_def committed_def split: prod.splits)
qed (auto simp: mem_db_def mem_tables_def dom_map_of_conv_image_fst distinct_card [symmetric]
    intro!: mem_exec_law mem_query_law)

lemma mem_marks: "mark_laws mem_db committed"
  unfolding mark_laws_def
proof (intro conjI allI)
  fix mb w
  have "set (map (\<lambda>kv. snd (fst kv)) (filter (\<lambda>kv. fst (fst kv) = mb) l)) = {u. map_of l (mb, u) \<noteq> None}"
    for l :: "((bytes \<times> bytes) \<times> int) list"
    by (induction l) auto
  then show "act_ok (q_select_uidls mem_db mb) w (\<lambda>r w'. committed w' = committed w
      \<and> (case r of Inl e \<Rightarrow> True | Inr us \<Rightarrow> set us = {u. T_uidl (committed w) (mb, u) \<noteq> None}))"
    by (simp add: mem_db_def mem_query_def act_ok_def committed_def mem_tables_def split: prod.splits)
qed (auto simp: mem_db_def mem_tables_def map_of_add intro!: mem_exec_law mem_query_law)

lemma mem_cursors: "cursor_laws mem_db committed"
proof -
  have "(map_of l) |` {k. k \<noteq> x} = (map_of l)(x := None)" for l :: "('k \<times> 'v) list" and x
    by (auto simp: restrict_map_def fun_eq_iff)
  then show ?thesis
    unfolding cursor_laws_def
    by (auto simp: mem_db_def mem_tables_def map_of_keep intro!: mem_exec_law mem_query_law)
qed

lemma mem_txs: "tx_laws mem_db committed in_tx"
  unfolding tx_laws_def
  by (auto simp: mem_db_def tx_step_def exec_law_def act_ok_def ok_def committed_def in_tx_def mem_tx_def mem_tables_def
      map_of_add split: prod.splits)

lemma mem_db_ok: "sql_ok mem_db committed in_tx"
  by (simp add: sql_ok_def mem_threads mem_marks mem_cursors mem_txs)

subsection \<open>Runs on the database in memory\<close>

definition demo_store :: "aliasStore option" where
  "demo_store = Some \<lparr>as_db = True, as_config = \<lparr>scDBPath = ''a.db'', scTTL = 10 * second, scMaxRows = 2,
     scPurgeInterval = hour\<rparr>\<rparr>"

lemma demo_open [simp]: "not_open demo_store = False"
  by (simp add: demo_store_def not_open_def)

lemma demo_addresses:
  "normalizeEmailAddress ''help@x.org'' = Done ''help@x.org''"
  "normalizeEmailAddress ''Bob <bob@y.org>'' = Done ''bob@y.org''"
proof -
  have h: "isDotString ''help''" "isDomain ''x.org''" "[''a''] \<noteq> []" "list_all isAtom [''a'']"
    "isDotString ''bob''" "isDomain ''y.org''" "[''Bob''] \<noteq> []" "list_all isAtom [''Bob'']"
    by code_simp+
  have "to_lower (''help'' @ ''@'' @ ''x.org'') = ''help@x.org''" "to_lower (''bob'' @ ''@'' @ ''y.org'') = ''bob@y.org''"
    by code_simp+
  with normalize_usual [OF h(1-4)] normalize_usual [OF h(5-8)]
  show "normalizeEmailAddress ''help@x.org'' = Done ''help@x.org''"
    "normalizeEmailAddress ''Bob <bob@y.org>'' = Done ''bob@y.org''" by simp_all
qed

lemma demo_ids: "normalizeMessageID ''<M1@X.org>'' = ''M1@x.org''" "normalizeMessageID ''M1@x.org'' = ''M1@x.org''"
  by code_simp+

definition demo_thread :: aliasThread where
  "demo_thread = \<lparr>tMessageID = ''<M1@X.org>'', tReplyAs = ''help@x.org'', tOrigFrom = ''Bob <bob@y.org>'',
     tTenantID = '' acme '', tCreatedAt = None\<rparr>"

theorem thread_roundtrip_witness:
  "\<exists>w1 w2. UpsertThread mem_db 5 demo_store demo_thread (empty_mem, empty_mem) = Done (Inr (), w1)
     \<and> LookupThread mem_db demo_store ''M1@x.org'' w1 = Done (Inr (Some \<lparr>tMessageID = ''M1@x.org'', tReplyAs = ''help@x.org'',
          tOrigFrom = ''bob@y.org'', tTenantID = ''acme'', tCreatedAt = Some 5\<rparr>), w2)"
proof -
  let ?row = "(''M1@x.org'', ''help@x.org'', ''bob@y.org'', trim_space '' acme '', 5)"
  let ?w1 = "(empty_mem\<lparr>M_threads := [?row]\<rparr>, empty_mem)"
  have u: "UpsertThread mem_db 5 demo_store demo_thread (empty_mem, empty_mem) = Done (Inr (), ?w1)"
    by (simp add: UpsertThread_def demo_thread_def demo_ids demo_addresses lift_run_def act_bind_def mem_db_def mem_exec_def
        empty_mem_def)
  obtain r where l: "LookupThread mem_db demo_store ''M1@x.org'' ?w1 = Done (Inr r, ?w1)"
    by (simp add: LookupThread_def demo_ids act_bind_def mem_db_def mem_query_def empty_mem_def ok_def Let_def)
  have same: "normalizeMessageID ''M1@x.org'' = normalizeMessageID (tMessageID demo_thread)"
    by (simp add: demo_thread_def demo_ids)
  have t: "trim_space '' acme '' = ''acme''" by code_simp
  from thread_roundtrip [OF mem_db_ok u same l] have "r = Some \<lparr>tMessageID = ''M1@x.org'', tReplyAs = ''help@x.org'',
      tOrigFrom = ''bob@y.org'', tTenantID = ''acme'', tCreatedAt = Some 5\<rparr>"
    by (auto simp: demo_thread_def demo_ids demo_addresses t)
  with u l show ?thesis by blast
qed

definition demo_rows :: mem where
  "demo_rows = empty_mem\<lparr>M_threads := [(''a'', [], [], [], 5), (''b'', [], [], [], 17), (''c'', [], [], [], 18), (''d'', [], [], [], 19)]\<rparr>"

theorem purge_bounds_witness:
  "\<exists>w'. PurgeExpired mem_db (20 * second) demo_store (demo_rows, empty_mem) = Done (Inr (), w')
     \<and> dom (T_threads (committed w')) = {''c'', ''d''} \<and> int (card (dom (T_threads (committed w')))) \<le> 2"
proof -
  let ?st = "\<lparr>as_db = True, as_config = \<lparr>scDBPath = ''a.db'', scTTL = 10 * second, scMaxRows = 2, scPurgeInterval = hour\<rparr>\<rparr>"
  let ?w' = "(demo_rows\<lparr>M_threads := [(''c'', [], [], [], 18), (''d'', [], [], [], 19)]\<rparr>, empty_mem)"
  have k: "keep_keys (\<lambda>k. \<not> created (map_of (M_threads demo_rows) k) < 10) (M_threads demo_rows)
      = [(''b'', [], [], [], 17), (''c'', [], [], [], 18), (''d'', [], [], [], 19)]"
    by (simp add: keep_keys_def demo_rows_def)
  have o: "oldest_keys 1 [(''b'', [], [], [], 17), (''c'', [], [], [], 18), (''d'', [], [], [], 19)] = [''b'']"
    by (simp add: oldest_keys_def)
  have p: "PurgeExpired mem_db (20 * second) (Some ?st) (demo_rows, empty_mem) = Done (Inr (), ?w')"
    using k o by (simp add: PurgeExpired_def mem_db_def act_bind_def mem_exec_def mem_query_def ok_def keep_keys_def)
  have "0 \<le> scMaxRows (as_config ?st)" by simp
  from purge_bounds [OF mem_db_ok p this] have "int (card (dom (T_threads (committed ?w')))) \<le> 2"
    by (simp add: Let_def)
  moreover have "dom (T_threads (committed ?w')) = {''c'', ''d''}"
    by (auto simp: committed_def mem_tables_def)
  ultimately show ?thesis using p unfolding demo_store_def by blast
qed

theorem mark_batches_witness:
  "\<exists>w'. MarkUIDLsKnown mem_db 7 demo_store ''pop'' [''u1'', '' '', ''u2 ''] (empty_mem, empty_mem) = Done (Inr (), w')
     \<and> {u. T_uidl (committed w') (''pop'', u) \<noteq> None} = {''u1'', ''u2''}"
proof -
  let ?us = "[''u1'', '' '', ''u2 '']"
  have t: "trim_space ''pop'' = ''pop''" "trim_space ''u1'' = ''u1''" "trim_space '' '' = []" "trim_space ''u2 '' = ''u2''"
    by code_simp+
  obtain w' where m: "MarkUIDLsKnown mem_db 7 demo_store ''pop'' ?us (empty_mem, empty_mem) = Done (Inr (), w')"
    by (simp add: MarkUIDLsKnown_def batches.simps [of _ _ ?us] batches.simps [of _ _ "[]"] markUIDLsKnownBatch_def tx_batch_def
        t act_bind_def attempt_def ok_def mem_db_def mem_tx_def)
  from mark_batches [OF mem_db_ok _ m] obtain n where
      "T_uidl (committed w') = (\<lambda>k. if T_uidl (committed (empty_mem, empty_mem)) k = None
         \<and> k \<in> (\<lambda>u. (trim_space ''pop'', trim_space u)) ` set (take (n * 2000) ?us) \<and> snd k \<noteq> []
         then Some 7 else T_uidl (committed (empty_mem, empty_mem)) k)" and n: "take (n * 2000) ?us = ?us"
    by auto
  moreover have "T_uidl (committed (empty_mem, empty_mem)) k = None" for k
    by (simp add: committed_def mem_tables_def empty_mem_def)
  ultimately have "T_uidl (committed w') (''pop'', u) = (if u \<in> {''u1'', ''u2''} then Some 7 else None)" for u
    unfolding n by (auto simp: t)
  with m show ?thesis by auto
qed

end
