(* ===== verification/Index_Runs.thy ===== *)
theory Index_Runs
  imports Alias_Index Mem_Db
begin

section \<open>Runs of the alias index\<close>

text \<open>
  The alias index on the database in memory and a scripted mail server: each run shows that the
  hypotheses of a theorem about the index hold together on a concrete input.
\<close>

subsection \<open>One message\<close>

definition demo_headers :: parsedMailHeaders where
  "demo_headers = no_headers\<lparr>hMessageID := ''<M1@X.org>'', hFrom := ''bob@y.org'', hTo := ''help@x.org''\<rparr>"

definition demo_opts :: indexMessageOpts where
  "demo_opts = \<lparr>io_mailboxKey = ''pop3:all@x.org'', io_mailboxUser = ''all@x.org'', io_tenantID = '' acme '', io_since = None,
     io_folder = []\<rparr>"

lemma demo_parts:
  "splitAddresses ''help@x.org'' = [''help@x.org'']" "skip_addresses ''all@x.org'' = [''all@x.org'', ''postmaster@x.org'']"
  "trim_space ''bob@y.org'' = ''bob@y.org''" "trim_space ''pop3:all@x.org'' = ''pop3:all@x.org''" "trim_space '' acme '' = ''acme''"
  "has_prefix ''help@x.org'' ''null@'' = False" "has_prefix ''help@x.org'' ''noreply@'' = False"
  by code_simp+

lemma demo_mailboxes:
  "normalizeEmailAddress ''all@x.org'' = Done ''all@x.org''" "normalizeEmailAddress ''bob@y.org'' = Done ''bob@y.org''"
  "extractFirstEmailFromHeader ''bob@y.org'' = Done ''bob@y.org''"
proof -
  have h: "isDotString ''all''" "isDomain ''x.org''" "[''a''] \<noteq> []" "list_all isAtom [''a'']"
    "isDotString ''bob''" "isDomain ''y.org''"
    by code_simp+
  have l: "to_lower (''all'' @ ''@'' @ ''x.org'') = ''all@x.org''" "to_lower (''bob'' @ ''@'' @ ''y.org'') = ''bob@y.org''"
    by code_simp+
  show "normalizeEmailAddress ''all@x.org'' = Done ''all@x.org''" using normalize_usual [OF h(1-4)] l by simp
  show "normalizeEmailAddress ''bob@y.org'' = Done ''bob@y.org''" using normalize_usual [OF h(5,6,3,4)] l by simp
  show "extractFirstEmailFromHeader ''bob@y.org'' = Done ''bob@y.org''"
    using NewAddress_usual [OF h(5,6,3,4)] l addr_String_parsed [of "''bob''" "''y.org''"]
    by (simp add: extractFirstEmailFromHeader_def demo_parts)
qed

lemma demo_reply_as:
  "hTo h = ''help@x.org'' \<Longrightarrow> extractReplyAsAddress h ''all@x.org'' = Done ''help@x.org''"
  by (simp add: extractReplyAsAddress_def demo_mailboxes demo_addresses demo_parts)


subsection \<open>One mailbox\<close>

lemma mem_conn_quiet: "conn_quiet committed mem_conn"
  by (auto simp: conn_quiet_def quiet_def mem_conn_def ok_def committed_def mem_tables_def split: list.splits)

definition demo_indexer :: aliasIndexer where
  "demo_indexer = \<lparr>ix_cfg = indexer_defaults \<lparr>ai_DBPath = ''a.db'', ai_Accounts = [], ai_IMAPAccounts = [],
       ai_IMAP = \<lparr>iw_IdleRefresh = 0, iw_ResyncInterval = 0, iw_SearchBatch = 0, iw_BaselineHeaderLimit = 0, iw_ExcludeFolders = []\<rparr>,
       ai_PollInterval = 0, ai_PurgeInterval = 0, ai_SkipExistingOnStart = True, ai_Since = None,
       ai_StoreCfg = \<lparr>scDBPath = [], scTTL = 0, scMaxRows = 0, scPurgeInterval = 0\<rparr>, ai_Registry = None\<rparr>,
     ix_store = demo_store, ix_watchers = []\<rparr>"

definition demo_account :: mailAccount where
  "demo_account = \<lparr>ac_Host = ''pop'', ac_Port = 995, ac_TLS = True, ac_User = ''all'', ac_Password = ''pw'', ac_TenantID = ''acme''\<rparr>"

definition demo_session :: "bytes list" where
  "demo_session = [''+OK'', ''+OK'', ''+OK'', ''+OK'', ''1 u1'', ''2 u2'', ''.'', ''+OK'']"

lemma mem_read:
  "M_ins m = l # ls \<Longrightarrow> c_read mem_conn (m, c) = Done (Inr l, (m\<lparr>M_ins := ls\<rparr>, c))"
  "c_write mem_conn l = ok ()" "c_dial mem_conn h p t = ok ()" "c_close mem_conn = ok ()"
  by (simp_all add: mem_conn_def)

lemma mem_cmd: "M_ins m = ''+OK'' # ls \<Longrightarrow> cmd mem_conn l (m, c) = Done (Inr [], (m\<lparr>M_ins := ls\<rparr>, c))"
  by (simp add: cmd_def readResponse_def act_bind_def mem_read ok_def positive_def)

lemma mem_dial: "M_ins m = ''+OK'' # ls \<Longrightarrow> dialPOP3 mem_conn h p t (m, c) = Done (Inr (), (m\<lparr>M_ins := ls\<rparr>, c))"
  by (simp add: dialPOP3_def readPositive_def act_bind_def attempt_def mem_read ok_def)

lemma mem_multiline:
  "M_ins m = map stuff lines @ ''.'' # ls \<Longrightarrow> multiline_loop mem_conn acc (m, c) = Some (Done (Inr (acc @ lines), (m\<lparr>M_ins := ls\<rparr>, c)))"
proof (induction lines arbitrary: acc m)
  case Nil
  then show ?case by (subst multiline_loop.simps) (simp add: mem_read)
next
  case (Cons l lines)
  then show ?case
    using unstuff_stuff [of l] Cons.IH [of "m\<lparr>M_ins := map stuff lines @ ''.'' # ls\<rparr>" "acc @ [l]"]
    by (subst multiline_loop.simps) (simp add: mem_read)
qed

lemma mem_UIDL:
  assumes "M_ins m = ''+OK'' # map stuff lines @ ''.'' # ls"
  shows "pop3_UIDL mem_conn (m, c) = Done (Inr (uidl_lines lines), (m\<lparr>M_ins := ls\<rparr>, c))"
  using assms mem_multiline [of "m\<lparr>M_ins := map stuff lines @ ''.'' # ls\<rparr>" lines ls "[]" c]
  by (simp add: pop3_UIDL_def act_bind_def mem_cmd readMultiline_def ok_def)

lemma mem_Auth:
  assumes "\<not> has_crlf u" and "\<not> has_crlf p" and "M_ins m = ''+OK'' # ''+OK'' # ls"
  shows "pop3_Auth mem_conn u p (m, c) = Done (Inr (), (m\<lparr>M_ins := ls\<rparr>, c))"
  using assms by (simp add: pop3_Auth_def act_bind_def mem_cmd ok_def)

lemma demo_mark:
  "MarkUIDLsKnown mem_db 5 demo_store ''pop3:all@pop'' [''u1'', ''u2''] (m, c)
    = (let m' = m\<lparr>M_uidl := add_row (''pop3:all@pop'', ''u2'') 5 (add_row (''pop3:all@pop'', ''u1'') 5 (M_uidl m))\<rparr>
       in Done (Inr (), (m', m')))"
proof -
  have t: "trim_space ''pop3:all@pop'' = ''pop3:all@pop''" "trim_space ''u1'' = ''u1''" "trim_space ''u2'' = ''u2''"
    by code_simp+
  show ?thesis
    by (simp add: MarkUIDLsKnown_def batches.simps [of _ _ "[''u1'', ''u2'']"] batches.simps [of _ _ "[]"]
        markUIDLsKnownBatch_def tx_batch_def t act_bind_def attempt_def ok_def mem_db_def mem_tx_def Let_def)
qed

lemma mem_baseline:
  "HasBaseline mem_db demo_store k (m, c) = Done (Inr (map_of (M_state m) k = Some ''baseline''), (m, c))"
  "SetBaseline mem_db demo_store k (m, c) = Done (Inr (), (m\<lparr>M_state := (k, ''baseline'') # M_state m\<rparr>, c))"
  by (auto simp: HasBaseline_def SetBaseline_def act_bind_def mem_db_def mem_query_def mem_exec_def ok_def split: option.splits)

lemma mem_Close: "M_ins m = ''+OK'' # ls \<Longrightarrow> pop3_Close mem_conn (m, c) = Done (Inr (), (m\<lparr>M_ins := ls\<rparr>, c))"
  by (simp add: pop3_Close_def act_bind_def attempt_def mem_cmd mem_read ok_def)

theorem polled_mailbox_witness:
  "\<exists>w'. pollMailbox mem_db mem_conn (\<lambda>_. Inl ''bad'') 5 demo_indexer demo_account (empty_mem\<lparr>M_ins := demo_session\<rparr>, empty_mem)
      = Done (Inr (), w') \<and> known_uidls (committed w') (pop3_MailboxKey demo_account) = {''u1'', ''u2''}
    \<and> (\<exists>wu uidls w1. pop3_UIDL mem_conn wu = Done (Inr uidls, w1) \<and> snd ` set uidls \<subseteq> {''u1'', ''u2''})"
proof -
  let ?w = "(empty_mem\<lparr>M_ins := demo_session\<rparr>, empty_mem)"
  have t: "pop3_MailboxKey demo_account = ''pop3:all@pop''" "trim_space ''pop3:all@pop'' = ''pop3:all@pop''"
    "uidl_lines [''1 u1'', ''2 u2''] = [(1, ''u1''), (2, ''u2'')]" "map stuff [''1 u1'', ''2 u2''] = [''1 u1'', ''2 u2'']"
    "\<not> has_crlf (ac_User demo_account)" "\<not> has_crlf (ac_Password demo_account)"
    by code_simp+
  have x: "ai_SkipExistingOnStart (ix_cfg demo_indexer)" "ix_store demo_indexer = demo_store"
    by (simp_all add: demo_indexer_def indexer_defaults_def)
  have u: "pop3_UIDL mem_conn (empty_mem\<lparr>M_ins := [''+OK'', ''1 u1'', ''2 u2'', ''.'', ''+OK'']\<rparr>, empty_mem)
      = Done (Inr [(1, ''u1''), (2, ''u2'')], (empty_mem\<lparr>M_ins := [''+OK'']\<rparr>, empty_mem))"
    using mem_UIDL [of "empty_mem\<lparr>M_ins := [''+OK'', ''1 u1'', ''2 u2'', ''.'', ''+OK'']\<rparr>" "[''1 u1'', ''2 u2'']" "[''+OK'']"] t(3,4)
    by simp
  define m where "m = empty_mem\<lparr>M_uidl := [((''pop3:all@pop'', ''u2''), 5), ((''pop3:all@pop'', ''u1''), 5)]\<rparr>"
  define w' where "w' = (m\<lparr>M_state := [(''pop3:all@pop'', ''baseline'')], M_ins := []\<rparr>, m\<lparr>M_ins := [''+OK'']\<rparr>)"
  have e: "M_state empty_mem = []" "M_uidl empty_mem = []" by (simp_all add: empty_mem_def)
  have s: "poll_session mem_db mem_conn (\<lambda>_. Inl ''bad'') 5 demo_indexer demo_account
      (empty_mem\<lparr>M_ins := tl demo_session\<rparr>, empty_mem)
      = Done (Inr (), (m\<lparr>M_state := [(''pop3:all@pop'', ''baseline'')], M_ins := [''+OK'']\<rparr>, m\<lparr>M_ins := [''+OK'']\<rparr>))"
    by (simp add: poll_session_def demo_session_def mem_Auth [OF t(5,6)] u t(1) x demo_mark mem_baseline e act_bind_def
        Let_def add_row_def m_def)
  have p: "pollMailbox mem_db mem_conn (\<lambda>_. Inl ''bad'') 5 demo_indexer demo_account ?w = Done (Inr (), w')"
    using s by (simp add: pollMailbox_def demo_session_def mem_dial act_bind_def attempt_def mem_Close lift_sum_def w'_def)
  have k: "M_uidl (fst w') = [((''pop3:all@pop'', ''u2''), 5), ((''pop3:all@pop'', ''u1''), 5)]" by (simp add: w'_def m_def)
  have "known_uidls (committed w') (pop3_MailboxKey demo_account) = {''u1'', ''u2''}"
    by (auto simp: known_uidls_def t committed_def mem_tables_def k)
  moreover have "\<not> not_open (ix_store demo_indexer)" using x by simp
  note polled_mailbox [OF mem_db_ok mem_conn_quiet this p]
  ultimately show ?thesis using p by metis
qed

subsection \<open>The findings\<close>

lemma mem_Top:
  assumes "M_ins m = ''+OK'' # map stuff lines @ ''.'' # ls"
  shows "pop3_Top mem_conn n k (m, c) = Done (Inr (join [CHR 0x0A] lines), (m\<lparr>M_ins := ls\<rparr>, c))"
  using assms mem_multiline [of "m\<lparr>M_ins := map stuff lines @ ''.'' # ls\<rparr>" lines ls "[]" c]
  by (simp add: pop3_Top_def Let_def act_bind_def mem_cmd readMultiline_def ok_def)

theorem odd_message_id_stops_poll_witness:
  "\<exists>w1. poll_messages mem_db mem_conn (\<lambda>_. Inr (demo_headers\<lparr>hMessageID := ''< < >''\<rparr>)) 5 demo_store demo_opts {}
      [(1, ''u1''), (2, ''u2'')] (empty_mem\<lparr>M_ins := [''+OK'', ''.'']\<rparr>, empty_mem) = Done (Inl ''empty message_id'', w1)"
proof -
  let ?h = "demo_headers\<lparr>hMessageID := ''< < >''\<rparr>" and ?m = "empty_mem\<lparr>M_ins := [''+OK'', ''.'']\<rparr>"
  have top: "pop3_Top mem_conn (fst (1, ''u1'')) 128 (?m, empty_mem)
      = Done (Inr [], (?m\<lparr>M_ins := []\<rparr>, empty_mem))"
    using mem_Top [of ?m "[]" "[]" 1 128 empty_mem] by simp
  have n: "normalizeMessageID ''< < >'' = ''<''" "normalizeMessageID ''<'' = []" by code_simp+
  have h: "normalizeMessageID (hMessageID ?h) \<noteq> []" "normalizeMessageID (normalizeMessageID (hMessageID ?h)) = []"
    using n by simp_all
  have r: "extractReplyAsAddress ?h (io_mailboxUser demo_opts) = Done ''help@x.org''"
    "extractFirstEmailFromHeader (hFrom ?h) = Done ''bob@y.org''"
    using demo_reply_as [of ?h] demo_mailboxes by (simp_all add: demo_opts_def demo_headers_def)
  have "\<not> too_old ?h demo_opts" by (simp add: too_old_def demo_opts_def)
  from odd_message_id_stops_poll [where item = "(1, ''u1'')" and known = "{}" and parse = "\<lambda>_. Inr ?h" and h = ?h and D = mem_db
      and ts = 5 and s = demo_store and items = "[(2, ''u2'')]", OF top _ _ h r(1) _ r(2) _ this]
  show ?thesis by simp
qed

theorem watchers_fixed_at_start_witness:
  "\<exists>i i' r w'. ai_Registry (ix_cfg i) = Some r
     \<and> (let u = (\<lambda>_. Inr [\<lparr>TenantID = ''a'', Provider = ''ses'', SES = Some \<lparr>ses_Region = ''eu'', ses_AccessKeyID = [], ses_SecretAccessKey = []\<rparr>,
               OCIEmail = None, POP3Accounts = [],
               IMAPAccounts = [\<lparr>imap_Host = ''h'', imap_Port = 0, imap_TLS = False, imap_User = ''u'', imap_Password = ''p''\<rparr>], OK = True\<rparr>])
         in indexer_Run mem_db (\<lambda>_. mem_conn) (\<lambda>_. Inl ''bad'') u (Inl ''down'') 5 i [Registry_tick (Inr (200, ''body'')), Done_closed]
              (empty_mem, empty_mem) = Done (Inr (i', True), w'))
     \<and> currentIMAPAccounts i' = [\<lparr>ac_Host = ''h'', ac_Port = 993, ac_TLS = True, ac_User = ''u'', ac_Password = ''p'', ac_TenantID = ''a''\<rparr>]
     \<and> ix_watchers i' = []"
proof -
  let ?u = "\<lambda>_ :: bytes. Inr [\<lparr>TenantID = ''a'', Provider = ''ses'', SES = Some \<lparr>ses_Region = ''eu'', ses_AccessKeyID = [], ses_SecretAccessKey = []\<rparr>,
               OCIEmail = None, POP3Accounts = [],
               IMAPAccounts = [\<lparr>imap_Host = ''h'', imap_Port = 0, imap_TLS = False, imap_User = ''u'', imap_Password = ''p''\<rparr>], OK = True\<rparr>]
               :: bytes + tenantJSON list"
  define r where "r = \<lparr>hr_cfg = \<lparr>tr_URL = ''http://r'', tr_PollInterval = seconds 300, tr_Timeout = seconds 10, tr_Headers = []\<rparr>,
              hr_tenants = [], hr_pop3 = [], hr_imap = []\<rparr>"
  define i where "i = demo_indexer\<lparr>ix_cfg := (ix_cfg demo_indexer)\<lparr>ai_Registry := Some r\<rparr>\<rparr>"
  have i: "ai_Registry (ix_cfg i) = Some r" "ix_watchers i = []" "reg_PollInterval r > 0"
    by (simp_all add: i_def demo_indexer_def r_def reg_PollInterval_def)
  have p: "map snd (reg_IMAPAccounts (poller ?u [Inl ''down'', Inr (200, ''body'')] r))
      = [\<lparr>ac_Host = ''h'', ac_Port = 993, ac_TLS = True, ac_User = ''u'', ac_Password = ''p'', ac_TenantID = ''a''\<rparr>]"
    unfolding r_def by code_simp
  have f: "Refresh ?u (Inl ''down'') r = (Some ''down'', r)" by (simp add: Refresh_def)
  define i1 where "i1 = refresh_in_run ?u (Inl ''down'') (startIMAPWatchers i)"
  have i1: "currentAccounts i1 = []" "registry_ticks (startIMAPWatchers i)" "registry_ticks i1"
    using i f by (simp_all add: i1_def currentAccounts_def refresh_registered registry_ticks_def startIMAPWatchers_def)
      (simp add: r_def reg_POP3Accounts_def)
  have run: "indexer_Run mem_db (\<lambda>_. mem_conn) (\<lambda>_. Inl ''bad'') ?u (Inl ''down'') 5 i [Registry_tick (Inr (200, ''body'')), Done_closed]
      (empty_mem, empty_mem) = Done (Inr (refresh_in_run ?u (Inr (200, ''body'')) i1, True), (empty_mem, empty_mem))"
    using i1 by (simp add: indexer_Run_def Let_def i1_def [symmetric] pollAll_def act_bind_def ok_def)
  from watchers_fixed_at_start [OF i(1,3,2) run] p have
    "currentIMAPAccounts (refresh_in_run ?u (Inr (200, ''body'')) i1)
       = [\<lparr>ac_Host = ''h'', ac_Port = 993, ac_TLS = True, ac_User = ''u'', ac_Password = ''p'', ac_TenantID = ''a''\<rparr>]
     \<and> ix_watchers (refresh_in_run ?u (Inr (200, ''body'')) i1) = []"
    by (simp add: r_def reg_IMAPAccounts_def)
  with run i(1) show ?thesis unfolding Let_def by blast
qed

theorem incomplete_account_drops_all_witness:
  "(let good = GMap [(''host'', GStr ''h''), (''user'', GStr ''u'')]; bad = GMap [(''host'', GStr ''h'')];
        c = [(''alias_index_pop3_accounts'', GArr [good, bad])]
    in \<exists>cfg. AliasIndexerConfigFromBackend (\<lambda>_. Inl ''bad'') (\<lambda>_. Inl ''bad'') c = Inr cfg \<and> ai_Accounts cfg = [])"
proof -
  let ?bad = "[(''host'', GStr ''h'')]" and ?good = "GMap [(''host'', GStr ''h''), (''user'', GStr ''u'')]"
  let ?c = "[(''alias_index_pop3_accounts'', GArr [?good, GMap ?bad])]"
  let ?r = "AliasIndexerConfigFromBackend (\<lambda>_. Inl ''bad'') (\<lambda>_. Inl ''bad'') ?c"
  have v: "pop3_validate (account_of_map 995 ?bad) \<noteq> None" by code_simp
  have "\<not> isl ?r" by code_simp
  then obtain cfg where cfg: "?r = Inr cfg" by (cases ?r) auto
  from incomplete_account_drops_all [of ?c "[?good, GMap ?bad]" ?bad, OF _ _ _ v cfg] show ?thesis
    unfolding Let_def using cfg by auto
qed

end
