(* ===== verification/Imap_Props.thy ===== *)
theory Imap_Props
  imports Imap_Watcher Index_Runs
begin

section \<open>Properties of the IMAP watcher\<close>

text \<open>
  The range of the new UIDs and its batches on 32-bit words, the cursor of a folder, the baseline and the
  order of the folders. The witnesses run on the database in memory with a scripted IMAP server.
\<close>

subsection \<open>The range of the new UIDs\<close>

lemma unat_max: "unat (- 1 :: 32 word) = 2 ^ 32 - 1"
proof -
  have "unat (0 - 1 :: 32 word) = 2 ^ 32 - 1" by (subst unat_sub_if_size) (simp add: word_size)
  then show ?thesis by simp
qed

lemma unat_inc: "x \<noteq> - 1 \<Longrightarrow> unat (x + 1 :: 32 word) = unat x + 1"
  using unat_max by unat_arith simp

lemma unat_dec: "x \<noteq> 0 \<Longrightarrow> unat (x - 1 :: 32 word) = unat x - 1"
  by (rule unat_minus_one)

lemma inc_le_iff: "x \<noteq> - 1 \<Longrightarrow> x + 1 \<le> u \<longleftrightarrow> x < (u :: 32 word)"
  by (simp add: word_le_nat_alt word_less_nat_alt unat_inc Suc_le_eq)

lemma le_dec_iff: "x \<noteq> 0 \<Longrightarrow> u \<le> x - 1 \<longleftrightarrow> u < (x :: 32 word)"
proof -
  assume x: "x \<noteq> 0"
  then have "unat x \<noteq> 0" by (simp add: unat_eq_0)
  with x show ?thesis by (auto simp: word_le_nat_alt word_less_nat_alt unat_dec)
qed

text \<open>
  C18: The range of a round is exactly the UIDs above the recorded one and below UIDNEXT, and there is a
  range exactly if there is such a UID; the upper end is never the largest UID. After the largest UID
  the lower end wraps around to 0, and the folder is indexed from its start again.
\<close>

theorem new_mail_range:
  "case newMailUIDRange lastUID uidNext of (fromUID, toUID, hasNew) \<Rightarrow>
     (if lastUID = - 1 then fromUID = 0 \<and> hasNew = (uidNext \<noteq> 0)
      else hasNew = (\<exists>u. lastUID < u \<and> u < uidNext)
        \<and> (\<forall>u. (hasNew \<and> fromUID \<le> u \<and> u \<le> toUID) = (lastUID < u \<and> u < uidNext)))
     \<and> \<not> (hasNew \<and> toUID = - 1)"
proof (cases "lastUID = - 1 \<or> uidNext = 0")
  case True
  then show ?thesis by (auto simp: newMailUIDRange_def Let_def)
next
  case False
  then have l: "lastUID + 1 \<le> u \<longleftrightarrow> lastUID < u" "u \<le> uidNext - 1 \<longleftrightarrow> u < uidNext" for u
    by (simp_all add: inc_le_iff le_dec_iff)
  have "uidNext - 1 \<noteq> - 1" using False by (metis diff_add_cancel add.left_inverse)
  moreover have "uidNext - 1 < lastUID + 1 \<longleftrightarrow> \<not> (\<exists>u. lastUID < u \<and> u < uidNext)"
  proof
    assume "uidNext - 1 < lastUID + 1"
    then show "\<not> (\<exists>u. lastUID < u \<and> u < uidNext)" using l by (meson leD order_trans)
  next
    assume "\<not> (\<exists>u. lastUID < u \<and> u < uidNext)"
    then have "\<not> lastUID < uidNext - 1" using l(2) [of "uidNext - 1"] by blast
    then show "uidNext - 1 < lastUID + 1" using l(1) [of "uidNext - 1"] by (meson not_le)
  qed
  ultimately show ?thesis using False l by (auto simp: newMailUIDRange_def Let_def)
qed

subsection \<open>The batches of a range\<close>

definition uid_range :: "32 word \<Rightarrow> 32 word \<Rightarrow> 32 word list" where
  "uid_range f t = map word_of_nat [unat f..<Suc (unat t)]"

lemma uid_range_step: "f \<le> t \<Longrightarrow> t \<noteq> - 1 \<Longrightarrow> uid_range f t = f # (if f = t then [] else uid_range (f + 1) t)"
proof -
  assume a: "f \<le> t" "t \<noteq> - 1"
  have f: "f \<noteq> - 1" using a by (metis word_order.extremum_unique)
  have "[unat f..<Suc (unat t)] = unat f # [unat (f + 1)..<Suc (unat t)]"
    using a(1) f by (simp add: upt_conv_Cons word_le_nat_alt unat_inc)
  moreover have "[unat (t + 1)..<Suc (unat t)] = []" using a(2) by (simp add: unat_inc)
  ultimately show ?thesis by (auto simp: uid_range_def)
qed

lemma uid_list_range: "f \<le> t \<Longrightarrow> t \<noteq> - 1 \<Longrightarrow> uid_list f t acc = Some (acc @ uid_range f t)"
proof (induction "unat t - unat f" arbitrary: f acc)
  case 0
  then have "f = t" by (simp add: word_le_nat_alt word_unat_eq_iff)
  moreover have "\<not> t + 1 \<le> t" using 0 by (simp add: inc_le_iff)
  ultimately show ?case using 0 by (simp add: uid_list.simps [of t] uid_list.simps [of "t + 1"] uid_range_step)
next
  case (Suc n)
  then have "f \<noteq> t" by auto
  with Suc.prems have f: "f < t" by simp
  then have f1: "f \<noteq> - 1" by (metis word_order.extremum_strict)
  have "n = unat t - unat (f + 1)" using Suc(2) f1 by (simp add: unat_inc)
  moreover have "f + 1 \<le> t" using f f1 by (simp add: inc_le_iff)
  ultimately have "uid_list (f + 1) t (acc @ [f]) = Some ((acc @ [f]) @ uid_range (f + 1) t)"
    using Suc by blast
  then show ?case using Suc.prems f by (simp add: uid_list.simps [of f] uid_range_step [of f])
qed

function chunks :: "nat \<Rightarrow> 'a list \<Rightarrow> 'a list list" where
  "chunks n xs = (if xs = [] \<or> n = 0 then [] else take n xs # chunks n (drop n xs))"
  by pat_completeness auto
termination by (relation "measure (\<lambda>(n, xs). length xs)") auto

declare chunks.simps [simp del]

lemma chunks_ok: "0 < n \<Longrightarrow> concat (chunks n xs) = xs \<and> (\<forall>c \<in> set (chunks n xs). c \<noteq> [] \<and> length c \<le> n)"
proof (induction "length xs" arbitrary: xs rule: less_induct)
  case less
  show ?case
  proof (cases "xs = []")
    case True
    then show ?thesis by (simp add: chunks.simps [of n "[]"])
  next
    case False
    have "concat (chunks n (drop n xs)) = drop n xs \<and> (\<forall>c \<in> set (chunks n (drop n xs)). c \<noteq> [] \<and> length c \<le> n)"
      by (rule less.hyps) (use False less.prems in auto)
    then show ?thesis using False less.prems by (simp add: chunks.simps [of n xs])
  qed
qed

fun for_batches :: "'w env \<Rightarrow> imapAccountWatcher \<Rightarrow> bytes \<Rightarrow> bytes \<Rightarrow> imapIndexStats \<Rightarrow> 32 word list list \<Rightarrow>
    ('w, imapIndexStats) act" where
  "for_batches E W key folder stats [] = ok stats"
| "for_batches E W key folder stats (b # bs) =
     act_bind (check_ctx E) (\<lambda>_. act_bind (index_batch E W key folder stats b) (\<lambda>stats. for_batches E W key folder stats bs))"

lemma batch_end_min:
  assumes "s \<le> t" and "n \<noteq> 0"
  shows "unat (batch_end n s t) = min (unat s + unat n - 1) (unat t)"
proof -
  have n: "0 < unat n" using assms(2) by (simp add: unat_gt_0)
  have n1: "unat (n - 1) = unat n - 1" using assms(2) by (rule unat_dec)
  define e where "e = s + n - 1"
  have e: "e = s + (n - 1)" by (simp add: e_def)
  show ?thesis
  proof (cases "unat s + unat (n - 1) < 2 ^ 32")
    case True
    then have u: "unat e = unat s + unat n - 1" using n n1 unfolding e by (simp add: unat_word_ariths)
    then have "\<not> e < s" using n by (simp add: word_less_nat_alt)
    with u show ?thesis by (auto simp: batch_end_def Let_def e_def [symmetric] word_less_nat_alt min_def)
  next
    case False
    have "unat s < 2 ^ 32" "unat (n - 1) < 2 ^ 32" using unsigned_less [of s, where ?'a = nat] unsigned_less [of "n - 1", where ?'a = nat] by simp_all
    with False have "unat e = unat s + unat (n - 1) - 2 ^ 32"
      unfolding e by (simp add: unat_word_ariths mod_if)
    with \<open>unat (n - 1) < 2 ^ 32\<close> False have "e < s" by (simp add: word_less_nat_alt)
    moreover have "unat t \<le> unat s + unat n - 1" using unsigned_less [of t, where ?'a = nat] False n n1 by simp
    ultimately show ?thesis by (simp add: batch_end_def Let_def e_def [symmetric] min_def)
  qed
qed

lemma uid_range_split:
  assumes "f \<le> e" and "e < t"
  shows "uid_range f t = uid_range f e @ uid_range (e + 1) t"
proof -
  have "e \<noteq> - 1" using assms(2) by (metis word_order.extremum_strict)
  then have "[unat f..<Suc (unat t)] = [unat f..<Suc (unat e)] @ [unat (e + 1)..<Suc (unat t)]"
    using assms upt_add_eq_append [of "unat f" "Suc (unat e)" "unat t - unat e"]
    by (simp add: word_le_nat_alt word_less_nat_alt unat_inc)
  then show ?thesis by (simp add: uid_range_def)
qed

lemma length_uid_range: "f \<le> t \<Longrightarrow> length (uid_range f t) = unat t - unat f + 1"
  by (simp add: uid_range_def word_le_nat_alt Suc_diff_le)

lemma chunks_range:
  assumes "f \<le> t" and "n \<noteq> 0"
  defines "e \<equiv> batch_end n f t"
  shows "chunks (unat n) (uid_range f t) = uid_range f e # (if e = t then [] else chunks (unat n) (uid_range (e + 1) t))"
proof -
  have n: "0 < unat n" using assms(2) by (simp add: unat_gt_0)
  have m: "unat e = min (unat f + unat n - 1) (unat t)" unfolding e_def by (rule batch_end_min [OF assms(1,2)])
  have fe: "f \<le> e" using m n assms(1) by (simp add: word_le_nat_alt)
  have ne: "uid_range f t \<noteq> []" using length_uid_range [OF assms(1)] by auto
  show ?thesis
  proof (cases "e = t")
    case True
    then have "length (uid_range f t) \<le> unat n" using m n length_uid_range [OF assms(1)] by simp
    then show ?thesis using True ne n by (simp add: chunks.simps [of _ "uid_range f t"] chunks.simps [of _ "[]"])
  next
    case False
    then have "e < t" using m by (metis min.cobounded2 le_neq_trans word_le_nat_alt)
    then have "unat e = unat f + unat n - 1" using m by (simp add: word_less_nat_alt min_def split: if_splits)
    then have "length (uid_range f e) = unat n" using length_uid_range [OF fe] n by simp
    with chunks.simps [of "unat n" "uid_range f t"] uid_range_split [OF fe \<open>e < t\<close>] False ne n show ?thesis by simp
  qed
qed

lemma bind_lift_Done: "act_bind (lift_run (Done x)) f = f x"
  by (simp add: act_bind_def lift_run_def fun_eq_iff)

text \<open>
  C17: Indexing a range of UIDs is indexing the chunks of at most \<open>SearchBatch\<close> UIDs of the list of all UIDs
  of the range, one after the other: every UID is fetched once, in order, and the call returns
  whenever its batches do. The sums on 32 bits in the loop wrap around without harm.
\<close>

theorem range_batches:
  assumes "fromUID \<le> toUID" and "toUID \<noteq> - 1" and "0 < iw_SearchBatch (wa_cfg W)" and "iw_SearchBatch (wa_cfg W) < 2 ^ 32"
  shows "indexUIDRange E W key folder fromUID toUID
      = for_batches E W key folder no_stats (chunks (nat (iw_SearchBatch (wa_cfg W))) (uid_range fromUID toUID))
    \<and> concat (chunks (nat (iw_SearchBatch (wa_cfg W))) (uid_range fromUID toUID)) = uid_range fromUID toUID"
proof -
  define n :: "32 word" where "n = word_of_int (iw_SearchBatch (wa_cfg W))"
  have un: "unat n = nat (iw_SearchBatch (wa_cfg W))" using assms(3,4) by (simp add: n_def unat_eq_nat_uint uint_word_of_int)
  then have n: "n \<noteq> 0" using assms(3) by auto
  have "index_batches E W key folder f toUID stats = for_batches E W key folder stats (chunks (unat n) (uid_range f toUID))"
    if "f \<le> toUID" for f stats
    using that
  proof (induction "unat toUID - unat f" arbitrary: f stats rule: less_induct)
    case less
    let ?e = "batch_end n f toUID"
    have e: "f \<le> ?e" "?e \<le> toUID" using batch_end_min [OF less.prems n] n less.prems
        unat_gt_0 [of n] by (simp_all add: word_le_nat_alt)
    then have "?e \<noteq> - 1" using assms(2) by (metis word_order.extremum_unique)
    then have l: "uid_list f ?e [] = Some (uid_range f ?e)" using e uid_list_range by simp
    have ih: "index_batches E W key folder (?e + 1) toUID st
        = for_batches E W key folder st (chunks (unat n) (uid_range (?e + 1) toUID))" if "?e \<noteq> toUID" for st
    proof (rule less.hyps)
      from batch_end_less [OF less.prems that] show "unat toUID - unat (?e + 1) < unat toUID - unat f" "?e + 1 \<le> toUID"
        unfolding word_le_nat_alt by linarith+
    qed
    show ?case
      using less.prems ih
      by (simp add: index_batches.simps [of E W key folder f] n_def [symmetric] Let_def l chunks_range [OF less.prems n]
          bind_lift_Done)
  qed
  then show ?thesis using assms(1,3) un chunks_ok [of "unat n" "uid_range fromUID toUID"]
    by (simp add: indexUIDRange_def)
qed

subsection \<open>The cursor of a folder\<close>

text \<open>The IMAP library and the context do not touch the database.\<close>

definition env_quiet :: "('w \<Rightarrow> 't) \<Rightarrow> 'w env \<Rightarrow> bool" where
  "env_quiet \<beta> E \<longleftrightarrow> quiet \<beta> (x_err (e_ctx E)) \<and> (\<forall>d. quiet \<beta> (x_sleep (e_ctx E) d))
     \<and> (\<forall>us. quiet \<beta> (im_fetch (e_imap E) us)) \<and> quiet \<beta> (im_fetch_close (e_imap E))
     \<and> quiet \<beta> (im_search_all (e_imap E))"

lemma env_quiet_comp: "env_quiet \<alpha> E \<Longrightarrow> env_quiet (\<lambda>w. f (\<alpha> w)) E"
  by (fastforce simp: env_quiet_def quiet_def)

lemma quiet_wrap [intro]: "quiet \<beta> m \<Longrightarrow> quiet \<beta> (wrap_err pre m)"
  by (fastforce simp: quiet_def act_simps)

lemma quiet_check: "env_quiet \<beta> E \<Longrightarrow> quiet \<beta> (check_ctx E)"
  unfolding check_ctx_def by (intro quiet_bind) (auto simp: env_quiet_def split: option.splits)

lemma quiet_Fetch: "env_quiet \<beta> E \<Longrightarrow> quiet \<beta> (FetchHeaderFields (e_imap E) (e_parse E) us)"
  unfolding FetchHeaderFields_def env_quiet_def by (auto intro!: quiet_bind split: sum.splits)

lemma quiet_retry: "env_quiet \<beta> E \<Longrightarrow> quiet \<beta> (retry_loop E n us m)"
proof (induction n arbitrary: us m)
  case (Suc n)
  have "quiet \<beta> (x_sleep (e_ctx E) d)" for d using Suc.prems by (simp add: env_quiet_def)
  with Suc quiet_wrap [OF quiet_Fetch [OF Suc.prems]] show ?case
    by (auto intro!: quiet_bind simp: Let_def)
qed simp

lemma quiet_retries: "env_quiet \<beta> E \<Longrightarrow> quiet \<beta> (retryEmptyHeaderFetches E msgs)"
  unfolding retryEmptyHeaderFetches_def Let_def using quiet_retry by (auto intro!: quiet_bind)

text \<open>Indexing a message changes the threads and the seen messages only.\<close>

abbreviation cursors :: "('w \<Rightarrow> tables) \<Rightarrow> 'w \<Rightarrow> (bytes \<times> bytes) \<rightharpoonup> (32 word \<times> 32 word \<times> int)" where
  "cursors \<alpha> \<equiv> \<lambda>w. T_cursor (\<alpha> w)"

lemma exec_quiet: "exec_law \<alpha> m F \<Longrightarrow> (\<And>t. f (F t) = f t) \<Longrightarrow> quiet (\<lambda>w. f (\<alpha> w)) m"
  unfolding quiet_def using exec_lawD by (fastforce split: sum.splits)

lemma query_quiet: "query_law \<alpha> m Q \<Longrightarrow> quiet (\<lambda>w. f (\<alpha> w)) m"
  unfolding quiet_def using query_lawD by fastforce

lemma index_cursors:
  assumes D: "sql_ok D \<alpha> \<tau>"
  shows "quiet (cursors \<alpha>) (indexMessageFromHeaders D ts s h opts)"
proof -
  have 1: "quiet (cursors \<alpha>) (IsSeenMessage D s k m)" for k m
    unfolding IsSeenMessage_def Let_def using query_quiet [OF mark_lawsD(5) [OF D], where f = T_cursor] by simp
  have 2: "quiet (cursors \<alpha>) (MarkSeenMessage D ts s k m)" for k m
    unfolding MarkSeenMessage_def Let_def using exec_quiet [OF mark_lawsD(6) [OF D], where f = T_cursor] by simp
  have 3: "quiet (cursors \<alpha>) (UpsertThread D ts s th)" for th
    unfolding UpsertThread_def Let_def using exec_quiet [OF thread_lawsD(2) [OF D], where f = T_cursor] by (auto intro!: quiet_bind)
  show ?thesis
    unfolding indexMessageFromHeaders_def index_unseen_def mark_if_def Let_def using 1 2 3 by (auto intro!: quiet_bind)
qed

lemma range_cursors:
  assumes D: "sql_ok (e_db E) \<alpha> \<tau>" and E: "env_quiet (cursors \<alpha>) E"
  shows "quiet (cursors \<alpha>) (indexUIDRange E W key folder f t)"
proof -
  have m: "quiet (cursors \<alpha>) (index_messages E W key folder stats msgs)" for stats msgs
    by (induction msgs arbitrary: stats) (auto intro!: quiet_bind index_cursors [OF D])
  have b: "quiet (cursors \<alpha>) (index_batch E W key folder stats batch)" for stats batch
    unfolding index_batch_def by (intro quiet_bind quiet_wrap quiet_Fetch [OF E] quiet_retries [OF E] m)
  have "quiet (cursors \<alpha>) (index_batches E W key folder f t stats)" for f stats
  proof (induction "unat t + 1 - unat f" arbitrary: f stats rule: less_induct)
    case less
    let ?e = "batch_end (word_of_int (iw_SearchBatch (wa_cfg W))) f t"
    have "quiet (cursors \<alpha>) (index_batches E W key folder (?e + 1) t st)" if "f \<le> t" "?e \<noteq> t" for st
      by (rule less.hyps) (use batch_end_less [OF that] in linarith)
    then show ?case
      unfolding index_batches.simps [of E W key folder f] Let_def
      by (auto intro!: quiet_bind quiet_check [OF E] b)
  qed
  then show ?thesis by (simp add: indexUIDRange_def)
qed

lemma SetIMAPCursor_ok:
  assumes "sql_ok D \<alpha> \<tau>" and "SetIMAPCursor D s c w = Done (r, w')"
  shows "\<alpha> w' = (case r of Inl e \<Rightarrow> \<alpha> w | Inr _ \<Rightarrow> (\<alpha> w)\<lparr>T_cursor := (T_cursor (\<alpha> w))((trim_space (cMailbox c), trim_space (cFolder c))
      \<mapsto> (cUIDValidity c, cLastUID c, if cBaselineDone c then 1 else 0))\<rparr>)"
proof -
  have "exec_law \<alpha> (q_upsert_cursor D m f v u b) (\<lambda>t. t\<lparr>T_cursor := (T_cursor t)((m, f) \<mapsto> (v, u, b))\<rparr>)" for m f v u b
    using assms(1) by (simp add: sql_ok_def cursor_laws_def)
  from exec_lawD [OF this] assms(2) show ?thesis
    by (cases "not_open s") (auto simp: SetIMAPCursor_def act_simps)
qed

lemma new_mail_from:
  "newMailUIDRange lastUID uidNext = (f, t, True) \<Longrightarrow> t = uidNext - 1 \<and> t \<noteq> - 1 \<and> (lastUID \<le> t \<or> lastUID = - 1)"
proof -
  assume "newMailUIDRange lastUID uidNext = (f, t, True)"
  then have h: "uidNext \<noteq> 0" "lastUID + 1 \<le> uidNext - 1" "t = uidNext - 1"
    by (auto simp: newMailUIDRange_def Let_def split: if_splits)
  have "t \<noteq> - 1" using h(1,3) by (metis diff_add_cancel add.left_inverse)
  then show ?thesis using h inc_le_iff [of lastUID t] by (cases "lastUID = - 1") auto
qed


subsection \<open>The baseline of a folder\<close>

lemma maxIMAPUID_le: "m \<le> maxIMAPUID m uids \<and> (\<forall>u \<in> set uids. u \<le> maxIMAPUID m uids)"
proof (induction uids arbitrary: m)
  case (Cons u uids)
  let ?x = "if u > m then u else m"
  have "m \<le> ?x" "u \<le> ?x" by auto
  with Cons.IH [of ?x] show ?case by (auto simp del: if_split intro: order_trans)
qed simp

lemma baseline_messages_max:
  "snd acc \<le> snd (baseline_messages p acc msgs) \<and> (\<forall>m \<in> set msgs. fm_UID m \<le> snd (baseline_messages p acc msgs))"
proof (induction msgs arbitrary: acc)
  case (Cons m msgs)
  let ?x = "if fm_UID m > snd acc then fm_UID m else snd acc"
  obtain a where a: "baseline_messages p acc (m # msgs) = baseline_messages p (a, ?x) msgs"
    unfolding baseline_messages.simps Let_def by (metis (full_types))
  have "snd acc \<le> ?x" "fm_UID m \<le> ?x" by auto
  with Cons.IH [of "(a, ?x)"] show ?case unfolding a by (auto intro: order_trans)
qed simp

lemma baseline_quiet: "env_quiet \<beta> E \<Longrightarrow> quiet \<beta> (baseline_batches E n p acc uids)"
proof (induction "length uids" arbitrary: acc uids rule: less_induct)
  case less
  show ?case
  proof (cases "uids = [] \<or> n = 0")
    case True
    then show ?thesis by (subst baseline_batches.simps) (auto simp: quiet_def act_simps)
  next
    case False
    have rest: "quiet \<beta> (baseline_batches E n p a (drop n uids))" for a
      by (rule less.hyps) (use False less.prems in auto)
    from False show ?thesis
      by (subst baseline_batches.simps) (auto intro!: quiet_bind quiet_check quiet_Fetch less.prems rest)
  qed
qed

lemma seen_quiet:
  assumes "sql_ok D \<alpha> \<tau>" and "\<not> not_open s" and "MarkSeenMessages D ts s key mids w = Done (Inr x, w')"
  shows "T_threads (\<alpha> w') = T_threads (\<alpha> w) \<and> T_cursor (\<alpha> w') = T_cursor (\<alpha> w)"
  using act_okD [OF MarkSeenMessages_ok [OF assms(1,2)] assms(3)] by (auto simp: batched_def marks_seen)

lemma baseline_cases:
  assumes D: "sql_ok (e_db E) \<alpha> \<tau>" and E: "env_quiet \<alpha> E" and s: "\<not> not_open (wa_store W)"
    and b: "baselineFolder E W key folder v w = Done (Inr (), w')"
  obtains w1 uids w2 lst where "check_ctx E w = Done (Inr (), w1)" and "UIDSearchAll (e_imap E) w1 = Done (Inr uids, w2)"
    and "T_cursor (\<alpha> w') = (T_cursor (\<alpha> w))((trim_space key, trim_space folder) \<mapsto> (v, lst, 1))"
    and "T_threads (\<alpha> w') = T_threads (\<alpha> w)" and "maxIMAPUID 0 uids \<le> lst"
    and "int (length uids) > iw_BaselineHeaderLimit (wa_cfg W) \<or> (\<exists>r w3. baseline_batches E (nat (iw_SearchBatch (wa_cfg W)))
           (maxIMAPUID 0 uids) ([], 0) uids w2 = Done (Inr r, w3) \<and> snd r \<le> lst)"
proof -
  let ?max = "\<lambda>uids. maxIMAPUID 0 uids"
  let ?cur = "\<lambda>u. \<lparr>cMailbox = key, cFolder = folder, cUIDValidity = v, cLastUID = u, cBaselineDone = True\<rparr>"
  from b obtain w1 uids w2 where c: "check_ctx E w = Done (Inr (), w1)" and u: "UIDSearchAll (e_imap E) w1 = Done (Inr uids, w2)"
    and k: "(if int (length uids) > iw_BaselineHeaderLimit (wa_cfg W) then baselineFolderCursorOnly E W key folder v (?max uids)
       else act_bind (baseline_batches E (nat (iw_SearchBatch (wa_cfg W))) (?max uids) ([], 0) uids) (\<lambda>r.
            act_bind (MarkSeenMessages (e_db E) (e_now E) (wa_store W) key (fst r)) (\<lambda>_.
              SetIMAPCursor (e_db E) (wa_store W) (?cur (if snd r > ?max uids then snd r else ?max uids))))) w2 = Done (Inr (), w')"
    by (auto simp: baselineFolder_def Let_def act_bind_Done [of "check_ctx E"] act_bind_Done [of "UIDSearchAll (e_imap E)"])
  have w2: "\<alpha> w2 = \<alpha> w"
    using quietD [OF quiet_check [OF E] c] E u by (auto simp: env_quiet_def UIDSearchAll_def quiet_def)
  show ?thesis
  proof (cases "int (length uids) > iw_BaselineHeaderLimit (wa_cfg W)")
    case True
    with k have "SetIMAPCursor (e_db E) (wa_store W) (?cur (?max uids)) w2 = Done (Inr (), w')"
      by (simp add: baselineFolderCursorOnly_def)
    from SetIMAPCursor_ok [OF D this] w2 True show ?thesis by (intro that [OF c u, of "?max uids"]) auto
  next
    case False
    define lst where "lst r = (if snd r > ?max uids then snd r else ?max uids)" for r :: "bytes list \<times> 32 word"
    from k False obtain r w3 x w4 where r: "baseline_batches E (nat (iw_SearchBatch (wa_cfg W))) (?max uids) ([], 0) uids w2 = Done (Inr r, w3)"
        and m: "MarkSeenMessages (e_db E) (e_now E) (wa_store W) key (fst r) w3 = Done (Inr x, w4)"
        and c': "SetIMAPCursor (e_db E) (wa_store W) (?cur (lst r)) w4 = Done (Inr (), w')"
      by (auto simp: act_simps lst_def)
    have "\<alpha> w3 = \<alpha> w" using quietD [OF baseline_quiet [OF E] r] w2 by simp
    with SetIMAPCursor_ok [OF D c'] seen_quiet [OF D s m] r show ?thesis
      by (intro that [OF c u, of "lst r"]) (auto simp: lst_def)
  qed
qed

text \<open>
  C19: The baseline of a folder skips the mail that is there: when it succeeds, the cursor of the folder is
  not below any UID that the search has found, the baseline is recorded, and no thread has been stored.
\<close>

theorem baseline_skips_existing:
  assumes "sql_ok (e_db E) \<alpha> \<tau>" and "env_quiet \<alpha> E" and "\<not> not_open (wa_store W)"
    and "baselineFolder E W key folder v w = Done (Inr (), w')"
  shows "\<exists>w1 uids w2 lst. UIDSearchAll (e_imap E) w1 = Done (Inr uids, w2) \<and> (\<forall>u \<in> set uids. u \<le> lst)
    \<and> T_cursor (\<alpha> w') = (T_cursor (\<alpha> w))((trim_space key, trim_space folder) \<mapsto> (v, lst, 1))
    \<and> T_threads (\<alpha> w') = T_threads (\<alpha> w)"
proof (rule baseline_cases [OF assms])
  fix w1 uids w2 lst
  assume h: "UIDSearchAll (e_imap E) w1 = Done (Inr uids, w2)" "maxIMAPUID 0 uids \<le> lst"
    "T_cursor (\<alpha> w') = (T_cursor (\<alpha> w))((trim_space key, trim_space folder) \<mapsto> (v, lst, 1))"
    "T_threads (\<alpha> w') = T_threads (\<alpha> w)"
  have "\<forall>u \<in> set uids. u \<le> lst" using maxIMAPUID_le [of 0 uids] h(2) by (blast intro: order_trans)
  with h show ?thesis by blast
qed

text \<open>
  A message that arrives while the baseline is made is lost. The comment in the code says that such a
  message, with a UID above those of the search, is indexed next; but the cursor is moved to the
  highest UID of the answers, so no later range contains the message.
\<close>

theorem baseline_loses_arrivals:
  assumes "sql_ok (e_db E) \<alpha> \<tau>" and "env_quiet \<alpha> E" and "\<not> not_open (wa_store W)"
    and "baselineFolder E W key folder v w = Done (Inr (), w')"
    and "check_ctx E w = Done (Inr (), w1)" and "UIDSearchAll (e_imap E) w1 = Done (Inr uids, w2)"
    and "uids \<noteq> []" and "int (length uids) \<le> iw_BaselineHeaderLimit (wa_cfg W)" and "int (length uids) \<le> iw_SearchBatch (wa_cfg W)"
    and "check_ctx E w2 = Done (Inr (), w3)" and "FetchHeaderFields (e_imap E) (e_parse E) uids w3 = Done (Inr msgs, w4)"
    and "msg \<in> set msgs" and "\<forall>u \<in> set uids. u < fm_UID msg"
  shows "\<exists>lst. T_cursor (\<alpha> w') (trim_space key, trim_space folder) = Some (v, lst, 1)
    \<and> (\<forall>uidNext. case newMailUIDRange lst uidNext of (f, t, hasNew) \<Rightarrow> lst = - 1 \<or> \<not> (f \<le> fm_UID msg \<and> fm_UID msg \<le> t))"
proof (rule baseline_cases [OF assms(1-4)])
  fix w1' uids' w2' lst
  assume c: "check_ctx E w = Done (Inr (), w1')" "UIDSearchAll (e_imap E) w1' = Done (Inr uids', w2')"
    and t: "T_cursor (\<alpha> w') = (T_cursor (\<alpha> w))((trim_space key, trim_space folder) \<mapsto> (v, lst, 1))"
    and b: "int (length uids') > iw_BaselineHeaderLimit (wa_cfg W) \<or> (\<exists>r w3. baseline_batches E (nat (iw_SearchBatch (wa_cfg W)))
           (maxIMAPUID 0 uids') ([], 0) uids' w2' = Done (Inr r, w3) \<and> snd r \<le> lst)"
  have eq: "w1' = w1" "uids' = uids" "w2' = w2" using c assms(5,6) by auto
  have n: "take (nat (iw_SearchBatch (wa_cfg W))) uids = uids" "nat (iw_SearchBatch (wa_cfg W)) \<noteq> 0"
    "drop (nat (iw_SearchBatch (wa_cfg W))) uids = []" using assms(7,9) by (auto simp flip: length_greater_0_conv)
  have "baseline_batches E (nat (iw_SearchBatch (wa_cfg W))) p ([], 0) uids w2 = Done (Inr (baseline_messages p ([], 0) msgs), w4)" for p
    using assms(7,10,11) n by (subst baseline_batches.simps) (simp add: act_bind_def baseline_batches.simps [of _ _ _ _ "[]"] ok_def)
  with b assms(8) have "snd (baseline_messages (maxIMAPUID 0 uids) ([], 0) msgs) \<le> lst" unfolding eq by auto
  with baseline_messages_max [of "([], 0)" "maxIMAPUID 0 uids" msgs] assms(12) have le: "fm_UID msg \<le> lst"
    by (meson order_trans)
  have "lst = - 1 \<or> \<not> lst + 1 \<le> fm_UID msg" using le inc_le_iff [of lst "fm_UID msg"] by auto
  then have "case newMailUIDRange lst uidNext of (f, t, hasNew) \<Rightarrow> lst = - 1 \<or> \<not> (f \<le> fm_UID msg \<and> fm_UID msg \<le> t)" for uidNext
    by (auto simp: newMailUIDRange_def Let_def)
  with t show ?thesis by auto
qed

subsection \<open>A retry that is cancelled\<close>

lemma index_empty:
  assumes "normalizeEmailAddress (io_mailboxUser opts) = Done mb"
  shows "indexMessageFromHeaders D ts s no_headers opts w = Done (Inr outcomeNotIndexable, w)"
proof -
  have e: "normalizeMessageID [] = []" "splitAddresses [] = []" "extractFirstEmailFromHeader [] = Done []" by code_simp+
  have "extractReplyAsAddress no_headers (io_mailboxUser opts) = Done []"
    using assms e by (simp add: extractReplyAsAddress_def no_headers_def)
  with e show ?thesis
    by (simp add: indexMessageFromHeaders_def index_unseen_def mark_if_def too_old_def no_headers_def Let_def act_bind_def ok_def
        lift_run_def split: option.splits)
qed

lemma act_bind_step: "m w = Done (Inr x, w1) \<Longrightarrow> act_bind m f w = f x w1"
  by (simp add: act_bind_def)

text \<open>
  A message whose headers the server cannot give yet is lost when the watcher is stopped while it waits to
  fetch them again: the wait ends early, the message counts as one that cannot be indexed, and the
  cursor is written past it.
\<close>

theorem cancelled_retry_loses_message:
  assumes "newMailUIDRange (cLastUID c) (sel_UIDNext selected) = (u, u, True)"
    and "check_ctx E w = Done (Inr (), w)"
    and "FetchHeaderFields (e_imap E) (e_parse E) [u] w = Done (Inr [\<lparr>fm_UID = u, fm_Headers = no_headers\<rparr>], w)"
    and "x_sleep (e_ctx E) (seconds 4) w = Done (Inr False, w)"
    and "e_order E [\<lparr>fm_UID = u, fm_Headers = no_headers\<rparr>] = [\<lparr>fm_UID = u, fm_Headers = no_headers\<rparr>]"
    and "normalizeEmailAddress (ac_User (wa_account W)) = Done mb"
  shows "syncFolderUIDs E W key folder selected (Some c) w
    = act_bind (SetIMAPCursor (e_db E) (wa_store W) \<lparr>cMailbox = key, cFolder = folder, cUIDValidity = sel_UIDValidity selected,
        cLastUID = u, cBaselineDone = cBaselineDone c\<rparr>) (\<lambda>_. ok (0, u)) w"
proof -
  let ?m = "\<lparr>fm_UID = u, fm_Headers = no_headers\<rparr>"
  have u: "u \<noteq> - 1" using new_mail_from [OF assms(1)] by blast
  have e: "headerBlockLooksEmpty no_headers" by (simp add: headerBlockLooksEmpty_def no_headers_def)
  have r: "retryEmptyHeaderFetches E [?m] w = Done (Inr [?m], w)"
    using assms(4,5) e by (simp add: retryEmptyHeaderFetches_def Let_def numeral_3_eq_3 act_bind_def ok_def)
  have "indexMessageFromHeaders (e_db E) (e_now E) (wa_store W) no_headers (index_opts (wa_indexer W) (wa_account W) key folder) w
      = Done (Inr outcomeNotIndexable, w)"
    by (rule index_empty) (use assms(6) in \<open>simp add: index_opts_def\<close>)
  then have b: "index_batch E W key folder no_stats [u] w = Done (Inr (count_outcome outcomeNotIndexable no_stats), w)"
    using assms(3) r by (simp add: index_batch_def act_bind_def wrap_err_def ok_def)
  have be: "batch_end n u u = u" for n by (auto simp: batch_end_def Let_def)
  have l: "uid_list u u [] = Some [u]" using uid_list_range [of u u "[]"] u by (simp add: uid_range_step [of u u])
  have "indexUIDRange E W key folder u u w = Done (Inr (count_outcome outcomeNotIndexable no_stats), w)"
    using assms(2) b l be by (simp add: indexUIDRange_def index_batches.simps [of E W key folder u] Let_def act_bind_def bind_lift_Done
        lift_run_def ok_def)
  moreover have "st_indexed (count_outcome outcomeNotIndexable no_stats) = 0" by (simp add: count_outcome_def no_stats_def)
  ultimately show ?thesis
    using assms(1,2) by (simp add: syncFolderUIDs_def act_bind_step)
qed

subsection \<open>The order of the folders\<close>

lemma split_inbox_filter: "split_inbox out others fs = out @ filter is_inbox fs @ others @ filter (\<lambda>f. \<not> is_inbox f) fs"
  by (induction fs arbitrary: out others) auto

lemma prioritized: "prioritizeIMAPFolders fs = filter is_inbox fs @ filter (\<lambda>f. \<not> is_inbox f) fs"
proof (cases "length fs \<le> 1")
  case True
  then show ?thesis by (cases fs) (auto simp: prioritizeIMAPFolders_def)
qed (simp add: prioritizeIMAPFolders_def split_inbox_filter)

subsection \<open>Runs\<close>

text \<open>A server with the UIDs \<open>uids\<close> that answers every \<open>FETCH\<close> with \<open>msgs\<close>; waiting ends early.\<close>

definition demo_env :: "32 word list \<Rightarrow> fetch_item list list \<Rightarrow> parsedMailHeaders \<Rightarrow> mem_world env" where
  "demo_env uids msgs h = \<lparr>e_db = mem_db,
     e_imap = \<lparr>im_dial = (\<lambda>_ _ _. ok ()), im_close = ok (), im_login = (\<lambda>_ _. ok ()), im_list = ok [], im_select = (\<lambda>_. fail ''no''),
       im_search_all = ok uids, im_fetch = (\<lambda>_. ok msgs), im_fetch_close = ok (), im_idle = ok ()\<rparr>,
     e_ctx = \<lparr>x_err = ok None, x_sleep = (\<lambda>_. ok False), x_race = (\<lambda>_. ok None), x_select = (\<lambda>_. ok Ctx_done)\<rparr>,
     e_parse = (\<lambda>_. Inr h), e_now = 5, e_order = (\<lambda>l. l)\<rparr>"

lemma demo_env_ok: "env_quiet committed (demo_env uids msgs h)" "sql_ok (e_db (demo_env uids msgs h)) committed in_tx"
  by (simp_all add: env_quiet_def demo_env_def mem_db_ok)

lemma demo_check: "check_ctx (demo_env uids msgs h) w = Done (Inr (), w)"
  by (simp add: check_ctx_def demo_env_def act_bind_def ok_def)

definition demo_watcher :: imapAccountWatcher where
  "demo_watcher = newIMAPAccountWatcher (demo_account\<lparr>ac_User := ''all@x.org''\<rparr>)
     \<lparr>iw_IdleRefresh = 0, iw_ResyncInterval = 0, iw_SearchBatch = 0, iw_BaselineHeaderLimit = 0, iw_ExcludeFolders = []\<rparr> demo_indexer"

lemma demo_watcher_simps:
  "wa_store demo_watcher = demo_store" "iw_SearchBatch (wa_cfg demo_watcher) = 500"
  "iw_BaselineHeaderLimit (wa_cfg demo_watcher) = 200" "ac_User (wa_account demo_watcher) = ''all@x.org''"
  by (simp_all add: demo_watcher_def newIMAPAccountWatcher_def imap_normalize_def demo_indexer_def)

theorem range_batches_witness:
  "indexUIDRange (demo_env [] [] no_headers) demo_watcher ''k'' ''INBOX'' 4294967290 4294967294
     = for_batches (demo_env [] [] no_headers) demo_watcher ''k'' ''INBOX'' no_stats
         (chunks 500 (uid_range 4294967290 4294967294))"
  using range_batches [of 4294967290 4294967294 demo_watcher "demo_env [] [] no_headers" "''k''" "''INBOX''"]
  by (simp add: demo_watcher_simps)

lemma mem_set_cursor:
  "SetIMAPCursor mem_db demo_store c (m, x) = Done (Inr (), (m\<lparr>M_cursor := ((trim_space (cMailbox c), trim_space (cFolder c)),
     cUIDValidity c, cLastUID c, if cBaselineDone c then 1 else 0) # M_cursor m\<rparr>, x))"
  by (simp add: SetIMAPCursor_def mem_db_def mem_exec_def)

definition demo_cursor :: imapCursor where
  "demo_cursor = \<lparr>cMailbox = ''k'', cFolder = ''INBOX'', cUIDValidity = 1, cLastUID = 6, cBaselineDone = True\<rparr>"

definition demo_selected :: imapSelectResult where
  "demo_selected = \<lparr>sel_UIDValidity = 1, sel_NumMessages = 7, sel_UIDNext = 8\<rparr>"

lemma demo_range: "newMailUIDRange (cLastUID demo_cursor) (sel_UIDNext demo_selected) = (7, 7, True)"
  by (simp add: newMailUIDRange_def demo_cursor_def demo_selected_def)

theorem cancelled_retry_loses_message_witness:
  "\<exists>w'. syncFolderUIDs (demo_env [] [[FetchItemDataUID 7]] no_headers) demo_watcher ''k'' ''INBOX'' demo_selected (Some demo_cursor)
      (empty_mem, empty_mem) = Done (Inr (0, 7), w') \<and> map_of (M_cursor (fst w')) (''k'', ''INBOX'') = Some (1, 7, 1)"
proof -
  let ?E = "demo_env [] [[FetchItemDataUID 7]] no_headers"
  have f: "FetchHeaderFields (e_imap ?E) (e_parse ?E) [7] w = Done (Inr [\<lparr>fm_UID = 7, fm_Headers = no_headers\<rparr>], w)" for w
    by (simp add: FetchHeaderFields_def demo_env_def act_bind_def ok_def)
  have s: "x_sleep (e_ctx ?E) (seconds 4) w = Done (Inr False, w)" for w by (simp add: demo_env_def ok_def)
  have o: "e_order ?E l = l" for l by (simp add: demo_env_def)
  have t: "trim_space ''k'' = ''k''" "trim_space ''INBOX'' = ''INBOX''" by code_simp+
  from cancelled_retry_loses_message [where W = demo_watcher and key = "''k''" and folder = "''INBOX''" and w = "(empty_mem, empty_mem)",
      OF demo_range demo_check f s o, unfolded demo_watcher_simps, OF demo_mailboxes(1)]
  show ?thesis by (simp add: act_bind_def mem_set_cursor ok_def demo_env_def demo_selected_def demo_cursor_def t)
qed


theorem baseline_loses_arrivals_witness:
  "\<exists>w'. baselineFolder (demo_env [3, 5] [[FetchItemDataUID 3], [FetchItemDataUID 9]] no_headers) demo_watcher ''k'' ''INBOX'' 1
      (empty_mem, empty_mem) = Done (Inr (), w')
    \<and> (\<exists>lst. T_cursor (committed w') (''k'', ''INBOX'') = Some (1, lst, 1) \<and> (lst = - 1 \<or> \<not> lst + 1 \<le> 9))"
proof -
  let ?E = "demo_env [3, 5] [[FetchItemDataUID 3], [FetchItemDataUID 9]] no_headers"
  let ?msgs = "[\<lparr>fm_UID = 3, fm_Headers = no_headers\<rparr>, \<lparr>fm_UID = 9, fm_Headers = no_headers\<rparr>]"
  have f: "FetchHeaderFields (e_imap ?E) (e_parse ?E) [3, 5] w = Done (Inr ?msgs, w)" for w
    by (simp add: FetchHeaderFields_def demo_env_def act_bind_def ok_def)
  have u: "UIDSearchAll (e_imap ?E) w = Done (Inr [3, 5], w)" for w by (simp add: UIDSearchAll_def demo_env_def ok_def)
  have t: "trim_space ''k'' = ''k''" "trim_space ''INBOX'' = ''INBOX''" "normalizeMessageID (hMessageID no_headers) = []" by code_simp+
  have bb: "baseline_batches ?E 500 5 ([], 0) [3, 5] w = Done (Inr ([], 9), w)" for w
    by (subst baseline_batches.simps) (simp add: act_bind_def demo_check f baseline_batches.simps [of _ _ _ _ "[]"] ok_def t)
  obtain w' where b: "baselineFolder ?E demo_watcher ''k'' ''INBOX'' 1 (empty_mem, empty_mem) = Done (Inr (), w')"
    by (simp add: baselineFolder_def act_bind_def demo_check u demo_watcher_simps bb MarkSeenMessages_def ok_def)
      (simp add: demo_env_def mem_set_cursor)
  have "\<exists>lst. T_cursor (committed w') (trim_space ''k'', trim_space ''INBOX'') = Some (1, lst, 1)
    \<and> (\<forall>uidNext. case newMailUIDRange lst uidNext of (f, t, hasNew) \<Rightarrow> lst = - 1 \<or> \<not> (f \<le> 9 \<and> 9 \<le> t))"
    using baseline_loses_arrivals [OF demo_env_ok(2,1) _ b demo_check u _ _ _ demo_check f, of "\<lparr>fm_UID = 9, fm_Headers = no_headers\<rparr>"]
    by (simp add: demo_watcher_simps)
  then obtain lst where l: "T_cursor (committed w') (''k'', ''INBOX'') = Some (1, lst, 1)"
      "\<forall>uidNext. case newMailUIDRange lst uidNext of (f, t, hasNew) \<Rightarrow> lst = - 1 \<or> \<not> (f \<le> 9 \<and> 9 \<le> t)" unfolding t by blast
  from l(2) [rule_format, of 0] l(2) [rule_format, of 100] have "lst = - 1 \<or> \<not> lst + 1 \<le> 9"
    by (auto simp: newMailUIDRange_def Let_def split: if_splits dest: less_le_trans)
  with b l(1) show ?thesis by blast
qed

theorem baseline_skips_existing_witness:
  "\<exists>w'. baselineFolder (demo_env [3, 5] [[FetchItemDataUID 3], [FetchItemDataUID 5]] no_headers) demo_watcher ''k'' ''INBOX'' 1
      (empty_mem, empty_mem) = Done (Inr (), w') \<and> T_threads (committed w') = Map.empty"
proof -
  let ?E = "demo_env [3, 5] [[FetchItemDataUID 3], [FetchItemDataUID 5]] no_headers"
  have f: "FetchHeaderFields (e_imap ?E) (e_parse ?E) [3, 5] w
      = Done (Inr [\<lparr>fm_UID = 3, fm_Headers = no_headers\<rparr>, \<lparr>fm_UID = 5, fm_Headers = no_headers\<rparr>], w)" for w
    by (simp add: FetchHeaderFields_def demo_env_def act_bind_def ok_def)
  have u: "UIDSearchAll (e_imap ?E) w = Done (Inr [3, 5], w)" for w by (simp add: UIDSearchAll_def demo_env_def ok_def)
  have t: "normalizeMessageID (hMessageID no_headers) = []" by code_simp
  have bb: "baseline_batches ?E 500 5 ([], 0) [3, 5] w = Done (Inr ([], 5), w)" for w
    by (subst baseline_batches.simps) (simp add: act_bind_def demo_check f baseline_batches.simps [of _ _ _ _ "[]"] ok_def t)
  obtain w' where b: "baselineFolder ?E demo_watcher ''k'' ''INBOX'' 1 (empty_mem, empty_mem) = Done (Inr (), w')"
    by (simp add: baselineFolder_def act_bind_def demo_check u demo_watcher_simps bb MarkSeenMessages_def ok_def)
      (simp add: demo_env_def mem_set_cursor)
  have "T_threads (committed w') = T_threads (committed (empty_mem, empty_mem))"
    using baseline_skips_existing [OF demo_env_ok(2,1) _ b] by (auto simp: demo_watcher_simps)
  with b show ?thesis by (auto simp: committed_def mem_tables_def empty_mem_def)
qed

end
