(* ===== verification/Auth.thy ===== *)
theory Auth
  imports Envelope
begin

section \<open>SMTP authentication (auth.go)\<close>

text \<open>
  The decoding of the \<open>AUTH\<close> responses and the HTTP authenticator. \<open>base64_decode\<close> is
  \<open>DecodeString\<close> of the two standard encodings (with and without padding), both of which skip
  carriage returns and line feeds; \<open>None\<close> is its error. The HTTP client and the JSON codec are
  arguments of \<open>AuthenticatePlain\<close>, gathered in the record \<open>http_env\<close>.
\<close>

subsection \<open>Base 64\<close>

definition b64_val :: "char \<Rightarrow> nat option" where
  "b64_val c =
     (if CHR ''A'' \<le> c \<and> c \<le> CHR ''Z'' then Some (of_char c - 65)
      else if CHR ''a'' \<le> c \<and> c \<le> CHR ''z'' then Some (of_char c - 97 + 26)
      else if is_digit c then Some (of_char c - 48 + 52)
      else if c = CHR ''+'' then Some 62
      else if c = CHR ''/'' then Some 63
      else None)"

definition byte :: "nat \<Rightarrow> char" where
  "byte n = char_of n"

text \<open>The bytes of a quantum of two, three or four sextets.\<close>

definition quantum :: "nat list \<Rightarrow> bytes" where
  "quantum vs =
     (case vs of
        [a, b] \<Rightarrow> [byte (a * 4 + b div 16)]
      | [a, b, c] \<Rightarrow> [byte (a * 4 + b div 16), byte (b mod 16 * 16 + c div 4)]
      | [a, b, c, d] \<Rightarrow> [byte (a * 4 + b div 16), byte (b mod 16 * 16 + c div 4), byte (c mod 4 * 64 + d)]
      | _ \<Rightarrow> [])"

definition sextets :: "bytes \<Rightarrow> nat list option" where
  "sextets cs = those (map b64_val cs)"

fun decode_quanta :: "bool \<Rightarrow> bytes \<Rightarrow> bytes option" where
  "decode_quanta padded (a # b # c # d # r) =
     (case sextets [a, b, c, d] of
        Some vs \<Rightarrow> map_option (\<lambda>t. quantum vs @ t) (decode_quanta padded r)
      | None \<Rightarrow>
          if padded \<and> r = [] \<and> d = CHR ''='' then
            (if c = CHR ''='' then map_option quantum (sextets [a, b])
             else map_option quantum (sextets [a, b, c]))
          else None)"
| "decode_quanta padded [] = Some []"
| "decode_quanta padded [a] = None"
| "decode_quanta padded cs = (if padded then None else map_option quantum (sextets cs))"

definition base64_decode :: "bool \<Rightarrow> bytes \<Rightarrow> bytes option" where
  "base64_decode padded s = decode_quanta padded (filter (\<lambda>c. c \<noteq> CHR 0x0A \<and> c \<noteq> CHR 0x0D) s)"

definition decodeBase64Lenient :: "bytes \<Rightarrow> bytes option" where
  "decodeBase64Lenient inp =
     (let trimmed = trim_space inp
      in case base64_decode True trimmed of Some b \<Rightarrow> Some b | None \<Rightarrow> base64_decode False trimmed)"

subsection \<open>AUTH PLAIN\<close>

definition parseAuthPlainIR :: "bytes \<Rightarrow> (bytes \<times> bytes \<times> bytes) option" where
  "parseAuthPlainIR b64 =
     (case decodeBase64Lenient b64 of
        None \<Rightarrow> None
      | Some decoded \<Rightarrow>
          (let parts = split_on NUL decoded; n = length parts
           in if n < 3 then None
              else if parts ! (n - 2) = [] then None
              else Some (parts ! (n - 3), parts ! (n - 2), parts ! (n - 1))))"

subsection \<open>The HTTP authenticator\<close>

record authResult =
  AuthOK :: bool
  AuthResTenant :: "tenantSendConfig option"

record authConfig =
  AuthEnabled :: bool
  AuthType :: bytes
  AuthURL :: bytes
  AuthTimeout :: bytes
  AuthHeaders :: "(bytes \<times> bytes) list"

record httpAuthenticator =
  ha_url :: bytes
  ha_timeout :: int
  ha_headers :: "(bytes \<times> bytes) list"

definition NewHTTPAuthenticator :: "bytes \<Rightarrow> int \<Rightarrow> (bytes \<times> bytes) list \<Rightarrow> httpAuthenticator" where
  "NewHTTPAuthenticator url timeout headers = \<lparr>ha_url = url, ha_timeout = timeout, ha_headers = headers\<rparr>"

text \<open>\<open>parseDuration\<close> is \<open>time.ParseDuration\<close>, in nanoseconds.\<close>

definition NewHTTPAuthenticatorFromConfig ::
    "(bytes \<Rightarrow> int option) \<Rightarrow> authConfig \<Rightarrow> bytes + httpAuthenticator" where
  "NewHTTPAuthenticatorFromConfig parseDuration c =
     (if trim_space (AuthURL c) = [] then Inl ''auth.url is required''
      else if trim_space (AuthTimeout c) \<noteq> [] then
        (case parseDuration (AuthTimeout c) of
           None \<Rightarrow> Inl ''invalid auth.timeout''
         | Some t \<Rightarrow> Inr (NewHTTPAuthenticator (AuthURL c) t (AuthHeaders c)))
      else Inr (NewHTTPAuthenticator (AuthURL c) 2000000000 (AuthHeaders c)))"

record httpAuthRequest =
  req_Identity :: bytes
  req_Username :: bytes
  req_Password :: bytes
  req_RemoteIP :: bytes
  req_Helo :: bytes
  req_TLS :: bool

record http_request =
  hr_method :: bytes
  hr_url :: bytes
  hr_body :: bytes
  hr_headers :: "(bytes \<times> bytes) list"

text \<open>
  What the authenticator calls: \<open>json.Marshal\<close> of the request, \<open>http.NewRequest\<close> (which
  refuses a bad URL), \<open>Client.Do\<close> (an error, or the status code and what reading the body
  gives), and \<open>json.Unmarshal\<close> into the response (its \<open>ok\<close> field) and into a tenant record.
\<close>

record http_env =
  he_marshal :: "httpAuthRequest \<Rightarrow> bytes + bytes"
  he_badURL :: "bytes \<Rightarrow> bytes option"
  he_Do :: "http_request \<Rightarrow> bytes + int \<times> (bytes + bytes)"
  he_ok :: "bytes \<Rightarrow> bytes + bool"
  he_tenant :: "bytes \<Rightarrow> bytes + tenantJSON"

definition auth_request :: "bytes \<Rightarrow> bytes \<Rightarrow> bytes \<Rightarrow> envelope \<Rightarrow> httpAuthRequest" where
  "auth_request identity username password e =
     \<lparr>req_Identity = identity, req_Username = username, req_Password = password,
      req_RemoteIP = eRemoteIP e, req_Helo = eHelo e, req_TLS = eTLS e\<rparr>"

text \<open>The answer of the service: the status code, then the body.\<close>

definition auth_answer :: "http_env \<Rightarrow> int \<Rightarrow> bytes \<Rightarrow> bytes + authResult" where
  "auth_answer he status respBody =
     (if status < 200 \<or> 300 \<le> status then Inr \<lparr>AuthOK = False, AuthResTenant = None\<rparr>
      else (case he_ok he respBody of
              Inl err \<Rightarrow> Inl err
            | Inr ok \<Rightarrow>
                if \<not> ok then Inr \<lparr>AuthOK = False, AuthResTenant = None\<rparr>
                else (case ParseTenantSendConfigFromAuth (he_tenant he) respBody of
                        Inl err \<Rightarrow> Inl err
                      | Inr tenant \<Rightarrow> Inr \<lparr>AuthOK = True, AuthResTenant = tenant\<rparr>)))"

definition AuthenticatePlain ::
    "http_env \<Rightarrow> httpAuthenticator \<Rightarrow> bytes \<Rightarrow> bytes \<Rightarrow> bytes \<Rightarrow> envelope \<Rightarrow> bytes + authResult" where
  "AuthenticatePlain he h identity username password e =
     (case he_marshal he (auth_request identity username password e) of
        Inl err \<Rightarrow> Inl err
      | Inr body \<Rightarrow>
          (case he_badURL he (ha_url h) of
             Some err \<Rightarrow> Inl err
           | None \<Rightarrow>
               (case he_Do he \<lparr>hr_method = ''POST'', hr_url = ha_url h, hr_body = body,
                        hr_headers = (''Content-Type'', ''application/json'') # ha_headers h\<rparr> of
                  Inl err \<Rightarrow> Inl err
                | Inr (status, Inl err) \<Rightarrow> Inl err
                | Inr (status, Inr respBody) \<Rightarrow> auth_answer he status respBody)))"

subsection \<open>The reference encoder\<close>

definition b64_alphabet :: bytes where
  "b64_alphabet = ''ABCDEFGHIJKLMNOPQRSTUVWXYZabcdefghijklmnopqrstuvwxyz0123456789+/''"

definition b64_char :: "nat \<Rightarrow> char" where
  "b64_char n = b64_alphabet ! n"

fun b64_encode :: "bool \<Rightarrow> bytes \<Rightarrow> bytes" where
  "b64_encode padded (x # y # z # r) =
     (let a = of_char x; b = of_char y; c = of_char z
      in map b64_char [a div 4, a mod 4 * 16 + b div 16, b mod 16 * 4 + c div 64, c mod 64]
         @ b64_encode padded r)"
| "b64_encode padded [x, y] =
     (let a = of_char x; b = of_char y
      in map b64_char [a div 4, a mod 4 * 16 + b div 16, b mod 16 * 4] @ (if padded then ''='' else []))"
| "b64_encode padded [x] =
     (let a = of_char x in map b64_char [a div 4, a mod 4 * 16] @ (if padded then ''=='' else []))"
| "b64_encode padded [] = []"

lemma b64_char_table: "list_all (\<lambda>n. b64_val (b64_char n) = Some n \<and> \<not> is_space (b64_char n)) [0..<64]"
  by code_simp

lemma b64_char_val: "n < 64 \<Longrightarrow> b64_val (b64_char n) = Some n"
  using b64_char_table by (auto simp: list_all_iff)

lemma b64_char_space: "n < 64 \<Longrightarrow> \<not> is_space (b64_char n)"
  using b64_char_table by (auto simp: list_all_iff)

lemma b64_pad_val: "b64_val (CHR ''='') = None"
  by code_simp

lemma b64_pad_space: "\<not> is_space (CHR ''='')"
  by (simp add: is_space_def)

lemma byte_bound: "(of_char c :: nat) < 256"
  by (rule nat_of_char_less_256)

lemma byte_id: "byte (of_char c) = c"
  by (simp add: byte_def)

lemma sextets_enc: "\<forall>n \<in> set ns. n < 64 \<Longrightarrow> sextets (map b64_char ns) = Some ns"
  by (induction ns) (auto simp: sextets_def b64_char_val)

lemma split_low: "(a mod 4 * 16 + b div 16) div 16 = a mod 4" if "b < 256" for a b :: nat
proof -
  have "b div 16 < 16" using that by simp
  then show ?thesis by simp
qed

lemma split_mid: "(a mod 4 * 16 + b div 16) mod 16 * 16 + (b mod 16 * 4 + c div 64) div 4 = b"
  if "b < 256" "c < 256" for a b c :: nat
proof -
  have "b div 16 < 16" "c div 64 < 4" using that by simp_all
  then have "(a mod 4 * 16 + b div 16) mod 16 = b div 16" "(b mod 16 * 4 + c div 64) div 4 = b mod 16"
    by simp_all
  then show ?thesis by simp
qed

lemma split_high: "(b mod 16 * 4 + c div 64) mod 4 * 64 + c mod 64 = c" if "c < 256" for b c :: nat
proof -
  have "c div 64 < 4" using that by simp
  then have "(b mod 16 * 4 + c div 64) mod 4 = c div 64" by simp
  then show ?thesis by simp
qed

lemma sextet_bounds:
  "a div 4 < 64" "a mod 4 * 16 + b div 16 < 64" "b mod 16 * 4 + c div 64 < 64" "c mod 64 < 64"
  if "a < 256" "b < 256" "c < 256" for a b c :: nat
proof -
  have "a mod 4 \<le> 3" "b mod 16 \<le> 15" by simp_all
  moreover have "b div 16 \<le> 15" "c div 64 \<le> 3" using that by simp_all
  ultimately show "a mod 4 * 16 + b div 16 < 64" "b mod 16 * 4 + c div 64 < 64" by linarith+
qed (use that in simp_all)

lemma encode_quantum:
  "decode_quanta p (b64_encode q (x # y # z # r))
     = map_option ((@) [x, y, z]) (decode_quanta p (b64_encode q r))"
proof -
  let ?a = "of_char x :: nat" and ?b = "of_char y :: nat" and ?c = "of_char z :: nat"
  let ?vs = "[?a div 4, ?a mod 4 * 16 + ?b div 16, ?b mod 16 * 4 + ?c div 64, ?c mod 64]"
  have s: "sextets (map b64_char ?vs) = Some ?vs"
    using sextet_bounds [OF byte_bound [of x] byte_bound [of y] byte_bound [of z]] by (intro sextets_enc) simp
  have q: "quantum ?vs = [x, y, z]"
    using split_low [of ?b ?a] split_mid [of ?b ?c ?a] split_high [of ?c ?b] byte_bound byte_id
    by (simp add: quantum_def)
  from s q show ?thesis by (simp add: Let_def)
qed

lemma decode_encode: "decode_quanta padded (b64_encode padded bs) = Some bs"
proof (induction padded bs rule: b64_encode.induct)
  case (1 padded x y z r)
  then show ?case by (simp only: encode_quantum) simp
next
  case (2 padded x y)
  let ?a = "of_char x :: nat" and ?b = "of_char y :: nat"
  let ?vs = "[?a div 4, ?a mod 4 * 16 + ?b div 16, ?b mod 16 * 4]"
  have s: "sextets (map b64_char ?vs) = Some ?vs"
    using sextet_bounds [OF byte_bound [of x] byte_bound [of y], of 0] by (intro sextets_enc) simp
  have q: "quantum ?vs = [x, y]"
    using split_low [of ?b ?a] split_mid [of ?b 0 ?a] byte_bound byte_id by (simp add: quantum_def)
  have c: "b64_char (?b mod 16 * 4) \<noteq> CHR ''=''"
    using b64_char_val [of "?b mod 16 * 4"] sextet_bounds(3) [OF byte_bound [of x] byte_bound [of y], of 0]
      b64_pad_val by (metis add.right_neutral div_0 option.distinct(1) zero_less_numeral)
  have n: "sextets (map b64_char ?vs @ ''='') = None" by (simp add: sextets_def b64_pad_val split: option.splits)
  from s q c n show ?case by (simp add: Let_def)
next
  case (3 padded x)
  let ?a = "of_char x :: nat"
  let ?vs = "[?a div 4, ?a mod 4 * 16]"
  have s: "sextets (map b64_char ?vs) = Some ?vs"
    using sextet_bounds [OF byte_bound [of x], of 0 0] by (intro sextets_enc) simp
  have q: "quantum ?vs = [x]"
    using split_low [of 0 ?a] byte_id by (simp add: quantum_def)
  have n: "sextets (map b64_char ?vs @ ''=='') = None" by (simp add: sextets_def b64_pad_val split: option.splits)
  from s q n show ?case by (simp add: Let_def)
qed simp

lemma raw_for_padded: "decode_quanta True (b64_encode False bs) \<in> {None, Some bs}"
proof (induction False bs rule: b64_encode.induct)
  case (1 x y z r)
  then show ?case by (simp only: encode_quantum) auto
qed (simp_all add: Let_def)

lemma encode_no_space: "\<forall>c \<in> set (b64_encode padded bs). \<not> is_space c"
proof (induction padded bs rule: b64_encode.induct)
  case (1 padded x y z r)
  then show ?case
    using sextet_bounds [OF byte_bound [of x] byte_bound [of y] byte_bound [of z]]
    by (auto simp: Let_def b64_char_space)
next
  case (2 padded x y)
  then show ?case
    using sextet_bounds [OF byte_bound [of x] byte_bound [of y], of 0]
    by (auto simp: Let_def b64_char_space b64_pad_space)
next
  case (3 padded x)
  then show ?case
    using sextet_bounds [OF byte_bound [of x], of 0 0]
    by (auto simp: Let_def b64_char_space b64_pad_space)
qed simp

lemma trim_no_space: "\<forall>c \<in> set s. \<not> is_space c \<Longrightarrow> trim_space s = s"
  unfolding trim_space_def by (rule trim_by_id) (cases s; auto)

lemma base64_no_space: "\<forall>c \<in> set s. \<not> is_space c \<Longrightarrow> base64_decode padded s = decode_quanta padded s"
  unfolding base64_decode_def by (rule arg_cong [where f = "decode_quanta padded"])
    (auto simp: filter_id_conv is_space_def)

lemma decodeBase64Lenient_encode: "decodeBase64Lenient (b64_encode padded bs) = Some bs"
proof (cases padded)
  case True
  then show ?thesis
    by (simp add: decodeBase64Lenient_def trim_no_space base64_no_space encode_no_space decode_encode)
next
  case False
  then show ?thesis using raw_for_padded [of bs]
    by (auto simp: decodeBase64Lenient_def trim_no_space base64_no_space encode_no_space decode_encode
        split: option.splits)
qed

lemma split_three:
  "NUL \<notin> set i \<Longrightarrow> NUL \<notin> set u \<Longrightarrow> NUL \<notin> set p \<Longrightarrow> split_on NUL (i @ [NUL] @ u @ [NUL] @ p) = [i, u, p]"
  by (simp add: split_on_append split_on_notin)

lemma split_on_length: "length (split_on c s) = length (filter (\<lambda>x. x = c) s) + 1"
proof (induction s)
  case (Cons x s)
  then show ?case by (cases "split_on c s") auto
qed simp

subsection \<open>Properties\<close>

text \<open>
  The lenient decoder undoes both encodings. For every string of bytes, its base-64 text with
  or without padding, also when surrounded by white space, decodes to the string.
\<close>

theorem base64_roundtrip:
  assumes "\<forall>c \<in> set pre \<union> set post. is_space c"
  shows "decodeBase64Lenient (pre @ b64_encode padded bs @ post) = Some bs"
proof -
  have "trim_space (pre @ b64_encode padded bs @ post) = b64_encode padded bs"
    using assms by (intro trim_space_surround encode_no_space) auto
  then have "decodeBase64Lenient (pre @ b64_encode padded bs @ post) = decodeBase64Lenient (b64_encode padded bs)"
    by (simp add: decodeBase64Lenient_def trim_no_space encode_no_space)
  then show ?thesis by (simp add: decodeBase64Lenient_encode)
qed

theorem base64_roundtrip_witness: "decodeBase64Lenient '' dXNlcg '' = Some ''user''"
proof -
  have "'' dXNlcg '' = '' '' @ b64_encode False ''user'' @ '' ''" by code_simp
  then show ?thesis using base64_roundtrip [of "'' ''" "'' ''" False "''user''"] by (simp add: is_space_def)
qed

text \<open>
  C36: \<open>AUTH PLAIN\<close> credentials arrive as the client encoded them. For every authorization
  identity, user name and password without a NUL, the user name not empty, the initial response
  that encodes them is parsed to exactly these three.
\<close>

theorem auth_plain_roundtrip:
  assumes "NUL \<notin> set i" and "NUL \<notin> set u" and "NUL \<notin> set p" and "u \<noteq> []"
  shows "parseAuthPlainIR (b64_encode padded (i @ [NUL] @ u @ [NUL] @ p)) = Some (i, u, p)"
  unfolding parseAuthPlainIR_def decodeBase64Lenient_encode
  using split_three [OF assms(1-3)] assms(4) by simp

theorem auth_plain_roundtrip_witness:
  "parseAuthPlainIR ''AGFsaWNlAHMzY3JldA=='' = Some ([], ''alice'', ''s3cret'')"
proof -
  have "b64_encode True ([] @ [NUL] @ ''alice'' @ [NUL] @ ''s3cret'') = ''AGFsaWNlAHMzY3JldA==''" by code_simp
  then show ?thesis using auth_plain_roundtrip [of "[]" "''alice''" "''s3cret''" True] by simp
qed

text \<open>
  What the parser of \<open>AUTH PLAIN\<close> refuses. It gives credentials exactly when the response
  decodes to text with at least two NULs whose last but one field is not empty; the user name it
  gives is never empty and none of the three fields has a NUL.
\<close>

theorem auth_plain_sound:
  "parseAuthPlainIR b = Some (i, u, p) \<Longrightarrow>
   u \<noteq> [] \<and> NUL \<notin> set (i @ u @ p) \<and>
   (\<exists>decoded. decodeBase64Lenient b = Some decoded \<and> 2 \<le> length (filter (\<lambda>x. x = NUL) decoded))"
proof -
  assume h: "parseAuthPlainIR b = Some (i, u, p)"
  then obtain d where d: "decodeBase64Lenient b = Some d" and n: "\<not> length (split_on NUL d) < 3"
    and f: "i = split_on NUL d ! (length (split_on NUL d) - 3)"
      "u = split_on NUL d ! (length (split_on NUL d) - 2)"
      "p = split_on NUL d ! (length (split_on NUL d) - 1)" and u: "u \<noteq> []"
    by (auto simp: parseAuthPlainIR_def Let_def split: option.splits if_splits)
  have "i \<in> set (split_on NUL d)" "u \<in> set (split_on NUL d)" "p \<in> set (split_on NUL d)"
    using n by (auto simp: f intro!: nth_mem)
  then have "NUL \<notin> set (i @ u @ p)" using split_on_set by fastforce
  with u d n show ?thesis by (auto simp: split_on_length)
qed

theorem auth_plain_sound_witness: "2 \<le> length (filter (\<lambda>x. x = NUL) (NUL # ''a'' @ [NUL] @ ''b''))"
proof -
  have 1: "parseAuthPlainIR ''AGEAYg=='' = Some ([], ''a'', ''b'')" by code_simp
  have 2: "decodeBase64Lenient ''AGEAYg=='' = Some (NUL # ''a'' @ [NUL] @ ''b'')" by code_simp
  from auth_plain_sound [OF 1] 2 show ?thesis by auto
qed

text \<open>
  C37: the HTTP authenticator never says yes on its own. A positive result means that the service
  answered the request carrying exactly these credentials and the client's address with a 2xx
  status and \<open>ok\<close> true, and a tenant in the result has complete credentials.
\<close>

theorem http_auth_ok:
  assumes "AuthenticatePlain he h identity username password e = Inr r" and "AuthOK r"
  shows "\<exists>body status respBody.
    he_marshal he \<lparr>req_Identity = identity, req_Username = username, req_Password = password,
      req_RemoteIP = eRemoteIP e, req_Helo = eHelo e, req_TLS = eTLS e\<rparr> = Inr body
    \<and> he_Do he \<lparr>hr_method = ''POST'', hr_url = ha_url h, hr_body = body,
         hr_headers = (''Content-Type'', ''application/json'') # ha_headers h\<rparr> = Inr (status, Inr respBody)
    \<and> 200 \<le> status \<and> status < 300 \<and> he_ok he respBody = Inr True
    \<and> (\<forall>t. AuthResTenant r = Some t \<longrightarrow> send_ok t)"
proof -
  have "AuthResTenant r = Some t \<Longrightarrow> send_ok t" for t
    using assms validateTenantSendConfig_ok
    by (auto simp: AuthenticatePlain_def auth_answer_def ParseTenantSendConfigFromAuth_def
        split: sum.splits option.splits if_splits prod.splits)
  moreover have "\<exists>body status respBody. he_marshal he (auth_request identity username password e) = Inr body
    \<and> he_Do he \<lparr>hr_method = ''POST'', hr_url = ha_url h, hr_body = body,
         hr_headers = (''Content-Type'', ''application/json'') # ha_headers h\<rparr> = Inr (status, Inr respBody)
    \<and> 200 \<le> status \<and> status < 300 \<and> he_ok he respBody = Inr True"
    using assms by (auto simp: AuthenticatePlain_def auth_answer_def split: sum.splits option.splits if_splits)
  ultimately show ?thesis unfolding auth_request_def by blast
qed

theorem http_auth_ok_witness:
  "let he = \<lparr>he_marshal = (\<lambda>r. Inr (req_Username r)), he_badURL = (\<lambda>u. None), he_Do = (\<lambda>r. Inr (204, Inr (hr_body r))),
         he_ok = (\<lambda>b. Inr (b = ''bob'')), he_tenant = (\<lambda>b. Inr \<lparr>TenantID = [], Provider = [], SES = None,
           OCIEmail = None, POP3Accounts = [], IMAPAccounts = [], OK = True\<rparr>)\<rparr>
   in \<exists>body. he_marshal he \<lparr>req_Identity = [], req_Username = ''bob'', req_Password = ''pw'',
      req_RemoteIP = ''::1'', req_Helo = [], req_TLS = False\<rparr> = Inr body \<and> he_ok he body = Inr True"
proof -
  let ?he = "\<lparr>he_marshal = (\<lambda>r. Inr (req_Username r)), he_badURL = (\<lambda>u. None), he_Do = (\<lambda>r. Inr (204, Inr (hr_body r))),
         he_ok = (\<lambda>b. Inr (b = ''bob'')), he_tenant = (\<lambda>b. Inr \<lparr>TenantID = [], Provider = [], SES = None,
           OCIEmail = None, POP3Accounts = [], IMAPAccounts = [], OK = True\<rparr>)\<rparr>"
  let ?h = "NewHTTPAuthenticator ''http://auth'' 2000000000 []" and ?e = "NewEnvelope ''::1'' ''q''"
  have "AuthenticatePlain ?he ?h [] ''bob'' ''pw'' ?e = Inr \<lparr>AuthOK = True, AuthResTenant = None\<rparr>"
    by (simp add: AuthenticatePlain_def auth_request_def auth_answer_def NewHTTPAuthenticator_def
        ParseTenantSendConfigFromAuth_def trim_space_def)
  from http_auth_ok [OF this] show ?thesis by (simp add: Let_def NewEnvelope_def)
qed

end
