(* ===== verification/Response.thy ===== *)
theory Response
  imports Prelude
begin

section \<open>SMTP replies (response/enhanced.go)\<close>

text \<open>
  The reply structure of the server: the enhanced status codes of RFC 3463 with the table
  that maps them to basic codes, the canned replies built by the package's \<open>init\<close>, and
  the cached printing of a reply. A Go \<open>int\<close> that holds a status code is an \<^typ>\<open>int\<close>:
  no arithmetic here leaves the range of three digits.
\<close>

subsection \<open>Classes and detail codes\<close>

abbreviation ClassSuccess :: int where
  "ClassSuccess \<equiv> 2"

abbreviation ClassTransientFailure :: int where
  "ClassTransientFailure \<equiv> 4"

abbreviation ClassPermanentFailure :: int where
  "ClassPermanentFailure \<equiv> 5"

definition SP :: bytes where
  "SP = '' ''"

abbreviation OtherStatus :: bytes where
  "OtherStatus \<equiv> ''.0.0''"

abbreviation OtherAddressStatus :: bytes where
  "OtherAddressStatus \<equiv> ''.1.0''"

abbreviation BadDestinationMailboxAddress :: bytes where
  "BadDestinationMailboxAddress \<equiv> ''.1.1''"

abbreviation BadDestinationSystemAddress :: bytes where
  "BadDestinationSystemAddress \<equiv> ''.1.2''"

abbreviation BadDestinationMailboxAddressSyntax :: bytes where
  "BadDestinationMailboxAddressSyntax \<equiv> ''.1.3''"

abbreviation DestinationMailboxAddressAmbiguous :: bytes where
  "DestinationMailboxAddressAmbiguous \<equiv> ''.1.4''"

abbreviation DestinationMailboxAddressValid :: bytes where
  "DestinationMailboxAddressValid \<equiv> ''.1.5''"

abbreviation MailboxHasMoved :: bytes where
  "MailboxHasMoved \<equiv> ''.1.6''"

abbreviation BadSendersMailboxAddressSyntax :: bytes where
  "BadSendersMailboxAddressSyntax \<equiv> ''.1.7''"

abbreviation BadSendersSystemAddress :: bytes where
  "BadSendersSystemAddress \<equiv> ''.1.8''"

abbreviation OtherOrUndefinedMailboxStatus :: bytes where
  "OtherOrUndefinedMailboxStatus \<equiv> ''.2.0''"

abbreviation MailboxDisabled :: bytes where
  "MailboxDisabled \<equiv> ''.2.1''"

abbreviation MailboxFull :: bytes where
  "MailboxFull \<equiv> ''.2.2''"

abbreviation MessageLengthExceedsAdministrativeLimit :: bytes where
  "MessageLengthExceedsAdministrativeLimit \<equiv> ''.2.3''"

abbreviation MailingListExpansionProblem :: bytes where
  "MailingListExpansionProblem \<equiv> ''.2.4''"

abbreviation OtherOrUndefinedMailSystemStatus :: bytes where
  "OtherOrUndefinedMailSystemStatus \<equiv> ''.3.0''"

abbreviation MailSystemFull :: bytes where
  "MailSystemFull \<equiv> ''.3.1''"

abbreviation SystemNotAcceptingNetworkMessages :: bytes where
  "SystemNotAcceptingNetworkMessages \<equiv> ''.3.2''"

abbreviation SystemNotCapableOfSelectedFeatures :: bytes where
  "SystemNotCapableOfSelectedFeatures \<equiv> ''.3.3''"

abbreviation MessageTooBigForSystem :: bytes where
  "MessageTooBigForSystem \<equiv> ''.3.4''"

abbreviation OtherOrUndefinedNetworkOrRoutingStatus :: bytes where
  "OtherOrUndefinedNetworkOrRoutingStatus \<equiv> ''.4.0''"

abbreviation NoAnswerFromHost :: bytes where
  "NoAnswerFromHost \<equiv> ''.4.1''"

abbreviation BadConnection :: bytes where
  "BadConnection \<equiv> ''.4.2''"

abbreviation RoutingServerFailure :: bytes where
  "RoutingServerFailure \<equiv> ''.4.3''"

abbreviation UnableToRoute :: bytes where
  "UnableToRoute \<equiv> ''.4.4''"

abbreviation NetworkCongestion :: bytes where
  "NetworkCongestion \<equiv> ''.4.5''"

abbreviation RoutingLoopDetected :: bytes where
  "RoutingLoopDetected \<equiv> ''.4.6''"

abbreviation DeliveryTimeExpired :: bytes where
  "DeliveryTimeExpired \<equiv> ''.4.7''"

abbreviation OtherOrUndefinedProtocolStatus :: bytes where
  "OtherOrUndefinedProtocolStatus \<equiv> ''.5.0''"

abbreviation InvalidCommand :: bytes where
  "InvalidCommand \<equiv> ''.5.1''"

abbreviation SyntaxError :: bytes where
  "SyntaxError \<equiv> ''.5.2''"

abbreviation TooManyRecipients :: bytes where
  "TooManyRecipients \<equiv> ''.5.3''"

abbreviation InvalidCommandArguments :: bytes where
  "InvalidCommandArguments \<equiv> ''.5.4''"

abbreviation WrongProtocolVersion :: bytes where
  "WrongProtocolVersion \<equiv> ''.5.5''"

abbreviation OtherOrUndefinedMediaError :: bytes where
  "OtherOrUndefinedMediaError \<equiv> ''.6.0''"

abbreviation MediaNotSupported :: bytes where
  "MediaNotSupported \<equiv> ''.6.1''"

abbreviation ConversionRequiredAndProhibited :: bytes where
  "ConversionRequiredAndProhibited \<equiv> ''.6.2''"

abbreviation ConversionRequiredButNotSupported :: bytes where
  "ConversionRequiredButNotSupported \<equiv> ''.6.3''"

abbreviation ConversionWithLossPerformed :: bytes where
  "ConversionWithLossPerformed \<equiv> ''.6.4''"

abbreviation ConversionFailed :: bytes where
  "ConversionFailed \<equiv> ''.6.5''"

text \<open>\<open>class.String\<close> prints with the verb \<open>%c\<close>: the rune whose code point is the class.\<close>

definition class_String :: "int \<Rightarrow> bytes" where
  "class_String c = char_of (nat c) # ''00''"

datatype enhancedStatusCode = EnhancedStatusCode (esc_class: int) (esc_detail: bytes)

definition esc_String :: "enhancedStatusCode \<Rightarrow> bytes" where
  "esc_String e = show_int (esc_class e) @ esc_detail e"

definition codeMap :: "(enhancedStatusCode \<times> int) list" where
  "codeMap =
     [
      (EnhancedStatusCode ClassSuccess OtherAddressStatus, 250),
      (EnhancedStatusCode ClassSuccess DestinationMailboxAddressValid, 250),
      (EnhancedStatusCode ClassSuccess OtherOrUndefinedMailSystemStatus, 250),
      (EnhancedStatusCode ClassSuccess OtherOrUndefinedProtocolStatus, 250),
      (EnhancedStatusCode ClassSuccess ConversionWithLossPerformed, 250),
      (EnhancedStatusCode ClassSuccess ''.6.8'', 252),
      (EnhancedStatusCode ClassSuccess ''.7.0'', 220),
      (EnhancedStatusCode ClassTransientFailure BadDestinationMailboxAddress, 451),
      (EnhancedStatusCode ClassTransientFailure BadSendersSystemAddress, 451),
      (EnhancedStatusCode ClassTransientFailure MailingListExpansionProblem, 450),
      (EnhancedStatusCode ClassTransientFailure OtherOrUndefinedMailSystemStatus, 421),
      (EnhancedStatusCode ClassTransientFailure MailSystemFull, 452),
      (EnhancedStatusCode ClassTransientFailure SystemNotAcceptingNetworkMessages, 453),
      (EnhancedStatusCode ClassTransientFailure NoAnswerFromHost, 451),
      (EnhancedStatusCode ClassTransientFailure BadConnection, 421),
      (EnhancedStatusCode ClassTransientFailure RoutingServerFailure, 451),
      (EnhancedStatusCode ClassTransientFailure NetworkCongestion, 451),
      (EnhancedStatusCode ClassTransientFailure OtherOrUndefinedProtocolStatus, 451),
      (EnhancedStatusCode ClassTransientFailure InvalidCommand, 430),
      (EnhancedStatusCode ClassTransientFailure TooManyRecipients, 452),
      (EnhancedStatusCode ClassTransientFailure InvalidCommandArguments, 451),
      (EnhancedStatusCode ClassTransientFailure ''.7.0'', 450),
      (EnhancedStatusCode ClassTransientFailure ''.7.1'', 451),
      (EnhancedStatusCode ClassTransientFailure ''.7.12'', 422),
      (EnhancedStatusCode ClassTransientFailure ''.7.15'', 450),
      (EnhancedStatusCode ClassTransientFailure ''.7.24'', 451),
      (EnhancedStatusCode ClassPermanentFailure BadDestinationMailboxAddress, 550),
      (EnhancedStatusCode ClassPermanentFailure BadDestinationMailboxAddressSyntax, 501),
      (EnhancedStatusCode ClassPermanentFailure BadSendersSystemAddress, 501),
      (EnhancedStatusCode ClassPermanentFailure ''.1.10'', 556),
      (EnhancedStatusCode ClassPermanentFailure MailboxFull, 552),
      (EnhancedStatusCode ClassPermanentFailure MessageLengthExceedsAdministrativeLimit, 552),
      (EnhancedStatusCode ClassPermanentFailure OtherOrUndefinedMailSystemStatus, 550),
      (EnhancedStatusCode ClassPermanentFailure MessageTooBigForSystem, 552),
      (EnhancedStatusCode ClassPermanentFailure RoutingServerFailure, 550),
      (EnhancedStatusCode ClassPermanentFailure OtherOrUndefinedProtocolStatus, 501),
      (EnhancedStatusCode ClassPermanentFailure InvalidCommand, 500),
      (EnhancedStatusCode ClassPermanentFailure SyntaxError, 500),
      (EnhancedStatusCode ClassPermanentFailure InvalidCommandArguments, 501),
      (EnhancedStatusCode ClassPermanentFailure ''.5.6'', 500),
      (EnhancedStatusCode ClassPermanentFailure ConversionRequiredButNotSupported, 554),
      (EnhancedStatusCode ClassPermanentFailure ''.6.6'', 554),
      (EnhancedStatusCode ClassPermanentFailure ''.6.7'', 553),
      (EnhancedStatusCode ClassPermanentFailure ''.6.8'', 550),
      (EnhancedStatusCode ClassPermanentFailure ''.6.9'', 550),
      (EnhancedStatusCode ClassPermanentFailure ''.7.0'', 550),
      (EnhancedStatusCode ClassPermanentFailure ''.7.1'', 551),
      (EnhancedStatusCode ClassPermanentFailure ''.7.2'', 550),
      (EnhancedStatusCode ClassPermanentFailure ''.7.4'', 504),
      (EnhancedStatusCode ClassPermanentFailure ''.7.8'', 554),
      (EnhancedStatusCode ClassPermanentFailure ''.7.9'', 534),
      (EnhancedStatusCode ClassPermanentFailure ''.7.10'', 523),
      (EnhancedStatusCode ClassPermanentFailure ''.7.11'', 524),
      (EnhancedStatusCode ClassPermanentFailure ''.7.13'', 525),
      (EnhancedStatusCode ClassPermanentFailure ''.7.14'', 535),
      (EnhancedStatusCode ClassPermanentFailure ''.7.15'', 550),
      (EnhancedStatusCode ClassPermanentFailure ''.7.16'', 552),
      (EnhancedStatusCode ClassPermanentFailure ''.7.17'', 500),
      (EnhancedStatusCode ClassPermanentFailure ''.7.18'', 500),
      (EnhancedStatusCode ClassPermanentFailure ''.7.19'', 500),
      (EnhancedStatusCode ClassPermanentFailure ''.7.20'', 550),
      (EnhancedStatusCode ClassPermanentFailure ''.7.21'', 550),
      (EnhancedStatusCode ClassPermanentFailure ''.7.22'', 550),
      (EnhancedStatusCode ClassPermanentFailure ''.7.23'', 550),
      (EnhancedStatusCode ClassPermanentFailure ''.7.24'', 550),
      (EnhancedStatusCode ClassPermanentFailure ''.7.25'', 550),
      (EnhancedStatusCode ClassPermanentFailure ''.7.26'', 550),
      (EnhancedStatusCode ClassPermanentFailure ''.7.27'', 550)]"

definition defaultTexts :: "(enhancedStatusCode \<times> bytes) list" where
  "defaultTexts =
     [(EnhancedStatusCode ClassSuccess ''.0.0'', ''OK''),
      (EnhancedStatusCode ClassSuccess ''.1.0'', ''OK''),
      (EnhancedStatusCode ClassSuccess ''.1.5'', ''OK''),
      (EnhancedStatusCode ClassSuccess ''.5.0'', ''OK''),
      (EnhancedStatusCode ClassTransientFailure ''.5.3'', ''Too many recipients''),
      (EnhancedStatusCode ClassTransientFailure ''.5.4'', ''Relay access denied''),
      (EnhancedStatusCode ClassPermanentFailure ''.5.1'', ''Invalid command'')]"

definition getBasicStatusCode :: "enhancedStatusCode \<Rightarrow> int" where
  "getBasicStatusCode e =
     (case map_of codeMap e of Some val \<Rightarrow> val | None \<Rightarrow> esc_class e * 100)"

subsection \<open>Printing a reply\<close>

record response =
  EnhancedCode :: bytes
  BasicCode :: int
  Class :: int
  Comment :: bytes
  cached :: bytes

text \<open>\<open>(*Response).String\<close>: the printed reply and the reply with its cache filled.\<close>

definition resp_comment :: "response \<Rightarrow> bytes" where
  "resp_comment r =
     (if Comment r = [] \<and> BasicCode r = 0 then
        (case map_of defaultTexts (EnhancedStatusCode (Class r) (EnhancedCode r)) of
           Some t \<Rightarrow> t
         | None \<Rightarrow>
             (if Class r = 2 then ''OK''
              else if Class r = 4 then ''Temporary failure.''
              else if Class r = 5 then ''Permanent failure.''
              else []))
      else Comment r)"

definition resp_String :: "response \<Rightarrow> bytes \<times> response" where
  "resp_String r =
     (if cached r \<noteq> [] then (cached r, r)
      else if EnhancedCode r = [] then (Comment r, r\<lparr>cached := Comment r\<rparr>)
      else
        (let e = EnhancedStatusCode (Class r) (EnhancedCode r);
             basicCode = (if BasicCode r = 0 then getBasicStatusCode e else BasicCode r);
             out = show_int basicCode @ '' '' @ esc_String e @ '' '' @ resp_comment r
         in (out, r\<lparr>cached := out\<rparr>)))"

definition resp_str :: "response \<Rightarrow> bytes" where
  "resp_str r = fst (resp_String r)"

subsection \<open>The canned replies\<close>

definition FailLineTooLong :: response where
  "FailLineTooLong = \<lparr>EnhancedCode = InvalidCommand, BasicCode = 554, Class = ClassPermanentFailure,
     Comment = ''Line too long.'', cached = []\<rparr>"

definition FailNestedMailCmd :: response where
  "FailNestedMailCmd = \<lparr>EnhancedCode = InvalidCommand, BasicCode = 503, Class = ClassPermanentFailure,
     Comment = ''Error: nested MAIL command'', cached = []\<rparr>"

definition SuccessMailCmd :: response where
  "SuccessMailCmd = \<lparr>EnhancedCode = OtherAddressStatus, BasicCode = 0, Class = ClassSuccess,
     Comment = [], cached = []\<rparr>"

definition SuccessRcptCmd :: response where
  "SuccessRcptCmd = \<lparr>EnhancedCode = DestinationMailboxAddressValid, BasicCode = 0, Class = ClassSuccess,
     Comment = [], cached = []\<rparr>"

definition SuccessResetCmd :: response where
  "SuccessResetCmd = SuccessMailCmd"

definition SuccessNoopCmd :: response where
  "SuccessNoopCmd = \<lparr>EnhancedCode = OtherStatus, BasicCode = 0, Class = ClassSuccess,
     Comment = [], cached = []\<rparr>"

definition SuccessVerifyCmd :: response where
  "SuccessVerifyCmd = \<lparr>EnhancedCode = OtherOrUndefinedProtocolStatus, BasicCode = 252, Class = ClassSuccess,
     Comment = ''Cannot verify user'', cached = []\<rparr>"

definition ErrorTooManyRecipients :: response where
  "ErrorTooManyRecipients = \<lparr>EnhancedCode = TooManyRecipients, BasicCode = 452, Class = ClassTransientFailure,
     Comment = ''Too many recipients'', cached = []\<rparr>"

definition ErrorRelayDenied :: response where
  "ErrorRelayDenied = \<lparr>EnhancedCode = BadDestinationMailboxAddress, BasicCode = 454, Class = ClassTransientFailure,
     Comment = ''Error: Relay access denied:'', cached = []\<rparr>"

definition SuccessQuitCmd :: response where
  "SuccessQuitCmd = \<lparr>EnhancedCode = OtherStatus, BasicCode = 221, Class = ClassSuccess,
     Comment = ''Bye'', cached = []\<rparr>"

definition FailNoSenderDataCmd :: response where
  "FailNoSenderDataCmd = \<lparr>EnhancedCode = InvalidCommand, BasicCode = 503, Class = ClassPermanentFailure,
     Comment = ''Error: No sender'', cached = []\<rparr>"

definition FailNoRecipientsDataCmd :: response where
  "FailNoRecipientsDataCmd = \<lparr>EnhancedCode = InvalidCommand, BasicCode = 503, Class = ClassPermanentFailure,
     Comment = ''Error: No recipients'', cached = []\<rparr>"

definition SuccessDataCmd :: response where
  "SuccessDataCmd = \<lparr>EnhancedCode = [], BasicCode = 354, Class = 0,
     Comment = ''354 Enter message, ending with '.' on a line by itself'', cached = []\<rparr>"

definition SuccessStartTLSCmd :: response where
  "SuccessStartTLSCmd = \<lparr>EnhancedCode = OtherStatus, BasicCode = 220, Class = ClassSuccess,
     Comment = ''Ready to start TLS'', cached = []\<rparr>"

definition FailUnrecognizedCmd :: response where
  "FailUnrecognizedCmd = \<lparr>EnhancedCode = InvalidCommand, BasicCode = 554, Class = ClassPermanentFailure,
     Comment = ''Unrecognized command'', cached = []\<rparr>"

definition FailMaxUnrecognizedCmd :: response where
  "FailMaxUnrecognizedCmd = \<lparr>EnhancedCode = InvalidCommand, BasicCode = 554, Class = ClassPermanentFailure,
     Comment = ''Too many unrecognized commands'', cached = []\<rparr>"

definition ErrorShutdown :: response where
  "ErrorShutdown = \<lparr>EnhancedCode = OtherOrUndefinedMailSystemStatus, BasicCode = 421, Class = ClassTransientFailure,
     Comment = ''Server is shutting down. Please try again later. Sayonara!'', cached = []\<rparr>"

definition FailSyntaxError :: response where
  "FailSyntaxError = \<lparr>EnhancedCode = SyntaxError, BasicCode = 550, Class = ClassPermanentFailure,
     Comment = ''Syntax error'', cached = []\<rparr>"

definition FailReadLimitExceededDataCmd :: response where
  "FailReadLimitExceededDataCmd = \<lparr>EnhancedCode = MessageLengthExceedsAdministrativeLimit, BasicCode = 550, Class = ClassPermanentFailure,
     Comment = ''Error:'', cached = []\<rparr>"

definition FailMessageSizeExceeded :: response where
  "FailMessageSizeExceeded = \<lparr>EnhancedCode = OtherOrUndefinedNetworkOrRoutingStatus, BasicCode = 552, Class = ClassPermanentFailure,
     Comment = ''Error:'', cached = []\<rparr>"

definition FailReadErrorDataCmd :: response where
  "FailReadErrorDataCmd = \<lparr>EnhancedCode = OtherOrUndefinedMailSystemStatus, BasicCode = 451, Class = ClassTransientFailure,
     Comment = ''Error:'', cached = []\<rparr>"

definition FailPathTooLong :: response where
  "FailPathTooLong = \<lparr>EnhancedCode = InvalidCommandArguments, BasicCode = 550, Class = ClassPermanentFailure,
     Comment = ''Path too long'', cached = []\<rparr>"

definition FailInvalidAddress :: response where
  "FailInvalidAddress = \<lparr>EnhancedCode = InvalidCommandArguments, BasicCode = 501, Class = ClassPermanentFailure,
     Comment = ''Invalid address'', cached = []\<rparr>"

definition FailLocalPartTooLong :: response where
  "FailLocalPartTooLong = \<lparr>EnhancedCode = InvalidCommandArguments, BasicCode = 550, Class = ClassPermanentFailure,
     Comment = ''Local part too long, cannot exceed 64 characters'', cached = []\<rparr>"

definition FailDomainTooLong :: response where
  "FailDomainTooLong = \<lparr>EnhancedCode = InvalidCommandArguments, BasicCode = 550, Class = ClassPermanentFailure,
     Comment = ''Domain cannot exceed 255 characters'', cached = []\<rparr>"

definition FailBackendNotRunning :: response where
  "FailBackendNotRunning = \<lparr>EnhancedCode = OtherOrUndefinedProtocolStatus, BasicCode = 554, Class = ClassPermanentFailure,
     Comment = ''Transaction failed - backend not running'', cached = []\<rparr>"

definition FailBackendTransaction :: response where
  "FailBackendTransaction = \<lparr>EnhancedCode = OtherOrUndefinedProtocolStatus, BasicCode = 554, Class = ClassPermanentFailure,
     Comment = ''Error:'', cached = []\<rparr>"

definition SuccessMessageQueued :: response where
  "SuccessMessageQueued = \<lparr>EnhancedCode = OtherStatus, BasicCode = 250, Class = ClassSuccess,
     Comment = ''OK: queued as'', cached = []\<rparr>"

definition FailBackendTimeout :: response where
  "FailBackendTimeout = \<lparr>EnhancedCode = OtherOrUndefinedProtocolStatus, BasicCode = 554, Class = ClassPermanentFailure,
     Comment = ''Error: transaction timeout'', cached = []\<rparr>"

definition FailRcptCmd :: response where
  "FailRcptCmd = \<lparr>EnhancedCode = BadDestinationMailboxAddress, BasicCode = 550, Class = ClassPermanentFailure,
     Comment = ''User unknown in local recipient table'', cached = []\<rparr>"

definition Canned :: "response list" where
  "Canned = [FailLineTooLong, FailNestedMailCmd, SuccessMailCmd, SuccessRcptCmd, SuccessResetCmd, SuccessNoopCmd, SuccessVerifyCmd, ErrorTooManyRecipients, ErrorRelayDenied, SuccessQuitCmd, FailNoSenderDataCmd, FailNoRecipientsDataCmd, SuccessDataCmd, SuccessStartTLSCmd, FailUnrecognizedCmd, FailMaxUnrecognizedCmd, ErrorShutdown, FailSyntaxError, FailReadLimitExceededDataCmd, FailMessageSizeExceeded, FailReadErrorDataCmd, FailPathTooLong, FailInvalidAddress, FailLocalPartTooLong, FailDomainTooLong, FailBackendNotRunning, FailBackendTransaction, SuccessMessageQueued, FailBackendTimeout, FailRcptCmd]"

lemmas canned_defs =
  FailLineTooLong_def FailNestedMailCmd_def SuccessMailCmd_def SuccessRcptCmd_def SuccessResetCmd_def SuccessNoopCmd_def SuccessVerifyCmd_def ErrorTooManyRecipients_def ErrorRelayDenied_def SuccessQuitCmd_def FailNoSenderDataCmd_def FailNoRecipientsDataCmd_def SuccessDataCmd_def SuccessStartTLSCmd_def FailUnrecognizedCmd_def FailMaxUnrecognizedCmd_def ErrorShutdown_def FailSyntaxError_def FailReadLimitExceededDataCmd_def FailMessageSizeExceeded_def FailReadErrorDataCmd_def FailPathTooLong_def FailInvalidAddress_def FailLocalPartTooLong_def FailDomainTooLong_def FailBackendNotRunning_def FailBackendTransaction_def SuccessMessageQueued_def FailBackendTimeout_def FailRcptCmd_def

subsection \<open>Facts\<close>

lemma codeMap_class:
  "list_all (\<lambda>(e, v). 100 * esc_class e \<le> v \<and> v < 100 * esc_class e + 100) codeMap"
  by (simp add: codeMap_def)

lemma codeMap_lookup_class:
  "map_of codeMap e = Some v \<Longrightarrow> 100 * esc_class e \<le> v \<and> v < 100 * esc_class e + 100"
  using codeMap_class by (auto dest!: map_of_SomeD simp: list_all_iff)

lemma basic_code_in_class:
  "100 * c \<le> getBasicStatusCode (EnhancedStatusCode c d)
   \<and> getBasicStatusCode (EnhancedStatusCode c d) < 100 * c + 100"
proof (cases "map_of codeMap (EnhancedStatusCode c d)")
  case None
  then show ?thesis by (simp add: getBasicStatusCode_def)
next
  case (Some v)
  with codeMap_lookup_class [OF Some] show ?thesis by (simp add: getBasicStatusCode_def)
qed

lemma show_code_3: "100 \<le> n \<Longrightarrow> n < 1000 \<Longrightarrow> length (show_int n) = 3 \<and> atoi (show_int n) = Some n"
proof -
  assume n: "100 \<le> n" "n < 1000"
  then have "length (show_nat (nat n)) = 3" by (intro length_show_nat_3) auto
  moreover from n have "atoi (show_nat (nat n)) = Some (int (nat n))"
    by (intro atoi_show_nat) (auto simp: nat_less_iff)
  ultimately show ?thesis using n by (simp add: show_int_def)
qed

lemma resp_String_prefix:
  assumes "cached r = []" and "EnhancedCode r \<noteq> []"
  shows "\<exists>rest. resp_str r
     = show_int (if BasicCode r = 0
         then getBasicStatusCode (EnhancedStatusCode (Class r) (EnhancedCode r)) else BasicCode r)
       @ CHR '' '' # rest"
  using assms by (auto simp: resp_str_def resp_String_def Let_def)

definition reply_code :: "bytes \<Rightarrow> int option" where
  "reply_code s = atoi (take 3 s)"

text \<open>
  A reply that is printed for the first time with an enhanced code starts with a
  three-digit SMTP code and a space. The code is the reply's basic code when it has one; when
  it has none, the code comes from the IANA table or the fallback and belongs to the reply's own
  class, so a success never prints a 4xx or 5xx code.
\<close>

theorem reply_starts_with_code:
  assumes "cached r = []" and "EnhancedCode r \<noteq> []"
    and "BasicCode r = 0 \<and> Class r \<in> {2, 4, 5} \<or> 100 \<le> BasicCode r \<and> BasicCode r < 1000"
  shows "\<exists>code. reply_code (resp_str r) = Some code \<and> resp_str r ! 3 = CHR '' ''
    \<and> code = (if BasicCode r = 0
              then getBasicStatusCode (EnhancedStatusCode (Class r) (EnhancedCode r))
              else BasicCode r)
    \<and> (BasicCode r = 0 \<longrightarrow> code div 100 = Class r)"
proof -
  define n where "n = (if BasicCode r = 0
    then getBasicStatusCode (EnhancedStatusCode (Class r) (EnhancedCode r)) else BasicCode r)"
  have c: "100 * Class r \<le> n \<and> n < 100 * Class r + 100" if "BasicCode r = 0"
    using that basic_code_in_class [of "Class r" "EnhancedCode r"] by (auto simp: n_def)
  with assms(3) have n: "100 \<le> n \<and> n < 1000" by (auto simp: n_def)
  obtain rest where rest: "resp_str r = show_int n @ CHR '' '' # rest"
    using resp_String_prefix [OF assms(1,2)] unfolding n_def by blast
  from n have l: "length (show_int n) = 3" and a: "atoi (show_int n) = Some n"
    using show_code_3 by auto
  have "reply_code (resp_str r) = Some n" using rest l a by (simp add: reply_code_def)
  moreover have "resp_str r ! 3 = CHR '' ''" using rest l by (simp add: nth_append)
  moreover have "BasicCode r = 0 \<longrightarrow> n div 100 = Class r" using c by auto
  ultimately show ?thesis by (auto simp: n_def)
qed

theorem reply_starts_with_code_witness:
  "reply_code (resp_str SuccessMailCmd) = Some 250"
  using reply_starts_with_code [of SuccessMailCmd]
  by (simp add: SuccessMailCmd_def getBasicStatusCode_def codeMap_def)

text \<open>
  The canned replies agree with themselves. Each one prints a parseable three-digit code
  whose first digit is its class, except the DATA prompt, which has no enhanced code
  and prints an intermediate (3xx) code.
\<close>

theorem canned_codes:
  "list_all (\<lambda>r. case reply_code (resp_str r) of
       Some code \<Rightarrow> code div 100 = (if EnhancedCode r = [] then 3 else Class r)
     | None \<Rightarrow> False) Canned"
  by code_simp

text \<open>
  The cache of a reply is transparent. Printing a reply a second time gives the bytes of the
  first time and leaves the reply as the first print left it.
\<close>

theorem resp_String_cache:
  "resp_String (snd (resp_String r)) = (fst (resp_String r), snd (resp_String r))"
  by (auto simp: resp_String_def Let_def)

end
