(* ===== verification/Backend.thy ===== *)
theory Backend
  imports Auth Response
begin

section \<open>Backend results, processors and services (backends/backend.go, processor.go, decorate.go, validate.go)\<close>

text \<open>
  A \<open>Result\<close> is the text of its buffer. A processor is a function on the envelope, the task and
  the state of the outside world ('b) that returns a result (\<open>None\<close> for a nil result), an
  error text, the envelope and the new outside state, or panics. A decorator maps a processor to a
  processor. The service keeps the initializers and shutdowners that are still to be called; each
  is a function of the outside state that returns its error, if any.
\<close>

subsection \<open>Results\<close>

definition result_Code :: "bytes \<Rightarrow> int" where
  "result_Code r =
     (let trimmed = trim_space r
      in if length trimmed < 3 then 554
         else (case atoi (take 3 trimmed) of None \<Rightarrow> 554 | Some code \<Rightarrow> code))"

definition NewResult :: "bytes list \<Rightarrow> bytes" where
  "NewResult items = concat items"

subsection \<open>Recipient errors\<close>

abbreviation NoSuchUser :: bytes where "NoSuchUser \<equiv> ''no such user''"

abbreviation StorageNotAvailable :: bytes where "StorageNotAvailable \<equiv> ''storage not available''"

abbreviation StorageTooBusy :: bytes where "StorageTooBusy \<equiv> ''storage too busy''"

abbreviation StorageTimeout :: bytes where "StorageTimeout \<equiv> ''storage timeout''"

abbreviation QuotaExceeded :: bytes where "QuotaExceeded \<equiv> ''quota exceeded''"

abbreviation UserSuspended :: bytes where "UserSuspended \<equiv> ''user suspended''"

abbreviation StorageError :: bytes where "StorageError \<equiv> ''storage error''"

subsection \<open>Processors\<close>

datatype selectTask = TaskSaveMail | TaskValidateRcpt

fun task_String :: "selectTask \<Rightarrow> bytes" where
  "task_String TaskSaveMail = ''save mail''"
| "task_String TaskValidateRcpt = ''validate recipient''"

definition BackendResultOK :: bytes where
  "BackendResultOK = NewResult [''200 OK'']"

text \<open>
  A result is a pointer: the dispatcher compares it with the one object \<open>BackendResultOK\<close>.
  \<open>ResOK\<close> is that object, \<open>Res t\<close> any other with text \<open>t\<close>.
\<close>

datatype result = ResOK | Res bytes

fun result_String :: "result \<Rightarrow> bytes" where
  "result_String ResOK = BackendResultOK"
| "result_String (Res t) = t"

type_synonym 'b processor =
  "envelope \<Rightarrow> selectTask \<Rightarrow> 'b \<Rightarrow> ((result option \<times> bytes option) \<times> envelope \<times> 'b) outcome"

type_synonym 'b decorator = "'b processor \<Rightarrow> 'b processor"

definition DefaultProcessor :: "'b processor" where
  "DefaultProcessor e task b = Ret ((Some ResOK, None), e, b)"

definition Decorate :: "'b processor \<Rightarrow> 'b decorator list \<Rightarrow> 'b processor" where
  "Decorate c ds = foldl (\<lambda>decorated decorate. decorate decorated) c ds"

subsection \<open>The service\<close>

text \<open>
  \<open>BackendConfig\<close> maps names to decoded JSON values; a number is a float64, so the conversion
  truncates it towards zero: \<open>JNum n\<close> holds the truncated value, and \<open>JInt\<close> is a Go int set by a
  program.
\<close>

datatype jvalue = JNum int | JInt int | JStr bytes | JBool bool | JNull | JOther

type_synonym backendConfig = "(bytes \<times> jvalue) list"

type_synonym 'b hook = "'b \<Rightarrow> bytes option \<times> 'b"

record 'b service =
  initializers :: "(backendConfig \<Rightarrow> 'b hook) list"
  shutdowners :: "'b hook list"

definition AddInitializer :: "'b service \<Rightarrow> (backendConfig \<Rightarrow> 'b hook) \<Rightarrow> 'b service" where
  "AddInitializer s i = s\<lparr>initializers := initializers s @ [i]\<rparr>"

definition AddShutdowner :: "'b service \<Rightarrow> 'b hook \<Rightarrow> 'b service" where
  "AddShutdowner s sh = s\<lparr>shutdowners := shutdowners s @ [sh]\<rparr>"

definition svc_reset :: "'b service \<Rightarrow> 'b service" where
  "svc_reset s = s\<lparr>shutdowners := [], initializers := []\<rparr>"

text \<open>
  The loop of \<open>initialize\<close> and \<open>shutdown\<close>: the errors and the hooks that failed, where \<open>call\<close> is
  how a hook is called.
\<close>

fun run_hooks :: "('h \<Rightarrow> 'b hook) \<Rightarrow> 'h list \<Rightarrow> 'b \<Rightarrow> bytes list \<times> 'h list \<times> 'b" where
  "run_hooks call [] b = ([], [], b)"
| "run_hooks call (h # hs) b =
     (case call h b of
        (None, b) \<Rightarrow> run_hooks call hs b
      | (Some err, b) \<Rightarrow>
          (case run_hooks call hs b of (errs, failed, b) \<Rightarrow> (err # errs, h # failed, b)))"

definition svc_initialize :: "'b service \<Rightarrow> backendConfig \<Rightarrow> 'b \<Rightarrow> bytes list \<times> 'b service \<times> 'b" where
  "svc_initialize s backend b =
     (case run_hooks (\<lambda>i. i backend) (initializers s) b of
        (errors, failed, b) \<Rightarrow> (errors, s\<lparr>initializers := failed\<rparr>, b))"

definition svc_shutdown :: "'b service \<Rightarrow> 'b \<Rightarrow> bytes list \<times> 'b service \<times> 'b" where
  "svc_shutdown s b =
     (case run_hooks (\<lambda>sh. sh) (shutdowners s) b of
        (errors, failed, b) \<Rightarrow> (errors, s\<lparr>shutdowners := failed\<rparr>, b))"

fun errors_Error :: "bytes list \<Rightarrow> bytes" where
  "errors_Error [e] = e"
| "errors_Error es = concat (map (\<lambda>e. [CHR 0x0A] @ e) es)"

text \<open>The registry of processor constructors, by lower-case name.\<close>

definition AddProcessor :: "(bytes \<times> 'p) list \<Rightarrow> bytes \<Rightarrow> 'p \<Rightarrow> (bytes \<times> 'p) list" where
  "AddProcessor ps name p = AList.update (to_lower name) p ps"

subsection \<open>Configuration values\<close>

text \<open>
  A field of a config struct is described by its name, type and \<open>omitempty\<close> flag;
  a field of any other type is skipped, and \<open>ExtractConfig\<close> returns the fields that were set.
\<close>

datatype ftype = FInt | FString | FBool | FOther

record field =
  f_json :: bytes
  f_name :: bytes
  f_type :: ftype

definition field_key :: "field \<Rightarrow> bytes \<times> bool" where
  "field_key f =
     (if f_json f \<noteq> [] then
        (let split = split_on (CHR '','') (f_json f)
         in (hd split, length split > 1 \<and> split ! 1 = ''omitempty''))
      else (f_name f, False))"

definition convertError :: "bytes \<Rightarrow> bytes" where
  "convertError name = ''failed to load backend config ('' @ name @ '')''"

fun ftype_Name :: "ftype \<Rightarrow> bytes" where
  "ftype_Name FInt = ''int''"
| "ftype_Name FString = ''string''"
| "ftype_Name FBool = ''bool''"
| "ftype_Name FOther = []"

fun field_value :: "ftype \<Rightarrow> jvalue option \<Rightarrow> jvalue option" where
  "field_value FInt (Some (JNum n)) = Some (JInt n)"
| "field_value FInt (Some (JInt n)) = Some (JInt n)"
| "field_value FString (Some (JStr s)) = Some (JStr s)"
| "field_value FBool (Some (JBool b)) = Some (JBool b)"
| "field_value t v = None"

fun ExtractConfig :: "backendConfig \<Rightarrow> field list \<Rightarrow> bytes + (bytes \<times> jvalue) list" where
  "ExtractConfig configData [] = Inr []"
| "ExtractConfig configData (f # fs) =
     (let (fieldName, omitempty) = field_key f
      in if f_type f = FOther then ExtractConfig configData fs
         else case field_value (f_type f) (map_of configData fieldName) of
           Some v \<Rightarrow> map_sum id (\<lambda>vs. (f_name f, v) # vs) (ExtractConfig configData fs)
         | None \<Rightarrow>
             if \<not> omitempty
             then Inl (convertError ((if f_type f = FInt then ''property missing/invalid: '' else ''missing/invalid: '')
                    @ [CHR 0x27] @ fieldName @ [CHR 0x27]
                    @ (if f_type f = FInt then '' of expected type: '' else '' of type: '') @ ftype_Name (f_type f)))
             else ExtractConfig configData fs)"

subsection \<open>Lemmas\<close>

lemma run_hooks_kept:
  "run_hooks call hs b = (errs, failed, b') \<Longrightarrow> length errs = length failed \<and> set failed \<subseteq> set hs"
proof (induction hs arbitrary: b errs failed b')
  case (Cons h hs)
  obtain r b1 where h: "call h b = (r, b1)" by fastforce
  obtain e f b2 where rest: "run_hooks call hs b1 = (e, f, b2)" using prod_cases3 by blast
  from Cons.prems h rest Cons.IH [OF rest] show ?case by (cases r) auto
qed auto

lemma Decorate_fold: "Decorate c (rev ds) = foldr (\<lambda>d p. d p) ds c"
  unfolding Decorate_def by (simp add: foldr_conv_foldl)

lemma field_value_kind:
  "field_value t v = Some x \<Longrightarrow> (t = FInt \<longrightarrow> (\<exists>n. x = JInt n)) \<and> (t = FString \<longrightarrow> (\<exists>s. x = JStr s))
     \<and> (t = FBool \<longrightarrow> (\<exists>b. x = JBool b))"
  by (induction t v rule: field_value.induct) auto

end
