(* ===== verification/Mime_Header.thy ===== *)
theory Mime_Header
  imports Envelope
begin

section \<open>Encoded words in headers (mail/envelope.go: MimeHeaderDecode, ParseHeaders)\<close>

text \<open>
  The state machine that finds the encoded words of a header value and replaces them. The
  decoder \<open>Dec.Decode\<close> of one word is the argument \<open>dec\<close>, \<open>None\<close> for its error; the output buffer is
  \<open>None\<close> while it is nil. The variables of the loop are a record, the slices are checked, and the
  index is an argument of the loop, as the code moves it over white space between words.
\<close>

datatype mimeState = statePlainText | stateStartEncodedWord | stateEncodedWord | stateEncoding | stateCharset
  | statePayload | statePayloadEnd

record mime =
  mstate :: mimeState
  mout :: "bytes option"
  wordStart :: int
  wordLen :: int
  ptextStart :: int
  ptextLen :: int

definition makeAppend :: "bytes option \<Rightarrow> bytes \<Rightarrow> bytes option" where
  "makeAppend out inp = (case out of None \<Rightarrow> Some inp | Some o' \<Rightarrow> Some (o' @ inp))"

definition decodeWordAppend :: "(bytes \<Rightarrow> bytes option) \<Rightarrow> int \<Rightarrow> bytes option \<Rightarrow> bytes \<Rightarrow> int \<Rightarrow> int \<Rightarrow> int \<Rightarrow>
    (bytes option \<times> bool) outcome" where
  "decodeWordAppend dec ptxtLen out str ptxtStart wStart wLen =
     bind_outcome (if ptxtLen > 0
                   then bind_outcome (slice str ptxtStart (ptxtStart + ptxtLen)) (\<lambda>t. Ret (makeAppend out t))
                   else Ret out) (\<lambda>out.
     bind_outcome (slice str wStart (wLen + wStart)) (\<lambda>word.
       case dec word of
         Some d \<Rightarrow> Ret (makeAppend out d, True)
       | None \<Rightarrow> Ret (if out \<noteq> None then makeAppend out word else out, False)))"

function hasEncodedWordAhead :: "bytes \<Rightarrow> nat \<Rightarrow> nat option" where
  "hasEncodedWordAhead str i =
     (if i + 2 < length str then
        (if str ! i \<noteq> CHR '' '' \<and> str ! i \<noteq> CHR 0x09 then None
         else if str ! (i + 1) = CHR ''='' \<and> str ! (i + 2) = CHR ''?'' then Some i
         else hasEncodedWordAhead str (i + 1))
      else None)"
  by pat_completeness auto
termination hasEncodedWordAhead
  by (relation "measure (\<lambda>(str, i). length str - i)") auto

declare hasEncodedWordAhead.simps [simp del]

definition charset_char :: "char \<Rightarrow> bool" where
  "charset_char c \<longleftrightarrow> CHR ''a'' \<le> c \<and> c \<le> CHR ''z'' \<or> CHR ''A'' \<le> c \<and> c \<le> CHR ''Z'' \<or> CHR ''0'' \<le> c \<and> c \<le> CHR ''9''
     \<or> c = CHR ''-''"

definition encoding_char :: "char \<Rightarrow> bool" where
  "encoding_char c \<longleftrightarrow> c = CHR ''Q'' \<or> c = CHR ''q'' \<or> c = CHR ''b'' \<or> c = CHR ''B''"

text \<open>The end of a word: the byte \<open>=\<close> after the payload.\<close>

definition word_end :: "(bytes \<Rightarrow> bytes option) \<Rightarrow> bytes \<Rightarrow> nat \<Rightarrow> mime \<Rightarrow> (nat \<times> mime) outcome" where
  "word_end dec str i m =
     (let m = m\<lparr>wordLen := wordLen m + 1\<rparr>
      in bind_outcome (decodeWordAppend dec (ptextLen m) (mout m) str (ptextStart m) (wordStart m) (wordLen m)) (\<lambda>(out, ok).
           if \<not> ok \<and> out = None
           then Ret (i, m\<lparr>mout := out, ptextLen := ptextLen m + wordLen m, wordLen := 0, wordStart := 0, mstate := statePlainText\<rparr>)
           else (let (i, out) = (case hasEncodedWordAhead str (i + 1) of
                                   Some skip \<Rightarrow> (skip, out)
                                 | None \<Rightarrow> (i, makeAppend out []))
                 in Ret (i, m\<lparr>mout := out, ptextStart := -1, ptextLen := 0, wordLen := 0, wordStart := 0,
                           mstate := statePlainText\<rparr>))))"

definition mime_abort :: "mime \<Rightarrow> mime" where
  "mime_abort m = m\<lparr>mstate := statePlainText, ptextLen := ptextLen m + wordLen m, wordLen := 0\<rparr>"

text \<open>One turn of the loop: the index before the increment, and the variables.\<close>

definition mime_step :: "(bytes \<Rightarrow> bytes option) \<Rightarrow> bytes \<Rightarrow> nat \<Rightarrow> mime \<Rightarrow> (nat \<times> mime) outcome" where
  "mime_step dec str i m =
     (let c = str ! i in
      case mstate m of
        statePlainText \<Rightarrow>
          (let m = (if ptextStart m = -1 then m\<lparr>ptextStart := int i\<rparr> else m)
           in Ret (i, if c = CHR ''='' then m\<lparr>mstate := stateStartEncodedWord, wordStart := int i, wordLen := 1\<rparr>
                      else m\<lparr>ptextLen := ptextLen m + 1\<rparr>))
      | stateStartEncodedWord \<Rightarrow>
          Ret (i, if c = CHR ''?'' then m\<lparr>wordLen := wordLen m + 1, mstate := stateCharset\<rparr>
                  else m\<lparr>wordLen := 0, mstate := statePlainText, ptextLen := ptextLen m + 1\<rparr>)
      | stateCharset \<Rightarrow>
          Ret (i, if c = CHR ''?'' then m\<lparr>wordLen := wordLen m + 1, mstate := stateEncoding\<rparr>
                  else if charset_char c then m\<lparr>wordLen := wordLen m + 1\<rparr> else mime_abort m)
      | stateEncoding \<Rightarrow>
          Ret (i, if c = CHR ''?'' then m\<lparr>wordLen := wordLen m + 1, mstate := statePayload\<rparr>
                  else if encoding_char c then m\<lparr>wordLen := wordLen m + 1\<rparr> else mime_abort m)
      | statePayload \<Rightarrow>
          Ret (i, if c = CHR ''?'' then m\<lparr>wordLen := wordLen m + 1, mstate := statePayloadEnd\<rparr>
                  else m\<lparr>wordLen := wordLen m + 1\<rparr>)
      | statePayloadEnd \<Rightarrow>
          if c = CHR ''='' then word_end dec str i m else Ret (i, mime_abort m)
      | stateEncodedWord \<Rightarrow> Ret (i, m))"

lemma hasEncodedWordAhead_ge: "hasEncodedWordAhead str i = Some k \<Longrightarrow> i \<le> k \<and> k + 2 < length str"
  by (induction str i rule: hasEncodedWordAhead.induct)
    (auto simp: hasEncodedWordAhead.simps split: if_splits)

lemma word_end_ge: "word_end dec str i m = Ret (j, m') \<Longrightarrow> i \<le> j"
  by (auto simp: word_end_def Let_def bind_outcome_Ret_iff split: if_splits option.splits prod.splits
      dest: hasEncodedWordAhead_ge)

lemma word_end_less: "word_end dec str i m = Ret (j, m') \<Longrightarrow> i < length str \<Longrightarrow> j < length str"
  by (auto simp: word_end_def Let_def bind_outcome_Ret_iff split: if_splits option.splits prod.splits
      dest: hasEncodedWordAhead_ge)

lemma mime_step_ge: "mime_step dec str i m = Ret (j, m') \<Longrightarrow> i \<le> j"
  by (auto simp: mime_step_def Let_def split: mimeState.splits if_splits dest: word_end_ge)

lemma mime_step_less: "mime_step dec str i m = Ret (j, m') \<Longrightarrow> i < length str \<Longrightarrow> j < length str"
  by (auto simp: mime_step_def Let_def split: mimeState.splits if_splits dest: word_end_less)

function mime_loop :: "(bytes \<Rightarrow> bytes option) \<Rightarrow> bytes \<Rightarrow> nat \<Rightarrow> mime \<Rightarrow> mime outcome" where
  "mime_loop dec str i m =
     (if i < length str then
        (case mime_step dec str i m of Ret (j, m') \<Rightarrow> mime_loop dec str (j + 1) m' | Panic t \<Rightarrow> Panic t)
      else Ret m)"
  by pat_completeness auto
termination mime_loop
  by (relation "measure (\<lambda>(dec, str, i, m). length str - i)") (auto dest!: mime_step_ge)

declare mime_loop.simps [simp del]

definition mime_start :: mime where
  "mime_start = \<lparr>mstate = statePlainText, mout = None, wordStart = 0, wordLen = 0, ptextStart = -1, ptextLen = 0\<rparr>"

definition MimeHeaderDecode :: "(bytes \<Rightarrow> bytes option) \<Rightarrow> bytes \<Rightarrow> bytes outcome" where
  "MimeHeaderDecode dec str =
     bind_outcome (mime_loop dec str 0 mime_start) (\<lambda>m.
     bind_outcome (if mout m \<noteq> None \<and> ptextLen m > 0
                   then bind_outcome (slice str (ptextStart m) (ptextStart m + ptextLen m)) (\<lambda>t. Ret (makeAppend (mout m) t))
                   else Ret (mout m)) (\<lambda>out.
       Ret (case out of None \<Rightarrow> str | Some r \<Rightarrow> r)))"

text \<open>
  \<open>ParseHeaders\<close>: the header of the message is read by \<open>ReadMIMEHeader\<close>, the argument \<open>read\<close>, which
  gives a header and possibly an error.
\<close>

datatype herr = HEOF | HErr bytes

abbreviation maxHeaderChunk :: nat where "maxHeaderChunk \<equiv> 1 + 4 * 1024"

definition ParseHeaders :: "(bytes \<Rightarrow> bytes option) \<Rightarrow> (bytes \<Rightarrow> mime_header \<times> herr option) \<Rightarrow> envelope \<Rightarrow>
    (herr option \<times> envelope) outcome" where
  "ParseHeaders dec read e =
     (if eHeader e \<noteq> None then Ret (Some (HErr ''headers already parsed''), e)
      else (let buf = (if length (eData e) > maxHeaderChunk then take maxHeaderChunk (eData e) else eData e);
                crlf = index_of [CHR 0x0D, CHR 0x0A, CHR 0x0D, CHR 0x0A] buf;
                (headerEnd, headerDelimLen) =
                  (if crlf = None then (index_of [CHR 0x0A, CHR 0x0A] buf, 2) else (crlf, 4 :: nat))
            in case headerEnd of
                 None \<Rightarrow> Ret (Some (HErr ''header not found''), e)
               | Some n \<Rightarrow>
                   (let (hdr, err) = read (take (n + headerDelimLen) buf);
                        e = e\<lparr>eHeader := Some hdr\<rparr>
                    in if err = None \<or> err = Some HEOF
                       then (case map_of hdr ''Subject'' of
                               None \<Rightarrow> Ret (err, e)
                             | Some [] \<Rightarrow> Panic ''index out of range''
                             | Some (subject # _) \<Rightarrow>
                                 bind_outcome (MimeHeaderDecode dec subject) (\<lambda>t. Ret (err, e\<lparr>eSubject := t\<rparr>)))
                       else Ret (err, e))))"

subsection \<open>No slice is out of range\<close>

definition mime_ok :: "bytes \<Rightarrow> nat \<Rightarrow> mime \<Rightarrow> bool" where
  "mime_ok str i m \<longleftrightarrow> 0 \<le> ptextLen m \<and> -1 \<le> ptextStart m \<and> (ptextStart m = -1 \<longrightarrow> ptextLen m = 0)
     \<and> ptextStart m + ptextLen m \<le> int i \<and> mstate m \<noteq> stateEncodedWord
     \<and> (mstate m \<noteq> statePlainText \<longrightarrow> 0 \<le> ptextStart m \<and> ptextStart m + ptextLen m \<le> wordStart m \<and> 1 \<le> wordLen m
          \<and> wordStart m + wordLen m = int i)"

lemma decodeWordAppend_Ret:
  assumes "mime_ok str i m" and "mstate m = statePayloadEnd" and "i < length str"
  shows "\<exists>out ok. decodeWordAppend dec (ptextLen m) (mout m) str (ptextStart m) (wordStart m) (wordLen m + 1) = Ret (out, ok)
    \<and> (ok \<longrightarrow> out \<noteq> None) \<and> ((\<forall>w. dec w = None) \<longrightarrow> \<not> ok)"
proof -
  have b: "0 \<le> ptextStart m" "0 \<le> ptextLen m" "ptextStart m + ptextLen m \<le> wordStart m" "1 \<le> wordLen m"
    "wordStart m + wordLen m = int i" using assms by (auto simp: mime_ok_def)
  have "slice str (ptextStart m) (ptextStart m + ptextLen m) \<noteq> Panic t" for t using b assms(3) by (simp add: slice_def)
  then obtain pt where "slice str (ptextStart m) (ptextStart m + ptextLen m) = Ret pt"
    by (cases "slice str (ptextStart m) (ptextStart m + ptextLen m)") auto
  moreover obtain w where "slice str (wordStart m) (wordLen m + 1 + wordStart m) = Ret w"
    using b assms(3) by (simp add: slice_def)
  ultimately show ?thesis by (auto simp: decodeWordAppend_def makeAppend_def split: option.split)
qed

lemma word_end_ok:
  assumes "mime_ok str i m" and "mstate m = statePayloadEnd" and "i < length str"
  shows "\<exists>j m'. word_end dec str i m = Ret (j, m') \<and> mime_ok str (j + 1) m' \<and> mstate m' = statePlainText"
proof -
  obtain out ok where d: "decodeWordAppend dec (ptextLen m) (mout m) str (ptextStart m) (wordStart m) (wordLen m + 1) = Ret (out, ok)"
    using decodeWordAppend_Ret [OF assms] by blast
  show ?thesis using assms d unfolding word_end_def Let_def
    by (auto simp: mime_ok_def split: option.split)
qed

lemma mime_step_ok:
  assumes "mime_ok str i m" and "i < length str"
  shows "\<exists>j m'. mime_step dec str i m = Ret (j, m') \<and> mime_ok str (j + 1) m'"
proof (cases "mstate m = statePayloadEnd \<and> str ! i = CHR ''=''")
  case True
  then show ?thesis using word_end_ok [OF assms(1) _ assms(2), of dec] by (auto simp: mime_step_def)
next
  case False
  then show ?thesis using assms
    by (cases "mstate m") (auto simp: mime_step_def Let_def mime_ok_def mime_abort_def)
qed

lemma mime_loop_ok:
  "mime_ok str i m \<Longrightarrow> i \<le> length str \<Longrightarrow> \<exists>m'. mime_loop dec str i m = Ret m' \<and> mime_ok str (length str) m'"
proof (induction dec str i m rule: mime_loop.induct)
  case (1 dec str i m)
  show ?case
  proof (cases "i < length str")
    case True
    obtain j m' where s: "mime_step dec str i m = Ret (j, m')" "mime_ok str (j + 1) m'"
      using mime_step_ok [OF "1.prems"(1) True] by blast
    have "\<exists>m''. mime_loop dec str (j + 1) m' = Ret m'' \<and> mime_ok str (length str) m''"
      using "1.IH" [OF True s(1) refl s(2)] mime_step_less [OF s(1) True] by simp
    with s True show ?thesis by (subst mime_loop.simps) simp
  next
    case False
    with "1.prems" show ?thesis by (subst mime_loop.simps) simp
  qed
qed

subsection \<open>Text without encoded words\<close>

definition plain_ok :: "bytes \<Rightarrow> nat \<Rightarrow> mime \<Rightarrow> bool" where
  "plain_ok str i m \<longleftrightarrow> mout m = None \<and> (mstate m = statePlainText
     \<or> mstate m = stateStartEncodedWord \<and> 0 < i \<and> str ! (i - 1) = CHR ''='')"

lemma sublist_two: "i + 1 < length str \<Longrightarrow> str ! i = a \<Longrightarrow> str ! (i + 1) = b \<Longrightarrow> sublist [a, b] str"
proof -
  assume h: "i + 1 < length str" "str ! i = a" "str ! (i + 1) = b"
  then have "drop i str = a # b # drop (i + 2) str"
    using Cons_nth_drop_Suc [of i str] Cons_nth_drop_Suc [of "i + 1" str] by simp
  then have "str = take i str @ [a, b] @ drop (i + 2) str" by (metis append_Cons append_Nil append_take_drop_id)
  then show ?thesis unfolding sublist_def by blast
qed

lemma mime_loop_plain:
  "plain_ok str i m \<Longrightarrow> \<not> sublist ''=?'' str \<Longrightarrow> mime_loop dec str i m = Ret m' \<Longrightarrow> mout m' = None"
proof (induction dec str i m rule: mime_loop.induct)
  case (1 dec str i m)
  show ?case
  proof (cases "i < length str")
    case True
    have nq: "mstate m = stateStartEncodedWord \<longrightarrow> str ! i \<noteq> CHR ''?''"
      using "1.prems"(1,2) True sublist_two [of "i - 1" str "CHR ''=''" "CHR ''?''"] by (auto simp: plain_ok_def)
    obtain j m1 where s: "mime_step dec str i m = Ret (j, m1)" "plain_ok str (j + 1) m1"
      using "1.prems"(1) nq by (cases "mstate m") (auto simp: plain_ok_def mime_step_def Let_def)
    from "1.IH" [OF True s(1) refl s(2) "1.prems"(2)] "1.prems"(3) s True show ?thesis
      by (subst (asm) mime_loop.simps) simp
  next
    case False
    with "1.prems" show ?thesis by (subst (asm) mime_loop.simps) (simp add: plain_ok_def)
  qed
qed

subsection \<open>Sequences of encoded words\<close>

text \<open>A run of bytes that the machine counts as part of the word.\<close>

lemma mime_scan:
  assumes "\<And>c i m. P c \<Longrightarrow> mstate m = st \<Longrightarrow> str ! i = c \<Longrightarrow> mime_step dec str i m = Ret (i, m\<lparr>wordLen := wordLen m + 1\<rparr>)"
    and "list_all P cs" and "drop i str = cs @ r" and "mstate m = st"
  shows "mime_loop dec str i m = mime_loop dec str (i + length cs) (m\<lparr>wordLen := wordLen m + int (length cs)\<rparr>)"
  using assms(2-)
proof (induction cs arbitrary: i m)
  case (Cons c cs)
  have i: "i < length str" "str ! i = c" "drop (i + 1) str = cs @ r"
    using Cons.prems(2) by (metis append_Cons drop_all list.distinct(1) not_less,
        metis append_Cons nth_via_drop, metis Suc_eq_plus1 append_Cons drop_Suc list.sel(3) tl_drop)
  have "mime_step dec str i m = Ret (i, m\<lparr>wordLen := wordLen m + 1\<rparr>)" using Cons.prems i by (intro assms(1)) auto
  then have "mime_loop dec str i m = mime_loop dec str (i + 1) (m\<lparr>wordLen := wordLen m + 1\<rparr>)"
    using i by (subst mime_loop.simps) simp
  also have "\<dots> = mime_loop dec str (i + 1 + length cs) (m\<lparr>wordLen := wordLen m + 1, wordLen := wordLen m + 1 + int (length cs)\<rparr>)"
    using Cons.IH [of "i + 1" "m\<lparr>wordLen := wordLen m + 1\<rparr>"] Cons.prems i by simp
  finally show ?case by (simp add: algebra_simps)
qed simp

definition encoded_word :: "bytes \<Rightarrow> bytes \<Rightarrow> bytes \<Rightarrow> bytes" where
  "encoded_word charset enc payload = ''=?'' @ charset @ ''?'' @ enc @ ''?'' @ payload @ ''?=''"

definition is_encoded_word :: "bytes \<Rightarrow> bool" where
  "is_encoded_word w \<longleftrightarrow> (\<exists>cs en p. w = encoded_word cs en p \<and> list_all charset_char cs \<and> list_all encoding_char en
     \<and> CHR ''?'' \<notin> set p)"

abbreviation plain_mime :: "bytes option \<Rightarrow> mime" where
  "plain_mime out \<equiv> \<lparr>mstate = statePlainText, mout = out, wordStart = 0, wordLen = 0, ptextStart = -1, ptextLen = 0\<rparr>"

abbreviation word_mime :: "nat \<Rightarrow> bytes option \<Rightarrow> mimeState \<Rightarrow> nat \<Rightarrow> mime" where
  "word_mime i out st n \<equiv> \<lparr>mstate = st, mout = out, wordStart = int i, wordLen = int n, ptextStart = int i, ptextLen = 0\<rparr>"

lemma drop_Cons: "drop i str = c # r \<Longrightarrow> i < length str \<and> str ! i = c \<and> drop (Suc i) str = r"
  by (metis Cons_nth_drop_Suc drop_all leI list.distinct(1) list.inject)

lemma mime_loop_next:
  "drop i str = c # r \<Longrightarrow> mime_step dec str i m = Ret (j, m') \<Longrightarrow> mime_loop dec str i m = mime_loop dec str (Suc j) m'"
  by (subst mime_loop.simps) (auto dest: drop_Cons)

lemma drop_append_length: "drop i str = xs @ r \<Longrightarrow> drop (i + length xs) str = r"
  by (metis add.commute append_eq_conv_conj drop_drop)

lemma mime_word_scan:
  assumes "list_all charset_char cs" and "list_all encoding_char en" and "CHR ''?'' \<notin> set p"
    and "drop i str = encoded_word cs en p @ r"
  shows "mime_loop dec str i (plain_mime out)
     = mime_loop dec str (i + length (encoded_word cs en p) - 1)
         (word_mime i out statePayloadEnd (length (encoded_word cs en p) - 1))"
proof -
  have 0: "drop i str = CHR ''='' # CHR ''?'' # cs @ CHR ''?'' # en @ CHR ''?'' # p @ CHR ''?'' # CHR ''='' # r"
    using assms(4) by (simp add: encoded_word_def)
  have 1: "drop (Suc i) str = CHR ''?'' # cs @ CHR ''?'' # en @ CHR ''?'' # p @ CHR ''?'' # CHR ''='' # r" using drop_Cons [OF 0] by simp
  have 2: "drop (Suc (Suc i)) str = cs @ CHR ''?'' # en @ CHR ''?'' # p @ CHR ''?'' # CHR ''='' # r" using drop_Cons [OF 1] by simp
  define a where "a = Suc (Suc i) + length cs"
  have 3: "drop a str = CHR ''?'' # en @ CHR ''?'' # p @ CHR ''?'' # CHR ''='' # r" using drop_append_length [OF 2] by (simp add: a_def)
  have 4: "drop (Suc a) str = en @ CHR ''?'' # p @ CHR ''?'' # CHR ''='' # r" using drop_Cons [OF 3] by simp
  define b where "b = Suc a + length en"
  have 5: "drop b str = CHR ''?'' # p @ CHR ''?'' # CHR ''='' # r" using drop_append_length [OF 4] by (simp add: b_def)
  have 6: "drop (Suc b) str = p @ CHR ''?'' # CHR ''='' # r" using drop_Cons [OF 5] by simp
  define e where "e = Suc b + length p"
  have 7: "drop e str = CHR ''?'' # CHR ''='' # r" using drop_append_length [OF 6] by (simp add: e_def)
  have cs: "mime_step dec str k m = Ret (k, m\<lparr>wordLen := wordLen m + 1\<rparr>)" if "charset_char c" "mstate m = stateCharset" "str ! k = c" for c k m
    using that by (auto simp: mime_step_def charset_char_def)
  have en: "mime_step dec str k m = Ret (k, m\<lparr>wordLen := wordLen m + 1\<rparr>)" if "encoding_char c" "mstate m = stateEncoding" "str ! k = c" for c k m
    using that by (auto simp: mime_step_def encoding_char_def)
  have pl: "mime_step dec str k m = Ret (k, m\<lparr>wordLen := wordLen m + 1\<rparr>)" if "c \<noteq> CHR ''?''" "mstate m = statePayload" "str ! k = c" for c k m
    using that by (auto simp: mime_step_def)
  have p': "list_all (\<lambda>c. c \<noteq> CHR ''?'') p" using assms(3) by (auto simp: list_all_iff)
  have "mime_loop dec str i (plain_mime out) = mime_loop dec str (Suc i) (word_mime i out stateStartEncodedWord 1)"
    using drop_Cons [OF 0] by (intro mime_loop_next [OF 0]) (simp add: mime_step_def)
  also have "\<dots> = mime_loop dec str (Suc (Suc i)) (word_mime i out stateCharset 2)"
    using drop_Cons [OF 1] by (intro mime_loop_next [OF 1]) (simp add: mime_step_def)
  also have "\<dots> = mime_loop dec str a (word_mime i out stateCharset (2 + length cs))"
    using mime_scan [of charset_char stateCharset, OF cs assms(1) 2] by (simp add: a_def)
  also have "\<dots> = mime_loop dec str (Suc a) (word_mime i out stateEncoding (3 + length cs))"
    using drop_Cons [OF 3] by (intro mime_loop_next [OF 3]) (simp add: mime_step_def)
  also have "\<dots> = mime_loop dec str b (word_mime i out stateEncoding (3 + length cs + length en))"
    using mime_scan [of encoding_char stateEncoding, OF en assms(2) 4] by (simp add: b_def)
  also have "\<dots> = mime_loop dec str (Suc b) (word_mime i out statePayload (4 + length cs + length en))"
    using drop_Cons [OF 5] by (intro mime_loop_next [OF 5]) (simp add: mime_step_def)
  also have "\<dots> = mime_loop dec str e (word_mime i out statePayload (4 + length cs + length en + length p))"
    using mime_scan [of "\<lambda>c. c \<noteq> CHR ''?''" statePayload, OF pl p' 6] by (simp add: e_def)
  also have "\<dots> = mime_loop dec str (Suc e) (word_mime i out statePayloadEnd (5 + length cs + length en + length p))"
    using drop_Cons [OF 7] by (intro mime_loop_next [OF 7]) (simp add: mime_step_def)
  finally show ?thesis by (simp add: encoded_word_def a_def b_def e_def add.assoc)
qed

lemma mime_word:
  assumes "is_encoded_word w" and "dec w = Some d" and "drop i str = w @ r"
    and "r = [] \<or> (\<exists>v r'. is_encoded_word v \<and> r = CHR '' '' # v @ r')"
  shows "mime_loop dec str i (plain_mime out)
     = mime_loop dec str (i + length w + (if r = [] then 0 else 1)) (plain_mime (makeAppend out d))"
proof -
  obtain cs en p where w: "w = encoded_word cs en p" "list_all charset_char cs" "list_all encoding_char en" "CHR ''?'' \<notin> set p"
    using assms(1) by (auto simp: is_encoded_word_def)
  define n where "n = length w - 1"
  have n: "length w = Suc n" "0 < n" using w(1) by (simp_all add: n_def encoded_word_def)
  have "w = butlast w @ [CHR ''='']" using w(1) by (simp add: encoded_word_def butlast_append)
  then have "drop i str = butlast w @ CHR ''='' # r" using assms(3) by simp
  then have 0: "drop (i + n) str = CHR ''='' # r" using drop_append_length [of i str "butlast w"] by (simp add: n_def)
  have sl: "slice str (int i) (int n + 1 + int i) = Ret w"
  proof -
    have "i + length w \<le> length str" using arg_cong [OF assms(3), of length] n by simp
    moreover have "take (length w) (drop i str) = w" using assms(3) by simp
    moreover have "nat (int n + 1) = Suc n" by simp
    ultimately show ?thesis using n by (simp add: slice_def)
  qed
  have ahead: "hasEncodedWordAhead str (i + n + 1) = (if r = [] then None else Some (i + n + 1))"
  proof (cases "r = []")
    case True
    then have "length (drop (i + n) str) = 1" using 0 by simp
    then have "length str = i + n + 1" unfolding length_drop by linarith
    then show ?thesis using True by (subst hasEncodedWordAhead.simps) simp
  next
    case False
    then obtain cs' en' p' r' where r: "r = CHR '' '' # encoded_word cs' en' p' @ r'"
      using assms(4) by (auto simp: is_encoded_word_def)
    have 1: "drop (Suc (i + n)) str = CHR '' '' # CHR ''='' # CHR ''?'' # tl (tl (encoded_word cs' en' p' @ r'))"
      using drop_Cons [OF 0] r by (simp add: encoded_word_def)
    have 2: "drop (Suc (Suc (i + n))) str = CHR ''='' # CHR ''?'' # tl (tl (encoded_word cs' en' p' @ r'))" using drop_Cons [OF 1] by simp
    have 3: "drop (Suc (Suc (Suc (i + n)))) str = CHR ''?'' # tl (tl (encoded_word cs' en' p' @ r'))" using drop_Cons [OF 2] by simp
    show ?thesis using drop_Cons [OF 1] drop_Cons [OF 2] drop_Cons [OF 3] False
      by (subst hasEncodedWordAhead.simps) simp
  qed
  have "mime_loop dec str i (plain_mime out) = mime_loop dec str (i + n) (word_mime i out statePayloadEnd n)"
    using mime_word_scan [OF w(2-4) assms(3) [unfolded w(1)]] w(1) n by simp
  also have "\<dots> = mime_loop dec str (i + length w + (if r = [] then 0 else 1)) (plain_mime (makeAppend out d))"
    using drop_Cons [OF 0] sl assms(2) ahead n
    by (subst mime_loop_next [OF 0, where j = "i + n + (if r = [] then 0 else 1)" and m' = "plain_mime (makeAppend out d)"])
      (auto simp: mime_step_def word_end_def decodeWordAppend_def Let_def makeAppend_def split: option.splits)
  finally show ?thesis .
qed

lemma mime_words:
  assumes "\<forall>w \<in> set ws. is_encoded_word w \<and> dec w = Some (d w)" and "drop i str = join '' '' ws" and "ws \<noteq> []"
  shows "mime_loop dec str i (plain_mime out) = Ret (plain_mime (Some ((case out of None \<Rightarrow> [] | Some x \<Rightarrow> x) @ concat (map d ws))))"
  using assms
proof (induction "'' ''" ws arbitrary: i out rule: join.induct)
  case (2 w)
  have "mime_loop dec str i (plain_mime out) = mime_loop dec str (i + length w) (plain_mime (makeAppend out (d w)))"
    using mime_word [of w dec "d w" i str "[]" out] 2 by simp
  moreover have "length str \<le> i + length w" using arg_cong [OF "2.prems"(2), of length] by simp
  ultimately show ?case by (subst (asm) (2) mime_loop.simps) (simp add: makeAppend_def split: option.split)
next
  case (3 w v zs)
  have dr: "drop i str = w @ CHR '' '' # join '' '' (v # zs)" using "3.prems"(2) by simp
  have "\<exists>r'. join '' '' (v # zs) = v @ r'" by (cases zs) auto
  then have "mime_loop dec str i (plain_mime out) = mime_loop dec str (i + length w + 1) (plain_mime (makeAppend out (d w)))"
    using mime_word [of w dec "d w" i str "CHR '' '' # join '' '' (v # zs)" out] "3.prems"(1) dr by fastforce
  moreover have "drop (i + length w + 1) str = join '' '' (v # zs)"
    using drop_append_length [OF dr] by (metis Suc_eq_plus1 drop_Cons)
  ultimately show ?case using "3.hyps" [of "i + length w + 1" "makeAppend out (d w)"] "3.prems"
    by (simp add: makeAppend_def split: option.splits)
qed simp

subsection \<open>Properties\<close>

text \<open>
  \<open>MimeHeaderDecode\<close> returns for every header value and every decoder, so no slice of its state
  machine is out of range, and a value without \<open>=?\<close> is returned as it is.
\<close>

theorem mime_decode_total:
  "\<exists>r. MimeHeaderDecode dec str = Ret r \<and> (\<not> contains str ''=?'' \<longrightarrow> r = str)"
proof -
  have "mime_ok str 0 mime_start" by (simp add: mime_ok_def mime_start_def)
  then obtain m where m: "mime_loop dec str 0 mime_start = Ret m" and ok: "mime_ok str (length str) m"
    using mime_loop_ok [of str 0 mime_start dec] by blast
  have "\<exists>t. slice str (ptextStart m) (ptextStart m + ptextLen m) = Ret t" if "ptextLen m > 0"
    using ok that by (auto simp: mime_ok_def slice_def)
  then obtain r where r: "MimeHeaderDecode dec str = Ret r"
    using m by (cases "ptextLen m > 0"; cases "mout m") (auto simp: MimeHeaderDecode_def)
  moreover have "r = str" if "\<not> contains str ''=?''"
  proof -
    have "plain_ok str 0 mime_start" by (simp add: plain_ok_def mime_start_def)
    with mime_loop_plain [OF _ _ m] that have "mout m = None" by (auto simp: contains_def index_of_None_iff)
    with r m show ?thesis by (simp add: MimeHeaderDecode_def)
  qed
  ultimately show ?thesis by blast
qed

theorem mime_decode_total_witness: "MimeHeaderDecode (\<lambda>_. None) ''a=b'' = Ret ''a=b''"
proof -
  have "\<not> contains ''a=b'' ''=?''" by code_simp
  with mime_decode_total [of "\<lambda>_. None" "''a=b''"] show ?thesis by auto
qed

text \<open>
  A header value that is a sequence of encoded words separated by single spaces decodes to the
  concatenation of the decoded words: the spaces between the words are dropped.
\<close>

theorem mime_decode_words:
  assumes "ws \<noteq> []" and "\<forall>w \<in> set ws. is_encoded_word w \<and> dec w = Some (d w)"
  shows "MimeHeaderDecode dec (join '' '' ws) = Ret (concat (map d ws))"
  using mime_words [OF assms(2) _ assms(1), of 0 "join '' '' ws" None]
  by (simp add: MimeHeaderDecode_def mime_start_def)

theorem mime_decode_words_witness:
  "MimeHeaderDecode (\<lambda>w. Some (drop 8 w)) (join '' '' [''=?utf8?Q?a?='', ''=?utf8?b?b?='']) = Ret ''?a?=?b?=''"
proof -
  have "''=?utf8?Q?a?='' = encoded_word ''utf8'' ''Q'' ''a''" "''=?utf8?b?b?='' = encoded_word ''utf8'' ''b'' ''b''"
    by (simp_all add: encoded_word_def)
  moreover have "list_all charset_char ''utf8''" "list_all encoding_char ''Q''" "list_all encoding_char ''b''" by code_simp+
  ultimately have "is_encoded_word ''=?utf8?Q?a?=''" "is_encoded_word ''=?utf8?b?b?=''"
    unfolding is_encoded_word_def by fastforce+
  with mime_decode_words [of "[''=?utf8?Q?a?='', ''=?utf8?b?b?='']" "\<lambda>w. Some (drop 8 w)" "drop 8"] show ?thesis by simp
qed

end
