(* ===== verification/Rewrite_From.thy ===== *)
theory Rewrite_From
  imports Alias_Address Backend Mime_Header
begin

section \<open>Templates and the From header (backends/p_ses.go, p_rewrite_from.go)\<close>

text \<open>
  The processors that send a message on build its addresses from templates over the envelope, and
  \<open>rewritefrom\<close> puts such an address into the message. The model has the variables of the templates, the
  templates themselves and the rewriting of the header block; the processor is a function of the next
  one, as in the theory of the backend, except that it may also never return (the address parser does
  not return for every text). The order in which Go walks over the map of the headers is the order of
  the list.

  The lemmas show what a rewritten message consists of, and that the test whether anything has changed
  overlooks continuation lines.
\<close>

type_synonym 'w mproc =
  "envelope \<Rightarrow> selectTask \<Rightarrow> 'w \<Rightarrow> ((result option \<times> bytes option) \<times> envelope \<times> 'w) run"

definition transaction_failed :: "bytes \<Rightarrow> result option \<times> bytes option" where
  "transaction_failed err = (Some (Res (NewResult [resp_str FailBackendTransaction, '' '', err])), Some err)"

subsection \<open>Variables (p_ses.go)\<close>

definition var_char :: "char \<Rightarrow> char" where
  "var_char r = (if CHR ''a'' \<le> r \<and> r \<le> CHR ''z'' \<or> CHR ''0'' \<le> r \<and> r \<le> CHR ''9'' then r else CHR ''_'')"

fun replace_double :: "bytes \<Rightarrow> bytes" where
  "replace_double (a # b # cs) =
     (if a = CHR ''_'' \<and> b = CHR ''_'' then CHR ''_'' # replace_double cs else a # replace_double (b # cs))"
| "replace_double cs = cs"

lemma length_replace: "length (replace_double s) \<le> length s"
  by (induction s rule: replace_double.induct) auto

lemma replace_shorter: "contains s ''__'' \<Longrightarrow> length (replace_double s) < length s"
proof (induction s rule: replace_double.induct)
  case (1 a b cs)
  show ?case
  proof (cases "a = CHR ''_'' \<and> b = CHR ''_''")
    case True
    then show ?thesis using length_replace [of cs] by simp
  next
    case False
    then have "contains (b # cs) ''__''" using "1.prems" by (auto simp: contains_def split: option.splits if_splits)
    then show ?thesis using 1 False by auto
  qed
qed (auto simp: contains_def split: if_splits)

function squeeze :: "bytes \<Rightarrow> bytes" where
  "squeeze s = (if contains s ''__'' then squeeze (replace_double s) else s)"
  by pat_completeness auto
termination by (relation "measure length") (auto simp: replace_shorter)

declare squeeze.simps [simp del]

definition headerVarKey :: "bytes \<Rightarrow> bytes" where
  "headerVarKey headerName =
     (let s = trim_by (\<lambda>c. c = CHR ''_'') (squeeze (map var_char (to_lower (trim_space headerName))))
      in if s = [] then [] else ''hdr_'' @ s)"

type_synonym vars = "(bytes \<times> bytes) list"

definition lookup_var :: "vars \<Rightarrow> bytes \<Rightarrow> bytes" where
  "lookup_var vars k = (case map_of vars k of Some v \<Rightarrow> v | None \<Rightarrow> [])"

definition base_vars :: "envelope \<Rightarrow> vars" where
  "base_vars e =
     [(''remote_ip'', eRemoteIP e), (''helo'', eHelo e), (''tls_on'', if eTLS e then ''true'' else ''false''),
      (''subject'', eSubject e), (''mail_from'', addr_String (eMailFrom e)), (''mail_from_user'', User (eMailFrom e)),
      (''mail_from_host'', Host (eMailFrom e))]
     @ (case eRcptTo e of
          [] \<Rightarrow> [(''rcpt_to_all'', [])]
        | r # rs \<Rightarrow> [(''rcpt_to'', addr_String r), (''rcpt_user'', User r), (''rcpt_host'', Host r),
            (''rcpt_to_all'', if rs = [] then addr_String r else join '','' (map addr_String (r # rs)))])"

fun header_vars :: "mime_header \<Rightarrow> vars \<Rightarrow> vars" where
  "header_vars [] vars = vars"
| "header_vars ((k, vv) # hs) vars =
     header_vars hs (if headerVarKey k = [] \<or> vv = [] then vars
       else AList.update (headerVarKey k) (trim_space (join '','' vv)) vars)"

definition value_vars :: "envelope \<Rightarrow> vars \<Rightarrow> vars" where
  "value_vars e vars =
     (case map_of (eValues e) ''alias_reply_as'' of
        Some (VString v) \<Rightarrow>
          (let v = trim_space v
           in if v = [] then vars
              else (let vars = AList.update ''alias_reply_as'' v vars
                    in if trim_space (lookup_var vars ''hdr_x_guerrilla_reply_as'') = []
                       then AList.update ''hdr_x_guerrilla_reply_as'' v vars else vars))
      | _ \<Rightarrow> vars)"

text \<open>The headers are parsed when they have not been; the error of the parser is ignored.\<close>

definition parse_once :: "(bytes \<Rightarrow> bytes option) \<Rightarrow> (bytes \<Rightarrow> mime_header \<times> herr option) \<Rightarrow> envelope \<Rightarrow> envelope run" where
  "parse_once dec read e =
     (if eHeader e = None then bind_run (run_of (Some (ParseHeaders dec read e))) (\<lambda>r. Done (snd r)) else Done e)"

definition makeSESVars :: "(bytes \<Rightarrow> bytes option) \<Rightarrow> (bytes \<Rightarrow> mime_header \<times> herr option) \<Rightarrow> envelope \<Rightarrow> (vars \<times> envelope) run" where
  "makeSESVars dec read e =
     bind_run (parse_once dec read e) (\<lambda>e'.
       Done (value_vars e' (case eHeader e' of None \<Rightarrow> base_vars e | Some h \<Rightarrow> header_vars h (base_vars e)), e'))"

subsection \<open>Templates\<close>

definition name_char :: "char \<Rightarrow> bool" where
  "name_char c \<longleftrightarrow> CHR ''a'' \<le> c \<and> c \<le> CHR ''z'' \<or> CHR ''A'' \<le> c \<and> c \<le> CHR ''Z'' \<or> CHR ''0'' \<le> c \<and> c \<le> CHR ''9'' \<or> c = CHR ''_''"

text \<open>The match of the expression \<open>\${([a-zA-Z0-9_]+)}\<close> at the start of a text: its name and what follows.\<close>

definition match_var :: "bytes \<Rightarrow> (bytes \<times> bytes) option" where
  "match_var s =
     (if prefix ''${'' s then
        (let name = takeWhile name_char (drop 2 s); after = dropWhile name_char (drop 2 s)
         in if name \<noteq> [] \<and> prefix ''}'' after then Some (name, tl after) else None)
      else None)"

lemma match_var_shorter: "match_var s = Some (name, after) \<Longrightarrow> length after < length s"
proof -
  assume m: "match_var s = Some (name, after)"
  then have "after = tl (dropWhile name_char (drop 2 s))" "prefix ''${'' s"
    by (auto simp: match_var_def Let_def split: if_splits)
  moreover have "length (dropWhile name_char (drop 2 s)) \<le> length s - 2"
    using length_dropWhile_le [of name_char "drop 2 s"] by simp
  moreover have "length s \<ge> 2" using \<open>prefix ''${'' s\<close> by (auto dest: prefix_length_le)
  ultimately show ?thesis by simp
qed

function applySESTemplate :: "vars \<Rightarrow> bytes \<Rightarrow> bytes" where
  "applySESTemplate vars s =
     (case match_var s of
        Some (name, after) \<Rightarrow> lookup_var vars name @ applySESTemplate vars after
      | None \<Rightarrow> (case s of [] \<Rightarrow> [] | c # cs \<Rightarrow> c # applySESTemplate vars cs))"
  by pat_completeness auto
termination
  by (relation "measure (\<lambda>(vars, s). length s)") (auto simp: match_var_shorter)

declare applySESTemplate.simps [simp del]

subsection \<open>The From header (p_rewrite_from.go)\<close>

text \<open>\<open>bytes.Split\<close> with a separator that is not empty.\<close>

lemma index_of_end: "index_of pat s = Some i \<Longrightarrow> i + length pat \<le> length s"
  using index_of_Some [of pat s i] by auto

function split_seq :: "bytes \<Rightarrow> bytes \<Rightarrow> bytes list" where
  "split_seq pat s =
     (if pat = [] then [s]
      else (case index_of pat s of None \<Rightarrow> [s] | Some i \<Rightarrow> take i s # split_seq pat (drop (i + length pat) s)))"
  by pat_completeness auto
termination
  by (relation "measure (\<lambda>(pat, s). length s)") (auto dest!: index_of_end simp flip: length_greater_0_conv)

declare split_seq.simps [simp del]

definition is_from :: "bytes \<Rightarrow> bool" where
  "is_from line \<longleftrightarrow> prefix ''from:'' (to_lower line)"

definition is_folded :: "bytes \<Rightarrow> bool" where
  "is_folded line \<longleftrightarrow> line \<noteq> [] \<and> (hd line = CHR '' '' \<or> hd line = CHR 0x09)"

text \<open>The loop over the lines of the header: the new lines, whether a From line was found and whether one changed.\<close>

function rewrite_lines :: "bytes \<Rightarrow> bytes list \<Rightarrow> bytes list \<times> bool \<times> bool" where
  "rewrite_lines repl [] = ([], False, False)"
| "rewrite_lines repl (line # lines) =
     (if is_from line
      then (case rewrite_lines repl (dropWhile is_folded lines) of
              (out, found, changed) \<Rightarrow> (repl # out, True, line \<noteq> repl \<or> changed))
      else (case rewrite_lines repl lines of (out, found, changed) \<Rightarrow> (line # out, found, changed)))"
  by pat_completeness auto
termination
  by (relation "measure (\<lambda>(repl, lines). length lines)") (auto simp: le_imp_less_Suc length_dropWhile_le)

definition header_split :: "bytes \<Rightarrow> nat option" where
  "header_split raw =
     (case index_of [CHR 0x0D, CHR 0x0A, CHR 0x0D, CHR 0x0A] raw of
        Some i \<Rightarrow> Some i
      | None \<Rightarrow> index_of [CHR 0x0A, CHR 0x0A] raw)"

definition header_newline :: "bytes \<Rightarrow> bytes" where
  "header_newline header = (if contains header [CHR 0x0D, CHR 0x0A] then [CHR 0x0D, CHR 0x0A] else [CHR 0x0A])"

definition rewriteFromHeader :: "bytes \<Rightarrow> bytes \<Rightarrow> bytes + (bytes \<times> bool)" where
  "rewriteFromHeader raw newFrom =
     (case header_split raw of
        None \<Rightarrow> Inl ''header not found''
      | Some i \<Rightarrow>
          (let header = take i raw; body = drop i raw; newline = header_newline header; repl = ''From: '' @ newFrom
           in case rewrite_lines repl (split_seq newline header) of
                (out, found, changed) \<Rightarrow>
                  if found then Inr (join newline out @ body, changed)
                  else Inr (join newline (repl # out) @ body, True)))"

definition rewritefrom_config :: "bytes \<Rightarrow> bytes \<Rightarrow> bytes + bytes" where
  "rewritefrom_config ses_source_tmpl ociemail_source_tmpl =
     (let sourceTmpl = (if trim_space ses_source_tmpl = [] then trim_space ociemail_source_tmpl else trim_space ses_source_tmpl)
      in if sourceTmpl = [] then Inl ''ses_source_tmpl or ociemail_source_tmpl is required'' else Inr sourceTmpl)"

abbreviation aliasReplyAsHeader :: bytes where "aliasReplyAsHeader \<equiv> ''X-Guerrilla-Reply-As''"

text \<open>\<open>Header.Get\<close> and \<open>Header.Set\<close> for a name in its canonical spelling.\<close>

definition mime_get :: "mime_header \<Rightarrow> bytes \<Rightarrow> bytes" where
  "mime_get h name = (case map_of h name of Some (v # _) \<Rightarrow> v | _ \<Rightarrow> [])"

definition mime_set :: "mime_header option \<Rightarrow> bytes \<Rightarrow> bytes \<Rightarrow> mime_header" where
  "mime_set h name v = AList.update name [v] (case h of None \<Rightarrow> [] | Some h \<Rightarrow> h)"

definition replace_data :: "(bytes \<Rightarrow> bytes option) \<Rightarrow> (bytes \<Rightarrow> mime_header \<times> herr option) \<Rightarrow> envelope \<Rightarrow> bytes \<Rightarrow> envelope run" where
  "replace_data dec read e rewritten =
     (let preserved = (case eHeader e of None \<Rightarrow> [] | Some h \<Rightarrow> trim_space (mime_get h aliasReplyAsHeader))
      in bind_run (parse_once dec read (e\<lparr>eData := rewritten, eHeader := None, eSubject := []\<rparr>)) (\<lambda>e.
           Done (if preserved \<noteq> [] then e\<lparr>eHeader := Some (mime_set (eHeader e) aliasReplyAsHeader preserved)\<rparr> else e)))"

definition rewritefrom_process :: "(bytes \<Rightarrow> bytes option) \<Rightarrow> (bytes \<Rightarrow> mime_header \<times> herr option) \<Rightarrow> bytes option \<Rightarrow>
    'w mproc \<Rightarrow> 'w mproc" where
  "rewritefrom_process dec read cfg p e task w =
     (if task \<noteq> TaskSaveMail then p e task w
      else (case cfg of
              None \<Rightarrow> Done (transaction_failed ''rewritefrom processor not initialized'', e, w)
            | Some tmpl \<Rightarrow>
                bind_run (makeSESVars dec read e) (\<lambda>(vars, e).
                bind_run (normalizeEmailAddress (trim_space (applySESTemplate vars tmpl))) (\<lambda>newFrom.
                  if newFrom = [] then Done (transaction_failed ''ses template produced empty from'', e, w)
                  else (case rewriteFromHeader (eData e) newFrom of
                          Inl err \<Rightarrow> Done (transaction_failed err, e, w)
                        | Inr (rewritten, changed) \<Rightarrow>
                            if changed then bind_run (replace_data dec read e rewritten) (\<lambda>e. p e task w)
                            else p e task w)))))"

subsection \<open>Messages with CR LF line ends\<close>

abbreviation crlf :: bytes where "crlf \<equiv> [CHR 0x0D, CHR 0x0A]"

definition line_ok :: "bytes \<Rightarrow> bool" where
  "line_ok l \<longleftrightarrow> l \<noteq> [] \<and> CHR 0x0D \<notin> set l \<and> CHR 0x0A \<notin> set l"

text \<open>The message with the header lines \<open>ls\<close> and the text \<open>body\<close> behind the empty line.\<close>

definition crlf_message :: "bytes list \<Rightarrow> bytes \<Rightarrow> bytes" where
  "crlf_message ls body = join crlf ls @ crlf @ crlf @ body"

lemma index_of_skip: "prefix [c] pat \<Longrightarrow> c \<notin> set l \<Longrightarrow> index_of pat (l @ r) = map_option (\<lambda>i. length l + i) (index_of pat r)"
proof (induction l)
  case Nil
  then show ?case by (simp add: option.map_ident)
next
  case (Cons x l)
  then have "\<not> prefix pat (x # l @ r)" by (cases pat) auto
  with Cons show ?case by (auto simp: option.map_comp comp_def)
qed

lemma join_Cons: "ls \<noteq> [] \<Longrightarrow> join sep (l # ls) = l @ sep @ join sep ls"
  by (cases ls) auto

lemma split_crlf: "ls \<noteq> [] \<Longrightarrow> list_all line_ok ls \<Longrightarrow> split_seq crlf (join crlf ls) = ls"
proof (induction ls)
  case (Cons l ls)
  have cr: "CHR 0x0D \<notin> set l" using Cons.prems by (simp add: line_ok_def)
  show ?case
  proof (cases "ls = []")
    case True
    have "index_of crlf l = None" using index_of_skip [of "CHR 0x0D" crlf l "[]"] cr by simp
    then show ?thesis using True by (simp add: split_seq.simps [of crlf l])
  next
    case False
    have "index_of crlf (l @ crlf @ join crlf ls) = Some (length l)"
      using index_of_skip [of "CHR 0x0D" crlf l "crlf @ join crlf ls"] cr by simp
    then show ?thesis using Cons False split_seq.simps [of crlf "l @ crlf @ join crlf ls"] by (simp add: join_Cons)
  qed
qed simp

lemma split_message:
  "ls \<noteq> [] \<Longrightarrow> list_all line_ok ls \<Longrightarrow> index_of (crlf @ crlf) (join crlf ls @ crlf @ crlf @ body) = Some (length (join crlf ls))"
proof (induction ls)
  case (Cons l ls)
  have cr: "CHR 0x0D \<notin> set l" using Cons.prems by (simp add: line_ok_def)
  note skip = index_of_skip [of "CHR 0x0D" "crlf @ crlf" _ _, OF _ cr]
  show ?case
  proof (cases "ls = []")
    case True
    then show ?thesis using skip [of "crlf @ crlf @ body"] by simp
  next
    case False
    then obtain x l2 where j: "join crlf ls = x # l2" "x \<noteq> CHR 0x0D"
      using Cons.prems by (cases ls; cases "hd ls"; cases "tl ls") (auto simp: line_ok_def)
    have "index_of (crlf @ crlf) (crlf @ join crlf ls @ crlf @ crlf @ body) = Some (2 + length (join crlf ls))"
      using Cons.IH Cons.prems False j by simp
    then show ?thesis using False skip [of "crlf @ join crlf ls @ crlf @ crlf @ body"] by (simp add: join_Cons)
  qed
qed simp

lemma message_parts:
  assumes "ls \<noteq> []" and "list_all line_ok ls"
  shows "header_split (crlf_message ls body) = Some (length (join crlf ls))"
    "take (length (join crlf ls)) (crlf_message ls body) = join crlf ls"
    "drop (length (join crlf ls)) (crlf_message ls body) = crlf @ crlf @ body"
  using split_message [OF assms] by (simp_all add: header_split_def crlf_message_def)

lemma newline_crlf: "length ls \<ge> 2 \<Longrightarrow> list_all line_ok ls \<Longrightarrow> header_newline (join crlf ls) = crlf"
proof -
  assume "length ls \<ge> 2" "list_all line_ok ls"
  then obtain l m ls' where ls: "ls = l # m # ls'" "CHR 0x0D \<notin> set l"
    by (cases ls; cases "tl ls") (auto simp: line_ok_def)
  have "index_of crlf (join crlf ls) \<noteq> None"
    using ls index_of_skip [of "CHR 0x0D" crlf l "crlf @ join crlf (m # ls')"] by simp
  then show ?thesis by (auto simp: header_newline_def contains_def)
qed

lemma newline_one: "line_ok l \<Longrightarrow> header_newline l = [CHR 0x0A]"
  using index_of_skip [of "CHR 0x0D" crlf l "[]"] by (simp add: header_newline_def contains_def line_ok_def)

subsection \<open>What is rewritten\<close>

text \<open>The lines that stay: neither a From line nor a continuation of one.\<close>

function kept_lines :: "bytes list \<Rightarrow> bytes list" where
  "kept_lines [] = []"
| "kept_lines (l # ls) = (if is_from l then kept_lines (dropWhile is_folded ls) else l # kept_lines ls)"
  by pat_completeness auto
termination by (relation "measure length") (auto simp: le_imp_less_Suc length_dropWhile_le)

lemma from_not_folded: "is_from l \<Longrightarrow> \<not> is_folded l"
  by (cases l) (auto simp: is_from_def is_folded_def to_lower_def lower_byte_def)

lemma filter_from_drop: "filter is_from (dropWhile is_folded ls) = filter is_from ls"
  by (induction ls) (auto simp: from_not_folded)

lemma kept_not_from: "x \<in> set (kept_lines ls) \<Longrightarrow> \<not> is_from x"
  by (induction ls rule: kept_lines.induct) (auto split: if_splits)

lemma rewrite_lines_ok:
  assumes "is_from repl" and "rewrite_lines repl ls = (out, found, changed)"
  shows "filter is_from out = replicate (length (filter is_from ls)) repl \<and> filter (\<lambda>l. \<not> is_from l) out = kept_lines ls
    \<and> found = (\<exists>l \<in> set ls. is_from l) \<and> changed = (\<exists>l \<in> set ls. is_from l \<and> l \<noteq> repl)"
  using assms
proof (induction repl ls arbitrary: out found changed rule: rewrite_lines.induct)
  case (2 repl l ls)
  have "set (filter is_from (dropWhile is_folded ls)) = set (filter is_from ls)" by (simp add: filter_from_drop)
  then have e: "(\<exists>x \<in> set (dropWhile is_folded ls). is_from x \<and> P x) = (\<exists>x \<in> set ls. is_from x \<and> P x)" for P
    by auto
  show ?case
  proof (cases "is_from l")
    case True
    obtain o' f' c' where r: "rewrite_lines repl (dropWhile is_folded ls) = (o', f', c')" by (metis prod_cases3)
    have out: "out = repl # o'" "found" "changed = (l \<noteq> repl \<or> c')" using "2.prems"(2) True r by auto
    from "2.IH"(1) [OF True _ r] True "2.prems"(1) have
      "filter is_from out = replicate (length (filter is_from (l # ls))) repl" "filter (\<lambda>l. \<not> is_from l) out = kept_lines (l # ls)"
      "c' = (\<exists>x \<in> set (dropWhile is_folded ls). is_from x \<and> x \<noteq> repl)"
      by (simp_all add: out(1) filter_from_drop)
    with out True e [of "\<lambda>x. x \<noteq> repl"] show ?thesis by auto
  next
    case False
    obtain o' f' c' where r: "rewrite_lines repl ls = (o', f', c')" by (metis prod_cases3)
    from "2.IH"(2) [OF False _ r] "2.prems" False r show ?thesis by auto
  qed
qed simp

lemma is_from_new: "is_from (''From: '' @ nf)"
proof -
  have "to_lower (''From: '' @ nf) = ''from: '' @ to_lower nf" unfolding to_lower_append by (simp, code_simp)
  then show ?thesis by (simp add: is_from_def)
qed

lemma rewrite_message:
  assumes "list_all line_ok ls" and "length ls \<ge> 2"
  shows "rewriteFromHeader (crlf_message ls body) nf =
    (case rewrite_lines (''From: '' @ nf) ls of (out, found, changed) \<Rightarrow>
       Inr (if found then (crlf_message out body, changed) else (crlf_message ((''From: '' @ nf) # out) body, True)))"
proof -
  have ne: "ls \<noteq> []" using assms(2) by auto
  show ?thesis
    using message_parts [OF ne assms(1), of body] newline_crlf [OF assms(2,1)] split_crlf [OF ne assms(1)]
    by (auto simp: rewriteFromHeader_def Let_def crlf_message_def split: prod.splits)
qed



text \<open>
  A From header whose first line is already the wanted one is left as it is, whatever its continuation
  lines say: the rewriting would drop them but reports that nothing has changed, and the processor
  hands on the original message. A client can add further addresses to the From header this way.
\<close>

theorem folded_from_kept:
  assumes "list_all line_ok ls" and "line_ok nf" and "line_ok more_from" and "is_folded more_from"
    and "\<forall>l \<in> set ls. \<not> is_from l" and "eData e1 = crlf_message ((''From: '' @ nf) # more_from # ls) body"
    and "makeSESVars dec read e = Done (vars, e1)" and "normalizeEmailAddress (trim_space (applySESTemplate vars tmpl)) = Done nf"
  shows "(\<exists>out. rewriteFromHeader (eData e1) nf = Inr (out, False) \<and> length out < length (eData e1))
    \<and> rewritefrom_process dec read (Some tmpl) p e TaskSaveMail w = p e1 TaskSaveMail w"
proof -
  let ?repl = "''From: '' @ nf" and ?ls = "(''From: '' @ nf) # more_from # ls"
  have ok: "list_all line_ok ?ls" using assms(1-3) by (auto simp: line_ok_def)
  obtain out found changed where r: "rewrite_lines ?repl (dropWhile is_folded ls) = (out, found, changed)" by (metis prod_cases3)
  have "\<forall>l \<in> set (dropWhile is_folded ls). \<not> is_from l" using assms(5) by (meson set_dropWhileD)
  with rewrite_lines_ok [OF is_from_new r] have "\<not> changed" "filter (\<lambda>l. \<not> is_from l) out = kept_lines (dropWhile is_folded ls)"
      "filter is_from out = []" by (auto simp: filter_empty_conv)
  moreover have "kept_lines xs = xs" if "\<forall>l \<in> set xs. \<not> is_from l" for xs using that by (induction xs) auto
  ultimately have "\<not> changed" "out = dropWhile is_folded ls"
    using \<open>\<forall>l \<in> set (dropWhile is_folded ls). \<not> is_from l\<close> by (auto simp: filter_empty_conv filter_id_conv)
  then have l: "rewrite_lines ?repl ?ls = (?repl # dropWhile is_folded ls, True, False)"
    using r assms(4) is_from_new [of nf] by simp
  have rw: "rewriteFromHeader (eData e1) nf = Inr (crlf_message (?repl # dropWhile is_folded ls) body, False)"
    unfolding assms(6) using rewrite_message [OF ok, of body nf] l by simp
  have j: "length (join crlf (dropWhile P xs)) \<le> length (join crlf xs)" for P and xs :: "bytes list"
  proof (induction xs)
    case (Cons x xs)
    then show ?case by (cases "xs = []") (auto simp: join_Cons)
  qed simp
  define d where "d = dropWhile is_folded ls"
  have "length (crlf_message (?repl # d) body) < length (eData e1)"
    using j [of is_folded ls, folded d_def] assms(3) unfolding assms(6) crlf_message_def
    by (cases "d = []"; cases "ls = []") (auto simp: join_Cons line_ok_def)
  moreover have "nf \<noteq> []" using assms(2) by (simp add: line_ok_def)
  ultimately show ?thesis using rw [folded d_def] assms(7,8) by (simp add: rewritefrom_process_def)
qed

theorem folded_from_kept_witness:
  "\<exists>e vars out. makeSESVars (\<lambda>_. None) (\<lambda>_. ([], None)) e = Done (vars, e)
     \<and> eData e = crlf_message [''From: n@o.org'', '' <spoofed@z.org>'', ''To: c''] ''hi''
     \<and> rewriteFromHeader (eData e) ''n@o.org'' = Inr (out, False) \<and> length out < length (eData e)
     \<and> rewritefrom_process (\<lambda>_. None) (\<lambda>_. ([], None)) (Some ''n@o.org'') (\<lambda>e task w. Done ((None, None), e, w)) e TaskSaveMail ()
        = Done ((None, None), e, ())"
proof -
  define e where "e = (NewEnvelope [] [])\<lparr>eData := crlf_message [''From: n@o.org'', '' <spoofed@z.org>'', ''To: c''] ''hi'', eHeader := Some []\<rparr>"
  have v: "makeSESVars (\<lambda>_. None) (\<lambda>_. ([], None)) e = Done (base_vars e, e)"
    by (simp add: makeSESVars_def parse_once_def e_def NewEnvelope_def value_vars_def)
  have ok: "list_all line_ok [''To: c'']" "line_ok ''n@o.org''" "line_ok '' <spoofed@z.org>''" "is_folded '' <spoofed@z.org>''"
    "\<forall>l \<in> set [''To: c'']. \<not> is_from l" by code_simp+
  have d: "eData e = crlf_message ((''From: '' @ ''n@o.org'') # '' <spoofed@z.org>'' # [''To: c'']) ''hi''" by (simp add: e_def)
  have "applySESTemplate vars ''n@o.org'' = ''n@o.org''" for vars
    by (simp add: applySESTemplate.simps match_var_def)
  moreover have "trim_space ''n@o.org'' = ''n@o.org''" "isDotString ''n''" "isDomain ''o.org''" "[''a''] \<noteq> []" "list_all isAtom [''a'']"
    "to_lower ''n@o.org'' = ''n@o.org''" by code_simp+
  ultimately have n: "normalizeEmailAddress (trim_space (applySESTemplate (base_vars e) ''n@o.org'')) = Done ''n@o.org''"
    using normalize_usual [of "''n''" "''o.org''" "[''a'']"] by simp
  from folded_from_kept [where p = "\<lambda>e task w. Done ((None, None), e, w)" and w = "()", OF ok d v n] v d show ?thesis by auto
qed

text \<open>
  In a message with CR LF line ends and a single header line that is not From, the new From line is
  ended by a bare line feed: the kind of line end is looked up in the header without its last one.
\<close>

theorem single_header_bare_lf:
  assumes "line_ok l" and "\<not> is_from l"
  shows "rewriteFromHeader (crlf_message [l] body) nf = Inr (''From: '' @ nf @ [CHR 0x0A] @ l @ crlf @ crlf @ body, True)"
proof -
  have lf: "CHR 0x0A \<notin> set l" using assms(1) by (simp add: line_ok_def)
  then have "index_of [CHR 0x0A] l = None" using index_of_skip [of "CHR 0x0A" "[CHR 0x0A]" l "[]"] by simp
  then have "split_seq [CHR 0x0A] l = [l]" by (simp add: split_seq.simps [of "[CHR 0x0A]" l])
  with message_parts [of "[l]" body] newline_one [OF assms(1)] assms show ?thesis
    by (simp add: rewriteFromHeader_def Let_def)
qed

theorem single_header_bare_lf_witness:
  "rewriteFromHeader (crlf_message [''To: c''] ''hi'') ''n@o''
     = Inr (''From: n@o'' @ [CHR 0x0A] @ ''To: c'' @ crlf @ crlf @ ''hi'', True)"
proof -
  have h: "line_ok ''To: c''" "\<not> is_from ''To: c''" by code_simp+
  from single_header_bare_lf [OF h, of "''hi''" "''n@o''"] show ?thesis by simp
qed

end
