(* ===== verification/Alias_Resolve.thy ===== *)
theory Alias_Resolve
  imports Rewrite_From Mem_Db Tenant_Registry
begin

section \<open>The reply-as address of a message (backends/p_alias_resolve.go)\<close>

text \<open>
  The processor \<open>aliasresolve\<close> looks a reply up in the alias store, gives the envelope the address to
  reply as and, with a tenant registry, the send credentials of the thread's tenant. The database, the
  header parser and the global registry are arguments.

  The lemmas show that an authenticated tenant never sends with the credentials of another one, and
  what the processor leaves in the envelope when a soft failure lets the message pass.
\<close>

subsection \<open>The reply\<close>

definition headerFirst :: "envelope \<Rightarrow> bytes \<Rightarrow> bytes" where
  "headerFirst e name = (case eHeader e of None \<Rightarrow> [] | Some h \<Rightarrow> trim_space (mime_get h name))"

definition isReplyEnvelope :: "envelope \<Rightarrow> bool" where
  "isReplyEnvelope e \<longleftrightarrow> eHeader e \<noteq> None \<and> (headerFirst e ''In-Reply-To'' \<noteq> [] \<or> headerFirst e ''References'' \<noteq> [])"

fun add_ids :: "bytes list \<Rightarrow> bytes list \<Rightarrow> bytes list" where
  "add_ids ids [] = ids"
| "add_ids ids (i # is) = add_ids (if i \<in> set ids then ids else ids @ [i]) is"

definition collectReplyMessageIDs :: "envelope \<Rightarrow> bytes list" where
  "collectReplyMessageIDs e =
     add_ids (add_ids [] (parseMessageIDs (headerFirst e ''In-Reply-To''))) (parseMessageIDs (headerFirst e ''References''))"

definition aliasResolveFail :: "bool \<Rightarrow> bytes \<Rightarrow> 'w mproc \<Rightarrow> 'w mproc" where
  "aliasResolveFail failHard err p e task w = (if \<not> failHard then p e task w else Done (transaction_failed err, e, w))"

subsection \<open>The tenant of the thread\<close>

text \<open>
  The part of the processor that gives the envelope the credentials of the thread's tenant: the new
  envelope, or an error that is hard whatever the configuration says (\<open>True\<close>) or not.
\<close>

definition resolve_tenant :: "httpTenantRegistry option \<Rightarrow> envelope \<Rightarrow> aliasThread \<Rightarrow> (bool \<times> bytes) + envelope" where
  "resolve_tenant registry e thread =
     (case registry of
        None \<Rightarrow> Inr e
      | Some reg \<Rightarrow>
          if trim_space (tTenantID thread) = []
          then Inl (False, ''alias thread missing tenant_id while tenant_registry is configured'')
          else (case GetEnvelopeTenantSend (Some e) of
                  Some authTenant \<Rightarrow>
                    if TenantID authTenant \<noteq> [] \<and> TenantID authTenant \<noteq> tTenantID thread
                    then Inl (True, ''reply-as thread belongs to tenant '' @ go_quote (tTenantID thread)
                           @ '' but authenticated tenant is '' @ go_quote (TenantID authTenant)
                           @ ''; refusing to switch send credentials'')
                    else (case reg_Get reg (tTenantID thread) of
                            None \<Rightarrow> Inl (False, ''tenant '' @ go_quote (tTenantID thread) @ '' not found in tenant_registry'')
                          | Some tenant \<Rightarrow> Inr (SetEnvelopeTenantSend e (TenantSendFromTenant (Some tenant))))
                | None \<Rightarrow>
                    (case reg_Get reg (tTenantID thread) of
                       None \<Rightarrow> Inl (False, ''tenant '' @ go_quote (tTenantID thread) @ '' not found in tenant_registry'')
                     | Some tenant \<Rightarrow> Inr (SetEnvelopeTenantSend e (TenantSendFromTenant (Some tenant))))))"

subsection \<open>The processor\<close>

definition not_found_error :: "envelope \<Rightarrow> bytes" where
  "not_found_error e = ''alias not found for In-Reply-To '' @ headerFirst e ''In-Reply-To''
     @ ''; cannot determine reply-as address (index expired or mail predates alias-index)''"

text \<open>Behind the lookup.\<close>

definition resolved :: "httpTenantRegistry option \<Rightarrow> bool \<Rightarrow> aliasThread \<Rightarrow> 'w mproc \<Rightarrow> 'w mproc" where
  "resolved registry failHard thread p e task w =
     (let e = e\<lparr>eValues := AList.update ''alias_reply_as'' (VString (tReplyAs thread)) (eValues e)\<rparr>
      in case resolve_tenant registry e thread of
           Inl (hard, err) \<Rightarrow> aliasResolveFail (hard \<or> failHard) err p e task w
         | Inr e \<Rightarrow> p (e\<lparr>eHeader := Some (mime_set (eHeader e) aliasReplyAsHeader (tReplyAs thread))\<rparr>) task w)"

definition aliasresolve_process :: "'w sqlite \<Rightarrow> (bytes \<Rightarrow> bytes option) \<Rightarrow> (bytes \<Rightarrow> mime_header \<times> herr option) \<Rightarrow>
    httpTenantRegistry option \<Rightarrow> bool option \<Rightarrow> aliasStore option \<Rightarrow> 'w mproc \<Rightarrow> 'w mproc" where
  "aliasresolve_process D dec read registry cfg st p e task w =
     (if task \<noteq> TaskSaveMail then p e task w
      else (case (cfg, st) of
              (Some failHard, Some s) \<Rightarrow>
                bind_run (parse_once dec read e) (\<lambda>e.
                  if \<not> isReplyEnvelope e then p e task w
                  else (let messageIDs = collectReplyMessageIDs e
                        in if messageIDs = [] then
                             aliasResolveFail failHard ''reply message missing parseable In-Reply-To/References Message-ID'' p e task w
                           else bind_run (LookupAnyThread D st messageIDs w) (\<lambda>(r, w).
                                  case r of
                                    Inl err \<Rightarrow> aliasResolveFail failHard err p e task w
                                  | Inr None \<Rightarrow> aliasResolveFail failHard (not_found_error e) p e task w
                                  | Inr (Some (thread, matchedID)) \<Rightarrow> resolved registry failHard thread p e task w)))
            | (Some False, None) \<Rightarrow> p e task w
            | _ \<Rightarrow> Done (transaction_failed ''aliasresolve processor not initialized'', e, w)))"

subsection \<open>Initialisation\<close>

definition resolve_max_rows :: "jvalue option \<Rightarrow> int" where
  "resolve_max_rows v =
     (case v of Some (JNum n) \<Rightarrow> if n > 0 then n else defaultAliasIndexMaxRows
      | Some (JInt n) \<Rightarrow> if n > 0 then n else defaultAliasIndexMaxRows
      | _ \<Rightarrow> defaultAliasIndexMaxRows)"

text \<open>The result is the setting \<open>alias_fail_hard\<close> and the open store.\<close>

definition aliasresolve_init :: "'w sqlite \<Rightarrow> (bytes \<Rightarrow> bytes + int) \<Rightarrow> backendConfig \<Rightarrow> ('w, bool \<times> aliasStore) act" where
  "aliasresolve_init D parseDuration c =
     (let dbPath = (case map_of c ''alias_db_path'' of Some (JStr v) \<Rightarrow> trim_space v | _ \<Rightarrow> []);
          failHard = (case map_of c ''alias_fail_hard'' of Some (JBool v) \<Rightarrow> v | _ \<Rightarrow> True)
      in if dbPath = [] then fail ''alias_db_path is required when using aliasresolve processor''
         else act_bind (lift_sum (case map_of c ''alias_index_ttl'' of
                  Some (JStr raw) \<Rightarrow>
                    if trim_space raw = [] then Inr defaultAliasIndexTTL
                    else (case ParseAliasDuration parseDuration raw of
                            Inl err \<Rightarrow> Inl (''invalid alias_index_ttl: '' @ err)
                          | Inr d \<Rightarrow> Inr (if d > 0 then d else defaultAliasIndexTTL))
                | _ \<Rightarrow> Inr defaultAliasIndexTTL)) (\<lambda>ttl.
              act_bind (wrap_err ''open alias store: '' (OpenAliasStore D \<lparr>scDBPath = dbPath, scTTL = ttl,
                  scMaxRows = resolve_max_rows (map_of c ''alias_index_max_rows''), scPurgeInterval = 0\<rparr>)) (\<lambda>s.
                ok (failHard, s))))"

definition aliasresolve_shutdown :: "'w sqlite \<Rightarrow> aliasStore option \<Rightarrow> ('w, unit) act" where
  "aliasresolve_shutdown D st = (if st \<noteq> None then store_Close D st else ok ())"

subsection \<open>The credentials of the authenticated tenant\<close>

lemma parse_once_values: "parse_once dec read e = Done e' \<Longrightarrow> eValues e' = eValues e"
proof -
  have "bind_outcome r (\<lambda>t. Ret (err, e0\<lparr>eSubject := t\<rparr>)) = Ret (x, e1) \<Longrightarrow> eValues e1 = eValues e0" for r err x e0 e1
    by (auto simp: bind_outcome_Ret_iff)
  then show "parse_once dec read e = Done e' \<Longrightarrow> eValues e' = eValues e"
    by (fastforce simp: parse_once_def ParseHeaders_def Let_def split: if_splits option.splits prod.splits list.splits)
qed

text \<open>The message is answered, or handed on with an envelope that has the property \<open>P\<close>.\<close>

definition handed_on :: "'w mproc \<Rightarrow> selectTask \<Rightarrow> (envelope \<Rightarrow> bool) \<Rightarrow> ((result option \<times> bytes option) \<times> envelope \<times> 'w) run \<Rightarrow> bool" where
  "handed_on p task P r \<longleftrightarrow> r = Blocks \<or> (\<exists>m. r = Crash m) \<or> (\<exists>err e w. r = Done (transaction_failed err, e, w))
     \<or> (\<exists>e w. P e \<and> r = p e task w)"

lemma handed_on_pass: "P e \<Longrightarrow> handed_on p task P (p e task w)"
  by (auto simp: handed_on_def)

lemma handed_on_fail [simp]: "handed_on p task P (Done (transaction_failed err, e, w))"
  by (auto simp: handed_on_def)

lemma handed_on_bind: "(\<And>x. r = Done x \<Longrightarrow> handed_on p task P (f x)) \<Longrightarrow> handed_on p task P (bind_run r f)"
  by (cases r) (auto simp: handed_on_def)

lemma handed_on_soft: "P e \<Longrightarrow> handed_on p task P (aliasResolveFail failHard err p e task w)"
  by (auto simp: aliasResolveFail_def intro: handed_on_pass)

definition sends_as :: "bytes \<Rightarrow> envelope \<Rightarrow> bool" where
  "sends_as tid e \<longleftrightarrow> (\<exists>c. GetEnvelopeTenantSend (Some e) = Some c \<and> TenantID c = tid)"

lemma sends_as_header [simp]: "sends_as tid (e\<lparr>eHeader := h\<rparr>) = sends_as tid e"
  by (simp add: sends_as_def GetEnvelopeTenantSend_def)

lemma sends_as_values: "eValues e' = eValues e \<Longrightarrow> sends_as tid e' = sends_as tid e"
  by (simp add: sends_as_def GetEnvelopeTenantSend_def)

lemma sends_as_update: "k \<noteq> envelopeTenantSendKey \<Longrightarrow> sends_as tid (e\<lparr>eValues := AList.update k v (eValues e)\<rparr>) = sends_as tid e"
  by (simp add: sends_as_def GetEnvelopeTenantSend_def update_conv')

lemma resolve_tenant_sends_as:
  assumes "\<forall>R. registry = Some R \<longrightarrow> registry_ok R" and "sends_as tid e" and "tid \<noteq> []" and "trim_space tid = tid"
    and "resolve_tenant registry e thread = Inr e'"
  shows "sends_as tid e'"
proof (cases registry)
  case None
  then show ?thesis using assms(2,5) by (simp add: resolve_tenant_def)
next
  case (Some R)
  obtain a where a: "GetEnvelopeTenantSend (Some e) = Some a" "TenantID a = tid" using assms(2) by (auto simp: sends_as_def)
  with assms(3,5) Some obtain t where t: "reg_Get R tid = Some t" "e' = SetEnvelopeTenantSend e (TenantSendFromTenant (Some t))"
    by (auto simp: resolve_tenant_def split: if_splits option.splits)
  have "TenantID t = tid"
    using t(1) assms(1,4) Some by (auto simp: reg_Get_def registry_ok_def dest!: map_of_SomeD)
  then show ?thesis
    using t(2) by (simp add: sends_as_def GetEnvelopeTenantSend_def SetEnvelopeTenantSend_def TenantSendFromTenant_def send_config_of_def
        update_conv')
qed

lemma resolved_sends_as:
  assumes "\<forall>R. registry = Some R \<longrightarrow> registry_ok R" and "sends_as tid e" and "tid \<noteq> []" and "trim_space tid = tid"
  shows "handed_on p task (sends_as tid) (resolved registry failHard thread p e task w)"
proof -
  define e1 where "e1 = e\<lparr>eValues := AList.update ''alias_reply_as'' (VString (tReplyAs thread)) (eValues e)\<rparr>"
  have e1: "sends_as tid e1" using assms(2) by (simp add: e1_def sends_as_update)
  show ?thesis
  proof (cases "resolve_tenant registry e1 thread")
    case (Inl x)
    then show ?thesis using e1
      by (cases x) (simp add: resolved_def e1_def [symmetric] handed_on_soft)
  next
    case (Inr e2)
    with resolve_tenant_sends_as [OF assms(1) e1 assms(3,4) Inr] show ?thesis
      by (simp add: resolved_def e1_def [symmetric] handed_on_pass)
  qed
qed

text \<open>
  C5: A client that has authenticated as a tenant cannot make the processor switch to the send credentials
  of another tenant, whatever message it claims to reply to and whatever the alias store and the
  registry contain: the message is refused or handed on with credentials of its own tenant.
\<close>

theorem tenant_isolation:
  assumes "\<forall>R. registry = Some R \<longrightarrow> registry_ok R" and "GetEnvelopeTenantSend (Some e) = Some a"
    and "TenantID a \<noteq> []" and "trim_space (TenantID a) = TenantID a"
  shows "handed_on p task (sends_as (TenantID a)) (aliasresolve_process D dec read registry cfg st p e task w)"
proof -
  let ?P = "sends_as (TenantID a)"
  have e: "?P e" using assms(2) by (simp add: sends_as_def)
  have inner: "handed_on p task ?P (bind_run (parse_once dec read e) (\<lambda>e.
      if \<not> isReplyEnvelope e then p e task w
      else (let messageIDs = collectReplyMessageIDs e
            in if messageIDs = [] then aliasResolveFail failHard err1 p e task w
               else bind_run (LookupAnyThread D st messageIDs w) (\<lambda>(r, w). case r of
                      Inl err \<Rightarrow> aliasResolveFail failHard err p e task w
                    | Inr None \<Rightarrow> aliasResolveFail failHard (not_found_error e) p e task w
                    | Inr (Some (thread, matchedID)) \<Rightarrow> resolved registry failHard thread p e task w))))" for failHard err1
  proof (rule handed_on_bind)
    fix e1 assume "parse_once dec read e = Done e1"
    then have e1: "?P e1" using e parse_once_values sends_as_values by metis
    show "handed_on p task ?P (if \<not> isReplyEnvelope e1 then p e1 task w
      else (let messageIDs = collectReplyMessageIDs e1
            in if messageIDs = [] then aliasResolveFail failHard err1 p e1 task w
               else bind_run (LookupAnyThread D st messageIDs w) (\<lambda>(r, w). case r of
                      Inl err \<Rightarrow> aliasResolveFail failHard err p e1 task w
                    | Inr None \<Rightarrow> aliasResolveFail failHard (not_found_error e1) p e1 task w
                    | Inr (Some (thread, matchedID)) \<Rightarrow> resolved registry failHard thread p e1 task w)))"
      by (auto simp: Let_def intro!: handed_on_pass handed_on_soft handed_on_bind resolved_sends_as [OF assms(1) _ assms(3,4)] e1
          split: sum.splits option.splits)
  qed
  show ?thesis
    unfolding aliasresolve_process_def
    using inner e by (auto intro: handed_on_pass split: option.splits bool.splits)
qed

subsection \<open>Soft failures\<close>

text \<open>
  With \<open>alias_fail_hard\<close> off, a thread without a tenant or with a tenant that the registry does not
  know is logged as a failure and the message goes on, but the envelope keeps the reply-as address of
  the thread: the templates of the later processors see it as if the thread had been accepted.
\<close>

theorem soft_failure_keeps_reply_as:
  assumes "resolve_tenant registry (e\<lparr>eValues := AList.update ''alias_reply_as'' (VString (tReplyAs thread)) (eValues e)\<rparr>) thread = Inl (False, err)"
    and "tReplyAs thread \<noteq> []" and "trim_space (tReplyAs thread) = tReplyAs thread"
  shows "\<exists>e'. resolved registry False thread p e task w = p e' task w
    \<and> (\<forall>vars. lookup_var (value_vars e' vars) ''alias_reply_as'' = tReplyAs thread)"
proof -
  let ?e = "e\<lparr>eValues := AList.update ''alias_reply_as'' (VString (tReplyAs thread)) (eValues e)\<rparr>"
  have "resolved registry False thread p e task w = p ?e task w"
    using assms(1) by (simp add: resolved_def aliasResolveFail_def)
  moreover have "lookup_var (value_vars ?e vars) ''alias_reply_as'' = tReplyAs thread" for vars
    using assms(2,3) by (simp add: value_vars_def lookup_var_def update_conv' Let_def)
  ultimately show ?thesis by blast
qed

subsection \<open>Runs\<close>

definition demo_registry :: httpTenantRegistry where
  "demo_registry = \<lparr>hr_cfg = \<lparr>tr_URL = ''http://r'', tr_PollInterval = seconds 300, tr_Timeout = seconds 10, tr_Headers = []\<rparr>,
     hr_tenants = [], hr_pop3 = [], hr_imap = []\<rparr>"

lemma demo_registry_ok: "registry_ok demo_registry"
  by (simp add: registry_ok_def demo_registry_def)

definition demo_tenant :: tenantSendConfig where
  "demo_tenant = \<lparr>TenantID = ''a'', Provider = ''ses'', SES = None, OCIEmail = None\<rparr>"

definition demo_reply :: envelope where
  "demo_reply = (NewEnvelope [] [])\<lparr>eHeader := Some [(''In-Reply-To'', [''<M1@X.org>''])],
     eValues := [(envelopeTenantSendKey, VTenantSend demo_tenant)]\<rparr>"

definition demo_index :: mem where
  "demo_index = empty_mem\<lparr>M_threads := [(''M1@x.org'', ''help@x.org'', ''bob@y.org'', ''b'', 5)]\<rparr>"

definition demo_next :: "mem_world mproc" where
  "demo_next e task w = Done ((Some ResOK, None), e, w)"

lemma demo_ids_of: "isReplyEnvelope demo_reply" "collectReplyMessageIDs demo_reply = [''M1@x.org'']"
  by code_simp+

theorem tenant_isolation_witness:
  "\<exists>err e'. aliasresolve_process mem_db (\<lambda>_. None) (\<lambda>_. ([], None)) (Some demo_registry) (Some False) demo_store demo_next
      demo_reply TaskSaveMail (demo_index, empty_mem) = Done (transaction_failed err, e', (demo_index, empty_mem))
    \<and> handed_on demo_next TaskSaveMail (sends_as ''a'') (Done (transaction_failed err, e', (demo_index, empty_mem)))"
proof -
  let ?r = "aliasresolve_process mem_db (\<lambda>_. None) (\<lambda>_. ([], None)) (Some demo_registry) (Some False) demo_store demo_next
      demo_reply TaskSaveMail (demo_index, empty_mem)"
  have h: "eHeader demo_reply \<noteq> None" "GetEnvelopeTenantSend (Some demo_reply) = Some demo_tenant" "TenantID demo_tenant = ''a''"
    "trim_space ''a'' = ''a''" "trim_space ''b'' = ''b''"
    by code_simp+
  obtain ds where st: "demo_store = Some ds" by (simp add: demo_store_def)
  have l: "LookupAnyThread mem_db demo_store [''M1@x.org''] (demo_index, empty_mem) = Done (Inr (Some
      (\<lparr>tMessageID = ''M1@x.org'', tReplyAs = ''help@x.org'', tOrigFrom = ''bob@y.org'', tTenantID = ''b'', tCreatedAt = Some 5\<rparr>,
       ''M1@x.org'')), (demo_index, empty_mem))"
    by (simp add: LookupThread_def demo_ids act_bind_def mem_db_def mem_query_def demo_index_def ok_def Let_def)
  have g: "GetEnvelopeTenantSend (Some (demo_reply\<lparr>eValues := AList.update ''alias_reply_as'' v (eValues demo_reply)\<rparr>)) = Some demo_tenant" for v
    using h(2) by (simp add: GetEnvelopeTenantSend_def update_conv')
  have r: "\<exists>err e'. ?r = Done (transaction_failed err, e', (demo_index, empty_mem))"
    unfolding st by (simp add: aliasresolve_process_def parse_once_def h demo_ids_of Let_def l [unfolded st] resolved_def
        resolve_tenant_def g aliasResolveFail_def del: LookupAnyThread.simps) blast
  have "handed_on demo_next TaskSaveMail (sends_as (TenantID demo_tenant)) ?r"
    by (rule tenant_isolation) (use h demo_registry_ok in simp_all)
  with r h(3) show ?thesis by auto
qed

theorem soft_failure_keeps_reply_as_witness:
  "\<exists>e'. resolved (Some demo_registry) False \<lparr>tMessageID = ''m'', tReplyAs = ''help@x.org'', tOrigFrom = ''b'', tTenantID = [], tCreatedAt = None\<rparr>
      demo_next demo_reply TaskSaveMail (demo_index, empty_mem) = Done ((Some ResOK, None), e', (demo_index, empty_mem))
    \<and> lookup_var (value_vars e' []) ''alias_reply_as'' = ''help@x.org''"
proof -
  let ?t = "\<lparr>tMessageID = ''m'', tReplyAs = ''help@x.org'', tOrigFrom = ''b'', tTenantID = [], tCreatedAt = None\<rparr>"
  have r: "resolve_tenant (Some demo_registry) (demo_reply\<lparr>eValues := AList.update ''alias_reply_as'' (VString (tReplyAs ?t)) (eValues demo_reply)\<rparr>) ?t
      = Inl (False, ''alias thread missing tenant_id while tenant_registry is configured'')"
    by (simp add: resolve_tenant_def trim_space_def)
  have t: "trim_space (tReplyAs ?t) = tReplyAs ?t" "tReplyAs ?t \<noteq> []" by code_simp+
  from soft_failure_keeps_reply_as [OF r t(2,1), of demo_next TaskSaveMail "(demo_index, empty_mem)"] show ?thesis
    by (auto simp: demo_next_def)
qed

end
