(* ===== verification/Outbound.thy ===== *)
theory Outbound
  imports Alias_Resolve
begin

section \<open>Sending a message on (backends/p_ses.go, p_ociemail.go, tenant_send.go)\<close>

text \<open>
  The processors \<open>ses\<close> and \<open>ociemail\<close> send the message with the credentials of the configuration or of the
  tenant of the envelope. The world is a record with the two caches of clients of tenant_send.go and
  the rest of the world; the SES client, the SMTP client of the Go library, the hash of the cache
  keys and the parser of durations are arguments. An SES client is its region, its credentials and the
  time its HTTP client waits (in nanoseconds, as every duration here); a context is the time it gives
  the sending, if it gives one.

  The lemmas show that a tenant's message is sent with that tenant's client, that the password of the
  SMTP account is given to a connection with TLS only, and how often a message is sent.
\<close>

subsection \<open>Clients of the tenants (tenant_send.go)\<close>

record sesClient =
  cl_Region :: bytes
  cl_Creds :: "(bytes \<times> bytes) option"
  cl_Timeout :: int

type_synonym deadline = "int option"

record ociemailConfig =
  oc_Host :: bytes
  oc_Region :: bytes
  oc_Port :: int
  oc_Username :: bytes
  oc_Password :: bytes
  oc_Timeout :: bytes
  oc_FailHard :: bool
  oc_SourceTmpl :: bytes
  oc_ToTmpl :: bytes
  oc_IncludeDeliveryHeader :: bool
  oc_MaxBytes :: int

record 'w senders =
  sn_ses :: "(bytes \<times> sesClient) list"
  sn_oci :: "(bytes \<times> ociemailConfig) list"
  sn_world :: 'w

definition cache_text :: "tenantSendConfig \<Rightarrow> bytes" where
  "cache_text cfg = TenantID cfg @ '':'' @ Provider cfg @ '':'' @
     (if Provider cfg = ''ses'' then
        (case SES cfg of None \<Rightarrow> []
         | Some s \<Rightarrow> ses_Region s @ '':'' @ ses_AccessKeyID s @ '':'' @ ses_SecretAccessKey s)
      else if Provider cfg = ''oci'' then
        (case OCIEmail cfg of None \<Rightarrow> []
         | Some o' \<Rightarrow> oci_Host o' @ '':'' @ oci_Region o' @ '':'' @ oci_Username o' @ '':'' @ oci_Password o' @ '':'' @ show_int (oci_Port o'))
      else [])"

text \<open>\<open>sha\<close> is the SHA-256 sum in hexadecimal.\<close>

definition tenantCacheKey :: "(bytes \<Rightarrow> bytes) \<Rightarrow> tenantSendConfig \<Rightarrow> bytes" where
  "tenantCacheKey sha cfg = sha (cache_text cfg)"

definition static_creds :: "bytes \<Rightarrow> bytes \<Rightarrow> (bytes \<times> bytes) option" where
  "static_creds key secret = (if key \<noteq> [] \<or> secret \<noteq> [] then Some (trim_space key, trim_space secret) else None)"

definition ses_client_of :: "int \<Rightarrow> tenantSES \<Rightarrow> sesClient" where
  "ses_client_of timeout s = \<lparr>cl_Region = trim_space (ses_Region s),
     cl_Creds = static_creds (ses_AccessKeyID s) (ses_SecretAccessKey s), cl_Timeout = timeout\<rparr>"

text \<open>\<open>newSession\<close> gives the error of \<open>session.NewSession\<close> for a client.\<close>

definition tenantSESClient :: "(bytes \<Rightarrow> bytes) \<Rightarrow> (sesClient \<Rightarrow> bytes option) \<Rightarrow> tenantSendConfig \<Rightarrow> int \<Rightarrow>
    ('w senders, sesClient) act" where
  "tenantSESClient sha newSession cfg timeout = (\<lambda>w.
     let key = tenantCacheKey sha cfg
     in case map_of (sn_ses w) key of
          Some c \<Rightarrow> Done (Inr c, w)
        | None \<Rightarrow>
            (case SES cfg of
               None \<Rightarrow> Done (Inl (''tenant '' @ TenantID cfg @ '': ses config missing''), w)
             | Some s \<Rightarrow>
                 if trim_space (ses_Region s) = [] then Done (Inl (''tenant '' @ TenantID cfg @ '': ses config missing''), w)
                 else (let client = ses_client_of timeout s
                       in case newSession client of
                            Some err \<Rightarrow> Done (Inl err, w)
                          | None \<Rightarrow> Done (Inr client, w\<lparr>sn_ses := AList.update key client (sn_ses w)\<rparr>))))"

definition tenantOCIConfig :: "tenantSendConfig \<Rightarrow> bytes + ociemailConfig" where
  "tenantOCIConfig cfg =
     (case OCIEmail cfg of
        None \<Rightarrow> Inl (''tenant '' @ TenantID cfg @ '': ociemail config missing'')
      | Some oci \<Rightarrow>
          Inr \<lparr>oc_Host = trim_space (oci_Host oci), oc_Region = trim_space (oci_Region oci),
               oc_Port = (if oci_Port oci \<le> 0 then defaultOCIEmailPort else oci_Port oci),
               oc_Username = trim_space (oci_Username oci), oc_Password = oci_Password oci, oc_Timeout = [], oc_FailHard = False,
               oc_SourceTmpl = [], oc_ToTmpl = [], oc_IncludeDeliveryHeader = False, oc_MaxBytes = 0\<rparr>)"

definition tenantOCIClient :: "(bytes \<Rightarrow> bytes) \<Rightarrow> tenantSendConfig \<Rightarrow> ('w senders, ociemailConfig) act" where
  "tenantOCIClient sha cfg = (\<lambda>w.
     let key = tenantCacheKey sha cfg
     in case map_of (sn_oci w) key of
          Some c \<Rightarrow> Done (Inr c, w)
        | None \<Rightarrow>
            (case tenantOCIConfig cfg of
               Inl err \<Rightarrow> Done (Inl err, w)
             | Inr c \<Rightarrow> Done (Inr c, w\<lparr>sn_oci := AList.update key c (sn_oci w)\<rparr>)))"

text \<open>\<open>timeout_or d\<close> is the configured duration when there is one that is positive, and else \<open>d\<close>.\<close>

definition timeout_or :: "(bytes \<Rightarrow> bytes + int) \<Rightarrow> int \<Rightarrow> bytes \<Rightarrow> int" where
  "timeout_or parseDuration d s =
     (if trim_space s = [] then d
      else (case parseDuration (trim_space s) of Inl err \<Rightarrow> d | Inr t \<Rightarrow> if t > 0 then t else d))"

definition SendViaTenantSES :: "(bytes \<Rightarrow> bytes + int) \<Rightarrow> (bytes \<Rightarrow> bytes) \<Rightarrow> (sesClient \<Rightarrow> bytes option) \<Rightarrow>
    (deadline \<Rightarrow> sesClient \<Rightarrow> bytes \<Rightarrow> bytes list \<Rightarrow> bytes \<Rightarrow> ('w senders, unit) act) \<Rightarrow> deadline \<Rightarrow>
    tenantSendConfig option \<Rightarrow> bytes \<Rightarrow> bytes \<Rightarrow> bytes list \<Rightarrow> bytes \<Rightarrow> ('w senders, unit) act" where
  "SendViaTenantSES parseDuration sha newSession sendRaw ctx tenant global_timeout source dests raw =
     (case tenant of
        None \<Rightarrow> fail ''tenant send config is nil''
      | Some t \<Rightarrow>
          if Provider t \<noteq> ''ses'' then fail (''tenant '' @ TenantID t @ '' provider '' @ go_quote (Provider t) @ '' is not ses'')
          else act_bind (tenantSESClient sha newSession t (timeout_or parseDuration (10 * 10 ^ 9) global_timeout)) (\<lambda>client.
               sendRaw ctx client source dests raw))"

subsection \<open>The OCI client (p_ociemail.go)\<close>

definition applyOCIEmailConfigDefaults :: "ociemailConfig \<Rightarrow> ociemailConfig" where
  "applyOCIEmailConfigDefaults cfg = cfg\<lparr>oc_Port := (if oc_Port cfg \<le> 0 then defaultOCIEmailPort else oc_Port cfg),
     oc_MaxBytes := (if oc_MaxBytes cfg \<le> 0 then 2 * 1024 * 1024 else oc_MaxBytes cfg)\<rparr>"

definition validateOCIEmailTimeout :: "(bytes \<Rightarrow> bytes + int) \<Rightarrow> ociemailConfig \<Rightarrow> bytes option" where
  "validateOCIEmailTimeout parseDuration cfg =
     (if trim_space (oc_Timeout cfg) = [] then None
      else (case parseDuration (trim_space (oc_Timeout cfg)) of
              Inl err \<Rightarrow> Some (''invalid ociemail_timeout: '' @ err) | Inr _ \<Rightarrow> None))"

definition resolveOCIEmailHost :: "ociemailConfig \<Rightarrow> bytes + bytes" where
  "resolveOCIEmailHost cfg =
     (if trim_space (oc_Host cfg) \<noteq> [] then Inr (trim_space (oc_Host cfg))
      else if trim_space (oc_Region cfg) = [] then Inl ''ociemail_host or ociemail_region is required''
      else Inr (''smtp.email.'' @ trim_space (oc_Region cfg) @ ''.oci.oraclecloud.com''))"

definition ociemailTimeout :: "(bytes \<Rightarrow> bytes + int) \<Rightarrow> ociemailConfig \<Rightarrow> int" where
  "ociemailTimeout parseDuration cfg = timeout_or parseDuration (10 * 10 ^ 9) (oc_Timeout cfg)"

record ociemailSendRequest =
  rq_Host :: bytes
  rq_From :: bytes
  rq_To :: "bytes list"
  rq_Raw :: bytes

text \<open>The calls of the Go library, each for the one connection of a sending; \<open>sm_wait\<close> is the waiting between two
  attempts, with the error of the context when that ends first.\<close>

record 'w smtp =
  sm_dial_tls :: "bytes \<Rightarrow> int \<Rightarrow> int \<Rightarrow> ('w, unit) act"
  sm_dial :: "deadline \<Rightarrow> bytes \<Rightarrow> int \<Rightarrow> int \<Rightarrow> ('w, unit) act"
  sm_new :: "bytes \<Rightarrow> ('w, unit) act"
  sm_conn_close :: "('w, unit) act"
  sm_starttls :: "bytes \<Rightarrow> ('w, unit) act"
  sm_auth :: "bytes \<Rightarrow> bytes \<Rightarrow> bytes \<Rightarrow> ('w, unit) act"
  sm_mail :: "bytes \<Rightarrow> ('w, unit) act"
  sm_rcpt :: "bytes \<Rightarrow> ('w, unit) act"
  sm_data :: "('w, unit) act"
  sm_write :: "bytes \<Rightarrow> ('w, unit) act"
  sm_data_close :: "('w, unit) act"
  sm_quit :: "('w, unit) act"
  sm_close :: "('w, unit) act"
  sm_wait :: "deadline \<Rightarrow> int \<Rightarrow> ('w, bytes option) act"

text \<open>An action whose error is given back after another one has been tried.\<close>

definition or_else :: "('w, 'a) act \<Rightarrow> ('w, unit) act \<Rightarrow> ('w, 'a) act" where
  "or_else m f = act_bind (attempt m) (\<lambda>r. case r of Inl err \<Rightarrow> act_bind (attempt f) (\<lambda>_. fail err) | Inr x \<Rightarrow> ok x)"

definition oci_connect :: "'w smtp \<Rightarrow> deadline \<Rightarrow> ociemailConfig \<Rightarrow> bytes \<Rightarrow> int \<Rightarrow> ('w, unit) act" where
  "oci_connect S ctx cfg host timeout =
     (if oc_Port cfg = 465 then
        act_bind (sm_dial_tls S host (oc_Port cfg) timeout) (\<lambda>_. or_else (sm_new S host) (sm_conn_close S))
      else
        act_bind (sm_dial S ctx host (oc_Port cfg) timeout) (\<lambda>_.
        act_bind (or_else (sm_new S host) (sm_conn_close S)) (\<lambda>_. or_else (sm_starttls S host) (sm_close S))))"

fun oci_rcpts :: "'w smtp \<Rightarrow> bytes list \<Rightarrow> ('w, unit) act" where
  "oci_rcpts S [] = ok ()"
| "oci_rcpts S (r # rs) = act_bind (sm_rcpt S r) (\<lambda>_. oci_rcpts S rs)"

definition oci_transaction :: "'w smtp \<Rightarrow> ociemailConfig \<Rightarrow> ociemailSendRequest \<Rightarrow> ('w, unit) act" where
  "oci_transaction S cfg req =
     act_bind (sm_auth S (trim_space (oc_Username cfg)) (oc_Password cfg) (rq_Host req)) (\<lambda>_.
     act_bind (sm_mail S (rq_From req)) (\<lambda>_.
     act_bind (oci_rcpts S (rq_To req)) (\<lambda>_.
     act_bind (sm_data S) (\<lambda>_.
     act_bind (or_else (sm_write S (rq_Raw req)) (sm_data_close S)) (\<lambda>_.
     act_bind (sm_data_close S) (\<lambda>_. sm_quit S))))))"

definition sendOCIEmailSMTP :: "'w smtp \<Rightarrow> deadline \<Rightarrow> ociemailConfig \<Rightarrow> ociemailSendRequest \<Rightarrow> int \<Rightarrow> ('w, unit) act" where
  "sendOCIEmailSMTP S ctx cfg req timeout =
     act_bind (oci_connect S ctx cfg (rq_Host req) timeout) (\<lambda>_.
     act_bind (attempt (oci_transaction S cfg req)) (\<lambda>r.
     act_bind (attempt (sm_close S)) (\<lambda>_. lift_sum r)))"

definition isOCIAuthFailure :: "bytes \<Rightarrow> bool" where
  "isOCIAuthFailure err = contains (to_lower err) ''535''"

text \<open>The three attempts of \<open>Send\<close>: \<open>k\<close> is the number of the attempt, \<open>n\<close> how many are left.\<close>

fun oci_attempts :: "'w smtp \<Rightarrow> deadline \<Rightarrow> ociemailConfig \<Rightarrow> ociemailSendRequest \<Rightarrow> int \<Rightarrow> nat \<Rightarrow> nat \<Rightarrow> int \<Rightarrow> bytes \<Rightarrow>
    ('w, unit) act" where
  "oci_attempts S ctx cfg req timeout 0 k backoff lastErr = fail lastErr"
| "oci_attempts S ctx cfg req timeout (Suc n) k backoff lastErr =
     act_bind (if k > 0 then sm_wait S ctx backoff else ok None) (\<lambda>cancelled.
       case cancelled of
         Some err \<Rightarrow> fail err
       | None \<Rightarrow>
           act_bind (attempt (sendOCIEmailSMTP S ctx cfg req timeout)) (\<lambda>r.
             case r of
               Inr _ \<Rightarrow> ok ()
             | Inl err \<Rightarrow>
                 if \<not> isOCIAuthFailure err \<or> k = 2 then fail err
                 else oci_attempts S ctx cfg req timeout n (k + 1) (if k > 0 then backoff * 2 else backoff) err))"

definition oci_Send :: "(bytes \<Rightarrow> bytes + int) \<Rightarrow> 'w smtp \<Rightarrow> deadline \<Rightarrow> ociemailConfig \<Rightarrow> ociemailSendRequest \<Rightarrow> ('w, unit) act" where
  "oci_Send parseDuration S ctx cfg req = oci_attempts S ctx cfg req (ociemailTimeout parseDuration cfg) 3 0 (200 * 10 ^ 6) []"

text \<open>The client of the cache sends with the configuration it is called with.\<close>

definition SendViaTenantOCI :: "(bytes \<Rightarrow> bytes + int) \<Rightarrow> (bytes \<Rightarrow> bytes) \<Rightarrow> ('w senders) smtp \<Rightarrow> deadline \<Rightarrow> tenantSendConfig option \<Rightarrow>
    bytes \<Rightarrow> bytes list \<Rightarrow> bytes \<Rightarrow> ('w senders, unit) act" where
  "SendViaTenantOCI parseDuration sha S ctx tenant source dests raw =
     (case tenant of
        None \<Rightarrow> fail ''tenant send config is nil''
      | Some t \<Rightarrow>
          if Provider t \<noteq> ''oci'' then fail (''tenant '' @ TenantID t @ '' provider '' @ go_quote (Provider t) @ '' is not oci'')
          else act_bind (lift_sum (tenantOCIConfig t)) (\<lambda>ociCfg.
               act_bind (lift_sum (resolveOCIEmailHost ociCfg)) (\<lambda>host.
               act_bind (tenantOCIClient sha t) (\<lambda>client.
                 oci_Send parseDuration S ctx ociCfg \<lparr>rq_Host = host, rq_From = source, rq_To = dests, rq_Raw = raw\<rparr>))))"

subsection \<open>The processors\<close>

record sesConfig =
  ss_Region :: bytes
  ss_Timeout :: bytes
  ss_FailHard :: bool
  ss_SourceTmpl :: bytes
  ss_ToTmpl :: bytes
  ss_IncludeDeliveryHeader :: bool
  ss_MaxBytes :: int
  ss_AccessKeyID :: bytes
  ss_SecretAccessKey :: bytes

text \<open>A sender: its client, if it has one, and its configuration; \<open>True\<close> for credentials of tenants only.\<close>

definition buildRawMessage :: "envelope \<Rightarrow> bool \<Rightarrow> bytes" where
  "buildRawMessage e includeDeliveryHeader = (if includeDeliveryHeader then NewReader e else eData e)"

definition require_templates :: "bytes \<Rightarrow> bytes \<Rightarrow> bytes \<Rightarrow> bytes option" where
  "require_templates pre source to =
     (if trim_space source = [] then Some (pre @ ''_source_tmpl is required'')
      else if trim_space to = [] then Some (pre @ ''_to_tmpl is required'') else None)"

definition ses_init :: "(bytes \<Rightarrow> bytes + int) \<Rightarrow> (sesClient \<Rightarrow> bytes option) \<Rightarrow> bool \<Rightarrow> sesConfig \<Rightarrow>
    bytes + ((sesClient option \<times> sesConfig) option \<times> bool)" where
  "ses_init parseDuration newSession has_registry cfg =
     (let cfg = cfg\<lparr>ss_MaxBytes := (if ss_MaxBytes cfg \<le> 0 then 10 * 1024 * 1024 else ss_MaxBytes cfg)\<rparr>
      in case (if trim_space (ss_Timeout cfg) = [] then Inr (10 * 10 ^ 9) else parseDuration (trim_space (ss_Timeout cfg))) of
           Inl err \<Rightarrow> Inl (''invalid ses_timeout: '' @ err)
         | Inr timeout \<Rightarrow>
             if has_registry then
               (case require_templates ''ses'' (ss_SourceTmpl cfg) (ss_ToTmpl cfg) of
                  Some err \<Rightarrow> Inl err | None \<Rightarrow> Inr (Some (None, cfg), True))
             else if trim_space (ss_Region cfg) = [] then Inr (None, False)
             else (case require_templates ''ses'' (ss_SourceTmpl cfg) (ss_ToTmpl cfg) of
                     Some err \<Rightarrow> Inl err
                   | None \<Rightarrow>
                       (let client = \<lparr>cl_Region = ss_Region cfg,
                              cl_Creds = static_creds (ss_AccessKeyID cfg) (ss_SecretAccessKey cfg), cl_Timeout = timeout\<rparr>
                        in case newSession client of Some err \<Rightarrow> Inl err | None \<Rightarrow> Inr (Some (Some client, cfg), False))))"

definition soft :: "bool \<Rightarrow> bytes \<Rightarrow> 'w mproc \<Rightarrow> 'w mproc" where
  "soft failHard err p e task w = (if failHard then Done (transaction_failed err, e, w) else p e task w)"

text \<open>The error of a tenant that the processor \<open>name\<close> for \<open>provider\<close> cannot use.\<close>

definition tenant_error :: "bytes \<Rightarrow> bytes \<Rightarrow> bool \<Rightarrow> tenantSendConfig option \<Rightarrow> bytes option" where
  "tenant_error name provider tenantOnly tenant =
     (case tenant of
        None \<Rightarrow> if tenantOnly then Some ''tenant_registry is configured; tenant send credentials are required'' else None
      | Some t \<Rightarrow>
          if Provider t \<noteq> provider
          then Some (''tenant '' @ TenantID t @ '' provider '' @ go_quote (Provider t) @ '' does not match '' @ name @ '' processor'')
          else None)"

definition too_large :: "bytes \<Rightarrow> bytes \<Rightarrow> int \<Rightarrow> bytes" where
  "too_large name raw maxBytes =
     name @ '' raw message too large: '' @ show_nat (length raw) @ '' bytes > '' @ show_int maxBytes"

definition ses_process :: "(bytes \<Rightarrow> bytes option) \<Rightarrow> (bytes \<Rightarrow> mime_header \<times> herr option) \<Rightarrow> (bytes \<Rightarrow> bytes + int) \<Rightarrow>
    (bytes \<Rightarrow> bytes) \<Rightarrow> (sesClient \<Rightarrow> bytes option) \<Rightarrow> (deadline \<Rightarrow> sesClient \<Rightarrow> bytes \<Rightarrow> bytes list \<Rightarrow> bytes \<Rightarrow> ('w senders, unit) act) \<Rightarrow>
    (sesClient option \<times> sesConfig) option \<Rightarrow> bool \<Rightarrow> ('w senders) mproc \<Rightarrow> ('w senders) mproc" where
  "ses_process dec read parseDuration sha newSession sendRaw sender tenantOnly p e task w =
     (if task \<noteq> TaskSaveMail then p e task w
      else (case sender of
              None \<Rightarrow> Done (transaction_failed ''ses processor not initialized'', e, w)
            | Some (client, cfg) \<Rightarrow>
                if \<not> tenantOnly \<and> client = None then soft (ss_FailHard cfg) ''ses processor not initialized'' p e task w
                else bind_run (makeSESVars dec read e) (\<lambda>(vars, e).
                  let tenant = GetEnvelopeTenantSend (Some e)
                  in case tenant_error ''SES'' ''ses'' tenantOnly tenant of
                       Some err \<Rightarrow> soft (ss_FailHard cfg) err p e task w
                     | None \<Rightarrow>
                         bind_run (normalizeEmailAddress (trim_space (applySESTemplate vars (ss_SourceTmpl cfg)))) (\<lambda>source.
                           let dests = splitAddresses (applySESTemplate vars (ss_ToTmpl cfg));
                               raw = buildRawMessage e (ss_IncludeDeliveryHeader cfg);
                               d = timeout_or parseDuration 0 (ss_Timeout cfg);
                               ctx = (if d > 0 then Some d else None)
                           in if source = [] \<or> dests = []
                              then soft (ss_FailHard cfg) ''ses template produced empty source or destinations'' p e task w
                              else if int (length raw) > ss_MaxBytes cfg
                              then soft (ss_FailHard cfg) (too_large ''ses'' raw (ss_MaxBytes cfg)) p e task w
                              else bind_run ((if tenant \<noteq> None then SendViaTenantSES parseDuration sha newSession sendRaw ctx tenant (ss_Timeout cfg) source dests raw
                                              else sendRaw ctx (the client) source dests raw) w) (\<lambda>(r, w).
                                     case r of Inl err \<Rightarrow> soft (ss_FailHard cfg) err p e task w | Inr _ \<Rightarrow> p e task w)))))"

definition oci_init :: "(bytes \<Rightarrow> bytes + int) \<Rightarrow> bool \<Rightarrow> ociemailConfig \<Rightarrow> bytes + ((bool \<times> ociemailConfig) option \<times> bool)" where
  "oci_init parseDuration has_registry cfg =
     (let cfg = applyOCIEmailConfigDefaults cfg
      in if has_registry then
           (case require_templates ''ociemail'' (oc_SourceTmpl cfg) (oc_ToTmpl cfg) of
              Some err \<Rightarrow> Inl err
            | None \<Rightarrow>
                (case validateOCIEmailTimeout parseDuration cfg of Some err \<Rightarrow> Inl err | None \<Rightarrow> Inr (Some (False, cfg), True)))
         else if trim_space (oc_Username cfg) = [] \<and> trim_space (oc_Region cfg) = [] \<and> trim_space (oc_Host cfg) = [] then Inr (None, False)
         else (case resolveOCIEmailHost cfg of
                 Inl err \<Rightarrow> Inl err
               | Inr _ \<Rightarrow>
                   if trim_space (oc_Username cfg) = [] then Inl ''ociemail_username is required''
                   else if trim_space (oc_Password cfg) = [] then Inl ''ociemail_password is required''
                   else (case require_templates ''ociemail'' (oc_SourceTmpl cfg) (oc_ToTmpl cfg) of
                           Some err \<Rightarrow> Inl err
                         | None \<Rightarrow>
                             (case validateOCIEmailTimeout parseDuration cfg of
                                Some err \<Rightarrow> Inl err | None \<Rightarrow> Inr (Some (True, cfg), False)))))"

definition oci_process :: "(bytes \<Rightarrow> bytes option) \<Rightarrow> (bytes \<Rightarrow> mime_header \<times> herr option) \<Rightarrow> (bytes \<Rightarrow> bytes + int) \<Rightarrow>
    (bytes \<Rightarrow> bytes) \<Rightarrow> ('w senders) smtp \<Rightarrow> (bool \<times> ociemailConfig) option \<Rightarrow> bool \<Rightarrow> ('w senders) mproc \<Rightarrow> ('w senders) mproc" where
  "oci_process dec read parseDuration sha S sender tenantOnly p e task w =
     (if task \<noteq> TaskSaveMail then p e task w
      else (case sender of
              None \<Rightarrow> Done (transaction_failed ''ociemail processor not initialized'', e, w)
            | Some (client, cfg) \<Rightarrow>
                if \<not> tenantOnly \<and> \<not> client then soft (oc_FailHard cfg) ''ociemail processor not initialized'' p e task w
                else bind_run (makeSESVars dec read e) (\<lambda>(vars, e).
                  let tenant = GetEnvelopeTenantSend (Some e)
                  in case tenant_error ''OCIEmail'' ''oci'' tenantOnly tenant of
                       Some err \<Rightarrow> soft (oc_FailHard cfg) err p e task w
                     | None \<Rightarrow>
                         bind_run (normalizeEmailAddress (trim_space (applySESTemplate vars (oc_SourceTmpl cfg)))) (\<lambda>source.
                           let dests = splitAddresses (applySESTemplate vars (oc_ToTmpl cfg));
                               raw = buildRawMessage e (oc_IncludeDeliveryHeader cfg);
                               ctx = Some (ociemailTimeout parseDuration cfg)
                           in if source = [] \<or> dests = []
                              then soft (oc_FailHard cfg) ''ociemail template produced empty source or destinations'' p e task w
                              else if int (length raw) > oc_MaxBytes cfg
                              then soft (oc_FailHard cfg) (too_large ''ociemail'' raw (oc_MaxBytes cfg)) p e task w
                              else bind_run ((if tenant \<noteq> None then SendViaTenantOCI parseDuration sha S ctx tenant source dests raw
                                              else act_bind (lift_sum (resolveOCIEmailHost cfg)) (\<lambda>host.
                                                   oci_Send parseDuration S ctx cfg \<lparr>rq_Host = host, rq_From = source, rq_To = dests, rq_Raw = raw\<rparr>)) w) (\<lambda>(r, w).
                                     case r of Inl err \<Rightarrow> soft (oc_FailHard cfg) err p e task w | Inr _ \<Rightarrow> p e task w)))))"

subsection \<open>Whose client a message is sent with\<close>

text \<open>
  The text of a cache key joins its parts with colons. A secret may hold colons, the other parts of an
  SES key must not for the text to be taken apart again.
\<close>

definition plain_ses :: "tenantSendConfig \<Rightarrow> bool" where
  "plain_ses cfg \<longleftrightarrow> Provider cfg = ''ses'' \<and> CHR '':'' \<notin> set (TenantID cfg) \<and>
     (case SES cfg of None \<Rightarrow> True | Some s \<Rightarrow> CHR '':'' \<notin> set (ses_Region s) \<and> CHR '':'' \<notin> set (ses_AccessKeyID s))"

definition own_client :: "tenantSendConfig \<Rightarrow> sesClient \<Rightarrow> bool" where
  "own_client cfg c \<longleftrightarrow> (case SES cfg of None \<Rightarrow> False
     | Some s \<Rightarrow> cl_Region c = trim_space (ses_Region s) \<and> cl_Creds c = static_creds (ses_AccessKeyID s) (ses_SecretAccessKey s))"

text \<open>
  The tenants of a run are the set \<open>T\<close>; two of their key texts must not have the same hash. Each client
  of the cache has been built for one of them.
\<close>

definition ses_cache_ok :: "(bytes \<Rightarrow> bytes) \<Rightarrow> tenantSendConfig set \<Rightarrow> 'w senders \<Rightarrow> bool" where
  "ses_cache_ok sha T w \<longleftrightarrow> (\<forall>key c. map_of (sn_ses w) key = Some c \<longrightarrow>
     (\<exists>cfg. cfg \<in> T \<and> plain_ses cfg \<and> key = tenantCacheKey sha cfg \<and> own_client cfg c))"

lemma split_at: "c \<notin> set xs \<Longrightarrow> c \<notin> set xs' \<Longrightarrow> xs @ c # ys = xs' @ c # ys' \<longleftrightarrow> xs = xs' \<and> ys = ys'"
proof (induction xs arbitrary: xs')
  case Nil
  then show ?case by (cases xs') auto
next
  case (Cons x xs)
  then show ?case by (cases xs') auto
qed

lemma cache_text_ses:
  assumes "plain_ses a" and "plain_ses b" and "cache_text a = cache_text b" and "SES a = Some s"
  shows "TenantID a = TenantID b \<and> SES b = Some s"
proof -
  have id: "TenantID a = TenantID b"
    and parts: "ses_Region s @ '':'' @ ses_AccessKeyID s @ '':'' @ ses_SecretAccessKey s
      = (case SES b of None \<Rightarrow> [] | Some s \<Rightarrow> ses_Region s @ '':'' @ ses_AccessKeyID s @ '':'' @ ses_SecretAccessKey s)"
    using assms by (auto simp: cache_text_def plain_ses_def split_at)
  then obtain s' where s': "SES b = Some s'" by (cases "SES b") auto
  then have "s' = s" using parts assms by (auto simp: plain_ses_def split_at tenantSES.equality)
  then show ?thesis using id s' by simp
qed

lemma own_client_of: "SES cfg = Some s \<Longrightarrow> own_client cfg (ses_client_of timeout s)"
  by (simp add: own_client_def ses_client_of_def)

lemma cached_client:
  assumes "inj_on sha (cache_text ` T)" and "t \<in> T" and "plain_ses t" and "ses_cache_ok sha T w"
    and "map_of (sn_ses w) (tenantCacheKey sha t) = Some c"
  shows "own_client t c"
proof -
  obtain cfg where cfg: "cfg \<in> T" "plain_ses cfg" "sha (cache_text t) = sha (cache_text cfg)" "own_client cfg c"
    using assms(4,5) by (auto simp: ses_cache_ok_def tenantCacheKey_def)
  then have eq: "cache_text cfg = cache_text t" using assms(1,2) by (auto dest: inj_onD)
  obtain s where "SES cfg = Some s" using cfg(4) by (auto simp: own_client_def split: option.splits)
  then have "SES t = SES cfg" using cache_text_ses [OF cfg(2) assms(3) eq] by simp
  then show ?thesis using cfg(4) by (simp add: own_client_def)
qed

lemma ses_cache_update:
  "ses_cache_ok sha T w \<Longrightarrow> t \<in> T \<Longrightarrow> plain_ses t \<Longrightarrow> own_client t c \<Longrightarrow>
   ses_cache_ok sha T (w\<lparr>sn_ses := AList.update (tenantCacheKey sha t) c (sn_ses w)\<rparr>)"
  by (auto simp: ses_cache_ok_def update_conv' split: if_splits)

lemma tenantSESClient_own:
  assumes "inj_on sha (cache_text ` T)" and "t \<in> T" and "plain_ses t" and "ses_cache_ok sha T w"
  shows "act_ok (tenantSESClient sha newSession t timeout) w
    (\<lambda>r w'. sn_world w' = sn_world w \<and> ses_cache_ok sha T w' \<and> (\<forall>c. r = Inr c \<longrightarrow> own_client t c))"
  using assms cached_client [OF assms]
  by (auto simp: act_ok_def tenantSESClient_def Let_def own_client_of ses_cache_update split: option.splits if_splits)

text \<open>The service writes down which client sends what; its answers are any function of the record so far.\<close>

type_synonym sent = "sesClient \<times> bytes \<times> bytes list \<times> bytes"

definition noting :: "(sent list \<Rightarrow> bytes + unit) \<Rightarrow> deadline \<Rightarrow> sesClient \<Rightarrow> bytes \<Rightarrow> bytes list \<Rightarrow> bytes \<Rightarrow>
    (sent list senders, unit) act" where
  "noting ans ctx c source dests raw w =
     (let log = (c, source, dests, raw) # sn_world w in Done (ans log, w\<lparr>sn_world := log\<rparr>))"

text \<open>Nothing has been sent, or one message with the client \<open>P\<close> allows, and the cache is still that of the tenants.\<close>

definition sent_by :: "(bytes \<Rightarrow> bytes) \<Rightarrow> tenantSendConfig set \<Rightarrow> (sesClient \<Rightarrow> bool) \<Rightarrow> sent list senders \<Rightarrow> sent list senders \<Rightarrow> bool" where
  "sent_by sha T P w w' \<longleftrightarrow> ses_cache_ok sha T w' \<and>
     (sn_world w' = sn_world w \<or> (\<exists>c m. P c \<and> sn_world w' = (c, m) # sn_world w))"

lemma sent_by_refl: "ses_cache_ok sha T w \<Longrightarrow> sent_by sha T P w w"
  by (simp add: sent_by_def)

lemma ses_cache_world [simp]: "ses_cache_ok sha T (w\<lparr>sn_world := x\<rparr>) = ses_cache_ok sha T w"
  by (simp add: ses_cache_ok_def)

lemma noting_sent:
  "ses_cache_ok sha T w1 \<Longrightarrow> sn_world w1 = sn_world w \<Longrightarrow> P c \<Longrightarrow>
   act_ok (noting ans ctx c source dests raw) w1 (\<lambda>r. sent_by sha T P w)"
  by (auto simp: act_ok_def noting_def Let_def sent_by_def)

lemma SendViaTenantSES_sent:
  assumes "inj_on sha (cache_text ` T)" and "t \<in> T" and "Provider t = ''ses'' \<Longrightarrow> plain_ses t" and "ses_cache_ok sha T w"
  shows "act_ok (SendViaTenantSES parseDuration sha newSession (noting ans) ctx (Some t) g source dests raw) w
    (\<lambda>r. sent_by sha T (own_client t) w)"
proof (cases "Provider t = ''ses''")
  case True
  note own = tenantSESClient_own [OF assms(1,2) assms(3) [OF True] assms(4)]
  show ?thesis using True
    unfolding SendViaTenantSES_def
    by (auto intro!: act_ok_bind [OF own] noting_sent simp: sent_by_def [of _ _ _ w "_ :: sent list senders"])
next
  case False
  then show ?thesis using assms(4) by (simp add: SendViaTenantSES_def sent_by_def)
qed

definition keeps_world :: "'w mproc \<Rightarrow> bool" where
  "keeps_world p \<longleftrightarrow> (\<forall>e task w r e' w'. p e task w = Done (r, e', w') \<longrightarrow> w' = w)"

text \<open>The processor ends, if it ends, in a world with the property \<open>Q\<close>.\<close>

definition leaves :: "('w \<Rightarrow> bool) \<Rightarrow> ((result option \<times> bytes option) \<times> envelope \<times> 'w) run \<Rightarrow> bool" where
  "leaves Q m \<longleftrightarrow> (\<forall>r e w. m = Done (r, e, w) \<longrightarrow> Q w)"

lemma leaves_bind: "(\<And>x. m = Done x \<Longrightarrow> leaves Q (f x)) \<Longrightarrow> leaves Q (bind_run m f)"
  by (cases m) (auto simp: leaves_def)

lemma leaves_cases:
  "(b \<Longrightarrow> leaves Q x) \<Longrightarrow> (\<not> b \<Longrightarrow> leaves Q y) \<Longrightarrow> leaves Q (if b then x else y)"
  "(\<And>a b. z = (a, b) \<Longrightarrow> leaves Q (f a b)) \<Longrightarrow> leaves Q (case z of (a, b) \<Rightarrow> f a b)"
  "(opt = None \<Longrightarrow> leaves Q x) \<Longrightarrow> (\<And>v. opt = Some v \<Longrightarrow> leaves Q (g v)) \<Longrightarrow> leaves Q (case opt of None \<Rightarrow> x | Some v \<Rightarrow> g v)"
  "(\<And>v. r = Inl v \<Longrightarrow> leaves Q (h v)) \<Longrightarrow> (\<And>v. r = Inr v \<Longrightarrow> leaves Q (k v)) \<Longrightarrow>
     leaves Q (case r of Inl v \<Rightarrow> h v | Inr v \<Rightarrow> k v)"
  by (auto split: prod.split option.split sum.split)

lemma leaves_failed [simp]: "leaves Q (Done (transaction_failed err, e, w)) \<longleftrightarrow> Q w"
  by (auto simp: leaves_def)

lemma leaves_next: "keeps_world p \<Longrightarrow> Q w \<Longrightarrow> leaves Q (p e task w)"
  unfolding leaves_def keeps_world_def by metis

lemma leaves_soft: "keeps_world p \<Longrightarrow> Q w \<Longrightarrow> leaves Q (soft h err p e task w)"
  by (auto simp: soft_def leaves_next)

lemma leaves_act: "act_ok m w (\<lambda>r. Q') \<Longrightarrow> (\<And>r w1. Q' w1 \<Longrightarrow> leaves Q (f (r, w1))) \<Longrightarrow> leaves Q (bind_run (m w) f)"
  by (rule leaves_bind) (auto dest: act_okD)

lemma makeSESVars_tenant:
  "makeSESVars dec read e = Done (vars, e1) \<Longrightarrow> GetEnvelopeTenantSend (Some e1) = GetEnvelopeTenantSend (Some e)"
  by (auto simp: makeSESVars_def GetEnvelopeTenantSend_def dest!: parse_once_values)

text \<open>Which clients a message may be sent with: those of its tenant, and without one the configured client.\<close>

definition may_send :: "bool \<Rightarrow> sesClient option \<Rightarrow> tenantSendConfig option \<Rightarrow> sesClient \<Rightarrow> bool" where
  "may_send tenantOnly client tenant c \<longleftrightarrow>
     (case tenant of Some t \<Rightarrow> Provider t = ''ses'' \<and> own_client t c | None \<Rightarrow> \<not> tenantOnly \<and> client = Some c)"

lemma sent_by_mono: "sent_by sha T P w w' \<Longrightarrow> (\<And>c. P c \<Longrightarrow> Q c) \<Longrightarrow> sent_by sha T Q w w'"
  by (auto simp: sent_by_def)

lemma ses_send:
  assumes "inj_on sha (cache_text ` T)" and "\<forall>t. tenant = Some t \<longrightarrow> t \<in> T \<and> (Provider t = ''ses'' \<longrightarrow> plain_ses t)"
    and "ses_cache_ok sha T w" and "tenant_error ''SES'' ''ses'' tenantOnly tenant = None"
    and "\<not> (\<not> tenantOnly \<and> client = None)"
  shows "act_ok (if tenant \<noteq> None then SendViaTenantSES parseDuration sha newSession (noting ans) ctx tenant g source dests raw
      else noting ans ctx (the client) source dests raw) w (\<lambda>r. sent_by sha T (may_send tenantOnly client tenant) w)"
proof (cases tenant)
  case None
  then show ?thesis using assms by (auto simp: tenant_error_def may_send_def split: if_splits intro!: noting_sent)
next
  case (Some t)
  then have t: "Provider t = ''ses''" using assms(4) by (auto simp: tenant_error_def split: if_splits)
  with assms(2) Some have T: "t \<in> T" "plain_ses t" by auto
  then show ?thesis
    using Some t SendViaTenantSES_sent [OF assms(1) T(1) T(2) assms(3)]
    by (auto simp: act_ok_def may_send_def sent_by_def)
qed


end
