(* ===== verification/Outbound_Props.thy ===== *)
theory Outbound_Props
  imports Outbound
begin

section \<open>The connection of the OCI sender\<close>

text \<open>
  The SMTP client of the Go library is given here as one that writes down every call and its answer,
  where the answers are any function of the calls before: what is shown holds for every server. The
  lemmas follow the sending through that record: when the password is given away, how often the message
  is sent and what the caller is told.
\<close>

datatype smtp_event =
  DialTLS bytes int | Dial bytes int | Hello bytes | ConnClose | StartTLS bytes | Auth bytes bytes bytes
| MailCmd bytes | RcptCmd bytes | DataCmd | WriteData bytes | DataClose | QuitCmd | CloseConn | Waited int

type_synonym smtp_log = "(smtp_event \<times> bytes option) list"

text \<open>The latest entry of a log is the first; an answer is the error, if there is one.\<close>

definition log_call :: "(smtp_log \<Rightarrow> smtp_event \<Rightarrow> bytes option) \<Rightarrow> smtp_event \<Rightarrow> (smtp_log, unit) act" where
  "log_call ans ev log = Done (case ans log ev of None \<Rightarrow> Inr () | Some err \<Rightarrow> Inl err, (ev, ans log ev) # log)"

definition log_wait :: "(smtp_log \<Rightarrow> smtp_event \<Rightarrow> bytes option) \<Rightarrow> int \<Rightarrow> (smtp_log, bytes option) act" where
  "log_wait ans d log = Done (Inr (ans log (Waited d)), (Waited d, None) # log)"

definition traced :: "(smtp_log \<Rightarrow> smtp_event \<Rightarrow> bytes option) \<Rightarrow> smtp_log smtp" where
  "traced ans = \<lparr>sm_dial_tls = (\<lambda>host port timeout. log_call ans (DialTLS host port)),
     sm_dial = (\<lambda>ctx host port timeout. log_call ans (Dial host port)), sm_new = (\<lambda>host. log_call ans (Hello host)),
     sm_conn_close = log_call ans ConnClose, sm_starttls = (\<lambda>host. log_call ans (StartTLS host)),
     sm_auth = (\<lambda>user pass host. log_call ans (Auth user pass host)), sm_mail = (\<lambda>from. log_call ans (MailCmd from)),
     sm_rcpt = (\<lambda>to. log_call ans (RcptCmd to)), sm_data = log_call ans DataCmd, sm_write = (\<lambda>raw. log_call ans (WriteData raw)),
     sm_data_close = log_call ans DataClose, sm_quit = log_call ans QuitCmd, sm_close = log_call ans CloseConn,
     sm_wait = (\<lambda>ctx d. log_wait ans d)\<rparr>"

lemma traced_simps [simp]:
  "sm_dial_tls (traced ans) host port timeout = log_call ans (DialTLS host port)"
  "sm_dial (traced ans) ctx host port timeout = log_call ans (Dial host port)"
  "sm_new (traced ans) host = log_call ans (Hello host)" "sm_conn_close (traced ans) = log_call ans ConnClose"
  "sm_starttls (traced ans) host = log_call ans (StartTLS host)" "sm_auth (traced ans) user pass host = log_call ans (Auth user pass host)"
  "sm_mail (traced ans) from = log_call ans (MailCmd from)" "sm_rcpt (traced ans) to = log_call ans (RcptCmd to)"
  "sm_data (traced ans) = log_call ans DataCmd" "sm_write (traced ans) raw = log_call ans (WriteData raw)"
  "sm_data_close (traced ans) = log_call ans DataClose" "sm_quit (traced ans) = log_call ans QuitCmd"
  "sm_close (traced ans) = log_call ans CloseConn" "sm_wait (traced ans) ctx d = log_wait ans d"
  by (simp_all add: traced_def)

subsection \<open>Preconditions of the calls\<close>

lemma runs_or_else [run_simps]:
  "runs (or_else m f) w Q \<longleftrightarrow> runs m w (\<lambda>r w1. case r of Inl err \<Rightarrow> runs f w1 (\<lambda>_. Q (Inl err)) | Inr x \<Rightarrow> Q (Inr x) w1)"
proof -
  have "(\<lambda>r w1. runs (case r of Inl err \<Rightarrow> act_bind (attempt f) (\<lambda>_. fail err) | Inr x \<Rightarrow> ok x) w1 Q)
      = (\<lambda>r w1. case r of Inl err \<Rightarrow> runs f w1 (\<lambda>_. Q (Inl err)) | Inr x \<Rightarrow> Q (Inr x) w1)"
    by (auto simp: fun_eq_iff run_simps split: sum.split)
  then show ?thesis by (simp add: or_else_def run_simps)
qed

lemma runs_call [run_simps]:
  "runs (log_call ans ev) w Q \<longleftrightarrow> (case ans w ev of None \<Rightarrow> Q (Inr ()) ((ev, None) # w) | Some err \<Rightarrow> Q (Inl err) ((ev, Some err) # w))"
  by (simp add: runs_def log_call_def split: option.split)

lemma runs_wait [run_simps]: "runs (log_wait ans d) w Q \<longleftrightarrow> Q (Inr (ans w (Waited d))) ((Waited d, None) # w)"
  by (simp add: runs_def log_wait_def)

subsection \<open>The password\<close>

text \<open>The name the certificate of the connection was checked for, when it is encrypted.\<close>

fun secure_for :: "smtp_log \<Rightarrow> bytes option" where
  "secure_for [] = None"
| "secure_for ((ev, answer) # log) =
     (case ev of
        DialTLS host port \<Rightarrow> if answer = None then Some host else None
      | Dial host port \<Rightarrow> None
      | StartTLS host \<Rightarrow> if answer = None then Some host else secure_for log
      | _ \<Rightarrow> secure_for log)"

fun auth_safe :: "smtp_log \<Rightarrow> bool" where
  "auth_safe [] = True"
| "auth_safe ((ev, answer) # log) =
     ((case ev of Auth user pass host \<Rightarrow> secure_for log = Some host | _ \<Rightarrow> True) \<and> auth_safe log)"

lemma connect_safe:
  "auth_safe w \<Longrightarrow> runs (oci_connect (traced ans) ctx cfg host timeout) w
     (\<lambda>r w'. auth_safe w' \<and> (\<forall>x. r = Inr x \<longrightarrow> secure_for w' = Some host))"
  by (simp add: oci_connect_def run_simps split: option.split)

lemma rcpts_safe: "auth_safe w \<Longrightarrow> runs (oci_rcpts (traced ans) tos) w (\<lambda>r. auth_safe)"
  by (induction tos arbitrary: w) (simp_all add: run_simps split: option.split)

lemma transaction_safe:
  "auth_safe w \<Longrightarrow> secure_for w = Some (rq_Host req) \<Longrightarrow> runs (oci_transaction (traced ans) cfg req) w (\<lambda>r. auth_safe)"
  by (auto simp: oci_transaction_def run_simps split: option.split sum.split intro!: runs_mono [OF rcpts_safe])

lemma send_safe: "auth_safe w \<Longrightarrow> runs (sendOCIEmailSMTP (traced ans) ctx cfg req timeout) w (\<lambda>r. auth_safe)"
  by (auto simp: sendOCIEmailSMTP_def run_simps split: option.split sum.split
      intro!: runs_mono [OF connect_safe] runs_mono [OF transaction_safe])

lemma attempts_safe:
  "auth_safe w \<Longrightarrow> runs (oci_attempts (traced ans) ctx cfg req timeout n k backoff lastErr) w (\<lambda>r. auth_safe)"
proof (induction n arbitrary: w k backoff lastErr)
  case (Suc n)
  then show ?case
    by (auto simp: run_simps split: option.split sum.split intro!: runs_mono [OF send_safe])
qed (simp add: run_simps)


subsection \<open>How often a message is sent\<close>

definition dials :: "smtp_log \<Rightarrow> nat" where
  "dials log = length (filter (\<lambda>(ev, _). case ev of DialTLS _ _ \<Rightarrow> True | Dial _ _ \<Rightarrow> True | _ \<Rightarrow> False) log)"

text \<open>The messages the server has taken: the text was ended and the answer to it was no error.\<close>

definition taken :: "smtp_log \<Rightarrow> nat" where
  "taken log = length (filter (\<lambda>x. x = (DataClose, None)) log)"

definition auth_failures :: "smtp_log \<Rightarrow> bool" where
  "auth_failures log \<longleftrightarrow> (\<exists>(ev, answer) \<in> set log. \<exists>err. answer = Some err \<and> isOCIAuthFailure err)"

lemma log_counts [simp]:
  "dials [] = 0" "taken [] = 0" "\<not> auth_failures []"
  "dials ((ev, a) # log) = (case ev of DialTLS _ _ \<Rightarrow> 1 | Dial _ _ \<Rightarrow> 1 | _ \<Rightarrow> 0) + dials log"
  "taken ((ev, a) # log) = (if ev = DataClose \<and> a = None then 1 else 0) + taken log"
  "auth_failures ((ev, a) # log) \<longleftrightarrow> (\<exists>err. a = Some err \<and> isOCIAuthFailure err) \<or> auth_failures log"
  by (auto simp: dials_def taken_def auth_failures_def split: smtp_event.split)

text \<open>
  What one action adds to the log \<open>w\<close>: \<open>d\<close> dials, \<open>k\<close> messages taken when it succeeds and at most \<open>f\<close>
  when it fails; the error it ends with is an answer of the log.
\<close>

definition adds :: "nat \<Rightarrow> nat \<Rightarrow> nat \<Rightarrow> smtp_log \<Rightarrow> bytes + 'a \<Rightarrow> smtp_log \<Rightarrow> bool" where
  "adds d f k w r w' \<longleftrightarrow> dials w' = dials w + d \<and> (auth_failures w \<longrightarrow> auth_failures w') \<and>
     (case r of Inr _ \<Rightarrow> taken w' = taken w + k
      | Inl err \<Rightarrow> taken w \<le> taken w' \<and> taken w' \<le> taken w + f \<and> (isOCIAuthFailure err \<longrightarrow> auth_failures w'))"

lemma connect_adds: "runs (oci_connect (traced ans) ctx cfg host timeout) w (adds 1 0 0 w)"
  by (simp add: oci_connect_def run_simps adds_def split: option.split)

lemma rcpts_adds: "runs (oci_rcpts (traced ans) tos) w (adds 0 0 0 w)"
proof (induction tos arbitrary: w)
  case (Cons to tos)
  show ?case
    by (auto simp: run_simps adds_def split: option.split sum.splits intro!: runs_mono [OF Cons.IH])
qed (simp add: run_simps adds_def)

lemma transaction_adds: "runs (oci_transaction (traced ans) cfg req) w (adds 0 1 1 w)"
  by (auto simp: oci_transaction_def run_simps adds_def split: option.split sum.splits intro!: runs_mono [OF rcpts_adds])

lemma send_adds: "runs (sendOCIEmailSMTP (traced ans) ctx cfg req timeout) w (adds 1 1 1 w)"
  by (auto simp: sendOCIEmailSMTP_def run_simps adds_def split: option.split sum.splits
      intro!: runs_mono [OF connect_adds] runs_mono [OF transaction_adds])

definition sent_within :: "nat \<Rightarrow> smtp_log \<Rightarrow> bytes + 'a \<Rightarrow> smtp_log \<Rightarrow> bool" where
  "sent_within n w r w' \<longleftrightarrow> dials w' \<le> dials w + n \<and> taken w' \<le> taken w + n \<and> (\<forall>x. r = Inr x \<longrightarrow> taken w < taken w') \<and>
     (auth_failures w \<longrightarrow> auth_failures w') \<and> (\<not> auth_failures w' \<longrightarrow> dials w' \<le> dials w + 1 \<and> taken w' \<le> taken w + 1)"

lemma attempts_within: "runs (oci_attempts (traced ans) ctx cfg req timeout n k backoff lastErr) w (sent_within n w)"
proof (induction n arbitrary: w k backoff lastErr)
  case (Suc n)
  have again: "runs (oci_attempts (traced ans) ctx cfg req timeout n k' backoff' err) w2 (sent_within (Suc n) w)"
    if "adds 1 1 1 w (Inl err :: bytes + unit) w2" "isOCIAuthFailure err" for w2 err k' backoff'
    by (rule runs_mono [OF Suc.IH]) (use that in \<open>auto simp: adds_def sent_within_def\<close>)
  have one: "sent_within (Suc n) w r w2" if "adds 1 1 1 w r w2" for r :: "bytes + unit" and w2
    using that by (auto simp: adds_def sent_within_def split: sum.splits)
  have send: "runs (sendOCIEmailSMTP (traced ans) ctx cfg req timeout) w1 (adds 1 1 1 w)"
    if "w1 = w \<or> w1 = (Waited backoff, None) # w" for w1
    by (rule runs_mono [OF send_adds]) (use that in \<open>auto simp: adds_def split: sum.splits\<close>)
  have stop: "sent_within (Suc n) w (Inl err :: bytes + unit) ((Waited backoff, None) # w)" for err
    by (simp add: sent_within_def)
  show ?case
    by (auto simp: run_simps stop simp del: One_nat_def split: option.split sum.split intro!: runs_mono [OF send] one again)
qed (simp add: run_simps sent_within_def)

text \<open>
  Sending returns; it dials at most three times, the server takes the message at most three times, and at
  least once when success is reported. Unless some answer contained the digits 535, there is one attempt.
\<close>

theorem oci_sends:
  "\<exists>r log. oci_Send parseDuration (traced ans) ctx cfg req [] = Done (r, log) \<and> dials log \<le> 3 \<and> taken log \<le> 3
     \<and> (r = Inr () \<longrightarrow> 1 \<le> taken log) \<and> (\<not> auth_failures log \<longrightarrow> dials log \<le> 1 \<and> taken log \<le> 1)"
  using attempts_within [of ans ctx cfg req "ociemailTimeout parseDuration cfg" 3 0 "200 * 10 ^ 6" "[]" "[]"]
  unfolding oci_Send_def runs_def sent_within_def by auto

subsection \<open>A failing QUIT\<close>

definition quit_fails :: "bytes \<Rightarrow> smtp_log \<Rightarrow> smtp_event \<Rightarrow> bytes option" where
  "quit_fails err log ev = (if ev = QuitCmd then Some err else None)"

lemma quit_answers [simp]: "quit_fails err log QuitCmd = Some err" "ev \<noteq> QuitCmd \<Longrightarrow> quit_fails err log ev = None"
  by (simp_all add: quit_fails_def)

lemma rcpts_quit: "runs (oci_rcpts (traced (quit_fails err)) tos) w (\<lambda>r w'. r = Inr () \<and> taken w' = taken w)"
proof (induction tos arbitrary: w)
  case (Cons to tos)
  show ?case by (auto simp: run_simps intro!: runs_mono [OF Cons.IH])
qed (simp add: run_simps)

lemma send_quit:
  "runs (sendOCIEmailSMTP (traced (quit_fails err)) ctx cfg req timeout) w (\<lambda>r w'. r = Inl err \<and> taken w' = taken w + 1)"
proof -
  have c: "runs (oci_connect (traced (quit_fails err)) ctx cfg host timeout) w (\<lambda>r w'. r = Inr () \<and> taken w' = taken w)" for host w
    by (simp add: oci_connect_def run_simps)
  have t: "runs (oci_transaction (traced (quit_fails err)) cfg req) w (\<lambda>r w'. r = Inl err \<and> taken w' = taken w + 1)" for w
    by (auto simp: oci_transaction_def run_simps intro!: runs_mono [OF rcpts_quit])
  show ?thesis
    by (auto simp: sendOCIEmailSMTP_def run_simps intro!: runs_mono [OF c] runs_mono [OF t])
qed

text \<open>
  When the server takes the message and only its answer to QUIT is an error, sending reports that error
  although the message is delivered. If the text of the error contains 535 the message is sent again,
  three times in all.
\<close>

theorem quit_error_resends:
  "\<exists>log. oci_Send parseDuration (traced (quit_fails err)) ctx cfg req [] = Done (Inl err, log)
     \<and> taken log = (if isOCIAuthFailure err then 3 else 1)"
proof -
  note send = runs_mono [OF send_quit [of err]]
  have "runs (oci_attempts (traced (quit_fails err)) ctx cfg req timeout 3 0 b []) []
      (\<lambda>r log. r = Inl err \<and> taken log = (if isOCIAuthFailure err then 3 else 1))" for timeout b
    unfolding numeral_3_eq_3 by (auto simp: run_simps intro!: send)
  then show ?thesis unfolding oci_Send_def runs_def by blast
qed

subsection \<open>Runs\<close>

definition demo_oci :: ociemailConfig where
  "demo_oci = \<lparr>oc_Host = ''h'', oc_Region = [], oc_Port = 587, oc_Username = ''u'', oc_Password = ''p'', oc_Timeout = [],
     oc_FailHard = True, oc_SourceTmpl = ''a@x.org'', oc_ToTmpl = ''b@y.org'', oc_IncludeDeliveryHeader = False, oc_MaxBytes = 100\<rparr>"

definition demo_log :: smtp_log where
  "demo_log = map (\<lambda>ev. (ev, None)) [CloseConn, QuitCmd, DataClose, WriteData ''x'', DataCmd, RcptCmd ''b@y.org'', MailCmd ''a@x.org'',
     Auth ''u'' ''p'' ''h'', StartTLS ''h'', Hello ''h'', Dial ''h'' 587]"

theorem oci_sends_witness:
  "oci_Send (\<lambda>_. Inr 0) (traced (\<lambda>_ _. None)) None demo_oci \<lparr>rq_Host = ''h'', rq_From = ''a@x.org'', rq_To = [''b@y.org''], rq_Raw = ''x''\<rparr> []
     = Done (Inr (), demo_log) \<and> dials demo_log \<le> 1 \<and> 1 \<le> taken demo_log \<and> taken demo_log \<le> 1"
proof -
  let ?req = "\<lparr>rq_Host = ''h'', rq_From = ''a@x.org'', rq_To = [''b@y.org''], rq_Raw = ''x''\<rparr>"
  have run: "oci_Send (\<lambda>_. Inr 0) (traced (\<lambda>_ _. None)) None demo_oci ?req [] = Done (Inr (), demo_log)"
    by code_simp
  have "\<not> auth_failures demo_log" by (simp add: demo_log_def)
  then show ?thesis
    using oci_sends [of "\<lambda>_. Inr 0" "\<lambda>_ _. None" None demo_oci ?req] run by auto
qed

definition demo_ses :: tenantSendConfig where
  "demo_ses = \<lparr>TenantID = ''a'', Provider = ''ses'', SES = Some \<lparr>ses_Region = ''eu'', ses_AccessKeyID = ''K'', ses_SecretAccessKey = ''S:1''\<rparr>,
     OCIEmail = None\<rparr>"

definition demo_out :: envelope where
  "demo_out = (NewEnvelope [] [])\<lparr>eHeader := Some [], eData := ''x'', eValues := [(envelopeTenantSendKey, VTenantSend demo_ses)]\<rparr>"

definition demo_ses_config :: sesConfig where
  "demo_ses_config = \<lparr>ss_Region = [], ss_Timeout = [], ss_FailHard = True, ss_SourceTmpl = ''help@x.org'', ss_ToTmpl = ''b@y.org'',
     ss_IncludeDeliveryHeader = False, ss_MaxBytes = 100, ss_AccessKeyID = [], ss_SecretAccessKey = []\<rparr>"

definition demo_senders :: "sent list senders" where
  "demo_senders = \<lparr>sn_ses = [], sn_oci = [], sn_world = []\<rparr>"

definition accept_mail :: "'w mproc" where
  "accept_mail e task w = Done ((Some ResOK, None), e, w)"

definition demo_ses_client :: sesClient where
  "demo_ses_client = \<lparr>cl_Region = ''eu'', cl_Creds = Some (''K'', ''S:1''), cl_Timeout = 10 * 10 ^ 9\<rparr>"

definition demo_sent :: "sent list senders" where
  "demo_sent = \<lparr>sn_ses = [(''a:ses:eu:K:S:1'', demo_ses_client)], sn_oci = [],
     sn_world = [(demo_ses_client, ''help@x.org'', [''b@y.org''], ''x'')]\<rparr>"

lemma demo_ses_run:
  "ses_process (\<lambda>_. None) (\<lambda>_. ([], None)) (\<lambda>_. Inr 0) id (\<lambda>_. None) (noting (\<lambda>_. Inr ())) (Some (None, demo_ses_config)) True
      accept_mail demo_out TaskSaveMail demo_senders = Done ((Some ResOK, None), demo_out, demo_sent)"
proof -
  obtain vars where vars: "makeSESVars (\<lambda>_. None) (\<lambda>_. ([], None)) demo_out = Done (vars, demo_out)"
    by (simp add: makeSESVars_def parse_once_def demo_out_def)
  have t: "GetEnvelopeTenantSend (Some demo_out) = Some demo_ses" "tenant_error ''SES'' ''ses'' True (Some demo_ses) = None"
    "trim_space ''help@x.org'' = ''help@x.org''" "splitAddresses ''b@y.org'' = [''b@y.org'']" "timeout_or (\<lambda>_. Inr 0) 0 [] = 0"
    "buildRawMessage demo_out False = ''x''" by code_simp+
  have tmpl: "applySESTemplate vars ''help@x.org'' = ''help@x.org''" "applySESTemplate vars ''b@y.org'' = ''b@y.org''"
    by (simp_all add: applySESTemplate.simps match_var_def)
  have send: "SendViaTenantSES (\<lambda>_. Inr 0) id (\<lambda>_. None) (noting (\<lambda>_. Inr ())) None (Some demo_ses) [] ''help@x.org'' [''b@y.org''] ''x''
      demo_senders = Done (Inr (), demo_sent)" by code_simp
  show ?thesis
    by (simp add: ses_process_def vars t tmpl demo_addresses send demo_ses_config_def accept_mail_def Let_def)
qed


end
