(* ===== verification/Hosts.thy ===== *)
theory Hosts
  imports Envelope
begin

section \<open>Allowed hosts (server.go)\<close>

text \<open>
  The table of hosts the server takes mail for. \<open>match_pattern\<close> is \<open>filepath.Match\<close> on
  ASCII text, translated with its helpers: \<open>None\<close> is a malformed pattern. The table is the list
  of its keys, without repetition.
\<close>

subsection \<open>filepath.Match\<close>

abbreviation BSL :: char where "BSL \<equiv> CHR 0x5C"

fun strip_stars :: "bytes \<Rightarrow> bool \<times> bytes" where
  "strip_stars (c # cs) = (if c = CHR ''*'' then (True, snd (strip_stars cs)) else (False, c # cs))"
| "strip_stars [] = (False, [])"

fun scan :: "bool \<Rightarrow> bytes \<Rightarrow> bytes \<times> bytes" where
  "scan inrange [] = ([], [])"
| "scan inrange [c] =
     (if c = CHR ''*'' \<and> \<not> inrange then ([], [c]) else ([c], []))"
| "scan inrange (c # d # cs) =
     (if c = BSL then (case scan inrange cs of (a, b) \<Rightarrow> (c # d # a, b))
      else if c = CHR ''*'' \<and> \<not> inrange then ([], c # d # cs)
      else (case scan (if c = CHR ''['' then True else if c = CHR '']'' then False else inrange) (d # cs)
            of (a, b) \<Rightarrow> (c # a, b)))"

definition scanChunk :: "bytes \<Rightarrow> bool \<times> bytes \<times> bytes" where
  "scanChunk pattern = (case strip_stars pattern of (star, p) \<Rightarrow> (star, scan False p))"

definition getEsc :: "bytes \<Rightarrow> (char \<times> bytes) option" where
  "getEsc chunk =
     (if chunk = [] \<or> hd chunk = CHR ''-'' \<or> hd chunk = CHR '']'' then None
      else (let chunk = (if hd chunk = BSL then tl chunk else chunk)
            in if chunk = [] \<or> tl chunk = [] then None else Some (hd chunk, tl chunk)))"

lemma getEsc_shorter: "getEsc chunk = Some (c, r) \<Longrightarrow> length r < length chunk \<and> r \<noteq> []"
  by (cases chunk) (auto simp: getEsc_def Let_def split: if_splits)

text \<open>The ranges of a class: whether \<open>r\<close> is in one of them, and the chunk after the bracket.\<close>

function class_loop :: "char \<Rightarrow> bytes \<Rightarrow> nat \<Rightarrow> bool \<Rightarrow> (bool \<times> bytes) option" where
  "class_loop r chunk nrange matched =
     (if chunk \<noteq> [] \<and> hd chunk = CHR '']'' \<and> nrange > 0 then Some (matched, tl chunk)
      else (case getEsc chunk of
              None \<Rightarrow> None
            | Some (lo, chunk) \<Rightarrow>
                if hd chunk = CHR ''-'' then
                  (case getEsc (tl chunk) of
                     None \<Rightarrow> None
                   | Some (hi, chunk) \<Rightarrow> class_loop r chunk (nrange + 1) (matched \<or> (lo \<le> r \<and> r \<le> hi)))
                else class_loop r chunk (nrange + 1) (matched \<or> (lo \<le> r \<and> r \<le> lo))))"
  by pat_completeness auto
termination class_loop
  by (relation "measure (\<lambda>(r, chunk, n, m). length chunk)") (auto dest!: getEsc_shorter)

declare class_loop.simps [simp del]

lemma class_loop_shorter: "class_loop r chunk n m = Some (b, q) \<Longrightarrow> length q < length chunk"
proof (induction r chunk n m rule: class_loop.induct)
  case (1 r chunk n m)
  show ?case
  proof (cases "chunk \<noteq> [] \<and> hd chunk = CHR '']'' \<and> n > 0")
    case True
    with "1.prems" show ?thesis by (subst (asm) class_loop.simps) auto
  next
    case False
    with "1.prems" obtain lo c1 where c1: "getEsc chunk = Some (lo, c1)"
      by (subst (asm) class_loop.simps) (auto split: option.splits)
    note l1 = getEsc_shorter [OF c1]
    show ?thesis
    proof (cases "hd c1 = CHR ''-''")
      case True
      with "1.prems" False c1 obtain hi c2 where c2: "getEsc (tl c1) = Some (hi, c2)"
        and r: "class_loop r c2 (n + 1) (m \<or> (lo \<le> r \<and> r \<le> hi)) = Some (b, q)"
        by (subst (asm) class_loop.simps) (auto split: option.splits)
      from "1.IH"(1) [OF False c1 refl True c2 refl r] l1 getEsc_shorter [OF c2] show ?thesis by auto
    next
      case False2: False
      with "1.prems" False c1 have r: "class_loop r c1 (n + 1) (m \<or> (lo \<le> r \<and> r \<le> lo)) = Some (b, q)"
        by (subst (asm) class_loop.simps) auto
      from "1.IH"(2) [OF False c1 refl False2 r] l1 show ?thesis by simp
    qed
  qed
qed

text \<open>\<open>Some (Some rest)\<close> is a match, \<open>Some None\<close> no match, \<open>None\<close> a bad pattern.\<close>

function matchChunk :: "bool \<Rightarrow> bytes \<Rightarrow> bytes \<Rightarrow> bytes option option" where
  "matchChunk failed [] s = (if failed then Some None else Some (Some s))"
| "matchChunk failed (c # chunk) s =
     (let failed = (failed \<or> s = [])
      in if c = CHR ''['' then
           (let r = (if failed then NUL else hd s); s = (if failed then s else tl s);
                negated = (chunk \<noteq> [] \<and> hd chunk = CHR ''^'');
                chunk = (if negated then tl chunk else chunk)
            in case class_loop r chunk 0 False of
                 None \<Rightarrow> None
               | Some (matched, chunk) \<Rightarrow> matchChunk (failed \<or> matched = negated) chunk s)
         else if c = CHR ''?'' then
           matchChunk (failed \<or> hd s = CHR ''/'') chunk (if failed then s else tl s)
         else if c = BSL then
           (if chunk = [] then None
            else matchChunk (failed \<or> hd chunk \<noteq> hd s) (tl chunk) (if failed then s else tl s))
         else matchChunk (failed \<or> c \<noteq> hd s) chunk (if failed then s else tl s))"
  by pat_completeness auto
termination matchChunk
proof (relation "measure (\<lambda>(f, chunk, s). length chunk)", goal_cases)
  case (2 failed c chunk s failed1 r s1 negated chunk1 p matched chunk2)
  then have "class_loop r chunk1 0 False = Some (matched, chunk2)" by simp
  then have "length chunk2 < length chunk1" by (rule class_loop_shorter)
  moreover have "length chunk1 \<le> length chunk" using 2 by simp
  ultimately show ?case by simp
qed auto

declare matchChunk.simps(2) [simp del]

text \<open>The search of a starred chunk at the later positions of the name.\<close>

fun star_search :: "bytes \<Rightarrow> bool \<Rightarrow> bytes \<Rightarrow> bytes option option" where
  "star_search chunk final [] = Some None"
| "star_search chunk final (c # name) =
     (if c = CHR ''/'' then Some None
      else (case matchChunk False chunk name of
              None \<Rightarrow> None
            | Some (Some t) \<Rightarrow> if final \<and> t \<noteq> [] then star_search chunk final name else Some (Some t)
            | Some None \<Rightarrow> star_search chunk final name))"

lemma strip_stars_length: "length (snd (strip_stars p)) + (if fst (strip_stars p) then 1 else 0) \<le> length p"
  by (induction p rule: strip_stars.induct) (auto split: if_splits)

lemma strip_stars_hd: "snd (strip_stars p) \<noteq> [] \<Longrightarrow> hd (snd (strip_stars p)) \<noteq> CHR ''*''"
  by (induction p rule: strip_stars.induct) auto

lemma scan_length: "length (snd (scan b p)) \<le> length p"
  by (induction b p rule: scan.induct) (auto split: prod.splits)

lemma scan_first:
  assumes "p \<noteq> []" and "hd p \<noteq> CHR ''*''"
  shows "length (snd (scan False p)) < length p"
proof -
  have le: "scan b xs = (u, v) \<Longrightarrow> length v \<le> length xs" for b xs u v
    using scan_length [of b xs] by simp
  show ?thesis using assms
    by (cases "(False, p)" rule: scan.cases) (auto split: prod.splits dest!: le)
qed

lemma scanChunk_shorter: "scanChunk p = (star, chunk, q) \<Longrightarrow> p \<noteq> [] \<Longrightarrow> length q < length p"
proof -
  assume h: "scanChunk p = (star, chunk, q)" and p: "p \<noteq> []"
  obtain b t where t: "strip_stars p = (b, t)" by fastforce
  have q: "q = snd (scan False t)" using h t by (auto simp: scanChunk_def)
  have len: "length t + (if b then 1 else 0) \<le> length p" using strip_stars_length [of p] t by simp
  show ?thesis
  proof (cases t)
    case Nil
    with q p show ?thesis by simp
  next
    case (Cons c u)
    then have "length q < length t" using scan_first [of t] strip_stars_hd [of p] t q by simp
    with len show ?thesis by simp
  qed
qed

function match_pattern :: "bytes \<Rightarrow> bytes \<Rightarrow> bool option" where
  "match_pattern pattern name =
     (if pattern = [] then Some (name = [])
      else (case scanChunk pattern of (star, chunk, pattern) \<Rightarrow>
              if star \<and> chunk = [] then Some (CHR ''/'' \<notin> set name)
              else (case matchChunk False chunk name of
                      None \<Rightarrow> None
                    | Some m \<Rightarrow>
                        (case m of
                           Some t \<Rightarrow>
                             if t = [] \<or> pattern \<noteq> [] then match_pattern pattern t
                             else if star then
                               (case star_search chunk True name of
                                  None \<Rightarrow> None
                                | Some None \<Rightarrow> Some False
                                | Some (Some t) \<Rightarrow> match_pattern pattern t)
                             else Some False
                         | None \<Rightarrow>
                             if star then
                               (case star_search chunk (pattern = []) name of
                                  None \<Rightarrow> None
                                | Some None \<Rightarrow> Some False
                                | Some (Some t) \<Rightarrow> match_pattern pattern t)
                             else Some False))))"
  by pat_completeness auto
termination match_pattern
  by (relation "measure (\<lambda>(p, n). length p)") (auto dest: scanChunk_shorter [OF sym])

declare match_pattern.simps [simp del]

subsection \<open>The table\<close>

record allowedHosts =
  table :: "bytes list"
  wildcards :: "bytes list"

definition add_host :: "allowedHosts \<Rightarrow> bytes \<Rightarrow> allowedHosts" where
  "add_host hs h =
     (if contains h ''*'' then hs\<lparr>wildcards := wildcards hs @ [to_lower h]\<rparr>
      else if length h > 5 \<and> hd h = CHR ''['' \<and> last h = CHR '']'' then
        (case parseIP (butlast (tl h)) of
           Some i \<Rightarrow> hs\<lparr>table := List.insert (''['' @ ip_String i @ '']'') (table hs)\<rparr>
         | None \<Rightarrow> hs)
      else hs\<lparr>table := List.insert (to_lower h) (table hs)\<rparr>)"

definition setAllowedHosts :: "bytes list \<Rightarrow> allowedHosts" where
  "setAllowedHosts hosts = foldl add_host \<lparr>table = [], wildcards = []\<rparr> hosts"

definition allowsHost :: "allowedHosts \<Rightarrow> bytes \<Rightarrow> bool" where
  "allowsHost hs host \<longleftrightarrow>
     (length (table hs) = 1 \<and> ''.'' \<in> set (table hs))
     \<or> to_lower host \<in> set (table hs)
     \<or> list_ex (\<lambda>w. match_pattern w (to_lower host) = Some True) (wildcards hs)"

definition allowsIp :: "allowedHosts \<Rightarrow> ip \<Rightarrow> bool" where
  "allowsIp hs i = allowsHost hs (''['' @ ip_String i @ '']'')"

text \<open>\<open>defaultHost\<close>: the warning it may log is left out.\<close>

definition defaultHost :: "bytes \<Rightarrow> address \<Rightarrow> address" where
  "defaultHost hostname a = (if Host a = [] \<and> IsPostmaster a then a\<lparr>Host := hostname\<rparr> else a)"

subsection \<open>Literal patterns\<close>

definition literal :: "bytes \<Rightarrow> bool" where
  "literal p \<longleftrightarrow> (\<forall>c \<in> set p. c \<notin> {CHR ''*'', CHR ''?'', CHR ''['', CHR '']'', BSL})"

lemma literal_Cons: "literal (c # p) \<longleftrightarrow> c \<notin> {CHR ''*'', CHR ''?'', CHR ''['', CHR '']'', BSL} \<and> literal p"
  by (auto simp: literal_def)

lemma scan_literal: "literal p \<Longrightarrow> scan False p = (p, [])"
  by (induction False p rule: scan.induct) (auto simp: literal_Cons)

lemma matchChunk_failed: "literal p \<Longrightarrow> matchChunk True p s = Some None"
  by (induction p arbitrary: s) (auto simp: literal_Cons matchChunk.simps Let_def)

lemma matchChunk_literal:
  "literal p \<Longrightarrow> matchChunk False p s = Some (if prefix p s then Some (drop (length p) s) else None)"
proof (induction p arbitrary: s)
  case (Cons c p)
  show ?case
  proof (cases s)
    case Nil
    with Cons show ?thesis by (auto simp: literal_Cons matchChunk.simps Let_def matchChunk_failed)
  next
    case (Cons a t)
    with \<open>literal (c # p)\<close> Cons.IH [of t] Cons.prems show ?thesis
      by (cases "c = a") (auto simp: literal_Cons matchChunk.simps Let_def matchChunk_failed)
  qed
qed simp

lemma star_search_literal:
  "literal p \<Longrightarrow> p \<noteq> [] \<Longrightarrow> star_search p True name
     = Some (if \<exists>pre. pre \<noteq> [] \<and> name = pre @ p \<and> CHR ''/'' \<notin> set pre then Some [] else None)"
proof (induction name)
  case (Cons c name)
  have step: "(\<exists>pre. pre \<noteq> [] \<and> c # name = pre @ p \<and> CHR ''/'' \<notin> set pre) \<longleftrightarrow>
      c \<noteq> CHR ''/'' \<and> (name = p \<or> (\<exists>pre. pre \<noteq> [] \<and> name = pre @ p \<and> CHR ''/'' \<notin> set pre))"
    (is "?l \<longleftrightarrow> ?r")
  proof
    assume ?l
    then obtain pre where "pre \<noteq> []" "c # name = pre @ p" "CHR ''/'' \<notin> set pre" by blast
    then show ?r by (cases pre) auto
  next
    assume ?r
    then obtain pre where "c \<noteq> CHR ''/''" "name = pre @ p" "CHR ''/'' \<notin> set pre" by fastforce
    then show ?l by (intro exI [of _ "c # pre"]) auto
  qed
  have eq: "prefix p name \<and> drop (length p) name = [] \<longleftrightarrow> name = p" by (auto simp: prefix_def)
  have no: "name = p \<Longrightarrow> prefix p name" by simp
  show ?case
    unfolding step star_search.simps matchChunk_literal [OF Cons.prems(1)] Cons.IH [OF Cons.prems]
    using eq by auto
qed auto

lemma match_suffix:
  assumes "literal p" and "p \<noteq> []"
  shows "match_pattern (CHR ''*'' # p) name = Some (\<exists>pre. name = pre @ p \<and> CHR ''/'' \<notin> set pre)"
proof -
  have hd: "hd p \<noteq> CHR ''*''" using assms by (cases p) (auto simp: literal_Cons)
  then have "strip_stars p = (False, p)" using assms(2) by (cases p) auto
  then have sc: "scanChunk (CHR ''*'' # p) = (True, p, [])"
    using scan_literal [OF assms(1)] by (simp add: scanChunk_def)
  have ex: "(\<exists>pre. name = pre @ p \<and> CHR ''/'' \<notin> set pre) \<longleftrightarrow>
      name = p \<or> (\<exists>pre. pre \<noteq> [] \<and> name = pre @ p \<and> CHR ''/'' \<notin> set pre)"
    by (metis append_Nil empty_iff empty_set)
  have e: "match_pattern [] t = Some (t = [])" for t by (subst match_pattern.simps) simp
  show ?thesis unfolding ex
    by (subst match_pattern.simps)
      (auto simp: sc e assms matchChunk_literal star_search_literal prefix_def)
qed

subsection \<open>What the configured list means\<close>

definition ip_entry :: "bytes \<Rightarrow> bool" where
  "ip_entry h \<longleftrightarrow> length h > 5 \<and> hd h = CHR ''['' \<and> last h = CHR '']''"

text \<open>The key that one entry of the list puts into the table, if it puts one.\<close>

definition entry_key :: "bytes \<Rightarrow> bytes option" where
  "entry_key h =
     (if CHR ''*'' \<in> set h then None
      else if ip_entry h then map_option (\<lambda>i. ''['' @ ip_String i @ '']'') (parseIP (butlast (tl h)))
      else Some (to_lower h))"

definition entry_matches :: "bytes \<Rightarrow> bytes \<Rightarrow> bool" where
  "entry_matches h host \<longleftrightarrow>
     (if CHR ''*'' \<in> set h then match_pattern (to_lower h) (to_lower host) = Some True
      else entry_key h = Some (to_lower host))"

lemma contains_one: "contains h [c] \<longleftrightarrow> c \<in> set h"
proof -
  have "sublist [c] h \<longleftrightarrow> c \<in> set h"
    by (auto simp: sublist_def in_set_conv_decomp)
  then show ?thesis using index_of_None_iff [of "[c]" h] by (auto simp: contains_def)
qed

lemma add_host_table: "set (table (add_host hs h)) = set (table hs) \<union> set_option (entry_key h)"
  by (auto simp: add_host_def entry_key_def ip_entry_def contains_one split: option.splits)

lemma add_host_distinct: "distinct (table hs) \<Longrightarrow> distinct (table (add_host hs h))"
  by (auto simp: add_host_def split: option.splits)

lemma add_host_wild:
  "set (wildcards (add_host hs h)) = set (wildcards hs) \<union> (if CHR ''*'' \<in> set h then {to_lower h} else {})"
  by (auto simp: add_host_def contains_one split: option.splits)

lemma setAllowedHosts_sets:
  "set (table (foldl add_host hs l)) = set (table hs) \<union> (\<Union>h \<in> set l. set_option (entry_key h)) \<and>
   (distinct (table hs) \<longrightarrow> distinct (table (foldl add_host hs l))) \<and>
   set (wildcards (foldl add_host hs l))
     = set (wildcards hs) \<union> (\<Union>h \<in> set l. if CHR ''*'' \<in> set h then {to_lower h} else {})"
proof (induction l arbitrary: hs)
  case (Cons h l)
  show ?case using Cons [of "add_host hs h"] add_host_distinct [of hs h]
    by (simp only: foldl_Cons add_host_table add_host_wild set_simps UN_insert Un_assoc) blast
qed auto

lemma table_single: "distinct t \<Longrightarrow> length t = 1 \<and> x \<in> set t \<longleftrightarrow> set t = {x}"
proof
  assume d: "distinct t"
  assume "length t = 1 \<and> x \<in> set t"
  then show "set t = {x}" by (cases t) auto
next
  assume d: "distinct t" and s: "set t = {x}"
  have "length t = card (set t)" using d by (rule distinct_card [symmetric])
  also have "\<dots> = 1" using s by simp
  finally show "length t = 1 \<and> x \<in> set t" using s by simp
qed

lemma allowsHost_list:
  "allowsHost (setAllowedHosts l) host \<longleftrightarrow>
     (\<Union>h \<in> set l. set_option (entry_key h)) = {''.''} \<or> (\<exists>h \<in> set l. entry_matches h host)"
proof -
  let ?hs = "setAllowedHosts l"
  let ?T = "\<Union>h \<in> set l. set_option (entry_key h)"
  have t: "set (table ?hs) = ?T" and d: "distinct (table ?hs)"
    and w: "set (wildcards ?hs) = (\<Union>h \<in> set l. if CHR ''*'' \<in> set h then {to_lower h} else {})"
    using setAllowedHosts_sets [of "\<lparr>table = [], wildcards = []\<rparr>" l] by (simp_all add: setAllowedHosts_def)
  have single: "length (table ?hs) = 1 \<and> ''.'' \<in> set (table ?hs) \<longleftrightarrow> ?T = {''.''}"
    using table_single [OF d, of "''.''"] t by simp
  have tab: "to_lower host \<in> set (table ?hs) \<longleftrightarrow> (\<exists>h \<in> set l. CHR ''*'' \<notin> set h \<and> entry_key h = Some (to_lower host))"
    unfolding t by (auto simp: entry_key_def split: if_splits)
  have wild: "list_ex (\<lambda>w. match_pattern w (to_lower host) = Some True) (wildcards ?hs) \<longleftrightarrow>
      (\<exists>h \<in> set l. CHR ''*'' \<in> set h \<and> match_pattern (to_lower h) (to_lower host) = Some True)"
    unfolding list_ex_iff w by (auto split: if_splits)
  have ent: "(\<exists>h \<in> set l. entry_matches h host) \<longleftrightarrow>
      (\<exists>h \<in> set l. CHR ''*'' \<notin> set h \<and> entry_key h = Some (to_lower host))
      \<or> (\<exists>h \<in> set l. CHR ''*'' \<in> set h \<and> match_pattern (to_lower h) (to_lower host) = Some True)"
    unfolding entry_matches_def by meson
  show ?thesis unfolding allowsHost_def single tab wild ent by blast
qed

lemma lower_byte_literal:
  "lower_byte c \<in> {CHR ''*'', CHR ''?'', CHR ''['', CHR '']'', BSL} \<longleftrightarrow>
   c \<in> {CHR ''*'', CHR ''?'', CHR ''['', CHR '']'', BSL}"
proof (cases "CHR ''A'' \<le> c \<and> c \<le> CHR ''Z''")
  case True
  then have b: "65 \<le> (of_char c :: nat)" "(of_char c :: nat) \<le> 90" by (auto simp: less_eq_char_def)
  then have "(of_char (lower_byte c) :: nat) = of_char c + 32" using True by (simp add: lower_byte_def)
  with b have "97 \<le> (of_char (lower_byte c) :: nat)" "(of_char (lower_byte c) :: nat) \<le> 122" by simp_all
  then have "lower_byte c \<notin> {CHR ''*'', CHR ''?'', CHR ''['', CHR '']'', BSL}" by auto
  moreover have "c \<notin> {CHR ''*'', CHR ''?'', CHR ''['', CHR '']'', BSL}" using b by auto
  ultimately show ?thesis by blast
next
  case False
  then have "lower_byte c = c" unfolding lower_byte_def by (rule if_not_P)
  then show ?thesis by simp
qed

lemma literal_lower: "literal p \<Longrightarrow> literal (to_lower p)"
  unfolding literal_def to_lower_def set_map ball_simps using lower_byte_literal by blast

subsection \<open>Properties\<close>

text \<open>
  C31: the relay table means what the configured list says. Whatever the order and the repetitions
  of the entries, a host is allowed exactly when some entry matches it (a plain name in any letter
  case, an address literal in any spelling of the address, a wildcard by its pattern), or when the
  only table entry is the dot that turns the check off.
\<close>

theorem allowed_hosts_spec:
  "allowsHost (setAllowedHosts l) host \<longleftrightarrow>
     (\<Union>h \<in> set l. set_option (entry_key h)) = {''.''} \<or> (\<exists>h \<in> set l. entry_matches h host)"
  by (rule allowsHost_list)

text \<open>
  A leading wildcard allows exactly the hosts with that suffix. The entry \<open>*p\<close>, with \<open>p\<close>
  free of pattern characters, allows a host if and only if it is some text without a slash followed
  by \<open>p\<close>, letter case ignored.
\<close>

theorem wildcard_suffix:
  assumes "literal p" and "p \<noteq> []"
  shows "allowsHost (setAllowedHosts [CHR ''*'' # p]) host \<longleftrightarrow>
    (\<exists>pre. to_lower host = pre @ to_lower p \<and> CHR ''/'' \<notin> set pre)"
proof -
  have "to_lower (CHR ''*'' # p) = CHR ''*'' # to_lower p"
    by (simp add: to_lower_def lower_byte_def less_eq_char_def)
  moreover have "to_lower p \<noteq> []" using assms(2) by (simp add: to_lower_def)
  ultimately show ?thesis
    using match_suffix [OF literal_lower [OF assms(1)]]
    by (simp add: allowsHost_list entry_matches_def entry_key_def)
qed

theorem wildcard_suffix_witness: "allowsHost (setAllowedHosts [''*.example.com'']) ''MX.Example.com''"
proof -
  have "to_lower ''MX.Example.com'' = ''mx'' @ to_lower ''.example.com''" by code_simp
  then show ?thesis
    using wildcard_suffix [of "''.example.com''" "''MX.Example.com''"] by (auto simp: literal_def)
qed

end
