(* ===== verification/Session.thy ===== *)
theory Session
  imports Hosts Backend
begin

section \<open>The SMTP session (client.go, server.go: handleClient)\<close>

text \<open>
  One SMTP exchange. \<open>client\<close> is the struct of client.go together with the local variable
  \<open>advertiseTLS\<close> of \<open>handleClient\<close>; \<open>env\<close> is what the session reads and never changes (the server
  configuration, the allowed hosts, the authenticator and the backend); \<open>world\<close> is the network
  and the backend as the session meets them: the results of the successive \<open>ReadSlice\<close> calls,
  of the reads of message data, of the TLS handshakes, of the writes to the connection and of the
  shutdown polls, the text written so far, the state of the backend, and as history the envelopes
  that were handed to \<open>Process\<close>, each with the client's \<open>Authed\<close> flag at that moment.

  A result of \<open>ReadSlice\<close> without error ends with the delimiter, so \<open>Slice s\<close> stands for the
  slice \<open>s\<close> followed by a line feed. When a list of results is used up, a read reports the end of
  the stream, a handshake fails, a write succeeds and the server is not shutting down. A command
  handler returns the client and the world, or panics; logging is left out.
\<close>

subsection \<open>Limits and commands\<close>

abbreviation CommandVerbMaxLength :: nat where "CommandVerbMaxLength \<equiv> 16"

abbreviation CommandLineMaxLength :: nat where "CommandLineMaxLength \<equiv> 1024"

abbreviation MaxUnrecognizedCommands :: nat where "MaxUnrecognizedCommands \<equiv> 5"

abbreviation writerSize :: nat where "writerSize \<equiv> 4096"

definition CRLF :: bytes where
  "CRLF = [CHR 0x0D, CHR 0x0A]"

definition cmd_match :: "bytes \<Rightarrow> bytes \<Rightarrow> bool" where
  "cmd_match c inp = (index_of c inp = Some 0)"

datatype rerr = EOF | Timeout bytes | LineLimitExceeded | MessageSizeExceeded | ReadErr bytes

fun rerr_Error :: "rerr \<Rightarrow> bytes" where
  "rerr_Error EOF = ''EOF''"
| "rerr_Error (Timeout t) = t"
| "rerr_Error LineLimitExceeded = ''maximum line length exceeded''"
| "rerr_Error MessageSizeExceeded = ''maximum message size exceeded''"
| "rerr_Error (ReadErr t) = t"

datatype slice_result = Slice bytes | SliceErr bytes rerr

subsection \<open>State\<close>

datatype clientState = ClientGreeting | ClientCmd | ClientData | ClientStartTLS | ClientShutdown

record client =
  Env :: envelope
  ClientID :: nat
  Killed :: bool
  Authed :: bool
  AuthUser :: bytes
  AuthTenant :: "tenantSendConfig option"
  errs :: nat
  cstate :: clientState
  messagesSent :: nat
  bufErr :: bool
  bufout :: bytes
  prs :: parser
  advertiseTLS :: bool

record serverConfig =
  Hostname :: bytes
  MaxSize :: int
  XClientOn :: bool
  StartTLSOn :: bool
  AlwaysOn :: bool

record 'b env =
  sc :: serverConfig
  hosts :: allowedHosts
  tlsLoaded :: bool
  version :: bytes
  activeClients :: nat
  now :: bytes
  authenticator :: "(bytes \<Rightarrow> bytes \<Rightarrow> bytes \<Rightarrow> envelope \<Rightarrow> 'b \<Rightarrow> (bytes + authResult) \<times> 'b) option"
  process :: "envelope \<Rightarrow> 'b \<Rightarrow> bytes \<times> envelope \<times> 'b"
  validateRcpt :: "envelope \<Rightarrow> 'b \<Rightarrow> bytes option \<times> envelope \<times> 'b"

record 'b world =
  reads :: "slice_result list"
  dataReads :: "(bytes \<times> rerr option) list"
  handshakes :: "bool list"
  writes :: "bool list"
  shutdowns :: "bool list"
  quotes :: "bytes list"
  sent :: bytes
  bstate :: 'b
  processed :: "(envelope \<times> bool) list"

fun pop :: "'a \<Rightarrow> 'a list \<Rightarrow> 'a \<times> 'a list" where
  "pop d [] = (d, [])"
| "pop d (x # xs) = (x, xs)"

subsection \<open>Responses\<close>

text \<open>\<open>bufio.Writer.WriteString\<close>: a full buffer is written out before the rest is buffered.\<close>

function write_string :: "bytes \<Rightarrow> client \<Rightarrow> 'b world \<Rightarrow> client \<times> 'b world" where
  "write_string s c w =
     (if length (bufout c) + length s \<le> writerSize then (c\<lparr>bufout := bufout c @ s\<rparr>, w)
      else (let k = writerSize - length (bufout c); b = bufout c @ take k s
            in case pop True (writes w) of (ok, ws) \<Rightarrow>
                 if ok then write_string (drop k s) (c\<lparr>bufout := []\<rparr>) (w\<lparr>writes := ws, sent := sent w @ b\<rparr>)
                 else (c\<lparr>bufout := b, bufErr := True\<rparr>, w\<lparr>writes := ws\<rparr>)))"
  by pat_completeness auto
termination write_string
  by (relation "measure (\<lambda>(s, c, w). length s + length (bufout c))") auto

declare write_string.simps [simp del]

fun send_items :: "bytes list \<Rightarrow> client \<Rightarrow> 'b world \<Rightarrow> client \<times> 'b world" where
  "send_items [] c w = write_string CRLF c w"
| "send_items (item # items) c w =
     (case write_string item c w of (c, w) \<Rightarrow> if bufErr c then (c, w) else send_items items c w)"

definition sendResponse :: "bytes list \<Rightarrow> client \<Rightarrow> 'b world \<Rightarrow> client \<times> 'b world" where
  "sendResponse items c w = send_items items (c\<lparr>bufout := [], bufErr := False\<rparr>) w"

definition flushResponse :: "client \<Rightarrow> 'b world \<Rightarrow> bool \<times> client \<times> 'b world" where
  "flushResponse c w =
     (case pop True (writes w) of (ok, ws) \<Rightarrow>
        if ok then (True, c\<lparr>bufout := []\<rparr>, w\<lparr>writes := ws, sent := sent w @ bufout c\<rparr>)
        else (False, c, w\<lparr>writes := ws\<rparr>))"

subsection \<open>The client\<close>

definition resetTransaction :: "client \<Rightarrow> client" where
  "resetTransaction c = c\<lparr>Env := ResetTransaction (Env c)\<rparr>"

definition isInTransaction :: "client \<Rightarrow> bool" where
  "isInTransaction c =
     (if length (User (eMailFrom (Env c))) = 0 \<and> \<not> AddrNullPath (eMailFrom (Env c)) then False else True)"

definition kill :: "client \<Rightarrow> client" where
  "kill c = c\<lparr>Killed := True\<rparr>"

definition isAlive :: "client \<Rightarrow> bool" where
  "isAlive c \<longleftrightarrow> \<not> Killed c"

definition NewClient :: "envelope \<Rightarrow> nat \<Rightarrow> client" where
  "NewClient e clientID = \<lparr>Env = e, ClientID = clientID, Killed = False, Authed = False, AuthUser = [],
     AuthTenant = None, errs = 0, cstate = ClientGreeting, messagesSent = 0, bufErr = False, bufout = [],
     prs = (NewParser [])\<lparr>pos := 0\<rparr>, advertiseTLS = True\<rparr>"

text \<open>
  \<open>init\<close> of a client taken from the pool. The zero value of the embedded parser has position 0,
  not the -1 of \<open>NewParser\<close>; the first command resets it.
\<close>

definition init_client :: "client \<Rightarrow> envelope \<Rightarrow> nat \<Rightarrow> client" where
  "init_client c e clientID = c\<lparr>bufout := [], cstate := ClientGreeting, Killed := False, ClientID := clientID,
     errs := 0, Authed := False, AuthUser := [], AuthTenant := None, Env := e\<rparr>"

text \<open>\<open>upgradeToTLS\<close>: whether the handshake succeeded, and the client after it.\<close>

definition upgradeToTLS :: "client \<Rightarrow> 'b world \<Rightarrow> bool \<times> client \<times> 'b world" where
  "upgradeToTLS c w =
     (case pop False (handshakes w) of (ok, hs) \<Rightarrow>
        (ok, if ok then c\<lparr>bufout := [], Env := (Env c)\<lparr>eTLS := True\<rparr>\<rparr> else c, w\<lparr>handshakes := hs\<rparr>))"

definition parsePath ::
    "client \<Rightarrow> bytes \<Rightarrow> (parser \<Rightarrow> bytes \<Rightarrow> (perror option \<times> parser) outcome) \<Rightarrow> (address \<times> bytes option \<times> client) outcome"
where
  "parsePath c inp p =
     (if length inp > LimitPath then Ret (empty_address, Some (resp_str FailPathTooLong), c)
      else bind_outcome (p (prs c) inp) (\<lambda>(err, ps).
        let c = c\<lparr>prs := ps\<rparr>
        in if err \<noteq> None then Ret (empty_address, Some (resp_str FailInvalidAddress), c)
           else if NullPath ps then Ret (empty_address, None, c)
           else if length (LocalPart ps) > LimitLocalPart
           then Ret (empty_address, Some (resp_str FailLocalPartTooLong), c)
           else if length (Domain ps) > LimitDomain
           then Ret (empty_address, Some (resp_str FailDomainTooLong), c)
           else Ret (\<lparr>User = LocalPart ps, Host = Domain ps, AddrADL = ADL ps, AddrPathParams = PathParams ps,
                      AddrNullPath = NullPath ps, Quoted = LocalPartQuotes ps, AddrIP = IP ps,
                      DisplayName = [], DisplayNameQuoted = False\<rparr>, None, c)))"

definition isShuttingDown :: "'b world \<Rightarrow> bool \<times> 'b world" where
  "isShuttingDown w = (case pop False (shutdowns w) of (b, ss) \<Rightarrow> (b, w\<lparr>shutdowns := ss\<rparr>))"

definition trim_line :: "bytes \<Rightarrow> bytes" where
  "trim_line s = (let bs = s @ [CHR 0x0A]
     in if has_suffix bs CRLF then take (length bs - 2) bs else take (length bs - 1) bs)"

definition readCommand :: "'b world \<Rightarrow> (bytes \<times> rerr option) \<times> 'b world" where
  "readCommand w =
     (case pop (SliceErr [] EOF) (reads w) of (r, rs) \<Rightarrow>
        (case r of Slice s \<Rightarrow> ((trim_line s, None), w\<lparr>reads := rs\<rparr>)
         | SliceErr bs err \<Rightarrow> ((bs, Some err), w\<lparr>reads := rs\<rparr>)))"

subsection \<open>Commands\<close>

text \<open>One definition per case of the command switch.\<close>

definition cmd_HELO :: "'b env \<Rightarrow> bytes \<Rightarrow> client \<Rightarrow> 'b world \<Rightarrow> (client \<times> 'b world) outcome" where
  "cmd_HELO en inp c w =
     bind_outcome (slice_from inp 4) (\<lambda>arg.
       case Helo (prs c) arg of (h, err, ps) \<Rightarrow>
         (let c = c\<lparr>prs := ps\<rparr>
          in if err = None then
               Ret (sendResponse [''250 '' @ Hostname (sc en) @ '' Hello'']
                      (resetTransaction (c\<lparr>Env := (Env c)\<lparr>eHelo := h\<rparr>\<rparr>)) w)
             else Ret (sendResponse [resp_str FailSyntaxError] c w)))"

definition ehlo_lines :: "'b env \<Rightarrow> client \<Rightarrow> bytes list" where
  "ehlo_lines en c =
     [''250-'' @ Hostname (sc en) @ '' Hello'',
      ''250-SIZE '' @ show_int (MaxSize (sc en)),
      ''250-PIPELINING'']
     @ (if advertiseTLS c then [''250-STARTTLS''] else [])
     @ [''250-ENHANCEDSTATUSCODES'']
     @ (if authenticator en \<noteq> None \<and> \<not> (StartTLSOn (sc en) \<and> \<not> eTLS (Env c)) then [''250-AUTH PLAIN LOGIN''] else [])
     @ [''250 HELP'']"

definition cmd_EHLO :: "'b env \<Rightarrow> bytes \<Rightarrow> client \<Rightarrow> 'b world \<Rightarrow> (client \<times> 'b world) outcome" where
  "cmd_EHLO en inp c w =
     bind_outcome (slice_from inp 4) (\<lambda>arg.
       case Ehlo (prs c) arg of (h, _, err, ps) \<Rightarrow>
         (let c = c\<lparr>prs := ps\<rparr>
          in if err = None then
               (let c = resetTransaction (c\<lparr>Env := (Env c)\<lparr>eHelo := h, eESMTP := True\<rparr>\<rparr>)
                in Ret (sendResponse [join CRLF (ehlo_lines en c)] c w))
             else (case sendResponse [resp_str FailSyntaxError] c w of
                     (c, w) \<Rightarrow> Ret (sendResponse [resp_str FailSyntaxError] c w))))"

text \<open>
  The exchanges of \<open>AUTH\<close>. A \<open>break\<close> inside the switch on the mechanism leaves only that
  switch, so every path goes on to the authenticator with the credentials gathered so far. The
  first function is the prompt, flush and read that both mechanisms share: \<open>None\<close> when it
  broke off.
\<close>

definition auth_prompt :: "bytes \<Rightarrow> client \<Rightarrow> 'b world \<Rightarrow> bytes option \<times> client \<times> 'b world" where
  "auth_prompt p c w =
     (case sendResponse [p] c w of (c, w) \<Rightarrow>
        (case flushResponse c w of (ok, c, w) \<Rightarrow>
           if \<not> ok then (None, kill c, w)
           else (case readCommand w of ((resp, err), w) \<Rightarrow>
                   if err \<noteq> None then (None, kill c, w)
                   else (let ans = trim_space resp
                         in if ans = ''*''
                            then (case sendResponse [''501 5.5.4 Authentication cancelled''] c w of
                                    (c, w) \<Rightarrow> (None, c, w))
                            else (Some ans, c, w)))))"

type_synonym creds = "bytes \<times> bytes \<times> bytes"

definition auth_PLAIN :: "bytes list \<Rightarrow> client \<Rightarrow> 'b world \<Rightarrow> creds \<times> client \<times> 'b world" where
  "auth_PLAIN flds c w =
     (let ir = (if length flds \<ge> 3 then flds ! 2 else [])
      in case (if ir = [] \<or> ir = ''='' then auth_prompt ''334 '' c w else (Some ir, c, w)) of
           (None, c, w) \<Rightarrow> (([], [], []), c, w)
         | (Some ir, c, w) \<Rightarrow>
             (case parseAuthPlainIR ir of
                Some cr \<Rightarrow> (cr, c, w)
              | None \<Rightarrow> (([], [], []), sendResponse [''501 5.5.4 Invalid AUTH PLAIN response''] c w)))"

definition auth_LOGIN :: "bytes list \<Rightarrow> client \<Rightarrow> 'b world \<Rightarrow> creds \<times> client \<times> 'b world" where
  "auth_LOGIN flds c w =
     (let userB64 = (if length flds \<ge> 3 then flds ! 2 else [])
      in case (if userB64 = [] then auth_prompt ''334 VXNlcm5hbWU6'' c w else (Some userB64, c, w)) of
           (None, c, w) \<Rightarrow> (([], [], []), c, w)
         | (Some userB64, c, w) \<Rightarrow>
             (case decodeBase64Lenient userB64 of
                None \<Rightarrow> (([], [], []), sendResponse [''501 5.5.4 Invalid AUTH LOGIN username''] c w)
              | Some username \<Rightarrow>
                  (case auth_prompt ''334 UGFzc3dvcmQ6'' c w of
                     (None, c, w) \<Rightarrow> (([], username, []), c, w)
                   | (Some passB64, c, w) \<Rightarrow>
                       (case decodeBase64Lenient passB64 of
                          None \<Rightarrow> (([], username, []), sendResponse [''501 5.5.4 Invalid AUTH LOGIN password''] c w)
                        | Some password \<Rightarrow> (([], username, password), c, w)))))"

definition auth_finish ::
    "(bytes \<Rightarrow> bytes \<Rightarrow> bytes \<Rightarrow> envelope \<Rightarrow> 'b \<Rightarrow> (bytes + authResult) \<times> 'b) \<Rightarrow> creds \<times> client \<times> 'b world
       \<Rightarrow> client \<times> 'b world" where
  "auth_finish auth r =
     (case r of ((identity, username, password), c, w) \<Rightarrow>
        (case auth identity username password (Env c) (bstate w) of (res, b) \<Rightarrow>
           (let w = w\<lparr>bstate := b\<rparr>
            in case res of
                 Inl authErr \<Rightarrow> sendResponse [''454 4.7.0 Temporary authentication failure''] c w
               | Inr authResult \<Rightarrow>
                   if \<not> AuthOK authResult then
                     sendResponse [''535 5.7.8 Authentication credentials invalid''] c w
                   else sendResponse [''235 2.7.0 Authentication successful'']
                          (c\<lparr>Authed := True, AuthUser := username, AuthTenant := AuthResTenant authResult\<rparr>) w)))"

definition cmd_AUTH :: "'b env \<Rightarrow> bytes \<Rightarrow> client \<Rightarrow> 'b world \<Rightarrow> client \<times> 'b world" where
  "cmd_AUTH en inp c w =
     (case authenticator en of
        None \<Rightarrow> sendResponse [resp_str FailUnrecognizedCmd] c w
      | Some auth \<Rightarrow>
          if Authed c then sendResponse [''503 5.5.1 Already authenticated''] c w
          else if \<not> eESMTP (Env c) then sendResponse [''503 5.5.1 AUTH not available''] c w
          else if isInTransaction c then sendResponse [''503 5.5.1 Bad sequence of commands''] c w
          else (let flds = Prelude.fields inp
                in if length flds < 2
                   then sendResponse [''501 5.5.4 Syntax: AUTH PLAIN [initial-response]''] c w
                   else (let mech = to_upper (flds ! 1)
                         in auth_finish auth
                              (if mech = ''PLAIN'' then auth_PLAIN flds c w
                               else if mech = ''LOGIN'' then auth_LOGIN flds c w
                               else (([], [], []), sendResponse [''504 5.5.4 Unrecognized authentication type''] c w)))))"

definition cmd_HELP :: "client \<Rightarrow> 'b world \<Rightarrow> client \<times> 'b world" where
  "cmd_HELP c w =
     (case pop [] (quotes w) of (quote, qs) \<Rightarrow>
        sendResponse [''214-OK'' @ CRLF, quote] c (w\<lparr>quotes := qs\<rparr>))"

text \<open>The tokens of \<open>XCLIENT\<close>, each \<open>NAME=value\<close>.\<close>

fun xclient_toks :: "bytes list \<Rightarrow> client \<Rightarrow> client" where
  "xclient_toks [] c = c"
| "xclient_toks (tok # toks) c =
     (let vals = split_on (CHR ''='') tok
      in if length vals = 2 \<and> vals ! 1 \<noteq> ''[UNAVAILABLE]'' then
           (let c = (if vals ! 0 = ''ADDR'' then c\<lparr>Env := (Env c)\<lparr>eRemoteIP := vals ! 1\<rparr>\<rparr> else c);
                c = (if vals ! 0 = ''HELO'' then c\<lparr>Env := (Env c)\<lparr>eHelo := vals ! 1\<rparr>\<rparr> else c)
            in xclient_toks toks c)
         else xclient_toks toks c)"

definition cmd_XCLIENT :: "bytes \<Rightarrow> client \<Rightarrow> 'b world \<Rightarrow> (client \<times> 'b world) outcome" where
  "cmd_XCLIENT inp c w =
     bind_outcome (slice_from inp 8) (\<lambda>arg.
       Ret (sendResponse [resp_str SuccessMailCmd] (xclient_toks (split_on (CHR '' '') arg) c) w))"

definition cmd_MAIL :: "bytes \<Rightarrow> client \<Rightarrow> 'b world \<Rightarrow> (client \<times> 'b world) outcome" where
  "cmd_MAIL inp c w =
     (if isInTransaction c then Ret (sendResponse [resp_str FailNestedMailCmd] c w)
      else bind_outcome (slice_from inp 10) (\<lambda>arg.
             bind_outcome (parsePath c arg MailFrom) (\<lambda>(a, err, c).
               let c = c\<lparr>Env := (Env c)\<lparr>eMailFrom := a\<rparr>\<rparr>
               in case err of
                    Some e \<Rightarrow> Ret (sendResponse [e] c w)
                  | None \<Rightarrow>
                      (let c = (if NullPath (prs c) then c\<lparr>Env := (Env c)\<lparr>eMailFrom := empty_address\<rparr>\<rparr> else c)
                       in Ret (sendResponse [resp_str SuccessMailCmd] c w)))))"

definition rcpt_allowed :: "'b env \<Rightarrow> address \<Rightarrow> bool" where
  "rcpt_allowed en to =
     (case AddrIP to of Some i \<Rightarrow> allowsIp (hosts en) i | None \<Rightarrow> allowsHost (hosts en) (Host to))"

definition rcpt_accept :: "'b env \<Rightarrow> address \<Rightarrow> client \<Rightarrow> 'b world \<Rightarrow> (client \<times> 'b world) outcome" where
  "rcpt_accept en to c w =
     (case validateRcpt en (PushRcpt (Env c) to) (bstate w) of (rcptError, e, b) \<Rightarrow>
        (let w = w\<lparr>bstate := b\<rparr>
         in case rcptError of
              Some re \<Rightarrow> bind_outcome (PopRcpt e) (\<lambda>(_, e).
                Ret (sendResponse [resp_str FailRcptCmd, '' '', re] (c\<lparr>Env := e\<rparr>) w))
            | None \<Rightarrow> Ret (sendResponse [resp_str SuccessRcptCmd] (c\<lparr>Env := e\<rparr>) w)))"

definition cmd_RCPT :: "'b env \<Rightarrow> bytes \<Rightarrow> client \<Rightarrow> 'b world \<Rightarrow> (client \<times> 'b world) outcome" where
  "cmd_RCPT en inp c w =
     (if length (eRcptTo (Env c)) > LimitRecipients
      then Ret (sendResponse [resp_str ErrorTooManyRecipients] c w)
      else bind_outcome (slice_from inp 8) (\<lambda>arg.
             bind_outcome (parsePath c arg (\<lambda>ps i. Ret (RcptTo ps i))) (\<lambda>(to, err, c).
               case err of
                 Some e \<Rightarrow> Ret (sendResponse [e] c w)
               | None \<Rightarrow>
                   (let to = defaultHost (Hostname (sc en)) to
                    in if \<not> rcpt_allowed en to \<and> \<not> Authed c then
                         (if authenticator en \<noteq> None
                          then Ret (sendResponse [''530 5.7.0 Authentication required''] c w)
                          else Ret (sendResponse [resp_str ErrorRelayDenied, '' '', Host to] c w))
                       else rcpt_accept en to c w))))"

definition cmd_DATA :: "client \<Rightarrow> 'b world \<Rightarrow> client \<times> 'b world" where
  "cmd_DATA c w =
     (if length (eRcptTo (Env c)) = 0 then sendResponse [resp_str FailNoRecipientsDataCmd] c w
      else (case sendResponse [resp_str SuccessDataCmd] c w of (c, w) \<Rightarrow> (c\<lparr>cstate := ClientData\<rparr>, w)))"

definition cmd_STARTTLS :: "client \<Rightarrow> 'b world \<Rightarrow> client \<times> 'b world" where
  "cmd_STARTTLS c w =
     (case sendResponse [resp_str SuccessStartTLSCmd] c w of (c, w) \<Rightarrow> (c\<lparr>cstate := ClientStartTLS\<rparr>, w))"

definition cmd_QUIT :: "client \<Rightarrow> 'b world \<Rightarrow> client \<times> 'b world" where
  "cmd_QUIT c w = (case sendResponse [resp_str SuccessQuitCmd] c w of (c, w) \<Rightarrow> (kill c, w))"

definition cmd_unknown :: "client \<Rightarrow> 'b world \<Rightarrow> client \<times> 'b world" where
  "cmd_unknown c w =
     (let c = c\<lparr>errs := errs c + 1\<rparr>
      in if errs c \<ge> MaxUnrecognizedCommands
         then (case sendResponse [resp_str FailMaxUnrecognizedCmd] c w of (c, w) \<Rightarrow> (kill c, w))
         else sendResponse [resp_str FailUnrecognizedCmd] c w)"

definition dispatch :: "'b env \<Rightarrow> bytes \<Rightarrow> client \<Rightarrow> 'b world \<Rightarrow> (client \<times> 'b world) outcome" where
  "dispatch en inp c w =
     (let cmdLen = (if length inp > CommandVerbMaxLength then CommandVerbMaxLength else length inp);
          cmd = to_upper (take cmdLen inp)
      in if cmd_match ''HELO'' cmd then cmd_HELO en inp c w
         else if cmd_match ''EHLO'' cmd then cmd_EHLO en inp c w
         else if cmd_match ''AUTH'' cmd then Ret (cmd_AUTH en inp c w)
         else if cmd_match ''HELP'' cmd then Ret (cmd_HELP c w)
         else if XClientOn (sc en) \<and> cmd_match ''XCLIENT'' cmd then cmd_XCLIENT inp c w
         else if cmd_match ''MAIL FROM:'' cmd then cmd_MAIL inp c w
         else if cmd_match ''RCPT TO:'' cmd then cmd_RCPT en inp c w
         else if cmd_match ''RSET'' cmd then Ret (sendResponse [resp_str SuccessResetCmd] (resetTransaction c) w)
         else if cmd_match ''VRFY'' cmd then Ret (sendResponse [resp_str SuccessVerifyCmd] c w)
         else if cmd_match ''NOOP'' cmd then Ret (sendResponse [resp_str SuccessNoopCmd] c w)
         else if cmd_match ''QUIT'' cmd then Ret (cmd_QUIT c w)
         else if cmd_match ''DATA'' cmd then Ret (cmd_DATA c w)
         else if StartTLSOn (sc en) \<and> cmd_match ''STARTTLS'' cmd then Ret (cmd_STARTTLS c w)
         else Ret (cmd_unknown c w))"

subsection \<open>Turns\<close>

text \<open>
  A turn of the loop ends by falling through to the flush (\<open>Fall\<close>), by \<open>continue\<close> (\<open>Cont\<close>) or
  by returning (\<open>Return\<close>).
\<close>

datatype 'b turn = Fall client "'b world" | Cont client "'b world" | Return client "'b world"

definition greeting :: "'b env \<Rightarrow> client \<Rightarrow> bytes" where
  "greeting en c = ''220 '' @ Hostname (sc en) @ '' SMTP Guerrilla('' @ version en @ '') #''
     @ show_nat (ClientID c) @ '' ('' @ show_nat (activeClients en) @ '') '' @ now en"

definition turn_greeting :: "'b env \<Rightarrow> client \<Rightarrow> 'b world \<Rightarrow> 'b turn" where
  "turn_greeting en c w = (case sendResponse [greeting en c] c w of (c, w) \<Rightarrow> Fall (c\<lparr>cstate := ClientCmd\<rparr>) w)"

definition turn_cmd :: "'b env \<Rightarrow> client \<Rightarrow> 'b world \<Rightarrow> 'b turn outcome" where
  "turn_cmd en c w =
     (case readCommand w of ((inp, err), w) \<Rightarrow>
        (case err of
           Some EOF \<Rightarrow> Ret (Return c w)
         | Some (Timeout t) \<Rightarrow> Ret (Return c w)
         | Some LineLimitExceeded \<Rightarrow>
             (case sendResponse [resp_str FailLineTooLong] c w of (c, w) \<Rightarrow> Ret (Fall (kill c) w))
         | Some e \<Rightarrow> Ret (Fall (kill c) w)
         | None \<Rightarrow>
             (case isShuttingDown w of (sd, w) \<Rightarrow>
                if sd then Ret (Cont (c\<lparr>cstate := ClientShutdown\<rparr>) w)
                else bind_outcome (dispatch en inp c w) (\<lambda>(c, w). Ret (Fall c w)))))"

text \<open>The error of the data read, after the check of the size.\<close>

definition data_error :: "'b env \<Rightarrow> bytes \<Rightarrow> rerr option \<Rightarrow> rerr option" where
  "data_error en d err =
     (if int (length d) > MaxSize (sc en)
      then Some (ReadErr (''maximum DATA size exceeded ('' @ show_int (MaxSize (sc en)) @ '')''))
      else err)"

definition data_failed :: "rerr \<Rightarrow> client \<Rightarrow> 'b world \<Rightarrow> client \<times> 'b world" where
  "data_failed e c w =
     (case sendResponse
             (case e of
                LineLimitExceeded \<Rightarrow> [resp_str FailReadLimitExceededDataCmd, '' '', rerr_Error LineLimitExceeded]
              | MessageSizeExceeded \<Rightarrow> [resp_str FailMessageSizeExceeded, '' '', rerr_Error MessageSizeExceeded]
              | _ \<Rightarrow> [resp_str FailReadErrorDataCmd, '' '', rerr_Error e]) c w of
        (c, w) \<Rightarrow> (resetTransaction (kill c), w))"

definition data_process :: "'b env \<Rightarrow> client \<Rightarrow> 'b world \<Rightarrow> client \<times> 'b world" where
  "data_process en c w =
     (let c = (if Authed c \<and> AuthTenant c \<noteq> None
               then c\<lparr>Env := SetEnvelopeTenantSend (Env c) (AuthTenant c)\<rparr> else c);
          w = w\<lparr>processed := processed w @ [(Env c, Authed c)]\<rparr>
      in case process en (Env c) (bstate w) of (res, e, b) \<Rightarrow>
           (let c = c\<lparr>Env := e\<rparr>; w = w\<lparr>bstate := b\<rparr>;
                c = (if result_Code res < 300 then c\<lparr>messagesSent := messagesSent c + 1\<rparr> else c)
            in case sendResponse [res] c w of (c, w) \<Rightarrow>
                 (case isShuttingDown w of (sd, w) \<Rightarrow>
                    (resetTransaction (c\<lparr>cstate := if sd then ClientShutdown else ClientCmd\<rparr>), w))))"

definition turn_data :: "'b env \<Rightarrow> client \<Rightarrow> 'b world \<Rightarrow> 'b turn" where
  "turn_data en c w =
     (case pop ([], Some (ReadErr ''unexpected EOF'')) (dataReads w) of ((d, err), ds) \<Rightarrow>
        (let w = w\<lparr>dataReads := ds\<rparr>; c = c\<lparr>Env := (Env c)\<lparr>eData := eData (Env c) @ d\<rparr>\<rparr>
         in case data_error en d err of
              Some e \<Rightarrow> (case data_failed e c w of (c, w) \<Rightarrow> Fall c w)
            | None \<Rightarrow> (case data_process en c w of (c, w) \<Rightarrow> Fall c w)))"

definition turn_starttls :: "'b env \<Rightarrow> client \<Rightarrow> 'b world \<Rightarrow> 'b turn" where
  "turn_starttls en c w =
     (case (if \<not> eTLS (Env c) \<and> StartTLSOn (sc en) \<and> tlsLoaded en then
              (case upgradeToTLS c w of (ok, c, w) \<Rightarrow>
                 if ok then
                   (let c = resetTransaction (c\<lparr>advertiseTLS := False\<rparr>)
                    in (c\<lparr>Authed := False, AuthUser := [], AuthTenant := None, Env := (Env c)\<lparr>eESMTP := False\<rparr>\<rparr>, w))
                 else (kill c, w))
            else (c, w)) of
        (c, w) \<Rightarrow> Fall (c\<lparr>cstate := ClientCmd\<rparr>) w)"

definition turn_shutdown :: "client \<Rightarrow> 'b world \<Rightarrow> 'b turn" where
  "turn_shutdown c w = (case sendResponse [resp_str ErrorShutdown] c w of (c, w) \<Rightarrow> Fall (kill c) w)"

definition turn_state :: "'b env \<Rightarrow> client \<Rightarrow> 'b world \<Rightarrow> 'b turn outcome" where
  "turn_state en c w =
     (case cstate c of
        ClientGreeting \<Rightarrow> Ret (turn_greeting en c w)
      | ClientCmd \<Rightarrow> turn_cmd en c w
      | ClientData \<Rightarrow> Ret (turn_data en c w)
      | ClientStartTLS \<Rightarrow> Ret (turn_starttls en c w)
      | ClientShutdown \<Rightarrow> Ret (turn_shutdown c w))"

definition flush_turn :: "client \<Rightarrow> 'b world \<Rightarrow> 'b turn" where
  "flush_turn c w =
     (if bufErr c then Return c w
      else if length (bufout c) > 0 then
        (case flushResponse c w of (ok, c, w) \<Rightarrow> if ok then Cont c w else Return c w)
      else Cont c w)"

definition turn :: "'b env \<Rightarrow> client \<Rightarrow> 'b world \<Rightarrow> 'b turn outcome" where
  "turn en c w =
     bind_outcome (turn_state en c w) (\<lambda>t. case t of Fall c w \<Rightarrow> Ret (flush_turn c w) | _ \<Rightarrow> Ret t)"

end
