(* ===== verification/Session_Inv.thy ===== *)
theory Session_Inv
  imports Session
begin

section \<open>The session loop and its invariants\<close>

text \<open>
  \<open>handle_loop\<close> is the loop of \<open>handleClient\<close>; it terminates because every turn in the command
  state uses up a line of input and every other state leads back there. The invariant \<open>sess_ok\<close>
  holds for a client with a fresh envelope and is kept by every turn, for every backend that
  satisfies the contract \<open>smtp_backend\<close>: validating a recipient changes neither the recipients
  nor the data of the envelope.
\<close>

subsection \<open>What sending a response changes\<close>

definition same_client :: "client \<Rightarrow> client \<Rightarrow> bool" where
  "same_client c c' \<longleftrightarrow> c'\<lparr>bufout := [], bufErr := False\<rparr> = c\<lparr>bufout := [], bufErr := False\<rparr>"

definition same_world :: "'b world \<Rightarrow> 'b world \<Rightarrow> bool" where
  "same_world w w' \<longleftrightarrow> w'\<lparr>writes := [], sent := []\<rparr> = w\<lparr>writes := [], sent := []\<rparr>"

lemma write_string_same:
  "write_string s c w = (c', w') \<Longrightarrow> same_client c c' \<and> same_world w w'"
proof (induction s c w arbitrary: c' w' rule: write_string.induct)
  case (1 s c w)
  obtain ok ws where p: "pop True (writes w) = (ok, ws)" by fastforce
  show ?case
  proof (cases "length (bufout c) + length s \<le> writerSize \<or> \<not> ok")
    case True
    with "1.prems" p show ?thesis
      by (subst (asm) write_string.simps) (auto simp: same_client_def same_world_def Let_def split: if_splits)
  next
    case False
    let ?k = "writerSize - length (bufout c)"
    have "write_string (drop ?k s) (c\<lparr>bufout := []\<rparr>)
        (w\<lparr>writes := ws, sent := sent w @ bufout c @ take ?k s\<rparr>) = (c', w')"
      using "1.prems" p False by (subst (asm) write_string.simps) (simp add: Let_def)
    from "1.IH" [OF _ refl refl p [symmetric] _ this] False show ?thesis
      by (simp add: same_client_def same_world_def)
  qed
qed

lemma send_items_same: "send_items items c w = (c', w') \<Longrightarrow> same_client c c' \<and> same_world w w'"
proof (induction items arbitrary: c w)
  case Nil
  then show ?case using write_string_same [of CRLF c w c' w'] by simp
next
  case (Cons i items)
  obtain c1 w1 where 1: "write_string i c w = (c1, w1)" by fastforce
  from write_string_same [OF 1] have s: "same_client c c1 \<and> same_world w w1" .
  show ?case
  proof (cases "bufErr c1")
    case True
    with Cons.prems 1 s show ?thesis by simp
  next
    case False
    with Cons.prems 1 have "send_items items c1 w1 = (c', w')" by simp
    from Cons.IH [OF this] s show ?thesis by (simp add: same_client_def same_world_def)
  qed
qed

lemma sendResponse_same: "sendResponse items c w = (c', w') \<Longrightarrow> same_client c c' \<and> same_world w w'"
  unfolding sendResponse_def by (drule send_items_same) (simp add: same_client_def same_world_def)

lemma same_client_fields:
  "same_client c c' \<Longrightarrow> Env c' = Env c \<and> ClientID c' = ClientID c \<and> Killed c' = Killed c \<and> Authed c' = Authed c
     \<and> AuthUser c' = AuthUser c \<and> AuthTenant c' = AuthTenant c \<and> errs c' = errs c \<and> cstate c' = cstate c
     \<and> messagesSent c' = messagesSent c \<and> prs c' = prs c \<and> advertiseTLS c' = advertiseTLS c"
  unfolding same_client_def by (cases c; cases c') simp

lemma same_world_fields:
  "same_world w w' \<Longrightarrow> reads w' = reads w \<and> dataReads w' = dataReads w \<and> handshakes w' = handshakes w
     \<and> shutdowns w' = shutdowns w \<and> quotes w' = quotes w \<and> bstate w' = bstate w \<and> processed w' = processed w"
  unfolding same_world_def by (cases w; cases w') simp

lemma sendResponse_fields:
  assumes "sendResponse items c w = (c', w')"
  shows "Env c' = Env c" "ClientID c' = ClientID c" "Killed c' = Killed c" "Authed c' = Authed c"
    "AuthUser c' = AuthUser c" "AuthTenant c' = AuthTenant c" "errs c' = errs c" "cstate c' = cstate c"
    "messagesSent c' = messagesSent c" "prs c' = prs c" "advertiseTLS c' = advertiseTLS c"
    "reads w' = reads w" "dataReads w' = dataReads w" "handshakes w' = handshakes w"
    "shutdowns w' = shutdowns w" "quotes w' = quotes w" "bstate w' = bstate w" "processed w' = processed w"
  using sendResponse_same [OF assms] same_client_fields [of c c'] same_world_fields [of w w'] by auto

lemma sendResponse_fst_snd [simp]:
  "Env (fst (sendResponse items c w)) = Env c" "Killed (fst (sendResponse items c w)) = Killed c"
  "ClientID (fst (sendResponse items c w)) = ClientID c"
  "Authed (fst (sendResponse items c w)) = Authed c" "AuthUser (fst (sendResponse items c w)) = AuthUser c"
  "AuthTenant (fst (sendResponse items c w)) = AuthTenant c" "errs (fst (sendResponse items c w)) = errs c"
  "cstate (fst (sendResponse items c w)) = cstate c" "messagesSent (fst (sendResponse items c w)) = messagesSent c"
  "prs (fst (sendResponse items c w)) = prs c" "advertiseTLS (fst (sendResponse items c w)) = advertiseTLS c"
  "reads (snd (sendResponse items c w)) = reads w" "dataReads (snd (sendResponse items c w)) = dataReads w"
  "handshakes (snd (sendResponse items c w)) = handshakes w" "shutdowns (snd (sendResponse items c w)) = shutdowns w"
  "quotes (snd (sendResponse items c w)) = quotes w" "bstate (snd (sendResponse items c w)) = bstate w"
  "processed (snd (sendResponse items c w)) = processed w"
  by (cases "sendResponse items c w"; simp add: sendResponse_fields)+

lemma flushResponse_fields:
  assumes "flushResponse c w = (ok, c', w')"
  shows "same_client c c' \<and> same_world w w'"
  using assms by (auto simp: flushResponse_def same_client_def same_world_def split: prod.splits if_splits)

subsection \<open>The AUTH exchange\<close>

text \<open>What the exchange may change before the authenticator is asked.\<close>

definition auth_frame :: "client \<times> 'b world \<Rightarrow> client \<times> 'b world \<Rightarrow> bool" where
  "auth_frame p q \<longleftrightarrow> Env (fst q) = Env (fst p) \<and> Authed (fst q) = Authed (fst p)
     \<and> AuthUser (fst q) = AuthUser (fst p) \<and> AuthTenant (fst q) = AuthTenant (fst p)
     \<and> errs (fst q) = errs (fst p) \<and> cstate (fst q) = cstate (fst p) \<and> prs (fst q) = prs (fst p)
     \<and> (Killed (fst p) \<longrightarrow> Killed (fst q)) \<and> length (reads (snd q)) \<le> length (reads (snd p))
     \<and> processed (snd q) = processed (snd p)"

lemma auth_frame_trans: "auth_frame p q \<Longrightarrow> auth_frame q r \<Longrightarrow> auth_frame p r"
  by (auto simp: auth_frame_def)

lemma auth_frame_send: "sendResponse items c w = (c', w') \<Longrightarrow> auth_frame (c, w) (c', w')"
  by (simp add: auth_frame_def sendResponse_fields)

lemma auth_frame_send' : "auth_frame (c, w) (sendResponse items c w)"
  by (cases "sendResponse items c w") (simp add: auth_frame_send)

lemma readCommand_reads: "readCommand w = (r, w') \<Longrightarrow>
    length (reads w') \<le> length (reads w) \<and> (snd r \<noteq> Some EOF \<longrightarrow> length (reads w') < length (reads w))
    \<and> processed w' = processed w \<and> bstate w' = bstate w"
  by (cases "reads w") (auto simp: readCommand_def split: slice_result.splits)

lemma auth_frame_prompt: "auth_prompt p c w = (r, c', w') \<Longrightarrow> auth_frame (c, w) (c', w')"
proof -
  assume h: "auth_prompt p c w = (r, c', w')"
  obtain c1 w1 where 1: "sendResponse [p] c w = (c1, w1)" by fastforce
  obtain ok c2 w2 where 2: "flushResponse c1 w1 = (ok, c2, w2)" using prod_cases3 by blast
  obtain i e w3 where 3: "readCommand w2 = ((i, e), w3)" by (metis surj_pair)
  have f2: "auth_frame (c, w) (c2, w2)"
    using auth_frame_send [OF 1] flushResponse_fields [OF 2] same_client_fields [of c1 c2] same_world_fields [of w1 w2]
    by (simp add: auth_frame_def)
  have f3: "auth_frame (c, w) (c2, w3)"
    using f2 readCommand_reads [OF 3] by (simp add: auth_frame_def)
  have k: "auth_frame (c, w) (d, v) \<Longrightarrow> auth_frame (c, w) (kill d, v)" for d v
    by (simp add: auth_frame_def kill_def)
  have s: "auth_frame (c, w) (sendResponse items c2 w3)" for items
    using auth_frame_trans [OF f3] auth_frame_send' by blast
  from h 1 2 3 f2 f3 k [OF f2] k [OF f3] s show ?thesis
    by (auto simp: auth_prompt_def Let_def split: if_splits prod.splits) (metis s)+
qed

lemma auth_frame_PLAIN: "auth_PLAIN flds c w = (cr, c', w') \<Longrightarrow> auth_frame (c, w) (c', w')"
proof -
  assume h: "auth_PLAIN flds c w = (cr, c', w')"
  define ir where "ir = (if length flds \<ge> 3 then flds ! 2 else [])"
  obtain r c1 w1 where 1: "(if ir = [] \<or> ir = ''='' then auth_prompt ''334 '' c w else (Some ir, c, w)) = (r, c1, w1)"
    using prod_cases3 by blast
  have f: "auth_frame (c, w) (c1, w1)"
    using 1 auth_frame_prompt [of "''334 ''" c w] by (auto simp: auth_frame_def split: if_splits)
  have s: "auth_frame (c, w) (sendResponse items c1 w1)" for items
    using auth_frame_trans [OF f auth_frame_send'] .
  from h 1 f s show ?thesis
    unfolding auth_PLAIN_def ir_def [symmetric] Let_def
    by (auto split: option.splits) (metis s)+
qed

lemma auth_frame_LOGIN: "auth_LOGIN flds c w = (cr, c', w') \<Longrightarrow> auth_frame (c, w) (c', w')"
proof -
  assume h: "auth_LOGIN flds c w = (cr, c', w')"
  define u where "u = (if length flds \<ge> 3 then flds ! 2 else [])"
  obtain r c1 w1 where 1: "(if u = [] then auth_prompt ''334 VXNlcm5hbWU6'' c w else (Some u, c, w)) = (r, c1, w1)"
    using prod_cases3 by blast
  obtain r2 c2 w2 where 2: "auth_prompt ''334 UGFzc3dvcmQ6'' c1 w1 = (r2, c2, w2)" using prod_cases3 by blast
  have f: "auth_frame (c, w) (c1, w1)"
    using 1 auth_frame_prompt [of "''334 VXNlcm5hbWU6''" c w] by (auto simp: auth_frame_def split: if_splits)
  have f2: "auth_frame (c, w) (c2, w2)" by (rule auth_frame_trans [OF f auth_frame_prompt [OF 2]])
  have s: "auth_frame (c, w) (sendResponse items c1 w1)" "auth_frame (c, w) (sendResponse items c2 w2)" for items
    using auth_frame_trans [OF f auth_frame_send'] auth_frame_trans [OF f2 auth_frame_send'] .
  from h 1 2 f f2 s show ?thesis
    unfolding auth_LOGIN_def u_def [symmetric] Let_def
    by (auto split: option.splits) (metis s)+
qed

lemma auth_finish_frame:
  assumes "auth_finish auth (cr, c, w) = (c', w')"
  shows "Env c' = Env c \<and> errs c' = errs c \<and> cstate c' = cstate c \<and> prs c' = prs c \<and> Killed c' = Killed c
    \<and> reads w' = reads w \<and> processed w' = processed w"
  using assms
  by (auto simp: auth_finish_def Let_def sendResponse_fields split: prod.splits sum.splits if_splits
      dest!: sendResponse_fields)

lemma cmd_AUTH_frame:
  assumes "cmd_AUTH en inp c w = (c', w')"
  shows "Env c' = Env c \<and> errs c' = errs c \<and> cstate c' = cstate c \<and> prs c' = prs c
    \<and> length (reads w') \<le> length (reads w) \<and> processed w' = processed w"
proof -
  have send: "sendResponse items c w = (c', w') \<Longrightarrow> ?thesis" for items by (simp add: sendResponse_fields)
  have fin: "auth_frame (c, w) (c1, w1) \<Longrightarrow> auth_finish auth (cr, c1, w1) = (c', w') \<Longrightarrow> ?thesis" for auth cr c1 w1
    using auth_finish_frame [of auth cr c1 w1 c' w'] by (auto simp: auth_frame_def)
  define flds where "flds = Prelude.fields inp"
  obtain cr1 c1 w1 where 1: "auth_PLAIN flds c w = (cr1, c1, w1)" using prod_cases3 by blast
  obtain cr2 c2 w2 where 2: "auth_LOGIN flds c w = (cr2, c2, w2)" using prod_cases3 by blast
  obtain c3 w3 where 3: "sendResponse [''504 5.5.4 Unrecognized authentication type''] c w = (c3, w3)" by fastforce
  show ?thesis using assms send fin
      auth_frame_PLAIN [OF 1] auth_frame_LOGIN [OF 2] auth_frame_send [OF 3] 1 2 3
    unfolding cmd_AUTH_def flds_def [symmetric] Let_def by (simp split: option.splits if_splits)
qed

subsection \<open>Command lines\<close>

lemma cmd_match_length: "cmd_match v (to_upper (take n inp)) \<Longrightarrow> length v \<le> length inp"
proof -
  assume "cmd_match v (to_upper (take n inp))"
  then have "length v \<le> length (to_upper (take n inp))" by (auto simp: cmd_match_def dest: prefix_length_le)
  also have "\<dots> \<le> length (take n inp)" by (rule length_to_upper)
  finally show ?thesis by simp
qed

lemma slice_from_ok: "n \<le> length xs \<Longrightarrow> slice_from xs (int n) = Ret (drop n xs)"
  by (simp add: slice_from_def)

subsection \<open>The commands read no further and process nothing\<close>

lemma parsePath_client:
  "parsePath c inp p = Ret (a, err, c') \<Longrightarrow> c' = c \<or> (\<exists>e. p (prs c) inp = Ret (e, prs c') \<and> c' = c\<lparr>prs := prs c'\<rparr>)"
  by (auto simp: parsePath_def Let_def bind_outcome_Ret_iff split: if_splits prod.splits)

definition world_frame :: "'b world \<Rightarrow> 'b world \<Rightarrow> bool" where
  "world_frame w w' \<longleftrightarrow> length (reads w') \<le> length (reads w) \<and> processed w' = processed w"

lemma world_frame_send:
  "sendResponse items c v = (c', w') \<Longrightarrow> world_frame w v \<Longrightarrow> world_frame w w'"
  by (simp add: world_frame_def sendResponse_fields)

lemma world_frame_refl: "world_frame w w" "world_frame w (w\<lparr>bstate := b\<rparr>)" "world_frame w (w\<lparr>quotes := q\<rparr>)"
  by (simp_all add: world_frame_def)

lemmas world_frame_intros = world_frame_send [OF _ world_frame_refl(1)] world_frame_send [OF _ world_frame_refl(2)]
  world_frame_send [OF _ world_frame_refl(3)] world_frame_refl

lemma rcpt_accept_frame: "rcpt_accept en to c w = Ret (c', w') \<Longrightarrow> world_frame w w'"
  by (auto simp: rcpt_accept_def Let_def bind_outcome_Ret_iff split: prod.splits option.splits
      intro: world_frame_intros)

lemma cmd_RCPT_frame: "cmd_RCPT en inp c w = Ret (c', w') \<Longrightarrow> world_frame w w'"
  by (auto simp: cmd_RCPT_def Let_def bind_outcome_Ret_iff split: prod.splits option.splits if_splits
      intro: world_frame_intros rcpt_accept_frame)

lemma cmd_MAIL_frame: "cmd_MAIL inp c w = Ret (c', w') \<Longrightarrow> world_frame w w'"
  by (auto simp: cmd_MAIL_def Let_def bind_outcome_Ret_iff split: prod.splits option.splits if_splits
      intro: world_frame_intros)

lemma cmd_HELO_cases:
  assumes "cmd_HELO en inp c w = Ret (c', w')"
  obtains (ok) h p arg where "Helo (prs c) arg = (h, None, p)"
      "(c', w') = sendResponse [''250 '' @ Hostname (sc en) @ '' Hello'']
         (resetTransaction (c\<lparr>prs := p, Env := (Env c)\<lparr>eHelo := h\<rparr>\<rparr>)) w"
  | (bad) h e p arg where "Helo (prs c) arg = (h, Some e, p)"
      "(c', w') = sendResponse [resp_str FailSyntaxError] (c\<lparr>prs := p\<rparr>) w"
proof -
  obtain arg where arg: "slice_from inp 4 = Ret arg"
    using assms by (auto simp: cmd_HELO_def bind_outcome_Ret_iff)
  obtain h e p where h: "Helo (prs c) arg = (h, e, p)" using prod_cases3 by blast
  show thesis using assms arg h ok bad by (cases e) (auto simp: cmd_HELO_def)
qed

lemma cmd_EHLO_cases:
  assumes "cmd_EHLO en inp c w = Ret (c', w')"
  obtains (ok) h i p arg c1 where "Ehlo (prs c) arg = (h, i, None, p)"
      "c1 = resetTransaction (c\<lparr>prs := p, Env := (Env c)\<lparr>eHelo := h, eESMTP := True\<rparr>\<rparr>)"
      "(c', w') = sendResponse [join CRLF (ehlo_lines en c1)] c1 w"
  | (bad) h i e p arg c1 w1 where "Ehlo (prs c) arg = (h, i, Some e, p)"
      "sendResponse [resp_str FailSyntaxError] (c\<lparr>prs := p\<rparr>) w = (c1, w1)"
      "(c', w') = sendResponse [resp_str FailSyntaxError] c1 w1"
proof -
  obtain arg where arg: "slice_from inp 4 = Ret arg"
    using assms by (auto simp: cmd_EHLO_def bind_outcome_Ret_iff)
  obtain h i e p where h: "Ehlo (prs c) arg = (h, i, e, p)" using prod_cases4 by blast
  obtain c1 w1 where s: "sendResponse [resp_str FailSyntaxError] (c\<lparr>prs := p\<rparr>) w = (c1, w1)" by fastforce
  show thesis using assms arg h s ok bad by (cases e) (auto simp: cmd_EHLO_def Let_def)
qed

lemma cmd_HELO_EHLO_frame:
  "cmd_HELO en inp c w = Ret (c', w') \<Longrightarrow> world_frame w w'"
  "cmd_EHLO en inp c w = Ret (c', w') \<Longrightarrow> world_frame w w'"
  by (erule cmd_HELO_cases; metis world_frame_intros(1))
    (erule cmd_EHLO_cases; metis world_frame_intros(1) world_frame_send)

lemma cmd_other_frame:
  "cmd_XCLIENT inp c w = Ret (c', w') \<Longrightarrow> world_frame w w'"
  "cmd_HELP c w = (c', w') \<Longrightarrow> world_frame w w'" "cmd_DATA c w = (c', w') \<Longrightarrow> world_frame w w'"
  "cmd_STARTTLS c w = (c', w') \<Longrightarrow> world_frame w w'" "cmd_QUIT c w = (c', w') \<Longrightarrow> world_frame w w'"
  "cmd_unknown c w = (c', w') \<Longrightarrow> world_frame w w'" "cmd_AUTH en inp c w = (c', w') \<Longrightarrow> world_frame w w'"
  by (auto simp: cmd_XCLIENT_def cmd_HELP_def cmd_DATA_def cmd_STARTTLS_def cmd_QUIT_def cmd_unknown_def
      Let_def bind_outcome_Ret_iff split: prod.splits if_splits intro: world_frame_intros)
    (simp add: world_frame_def cmd_AUTH_frame)

lemma dispatch_frame: "dispatch en inp c w = Ret (c', w') \<Longrightarrow> world_frame w w'"
  unfolding dispatch_def Let_def
  by (auto split: if_splits intro: cmd_HELO_EHLO_frame cmd_other_frame cmd_MAIL_frame cmd_RCPT_frame
      world_frame_intros)

subsection \<open>Termination\<close>

definition weight :: "client \<Rightarrow> nat" where
  "weight c =
     (if Killed c then 0
      else (case cstate c of ClientShutdown \<Rightarrow> 1 | ClientCmd \<Rightarrow> 2 | _ \<Rightarrow> 3))"

definition meas :: "client \<Rightarrow> 'b world \<Rightarrow> nat" where
  "meas c w = 4 * length (reads w) + weight c"

lemma weight_le: "weight c \<le> 3"
  by (simp add: weight_def split: clientState.splits)

lemma flush_turn_frame:
  "flush_turn c w = Cont c' w' \<or> flush_turn c w = Return c' w' \<Longrightarrow> same_client c c' \<and> same_world w w'"
  by (auto simp: flush_turn_def split: if_splits prod.splits dest: flushResponse_fields,
      simp_all add: same_client_def same_world_def)

lemma flush_turn_meas: "flush_turn c w = Cont c' w' \<Longrightarrow> meas c' w' = meas c w"
  using flush_turn_frame [of c w c' w'] same_client_fields [of c c'] same_world_fields [of w w']
  by (simp add: meas_def weight_def)

lemma flush_turn_not_Fall: "flush_turn c w \<noteq> Fall c' w'"
  by (simp add: flush_turn_def split: prod.splits)

lemma turn_cmd_meas:
  assumes "turn_cmd en c w = Ret t" and "cstate c = ClientCmd" and "\<not> Killed c"
    and "t = Fall c' w' \<or> t = Cont c' w'"
  shows "meas c' w' < meas c w"
proof -
  obtain inp err w1 where r: "readCommand w = ((inp, err), w1)" by (metis surj_pair)
  obtain sd w2 where sd: "isShuttingDown w1 = (sd, w2)" by fastforce
  have w2: "reads w2 = reads w1" using sd by (auto simp: isShuttingDown_def split: prod.splits)
  have "err \<noteq> Some EOF" using assms(1,4) r by (auto simp: turn_cmd_def)
  then have less: "length (reads w1) < length (reads w)" using readCommand_reads [OF r] by simp
  have "length (reads w') \<le> length (reads w1)"
    using assms(1,4) r sd w2
    by (auto simp: turn_cmd_def bind_outcome_Ret_iff sendResponse_fields split: option.splits rerr.splits prod.splits if_splits
        dest!: dispatch_frame simp: world_frame_def)
  with less weight_le [of c'] assms(2,3) show ?thesis by (simp add: meas_def weight_def)
qed

lemma turn_other_meas:
  assumes "\<not> Killed c"
  shows "cstate c = ClientGreeting \<Longrightarrow> turn_greeting en c w = Fall c' w' \<Longrightarrow> meas c' w' < meas c w"
    and "cstate c = ClientShutdown \<Longrightarrow> turn_shutdown c w = Fall c' w' \<Longrightarrow> meas c' w' < meas c w"
  using assms
  by (auto simp: turn_greeting_def turn_shutdown_def meas_def weight_def kill_def sendResponse_fields split: prod.splits)

lemma data_process_reads:
  "data_process en c w = (c', w') \<Longrightarrow>
   reads w' = reads w \<and> cstate c' \<in> {ClientCmd, ClientShutdown} \<and> Killed c' = Killed c"
  by (auto simp: data_process_def Let_def isShuttingDown_def resetTransaction_def sendResponse_fields
      split: prod.splits if_splits)

lemma data_failed_reads: "data_failed e c w = (c', w') \<Longrightarrow> reads w' = reads w \<and> Killed c'"
  by (auto simp: data_failed_def resetTransaction_def kill_def sendResponse_fields split: prod.splits)

lemma turn_data_meas:
  "turn_data en c w = Fall c' w' \<Longrightarrow> cstate c = ClientData \<Longrightarrow> \<not> Killed c \<Longrightarrow> meas c' w' < meas c w"
  by (auto simp: turn_data_def Let_def meas_def weight_def split: prod.splits option.splits
      dest!: data_process_reads data_failed_reads)

lemma turn_starttls_meas:
  "turn_starttls en c w = Fall c' w' \<Longrightarrow> cstate c = ClientStartTLS \<Longrightarrow> \<not> Killed c \<Longrightarrow> meas c' w' < meas c w"
  by (auto simp: turn_starttls_def upgradeToTLS_def Let_def meas_def weight_def kill_def resetTransaction_def
      split: prod.splits if_splits)

lemma turn_falls:
  "\<exists>c' w'. turn_greeting en c w = Fall c' w'" "\<exists>c' w'. turn_data en c w = Fall c' w'"
  "\<exists>c' w'. turn_starttls en c w = Fall c' w'" "\<exists>c' w'. turn_shutdown c w = Fall c' w'"
  by (simp_all add: turn_greeting_def turn_data_def turn_starttls_def turn_shutdown_def Let_def split: prod.split option.split)

lemma turn_meas:
  assumes "turn en c w = Ret (Cont c' w')" and "\<not> Killed c"
  shows "meas c' w' < meas c w"
proof -
  obtain t where t: "turn_state en c w = Ret t"
    and u: "t = Cont c' w' \<or> (\<exists>c1 w1. t = Fall c1 w1 \<and> flush_turn c1 w1 = Cont c' w')"
    using assms(1) by (cases "turn_state en c w") (auto simp: turn_def split: turn.splits)
  then obtain c1 w1 where 1: "t = Fall c1 w1 \<or> t = Cont c1 w1" and m: "meas c' w' = meas c1 w1"
    using flush_turn_meas by blast
  have fall: "cstate c \<noteq> ClientCmd \<Longrightarrow> t = Fall c1 w1"
    using t 1 turn_falls(1) [of en c w] turn_falls(2) [of en c w] turn_falls(3) [of en c w] turn_falls(4) [of c w]
    by (cases "cstate c") (auto simp: turn_state_def)
  have "meas c1 w1 < meas c w"
  proof (cases "cstate c")
    case ClientCmd
    with t have "turn_cmd en c w = Ret t" by (simp add: turn_state_def)
    from turn_cmd_meas [OF this ClientCmd assms(2) 1] show ?thesis .
  next
    case ClientGreeting
    with t fall have "turn_greeting en c w = Fall c1 w1" by (simp add: turn_state_def)
    from turn_other_meas(1) [OF assms(2) ClientGreeting this] show ?thesis .
  next
    case ClientData
    with t fall have "turn_data en c w = Fall c1 w1" by (simp add: turn_state_def)
    from turn_data_meas [OF this ClientData assms(2)] show ?thesis .
  next
    case ClientStartTLS
    with t fall have "turn_starttls en c w = Fall c1 w1" by (simp add: turn_state_def)
    from turn_starttls_meas [OF this ClientStartTLS assms(2)] show ?thesis .
  next
    case ClientShutdown
    with t fall have "turn_shutdown c w = Fall c1 w1" by (simp add: turn_state_def)
    from turn_other_meas(2) [OF assms(2) ClientShutdown this] show ?thesis .
  qed
  with m show ?thesis by simp
qed

function handle_loop :: "'b env \<Rightarrow> client \<Rightarrow> 'b world \<Rightarrow> (client \<times> 'b world) outcome" where
  "handle_loop en c w =
     (if \<not> isAlive c then Ret (c, w)
      else (case turn en c w of
              Panic m \<Rightarrow> Panic m
            | Ret t \<Rightarrow>
                (case t of Return c w \<Rightarrow> Ret (c, w) | Cont c w \<Rightarrow> handle_loop en c w | Fall c w \<Rightarrow> Ret (c, w))))"
  by pat_completeness auto
termination handle_loop
  by (relation "measure (\<lambda>(en, c, w). meas c w)") (auto simp: isAlive_def intro: turn_meas)

declare handle_loop.simps [simp del]

text \<open>The part of \<open>handleClient\<close> before the loop.\<close>

definition start_session :: "'b env \<Rightarrow> client \<Rightarrow> 'b world \<Rightarrow> client \<times> 'b world" where
  "start_session en c w =
     (let c = c\<lparr>advertiseTLS := True\<rparr>
      in case (if AlwaysOn (sc en) \<and> tlsLoaded en then
                 (case upgradeToTLS c w of (ok, c, w) \<Rightarrow>
                    if ok then (c\<lparr>advertiseTLS := False\<rparr>, w) else (kill c, w))
               else (c, w)) of
           (c, w) \<Rightarrow> (if \<not> StartTLSOn (sc en) then c\<lparr>advertiseTLS := False\<rparr> else c, w))"

definition handleClient :: "'b env \<Rightarrow> client \<Rightarrow> 'b world \<Rightarrow> (client \<times> 'b world) outcome" where
  "handleClient en c w = (case start_session en c w of (c, w) \<Rightarrow> handle_loop en c w)"

end
