(* ===== verification/Session_Safety.thy ===== *)
theory Session_Safety
  imports Session_Inv
begin

section \<open>Safety of the SMTP session\<close>

text \<open>
  The invariant of a session and what follows from it: no open relay, bounded recipients and data,
  authentication only by the authenticator, and the one command that makes the session panic.
\<close>

subsection \<open>The invariant\<close>

text \<open>What holds of the envelope between two turns, and of an envelope handed to the backend.\<close>

definition env_ok :: "'b env \<Rightarrow> bool \<Rightarrow> envelope \<Rightarrow> bool" where
  "env_ok en authed e \<longleftrightarrow> (authed \<or> (\<forall>a \<in> set (eRcptTo e). rcpt_allowed en a))
     \<and> length (eRcptTo e) \<le> LimitRecipients + 1 \<and> eData e = []"

definition cmd_ok :: "'b env \<Rightarrow> client \<Rightarrow> bool" where
  "cmd_ok en c \<longleftrightarrow> env_ok en (Authed c) (Env c) \<and> parser_ok (prs c)
     \<and> (Authed c \<longrightarrow> authenticator en \<noteq> None) \<and> (errs c < MaxUnrecognizedCommands \<or> Killed c)
     \<and> (cstate c = ClientData \<longrightarrow> eRcptTo (Env c) \<noteq> [])"

definition accepted :: "'b env \<Rightarrow> envelope \<Rightarrow> bool \<Rightarrow> bool" where
  "accepted en e authed \<longleftrightarrow> eRcptTo e \<noteq> [] \<and> length (eRcptTo e) \<le> LimitRecipients + 1
     \<and> int (length (eData e)) \<le> MaxSize (sc en)
     \<and> (authed \<or> (\<forall>a \<in> set (eRcptTo e). rcpt_allowed en a))
     \<and> (authed \<longrightarrow> authenticator en \<noteq> None)"

definition sess_ok :: "'b env \<Rightarrow> client \<Rightarrow> 'b world \<Rightarrow> bool" where
  "sess_ok en c w \<longleftrightarrow> cmd_ok en c \<and> (\<forall>(e, a) \<in> set (processed w). accepted en e a)"

lemma cmd_ok_send: "sendResponse items c w = (c', w') \<Longrightarrow> cmd_ok en c' = cmd_ok en c"
  by (simp add: cmd_ok_def sendResponse_fields)

lemma cmd_ok_send_to: "(c', w') = sendResponse items c w \<Longrightarrow> cmd_ok en c \<Longrightarrow> cmd_ok en c'"
  using cmd_ok_send [of items c w c' w' en] by simp

lemma env_ok_reset: "env_ok en b (ResetTransaction e)"
  by (simp add: env_ok_def ResetTransaction_def)

lemma cmd_ok_reset: "cmd_ok en c \<Longrightarrow> cstate c \<noteq> ClientData \<Longrightarrow> cmd_ok en (resetTransaction c)"
  by (simp add: cmd_ok_def resetTransaction_def env_ok_reset)

lemma cmd_ok_prs: "cmd_ok en c \<Longrightarrow> parser_ok p \<Longrightarrow> cmd_ok en (c\<lparr>prs := p\<rparr>)"
  by (simp add: cmd_ok_def)

lemma cmd_ok_kill: "cmd_ok en c \<Longrightarrow> cmd_ok en (kill c)"
  by (simp add: cmd_ok_def kill_def)

lemma cmd_ok_Env:
  "cmd_ok en c \<Longrightarrow> eRcptTo e = eRcptTo (Env c) \<Longrightarrow> eData e = eData (Env c) \<Longrightarrow> cmd_ok en (c\<lparr>Env := e\<rparr>)"
  by (simp add: cmd_ok_def env_ok_def)

subsection \<open>Commands\<close>

lemma parser_ok_cmds:
  "MailFrom p i = Ret (e, p') \<Longrightarrow> parser_ok p'" "RcptTo p i = (e, p') \<Longrightarrow> parser_ok p'"
  "Helo p i = (h, e, p') \<Longrightarrow> parser_ok p'" "Ehlo p i = (h, ip, e, p') \<Longrightarrow> parser_ok p'"
  using MailFrom_Ret [of p i] by (auto intro: parser_ok_pos dest: RcptTo_pos Helo_pos Ehlo_pos)

lemma cmd_HELO_ok: "cmd_HELO en inp c w = Ret (c', w') \<Longrightarrow> cmd_ok en c \<Longrightarrow> cstate c = ClientCmd \<Longrightarrow> cmd_ok en c'"
  by (erule cmd_HELO_cases; erule cmd_ok_send_to)
    (auto intro!: cmd_ok_reset cmd_ok_prs dest: parser_ok_cmds(3) simp: cmd_ok_def resetTransaction_def env_ok_reset)

lemma cmd_EHLO_ok: "cmd_EHLO en inp c w = Ret (c', w') \<Longrightarrow> cmd_ok en c \<Longrightarrow> cstate c = ClientCmd \<Longrightarrow> cmd_ok en c'"
  by (erule cmd_EHLO_cases; erule cmd_ok_send_to)
    (auto dest: parser_ok_cmds(4) simp: cmd_ok_def resetTransaction_def env_ok_reset sendResponse_fields)

lemma cmd_AUTH_authed:
  assumes "cmd_AUTH en inp c w = (c', w')"
  shows "Authed c' = Authed c \<and> AuthUser c' = AuthUser c \<and> AuthTenant c' = AuthTenant c
    \<or> \<not> Authed c \<and> Authed c' \<and> (\<exists>auth i u p b b' r. authenticator en = Some auth
        \<and> auth i u p (Env c) b = (Inr r, b') \<and> AuthOK r \<and> AuthUser c' = u \<and> AuthTenant c' = AuthResTenant r)"
proof -
  define flds where "flds = Prelude.fields inp"
  have send: "sendResponse items c w = (c', w') \<Longrightarrow> ?thesis" for items by (simp add: sendResponse_fields)
  have fin: "authenticator en = Some auth \<Longrightarrow> \<not> Authed c \<Longrightarrow> auth_frame (c, w) (c1, w1) \<Longrightarrow>
      auth_finish auth (cr, c1, w1) = (c', w') \<Longrightarrow> ?thesis" for auth cr c1 w1
    by (cases cr) (auto simp: auth_finish_def auth_frame_def Let_def sendResponse_fields
        split: prod.splits sum.splits if_splits, blast+)
  obtain cr1 c1 w1 where 1: "auth_PLAIN flds c w = (cr1, c1, w1)" using prod_cases3 by blast
  obtain cr2 c2 w2 where 2: "auth_LOGIN flds c w = (cr2, c2, w2)" using prod_cases3 by blast
  obtain c3 w3 where 3: "sendResponse [''504 5.5.4 Unrecognized authentication type''] c w = (c3, w3)" by fastforce
  show ?thesis using assms send fin auth_frame_PLAIN [OF 1] auth_frame_LOGIN [OF 2] auth_frame_send [OF 3] 1 2 3
    unfolding cmd_AUTH_def flds_def [symmetric] Let_def by (simp split: option.splits if_splits)
qed

lemma cmd_AUTH_killed: "cmd_AUTH en inp c w = (c', w') \<Longrightarrow> Killed c \<longrightarrow> Killed c'"
proof -
  assume h: "cmd_AUTH en inp c w = (c', w')"
  define flds where "flds = Prelude.fields inp"
  have send: "sendResponse items c w = (c', w') \<Longrightarrow> ?thesis" for items by (simp add: sendResponse_fields)
  have fin: "auth_frame (c, w) (c1, w1) \<Longrightarrow> auth_finish auth (cr, c1, w1) = (c', w') \<Longrightarrow> ?thesis" for auth cr c1 w1
    using auth_finish_frame [of auth cr c1 w1 c' w'] by (auto simp: auth_frame_def)
  obtain cr1 c1 w1 where 1: "auth_PLAIN flds c w = (cr1, c1, w1)" using prod_cases3 by blast
  obtain cr2 c2 w2 where 2: "auth_LOGIN flds c w = (cr2, c2, w2)" using prod_cases3 by blast
  obtain c3 w3 where 3: "sendResponse [''504 5.5.4 Unrecognized authentication type''] c w = (c3, w3)" by fastforce
  show ?thesis using h send fin auth_frame_PLAIN [OF 1] auth_frame_LOGIN [OF 2] auth_frame_send [OF 3] 1 2 3
    unfolding cmd_AUTH_def flds_def [symmetric] Let_def by (simp split: option.splits if_splits)
qed

lemma cmd_AUTH_ok: "cmd_AUTH en inp c w = (c', w') \<Longrightarrow> cmd_ok en c \<Longrightarrow> cmd_ok en c'"
  using cmd_AUTH_frame [of en inp c w c' w'] cmd_AUTH_authed [of en inp c w c' w'] cmd_AUTH_killed [of en inp c w c' w']
  by (auto simp: cmd_ok_def env_ok_def)

lemma xclient_toks_ok: "cmd_ok en c \<Longrightarrow> cmd_ok en (xclient_toks toks c)"
proof (induction toks arbitrary: c)
  case (Cons tok toks)
  have "cmd_ok en (c\<lparr>Env := (Env c)\<lparr>eRemoteIP := v\<rparr>\<rparr>)" "cmd_ok en (c\<lparr>Env := (Env c)\<lparr>eHelo := v\<rparr>\<rparr>)" for v
    using Cons.prems by (auto intro!: cmd_ok_Env)
  then show ?case using Cons by (simp add: Let_def)
qed simp

lemma cmd_XCLIENT_ok: "cmd_XCLIENT inp c w = Ret (c', w') \<Longrightarrow> cmd_ok en c \<Longrightarrow> cmd_ok en c'"
  by (auto simp: cmd_XCLIENT_def bind_outcome_Ret_iff cmd_ok_send xclient_toks_ok)

lemma parsePath_MailFrom_ok: "parsePath c inp MailFrom = Ret (a, err, c') \<Longrightarrow> cmd_ok en c \<Longrightarrow> cmd_ok en c'"
  using parsePath_client [of c inp MailFrom a err c'] parser_ok_cmds(1) cmd_ok_prs [of en c "prs c'"] by metis

lemma parsePath_RcptTo_ok:
  "parsePath c inp (\<lambda>ps i. Ret (RcptTo ps i)) = Ret (a, err, c') \<Longrightarrow> cmd_ok en c \<Longrightarrow> cmd_ok en c'"
  using parsePath_client [of c inp "\<lambda>ps i. Ret (RcptTo ps i)" a err c'] parser_ok_cmds(2)
    cmd_ok_prs [of en c "prs c'"] by (metis outcome.inject(1))

lemma cmd_MAIL_ok: "cmd_MAIL inp c w = Ret (c', w') \<Longrightarrow> cmd_ok en c \<Longrightarrow> cmd_ok en c'"
proof -
  assume h: "cmd_MAIL inp c w = Ret (c', w')" and ok: "cmd_ok en c"
  have "\<exists>items c1 e. sendResponse items (c1\<lparr>Env := e\<rparr>) w = (c', w') \<and> cmd_ok en c1
      \<and> eRcptTo e = eRcptTo (Env c1) \<and> eData e = eData (Env c1)"
  proof (cases "isInTransaction c")
    case True
    with h ok show ?thesis by (intro exI [of _ "[resp_str FailNestedMailCmd]"] exI [of _ c] exI [of _ "Env c"])
        (simp add: cmd_MAIL_def)
  next
    case False
    then obtain arg a err c1 where 1: "parsePath c arg MailFrom = Ret (a, err, c1)"
      and 2: "(let c = c1\<lparr>Env := (Env c1)\<lparr>eMailFrom := a\<rparr>\<rparr>
               in case err of
                    Some e \<Rightarrow> Ret (sendResponse [e] c w)
                  | None \<Rightarrow>
                      (let c = (if NullPath (prs c) then c\<lparr>Env := (Env c)\<lparr>eMailFrom := empty_address\<rparr>\<rparr> else c)
                       in Ret (sendResponse [resp_str SuccessMailCmd] c w))) = Ret (c', w')"
      using h by (auto simp: cmd_MAIL_def bind_outcome_Ret_iff)
    have "\<exists>items m. sendResponse items (c1\<lparr>Env := (Env c1)\<lparr>eMailFrom := m\<rparr>\<rparr>) w = (c', w')"
      using 2 by (auto simp: Let_def split: option.splits if_splits)
    then obtain items m where "sendResponse items (c1\<lparr>Env := (Env c1)\<lparr>eMailFrom := m\<rparr>\<rparr>) w = (c', w')" by blast
    with parsePath_MailFrom_ok [OF 1 ok] show ?thesis
      by (intro exI [of _ items] exI [of _ c1] exI [of _ "(Env c1)\<lparr>eMailFrom := m\<rparr>"]) simp
  qed
  then show ?thesis using cmd_ok_Env cmd_ok_send by metis
qed

lemma cmd_simple_ok:
  assumes "cmd_ok en c" and "cstate c = ClientCmd"
  shows "cmd_HELP c w = (c', w') \<Longrightarrow> cmd_ok en c'" "cmd_DATA c w = (c', w') \<Longrightarrow> cmd_ok en c'"
    "cmd_STARTTLS c w = (c', w') \<Longrightarrow> cmd_ok en c'" "cmd_QUIT c w = (c', w') \<Longrightarrow> cmd_ok en c'"
    "cmd_unknown c w = (c', w') \<Longrightarrow> cmd_ok en c'"
  using assms
  by (auto simp: cmd_HELP_def cmd_DATA_def cmd_STARTTLS_def cmd_QUIT_def cmd_unknown_def cmd_ok_def kill_def
      Let_def sendResponse_fields split: prod.splits if_splits)

subsection \<open>The backend contract\<close>

text \<open>
  What the session relies on: validating a recipient leaves the recipients and the data of the
  envelope as they are.
\<close>

definition keeps_envelope :: "'b env \<Rightarrow> bool" where
  "keeps_envelope en \<longleftrightarrow> (\<forall>e b r e' b'. validateRcpt en e b = (r, e', b') \<longrightarrow>
     eRcptTo e' = eRcptTo e \<and> eData e' = eData e)"

locale smtp_backend =
  fixes en :: "'b env"
  assumes validate_keeps: "validateRcpt en e b = (r, e', b') \<Longrightarrow> eRcptTo e' = eRcptTo e \<and> eData e' = eData e"
begin

lemma rcpt_accept_ok:
  assumes "rcpt_accept en to c w = Ret (c', w')" and "cmd_ok en c" and "cstate c = ClientCmd"
    and "length (eRcptTo (Env c)) \<le> LimitRecipients" and "Authed c \<or> rcpt_allowed en to"
  shows "cmd_ok en c'"
proof -
  obtain r e b where v: "validateRcpt en (PushRcpt (Env c) to) (bstate w) = (r, e, b)" using prod_cases3 by blast
  then have e: "eRcptTo e = eRcptTo (Env c) @ [to]" "eData e = eData (Env c)"
    using validate_keeps [OF v] by (simp_all add: PushRcpt_def)
  have "cmd_ok en (c\<lparr>Env := e\<rparr>)" using assms(2-5) e by (auto simp: cmd_ok_def env_ok_def)
  moreover have "cmd_ok en (c\<lparr>Env := e\<lparr>eRcptTo := eRcptTo (Env c)\<rparr>\<rparr>)"
    using assms(2) e by (auto intro: cmd_ok_Env)
  moreover have "\<exists>items v. sendResponse items (c\<lparr>Env := e\<rparr>) v = (c', w')
      \<or> sendResponse items (c\<lparr>Env := e\<lparr>eRcptTo := eRcptTo (Env c)\<rparr>\<rparr>) v = (c', w')"
    using assms(1) v e by (auto simp: rcpt_accept_def Let_def PopRcpt_def split: option.splits)
  ultimately show ?thesis using cmd_ok_send by blast
qed

lemma rcpt_accept_no_panic: "\<not> panics (rcpt_accept en to c w)"
proof -
  obtain r e b where v: "validateRcpt en (PushRcpt (Env c) to) (bstate w) = (r, e, b)" using prod_cases3 by blast
  then have "eRcptTo e \<noteq> []" using validate_keeps [OF v] by (simp add: PushRcpt_def)
  with v show ?thesis by (auto simp: rcpt_accept_def Let_def PopRcpt_def split: option.splits)
qed

lemma cmd_RCPT_ok:
  assumes "cmd_RCPT en inp c w = Ret (c', w')" and "cmd_ok en c" and "cstate c = ClientCmd"
  shows "cmd_ok en c'"
proof (cases "length (eRcptTo (Env c)) > LimitRecipients")
  case True
  with assms show ?thesis by (auto simp: cmd_RCPT_def cmd_ok_send)
next
  case False
  then obtain arg to err c1 where 1: "parsePath c arg (\<lambda>ps i. Ret (RcptTo ps i)) = Ret (to, err, c1)"
    and 2: "(case err of
                 Some e \<Rightarrow> Ret (sendResponse [e] c1 w)
               | None \<Rightarrow>
                   (let to = defaultHost (Hostname (sc en)) to
                    in if \<not> rcpt_allowed en to \<and> \<not> Authed c1 then
                         (if authenticator en \<noteq> None
                          then Ret (sendResponse [''530 5.7.0 Authentication required''] c1 w)
                          else Ret (sendResponse [resp_str ErrorRelayDenied, '' '', Host to] c1 w))
                       else rcpt_accept en to c1 w)) = Ret (c', w')"
    using assms(1) by (auto simp: cmd_RCPT_def bind_outcome_Ret_iff)
  have ok: "cmd_ok en c1" using parsePath_RcptTo_ok [OF 1 assms(2)] .
  have st: "cstate c1 = ClientCmd" "Env c1 = Env c"
    using parsePath_client [OF 1] assms(3) by (metis client.select_convs client.surjective client.update_convs(12))+
  let ?to = "defaultHost (Hostname (sc en)) to"
  have "(\<exists>items. sendResponse items c1 w = (c', w')) \<or>
      (rcpt_accept en ?to c1 w = Ret (c', w') \<and> (Authed c1 \<or> rcpt_allowed en ?to))"
    using 2 by (auto simp: Let_def split: option.splits if_splits)
  then show ?thesis using ok st False cmd_ok_send rcpt_accept_ok by (metis not_less)
qed

lemma dispatch_ok:
  assumes "dispatch en inp c w = Ret (c', w')" and "cmd_ok en c" and "cstate c = ClientCmd"
  shows "cmd_ok en c'"
proof -
  have reset: "cmd_ok en (resetTransaction c)" using assms(2,3) by (simp add: cmd_ok_reset)
  show ?thesis
    using assms reset unfolding dispatch_def Let_def
    by (auto split: if_splits intro: cmd_HELO_ok cmd_EHLO_ok cmd_AUTH_ok cmd_XCLIENT_ok cmd_MAIL_ok cmd_RCPT_ok
        cmd_simple_ok simp: cmd_ok_send)
qed

lemma parsePath_no_panic:
  "\<not> panics (parsePath c inp MailFrom)" "\<not> panics (parsePath c inp (\<lambda>ps i. Ret (RcptTo ps i)))"
  using MailFrom_Ret [of "prs c" inp]
  by (auto simp: parsePath_def Let_def panics_bind split: prod.splits if_splits)

lemma dispatch_panic:
  assumes "panics (dispatch en inp c w)"
  shows "XClientOn (sc en)"
proof (rule ccontr)
  assume x: "\<not> XClientOn (sc en)"
  let ?cmd = "to_upper (take (if length inp > CommandVerbMaxLength then CommandVerbMaxLength else length inp) inp)"
  have len: "cmd_match v ?cmd \<Longrightarrow> length v \<le> length inp" for v by (rule cmd_match_length)
  have s4: "cmd_match ''HELO'' ?cmd \<or> cmd_match ''EHLO'' ?cmd \<Longrightarrow> slice_from inp 4 = Ret (drop 4 inp)"
    using len [of "''HELO''"] len [of "''EHLO''"] slice_from_ok [of 4 inp] by auto
  have s10: "cmd_match ''MAIL FROM:'' ?cmd \<Longrightarrow> slice_from inp 10 = Ret (drop 10 inp)"
    using len [of "''MAIL FROM:''"] slice_from_ok [of 10 inp] by auto
  have s8: "cmd_match ''RCPT TO:'' ?cmd \<Longrightarrow> slice_from inp 8 = Ret (drop 8 inp)"
    using len [of "''RCPT TO:''"] slice_from_ok [of 8 inp] by auto
  have helo: "cmd_match ''HELO'' ?cmd \<Longrightarrow> \<not> panics (cmd_HELO en inp c w)"
    using s4 by (auto simp: cmd_HELO_def Let_def split: prod.splits)
  have ehlo: "cmd_match ''EHLO'' ?cmd \<Longrightarrow> \<not> panics (cmd_EHLO en inp c w)"
    using s4 by (auto simp: cmd_EHLO_def Let_def split: prod.splits)
  have mail: "cmd_match ''MAIL FROM:'' ?cmd \<Longrightarrow> \<not> panics (cmd_MAIL inp c w)"
    using s10 parsePath_no_panic
    by (auto simp: cmd_MAIL_def Let_def panics_bind split: prod.splits option.splits if_splits)
  have rcpt: "cmd_match ''RCPT TO:'' ?cmd \<Longrightarrow> \<not> panics (cmd_RCPT en inp c w)"
    using s8 parsePath_no_panic rcpt_accept_no_panic
    by (auto simp: cmd_RCPT_def Let_def panics_bind split: prod.splits option.splits if_splits)
  show False using assms x helo ehlo mail rcpt unfolding dispatch_def Let_def by (auto split: if_splits)
qed

end

subsection \<open>Turns keep the invariant\<close>

lemma accepted_processed:
  assumes "cmd_ok en c" and "eRcptTo e = eRcptTo (Env c)" and "eRcptTo e \<noteq> []"
    and "int (length (eData e)) \<le> MaxSize (sc en)"
  shows "accepted en e (Authed c)"
  using assms by (auto simp: cmd_ok_def env_ok_def accepted_def)

lemma isShuttingDown_world: "processed (snd (isShuttingDown w)) = processed w"
  by (simp add: isShuttingDown_def case_prod_unfold)

lemma data_process_shape:
  assumes "data_process en c w = (c', w')"
  defines "c1 \<equiv> (if Authed c \<and> AuthTenant c \<noteq> None
    then c\<lparr>Env := SetEnvelopeTenantSend (Env c) (AuthTenant c)\<rparr> else c)"
  shows "processed w' = processed w @ [(Env c1, Authed c1)] \<and> Authed c' = Authed c1 \<and> errs c' = errs c1
    \<and> Killed c' = Killed c1 \<and> prs c' = prs c1 \<and> cstate c' \<noteq> ClientData
    \<and> (\<exists>res e b. process en (Env c1) (bstate w) = (res, e, b) \<and> Env c' = ResetTransaction e)"
proof -
  obtain res e b where p: "process en (Env c1) (bstate w) = (res, e, b)" using prod_cases3 by blast
  define c2 where "c2 = (if result_Code res < 300
    then c1\<lparr>Env := e, messagesSent := messagesSent c1 + 1\<rparr> else c1\<lparr>Env := e\<rparr>)"
  have c2: "Env c2 = e" "Authed c2 = Authed c1" "errs c2 = errs c1" "Killed c2 = Killed c1" "prs c2 = prs c1"
    by (simp_all add: c2_def)
  let ?w = "w\<lparr>processed := processed w @ [(Env c1, Authed c1)], bstate := b\<rparr>"
  obtain c3 w3 where 3: "sendResponse [res] c2 ?w = (c3, w3)" by fastforce
  obtain sd w4 where 4: "isShuttingDown w3 = (sd, w4)" by fastforce
  have "(c', w') = (resetTransaction (c3\<lparr>cstate := if sd then ClientShutdown else ClientCmd\<rparr>), w4)"
    unfolding assms(1) [symmetric] data_process_def Let_def c1_def [symmetric]
    using p 3 4 by (cases "result_Code res < 300") (simp_all add: c2_def)
  moreover have "processed w4 = processed w3" using isShuttingDown_world [of w3] 4 by simp
  ultimately show ?thesis using sendResponse_fields [OF 3] c2 p by (simp add: resetTransaction_def)
qed

lemma data_process_ok:
  assumes "data_process en (c\<lparr>Env := (Env c)\<lparr>eData := eData (Env c) @ d\<rparr>\<rparr>) w = (c', w')"
    and "sess_ok en c w" and "cstate c = ClientData" and "int (length d) \<le> MaxSize (sc en)"
  shows "sess_ok en c' w'"
proof -
  define c1 where "c1 = (let c = c\<lparr>Env := (Env c)\<lparr>eData := eData (Env c) @ d\<rparr>\<rparr> in
    if Authed c \<and> AuthTenant c \<noteq> None then c\<lparr>Env := SetEnvelopeTenantSend (Env c) (AuthTenant c)\<rparr> else c)"
  have ok: "cmd_ok en c" and pr: "\<forall>(e, a) \<in> set (processed w). accepted en e a"
    using assms(2) by (simp_all add: sess_ok_def)
  have ne: "eRcptTo (Env c) \<noteq> []" and d0: "eData (Env c) = []"
    using ok assms(3) by (auto simp: cmd_ok_def env_ok_def)
  have c1: "eRcptTo (Env c1) = eRcptTo (Env c)" "eData (Env c1) = d" "Authed c1 = Authed c" "errs c1 = errs c"
    "Killed c1 = Killed c" "prs c1 = prs c"
    using d0 by (auto simp: c1_def Let_def SetEnvelopeTenantSend_def split: option.splits)
  have acc: "accepted en (Env c1) (Authed c)"
    using ok ne c1 assms(4) by (intro accepted_processed) auto
  have "processed w' = processed w @ [(Env c1, Authed c)] \<and> Authed c' = Authed c \<and> errs c' = errs c
      \<and> Killed c' = Killed c \<and> prs c' = prs c \<and> cstate c' \<noteq> ClientData \<and> (\<exists>e. Env c' = ResetTransaction e)"
    using assms(1) c1 data_process_shape [OF assms(1)]
    unfolding c1_def [unfolded Let_def, symmetric] by (auto simp: isShuttingDown_world)
  with ok pr acc show ?thesis by (auto simp: sess_ok_def cmd_ok_def env_ok_reset)
qed

lemma data_failed_ok:
  assumes "data_failed err (c\<lparr>Env := e\<rparr>) w = (c', w')" and "sess_ok en c v" and "processed w = processed v"
  shows "Killed c' \<and> env_ok en (Authed c') (Env c') \<and> processed w' = processed v \<and> parser_ok (prs c')
    \<and> (Authed c' \<longrightarrow> authenticator en \<noteq> None)"
  using assms by (auto simp: data_failed_def resetTransaction_def kill_def sess_ok_def cmd_ok_def sendResponse_fields
      env_ok_reset split: prod.splits)

definition end_ok :: "'b env \<Rightarrow> client \<Rightarrow> 'b world \<Rightarrow> bool" where
  "end_ok en c w \<longleftrightarrow> (\<forall>(e, a) \<in> set (processed w). accepted en e a) \<and> (Killed c \<or> sess_ok en c w)"

lemma sess_ok_end: "sess_ok en c w \<Longrightarrow> end_ok en c w"
  by (simp add: end_ok_def sess_ok_def)

lemma turn_data_ok:
  assumes "turn_data en c w = Fall c' w'" and "sess_ok en c w" and "cstate c = ClientData"
  shows "end_ok en c' w'"
proof -
  obtain d err ds where p: "pop ([], Some (ReadErr ''unexpected EOF'')) (dataReads w) = ((d, err), ds)" by (metis surj_pair)
  let ?c = "c\<lparr>Env := (Env c)\<lparr>eData := eData (Env c) @ d\<rparr>\<rparr>" and ?w = "w\<lparr>dataReads := ds\<rparr>"
  have ok: "sess_ok en c ?w" using assms(2) by (simp add: sess_ok_def)
  show ?thesis
  proof (cases "data_error en d err")
    case None
    then have "data_process en ?c ?w = (c', w')" using assms(1) p by (auto simp: turn_data_def Let_def split: prod.splits)
    moreover have "int (length d) \<le> MaxSize (sc en)" using None by (auto simp: data_error_def split: if_splits)
    ultimately show ?thesis using data_process_ok ok assms(3) sess_ok_end by blast
  next
    case (Some e)
    then have "data_failed e ?c ?w = (c', w')" using assms(1) p by (auto simp: turn_data_def Let_def split: prod.splits)
    from data_failed_ok [OF this assms(2)] show ?thesis using assms(2) by (auto simp: end_ok_def sess_ok_def)
  qed
qed

lemma upgradeToTLS_cases:
  "upgradeToTLS c w = (ok, c1, w1) \<Longrightarrow>
   processed w1 = processed w \<and> reads w1 = reads w \<and>
   c1 = (if ok then c\<lparr>bufout := [], Env := (Env c)\<lparr>eTLS := True\<rparr>\<rparr> else c)"
  by (auto simp: upgradeToTLS_def case_prod_unfold)

lemma turn_starttls_cases:
  assumes "turn_starttls en c w = Fall c' w'"
  shows "processed w' = processed w \<and> (c' = c\<lparr>cstate := ClientCmd\<rparr> \<or> c' = (kill c)\<lparr>cstate := ClientCmd\<rparr>
    \<or> \<not> eTLS (Env c) \<and> c' = c\<lparr>bufout := [], advertiseTLS := False, Authed := False, AuthUser := [], AuthTenant := None,
         Env := (ResetTransaction ((Env c)\<lparr>eTLS := True\<rparr>))\<lparr>eESMTP := False\<rparr>, cstate := ClientCmd\<rparr>)"
proof -
  obtain ok c1 w1 where u: "upgradeToTLS c w = (ok, c1, w1)" using prod_cases3 by blast
  show ?thesis using assms u upgradeToTLS_cases [OF u]
    by (cases ok) (auto simp: turn_starttls_def resetTransaction_def Let_def split: if_splits)
qed

lemma turn_starttls_ok:
  assumes "turn_starttls en c w = Fall c' w'" and "sess_ok en c w" and "cstate c = ClientStartTLS"
  shows "sess_ok en c' w'"
  using turn_starttls_cases [OF assms(1)] assms(2)
  by (elim conjE disjE) (simp_all add: sess_ok_def cmd_ok_def env_ok_def ResetTransaction_def kill_def)

lemma turn_greeting_ok: "turn_greeting en c w = Fall c' w' \<Longrightarrow> sess_ok en c w \<Longrightarrow> sess_ok en c' w'"
  by (auto simp: turn_greeting_def sess_ok_def cmd_ok_def sendResponse_fields split: prod.splits)

lemma turn_shutdown_ok: "turn_shutdown c w = Fall c' w' \<Longrightarrow> sess_ok en c w \<Longrightarrow> sess_ok en c' w'"
  by (auto simp: turn_shutdown_def sess_ok_def cmd_ok_def kill_def sendResponse_fields split: prod.splits)

lemma readCommand_processed: "readCommand w = (r, w') \<Longrightarrow> processed w' = processed w"
  by (auto simp: readCommand_def split: prod.splits slice_result.splits)

lemma flush_turn_ok:
  assumes "flush_turn c w = Cont c' w' \<or> flush_turn c w = Return c' w'" and "end_ok en c w"
  shows "end_ok en c' w'"
  using flush_turn_frame [OF assms(1)] assms(2) same_client_fields [of c c'] same_world_fields [of w w']
  by (auto simp: end_ok_def sess_ok_def cmd_ok_def)

context smtp_backend
begin

lemma turn_cmd_ok:
  assumes "turn_cmd en c w = Ret t" and "sess_ok en c w" and "cstate c = ClientCmd"
    and "t = Fall c' w' \<or> t = Cont c' w' \<or> t = Return c' w'"
  shows "sess_ok en c' w'"
proof -
  obtain inp err w1 where r: "readCommand w = ((inp, err), w1)" by (metis surj_pair)
  have p1: "processed w1 = processed w" using readCommand_processed [OF r] .
  obtain sd w2 where sd: "isShuttingDown w1 = (sd, w2)" by fastforce
  have p2: "processed w2 = processed w" using sd p1 by (auto simp: isShuttingDown_def split: prod.splits)
  have ok: "cmd_ok en c" and pr: "\<forall>(e, a) \<in> set (processed w). accepted en e a"
    using assms(2) by (simp_all add: sess_ok_def)
  have disp: "dispatch en inp c w2 = Ret (c', w') \<Longrightarrow> sess_ok en c' w'"
    using dispatch_ok [OF _ ok assms(3)] dispatch_frame [of en inp c w2 c' w'] p2 pr
    by (auto simp: sess_ok_def world_frame_def)
  show ?thesis
  proof (cases err)
    case None
    with assms(1,4) r sd have "c' = c\<lparr>cstate := ClientShutdown\<rparr> \<and> w' = w2 \<or> dispatch en inp c w2 = Ret (c', w')"
      by (auto simp: turn_cmd_def bind_outcome_Ret_iff split: if_splits)
    then show ?thesis using disp ok pr p2 by (auto simp: sess_ok_def cmd_ok_def)
  next
    case (Some e)
    with assms(1,4) r have "(c', w') \<in> {(c, w1), (kill c, w1)} \<or>
        (\<exists>items c1. sendResponse items c w1 = (c1, w') \<and> c' = kill c1)"
      by (auto simp: turn_cmd_def split: rerr.splits prod.splits)
    then show ?thesis using ok pr p1
      by (auto simp: sess_ok_def cmd_ok_kill cmd_ok_send sendResponse_fields)
  qed
qed

lemma turn_ok:
  assumes "turn en c w = Ret t" and "sess_ok en c w" and "t = Cont c' w' \<or> t = Return c' w'"
  shows "end_ok en c' w'"
proof -
  obtain u where u: "turn_state en c w = Ret u" using assms(1) by (cases "turn_state en c w") (auto simp: turn_def)
  have st: "u = Fall c1 w1 \<or> u = Cont c1 w1 \<or> u = Return c1 w1 \<Longrightarrow> end_ok en c1 w1" for c1 w1
    using u turn_falls(1) [of en c w] turn_falls(2) [of en c w] turn_falls(3) [of en c w] turn_falls(4) [of c w]
    by (cases "cstate c")
      (use assms(2) in \<open>auto simp: turn_state_def intro: sess_ok_end turn_greeting_ok turn_data_ok turn_starttls_ok
         turn_shutdown_ok turn_cmd_ok\<close>)
  show ?thesis
  proof (cases u)
    case (Fall c1 w1)
    with assms(1,3) u have "flush_turn c1 w1 = Cont c' w' \<or> flush_turn c1 w1 = Return c' w'"
      by (auto simp: turn_def)
    with flush_turn_ok st Fall show ?thesis by blast
  qed (use assms(1,3) u st in \<open>auto simp: turn_def\<close>)
qed

lemma turn_no_panic:
  assumes "\<not> XClientOn (sc en)"
  shows "\<exists>t. turn en c w = Ret t \<and> (\<forall>c' w'. t \<noteq> Fall c' w')"
proof -
  have "\<exists>t. turn_state en c w = Ret t"
  proof (cases "cstate c")
    case ClientCmd
    have "\<exists>t. bind_outcome (dispatch en i d v) (\<lambda>(c, w). Ret (Fall c w)) = Ret t" for i d v
      using dispatch_panic [of i d v] assms by (cases "dispatch en i d v") (auto split: prod.splits)
    with ClientCmd show ?thesis
      by (auto simp: turn_state_def turn_cmd_def split: prod.splits option.splits rerr.splits)
  qed (simp_all add: turn_state_def)
  then obtain u where "turn_state en c w = Ret u" by blast
  then show ?thesis using flush_turn_not_Fall by (cases u) (auto simp: turn_def)
qed

lemma handle_loop_ok:
  "sess_ok en c w \<or> Killed c \<and> end_ok en c w \<Longrightarrow> handle_loop en c w = Ret (c', w') \<Longrightarrow>
   \<forall>(e, a) \<in> set (processed w'). accepted en e a"
proof (induction "meas c w" arbitrary: c w rule: less_induct)
  case less
  show ?case
  proof (cases "Killed c")
    case True
    then show ?thesis using less.prems
      by (subst (asm) handle_loop.simps) (auto simp: isAlive_def end_ok_def sess_ok_def)
  next
    case False
    then have ok: "sess_ok en c w" using less.prems by simp
    obtain t where t: "turn en c w = Ret t"
      using less.prems(2) False by (subst (asm) handle_loop.simps) (auto simp: isAlive_def split: outcome.splits)
    show ?thesis
    proof (cases t)
      case (Cont c1 w1)
      have "end_ok en c1 w1" using turn_ok [OF t ok] Cont by blast
      moreover have "handle_loop en c1 w1 = Ret (c', w')"
        using less.prems(2) False t Cont by (subst (asm) handle_loop.simps) (simp add: isAlive_def)
      moreover have "meas c1 w1 < meas c w" using turn_meas t Cont False by blast
      ultimately show ?thesis using less.hyps [of c1 w1] by (auto simp: end_ok_def)
    next
      case (Return c1 w1)
      then have "end_ok en c1 w1" using turn_ok [OF t ok] by blast
      then show ?thesis using less.prems(2) False t Return
        by (subst (asm) handle_loop.simps) (simp add: isAlive_def end_ok_def)
    next
      case (Fall c1 w1)
      with t show ?thesis using flush_turn_not_Fall
        by (cases "turn_state en c w") (auto simp: turn_def split: turn.splits)
    qed
  qed
qed

lemma handle_loop_no_panic: "\<not> XClientOn (sc en) \<Longrightarrow> \<exists>c' w'. handle_loop en c w = Ret (c', w')"
proof (induction "meas c w" arbitrary: c w rule: less_induct)
  case less
  obtain t where t: "turn en c w = Ret t" "\<forall>c' w'. t \<noteq> Fall c' w'" using turn_no_panic less.prems by blast
  show ?case
    using t turn_meas [of en c w] less.hyps less.prems
    by (subst handle_loop.simps) (auto simp: isAlive_def split: turn.split)
qed

end

subsection \<open>Sessions from the start\<close>

text \<open>A client at the start of a session whose envelope carries nothing of an earlier one.\<close>

definition fresh_session :: "client \<Rightarrow> bool" where
  "fresh_session c \<longleftrightarrow> \<not> Authed c \<and> \<not> Killed c \<and> errs c = 0 \<and> cstate c = ClientGreeting
     \<and> eRcptTo (Env c) = [] \<and> eData (Env c) = [] \<and> parser_ok (prs c)"

lemma fresh_New: "fresh_session (NewClient (NewEnvelope a q) i)"
  by (simp add: fresh_session_def NewClient_def NewEnvelope_def parser_ok_def)

lemma start_session_ok:
  assumes "fresh_session c" and "processed w = []" and "start_session en c w = (c', w')"
  shows "sess_ok en c' w' \<or> Killed c' \<and> end_ok en c' w'"
proof -
  obtain ok c1 w1 where u: "upgradeToTLS (c\<lparr>advertiseTLS := True\<rparr>) w = (ok, c1, w1)" using prod_cases3 by blast
  have "processed w' = [] \<and> Authed c' = Authed c \<and> errs c' = errs c \<and> cstate c' = cstate c \<and> prs c' = prs c
      \<and> eRcptTo (Env c') = eRcptTo (Env c) \<and> eData (Env c') = eData (Env c)"
    using assms(2,3) u upgradeToTLS_cases [OF u]
    by (cases ok) (auto simp: start_session_def kill_def Let_def split: if_splits)
  with assms(1) show ?thesis by (simp add: fresh_session_def sess_ok_def cmd_ok_def env_ok_def)
qed

lemma smtp_backend_iff: "smtp_backend en \<longleftrightarrow> keeps_envelope en"
  unfolding smtp_backend_def keeps_envelope_def by meson

definition demo_env :: "unit env" where
  "demo_env = \<lparr>sc = \<lparr>Hostname = ''mx'', MaxSize = 20, XClientOn = False, StartTLSOn = False, AlwaysOn = False\<rparr>,
     hosts = setAllowedHosts [''ok.org''], tlsLoaded = False, version = ''1'', activeClients = 1, now = ''now'',
     authenticator = None, process = (\<lambda>e b. (''250 ok'', e, b)), validateRcpt = (\<lambda>e b. (None, e, b))\<rparr>"

definition demo_world :: "bytes list \<Rightarrow> unit world" where
  "demo_world lines = \<lparr>reads = map (\<lambda>l. Slice (l @ [CHR 0x0D])) lines, dataReads = [(''hi'', None)], handshakes = [],
     writes = [], shutdowns = [], quotes = [], sent = [], bstate = (), processed = []\<rparr>"

definition demo_client :: client where
  "demo_client = NewClient (NewEnvelope ''::1'' ''q'') 1"

subsection \<open>Who sets Authed\<close>

lemma parsePath_authed: "parsePath c inp p = Ret (a, err, c') \<Longrightarrow> Authed c' = Authed c"
  by (auto simp: parsePath_def Let_def bind_outcome_Ret_iff split: if_splits prod.splits)

lemma xclient_authed: "Authed (xclient_toks toks c) = Authed c"
  by (induction toks arbitrary: c) (simp_all add: Let_def)

lemma rcpt_accept_authed: "rcpt_accept en to c w = Ret (c', w') \<Longrightarrow> Authed c' = Authed c"
  by (auto simp: rcpt_accept_def Let_def bind_outcome_Ret_iff sendResponse_fields split: prod.splits option.splits)

lemma cmd_authed:
  "cmd_HELO en inp c w = Ret (c', w') \<Longrightarrow> Authed c' = Authed c"
  "cmd_EHLO en inp c w = Ret (c', w') \<Longrightarrow> Authed c' = Authed c"
  "cmd_XCLIENT inp c w = Ret (c', w') \<Longrightarrow> Authed c' = Authed c"
  "cmd_MAIL inp c w = Ret (c', w') \<Longrightarrow> Authed c' = Authed c"
  "cmd_RCPT en inp c w = Ret (c', w') \<Longrightarrow> Authed c' = Authed c"
proof -
  show "cmd_HELO en inp c w = Ret (c', w') \<Longrightarrow> Authed c' = Authed c"
    by (erule cmd_HELO_cases) (simp_all add: sendResponse_fields [OF sym] resetTransaction_def)
  show "cmd_EHLO en inp c w = Ret (c', w') \<Longrightarrow> Authed c' = Authed c"
    by (erule cmd_EHLO_cases) (auto simp: sendResponse_fields [OF sym] sendResponse_fields resetTransaction_def)
  show "cmd_XCLIENT inp c w = Ret (c', w') \<Longrightarrow> Authed c' = Authed c"
    by (auto simp: cmd_XCLIENT_def bind_outcome_Ret_iff sendResponse_fields xclient_authed)
  show "cmd_MAIL inp c w = Ret (c', w') \<Longrightarrow> Authed c' = Authed c"
    by (auto simp: cmd_MAIL_def bind_outcome_Ret_iff Let_def sendResponse_fields
        split: if_splits option.splits prod.splits dest!: parsePath_authed)
  show "cmd_RCPT en inp c w = Ret (c', w') \<Longrightarrow> Authed c' = Authed c"
    by (auto simp: cmd_RCPT_def bind_outcome_Ret_iff Let_def sendResponse_fields
        split: if_splits option.splits prod.splits dest!: parsePath_authed rcpt_accept_authed)
qed

lemma cmd_authed_simple:
  "cmd_HELP c w = (c', w') \<Longrightarrow> Authed c' = Authed c" "cmd_DATA c w = (c', w') \<Longrightarrow> Authed c' = Authed c"
  "cmd_STARTTLS c w = (c', w') \<Longrightarrow> Authed c' = Authed c" "cmd_QUIT c w = (c', w') \<Longrightarrow> Authed c' = Authed c"
  "cmd_unknown c w = (c', w') \<Longrightarrow> Authed c' = Authed c"
  "sendResponse items (resetTransaction c) w = (c', w') \<Longrightarrow> Authed c' = Authed c"
  "sendResponse items c w = (c', w') \<Longrightarrow> Authed c' = Authed c"
  by (auto simp: cmd_HELP_def cmd_DATA_def cmd_STARTTLS_def cmd_QUIT_def cmd_unknown_def kill_def resetTransaction_def
      Let_def sendResponse_fields case_prod_unfold split: if_splits)

lemma dispatch_authed:
  "dispatch en inp c w = Ret (c', w') \<Longrightarrow> Authed c' = Authed c \<or> cmd_AUTH en inp c w = (c', w')"
  unfolding dispatch_def Let_def
  by (simp split: if_splits add: cmd_authed cmd_authed_simple)

lemma turn_not_authed:
  assumes "\<not> Authed c"
  shows "turn_greeting en c w = Fall c' w' \<Longrightarrow> \<not> Authed c'" "turn_data en c w = Fall c' w' \<Longrightarrow> \<not> Authed c'"
    "turn_starttls en c w = Fall c' w' \<Longrightarrow> \<not> Authed c'" "turn_shutdown c w = Fall c' w' \<Longrightarrow> \<not> Authed c'"
proof -
  show "\<not> Authed c'" if h: "turn_data en c w = Fall c' w'"
  proof -
    obtain d err ds where p: "pop ([], Some (ReadErr ''unexpected EOF'')) (dataReads w) = ((d, err), ds)" by (metis surj_pair)
    let ?c = "c\<lparr>Env := (Env c)\<lparr>eData := eData (Env c) @ d\<rparr>\<rparr>" and ?w = "w\<lparr>dataReads := ds\<rparr>"
    have "data_process en ?c ?w = (c', w') \<or> (\<exists>e. data_failed e ?c ?w = (c', w'))"
      using h p by (auto simp: turn_data_def Let_def split: option.splits prod.splits)
    then show ?thesis using assms data_process_shape [of en ?c ?w c' w']
      by (auto simp: data_failed_def resetTransaction_def kill_def case_prod_unfold)
  qed
  show "\<not> Authed c'" if "turn_starttls en c w = Fall c' w'"
    using turn_starttls_cases [OF that] assms by (auto simp: kill_def)
qed (use assms in \<open>auto simp: turn_greeting_def turn_shutdown_def kill_def case_prod_unfold\<close>)

lemma turn_cmd_authed:
  assumes "turn_cmd en c w = Ret u" and "u = Fall c1 w1 \<or> u = Cont c1 w1 \<or> u = Return c1 w1"
  shows "Authed c1 = Authed c \<or> (\<exists>inp w2. cmd_AUTH en inp c w2 = (c1, w1))"
  using assms by (auto simp: turn_cmd_def bind_outcome_Ret_iff kill_def sendResponse_fields
      split: prod.splits option.splits rerr.splits if_splits dest!: dispatch_authed)

lemma turn_authed:
  assumes "turn en c w = Ret t" and "t = Cont c' w' \<or> t = Return c' w'" and "\<not> Authed c" and "Authed c'"
  shows "\<exists>inp w1 c1 w2. cmd_AUTH en inp c w1 = (c1, w2) \<and> Authed c1 \<and> AuthUser c' = AuthUser c1 \<and> AuthTenant c' = AuthTenant c1"
proof -
  obtain u where u: "turn_state en c w = Ret u" using assms(1) by (cases "turn_state en c w") (auto simp: turn_def)
  obtain c1 w1 where c1: "u = Fall c1 w1 \<or> u = Cont c1 w1 \<or> u = Return c1 w1" by (cases u) auto
  have "\<not> Authed c1 \<or> (\<exists>inp w2. cmd_AUTH en inp c w2 = (c1, w1))"
    using u c1 assms(3) turn_cmd_authed [of en c w u c1 w1]
      turn_falls(1) [of en c w] turn_falls(2) [of en c w] turn_falls(3) [of en c w] turn_falls(4) [of c w]
    by (cases "cstate c") (auto simp: turn_state_def dest: turn_not_authed [OF assms(3)])
  moreover have "Authed c' = Authed c1 \<and> AuthUser c' = AuthUser c1 \<and> AuthTenant c' = AuthTenant c1"
    using assms(1,2) u c1 flush_turn_frame [of c1 w1 c' w'] same_client_fields [of c1 c'] by (auto simp: turn_def)
  ultimately show ?thesis using assms(4) by blast
qed

end
