(* ===== verification/Gateway.thy ===== *)
theory Gateway
  imports Session_Safety
begin

section \<open>The backend gateway (backends/gateway.go)\<close>

text \<open>
  The gateway that every server talks to: its state machine (\<open>Initialize\<close>, \<open>Start\<close>, \<open>Shutdown\<close>,
  \<open>Reinitialize\<close>), the processor stacks it builds from the configuration, and the two requests,
  \<open>Process\<close> and \<open>ValidateRcpt\<close>, as functions of what the worker reports.

  A constructor of the registry runs when a stack is built: it returns a decorator and may register
  hooks with the service and change the outside state. \<open>workStoppers\<close> keeps for each stop channel
  whether a goroutine still listens to it; a send to one nobody listens to blocks, and an operation
  that blocks for ever is \<open>None\<close>. The conveyor is its capacity, \<open>None\<close> while it is nil. The
  workers themselves are the step relation of the theory Dispatcher.
\<close>

subsection \<open>State\<close>

datatype backendState = BackendStateNew | BackendStateRunning | BackendStateShuttered | BackendStateError
  | BackendStateInitialized

fun backendState_String :: "backendState \<Rightarrow> bytes" where
  "backendState_String BackendStateNew = ''NewState''"
| "backendState_String BackendStateRunning = ''RunningState''"
| "backendState_String BackendStateShuttered = ''ShutteredState''"
| "backendState_String BackendStateError = ''ErrorSate''"
| "backendState_String BackendStateInitialized = ''InitializedState''"

record gatewayConfig =
  WorkersSize :: int
  SaveProcess :: bytes
  ValidateProcess :: bytes
  TimeoutSave :: bytes
  TimeoutValidateRcpt :: bytes

datatype 'b stack = NoopProcessor | Stack "'b processor"

fun stack_Process :: "'b stack \<Rightarrow> 'b processor" where
  "stack_Process NoopProcessor e task b = DefaultProcessor e task b"
| "stack_Process (Stack p) e task b = p e task b"

record 'b gateway =
  conveyor :: "nat option"
  workStoppers :: "bool list"
  gw_processors :: "'b stack list"
  gw_validators :: "'b stack list"
  gState :: backendState
  gConfig :: backendConfig
  gwConfig :: "gatewayConfig option"

definition new_gateway :: "'b gateway" where
  "new_gateway = \<lparr>conveyor = None, workStoppers = [], gw_processors = [], gw_validators = [],
     gState = BackendStateNew, gConfig = [], gwConfig = None\<rparr>"

subsection \<open>Configuration\<close>

definition gateway_fields :: "field list" where
  "gateway_fields =
     [\<lparr>f_json = ''save_workers_size,omitempty'', f_name = ''WorkersSize'', f_type = FInt\<rparr>,
      \<lparr>f_json = ''save_process,omitempty'', f_name = ''SaveProcess'', f_type = FString\<rparr>,
      \<lparr>f_json = ''validate_process,omitempty'', f_name = ''ValidateProcess'', f_type = FString\<rparr>,
      \<lparr>f_json = ''gw_save_timeout,omitempty'', f_name = ''TimeoutSave'', f_type = FString\<rparr>,
      \<lparr>f_json = ''gw_val_rcpt_timeout,omitempty'', f_name = ''TimeoutValidateRcpt'', f_type = FString\<rparr>]"

text \<open>A field that was not set has its zero value.\<close>

fun jint :: "jvalue option \<Rightarrow> int" where
  "jint (Some (JInt n)) = n"
| "jint v = 0"

fun jstr :: "jvalue option \<Rightarrow> bytes" where
  "jstr (Some (JStr s)) = s"
| "jstr v = []"

definition loadConfig :: "'b gateway \<Rightarrow> backendConfig \<Rightarrow> bytes option \<times> 'b gateway" where
  "loadConfig gw cfg =
     (case ExtractConfig cfg gateway_fields of
        Inl err \<Rightarrow> (Some err, gw)
      | Inr vs \<Rightarrow> (None, gw\<lparr>gwConfig := Some
          \<lparr>WorkersSize = jint (map_of vs ''WorkersSize''), SaveProcess = jstr (map_of vs ''SaveProcess''),
           ValidateProcess = jstr (map_of vs ''ValidateProcess''), TimeoutSave = jstr (map_of vs ''TimeoutSave''),
           TimeoutValidateRcpt = jstr (map_of vs ''TimeoutValidateRcpt'')\<rparr>\<rparr>))"

definition workersSize :: "gatewayConfig \<Rightarrow> nat" where
  "workersSize c = (if WorkersSize c \<le> 0 then 1 else nat (WorkersSize c))"

text \<open>
  The timeouts, in nanoseconds; \<open>time.ParseDuration\<close> is the argument \<open>parse\<close>, \<open>None\<close> for an error.
\<close>

definition saveTimeout :: "(bytes \<Rightarrow> int option) \<Rightarrow> gatewayConfig \<Rightarrow> int" where
  "saveTimeout parse c =
     (if TimeoutSave c = [] then 30000000000
      else (case parse (TimeoutSave c) of None \<Rightarrow> 30000000000 | Some t \<Rightarrow> t))"

definition validateRcptTimeout :: "(bytes \<Rightarrow> int option) \<Rightarrow> gatewayConfig \<Rightarrow> int" where
  "validateRcptTimeout parse c =
     (if TimeoutValidateRcpt c = [] then 5000000000
      else (case parse (TimeoutValidateRcpt c) of None \<Rightarrow> 5000000000 | Some t \<Rightarrow> t))"

subsection \<open>Processor stacks\<close>

type_synonym 'b constructor = "'b service \<Rightarrow> 'b \<Rightarrow> 'b decorator \<times> 'b service \<times> 'b"

type_synonym 'b registry = "(bytes \<times> 'b constructor) list"

text \<open>The loop of \<open>newStack\<close> over the names in reverse order.\<close>

fun stack_decorators :: "'b registry \<Rightarrow> bytes list \<Rightarrow> 'b service \<Rightarrow> 'b \<Rightarrow>
    (bytes + 'b decorator list) \<times> 'b service \<times> 'b" where
  "stack_decorators reg [] svc b = (Inr [], svc, b)"
| "stack_decorators reg (name # names) svc b =
     (case map_of reg name of
        None \<Rightarrow> (Inl (''processor ['' @ name @ ''] not found''), svc, b)
      | Some makeFunc \<Rightarrow>
          (case makeFunc svc b of (d, svc, b) \<Rightarrow>
             (case stack_decorators reg names svc b of
                (Inl err, svc, b) \<Rightarrow> (Inl err, svc, b)
              | (Inr ds, svc, b) \<Rightarrow> (Inr (d # ds), svc, b))))"

definition newStack :: "'b registry \<Rightarrow> bytes \<Rightarrow> 'b service \<Rightarrow> 'b \<Rightarrow> (bytes + 'b stack) \<times> 'b service \<times> 'b" where
  "newStack reg stackConfig svc b =
     (let cfg = to_lower (trim_space stackConfig)
      in if length cfg = 0 then (Inr NoopProcessor, svc, b)
         else (case stack_decorators reg (rev (split_on (CHR ''|'') cfg)) svc b of
                 (Inl err, svc, b) \<Rightarrow> (Inl err, svc, b)
               | (Inr ds, svc, b) \<Rightarrow> (Inr (Stack (Decorate DefaultProcessor ds)), svc, b)))"

text \<open>The loop of \<open>Initialize\<close> that appends one stack of each kind for each worker.\<close>

fun make_stacks :: "'b registry \<Rightarrow> gatewayConfig \<Rightarrow> nat \<Rightarrow> 'b gateway \<Rightarrow> 'b service \<Rightarrow> 'b \<Rightarrow>
    bytes option \<times> 'b gateway \<times> 'b service \<times> 'b" where
  "make_stacks reg c 0 gw svc b = (None, gw, svc, b)"
| "make_stacks reg c (Suc n) gw svc b =
     (case newStack reg (SaveProcess c) svc b of
        (Inl err, svc, b) \<Rightarrow> (Some err, gw, svc, b)
      | (Inr p, svc, b) \<Rightarrow>
          (let gw = gw\<lparr>gw_processors := gw_processors gw @ [p]\<rparr>
           in case newStack reg (ValidateProcess c) svc b of
                (Inl err, svc, b) \<Rightarrow> (Some err, gw, svc, b)
              | (Inr v, svc, b) \<Rightarrow>
                  make_stacks reg c n (gw\<lparr>gw_validators := gw_validators gw @ [v]\<rparr>) svc b))"

subsection \<open>Life cycle\<close>

definition gw_Initialize :: "'b registry \<Rightarrow> backendConfig \<Rightarrow> 'b gateway \<Rightarrow> 'b service \<Rightarrow> 'b \<Rightarrow>
    bytes option \<times> 'b gateway \<times> 'b service \<times> 'b" where
  "gw_Initialize reg cfg gw svc b =
     (if gState gw \<noteq> BackendStateNew \<and> gState gw \<noteq> BackendStateShuttered
      then (Some ''can only Initialize in BackendStateNew or BackendStateShuttered state'', gw, svc, b)
      else (case loadConfig gw cfg of
              (Some err, gw) \<Rightarrow> (Some err, gw\<lparr>gState := BackendStateError\<rparr>, svc, b)
            | (None, gw) \<Rightarrow>
                (let c = the (gwConfig gw)
                 in if workersSize c < 1
                    then (Some ''must have at least 1 worker'', gw\<lparr>gState := BackendStateError\<rparr>, svc, b)
                    else (case make_stacks reg c (workersSize c) (gw\<lparr>gw_processors := [], gw_validators := []\<rparr>) svc b of
                            (Some err, gw, svc, b) \<Rightarrow> (Some err, gw\<lparr>gState := BackendStateError\<rparr>, svc, b)
                          | (None, gw, svc, b) \<Rightarrow>
                              (case svc_initialize svc cfg b of (errors, svc, b) \<Rightarrow>
                                 if errors \<noteq> []
                                 then (Some (errors_Error errors), gw\<lparr>gState := BackendStateError\<rparr>, svc, b)
                                 else (None, gw\<lparr>conveyor := (if conveyor gw = None then Some (workersSize c) else conveyor gw),
                                         gState := BackendStateInitialized\<rparr>, svc, b))))))"

definition gw_New :: "'b registry \<Rightarrow> backendConfig \<Rightarrow> 'b service \<Rightarrow> 'b \<Rightarrow> (bytes + 'b gateway) \<times> 'b service \<times> 'b" where
  "gw_New reg backendConfig svc b =
     (case gw_Initialize reg backendConfig new_gateway svc b of
        (Some err, gw, svc, b) \<Rightarrow> (Inl (''error while initializing the backend: '' @ err), svc, b)
      | (None, gw, svc, b) \<Rightarrow> (Inr (gw\<lparr>gConfig := backendConfig\<rparr>), svc, b))"

text \<open>
  \<open>Start\<close> dereferences \<open>gwConfig\<close>, and each goroutine indexes the two lists of stacks outside
  the recovery of \<open>workDispatcher\<close>.
\<close>

definition gw_Start :: "'b gateway \<Rightarrow> (bytes option \<times> 'b gateway) outcome" where
  "gw_Start gw =
     (if gState gw = BackendStateInitialized \<or> gState gw = BackendStateShuttered then
        (case gwConfig gw of
           None \<Rightarrow> Panic ''nil pointer dereference''
         | Some c \<Rightarrow>
             if workersSize c > length (gw_processors gw) \<or> workersSize c > length (gw_validators gw)
             then Panic ''index out of range''
             else Ret (None, gw\<lparr>workStoppers := replicate (workersSize c) True, gState := BackendStateRunning\<rparr>))
      else Ret (Some (''cannot start backend because it'' @ [CHR 0x27] @ ''s in '' @ backendState_String (gState gw)
                  @ '' state''), gw))"

definition stopWorkers :: "'b gateway \<Rightarrow> 'b gateway option" where
  "stopWorkers gw =
     (if list_all id (workStoppers gw)
      then Some (gw\<lparr>workStoppers := map (\<lambda>_. False) (workStoppers gw)\<rparr>) else None)"

definition gw_Shutdown :: "'b gateway \<Rightarrow> 'b service \<Rightarrow> 'b \<Rightarrow> (bytes option \<times> 'b gateway \<times> 'b service \<times> 'b) option" where
  "gw_Shutdown gw svc b =
     (if gState gw \<noteq> BackendStateShuttered then
        (case stopWorkers gw of
           None \<Rightarrow> None
         | Some gw \<Rightarrow>
             (case svc_shutdown svc b of (errors, svc, b) \<Rightarrow>
                if errors \<noteq> [] then Some (Some (errors_Error errors), gw, svc, b)
                else Some (None, gw\<lparr>gState := BackendStateShuttered\<rparr>, svc, b)))
      else Some (None, gw, svc, b))"

definition gw_Reinitialize :: "'b registry \<Rightarrow> 'b gateway \<Rightarrow> 'b service \<Rightarrow> 'b \<Rightarrow>
    bytes option \<times> 'b gateway \<times> 'b service \<times> 'b" where
  "gw_Reinitialize reg gw svc b =
     (if gState gw \<noteq> BackendStateShuttered
      then (Some ''backend must be in BackendStateshuttered state to Reinitialize'', gw, svc, b)
      else (case gw_Initialize reg (gConfig gw) gw (svc_reset svc) b of
              (Some err, gw, svc, b) \<Rightarrow> (Some (''error while initializing the backend: '' @ err), gw, svc, b)
            | (None, gw, svc, b) \<Rightarrow> (None, gw, svc, b)))"

subsection \<open>Requests\<close>

text \<open>
  What a worker reports on the message's channel, and how \<open>Process\<close> and \<open>ValidateRcpt\<close> go on:
  \<open>None\<close> stands for the timer that fired first.
\<close>

record notifyMsg =
  n_err :: "bytes option"
  n_queuedID :: bytes
  n_result :: "result option"

definition storage_failed :: notifyMsg where
  "storage_failed = \<lparr>n_err = Some ''storage failed'', n_queuedID = [], n_result = None\<rparr>"

definition process_status :: "notifyMsg \<Rightarrow> result outcome" where
  "process_status status =
     (if n_result status = Some ResOK \<and> n_queuedID status \<noteq> []
      then Ret (Res (NewResult [resp_str SuccessMessageQueued, '' '', n_queuedID status]))
      else case n_result status of
             Some r \<Rightarrow> Ret r
           | None \<Rightarrow>
               (case n_err status of
                  Some err \<Rightarrow>
                    bind_outcome (slice err 0 3) (\<lambda>code.
                      if atoi code = None
                      then Ret (Res (NewResult [resp_str FailBackendTransaction, '' '', err]))
                      else Ret (Res (NewResult [err])))
                | None \<Rightarrow> Ret (Res (NewResult [resp_str FailBackendTransaction, '' '',
                    ''no response from backend - processor did not return a result or an error'']))))"

definition gw_Process :: "'b gateway \<Rightarrow> notifyMsg option \<Rightarrow> result outcome" where
  "gw_Process gw ev =
     (if gState gw \<noteq> BackendStateRunning
      then Ret (Res (NewResult [resp_str FailBackendNotRunning, '' '', backendState_String (gState gw)]))
      else case ev of
             Some status \<Rightarrow> process_status status
           | None \<Rightarrow> Ret (Res (NewResult [resp_str FailBackendTimeout])))"

definition gw_ValidateRcpt :: "'b gateway \<Rightarrow> notifyMsg option \<Rightarrow> bytes option outcome" where
  "gw_ValidateRcpt gw ev =
     (if gState gw \<noteq> BackendStateRunning then Ret (Some StorageNotAvailable)
      else case gw_validators gw of
             [] \<Rightarrow> Panic ''index out of range''
           | NoopProcessor # _ \<Rightarrow> Ret None
           | Stack p # _ \<Rightarrow> (case ev of Some status \<Rightarrow> Ret (n_err status) | None \<Rightarrow> Ret (Some StorageTimeout)))"

text \<open>
  The work of one worker on one message: a panic is recovered from, and \<open>left\<close> is what the
  panicking processor leaves of the envelope and of the outside state.
\<close>

definition worker_notify :: "'b stack \<Rightarrow> 'b stack \<Rightarrow> (envelope \<times> 'b \<Rightarrow> envelope \<times> 'b) \<Rightarrow>
    envelope \<Rightarrow> selectTask \<Rightarrow> 'b \<Rightarrow> notifyMsg \<times> envelope \<times> 'b" where
  "worker_notify save validate left e task b =
     (case task of
        TaskSaveMail \<Rightarrow>
          (case stack_Process save e task b of
             Ret ((r, err), e, b) \<Rightarrow> (\<lparr>n_err = err, n_queuedID = eQueuedId e, n_result = r\<rparr>, e, b)
           | Panic m \<Rightarrow> (storage_failed, left (e, b)))
      | TaskValidateRcpt \<Rightarrow>
          (case stack_Process validate e task b of
             Ret ((r, err), e, b) \<Rightarrow> (\<lparr>n_err = err, n_queuedID = [], n_result = r\<rparr>, e, b)
           | Panic m \<Rightarrow> (storage_failed, left (e, b))))"

subsection \<open>Stacks\<close>

lemma stack_decorators_fails:
  "(\<exists>err svc' b'. stack_decorators reg names svc b = (Inl err, svc', b')) \<longleftrightarrow> (\<exists>n \<in> set names. map_of reg n = None)"
proof (induction names arbitrary: svc b)
  case (Cons n names)
  show ?case
  proof (cases "map_of reg n")
    case (Some mk)
    obtain d svc1 b1 where d: "mk svc b = (d, svc1, b1)" using prod_cases3 by blast
    obtain r svc2 b2 where r: "stack_decorators reg names svc1 b1 = (r, svc2, b2)" using prod_cases3 by blast
    from Cons.IH [of svc1 b1] Some d r show ?thesis by (cases r) auto
  qed simp
qed simp

lemma stack_decorators_pure:
  assumes "\<forall>n \<in> set names. \<exists>mk. map_of reg n = Some mk \<and> (\<forall>svc b. fst (mk svc b) = D n)"
  shows "fst (stack_decorators reg names svc b) = Inr (map D names)"
  using assms
proof (induction names arbitrary: svc b)
  case (Cons n names)
  then obtain mk where mk: "map_of reg n = Some mk" "fst (mk svc b) = D n" by auto
  obtain d svc1 b1 where d: "mk svc b = (d, svc1, b1)" using prod_cases3 by blast
  obtain r svc2 b2 where r: "stack_decorators reg names svc1 b1 = (r, svc2, b2)" using prod_cases3 by blast
  have "fst (stack_decorators reg names svc1 b1) = Inr (map D names)" using Cons by simp
  with mk d r show ?case by simp
qed simp

lemma split_on_join:
  "ns \<noteq> [] \<Longrightarrow> \<forall>n \<in> set ns. c \<notin> set n \<Longrightarrow> split_on c (join [c] ns) = ns"
  by (induction "[c]" ns rule: join.induct) (simp_all add: split_on_notin split_on_append)

lemma set_join: "c \<in> set (join sep ns) \<Longrightarrow> c \<in> set sep \<or> (\<exists>n \<in> set ns. c \<in> set n)"
  by (induction sep ns rule: join.induct) auto

lemma join_Nil: "n \<in> set ns \<Longrightarrow> n \<noteq> [] \<Longrightarrow> join sep ns \<noteq> []"
  by (induction sep ns rule: join.induct) auto

lemma lower_byte_space: "is_space c \<Longrightarrow> lower_byte c = c"
  by (auto simp: is_space_def lower_byte_def)

lemma trim_space_to_lower:
  assumes "to_lower s = t" and "\<forall>c \<in> set t. \<not> is_space c" and "\<forall>c \<in> set pre \<union> set post. is_space c"
  shows "to_lower (trim_space (pre @ s @ post)) = t"
proof -
  have "\<not> is_space c" if "c \<in> set s" for c
  proof
    assume "is_space c"
    then have "lower_byte c = c" by (rule lower_byte_space)
    with that assms(1) have "c \<in> set t" by (force simp: to_lower_def)
    with assms(2) \<open>is_space c\<close> show False by blast
  qed
  then show ?thesis using assms(1,3) by (simp add: trim_space_surround)
qed

definition stack_names :: "bytes \<Rightarrow> bytes list" where
  "stack_names stackConfig =
     (let cfg = to_lower (trim_space stackConfig) in if cfg = [] then [] else split_on (CHR ''|'') cfg)"

lemma newStack_fails:
  "(\<exists>err svc' b'. newStack reg cfg svc b = (Inl err, svc', b')) \<longleftrightarrow> (\<exists>n \<in> set (stack_names cfg). map_of reg n = None)"
proof -
  let ?cfg = "to_lower (trim_space cfg)"
  obtain r svc1 b1 where r: "stack_decorators reg (rev (split_on (CHR ''|'') ?cfg)) svc b = (r, svc1, b1)"
    using prod_cases3 by blast
  then show ?thesis using stack_decorators_fails [of reg "rev (split_on (CHR ''|'') ?cfg)" svc b]
    by (cases r) (auto simp: newStack_def stack_names_def Let_def)
qed

lemma newStack_registered:
  "newStack reg cfg svc b = (Inr p, svc', b') \<Longrightarrow> \<forall>n \<in> set (stack_names cfg). map_of reg n \<noteq> None"
  using newStack_fails [of reg cfg svc b] by auto

subsection \<open>Initialization\<close>

lemma ExtractConfig_omitempty:
  "\<forall>f \<in> set fs. snd (field_key f) \<Longrightarrow> \<exists>vs. ExtractConfig cfg fs = Inr vs"
proof (induction fs)
  case (Cons f fs)
  obtain n om where k: "field_key f = (n, om)" by fastforce
  obtain vs where "ExtractConfig cfg fs = Inr vs" using Cons by auto
  with k Cons.prems show ?case by (auto split: option.split)
qed simp

lemma field_key_omitempty:
  assumes "f_json f = n @ '',omitempty''" and "CHR '','' \<notin> set n"
  shows "field_key f = (n, True)"
proof -
  have "split_on (CHR '','') (n @ CHR '','' # ''omitempty'') = n # split_on (CHR '','') ''omitempty''"
    by (rule split_on_append [OF assms(2)])
  then show ?thesis using assms(1) by (simp add: field_key_def split_on_notin)
qed

lemma gateway_fields_omitempty: "\<forall>f \<in> set gateway_fields. snd (field_key f)"
  by (simp add: gateway_fields_def
      field_key_omitempty [of _ "''save_workers_size''"] field_key_omitempty [of _ "''save_process''"]
      field_key_omitempty [of _ "''validate_process''"] field_key_omitempty [of _ "''gw_save_timeout''"]
      field_key_omitempty [of _ "''gw_val_rcpt_timeout''"])

lemma loadConfig_ok:
  "\<exists>c. loadConfig gw cfg = (None, gw\<lparr>gwConfig := Some c\<rparr>)"
proof -
  obtain vs where "ExtractConfig cfg gateway_fields = Inr vs"
    using ExtractConfig_omitempty [OF gateway_fields_omitempty] by blast
  then show ?thesis by (auto simp: loadConfig_def)
qed

lemma workersSize_pos [simp]: "0 < workersSize c" "workersSize c \<noteq> 0"
  by (simp_all add: workersSize_def)

lemma make_stacks_ok:
  assumes "make_stacks reg c n gw svc b = (err, gw', svc', b')"
  shows "\<exists>ps vs. gw' = gw\<lparr>gw_processors := gw_processors gw @ ps, gw_validators := gw_validators gw @ vs\<rparr>
     \<and> (err = None \<longrightarrow> length ps = n \<and> length vs = n
          \<and> (n > 0 \<longrightarrow> (\<forall>x \<in> set (stack_names (SaveProcess c) @ stack_names (ValidateProcess c)). map_of reg x \<noteq> None)))"
  using assms
proof (induction n arbitrary: gw svc b)
  case 0
  then show ?case by (intro exI [of _ "[]"]) simp
next
  case (Suc n)
  obtain r svc1 b1 where r: "newStack reg (SaveProcess c) svc b = (r, svc1, b1)" using prod_cases3 by blast
  show ?case
  proof (cases r)
    case (Inl e)
    with Suc.prems r show ?thesis by (intro exI [of _ "[]"]) auto
  next
    case (Inr p)
    obtain q svc2 b2 where q: "newStack reg (ValidateProcess c) svc1 b1 = (q, svc2, b2)" using prod_cases3 by blast
    show ?thesis
    proof (cases q)
      case (Inl e)
      with Suc.prems r Inr q show ?thesis by (intro exI [of _ "[p]"] exI [of _ "[]"]) auto
    next
      case q': (Inr v)
      let ?gw = "gw\<lparr>gw_processors := gw_processors gw @ [p], gw_validators := gw_validators gw @ [v]\<rparr>"
      have "make_stacks reg c n ?gw svc2 b2 = (err, gw', svc', b')" using Suc.prems r Inr q q' by simp
      from Suc.IH [OF this] obtain ps vs where
        "gw' = ?gw\<lparr>gw_processors := gw_processors ?gw @ ps, gw_validators := gw_validators ?gw @ vs\<rparr>"
        "err = None \<longrightarrow> length ps = n \<and> length vs = n" by blast
      moreover have "\<forall>x \<in> set (stack_names (SaveProcess c) @ stack_names (ValidateProcess c)). map_of reg x \<noteq> None"
        using newStack_registered [OF r [unfolded Inr]] newStack_registered [OF q [unfolded q']] by auto
      ultimately show ?thesis by (intro exI [of _ "p # ps"] exI [of _ "v # vs"]) auto
    qed
  qed
qed

text \<open>
  The invariant of a gateway made by \<open>New\<close>: the conveyor has room; when it is initialized or
  running there is a stack of each kind for each worker; the goroutines all listen or have all
  stopped, and they listen only in the running state.
\<close>

definition gw_ready :: "'b gateway \<Rightarrow> bool" where
  "gw_ready gw = (case gwConfig gw of None \<Rightarrow> False
     | Some c \<Rightarrow> workersSize c \<le> length (gw_processors gw) \<and> workersSize c \<le> length (gw_validators gw))"

definition gw_ok :: "'b gateway \<Rightarrow> bool" where
  "gw_ok gw \<longleftrightarrow> conveyor gw \<noteq> None \<and> conveyor gw \<noteq> Some 0 \<and> gwConfig gw \<noteq> None
     \<and> (gState gw \<in> {BackendStateInitialized, BackendStateRunning} \<longrightarrow> gw_ready gw)
     \<and> (gState gw = BackendStateRunning \<longrightarrow> length (workStoppers gw) = workersSize (the (gwConfig gw)))
     \<and> (list_all id (workStoppers gw) \<and> gState gw = BackendStateRunning \<or> list_all Not (workStoppers gw))"

lemma gw_Initialize_cases:
  assumes "gw_Initialize reg cfg gw svc b = (err, gw', svc', b')"
    and "gState gw = BackendStateNew \<or> gState gw = BackendStateShuttered"
  shows "workStoppers gw' = workStoppers gw \<and> gConfig gw' = gConfig gw \<and> gwConfig gw' \<noteq> None
    \<and> (if err = None
       then gState gw' = BackendStateInitialized \<and> gw_ready gw'
         \<and> conveyor gw' = (if conveyor gw = None then Some (workersSize (the (gwConfig gw'))) else conveyor gw)
         \<and> (\<forall>x \<in> set (stack_names (SaveProcess (the (gwConfig gw')))
              @ stack_names (ValidateProcess (the (gwConfig gw')))). map_of reg x \<noteq> None)
       else gState gw' = BackendStateError \<and> conveyor gw' = conveyor gw)"
proof -
  obtain c where c: "loadConfig gw cfg = (None, gw\<lparr>gwConfig := Some c\<rparr>)" using loadConfig_ok by blast
  let ?gw = "gw\<lparr>gwConfig := Some c, gw_processors := [], gw_validators := []\<rparr>"
  obtain e gw1 svc1 b1 where m: "make_stacks reg c (workersSize c) ?gw svc b = (e, gw1, svc1, b1)"
    using prod_cases4 by blast
  obtain ps vs where 1: "gw1 = ?gw\<lparr>gw_processors := gw_processors ?gw @ ps, gw_validators := gw_validators ?gw @ vs\<rparr>"
    and 2: "e = None \<longrightarrow> length ps = workersSize c \<and> length vs = workersSize c
      \<and> (workersSize c > 0 \<longrightarrow> (\<forall>x \<in> set (stack_names (SaveProcess c) @ stack_names (ValidateProcess c)). map_of reg x \<noteq> None))"
    using make_stacks_ok [OF m] by (elim exE conjE) (rule that)
  obtain errs svc2 b2 where i: "svc_initialize svc1 cfg b1 = (errs, svc2, b2)" using prod_cases3 by blast
  have st: "\<not> (gState gw \<noteq> BackendStateNew \<and> gState gw \<noteq> BackendStateShuttered)" using assms(2) by blast
  show ?thesis
  proof (cases e)
    case (Some x)
    have "gw' = gw1\<lparr>gState := BackendStateError\<rparr> \<and> err = Some x"
      using assms(1) unfolding gw_Initialize_def if_not_P [OF st] c by (simp add: m Some)
    then show ?thesis by (simp add: 1)
  next
    case None
    have "(err, gw', svc', b') = (if errs \<noteq> [] then (Some (errors_Error errs), gw1\<lparr>gState := BackendStateError\<rparr>, svc2, b2)
        else (None, gw1\<lparr>conveyor := (if conveyor gw1 = None then Some (workersSize c) else conveyor gw1),
                gState := BackendStateInitialized\<rparr>, svc2, b2))"
      using assms(1) unfolding gw_Initialize_def if_not_P [OF st] c by (simp add: m i None)
    then show ?thesis using 2 None by (auto simp: 1 gw_ready_def split: if_splits)
  qed
qed

lemma gw_ok_New: "gw_New reg cfg svc b = (Inr gw, svc', b') \<Longrightarrow> gw_ok gw \<and> gState gw = BackendStateInitialized"
proof -
  assume h: "gw_New reg cfg svc b = (Inr gw, svc', b')"
  obtain e gw1 svc1 b1 where i: "gw_Initialize reg cfg new_gateway svc b = (e, gw1, svc1, b1)" using prod_cases4 by blast
  with h have "e = None" and gw: "gw = gw1\<lparr>gConfig := cfg\<rparr>" by (auto simp: gw_New_def split: option.splits)
  with gw_Initialize_cases [OF i] show ?thesis by (auto simp: new_gateway_def gw_ok_def gw_ready_def)
qed

lemma gw_ok_Initialize:
  assumes "gw_Initialize reg cfg gw svc b = (err, gw', svc', b')" and "gw_ok gw"
  shows "gw_ok gw'"
proof (cases "gState gw = BackendStateNew \<or> gState gw = BackendStateShuttered")
  case True
  with gw_Initialize_cases [OF assms(1) True] assms(2) show ?thesis
    by (auto simp: gw_ok_def gw_ready_def split: if_splits)
next
  case False
  with assms show ?thesis by (auto simp: gw_Initialize_def)
qed

lemma gw_ok_Reinitialize:
  "gw_Reinitialize reg gw svc b = (err, gw', svc', b') \<Longrightarrow> gw_ok gw \<Longrightarrow> gw_ok gw'"
proof -
  assume h: "gw_Reinitialize reg gw svc b = (err, gw', svc', b')" and ok: "gw_ok gw"
  obtain e gw1 svc1 b1 where i: "gw_Initialize reg (gConfig gw) gw (svc_reset svc) b = (e, gw1, svc1, b1)"
    using prod_cases4 by blast
  have "gw' = gw \<or> gw' = gw1" using h i by (cases e) (auto simp: gw_Reinitialize_def split: if_splits)
  then show "gw_ok gw'" using ok gw_ok_Initialize [OF i ok] by blast
qed

lemma gw_Start_cases:
  assumes "gw_Start gw = Ret (err, gw')"
  obtains "gw' = gw" "err \<noteq> None"
  | c where "gwConfig gw = Some c" "gw_ready gw" "err = None"
      "gState gw = BackendStateInitialized \<or> gState gw = BackendStateShuttered"
      "gw' = gw\<lparr>workStoppers := replicate (workersSize c) True, gState := BackendStateRunning\<rparr>"
proof (cases "gState gw = BackendStateInitialized \<or> gState gw = BackendStateShuttered")
  case True
  with assms that(2) show ?thesis by (auto simp: gw_Start_def gw_ready_def split: option.splits if_splits)
next
  case False
  with assms that(1) show ?thesis by (auto simp: gw_Start_def)
qed

lemma gw_ok_Start: "gw_Start gw = Ret (err, gw') \<Longrightarrow> gw_ok gw \<Longrightarrow> gw_ok gw'"
  by (erule gw_Start_cases) (auto simp: gw_ok_def gw_ready_def list_all_iff)

lemma gw_Shutdown_cases:
  assumes "gw_Shutdown gw svc b = Some (err, gw', svc', b')"
  obtains "gw' = gw" "gState gw = BackendStateShuttered" "err = None"
  | st where "list_all id (workStoppers gw)" "gState gw \<noteq> BackendStateShuttered"
      "gw' = gw\<lparr>workStoppers := replicate (length (workStoppers gw)) False, gState := st\<rparr>"
      "st = (if err = None then BackendStateShuttered else gState gw)"
proof (cases "gState gw = BackendStateShuttered")
  case True
  with assms that(1) show ?thesis by (auto simp: gw_Shutdown_def)
next
  case False
  obtain errs svc1 b1 where s: "svc_shutdown svc b = (errs, svc1, b1)" using prod_cases3 by blast
  from False assms s that(2) show ?thesis
    by (auto simp: gw_Shutdown_def stopWorkers_def map_replicate_const split: if_splits)
qed

lemma gw_ok_Shutdown: "gw_Shutdown gw svc b = Some (err, gw', svc', b') \<Longrightarrow> gw_ok gw \<Longrightarrow> gw_ok gw'"
  by (erule gw_Shutdown_cases) (auto simp: gw_ok_def gw_ready_def list_all_iff split: if_splits)

subsection \<open>Reachable gateways\<close>

text \<open>
  The life of a gateway: made by \<open>New\<close>, then any sequence of the operations that return; between
  two of them the workers change the outside state.
\<close>

inductive gw_reach :: "'b registry \<Rightarrow> 'b gateway \<Rightarrow> 'b service \<Rightarrow> bool" for reg where
  reach_New: "gw_New reg cfg svc b = (Inr gw, svc', b') \<Longrightarrow> gw_reach reg gw svc'"
| reach_Initialize: "gw_reach reg gw svc \<Longrightarrow> gw_Initialize reg cfg gw svc b = (err, gw', svc', b') \<Longrightarrow> gw_reach reg gw' svc'"
| reach_Start: "gw_reach reg gw svc \<Longrightarrow> gw_Start gw = Ret (err, gw') \<Longrightarrow> gw_reach reg gw' svc"
| reach_Shutdown: "gw_reach reg gw svc \<Longrightarrow> gw_Shutdown gw svc b = Some (err, gw', svc', b') \<Longrightarrow> gw_reach reg gw' svc'"
| reach_Reinitialize: "gw_reach reg gw svc \<Longrightarrow> gw_Reinitialize reg gw svc b = (err, gw', svc', b') \<Longrightarrow> gw_reach reg gw' svc'"

lemma gw_reach_ok: "gw_reach reg gw svc \<Longrightarrow> gw_ok gw"
  by (induction rule: gw_reach.induct)
    (auto intro: gw_ok_Initialize gw_ok_Start gw_ok_Shutdown gw_ok_Reinitialize dest: gw_ok_New)

lemma gw_ok_validators: "gw_ok gw \<Longrightarrow> gState gw = BackendStateRunning \<Longrightarrow> gw_validators gw \<noteq> []"
  using workersSize_pos(1) [of "the (gwConfig gw)"] by (auto simp: gw_ok_def gw_ready_def split: option.splits)

text \<open>A gateway without configuration: one worker and no processors.\<close>

lemma ExtractConfig_empty: "\<forall>f \<in> set fs. snd (field_key f) \<Longrightarrow> ExtractConfig [] fs = Inr []"
proof (induction fs)
  case (Cons f fs)
  moreover obtain n om where "field_key f = (n, om)" by fastforce
  ultimately show ?case by (cases "f_type f") auto
qed simp

definition idle_gateway :: "backendState \<Rightarrow> bool list \<Rightarrow> 'b gateway" where
  "idle_gateway st stoppers = \<lparr>conveyor = Some 1, workStoppers = stoppers, gw_processors = [NoopProcessor],
     gw_validators = [NoopProcessor], gState = st, gConfig = [],
     gwConfig = Some \<lparr>WorkersSize = 0, SaveProcess = [], ValidateProcess = [], TimeoutSave = [], TimeoutValidateRcpt = []\<rparr>\<rparr>"

lemma gw_New_empty:
  "gw_New reg [] \<lparr>initializers = [], shutdowners = []\<rparr> b
     = (Inr (idle_gateway BackendStateInitialized []), \<lparr>initializers = [], shutdowners = []\<rparr>, b)"
  by (simp add: gw_New_def gw_Initialize_def new_gateway_def loadConfig_def idle_gateway_def workersSize_def newStack_def
      ExtractConfig_empty [OF gateway_fields_omitempty] trim_space_def to_lower_def svc_initialize_def)

lemma idle_running: "gw_reach reg (idle_gateway BackendStateRunning [True]) \<lparr>initializers = [], shutdowners = []\<rparr>"
  by (rule reach_Start [OF reach_New [OF gw_New_empty]])
    (simp add: gw_Start_def idle_gateway_def workersSize_def)

subsection \<open>Properties\<close>

text \<open>
  C21: A running gateway reached by any sequence of life-cycle calls has a conveyor with room and,
  for each of its workers, a stack of either kind and a stop channel; so a worker never indexes
  out of range and \<open>ValidateRcpt\<close> never panics.
\<close>

theorem running_gateway:
  assumes "gw_reach reg gw svc" and "gState gw = BackendStateRunning"
  shows "(\<exists>n c. 0 < n \<and> conveyor gw = Some n \<and> gwConfig gw = Some c \<and> workersSize c \<le> length (gw_processors gw)
     \<and> workersSize c \<le> length (gw_validators gw) \<and> length (workStoppers gw) = workersSize c)
     \<and> \<not> panics (gw_ValidateRcpt gw ev)"
proof -
  have ok: "gw_ok gw" using gw_reach_ok [OF assms(1)] .
  then show ?thesis using assms(2) gw_ok_validators [OF ok assms(2)]
    by (auto simp: gw_ok_def gw_ready_def gw_ValidateRcpt_def split: option.splits list.splits stack.splits)
qed

theorem running_gateway_witness:
  "(\<exists>n c. 0 < n \<and> conveyor (idle_gateway BackendStateRunning [True] :: unit gateway) = Some n
     \<and> gwConfig (idle_gateway BackendStateRunning [True] :: unit gateway) = Some c \<and> workersSize c \<le> 1)
   \<and> \<not> panics (gw_ValidateRcpt (idle_gateway BackendStateRunning [True] :: unit gateway) None)"
  using running_gateway [OF idle_running, of None] by (auto simp: idle_gateway_def)

text \<open>
  The processors run in the order the configuration names them: a stack built from the names
  joined by \<open>|\<close> is the first name's decorator around the second's and so on, around
  \<open>DefaultProcessor\<close>; the names are read without regard to case and to white space around the list.
\<close>

theorem stack_order:
  assumes "names \<noteq> []" and "\<forall>n \<in> set names. n \<noteq> [] \<and> to_lower n = n \<and> (\<forall>c \<in> set n. \<not> is_space c \<and> c \<noteq> CHR ''|'')"
    and "\<forall>n \<in> set names. \<exists>mk. map_of reg n = Some mk \<and> (\<forall>svc b. fst (mk svc b) = D n)"
    and "to_lower cfg = join ''|'' names" and "\<forall>c \<in> set pre \<union> set post. is_space c"
  shows "fst (newStack reg (pre @ cfg @ post) svc b) = Inr (Stack (foldr D names DefaultProcessor))"
proof -
  let ?t = "join [CHR ''|''] names"
  have "\<not> is_space (CHR ''|'')" by (simp add: is_space_def)
  then have "\<forall>c \<in> set ?t. \<not> is_space c" using assms(2) set_join [of _ "[CHR ''|'']" names] by fastforce
  with assms(4,5) have t: "to_lower (trim_space (pre @ cfg @ post)) = ?t" by (intro trim_space_to_lower) auto
  have ne: "?t \<noteq> []" using assms(1,2) join_Nil [of "hd names" names] by simp
  have sp: "split_on (CHR ''|'') ?t = names" using assms(1,2) by (intro split_on_join) auto
  have "fst (stack_decorators reg (rev names) svc b) = Inr (map D (rev names))"
    using assms(3) by (intro stack_decorators_pure) auto
  then obtain svc' b' where "stack_decorators reg (rev names) svc b = (Inr (rev (map D names)), svc', b')"
    by (cases "stack_decorators reg (rev names) svc b") (auto simp: rev_map)
  with t ne sp show ?thesis by (simp add: newStack_def Let_def Decorate_fold foldr_map comp_def)
qed

theorem stack_order_witness:
  "fst (newStack [(''a'', \<lambda>svc b. (\<lambda>p e t b. p e t (b @ ''a''), svc, b)), (''b'', \<lambda>svc b. (\<lambda>p e t b. p e t (b @ ''b''), svc, b))]
       ('' '' @ ''A|b'' @ [CHR 0x09]) \<lparr>initializers = [], shutdowners = []\<rparr> ([] :: string))
   = Inr (Stack (foldr (\<lambda>n p e t b. p e t (b @ n)) [''a'', ''b''] DefaultProcessor))"
proof -
  have "to_lower ''A|b'' = join ''|'' [''a'', ''b'']" and "to_lower ''a'' = ''a''" and "to_lower ''b'' = ''b''"
    by code_simp+
  then show ?thesis by (intro stack_order) (auto simp: is_space_def)
qed

text \<open>
  Stopping a gateway twice around a reinitialization blocks: after \<open>Start\<close>, a \<open>Shutdown\<close> that
  succeeded and a \<open>Reinitialize\<close> that succeeded, the stop channels of the first run are still there
  and nobody listens to them, so the next \<open>Shutdown\<close> never returns.
\<close>

theorem shutdown_after_reinitialize:
  assumes "gw_reach reg gw svc" and "gw_Start gw = Ret (None, gw1)"
    and "gw_Shutdown gw1 svc b = Some (None, gw2, svc2, b2)"
    and "gw_Reinitialize reg gw2 svc2 b3 = (None, gw3, svc3, b4)"
  shows "gState gw3 = BackendStateInitialized \<and> gw_Shutdown gw3 svc3 b5 = None"
proof -
  obtain c where gw1: "gw1 = gw\<lparr>workStoppers := replicate (workersSize c) True, gState := BackendStateRunning\<rparr>"
    using assms(2) by (elim gw_Start_cases) auto
  have gw2: "workStoppers gw2 = replicate (workersSize c) False" "gState gw2 = BackendStateShuttered"
    using assms(3) gw1 by (auto elim!: gw_Shutdown_cases)
  obtain e gw4 svc4 b6 where i: "gw_Initialize reg (gConfig gw2) gw2 (svc_reset svc2) b3 = (e, gw4, svc4, b6)"
    using prod_cases4 by blast
  with assms(4) gw2 have e: "e = None" "gw3 = gw4" by (auto simp: gw_Reinitialize_def split: option.splits)
  with gw_Initialize_cases [OF i] gw2 have "workStoppers gw3 = replicate (workersSize c) False" "gState gw3 = BackendStateInitialized"
    by auto
  then show ?thesis by (simp add: gw_Shutdown_def stopWorkers_def list_all_iff)
qed

theorem shutdown_after_reinitialize_witness:
  "gw_Shutdown (idle_gateway BackendStateInitialized [False] :: unit gateway) \<lparr>initializers = [], shutdowners = []\<rparr> () = None"
proof -
  let ?svc = "\<lparr>initializers = [], shutdowners = []\<rparr> :: unit service"
  have 1: "gw_Start (idle_gateway BackendStateInitialized [] :: unit gateway) = Ret (None, idle_gateway BackendStateRunning [True])"
    by (simp add: gw_Start_def idle_gateway_def workersSize_def)
  have 2: "gw_Shutdown (idle_gateway BackendStateRunning [True]) ?svc () = Some (None, idle_gateway BackendStateShuttered [False], ?svc, ())"
    by (simp add: gw_Shutdown_def idle_gateway_def stopWorkers_def svc_shutdown_def)
  have 3: "gw_Reinitialize [] (idle_gateway BackendStateShuttered [False]) ?svc ()
      = (None, idle_gateway BackendStateInitialized [False], ?svc, ())"
    by (simp add: gw_Reinitialize_def gw_Initialize_def loadConfig_def idle_gateway_def workersSize_def newStack_def svc_reset_def
        ExtractConfig_empty [OF gateway_fields_omitempty] trim_space_def to_lower_def svc_initialize_def)
  show ?thesis using shutdown_after_reinitialize [OF reach_New [OF gw_New_empty] 1 2 3] by blast
qed

text \<open>
  \<open>Process\<close> panics exactly when the gateway is running, the worker reported no result and its
  error text has less than three bytes; a worker that recovered from a panic of its processors is
  answered with the canned transaction failure, and an accepted message with the queue id.
\<close>

theorem process_reply:
  "(panics (gw_Process gw ev) \<longleftrightarrow> gState gw = BackendStateRunning
     \<and> (\<exists>s err. ev = Some s \<and> n_result s = None \<and> n_err s = Some err \<and> length err < 3))
   \<and> gw_Process (gw\<lparr>gState := BackendStateRunning\<rparr>) (Some storage_failed)
       = Ret (Res (resp_str FailBackendTransaction @ '' storage failed''))
   \<and> (q \<noteq> [] \<longrightarrow> gw_Process (gw\<lparr>gState := BackendStateRunning\<rparr>)
         (Some \<lparr>n_err = err, n_queuedID = q, n_result = Some ResOK\<rparr>)
       = Ret (Res (resp_str SuccessMessageQueued @ '' '' @ q)))"
proof -
  have "atoi ''sto'' = None" by code_simp
  then show ?thesis
    by (auto simp: gw_Process_def process_status_def storage_failed_def NewResult_def panics_bind slice_panics slice_def
        split: option.splits)
qed

theorem process_reply_witness:
  "gw_Process (idle_gateway BackendStateRunning [True] :: unit gateway) (Some \<lparr>n_err = None, n_queuedID = ''q1'', n_result = Some ResOK\<rparr>)
     = Ret (Res (resp_str SuccessMessageQueued @ '' '' @ ''q1''))
   \<and> panics (gw_Process (idle_gateway BackendStateRunning [True] :: unit gateway) (Some \<lparr>n_err = Some ''no'', n_queuedID = [], n_result = None\<rparr>))"
  using process_reply [of "idle_gateway BackendStateRunning [True] :: unit gateway"
      "Some \<lparr>n_err = Some ''no'', n_queuedID = [], n_result = None\<rparr>" "''q1''" None]
  by (simp add: idle_gateway_def)

end
