(* ===== verification/Dispatcher.thy ===== *)
theory Dispatcher
  imports Gateway
begin

section \<open>The workers of the gateway (backends/gateway.go: workDispatcher, Process, ValidateRcpt)\<close>

text \<open>
  The goroutines of a running gateway as a step relation. A request \<open>i\<close> is one call of \<open>Process\<close> or
  \<open>ValidateRcpt\<close>: it waits for room on the conveyor (\<open>Sending\<close>), waits for the worker's message
  (\<open>Waiting\<close>), and ends with that message (\<open>Answered\<close>) or with the timer (\<open>TimedOut\<close>: the call has
  returned, the envelope is locked and a goroutine keeps waiting; \<open>Late\<close> once that goroutine got the
  message, unlocked the envelope and returned the message to the pool). A worker is in one of the
  states of \<open>dispatcherState\<close>, with the message it holds; in \<open>W_Panic\<close> its deferred function is
  sending the failure, after which \<open>Start\<close>'s loop calls \<open>workDispatcher\<close> again. The channel of a
  message has no buffer, so a worker and its request step together. One call of a processor is one
  step: how the processors of two workers interleave inside a call is not modelled. \<open>runs\<close> is the
  history of the requests that were handed to a processor.
\<close>

datatype request = Sending | Waiting | TimedOut | Answered notifyMsg | Late

datatype worker = W_Stopped | W_Idle | W_Working nat | W_Notify nat notifyMsg | W_Panic nat

record 'b disp =
  reqs :: "request list"
  tasks :: "selectTask list"
  envs :: "envelope list"
  queue :: "nat list"
  workers :: "worker list"
  outside :: 'b
  runs :: "nat list"

fun holds :: "worker \<Rightarrow> nat option" where
  "holds (W_Working i) = Some i"
| "holds (W_Notify i n) = Some i"
| "holds (W_Panic i) = Some i"
| "holds w = None"

definition worker_Process :: "'b gateway \<Rightarrow> nat \<Rightarrow> nat \<Rightarrow> 'b disp \<Rightarrow>
    ((result option \<times> bytes option) \<times> envelope \<times> 'b) outcome" where
  "worker_Process gw k i s =
     (if tasks s ! i = TaskSaveMail
      then stack_Process (gw_processors gw ! k) (envs s ! i) (tasks s ! i) (outside s)
      else stack_Process (gw_validators gw ! k) (envs s ! i) (tasks s ! i) (outside s))"

definition worker_msg :: "selectTask \<Rightarrow> result option \<Rightarrow> bytes option \<Rightarrow> envelope \<Rightarrow> notifyMsg" where
  "worker_msg task r err e =
     \<lparr>n_err = err, n_queuedID = (if task = TaskSaveMail then eQueuedId e else []), n_result = r\<rparr>"

text \<open>The steps while the gateway runs; \<open>cap\<close> is the capacity of the conveyor.\<close>

inductive disp_work :: "'b gateway \<Rightarrow> nat \<Rightarrow> 'b disp \<Rightarrow> 'b disp \<Rightarrow> bool" for gw cap where
  submit: "i < length (reqs s) \<Longrightarrow> reqs s ! i = Sending \<Longrightarrow> length (queue s) < cap \<Longrightarrow>
     disp_work gw cap s (s\<lparr>reqs := (reqs s)[i := Waiting], queue := queue s @ [i]\<rparr>)"
| receive: "k < length (workers s) \<Longrightarrow> workers s ! k = W_Idle \<Longrightarrow> queue s = i # q \<Longrightarrow>
     disp_work gw cap s (s\<lparr>workers := (workers s)[k := W_Working i], queue := q, runs := runs s @ [i]\<rparr>)"
| finish: "k < length (workers s) \<Longrightarrow> workers s ! k = W_Working i \<Longrightarrow>
     worker_Process gw k i s = Ret ((r, err), e, b) \<Longrightarrow>
     disp_work gw cap s (s\<lparr>workers := (workers s)[k := W_Notify i (worker_msg (tasks s ! i) r err e)],
       envs := (envs s)[i := e], outside := b\<rparr>)"
| panic: "k < length (workers s) \<Longrightarrow> workers s ! k = W_Working i \<Longrightarrow> worker_Process gw k i s = Panic m \<Longrightarrow>
     disp_work gw cap s (s\<lparr>workers := (workers s)[k := W_Panic i], envs := (envs s)[i := e], outside := b\<rparr>)"
| notify: "k < length (workers s) \<Longrightarrow> workers s ! k = W_Notify i n \<Longrightarrow> reqs s ! i = Waiting \<Longrightarrow>
     disp_work gw cap s (s\<lparr>workers := (workers s)[k := W_Idle], reqs := (reqs s)[i := Answered n]\<rparr>)"
| notify_panic: "k < length (workers s) \<Longrightarrow> workers s ! k = W_Panic i \<Longrightarrow> reqs s ! i = Waiting \<Longrightarrow>
     disp_work gw cap s (s\<lparr>workers := (workers s)[k := W_Idle], reqs := (reqs s)[i := Answered storage_failed]\<rparr>)"
| drain: "k < length (workers s) \<Longrightarrow> workers s ! k = W_Notify i n \<or> workers s ! k = W_Panic i \<Longrightarrow> reqs s ! i = TimedOut \<Longrightarrow>
     disp_work gw cap s (s\<lparr>workers := (workers s)[k := W_Idle], reqs := (reqs s)[i := Late]\<rparr>)"
| timeout: "i < length (reqs s) \<Longrightarrow> reqs s ! i = Waiting \<Longrightarrow>
     disp_work gw cap s (s\<lparr>reqs := (reqs s)[i := TimedOut]\<rparr>)"

text \<open>With the stop signals of \<open>Shutdown\<close>, which an idle worker takes.\<close>

inductive disp_step :: "'b gateway \<Rightarrow> nat \<Rightarrow> 'b disp \<Rightarrow> 'b disp \<Rightarrow> bool" for gw cap where
  work: "disp_work gw cap s s' \<Longrightarrow> disp_step gw cap s s'"
| stop: "k < length (workers s) \<Longrightarrow> workers s ! k = W_Idle \<Longrightarrow>
     disp_step gw cap s (s\<lparr>workers := (workers s)[k := W_Stopped]\<rparr>)"

definition disp_init :: "'b gateway \<Rightarrow> (selectTask \<times> envelope) list \<Rightarrow> 'b \<Rightarrow> 'b disp" where
  "disp_init gw msgs b = \<lparr>reqs = map (\<lambda>_. Sending) msgs, tasks = map fst msgs, envs = map snd msgs, queue = [],
     workers = map (\<lambda>_. W_Idle) (workStoppers gw), outside = b, runs = []\<rparr>"

subsection \<open>The invariant\<close>

text \<open>
  The requests in flight, on the conveyor or at a worker, are exactly those whose caller waits or
  has timed out, each once; together with the answered ones they are what was ever submitted, and
  the messages handed to a processor are those at a worker and the answered ones, each once.
\<close>

definition at_workers :: "worker list \<Rightarrow> nat list" where
  "at_workers ws = concat (map (\<lambda>w. case holds w of None \<Rightarrow> [] | Some i \<Rightarrow> [i]) ws)"

definition pending :: "request \<Rightarrow> bool" where
  "pending r \<longleftrightarrow> r = Waiting \<or> r = TimedOut"

fun finished :: "request \<Rightarrow> bool" where
  "finished (Answered n) = True"
| "finished Late = True"
| "finished r = False"

definition req_ids :: "(request \<Rightarrow> bool) \<Rightarrow> request list \<Rightarrow> nat set" where
  "req_ids P rs = {i. i < length rs \<and> P (rs ! i)}"

definition disp_ok :: "'b disp \<Rightarrow> bool" where
  "disp_ok s \<longleftrightarrow> distinct (queue s @ at_workers (workers s))
     \<and> set (queue s @ at_workers (workers s)) = req_ids pending (reqs s)
     \<and> distinct (runs s)
     \<and> set (runs s) = set (at_workers (workers s)) \<union> req_ids finished (reqs s)"

lemma worker_split:
  assumes "k < length ws" and "ws ! k = w"
  obtains xs ys where "ws = xs @ w # ys" and "\<And>v. ws[k := v] = xs @ v # ys"
  using assms by (metis id_take_nth_drop upd_conv_take_nth_drop)

lemma req_ids_update:
  "i < length rs \<Longrightarrow> req_ids P (rs[i := r]) = (if P r then insert i (req_ids P rs) else req_ids P rs - {i})"
  by (auto simp: req_ids_def nth_list_update split: if_splits)

lemma req_ids_iff: "i \<in> req_ids P rs \<longleftrightarrow> i < length rs \<and> P (rs ! i)"
  by (simp add: req_ids_def)

lemma at_workers_simps [simp]:
  "at_workers [] = []" "at_workers (xs @ ys) = at_workers xs @ at_workers ys"
  "at_workers (w # ws) = (case holds w of None \<Rightarrow> [] | Some i \<Rightarrow> [i]) @ at_workers ws"
  by (simp_all add: at_workers_def)

lemma at_workers_update:
  assumes "k < length ws" and "holds w = holds (ws ! k)"
  shows "at_workers (ws[k := w]) = at_workers ws"
proof -
  obtain xs ys where ws: "ws = xs @ ws ! k # ys" "\<And>v. ws[k := v] = xs @ v # ys"
    using worker_split [OF assms(1) refl] by metis
  show ?thesis by (subst (2) ws(1)) (simp add: ws(2) assms(2))
qed

lemma disp_ok_init: "disp_ok (disp_init gw msgs b)"
proof -
  have "at_workers (map (\<lambda>_. W_Idle) xs) = []" for xs :: "bool list" by (induction xs) auto
  then show ?thesis by (auto simp: disp_ok_def disp_init_def req_ids_def pending_def)
qed

lemma disp_ok_worker:
  assumes "disp_ok s" and "k < length (workers s)" and "holds (workers s ! k) = Some i"
  shows "i < length (reqs s) \<and> pending (reqs s ! i)"
proof -
  obtain xs ys where "workers s = xs @ workers s ! k # ys" using worker_split [OF assms(2) refl] by metis
  then have "i \<in> set (at_workers (workers s))" using assms(3) by (metis at_workers_simps(2,3) in_set_conv_decomp option.simps(5) append_Cons append_Nil)
  then show ?thesis using assms(1) by (auto simp: disp_ok_def req_ids_iff)
qed

lemma disp_ok_answer:
  assumes "disp_ok s" and "k < length (workers s)" and "holds (workers s ! k) = Some i" and "finished r"
  shows "disp_ok (s\<lparr>workers := (workers s)[k := W_Idle], reqs := (reqs s)[i := r]\<rparr>)"
proof -
  obtain xs ys where ws: "workers s = xs @ workers s ! k # ys" "\<And>v. (workers s)[k := v] = xs @ v # ys"
    using worker_split [OF assms(2) refl] by metis
  have at: "at_workers (workers s) = at_workers xs @ i # at_workers ys"
    by (subst ws(1)) (simp add: assms(3))
  have "i < length (reqs s)" "\<not> pending r" using disp_ok_worker [OF assms(1-3)] assms(4) by (auto simp: pending_def)
  with assms(1,4) at ws(2) show ?thesis by (auto simp: disp_ok_def req_ids_update)
qed

lemma disp_ok_work: "disp_work gw cap s s' \<Longrightarrow> disp_ok s \<Longrightarrow> disp_ok s'"
proof (induction rule: disp_work.induct)
  case (submit i s)
  then have "i \<notin> req_ids pending (reqs s)" "i \<notin> req_ids finished (reqs s)" by (auto simp: req_ids_iff pending_def)
  with submit show ?case by (auto simp: disp_ok_def req_ids_update pending_def)
next
  case (receive k s i q)
  obtain xs ys where "workers s = xs @ W_Idle # ys" "\<And>v. (workers s)[k := v] = xs @ v # ys"
    using worker_split [OF receive(1,2)] by metis
  moreover have "i \<in> req_ids pending (reqs s)" using receive by (auto simp: disp_ok_def)
  then have "i \<notin> req_ids finished (reqs s)" by (auto simp: req_ids_iff pending_def)
  ultimately show ?case using receive by (auto simp: disp_ok_def)
next
  case (finish k s i r err e b)
  then show ?case by (simp add: disp_ok_def at_workers_update)
next
  case (panic k s i m e b)
  then show ?case by (simp add: disp_ok_def at_workers_update)
next
  case (timeout i s)
  then show ?case by (auto simp: disp_ok_def req_ids_update pending_def req_ids_iff)
next
  case (notify k s i n)
  then show ?case by (intro disp_ok_answer) auto
next
  case (notify_panic k s i)
  then show ?case by (intro disp_ok_answer) auto
next
  case (drain k s i n)
  then show ?case by (intro disp_ok_answer) auto
qed

lemma disp_ok_step: "disp_step gw cap s s' \<Longrightarrow> disp_ok s \<Longrightarrow> disp_ok s'"
proof (induction rule: disp_step.induct)
  case (stop k s)
  then show ?case by (simp add: disp_ok_def at_workers_update)
qed (rule disp_ok_work)

lemma disp_ok_steps: "(disp_step gw cap)\<^sup>*\<^sup>* s s' \<Longrightarrow> disp_ok s \<Longrightarrow> disp_ok s'"
  by (induction rule: rtranclp_induct) (auto intro: disp_ok_step)

lemma disp_works: "(disp_work gw cap)\<^sup>*\<^sup>* s s' \<Longrightarrow> (disp_step gw cap)\<^sup>*\<^sup>* s s'"
  by (induction rule: rtranclp_induct) (auto intro: rtranclp.rtrancl_into_rtrancl work)

subsection \<open>Progress and termination\<close>

fun req_weight :: "request \<Rightarrow> nat" where
  "req_weight Sending = 6"
| "req_weight Waiting = 2"
| "req_weight TimedOut = 1"
| "req_weight r = 0"

fun worker_weight :: "worker \<Rightarrow> nat" where
  "worker_weight (W_Working i) = 2"
| "worker_weight (W_Notify i n) = 1"
| "worker_weight (W_Panic i) = 1"
| "worker_weight w = 0"

definition disp_weight :: "'b disp \<Rightarrow> nat" where
  "disp_weight s = sum_list (map req_weight (reqs s)) + 3 * length (queue s) + sum_list (map worker_weight (workers s))"

lemma weight_update:
  "k < length xs \<Longrightarrow> sum_list (map f (xs[k := x])) + f (xs ! k) = sum_list (map f xs) + (f x :: nat)"
  by (induction xs arbitrary: k) (auto split: nat.split)

lemma disp_work_decreases:
  "disp_work gw cap s s' \<Longrightarrow> disp_ok s \<Longrightarrow> disp_weight s' < disp_weight s"
proof (induction rule: disp_work.induct)
  case (submit i s)
  then show ?case using weight_update [of i "reqs s" req_weight Waiting] by (simp add: disp_weight_def)
next
  case (receive k s i q)
  then show ?case using weight_update [of k "workers s" worker_weight "W_Working i"] by (simp add: disp_weight_def)
next
  case (finish k s i r err e b)
  then show ?case using weight_update [of k "workers s" worker_weight "W_Notify i (worker_msg (tasks s ! i) r err e)"]
    by (simp add: disp_weight_def)
next
  case (panic k s i m e b)
  then show ?case using weight_update [of k "workers s" worker_weight "W_Panic i"] by (simp add: disp_weight_def)
next
  case (notify k s i n)
  then show ?case using weight_update [of k "workers s" worker_weight W_Idle]
      weight_update [of i "reqs s" req_weight "Answered n"] disp_ok_worker [of s k i] by (simp add: disp_weight_def)
next
  case (notify_panic k s i)
  then show ?case using weight_update [of k "workers s" worker_weight W_Idle]
      weight_update [of i "reqs s" req_weight "Answered storage_failed"] disp_ok_worker [of s k i] by (simp add: disp_weight_def)
next
  case (drain k s i n)
  then show ?case using weight_update [of k "workers s" worker_weight W_Idle]
      weight_update [of i "reqs s" req_weight Late] disp_ok_worker [of s k i] by (auto simp: disp_weight_def)
next
  case (timeout i s)
  then show ?case using weight_update [of i "reqs s" req_weight TimedOut] by (simp add: disp_weight_def)
qed

lemma disp_progress:
  assumes "disp_ok s" and "0 < cap" and "\<exists>w \<in> set (workers s). w \<noteq> W_Stopped" and "\<exists>r \<in> set (reqs s). \<not> finished r"
  shows "\<exists>s'. disp_work gw cap s s'"
proof (cases "\<exists>w \<in> set (workers s). holds w \<noteq> None")
  case True
  then obtain k i where k: "k < length (workers s)" "holds (workers s ! k) = Some i" by (auto simp: in_set_conv_nth)
  have i: "i < length (reqs s)" "reqs s ! i = Waiting \<or> reqs s ! i = TimedOut"
    using disp_ok_worker [OF assms(1) k] by (auto simp: pending_def)
  show ?thesis
  proof (cases "workers s ! k")
    case (W_Working j)
    with k have w: "workers s ! k = W_Working i" by simp
    show ?thesis
    proof (cases "worker_Process gw k i s")
      case (Ret x)
      then obtain r err e b where "worker_Process gw k i s = Ret ((r, err), e, b)" by (metis surj_pair)
      from finish [OF k(1) w this] show ?thesis ..
    next
      case (Panic m)
      from panic [OF k(1) w this] show ?thesis by blast
    qed
  qed (use k i in \<open>auto intro: notify notify_panic drain\<close>)
next
  case False
  then obtain k where k: "k < length (workers s)" "workers s ! k = W_Idle"
    using assms(3) by (metis holds.elims in_set_conv_nth option.discI)
  show ?thesis
  proof (cases "queue s")
    case Nil
    obtain i where i: "i < length (reqs s)" "\<not> finished (reqs s ! i)" using assms(4) by (auto simp: in_set_conv_nth)
    have "at_workers (workers s) = []" using False by (auto simp: at_workers_def)
    with Nil assms(1) have "i \<notin> req_ids pending (reqs s)" by (auto simp: disp_ok_def)
    with i have "reqs s ! i = Sending" by (cases "reqs s ! i") (auto simp: req_ids_iff pending_def)
    with i Nil assms(2) show ?thesis using submit [of i s cap gw] by auto
  next
    case (Cons i q)
    with k show ?thesis by (auto intro: receive)
  qed
qed

lemma disp_work_frame:
  "disp_work gw cap s s' \<Longrightarrow> length (reqs s') = length (reqs s) \<and> length (workers s') = length (workers s)
     \<and> (W_Stopped \<notin> set (workers s) \<longrightarrow> W_Stopped \<notin> set (workers s'))"
  by (induction rule: disp_work.induct) (auto dest!: subsetD [OF set_update_subset_insert])

lemma disp_step_length: "disp_step gw cap s s' \<Longrightarrow> length (reqs s') = length (reqs s)"
  by (induction rule: disp_step.induct) (auto dest: disp_work_frame)

lemma disp_steps_length: "(disp_step gw cap)\<^sup>*\<^sup>* s s' \<Longrightarrow> length (reqs s') = length (reqs s)"
  by (induction rule: rtranclp_induct) (auto dest: disp_step_length)

lemma disp_run:
  assumes "(disp_work gw cap ^^ n) s s'" and "disp_ok s" and "W_Stopped \<notin> set (workers s)"
  shows "n + disp_weight s' \<le> disp_weight s \<and> disp_ok s' \<and> W_Stopped \<notin> set (workers s')
     \<and> length (reqs s') = length (reqs s) \<and> length (workers s') = length (workers s)"
  using assms
proof (induction n arbitrary: s')
  case (Suc n)
  then obtain t where t: "(disp_work gw cap ^^ n) s t" "disp_work gw cap t s'" by auto
  with Suc.IH [OF t(1)] Suc.prems show ?case
    using disp_work_decreases [OF t(2)] disp_ok_work [OF t(2)] disp_work_frame [OF t(2)] by auto
qed simp

lemma disp_weight_init: "disp_weight (disp_init gw msgs b) = 6 * length msgs"
  by (simp add: disp_weight_def disp_init_def comp_def sum_list_triv)

text \<open>One message through one worker.\<close>

abbreviation demo_gw :: "unit gateway" where "demo_gw \<equiv> idle_gateway BackendStateRunning [True]"

abbreviation demo_msgs :: "(selectTask \<times> envelope) list" where "demo_msgs \<equiv> [(TaskSaveMail, NewEnvelope ''::1'' ''q'')]"

definition demo_state :: "request \<Rightarrow> nat list \<Rightarrow> worker \<Rightarrow> nat list \<Rightarrow> unit disp" where
  "demo_state r q w rs = (disp_init demo_gw demo_msgs ())\<lparr>reqs := [r], queue := q, workers := [w], runs := rs\<rparr>"

abbreviation demo_answer :: notifyMsg where
  "demo_answer \<equiv> \<lparr>n_err = None, n_queuedID = ''q'', n_result = Some ResOK\<rparr>"

lemma demo_steps:
  "disp_work demo_gw 1 (disp_init demo_gw demo_msgs ()) (demo_state Waiting [0] W_Idle [])"
  "disp_work demo_gw 1 (demo_state Waiting [0] W_Idle []) (demo_state Waiting [] (W_Working 0) [0])"
  "disp_work demo_gw 1 (demo_state Waiting [] (W_Working 0) [0]) (demo_state Waiting [] (W_Notify 0 demo_answer) [0])"
  "disp_work demo_gw 1 (demo_state Waiting [] (W_Notify 0 demo_answer) [0]) (demo_state (Answered demo_answer) [] W_Idle [0])"
  using submit [of 0 "disp_init demo_gw demo_msgs ()" 1 demo_gw]
    receive [of 0 "demo_state Waiting [0] W_Idle []" 0 "[]" demo_gw 1]
    finish [of 0 "demo_state Waiting [] (W_Working 0) [0]" 0 demo_gw "Some ResOK" None "NewEnvelope ''::1'' ''q''" "()" 1]
    notify [of 0 "demo_state Waiting [] (W_Notify 0 demo_answer) [0]" 0 demo_answer demo_gw 1]
  by (simp_all add: demo_state_def disp_init_def idle_gateway_def worker_Process_def worker_msg_def
      DefaultProcessor_def NewEnvelope_def)

lemma demo_run: "(disp_work demo_gw 1 ^^ 4) (disp_init demo_gw demo_msgs ()) (demo_state (Answered demo_answer) [] W_Idle [0])"
  using demo_steps by (auto simp: numeral_eq_Suc)

lemma demo_stuck: "\<nexists>s'. disp_work demo_gw 1 (demo_state (Answered demo_answer) [] W_Idle [0]) s'"
  by (auto simp: demo_state_def disp_init_def elim!: disp_work.cases)

subsection \<open>Properties\<close>

text \<open>
  C8: Whatever the interleaving of callers, workers, timers, panics and stop signals, a message is
  handed to a processor at most once, every call that got its answer (or whose late answer was
  drained) had its message processed, and a call that waits or has timed out has its message in
  exactly one place, the conveyor or one worker.
\<close>

theorem processed_once:
  assumes "(disp_step gw cap)\<^sup>*\<^sup>* (disp_init gw msgs b) s"
  shows "distinct (runs s) \<and> length (reqs s) = length msgs
     \<and> (\<forall>i < length msgs. finished (reqs s ! i) \<longrightarrow> i \<in> set (runs s))
     \<and> (\<forall>i < length msgs. reqs s ! i = Waiting \<or> reqs s ! i = TimedOut
          \<longrightarrow> count_list (queue s @ at_workers (workers s)) i = 1)"
proof -
  have ok: "disp_ok s" using disp_ok_steps [OF assms disp_ok_init] .
  have len: "length (reqs s) = length msgs" using disp_steps_length [OF assms] by (simp add: disp_init_def)
  have one: "distinct xs \<Longrightarrow> x \<in> set xs \<Longrightarrow> count_list xs x = 1" for xs and x :: nat
    by (induction xs) (auto simp: count_list_0_iff)
  have "count_list (queue s @ at_workers (workers s)) i = 1" if "i < length msgs" "reqs s ! i = Waiting \<or> reqs s ! i = TimedOut" for i
    using ok that len by (intro one) (auto simp: disp_ok_def req_ids_iff pending_def set_eq_iff)
  then show ?thesis using ok len by (auto simp: disp_ok_def req_ids_iff)
qed

theorem processed_once_witness:
  "count_list (queue (demo_state Waiting [] (W_Working 0) [0]) @ at_workers (workers (demo_state Waiting [] (W_Working 0) [0]))) 0 = 1"
proof -
  have "(disp_step demo_gw 1)\<^sup>*\<^sup>* (disp_init demo_gw demo_msgs ()) (demo_state Waiting [] (W_Working 0) [0])"
    using demo_steps(1,2) by (meson disp_step.work rtranclp.rtrancl_into_rtrancl rtranclp.rtrancl_refl)
  from processed_once [OF this] show ?thesis by (simp add: demo_state_def)
qed



end
