(* ===== verification/Processors.thy ===== *)
theory Processors
  imports Dispatcher Mime_Header
begin

section \<open>The processors of the repository (backends/p_debugger.go, p_header.go, p_hasher.go, p_headers_parser.go, p_compressor.go)\<close>

text \<open>
  Decorators that work on the envelope alone. The variable \<open>config\<close> that a constructor shares with
  its initializer is a cell of the store \<open>pstore\<close>, allocated when the constructor runs; the store also
  gives the readings of the clock, each as the text of \<open>UnixNano\<close> and in the format RFC1123Z. The MD5
  sum in hexadecimal, the decoder of encoded words, \<open>ReadMIMEHeader\<close> and the zlib compressor are
  the fields of \<open>lib\<close>. Logging and sleeping are left out.
\<close>

record lib =
  md5_hex :: "bytes \<Rightarrow> bytes"
  word_decoder :: "bytes \<Rightarrow> bytes option"
  header_reader :: "bytes \<Rightarrow> mime_header \<times> herr option"
  zlib :: "bytes \<Rightarrow> bytes"

record debuggerConfig =
  LogReceivedMails :: bool
  SleepSec :: int

record pstore =
  debuggers :: "debuggerConfig option list"
  headers :: "bytes option list"
  clock :: "(bytes \<times> bytes) list"

definition time_Now :: "pstore \<Rightarrow> (bytes \<times> bytes) \<times> pstore" where
  "time_Now b = (case pop (''0'', ''Thu, 01 Jan 1970 00:00:00 +0000'') (clock b) of (t, ts) \<Rightarrow> (t, b\<lparr>clock := ts\<rparr>))"

fun jbool :: "jvalue option \<Rightarrow> bool" where
  "jbool (Some (JBool v)) = v"
| "jbool v = False"

subsection \<open>debugger\<close>

definition debugger_fields :: "field list" where
  "debugger_fields =
     [\<lparr>f_json = ''log_received_mails'', f_name = ''LogReceivedMails'', f_type = FBool\<rparr>,
      \<lparr>f_json = ''sleep_seconds,omitempty'', f_name = ''SleepSec'', f_type = FInt\<rparr>]"

definition debugger_init :: "nat \<Rightarrow> backendConfig \<Rightarrow> pstore hook" where
  "debugger_init n backendConfig b =
     (case ExtractConfig backendConfig debugger_fields of
        Inl err \<Rightarrow> (Some err, b)
      | Inr vs \<Rightarrow> (None, b\<lparr>debuggers := (debuggers b)[n := Some
          \<lparr>LogReceivedMails = jbool (map_of vs ''LogReceivedMails''), SleepSec = jint (map_of vs ''SleepSec'')\<rparr>]\<rparr>))"

definition debugger_process :: "nat \<Rightarrow> pstore decorator" where
  "debugger_process n p e task b =
     (if task = TaskSaveMail then
        (case debuggers b ! n of
           None \<Rightarrow> Panic ''nil pointer dereference''
         | Some config \<Rightarrow>
             if SleepSec config > 0 then
               (if SleepSec config = 1 then Panic ''panic on purpose'' else p e task b)
             else p e task b)
      else p e task b)"

definition Debugger :: "pstore constructor" where
  "Debugger svc b =
     (let n = length (debuggers b)
      in (debugger_process n, AddInitializer svc (debugger_init n), b\<lparr>debuggers := debuggers b @ [None]\<rparr>))"

subsection \<open>header\<close>

definition header_fields :: "field list" where
  "header_fields = [\<lparr>f_json = ''primary_mail_host'', f_name = ''PrimaryHost'', f_type = FString\<rparr>]"

definition header_init :: "nat \<Rightarrow> backendConfig \<Rightarrow> pstore hook" where
  "header_init n backendConfig b =
     (case ExtractConfig backendConfig header_fields of
        Inl err \<Rightarrow> (Some err, b)
      | Inr vs \<Rightarrow> (None, b\<lparr>headers := (headers b)[n := Some (jstr (map_of vs ''PrimaryHost''))]\<rparr>))"

text \<open>The text that the processor puts into \<open>DeliveryHeader\<close>, for the recipient \<open>r\<close>.\<close>

definition delivery_header :: "bytes \<Rightarrow> address \<Rightarrow> bytes \<Rightarrow> envelope \<Rightarrow> bytes" where
  "delivery_header primaryHost r date e =
     (let to = trim_space (User r) @ ''@'' @ primaryHost;
          hash = (if eHashes e \<noteq> [] then hd (eHashes e) else ''unknown'');
          protocol = ''SMTP'';
          protocol = (if eESMTP e then ''E'' @ protocol else protocol);
          protocol = (if eTLS e then protocol @ ''S'' else protocol)
      in ''Delivered-To: '' @ to @ [CHR 0x0A]
         @ ''Received: from '' @ eRemoteIP e @ '' (['' @ eRemoteIP e @ ''])'' @ [CHR 0x0A]
         @ [CHR 0x09] @ ''by '' @ Host r @ '' with '' @ protocol @ '' id '' @ hash @ ''@'' @ Host r @ '';'' @ [CHR 0x0A]
         @ [CHR 0x09] @ date @ [CHR 0x0A])"

definition header_process :: "nat \<Rightarrow> pstore decorator" where
  "header_process n p e task b =
     (if task = TaskSaveMail then
        (case eRcptTo e of
           [] \<Rightarrow> Panic ''index out of range''
         | r # _ \<Rightarrow>
             (case headers b ! n of
                None \<Rightarrow> Panic ''nil pointer dereference''
              | Some primaryHost \<Rightarrow>
                  (case time_Now b of ((_, date), b) \<Rightarrow>
                     p (e\<lparr>eDeliveryHeader := delivery_header primaryHost r date e\<rparr>) task b)))
      else p e task b)"

definition Header :: "pstore constructor" where
  "Header svc b =
     (let n = length (headers b)
      in (header_process n, AddInitializer svc (header_init n), b\<lparr>headers := headers b @ [None]\<rparr>))"

subsection \<open>hasher\<close>

text \<open>
  The loop over the recipients. \<open>h2 := h\<close> copies the interface value, not the hash: both names are the
  same object, so what was written for one recipient stays for the next; \<open>written\<close> is what \<open>h\<close> got.
\<close>

fun hash_rcpts :: "lib \<Rightarrow> bytes \<Rightarrow> address list \<Rightarrow> bytes list" where
  "hash_rcpts L written [] = []"
| "hash_rcpts L written (r # rs) =
     (let written = written @ addr_String r in md5_hex L written # hash_rcpts L written rs)"

definition hasher_process :: "lib \<Rightarrow> pstore decorator" where
  "hasher_process L p e task b =
     (if task = TaskSaveMail then
        (case time_Now b of ((ts, _), b) \<Rightarrow>
           p (e\<lparr>eHashes := eHashes e @ hash_rcpts L (addr_String (eMailFrom e) @ eSubject e @ ts) (eRcptTo e)\<rparr>) task b)
      else p e task b)"

definition Hasher :: "lib \<Rightarrow> pstore constructor" where
  "Hasher L svc b = (hasher_process L, svc, b)"

subsection \<open>headersparser\<close>

definition headersparser_process :: "lib \<Rightarrow> pstore decorator" where
  "headersparser_process L p e task b =
     (if task = TaskSaveMail
      then bind_outcome (ParseHeaders (word_decoder L) (header_reader L) e) (\<lambda>(err, e). p e task b)
      else p e task b)"

definition HeadersParser :: "lib \<Rightarrow> pstore constructor" where
  "HeadersParser L svc b = (headersparser_process L, svc, b)"

subsection \<open>compressor\<close>

definition newCompressor :: "bytes \<times> bool" where
  "newCompressor = ([], False)"

definition compressor_set :: "bytes \<times> bool \<Rightarrow> bytes \<Rightarrow> bytes \<times> bool" where
  "compressor_set c b = (b, True)"

definition compressor_clear :: "bytes \<times> bool \<Rightarrow> bytes \<times> bool" where
  "compressor_clear c = ([], False)"

text \<open>Printing a compressor drains the buffer it points to, the data of the envelope.\<close>

definition compressor_String :: "lib \<Rightarrow> bytes \<times> bool \<Rightarrow> envelope \<Rightarrow> bytes \<times> envelope" where
  "compressor_String L c e = (if \<not> snd c then ([], e) else (zlib L (fst c @ eData e), e\<lparr>eData := []\<rparr>))"

definition compressor_process :: "pstore decorator" where
  "compressor_process p e task b =
     (if task = TaskSaveMail then
        (let compressor = compressor_set newCompressor (eDeliveryHeader e)
         in p (e\<lparr>eValues := AList.update ''zlib-compressor'' (VCompressor compressor) (eValues e)\<rparr>) task b)
      else p e task b)"

definition Compressor :: "pstore constructor" where
  "Compressor svc b = (compressor_process, svc, b)"

text \<open>The registry after the \<open>init\<close> functions of these files.\<close>

definition builtin_registry :: "lib \<Rightarrow> pstore registry" where
  "builtin_registry L = [(''debugger'', Debugger), (''header'', Header), (''hasher'', Hasher L),
     (''headersparser'', HeadersParser L), (''compressor'', Compressor)]"

subsection \<open>The contract of a decorator\<close>

text \<open>
  What the five decorators have in common: a recipient is validated by the next processor alone, and
  a call that returns made one call of the next processor, on an envelope with the same queue id,
  sender, recipients and data, and returned its outcome.
\<close>

definition same_message :: "envelope \<Rightarrow> envelope \<Rightarrow> bool" where
  "same_message e e' \<longleftrightarrow> eQueuedId e' = eQueuedId e \<and> eMailFrom e' = eMailFrom e \<and> eRcptTo e' = eRcptTo e \<and> eData e' = eData e"

lemma same_message_trans [trans]: "same_message a b \<Longrightarrow> same_message b c \<Longrightarrow> same_message a c"
  by (simp add: same_message_def)

lemma same_message_refl [simp]: "same_message e e"
  by (simp add: same_message_def)

locale tail_decorator =
  fixes d :: "'b decorator"
  assumes on_validate: "d p e TaskValidateRcpt b = p e TaskValidateRcpt b"
    and tail_call: "d p e t b = Ret x \<Longrightarrow> \<exists>e1 b1. same_message e e1 \<and> p e1 t b1 = Ret x"
begin

lemma keeps_result:
  assumes "\<And>e t b r e' b'. p e t b = Ret (r, e', b') \<Longrightarrow> Q r \<and> same_message e e'"
    and "d p e t b = Ret (r, e', b')"
  shows "Q r \<and> same_message e e'"
  using tail_call [OF assms(2)] assms(1) same_message_trans by blast

end

interpretation debugger: tail_decorator "debugger_process n"
  by unfold_locales
    (auto simp: debugger_process_def split: if_splits option.splits selectTask.splits intro: same_message_refl)

interpretation header: tail_decorator "header_process n"
proof
  show "header_process n p e TaskValidateRcpt b = p e TaskValidateRcpt b" for p e b by (simp add: header_process_def)
  show "\<exists>e1 b1. same_message e e1 \<and> p e1 t b1 = Ret x" if h: "header_process n p e t b = Ret x" for p e t b x
  proof (cases "t = TaskSaveMail")
    case True
    then obtain t1 b1 where "p (e\<lparr>eDeliveryHeader := t1\<rparr>) t b1 = Ret x"
      using h by (auto simp: header_process_def split: list.splits option.splits prod.splits)
    then show ?thesis by (intro exI [of _ "e\<lparr>eDeliveryHeader := t1\<rparr>"] exI [of _ b1]) (simp add: same_message_def)
  next
    case False
    with h have "p e t b = Ret x" by (simp add: header_process_def)
    then show ?thesis using same_message_refl by blast
  qed
qed

interpretation hasher: tail_decorator "hasher_process L"
proof
  show "hasher_process L p e TaskValidateRcpt b = p e TaskValidateRcpt b" for p e b by (simp add: hasher_process_def)
  show "\<exists>e1 b1. same_message e e1 \<and> p e1 t b1 = Ret x" if h: "hasher_process L p e t b = Ret x" for p e t b x
  proof (cases "t = TaskSaveMail")
    case True
    then obtain hs b1 where "p (e\<lparr>eHashes := hs\<rparr>) t b1 = Ret x" using h by (auto simp: hasher_process_def split: prod.splits)
    then show ?thesis by (intro exI [of _ "e\<lparr>eHashes := hs\<rparr>"] exI [of _ b1]) (simp add: same_message_def)
  next
    case False
    with h have "p e t b = Ret x" by (simp add: hasher_process_def)
    then show ?thesis using same_message_refl by blast
  qed
qed

lemma ParseHeaders_same: "ParseHeaders dec read e = Ret (err, e') \<Longrightarrow> same_message e e'"
  by (auto simp: ParseHeaders_def Let_def same_message_def bind_outcome_Ret_iff
      split: if_splits option.splits prod.splits list.splits)

interpretation headersparser: tail_decorator "headersparser_process L"
proof
  show "headersparser_process L p e TaskValidateRcpt b = p e TaskValidateRcpt b" for p e b
    by (simp add: headersparser_process_def)
  show "\<exists>e1 b1. same_message e e1 \<and> p e1 t b1 = Ret x" if "headersparser_process L p e t b = Ret x" for p e t b x
    using that by (auto simp: headersparser_process_def bind_outcome_Ret_iff split: if_splits
        dest: ParseHeaders_same intro: same_message_refl)
qed

interpretation compressor: tail_decorator compressor_process
proof
  show "compressor_process p e TaskValidateRcpt b = p e TaskValidateRcpt b" for p e b by (simp add: compressor_process_def)
  show "\<exists>e1 b1. same_message e e1 \<and> p e1 t b1 = Ret x" if h: "compressor_process p e t b = Ret x" for p e t b x
  proof (cases "t = TaskSaveMail")
    case True
    then obtain vs where "p (e\<lparr>eValues := vs\<rparr>) t b = Ret x" using h by (auto simp: compressor_process_def Let_def)
    then show ?thesis by (intro exI [of _ "e\<lparr>eValues := vs\<rparr>"] exI [of _ b]) (simp add: same_message_def)
  next
    case False
    with h have "p e t b = Ret x" by (simp add: compressor_process_def)
    then show ?thesis using same_message_refl by blast
  qed
qed

subsection \<open>Stacks of such decorators\<close>

fun stack_good :: "'b stack \<Rightarrow> bool" where
  "stack_good NoopProcessor = True"
| "stack_good (Stack p) = (\<exists>ds. (\<forall>d \<in> set ds. tail_decorator d) \<and> p = Decorate DefaultProcessor ds)"

lemma Decorate_snoc: "Decorate c (ds @ [d]) = d (Decorate c ds)"
  by (simp add: Decorate_def)

lemma Decorate_validate:
  "\<forall>d \<in> set ds. tail_decorator d \<Longrightarrow> Decorate DefaultProcessor ds e TaskValidateRcpt b = Ret ((Some ResOK, None), e, b)"
proof (induction ds rule: rev_induct)
  case Nil
  then show ?case by (simp add: Decorate_def DefaultProcessor_def)
next
  case (snoc d ds)
  then show ?case using tail_decorator.on_validate [of d] by (simp add: Decorate_snoc)
qed

lemma Decorate_result:
  "\<forall>d \<in> set ds. tail_decorator d \<Longrightarrow> Decorate DefaultProcessor ds e t b = Ret (r, e', b') \<Longrightarrow>
     r = (Some ResOK, None) \<and> same_message e e'"
proof (induction ds arbitrary: e t b r e' b' rule: rev_induct)
  case Nil
  then show ?case by (simp add: Decorate_def DefaultProcessor_def)
next
  case (snoc d ds)
  then have d: "tail_decorator d" and ds: "\<forall>d \<in> set ds. tail_decorator d" by auto
  show ?case using tail_decorator.keeps_result [OF d, of "Decorate DefaultProcessor ds" "\<lambda>r. r = (Some ResOK, None)"]
      snoc.IH [OF ds] snoc.prems(2) by (simp add: Decorate_snoc)
qed

lemma stack_good_validate: "stack_good st \<Longrightarrow> stack_Process st e TaskValidateRcpt b = Ret ((Some ResOK, None), e, b)"
  by (cases st) (auto simp: DefaultProcessor_def Decorate_validate)

lemma stack_good_result:
  "stack_good st \<Longrightarrow> stack_Process st e t b = Ret (r, e', b') \<Longrightarrow> r = (Some ResOK, None) \<and> same_message e e'"
  by (cases st) (auto simp: DefaultProcessor_def dest: Decorate_result)

text \<open>A registry whose constructors make only such decorators gives only such stacks.\<close>

definition good_registry :: "'b registry \<Rightarrow> bool" where
  "good_registry reg \<longleftrightarrow> (\<forall>n mk svc b d svc' b'. map_of reg n = Some mk \<longrightarrow> mk svc b = (d, svc', b') \<longrightarrow> tail_decorator d)"

lemma builtin_good: "good_registry (builtin_registry L)"
  unfolding good_registry_def builtin_registry_def
  using debugger.tail_decorator_axioms header.tail_decorator_axioms hasher.tail_decorator_axioms
    headersparser.tail_decorator_axioms compressor.tail_decorator_axioms
  by (auto simp: Debugger_def Header_def Hasher_def HeadersParser_def Compressor_def Let_def split: if_splits)

lemma stack_decorators_good:
  "good_registry reg \<Longrightarrow> stack_decorators reg names svc b = (Inr ds, svc', b') \<Longrightarrow> \<forall>d \<in> set ds. tail_decorator d"
proof (induction names arbitrary: svc b ds)
  case (Cons n names)
  obtain mk where mk: "map_of reg n = Some mk" using Cons.prems(2) by (cases "map_of reg n") auto
  obtain d svc1 b1 where d: "mk svc b = (d, svc1, b1)" using prod_cases3 by blast
  obtain r svc2 b2 where r: "stack_decorators reg names svc1 b1 = (r, svc2, b2)" using prod_cases3 by blast
  have "tail_decorator d" using Cons.prems(1) mk d unfolding good_registry_def by blast
  with Cons mk d r show ?case by (cases r) auto
qed simp

lemma newStack_good: "good_registry reg \<Longrightarrow> newStack reg cfg svc b = (Inr st, svc', b') \<Longrightarrow> stack_good st"
proof -
  assume g: "good_registry reg" and h: "newStack reg cfg svc b = (Inr st, svc', b')"
  obtain r svc1 b1 where r: "stack_decorators reg (rev (split_on (CHR ''|'') (to_lower (trim_space cfg)))) svc b = (r, svc1, b1)"
    using prod_cases3 by blast
  show ?thesis
  proof (cases r)
    case (Inr ds)
    have "\<forall>d \<in> set ds. tail_decorator d" using stack_decorators_good [OF g] r Inr by blast
    then have "stack_good (Stack (Decorate DefaultProcessor ds))" unfolding stack_good.simps by blast
    with h r Inr show ?thesis by (auto simp del: stack_good.simps(2) simp: newStack_def Let_def split: if_splits)
  qed (use h r in \<open>auto simp: newStack_def Let_def split: if_splits\<close>)
qed

definition stacks_good :: "'b gateway \<Rightarrow> bool" where
  "stacks_good gw \<longleftrightarrow> (\<forall>st \<in> set (gw_processors gw @ gw_validators gw). stack_good st)"

lemma make_stacks_good:
  "good_registry reg \<Longrightarrow> make_stacks reg c n gw svc b = (err, gw', svc', b') \<Longrightarrow> stacks_good gw \<Longrightarrow> stacks_good gw'"
proof (induction n arbitrary: gw svc b)
  case (Suc n)
  obtain r svc1 b1 where r: "newStack reg (SaveProcess c) svc b = (r, svc1, b1)" using prod_cases3 by blast
  show ?case
  proof (cases r)
    case (Inr p)
    obtain q svc2 b2 where q: "newStack reg (ValidateProcess c) svc1 b1 = (q, svc2, b2)" using prod_cases3 by blast
    have p: "stack_good p" using newStack_good [OF Suc.prems(1)] r Inr by blast
    show ?thesis
    proof (cases q)
      case (Inl e)
      then show ?thesis using Suc.prems r Inr q p by (auto simp: stacks_good_def)
    next
      case q': (Inr v)
      have v: "stack_good v" using newStack_good [OF Suc.prems(1)] q q' by blast
      have "make_stacks reg c n (gw\<lparr>gw_processors := gw_processors gw @ [p], gw_validators := gw_validators gw @ [v]\<rparr>) svc2 b2
          = (err, gw', svc', b')" using Suc.prems(2) r Inr q q' by simp
      then show ?thesis by (rule Suc.IH [OF Suc.prems(1)]) (use Suc.prems(3) p v in \<open>auto simp: stacks_good_def\<close>)
    qed
  qed (use Suc.prems r in auto)
qed simp

lemma gw_Initialize_stacks:
  assumes "good_registry reg" and "gw_Initialize reg cfg gw svc b = (err, gw', svc', b')" and "stacks_good gw"
  shows "stacks_good gw'"
proof (cases "gState gw \<noteq> BackendStateNew \<and> gState gw \<noteq> BackendStateShuttered")
  case True
  with assms(2,3) show ?thesis by (simp add: gw_Initialize_def)
next
  case st: False
  obtain c where c: "loadConfig gw cfg = (None, gw\<lparr>gwConfig := Some c\<rparr>)" using loadConfig_ok by blast
  let ?gw = "gw\<lparr>gwConfig := Some c, gw_processors := [], gw_validators := []\<rparr>"
  obtain e gw1 svc1 b1 where m: "make_stacks reg c (workersSize c) ?gw svc b = (e, gw1, svc1, b1)" using prod_cases4 by blast
  have "stacks_good gw1" using make_stacks_good [OF assms(1) m] by (simp add: stacks_good_def)
  moreover obtain errs svc2 b2 where "svc_initialize svc1 cfg b1 = (errs, svc2, b2)" using prod_cases3 by blast
  ultimately show ?thesis using assms(2) m unfolding gw_Initialize_def if_not_P [OF st] c
    by (cases e) (auto simp: stacks_good_def split: if_splits)
qed

lemma gw_reach_stacks: "gw_reach reg gw svc \<Longrightarrow> good_registry reg \<Longrightarrow> stacks_good gw"
proof (induction rule: gw_reach.induct)
  case (reach_New cfg svc b gw svc' b')
  obtain e gw1 svc1 b1 where i: "gw_Initialize reg cfg new_gateway svc b = (e, gw1, svc1, b1)" using prod_cases4 by blast
  have "stacks_good gw1" using gw_Initialize_stacks [OF reach_New(2) i] by (simp add: stacks_good_def new_gateway_def)
  then show ?case using reach_New(1) i by (auto simp: gw_New_def stacks_good_def split: option.splits)
next
  case (reach_Initialize gw svc cfg b err gw' svc' b')
  show ?case
    by (rule gw_Initialize_stacks [OF reach_Initialize.prems reach_Initialize(2)]) (use reach_Initialize in blast)
next
  case (reach_Start gw svc err gw')
  then show ?case by (auto simp: stacks_good_def elim!: gw_Start_cases)
next
  case (reach_Shutdown gw svc b err gw' svc' b')
  then show ?case by (auto simp: stacks_good_def elim!: gw_Shutdown_cases)
next
  case (reach_Reinitialize gw svc b err gw' svc' b')
  obtain e gw1 svc1 b1 where i: "gw_Initialize reg (gConfig gw) gw (svc_reset svc) b = (e, gw1, svc1, b1)"
    using prod_cases4 by blast
  have "gw' = gw \<or> gw' = gw1" using reach_Reinitialize(2) i by (cases e) (auto simp: gw_Reinitialize_def split: if_splits)
  then show ?case using gw_Initialize_stacks [OF reach_Reinitialize.prems i] reach_Reinitialize by auto
qed

subsection \<open>The gateway as the backend of a session\<close>

text \<open>
  The backend that a session sees when a worker answers before the timer: the gateway made by \<open>New\<close> from
  a configuration over the registry of this theory and started, or one that is not running when
  that failed. \<open>pick\<close> chooses the worker, and \<open>left\<close> is what a panicking processor leaves behind.
\<close>

definition started_gateway :: "lib \<Rightarrow> backendConfig \<Rightarrow> pstore \<Rightarrow> pstore gateway" where
  "started_gateway L cfg b0 =
     (case gw_New (builtin_registry L) cfg \<lparr>initializers = [], shutdowners = []\<rparr> b0 of
        (Inl err, svc, b) \<Rightarrow> new_gateway
      | (Inr gw, svc, b) \<Rightarrow> (case gw_Start gw of Ret (err, gw') \<Rightarrow> gw' | Panic m \<Rightarrow> gw))"

definition gateway_work :: "'b gateway \<Rightarrow> (envelope \<Rightarrow> nat) \<Rightarrow> (envelope \<times> 'b \<Rightarrow> envelope \<times> 'b) \<Rightarrow>
    selectTask \<Rightarrow> envelope \<Rightarrow> 'b \<Rightarrow> notifyMsg \<times> envelope \<times> 'b" where
  "gateway_work gw pick left task e b =
     (let k = pick e mod length (workStoppers gw)
      in worker_notify (gw_processors gw ! k) (gw_validators gw ! k) left e task b)"

definition gateway_env :: "'b env \<Rightarrow> 'b gateway \<Rightarrow> (envelope \<Rightarrow> nat) \<Rightarrow> (envelope \<times> 'b \<Rightarrow> envelope \<times> 'b) \<Rightarrow> 'b env" where
  "gateway_env en gw pick left = en\<lparr>
     process := (\<lambda>e b.
       if gState gw \<noteq> BackendStateRunning
       then (case gw_Process gw None of Ret r \<Rightarrow> (result_String r, e, b) | Panic m \<Rightarrow> ([], e, b))
       else (case gateway_work gw pick left TaskSaveMail e b of (n, e, b) \<Rightarrow>
               (case gw_Process gw (Some n) of Ret r \<Rightarrow> (result_String r, e, b) | Panic m \<Rightarrow> ([], e, b)))),
     validateRcpt := (\<lambda>e b.
       if gState gw \<noteq> BackendStateRunning
       then (case gw_ValidateRcpt gw None of Ret r \<Rightarrow> (r, e, b) | Panic m \<Rightarrow> (None, e, b))
       else (case gateway_work gw pick left TaskValidateRcpt e b of (n, e, b) \<Rightarrow>
               (case gw_ValidateRcpt gw (Some n) of Ret r \<Rightarrow> (r, e, b) | Panic m \<Rightarrow> (None, e, b))))\<rparr>"

lemma started_gateway_good: "stacks_good (started_gateway L cfg b0) \<and> (gState (started_gateway L cfg b0) = BackendStateRunning \<longrightarrow>
   gw_ok (started_gateway L cfg b0))"
proof -
  obtain r svc b where n: "gw_New (builtin_registry L) cfg \<lparr>initializers = [], shutdowners = []\<rparr> b0 = (r, svc, b)"
    using prod_cases3 by blast
  show ?thesis
  proof (cases r)
    case (Inl err)
    with n show ?thesis by (simp add: started_gateway_def stacks_good_def new_gateway_def)
  next
    case (Inr gw)
    have gw: "gw_reach (builtin_registry L) gw svc" using n Inr by (metis reach_New)
    show ?thesis
    proof (cases "gw_Start gw")
      case (Ret x)
      then obtain err gw' where s: "gw_Start gw = Ret (err, gw')" by (cases x) auto
      have "gw_reach (builtin_registry L) gw' svc" using reach_Start [OF gw s] .
      then show ?thesis using n Inr s gw_reach_ok gw_reach_stacks [OF _ builtin_good] by (auto simp: started_gateway_def)
    next
      case (Panic m)
      then show ?thesis using n Inr gw gw_reach_ok gw_reach_stacks [OF _ builtin_good] by (auto simp: started_gateway_def)
    qed
  qed
qed

lemma gateway_work_good:
  assumes "stacks_good gw" and "gw_ok gw" and "gState gw = BackendStateRunning"
  shows "\<exists>save validate. gateway_work gw pick left task e b = worker_notify save validate left e task b
    \<and> stack_good save \<and> stack_good validate"
proof -
  let ?k = "pick e mod length (workStoppers gw)"
  obtain c where c: "gwConfig gw = Some c" "length (workStoppers gw) = workersSize c"
    "workersSize c \<le> length (gw_processors gw)" "workersSize c \<le> length (gw_validators gw)"
    using assms(2,3) by (auto simp: gw_ok_def gw_ready_def split: option.splits)
  have k: "?k < workersSize c" using c by (metis mod_less_divisor workersSize_pos(1))
  have "gw_processors gw ! ?k \<in> set (gw_processors gw)" "gw_validators gw ! ?k \<in> set (gw_validators gw)"
    using order.strict_trans2 [OF k c(3)] order.strict_trans2 [OF k c(4)] by auto
  then show ?thesis using assms(1) by (auto simp: gateway_work_def Let_def stacks_good_def)
qed

lemma gateway_validate:
  assumes "stacks_good gw" and "gState gw = BackendStateRunning \<longrightarrow> gw_ok gw"
  shows "\<exists>r. validateRcpt (gateway_env en gw pick left) e b = (r, e, b)"
proof (cases "gState gw = BackendStateRunning")
  case True
  obtain save validate where w: "gateway_work gw pick left TaskValidateRcpt e b = worker_notify save validate left e TaskValidateRcpt b"
    "stack_good validate" using gateway_work_good [OF assms(1)] assms(2) True by blast
  then have "\<exists>n. gateway_work gw pick left TaskValidateRcpt e b = (n, e, b)"
    by (simp add: worker_notify_def stack_good_validate)
  then show ?thesis using True by (auto simp: gateway_env_def split: outcome.split)
qed (auto simp: gateway_env_def split: outcome.split)

interpretation gwb: smtp_backend "gateway_env en (started_gateway L cfg b0) pick left" for en L cfg b0 pick left
proof
  fix e b r e' b'
  assume "validateRcpt (gateway_env en (started_gateway L cfg b0) pick left) e b = (r, e', b')"
  then show "eRcptTo e' = eRcptTo e \<and> eData e' = eData e"
    using gateway_validate [of "started_gateway L cfg b0" en pick left e b] started_gateway_good [of L cfg b0] by auto
qed

subsection \<open>Properties\<close>


definition demo_lib :: lib where
  "demo_lib = \<lparr>md5_hex = id, word_decoder = (\<lambda>_. None), header_reader = (\<lambda>_. ([], None)), zlib = id\<rparr>"

definition demo_store :: pstore where
  "demo_store = \<lparr>debuggers = [], headers = [], clock = []\<rparr>"

definition demo_penv :: "pstore env" where
  "demo_penv = \<lparr>sc = sc demo_env, hosts = hosts demo_env, tlsLoaded = False, version = ''1'', activeClients = 1, now = ''now'',
     authenticator = None, process = (\<lambda>e b. ([], e, b)), validateRcpt = (\<lambda>e b. (None, e, b))\<rparr>"


text \<open>The hash of a recipient covers every recipient before it.\<close>

lemma hashes_accumulate:
  "i < length rs \<Longrightarrow> hash_rcpts L w rs ! i = md5_hex L (w @ concat (map addr_String (take (Suc i) rs)))"
  by (induction rs arbitrary: w i) (auto simp: nth_Cons Let_def split: nat.split)

end
