(* ===== verification/Storage_Procs.thy ===== *)
theory Storage_Procs
  imports Processors Rewrite_From Effects
begin

section \<open>Processors that store the message (backends/p_sql.go, p_redis.go, p_guerrilla_db_redis.go, redis_generic.go)\<close>

text \<open>
  The database and the Redis server are records of actions. The world of these actions has the state the
  processors of a stack keep: the cache of prepared statements, whether Redis is connected, and the rows
  handed to the query batcher. A statement is its text. Printing a compressor takes the data out of the
  envelope, as in the theory of the compressor; whether the Redis driver prints its argument before a
  command fails is part of its answer. Sleeping and logging are left out.

  The query batcher of \<open>guerrillaredisdb\<close> is a function of what it receives: rows, ticks of its timer and the
  signal to stop. A panic of the database driver ends the model's run; the code would drop the rows of
  the batch and start the batcher again. An error of an action of the batcher is the end of the process
  (\<open>Fatalf\<close>).
\<close>

datatype sql_value = SText bytes | SBytes "nat list" | SBool bool

record 'w storage =
  sq_cache :: "(nat \<times> bytes) list"
  rd_connected :: bool
  bt_fed :: "sql_value list list"
  bt_stopped :: bool
  st_world :: 'w

record 'w sqldb =
  q_open :: "bytes \<Rightarrow> bytes \<Rightarrow> ('w storage, unit) act"
  q_set_open :: "int \<Rightarrow> ('w storage, unit) act"
  q_set_idle :: "int \<Rightarrow> ('w storage, unit) act"
  q_set_lifetime :: "int \<Rightarrow> ('w storage, unit) act"
  q_query :: "bytes \<Rightarrow> ('w storage, unit) act"
  q_prepare :: "bytes \<Rightarrow> ('w storage, unit) act"
  q_exec :: "bytes \<Rightarrow> sql_value list \<Rightarrow> ('w storage, unit) act"
  q_close :: "('w storage, unit) act"

record 'w redis =
  r_dial :: "bytes \<Rightarrow> ('w storage, unit) act"
  r_setex :: "bytes \<Rightarrow> int \<Rightarrow> bytes \<Rightarrow> ('w storage, bool \<times> bytes option) act"
  r_close :: "('w storage, unit) act"

text \<open>The connection of redis_generic.go that is used unless a driver replaces it.\<close>

definition redisMockConn :: "'w redis" where
  "redisMockConn = \<lparr>r_dial = (\<lambda>address. ok ()), r_setex = (\<lambda>key expire text. ok (False, None)), r_close = ok ()\<rparr>"

subsection \<open>sql\<close>

record sqlProcessorConfig =
  sc_Table :: bytes
  sc_Driver :: bytes
  sc_DSN :: bytes
  sc_SQLInsert :: bytes
  sc_SQLValues :: bytes
  sc_PrimaryHost :: bytes
  sc_MaxConnLifetime :: bytes
  sc_MaxOpenConns :: int
  sc_MaxIdleConns :: int

definition sql_fields :: "field list" where
  "sql_fields =
     [\<lparr>f_json = ''mail_table'', f_name = ''Table'', f_type = FString\<rparr>,
      \<lparr>f_json = ''sql_driver'', f_name = ''Driver'', f_type = FString\<rparr>,
      \<lparr>f_json = ''sql_dsn'', f_name = ''DSN'', f_type = FString\<rparr>,
      \<lparr>f_json = ''sql_insert,omitempty'', f_name = ''SQLInsert'', f_type = FString\<rparr>,
      \<lparr>f_json = ''sql_values,omitempty'', f_name = ''SQLValues'', f_type = FString\<rparr>,
      \<lparr>f_json = ''primary_mail_host'', f_name = ''PrimaryHost'', f_type = FString\<rparr>,
      \<lparr>f_json = ''sql_max_conn_lifetime,omitempty'', f_name = ''MaxConnLifetime'', f_type = FString\<rparr>,
      \<lparr>f_json = ''sql_max_open_conns,omitempty'', f_name = ''MaxOpenConns'', f_type = FInt\<rparr>,
      \<lparr>f_json = ''sql_max_idle_conns,omitempty'', f_name = ''MaxIdleConns'', f_type = FInt\<rparr>]"

definition sql_config :: "(bytes \<times> jvalue) list \<Rightarrow> sqlProcessorConfig" where
  "sql_config vs =
     (let str = (\<lambda>k. jstr (map_of vs k)); num = (\<lambda>k. jint (map_of vs k))
      in \<lparr>sc_Table = str ''Table'', sc_Driver = str ''Driver'', sc_DSN = str ''DSN'', sc_SQLInsert = str ''SQLInsert'',
          sc_SQLValues = str ''SQLValues'', sc_PrimaryHost = str ''PrimaryHost'', sc_MaxConnLifetime = str ''MaxConnLifetime'',
          sc_MaxOpenConns = num ''MaxOpenConns'', sc_MaxIdleConns = num ''MaxIdleConns''\<rparr>)"

definition sql_connect :: "'w sqldb \<Rightarrow> (bytes \<Rightarrow> bytes + int) \<Rightarrow> sqlProcessorConfig \<Rightarrow> ('w storage, unit) act" where
  "sql_connect D parseDuration config =
     act_bind (q_open D (sc_Driver config) (sc_DSN config)) (\<lambda>_.
     act_bind (if sc_MaxOpenConns config \<noteq> 0 then q_set_open D (sc_MaxOpenConns config) else ok ()) (\<lambda>_.
     act_bind (if sc_MaxIdleConns config \<noteq> 0 then q_set_idle D (sc_MaxIdleConns config) else ok ()) (\<lambda>_.
     act_bind (if sc_MaxConnLifetime config \<noteq> []
               then act_bind (lift_sum (parseDuration (sc_MaxConnLifetime config))) (\<lambda>t. q_set_lifetime D t) else ok ()) (\<lambda>_.
       q_query D (''SELECT mail_id FROM '' @ sc_Table config @ '' LIMIT 1'')))))"

definition sql_init :: "'w sqldb \<Rightarrow> (bytes \<Rightarrow> bytes + int) \<Rightarrow> backendConfig \<Rightarrow> ('w storage, sqlProcessorConfig) act" where
  "sql_init D parseDuration backendConfig =
     act_bind (lift_sum (ExtractConfig backendConfig sql_fields)) (\<lambda>vs.
     act_bind (sql_connect D parseDuration (sql_config vs)) (\<lambda>_. ok (sql_config vs)))"

definition sql_shutdown :: "'w sqldb \<Rightarrow> bool \<Rightarrow> ('w storage, unit) act" where
  "sql_shutdown D has_db = (if has_db then q_close D else ok ())"

abbreviation batchMax :: nat where "batchMax \<equiv> 50"

definition default_insert :: "bytes \<Rightarrow> bytes" where
  "default_insert tbl = ''INSERT INTO '' @ tbl @ '' ''
     @ ''(`date`, `to`, `from`, `subject`, `body`,  `mail`, `spam_score`, ''
     @ ''`hash`, `content_type`, `recipient`, `has_attach`, `ip_addr`, ''
     @ ''`return_path`, `is_tls`, `message_id`, `reply_to`, `sender`)'' @ '' VALUES ''"

definition insert_text :: "sqlProcessorConfig \<Rightarrow> nat \<Rightarrow> bytes" where
  "insert_text config rows =
     (if sc_SQLInsert config \<noteq> []
      then sc_SQLInsert config @ (if has_suffix (sc_SQLInsert config) '' '' then [] else '' '')
      else default_insert (sc_Table config))
     @ join '','' (replicate rows (if sc_SQLValues config \<noteq> [] then sc_SQLValues config
         else ''(NOW(), ?, ?, ?, ? , ?, 0, ?, ?, ?, 0, ?, ?, ?, ?, ?, ?)''))"

text \<open>The statement for a number of rows, from the cache or prepared now; \<open>failed\<close> is what a failure to prepare does.\<close>

definition cached_stmt :: "'w sqldb \<Rightarrow> nat \<Rightarrow> bytes \<Rightarrow> ('w storage \<Rightarrow> bytes \<Rightarrow> ((bytes + bytes) \<times> 'w storage) run) \<Rightarrow>
    ('w storage, bytes) act" where
  "cached_stmt D rows text failed w =
     (if rows = 0 then Crash ''rows argument cannot be 0''
      else if rows > batchMax then Crash ''index out of range''
      else (case map_of (sq_cache w) (rows - 1) of
              Some stmt \<Rightarrow> Done (Inr stmt, w)
            | None \<Rightarrow>
                bind_run (q_prepare D text w) (\<lambda>(r, w).
                  case r of
                    Inl err \<Rightarrow> failed w err
                  | Inr _ \<Rightarrow> Done (Inr text, w\<lparr>sq_cache := AList.update (rows - 1) text (sq_cache w)\<rparr>))))"

definition prepareInsertQuery :: "'w sqldb \<Rightarrow> sqlProcessorConfig \<Rightarrow> nat \<Rightarrow> ('w storage, bytes) act" where
  "prepareInsertQuery D config rows =
     cached_stmt D rows (insert_text config rows) (\<lambda>w err. Crash ''failed while db.Prepare(INSERT...)'')"

text \<open>The deferred function of \<open>doQuery\<close> panics again with a text of its own.\<close>

definition repanic :: "('w, 'a) act \<Rightarrow> ('w, 'a) act" where
  "repanic m w = (case m w of Crash _ \<Rightarrow> Crash ''query failed'' | r \<Rightarrow> r)"

definition exec_rows :: "'w sqldb \<Rightarrow> ('w storage, bytes) act \<Rightarrow> sql_value list \<Rightarrow> ('w storage, bytes option) act" where
  "exec_rows D prepare vals =
     repanic (act_bind prepare (\<lambda>stmt.
       act_bind (attempt (q_exec D stmt vals)) (\<lambda>r. ok (case r of Inl err \<Rightarrow> Some err | Inr _ \<Rightarrow> None))))"

definition doQuery :: "'w sqldb \<Rightarrow> sqlProcessorConfig \<Rightarrow> nat \<Rightarrow> sql_value list \<Rightarrow> ('w storage, bytes option) act" where
  "doQuery D config c vals = exec_rows D (prepareInsertQuery D config c) vals"

text \<open>The bytes of the number \<open>ip2bint\<close> returns: a number has no leading zero bytes.\<close>

definition ip2bint :: "bytes \<Rightarrow> nat list" where
  "ip2bint ip = dropWhile (\<lambda>b. b = 0)
     (case parseIP ip of
        None \<Rightarrow> []
      | Some addr \<Rightarrow>
          (case index_of ''::'' ip of
             Some (Suc _) \<Rightarrow> addr
           | _ \<Rightarrow> if take 12 addr = v4_prefix then drop 12 addr else []))"

definition header_value :: "envelope \<Rightarrow> bytes \<Rightarrow> bytes option run" where
  "header_value e k =
     (case eHeader e of
        None \<Rightarrow> Done None
      | Some h \<Rightarrow> (case map_of h k of
                     None \<Rightarrow> Done None
                   | Some [] \<Rightarrow> Crash ''index out of range''
                   | Some (v # _) \<Rightarrow> Done (Some v)))"

definition fillAddressFromHeader :: "envelope \<Rightarrow> bytes \<Rightarrow> bytes run" where
  "fillAddressFromHeader e headerKey =
     bind_run (header_value e headerKey) (\<lambda>v.
       case v of
         None \<Rightarrow> Done []
       | Some v \<Rightarrow> bind_run (NewAddress v) (\<lambda>r. Done (case r of Inl err \<Rightarrow> [] | Inr addr \<Rightarrow> addr_String addr)))"

definition trimToLimit :: "bytes \<Rightarrow> nat \<Rightarrow> bytes" where
  "trimToLimit str limit = (if length str > limit then take limit str else trim_space str)"

text \<open>The \<open>mail\<close> column; printing the compressor changes the envelope.\<close>

definition mail_column :: "lib \<Rightarrow> (bytes \<times> bool) option \<Rightarrow> bytes \<Rightarrow> envelope \<Rightarrow> bytes \<times> envelope" where
  "mail_column L co body e =
     (if body = ''redis'' then ([], e)
      else (case co of Some c \<Rightarrow> compressor_String L c e | None \<Rightarrow> (env_String e, e)))"

definition sql_row :: "lib \<Rightarrow> sqlProcessorConfig \<Rightarrow> bytes \<Rightarrow> bytes \<Rightarrow> (bytes \<times> bool) option \<Rightarrow> envelope \<Rightarrow> address \<Rightarrow>
    (sql_value list \<times> envelope) run" where
  "sql_row L config hash body co e r =
     bind_run (fillAddressFromHeader e ''To'') (\<lambda>to.
     bind_run (fillAddressFromHeader e ''Message-Id'') (\<lambda>mid.
     bind_run (fillAddressFromHeader e ''Reply-To'') (\<lambda>replyTo.
     bind_run (fillAddressFromHeader e ''Sender'') (\<lambda>sender.
     bind_run (header_value e ''Content-Type'') (\<lambda>ct.
       let to = trimToLimit to 255;
           to = (if to = [] then trimToLimit (trim_space (addr_String r)) 255 else to);
           mid = trimToLimit mid 255;
           mid = (if mid = [] then hash @ ''.'' @ User r @ ''@'' @ sc_PrimaryHost config else mid);
           contentType = (case ct of None \<Rightarrow> [] | Some v \<Rightarrow> trimToLimit v 255);
           from = trimToLimit (addr_String (eMailFrom e)) 255;
           (m, e') = mail_column L co body e
       in Done ([SText to, SText from, SText (trimToLimit (eSubject e) 255), SText body, SText m, SText hash, SText contentType,
                 SText (trimToLimit (trim_space (addr_String r)) 255), SBytes (ip2bint (eRemoteIP e)), SText from, SBool (eTLS e),
                 SText mid, SText (trimToLimit replyTo 255), SText (trimToLimit sender 255)], e'))))))"

text \<open>The loop over the recipients, with the error of the query that failed.\<close>

fun sql_rows :: "'w sqldb \<Rightarrow> lib \<Rightarrow> sqlProcessorConfig \<Rightarrow> bytes \<Rightarrow> bytes \<Rightarrow> (bytes \<times> bool) option \<Rightarrow> address list \<Rightarrow> envelope \<Rightarrow>
    ('w storage, bytes option \<times> envelope) act" where
  "sql_rows D L config hash body co [] e = ok (None, e)"
| "sql_rows D L config hash body co (r # rs) e =
     act_bind (lift_run (sql_row L config hash body co e r)) (\<lambda>(vals, e).
     act_bind (prepareInsertQuery D config 1) (\<lambda>_.
     act_bind (doQuery D config 1 vals) (\<lambda>err.
       if err \<noteq> None then ok (err, e) else sql_rows D L config hash body co rs e)))"

definition compressor_of :: "envelope \<Rightarrow> (bytes \<times> bool) option run" where
  "compressor_of e =
     (case map_of (eValues e) ''zlib-compressor'' of
        None \<Rightarrow> Done None
      | Some (VCompressor c) \<Rightarrow> Done (Some c)
      | Some _ \<Rightarrow> Crash ''interface conversion'')"

definition sql_save :: "'w sqldb \<Rightarrow> lib \<Rightarrow> sqlProcessorConfig \<Rightarrow> 'w storage mproc \<Rightarrow> envelope \<Rightarrow> 'w storage \<Rightarrow>
    ((result option \<times> bytes option) \<times> envelope \<times> 'w storage) run" where
  "sql_save D L config p e w =
     (let hash = (case eHashes e of [] \<Rightarrow> [] | h # _ \<Rightarrow> h);
          e = (if eHashes e \<noteq> [] then e\<lparr>eQueuedId := hash\<rparr> else e)
      in bind_run (compressor_of e) (\<lambda>co.
           let body = (if map_of (eValues e) ''redis'' \<noteq> None then ''redis'' else if co \<noteq> None then ''gzip'' else [])
           in bind_run (sql_rows D L config hash body co (eRcptTo e) e w) (\<lambda>(r, w).
                case r of
                  Inl err \<Rightarrow> Done ((None, Some err), e, w)
                | Inr (Some err, e) \<Rightarrow> Done ((Some (Res ''554 Error: could not save email''), Some StorageError), e, w)
                | Inr (None, e) \<Rightarrow> p e TaskSaveMail w)))"

definition sql_process :: "'w sqldb \<Rightarrow> lib \<Rightarrow> sqlProcessorConfig \<Rightarrow> 'w storage mproc \<Rightarrow> 'w storage mproc" where
  "sql_process D L config p e task w =
     (case task of
        TaskSaveMail \<Rightarrow> sql_save D L config p e w
      | TaskValidateRcpt \<Rightarrow>
          if eRcptTo e \<noteq> [] \<and> length (User (last (eRcptTo e))) > 255
          then Done ((Some (Res (NewResult [resp_str FailRcptCmd])), Some NoSuchUser), e, w)
          else p e task w)"

subsection \<open>redis\<close>

record redisProcessorConfig =
  rc_ExpireSeconds :: int
  rc_Interface :: bytes

definition redis_fields :: "field list" where
  "redis_fields =
     [\<lparr>f_json = ''redis_expire_seconds'', f_name = ''RedisExpireSeconds'', f_type = FInt\<rparr>,
      \<lparr>f_json = ''redis_interface'', f_name = ''RedisInterface'', f_type = FString\<rparr>]"

definition redisConnection :: "'w redis \<Rightarrow> bytes \<Rightarrow> ('w storage, unit) act" where
  "redisConnection R redisInterface w =
     (if \<not> rd_connected w
      then act_bind (r_dial R redisInterface) (\<lambda>_ w. Done (Inr (), w\<lparr>rd_connected := True\<rparr>)) w
      else Done (Inr (), w))"

definition redis_init :: "'w redis \<Rightarrow> backendConfig \<Rightarrow> ('w storage, redisProcessorConfig) act" where
  "redis_init R backendConfig =
     act_bind (lift_sum (ExtractConfig backendConfig redis_fields)) (\<lambda>vs.
       let config = \<lparr>rc_ExpireSeconds = jint (map_of vs ''RedisExpireSeconds''), rc_Interface = jstr (map_of vs ''RedisInterface'')\<rparr>
       in act_bind (wrap_err ''redis cannot connect, check your settings: '' (redisConnection R (rc_Interface config))) (\<lambda>_. ok config))"

definition redis_shutdown :: "'w redis \<Rightarrow> ('w storage, unit) act" where
  "redis_shutdown R w = (if rd_connected w then r_close R w else Done (Inr (), w))"

text \<open>The text of the compressor or of the envelope, and the envelope after it was printed.\<close>

definition printed_mail :: "lib \<Rightarrow> (bytes \<times> bool) option \<Rightarrow> envelope \<Rightarrow> bytes \<times> envelope" where
  "printed_mail L co e = (case co of Some c \<Rightarrow> compressor_String L c e | None \<Rightarrow> (env_String e, e))"

definition redis_process :: "lib \<Rightarrow> 'w redis \<Rightarrow> redisProcessorConfig \<Rightarrow> 'w storage mproc \<Rightarrow> 'w storage mproc" where
  "redis_process L R config p e task w =
     (if task \<noteq> TaskSaveMail then p e task w
      else (case eHashes e of
              [] \<Rightarrow> Done ((Some (Res (NewResult [resp_str FailBackendTransaction])), Some StorageError), e, w)
            | hash # _ \<Rightarrow>
                (let e = e\<lparr>eQueuedId := hash\<rparr>
                 in bind_run (compressor_of e) (\<lambda>co.
                    bind_run (redisConnection R (rc_Interface config) w) (\<lambda>(r, w).
                      case r of
                        Inl err \<Rightarrow> Done ((Some (Res (NewResult [resp_str FailBackendTransaction])), Some err), e, w)
                      | Inr _ \<Rightarrow>
                          (case printed_mail L co e of (text, e1) \<Rightarrow>
                             bind_run (r_setex R hash (rc_ExpireSeconds config) text w) (\<lambda>(r, w).
                               case r of
                                 Inl err \<Rightarrow> Done ((None, Some err), e, w)
                               | Inr (was_printed, doErr) \<Rightarrow>
                                   (let e = (if was_printed then e1 else e)
                                    in case doErr of
                                         Some err \<Rightarrow> Done ((Some (Res (NewResult [resp_str FailBackendTransaction])), Some err), e, w)
                                       | None \<Rightarrow> p (e\<lparr>eValues := AList.update ''redis'' (VString ''redis'') (eValues e)\<rparr>) task w))))))))"

subsection \<open>guerrillaredisdb\<close>

record guerrillaConfig =
  gc_NumberOfWorkers :: int
  gc_Table :: bytes
  gc_Driver :: bytes
  gc_DSN :: bytes
  gc_RedisExpireSeconds :: int
  gc_RedisInterface :: bytes
  gc_PrimaryHost :: bytes
  gc_BatchTimeout :: int

definition guerrilla_fields :: "field list" where
  "guerrilla_fields =
     [\<lparr>f_json = ''save_workers_size'', f_name = ''NumberOfWorkers'', f_type = FInt\<rparr>,
      \<lparr>f_json = ''mail_table'', f_name = ''Table'', f_type = FString\<rparr>,
      \<lparr>f_json = ''sql_driver'', f_name = ''Driver'', f_type = FString\<rparr>,
      \<lparr>f_json = ''sql_dsn'', f_name = ''DSN'', f_type = FString\<rparr>,
      \<lparr>f_json = ''redis_expire_seconds'', f_name = ''RedisExpireSeconds'', f_type = FInt\<rparr>,
      \<lparr>f_json = ''redis_interface'', f_name = ''RedisInterface'', f_type = FString\<rparr>,
      \<lparr>f_json = ''primary_mail_host'', f_name = ''PrimaryHost'', f_type = FString\<rparr>,
      \<lparr>f_json = ''redis_sql_batch_timeout,omitempty'', f_name = ''BatchTimeout'', f_type = FInt\<rparr>]"

definition guerrilla_loadConfig :: "backendConfig \<Rightarrow> bytes + guerrillaConfig" where
  "guerrilla_loadConfig backendConfig =
     (case ExtractConfig backendConfig guerrilla_fields of
        Inl err \<Rightarrow> Inl err
      | Inr vs \<Rightarrow>
          (let str = (\<lambda>k. jstr (map_of vs k)); num = (\<lambda>k. jint (map_of vs k))
           in Inr \<lparr>gc_NumberOfWorkers = num ''NumberOfWorkers'', gc_Table = str ''Table'', gc_Driver = str ''Driver'', gc_DSN = str ''DSN'',
                gc_RedisExpireSeconds = num ''RedisExpireSeconds'', gc_RedisInterface = str ''RedisInterface'',
                gc_PrimaryHost = str ''PrimaryHost'', gc_BatchTimeout = num ''BatchTimeout''\<rparr>))"

definition guerrilla_insert :: "bytes \<Rightarrow> nat \<Rightarrow> bytes" where
  "guerrilla_insert tbl rows = ''INSERT INTO '' @ tbl @ ''(''
     @ join '', '' [''`date`'', ''`to`'', ''`from`'', ''`subject`'', ''`body`'', ''`charset`'', ''`mail`'', ''`spam_score`'', ''`hash`'',
         ''`content_type`'', ''`recipient`'', ''`has_attach`'', ''`ip_addr`'', ''`return_path`'', ''`is_tls`'']
     @ '')'' @ '' values ''
     @ join '','' (replicate rows (''(NOW(), ?, ?, ?, ? , '' @ [CHR 0x27] @ ''UTF-8'' @ [CHR 0x27] @ '' , ?, 0, ?, ''
         @ [CHR 0x27, CHR 0x27] @ '', ?, 0, ?, ?, ?)''))"

text \<open>A statement that cannot be prepared ends the process.\<close>

definition guerrilla_prepareInsertQuery :: "'w sqldb \<Rightarrow> guerrillaConfig \<Rightarrow> nat \<Rightarrow> ('w storage, bytes) act" where
  "guerrilla_prepareInsertQuery D config rows =
     cached_stmt D rows (guerrilla_insert (gc_Table config) rows) (\<lambda>w err. Done (Inl ''failed while db.Prepare(INSERT...)'', w))"

definition guerrilla_doQuery :: "'w sqldb \<Rightarrow> guerrillaConfig \<Rightarrow> nat \<Rightarrow> sql_value list \<Rightarrow> ('w storage, bytes option) act" where
  "guerrilla_doQuery D config c vals = exec_rows D (guerrilla_prepareInsertQuery D config c) vals"

definition sqlConnect :: "'w sqldb \<Rightarrow> guerrillaConfig \<Rightarrow> ('w storage, unit) act" where
  "sqlConnect D config =
     act_bind (q_open D (gc_Driver config) (gc_DSN config)) (\<lambda>_.
       q_query D (''SELECT mail_id FROM '' @ gc_Table config @ '' LIMIT 1''))"

definition guerrilla_init :: "'w sqldb \<Rightarrow> backendConfig \<Rightarrow> ('w storage, guerrillaConfig) act" where
  "guerrilla_init D backendConfig =
     act_bind (lift_sum (guerrilla_loadConfig backendConfig)) (\<lambda>config.
     act_bind (sqlConnect D config) (\<lambda>_. ok config))"

subsubsection \<open>The query batcher\<close>

datatype batch_event = Feed "sql_value list" | Timer | Stop

text \<open>The repetitions after a failed query: the loop goes on to its end also after a success.\<close>

fun retry_query :: "'w sqldb \<Rightarrow> guerrillaConfig \<Rightarrow> nat \<Rightarrow> nat \<Rightarrow> sql_value list \<Rightarrow> ('w storage, unit) act" where
  "retry_query D config 0 c vals = ok ()"
| "retry_query D config (Suc n) c vals = act_bind (guerrilla_doQuery D config c vals) (\<lambda>_. retry_query D config n c vals)"

definition inserter :: "'w sqldb \<Rightarrow> guerrillaConfig \<Rightarrow> nat \<Rightarrow> sql_value list \<Rightarrow> ('w storage, unit) act" where
  "inserter D config c vals =
     (if c > 0 then
        act_bind (guerrilla_doQuery D config c vals) (\<lambda>err. if err \<noteq> None then retry_query D config 3 c vals else ok ())
      else ok ())"

text \<open>
  One round of the loop with the batched rows: the rows of the next round and whether it goes on. The
  feeder is closed when the batcher stops.
\<close>

definition batch_step :: "'w sqldb \<Rightarrow> guerrillaConfig \<Rightarrow> sql_value list list \<Rightarrow> batch_event \<Rightarrow>
    ('w storage, sql_value list list \<times> bool) act" where
  "batch_step D config rows ev =
     (case ev of
        Stop \<Rightarrow> act_bind (inserter D config (length rows) (concat rows)) (\<lambda>_ w. Done (Inr ([], False), w\<lparr>bt_stopped := True\<rparr>))
      | Feed row \<Rightarrow>
          (let rows = rows @ [row]
           in if length rows \<ge> batchMax
              then act_bind (inserter D config batchMax (concat rows)) (\<lambda>_. ok ([], True))
              else ok (rows, True))
      | Timer \<Rightarrow>
          if concat rows \<noteq> [] then act_bind (inserter D config (length rows) (concat rows)) (\<lambda>_. ok ([], True))
          else ok (rows, True))"

fun batch_loop :: "'w sqldb \<Rightarrow> guerrillaConfig \<Rightarrow> batch_event list \<Rightarrow> sql_value list list \<Rightarrow> ('w storage, sql_value list list \<times> bool) act" where
  "batch_loop D config [] rows = ok (rows, True)"
| "batch_loop D config (ev # evs) rows =
     act_bind (batch_step D config rows ev) (\<lambda>(rows, feederOk). if feederOk then batch_loop D config evs rows else ok (rows, False))"

definition insertQueryBatcher :: "'w sqldb \<Rightarrow> guerrillaConfig \<Rightarrow> batch_event list \<Rightarrow> ('w storage, sql_value list list \<times> bool) act" where
  "insertQueryBatcher D config evs =
     act_bind (guerrilla_prepareInsertQuery D config batchMax) (\<lambda>_. batch_loop D config evs [])"

definition batch_timeout :: "guerrillaConfig \<Rightarrow> int" where
  "batch_timeout config = (if gc_BatchTimeout config > 0 then gc_BatchTimeout config else 3 * 10 ^ 9)"

text \<open>The shutdown hook closes the database first and stops the batcher, which has \<open>rows\<close> in its batch, last.\<close>

definition guerrilla_shutdown :: "'w sqldb \<Rightarrow> 'w redis \<Rightarrow> guerrillaConfig \<Rightarrow> sql_value list list \<Rightarrow> ('w storage, unit) act" where
  "guerrilla_shutdown D R config rows =
     act_bind (attempt (q_close D)) (\<lambda>_.
     act_bind (attempt (redis_shutdown R)) (\<lambda>_.
     act_bind (batch_step D config rows Stop) (\<lambda>_. ok ())))"

subsubsection \<open>The processor\<close>

definition newCompressedData :: "bytes \<times> bool" where
  "newCompressedData = ([], False)"

definition compressedData_set :: "bytes \<times> bool \<Rightarrow> bytes \<Rightarrow> bytes \<times> bool" where
  "compressedData_set c b = (b, True)"

definition compressedData_clear :: "bytes \<times> bool \<Rightarrow> bytes \<times> bool" where
  "compressedData_clear c = ([], False)"

definition compressedData_String :: "lib \<Rightarrow> bytes \<times> bool \<Rightarrow> envelope \<Rightarrow> bytes \<times> envelope" where
  "compressedData_String L c e = (if \<not> snd c then ([], e) else (zlib L (fst c @ eData e), e\<lparr>eData := []\<rparr>))"

definition add_head :: "bytes \<Rightarrow> bytes \<Rightarrow> bytes \<Rightarrow> address \<Rightarrow> envelope \<Rightarrow> bytes" where
  "add_head to hash date r e =
     (let protocol = ''SMTP'';
          protocol = (if eESMTP e then ''E'' @ protocol else protocol);
          protocol = (if eTLS e then protocol @ ''S'' else protocol)
      in ''Delivered-To: '' @ to @ crlf
         @ ''Received: from '' @ eRemoteIP e @ '' (['' @ eRemoteIP e @ ''])'' @ crlf
         @ [CHR 0x09] @ ''by '' @ Host r @ '' with '' @ protocol @ '' id '' @ hash @ ''@'' @ Host r @ '';'' @ crlf
         @ [CHR 0x09] @ date @ crlf)"

text \<open>The saving in Redis: the body column, the compressor, and the envelope; what fails is only logged.\<close>

definition save_redis :: "lib \<Rightarrow> 'w redis \<Rightarrow> guerrillaConfig \<Rightarrow> bytes \<Rightarrow> bytes \<times> bool \<Rightarrow> envelope \<Rightarrow>
    ('w storage, bytes \<times> (bytes \<times> bool) \<times> envelope) act" where
  "save_redis L R config hash data e =
     act_bind (attempt (redisConnection R (gc_RedisInterface config))) (\<lambda>r.
       case r of
         Inl err \<Rightarrow> ok (''gzencode'', data, e)
       | Inr _ \<Rightarrow>
           (case compressedData_String L data e of (text, e1) \<Rightarrow>
              act_bind (r_setex R hash (gc_RedisExpireSeconds config) text) (\<lambda>(was_printed, doErr).
                let e = (if was_printed then e1 else e)
                in if doErr = None then ok (''redis'', compressedData_clear data, e) else ok (''gzencode'', data, e))))"

text \<open>Handing a row to the batcher; its channel is closed once the batcher has stopped.\<close>

definition feed :: "sql_value list \<Rightarrow> ('w storage, unit) act" where
  "feed vals w = (if bt_stopped w then Crash ''send on closed channel'' else Done (Inr (), w\<lparr>bt_fed := bt_fed w @ [vals]\<rparr>))"

definition guerrilla_row :: "bytes \<Rightarrow> bytes \<Rightarrow> bytes \<Rightarrow> bytes \<Rightarrow> envelope \<Rightarrow> sql_value list" where
  "guerrilla_row to body m hash e =
     (let from = SText (trimToLimit (addr_String (eMailFrom e)) 255)
      in [SText (trimToLimit to 255), from, SText (trimToLimit (eSubject e) 255), SText body, SText m, SText hash,
          SText (trimToLimit to 255), SText (eRemoteIP e), from, SBool (eTLS e)])"

text \<open>\<open>ts\<close> and \<open>date\<close> are the two readings of the clock.\<close>

definition guerrilla_process :: "lib \<Rightarrow> 'w redis \<Rightarrow> guerrillaConfig \<Rightarrow> bytes \<Rightarrow> bytes \<Rightarrow> 'w storage mproc \<Rightarrow> 'w storage mproc" where
  "guerrilla_process L R config ts date p e task w =
     (if task \<noteq> TaskSaveMail then p e task w
      else (case eRcptTo e of
              [] \<Rightarrow> Crash ''index out of range''
            | r # rs \<Rightarrow>
                (let to = trimToLimit (trim_space (User r) @ ''@'' @ gc_PrimaryHost config) 255;
                     r = r\<lparr>Host := trimToLimit (Host r) 255\<rparr>;
                     e = e\<lparr>eHelo := trimToLimit (eHelo e) 255, eRcptTo := r # rs\<rparr>
                 in bind_run (run_of (Some (ParseHeaders (word_decoder L) (header_reader L) e))) (\<lambda>(err, e).
                      let hash = md5_hex L (to @ addr_String (eMailFrom e) @ eSubject e @ ts);
                          e = e\<lparr>eQueuedId := hash\<rparr>;
                          data = compressedData_set newCompressedData (add_head to hash date r e)
                      in bind_run (save_redis L R config hash data e w) (\<lambda>(r, w).
                           case r of
                             Inl err \<Rightarrow> Done ((None, Some err), e, w)
                           | Inr (body, data, e) \<Rightarrow>
                               (case compressedData_String L data e of (m, e) \<Rightarrow>
                                  bind_run (feed (guerrilla_row to body m hash e) w) (\<lambda>(_, w). p e task w)))))))"

end
