(* ===== verification/Storage_Props.thy ===== *)
theory Storage_Props
  imports Storage_Procs
begin

section \<open>What is stored\<close>

text \<open>
  A table that notes every statement with its values, of which some fail (\<open>fails n\<close> for the n-th statement
  executed), and that fails altogether once the database is closed. The lemmas show what the processors
  put into it: the rows of the query batcher and how often a batch is stored when queries fail, the rows
  of \<open>sql\<close>, and where a message loses its text.
\<close>

record memtable =
  mt_open :: bool
  mt_tries :: nat
  mt_rows :: "(bytes \<times> sql_value list) list"

definition on_table :: "(memtable \<Rightarrow> (bytes + unit) \<times> memtable) \<Rightarrow> (memtable storage, unit) act" where
  "on_table f w = (case f (st_world w) of (r, t) \<Rightarrow> Done (r, w\<lparr>st_world := t\<rparr>))"

definition table_exec :: "(nat \<Rightarrow> bool) \<Rightarrow> bytes \<Rightarrow> sql_value list \<Rightarrow> memtable \<Rightarrow> (bytes + unit) \<times> memtable" where
  "table_exec fails stmt vals t =
     (if \<not> mt_open t then (Inl ''sql: database is closed'', t)
      else if fails (mt_tries t) then (Inl ''query failed'', t\<lparr>mt_tries := mt_tries t + 1\<rparr>)
      else (Inr (), t\<lparr>mt_tries := mt_tries t + 1, mt_rows := mt_rows t @ [(stmt, vals)]\<rparr>))"

definition if_open :: "memtable \<Rightarrow> (bytes + unit) \<times> memtable" where
  "if_open t = (if mt_open t then Inr () else Inl ''sql: database is closed'', t)"

definition table_db :: "(nat \<Rightarrow> bool) \<Rightarrow> memtable sqldb" where
  "table_db fails = \<lparr>q_open = (\<lambda>driver dsn. on_table (\<lambda>t. (Inr (), t\<lparr>mt_open := True\<rparr>))), q_set_open = (\<lambda>n. ok ()),
     q_set_idle = (\<lambda>n. ok ()), q_set_lifetime = (\<lambda>d. ok ()), q_query = (\<lambda>q. on_table if_open), q_prepare = (\<lambda>q. on_table if_open),
     q_exec = (\<lambda>stmt vals. on_table (table_exec fails stmt vals)), q_close = on_table (\<lambda>t. (Inr (), t\<lparr>mt_open := False\<rparr>))\<rparr>"

lemma table_db_simps [simp]:
  "q_prepare (table_db fails) text = on_table if_open"
  "q_exec (table_db fails) stmt vals = on_table (table_exec fails stmt vals)"
  "q_close (table_db fails) = on_table (\<lambda>t. (Inr (), t\<lparr>mt_open := False\<rparr>))"
  by (simp_all add: table_db_def)

lemma runs_on_table [run_simps]: "runs (on_table f) w Q \<longleftrightarrow> (case f (st_world w) of (r, t) \<Rightarrow> Q r (w\<lparr>st_world := t\<rparr>))"
  by (simp add: runs_def on_table_def split: prod.split)

lemma runs_update [run_simps]: "runs (\<lambda>w. Done (Inr x, f w)) w Q \<longleftrightarrow> Q (Inr x) (f w)"
  by (simp add: runs_def)

lemma runs_repanic: "runs m w Q \<Longrightarrow> runs (repanic m) w Q"
  by (auto simp: runs_def repanic_def)

subsection \<open>Prepared statements\<close>

text \<open>The cache of a processor whose statement for \<open>n\<close> rows has the text \<open>text n\<close>.\<close>

definition cache_ok :: "(nat \<Rightarrow> bytes) \<Rightarrow> 'w storage \<Rightarrow> bool" where
  "cache_ok text w \<longleftrightarrow> (\<forall>k stmt. map_of (sq_cache w) k = Some stmt \<longrightarrow> stmt = text (Suc k))"

lemma cache_ok_world [simp]:
  "cache_ok text (w\<lparr>st_world := t\<rparr>) = cache_ok text w" "cache_ok text (w\<lparr>bt_stopped := b\<rparr>) = cache_ok text w"
  by (simp_all add: cache_ok_def)

lemma cached_stmt_runs:
  assumes "cache_ok text w" and "0 < n" and "n \<le> batchMax" and "mt_open (st_world w)"
  shows "runs (cached_stmt (table_db fails) n (text n) failed) w
    (\<lambda>r w'. r = Inr (text n) \<and> st_world w' = st_world w \<and> cache_ok text w' \<and> bt_fed w' = bt_fed w \<and> bt_stopped w' = bt_stopped w)"
proof -
  have n: "Suc (n - 1) = n" using assms(2) by simp
  have upd: "cache_ok text (w\<lparr>sq_cache := AList.update (n - 1) (text n) (sq_cache w)\<rparr>)"
    using assms(1) n by (auto simp: cache_ok_def update_conv')
  show ?thesis
  proof (cases "map_of (sq_cache w) (n - 1)")
    case None
    then show ?thesis using assms upd by (simp add: runs_def cached_stmt_def on_table_def if_open_def)
  next
    case (Some stmt)
    then have "stmt = text n" using assms(1) n unfolding cache_ok_def by metis
    then show ?thesis using Some assms by (simp add: runs_def cached_stmt_def)
  qed
qed

lemma exec_rows_runs:
  assumes "cache_ok text w" and "0 < n" and "n \<le> batchMax" and "mt_open (st_world w)"
  shows "runs (exec_rows (table_db fails) (cached_stmt (table_db fails) n (text n) failed) vals) w
    (\<lambda>r w'. r = Inr (if fails (mt_tries (st_world w)) then Some ''query failed'' else None) \<and> cache_ok text w'
      \<and> bt_fed w' = bt_fed w \<and> bt_stopped w' = bt_stopped w
      \<and> st_world w' = snd (table_exec fails (text n) vals (st_world w)))"
  unfolding exec_rows_def using assms(4)
  by (auto simp: run_simps table_exec_def intro!: runs_repanic runs_mono [OF cached_stmt_runs [OF assms]])

subsection \<open>How often a batch is stored\<close>

abbreviation batch_text :: "guerrillaConfig \<Rightarrow> nat \<Rightarrow> bytes" where
  "batch_text config \<equiv> guerrilla_insert (gc_Table config)"

lemma guerrilla_doQuery_runs:
  assumes "cache_ok (batch_text config) w" and "0 < c" and "c \<le> batchMax" and "mt_open (st_world w)"
  shows "runs (guerrilla_doQuery (table_db fails) config c vals) w
    (\<lambda>r w'. r = Inr (if fails (mt_tries (st_world w)) then Some ''query failed'' else None) \<and> cache_ok (batch_text config) w'
      \<and> bt_fed w' = bt_fed w \<and> bt_stopped w' = bt_stopped w
      \<and> st_world w' = snd (table_exec fails (batch_text config c) vals (st_world w)))"
  unfolding guerrilla_doQuery_def guerrilla_prepareInsertQuery_def by (rule exec_rows_runs [OF assms])

text \<open>How many of \<open>k\<close> queries from the \<open>n\<close>-th on succeed.\<close>

definition successes :: "(nat \<Rightarrow> bool) \<Rightarrow> nat \<Rightarrow> nat \<Rightarrow> nat" where
  "successes fails n k = length (filter (\<lambda>i. \<not> fails i) [n..<n + k])"

lemma successes_simps [simp]:
  "successes fails n 0 = 0"
  "successes fails n (Suc k) = (if fails n then 0 else 1) + successes fails (Suc n) k"
proof -
  have "[n..<n + Suc k] = n # [Suc n..<Suc n + k]" by (simp only: upt_conv_Cons add_Suc_right add_Suc less_add_Suc1)
  then show "successes fails n (Suc k) = (if fails n then 0 else 1) + successes fails (Suc n) k"
    by (simp add: successes_def del: upt_Suc)
qed (simp add: successes_def)

definition stored_more :: "(nat \<Rightarrow> bytes) \<Rightarrow> nat \<Rightarrow> bytes \<times> sql_value list \<Rightarrow> memtable storage \<Rightarrow> memtable storage \<Rightarrow> bool" where
  "stored_more text k row w w' \<longleftrightarrow> cache_ok text w' \<and> mt_open (st_world w') \<and> bt_fed w' = bt_fed w \<and> bt_stopped w' = bt_stopped w
     \<and> mt_rows (st_world w') = mt_rows (st_world w) @ replicate k row"

lemma retry_runs:
  assumes "0 < c" and "c \<le> batchMax"
  shows "cache_ok (batch_text config) w \<Longrightarrow> mt_open (st_world w) \<Longrightarrow>
    runs (retry_query (table_db fails) config k c vals) w
      (\<lambda>r w'. r = Inr () \<and> stored_more (batch_text config) (successes fails (mt_tries (st_world w)) k) (batch_text config c, vals) w w')"
proof (induction k arbitrary: w)
  case 0
  then show ?case by (simp add: run_simps stored_more_def)
next
  case (Suc k)
  let ?t = "snd (table_exec fails (batch_text config c) vals (st_world w))"
  have t: "mt_open ?t" "mt_tries ?t = Suc (mt_tries (st_world w))"
    "mt_rows ?t = mt_rows (st_world w) @ (if fails (mt_tries (st_world w)) then [] else [(batch_text config c, vals)])"
    using Suc.prems(2) by (simp_all add: table_exec_def)
  show ?case
    using t by (auto simp: run_simps stored_more_def
        intro!: runs_mono [OF guerrilla_doQuery_runs [OF Suc.prems(1) assms Suc.prems(2)]] runs_mono [OF Suc.IH])
qed

definition copies :: "(nat \<Rightarrow> bool) \<Rightarrow> nat \<Rightarrow> nat" where
  "copies fails n = (if fails n then successes fails (Suc n) 3 else 1)"

lemma inserter_runs:
  assumes "cache_ok (batch_text config) w" and "0 < c" and "c \<le> batchMax" and "mt_open (st_world w)"
  shows "runs (inserter (table_db fails) config c vals) w
    (\<lambda>r w'. r = Inr () \<and> stored_more (batch_text config) (copies fails (mt_tries (st_world w))) (batch_text config c, vals) w w')"
proof -
  let ?t = "snd (table_exec fails (batch_text config c) vals (st_world w))"
  have t: "mt_open ?t" "mt_tries ?t = Suc (mt_tries (st_world w))"
    "mt_rows ?t = mt_rows (st_world w) @ (if fails (mt_tries (st_world w)) then [] else [(batch_text config c, vals)])"
    using assms(4) by (simp_all add: table_exec_def)
  show ?thesis
    using assms(2) t by (auto simp: inserter_def run_simps stored_more_def copies_def numeral_3_eq_3 simp del: retry_query.simps
        intro!: runs_mono [OF guerrilla_doQuery_runs [OF assms]] runs_mono [OF retry_runs [OF assms(2,3)]])
qed

text \<open>
  C40: A batch whose first query fails is stored once for every repetition that succeeds: not at all when all
  three fail, and two or three times when two or three succeed, because the loop does not end after a
  success.
\<close>

theorem batch_copies:
  assumes "cache_ok (batch_text config) w" and "0 < c" and "c \<le> 50" and "mt_open (st_world w)"
  shows "\<exists>w'. inserter (table_db fails) config c vals w = Done (Inr (), w')
    \<and> mt_rows (st_world w') = mt_rows (st_world w) @ replicate (if fails (mt_tries (st_world w))
        then length (filter (\<lambda>i. \<not> fails (mt_tries (st_world w) + i)) [1, 2, 3]) else 1) (batch_text config c, vals)"
  using inserter_runs [OF assms, of fails vals]
  by (auto simp: runs_def stored_more_def copies_def numeral_3_eq_3 numeral_2_eq_2)

theorem batch_copies_witness:
  "\<exists>w'. inserter (table_db (\<lambda>i. i = 0)) \<lparr>gc_NumberOfWorkers = 1, gc_Table = ''mail'', gc_Driver = [], gc_DSN = [],
       gc_RedisExpireSeconds = 1, gc_RedisInterface = [], gc_PrimaryHost = [], gc_BatchTimeout = 0\<rparr> 1 [SBool True]
       \<lparr>sq_cache = [], rd_connected = False, bt_fed = [], bt_stopped = False, st_world = \<lparr>mt_open = True, mt_tries = 0, mt_rows = []\<rparr>\<rparr>
     = Done (Inr (), w') \<and> length (mt_rows (st_world w')) = 3"
  using batch_copies [of "\<lparr>gc_NumberOfWorkers = 1, gc_Table = ''mail'', gc_Driver = [], gc_DSN = [],
       gc_RedisExpireSeconds = 1, gc_RedisInterface = [], gc_PrimaryHost = [], gc_BatchTimeout = 0\<rparr>"
       "\<lparr>sq_cache = [], rd_connected = False, bt_fed = [], bt_stopped = False, st_world = \<lparr>mt_open = True, mt_tries = 0, mt_rows = []\<rparr>\<rparr>"
       1 "\<lambda>i. i = 0" "[SBool True]"]
  by (auto simp: cache_ok_def)

subsection \<open>The batcher stores every row once, in order\<close>

abbreviation never_fails :: "nat \<Rightarrow> bool" where
  "never_fails \<equiv> \<lambda>_. False"

fun fed_rows :: "batch_event list \<Rightarrow> sql_value list list" where
  "fed_rows [] = []"
| "fed_rows (Feed row # evs) = row # fed_rows evs"
| "fed_rows (Timer # evs) = fed_rows evs"
| "fed_rows (Stop # evs) = []"

definition chunk_sizes_ok :: "sql_value list list list \<Rightarrow> bool" where
  "chunk_sizes_ok blks \<longleftrightarrow> (\<forall>blk \<in> set blks. 0 < length blk \<and> length blk \<le> batchMax)"

lemma chunk_sizes_ok_simps [simp]:
  "chunk_sizes_ok []"
  "chunk_sizes_ok (blk # blks) \<longleftrightarrow> 0 < length blk \<and> length blk \<le> batchMax \<and> chunk_sizes_ok blks"
  "chunk_sizes_ok (blks @ blks') \<longleftrightarrow> chunk_sizes_ok blks \<and> chunk_sizes_ok blks'"
  by (auto simp: chunk_sizes_ok_def)

definition batches :: "guerrillaConfig \<Rightarrow> sql_value list list list \<Rightarrow> (bytes \<times> sql_value list) list" where
  "batches config blks = map (\<lambda>blk. (batch_text config (length blk), concat blk)) blks"

lemma batches_simps [simp]:
  "batches config [] = []" "batches config (blk # blks) = (batch_text config (length blk), concat blk) # batches config blks"
  "batches config (blks @ blks') = batches config blks @ batches config blks'"
  by (simp_all add: batches_def)

definition batched :: "guerrillaConfig \<Rightarrow> sql_value list list \<Rightarrow> sql_value list list \<Rightarrow> memtable storage \<Rightarrow> memtable storage \<Rightarrow> bool" where
  "batched config fed rows w w' \<longleftrightarrow> cache_ok (batch_text config) w' \<and> mt_open (st_world w') \<and> length rows < batchMax
     \<and> (\<exists>blks. chunk_sizes_ok blks \<and> concat blks @ rows = fed \<and> mt_rows (st_world w') = mt_rows (st_world w) @ batches config blks)"

lemma inserter_stores:
  assumes "cache_ok (batch_text config) w" and "mt_open (st_world w)" and "length blk \<le> batchMax"
  shows "runs (inserter (table_db never_fails) config (length blk) (concat blk)) w
    (\<lambda>r w'. r = Inr () \<and> batched config blk [] w w')"
proof (cases blk)
  case Nil
  then show ?thesis using assms by (auto simp: inserter_def run_simps batched_def intro!: exI [of _ "[]"])
next
  case (Cons row rows)
  show ?thesis
    by (rule runs_mono [OF inserter_runs [OF assms(1) _ assms(3,2)]])
      (use Cons assms(3) in \<open>auto simp: stored_more_def batched_def copies_def intro!: exI [of _ "[blk]"]\<close>)
qed

lemma batched_refl: "cache_ok (batch_text config) w \<Longrightarrow> mt_open (st_world w) \<Longrightarrow> length rows < batchMax \<Longrightarrow> batched config rows rows w w"
  by (auto simp: batched_def intro!: exI [of _ "[]"])

lemma batched_trans:
  assumes "batched config fed rows w w1" and "batched config (rows @ later) rows' w1 w2"
  shows "batched config (fed @ later) rows' w w2"
proof -
  obtain blks where a: "chunk_sizes_ok blks" "concat blks @ rows = fed" "mt_rows (st_world w1) = mt_rows (st_world w) @ batches config blks"
    using assms(1) by (auto simp: batched_def)
  obtain blks' where b: "chunk_sizes_ok blks'" "concat blks' @ rows' = rows @ later"
      "mt_rows (st_world w2) = mt_rows (st_world w1) @ batches config blks'"
    using assms(2) by (auto simp: batched_def)
  have "concat (blks @ blks') @ rows' = fed @ later" using a b by simp
  with a b assms(2) show ?thesis by (auto simp: batched_def intro!: exI [of _ "blks @ blks'"])
qed

lemma batch_step_runs:
  assumes "cache_ok (batch_text config) w" and "mt_open (st_world w)" and "length rows < batchMax"
  shows "runs (batch_step (table_db never_fails) config rows ev) w
    (\<lambda>r w'. \<exists>rows'. r = Inr (rows', ev \<noteq> Stop) \<and> batched config (rows @ fed_rows [ev]) rows' w w' \<and> (ev = Stop \<longrightarrow> rows' = []))"
proof (cases ev)
  case (Feed row)
  show ?thesis
  proof (cases "length (rows @ [row]) \<ge> batchMax")
    case True
    then have l: "length (rows @ [row]) = batchMax" using assms(3) by simp
    have "runs (inserter (table_db never_fails) config batchMax (concat (rows @ [row]))) w
        (\<lambda>r w'. r = Inr () \<and> batched config (rows @ [row]) [] w w')"
      using inserter_stores [OF assms(1,2), of "rows @ [row]"] unfolding l by simp
    from runs_mono [OF this] show ?thesis using Feed True by (auto simp: batch_step_def Let_def run_simps simp del: concat_append)
  next
    case False
    then show ?thesis using Feed assms by (auto simp: batch_step_def Let_def run_simps intro!: batched_refl)
  qed
next
  case Timer
  then show ?thesis using assms
    by (auto simp: batch_step_def run_simps simp del: concat_eq_Nil_conv intro!: batched_refl runs_mono [OF inserter_stores [OF assms(1,2)]])
next
  case Stop
  have "batched config rows [] w (w'\<lparr>bt_stopped := True\<rparr>)" if "batched config rows [] w w'" for w'
    using that by (simp add: batched_def)
  with Stop show ?thesis using assms
    by (auto simp: batch_step_def run_simps intro!: runs_mono [OF inserter_stores [OF assms(1,2)]])
qed

lemma fed_rows_Cons: "ev \<noteq> Stop \<Longrightarrow> fed_rows (ev # evs) = fed_rows [ev] @ fed_rows evs"
  by (cases ev) simp_all

lemma batch_loop_runs:
  "cache_ok (batch_text config) w \<Longrightarrow> mt_open (st_world w) \<Longrightarrow> length rows < batchMax \<Longrightarrow>
   runs (batch_loop (table_db never_fails) config evs rows) w
    (\<lambda>r w'. \<exists>rows'. r = Inr (rows', Stop \<notin> set evs) \<and> batched config (rows @ fed_rows evs) rows' w w' \<and> (Stop \<in> set evs \<longrightarrow> rows' = []))"
proof (induction evs arbitrary: w rows)
  case Nil
  then show ?case by (auto simp: run_simps intro!: batched_refl)
next
  case (Cons ev evs)
  show ?case
  proof (cases "ev = Stop")
    case True
    then show ?thesis
      by (auto simp: run_simps intro!: runs_mono [OF batch_step_runs [OF Cons.prems]])
  next
    case False
    have "runs (batch_loop (table_db never_fails) config evs rows1) w1
        (\<lambda>r w'. \<exists>rows'. r = Inr (rows', Stop \<notin> set evs) \<and> batched config (rows @ fed_rows (ev # evs)) rows' w w' \<and> (Stop \<in> set evs \<longrightarrow> rows' = []))"
      if b: "batched config (rows @ fed_rows [ev]) rows1 w w1" for rows1 w1
    proof -
      have p: "cache_ok (batch_text config) w1" "mt_open (st_world w1)" "length rows1 < batchMax" using b by (simp_all add: batched_def)
      show ?thesis
        by (rule runs_mono [OF Cons.IH [OF p]]) (use batched_trans [OF b] False in \<open>auto simp: fed_rows_Cons [of ev evs]\<close>)
    qed
    with False show ?thesis
      by (auto simp: run_simps intro!: runs_mono [OF batch_step_runs [OF Cons.prems]])
  qed
qed

text \<open>
  C39: As long as no query fails, the batcher has stored, in statements of at most 50 rows each, the rows it
  was given before it was told to stop, each once and in their order, except for fewer than 50 last ones
  that wait in its batch; when it has stopped none waits.
\<close>

theorem batch_queue:
  assumes "sq_cache w = []" and "mt_open (st_world w)"
  shows "\<exists>w' blks rows. insertQueryBatcher (table_db (\<lambda>_. False)) config evs w = Done (Inr (rows, Stop \<notin> set evs), w')
    \<and> mt_rows (st_world w') = mt_rows (st_world w) @ map (\<lambda>blk. (guerrilla_insert (gc_Table config) (length blk), concat blk)) blks
    \<and> concat blks @ rows = fed_rows evs \<and> length rows < 50 \<and> (\<forall>blk \<in> set blks. 0 < length blk \<and> length blk \<le> 50)
    \<and> (Stop \<in> set evs \<longrightarrow> rows = [])"
proof -
  have c: "cache_ok (batch_text config) w" using assms(1) by (simp add: cache_ok_def)
  have "runs (insertQueryBatcher (table_db never_fails) config evs) w
    (\<lambda>r w'. \<exists>rows. r = Inr (rows, Stop \<notin> set evs) \<and> batched config (fed_rows evs) rows w w' \<and> (Stop \<in> set evs \<longrightarrow> rows = []))"
    unfolding insertQueryBatcher_def guerrilla_prepareInsertQuery_def using assms(2)
    by (auto simp: run_simps batched_def intro!: runs_mono [OF cached_stmt_runs [OF c]] runs_mono [OF batch_loop_runs])
  then show ?thesis by (auto simp: runs_def batched_def chunk_sizes_ok_def batches_def)
qed

theorem batch_queue_witness:
  "\<exists>w' blks rows. insertQueryBatcher (table_db (\<lambda>_. False)) \<lparr>gc_NumberOfWorkers = 1, gc_Table = ''mail'', gc_Driver = [], gc_DSN = [],
       gc_RedisExpireSeconds = 1, gc_RedisInterface = [], gc_PrimaryHost = [], gc_BatchTimeout = 0\<rparr>
       [Feed [SBool True], Timer, Feed [SBool False], Stop]
       \<lparr>sq_cache = [], rd_connected = False, bt_fed = [], bt_stopped = False, st_world = \<lparr>mt_open = True, mt_tries = 0, mt_rows = []\<rparr>\<rparr>
     = Done (Inr (rows, False), w') \<and> concat blks = [[SBool True], [SBool False]] \<and> length (mt_rows (st_world w')) = length blks"
  using batch_queue [of "\<lparr>sq_cache = [], rd_connected = False, bt_fed = [], bt_stopped = False,
       st_world = \<lparr>mt_open = True, mt_tries = 0, mt_rows = []\<rparr>\<rparr>" "\<lparr>gc_NumberOfWorkers = 1, gc_Table = ''mail'', gc_Driver = [], gc_DSN = [],
       gc_RedisExpireSeconds = 1, gc_RedisInterface = [], gc_PrimaryHost = [], gc_BatchTimeout = 0\<rparr>"
       "[Feed [SBool True], Timer, Feed [SBool False], Stop]"]
  by fastforce

subsection \<open>Stopping the batcher\<close>

lemma closed_doQuery:
  assumes "\<not> mt_open (st_world w)" and "0 < c" and "c \<le> batchMax"
  shows "runs (guerrilla_doQuery (table_db fails) config c vals) w (\<lambda>r w'. st_world w' = st_world w)"
proof -
  have "runs (guerrilla_prepareInsertQuery (table_db fails) config c) w (\<lambda>r w'. st_world w' = st_world w)"
    using assms by (auto simp: runs_def guerrilla_prepareInsertQuery_def cached_stmt_def on_table_def if_open_def split: option.splits)
  then show ?thesis using assms(1) unfolding guerrilla_doQuery_def exec_rows_def
    by (auto simp: run_simps table_exec_def split: sum.splits intro!: runs_repanic elim!: runs_mono)
qed

lemma closed_retry:
  assumes "0 < c" and "c \<le> batchMax"
  shows "\<not> mt_open (st_world w) \<Longrightarrow> runs (retry_query (table_db fails) config k c vals) w (\<lambda>r w'. st_world w' = st_world w)"
proof (induction k arbitrary: w)
  case (Suc k)
  have "runs (retry_query (table_db fails) config k c vals) w1 (\<lambda>r w'. st_world w' = st_world w)" if "st_world w1 = st_world w" for w1
    using Suc.IH [of w1] Suc.prems that by simp
  then show ?case by (auto simp: run_simps split: sum.splits intro!: runs_mono [OF closed_doQuery [OF Suc.prems assms]])
qed (simp add: run_simps)

lemma closed_inserter:
  assumes "\<not> mt_open (st_world w)" and "c \<le> batchMax"
  shows "runs (inserter (table_db fails) config c vals) w (\<lambda>r w'. st_world w' = st_world w)"
proof (cases "c = 0")
  case False
  have "runs (retry_query (table_db fails) config 3 c vals) w1 (\<lambda>r w'. st_world w' = st_world w)" if "st_world w1 = st_world w" for w1
    using closed_retry [of c w1] False assms that by simp
  with False show ?thesis
    by (auto simp: inserter_def run_simps split: sum.splits intro!: runs_mono [OF closed_doQuery [OF assms(1) _ assms(2)]])
qed (simp add: inserter_def run_simps)

text \<open>
  The shutdown hook closes the database before it stops the batcher, so whatever rows wait in the
  batch, none of them is stored.
\<close>

theorem shutdown_drops_rows:
  assumes "length rows < 50"
  shows "runs (guerrilla_shutdown (table_db fails) redisMockConn config rows) w
    (\<lambda>r w'. mt_rows (st_world w') = mt_rows (st_world w))"
proof -
  let ?w1 = "w\<lparr>st_world := st_world w\<lparr>mt_open := False\<rparr>\<rparr>"
  have stop: "runs (batch_step (table_db fails) config rows Stop) ?w1 (\<lambda>r w'. mt_rows (st_world w') = mt_rows (st_world w))"
    using assms by (auto simp: batch_step_def run_simps split: sum.splits intro!: runs_mono [OF closed_inserter])
  have redis: "redis_shutdown redisMockConn = ok ()"
    by (rule ext) (simp add: redis_shutdown_def redisMockConn_def ok_def)
  show ?thesis unfolding guerrilla_shutdown_def redis
    by (simp add: run_simps, rule runs_mono [OF stop]) (auto split: sum.splits simp: run_simps)
qed

subsection \<open>The rows of sql\<close>

lemma doQuery_stores:
  assumes "cache_ok (insert_text config) w" and "mt_open (st_world w)"
  shows "runs (doQuery (table_db never_fails) config 1 vals) w
    (\<lambda>r w'. r = Inr None \<and> cache_ok (insert_text config) w' \<and> mt_open (st_world w')
      \<and> mt_rows (st_world w') = mt_rows (st_world w) @ [(insert_text config 1, vals)])"
  unfolding doQuery_def prepareInsertQuery_def using assms(2)
  by (auto simp: table_exec_def intro!: runs_mono [OF exec_rows_runs [OF assms(1) _ _ assms(2)]])

lemma prepared:
  assumes "cache_ok (insert_text config) w" and "mt_open (st_world w)"
  shows "runs (prepareInsertQuery (table_db never_fails) config 1) w
    (\<lambda>r w'. r = Inr (insert_text config 1) \<and> cache_ok (insert_text config) w' \<and> st_world w' = st_world w)"
  unfolding prepareInsertQuery_def using assms
  by (auto intro!: runs_mono [OF cached_stmt_runs [OF assms(1) _ _ assms(2)]])

text \<open>The row of a message without headers, for one recipient.\<close>

definition plain_row :: "sqlProcessorConfig \<Rightarrow> bytes \<Rightarrow> bytes \<Rightarrow> bytes \<Rightarrow> envelope \<Rightarrow> address \<Rightarrow> sql_value list" where
  "plain_row config hash body m e r =
     (let to = trimToLimit (trim_space (addr_String r)) 255; from = SText (trimToLimit (addr_String (eMailFrom e)) 255)
      in [SText to, from, SText (trimToLimit (eSubject e) 255), SText body, SText m, SText hash, SText [], SText to,
          SBytes (ip2bint (eRemoteIP e)), from, SBool (eTLS e), SText (hash @ ''.'' @ User r @ ''@'' @ sc_PrimaryHost config), SText [], SText []])"

lemma sql_row_plain:
  assumes "eHeader e = None"
  shows "sql_row L config hash body co e r =
    (case mail_column L co body e of (m, e') \<Rightarrow> Done (plain_row config hash body m e r, e'))"
  using assms by (simp add: sql_row_def fillAddressFromHeader_def header_value_def plain_row_def trimToLimit_def trim_space_def
      Let_def split: prod.split)

fun mail_columns :: "lib \<Rightarrow> (bytes \<times> bool) option \<Rightarrow> bytes \<Rightarrow> address list \<Rightarrow> envelope \<Rightarrow> (bytes list) \<times> envelope" where
  "mail_columns L co body [] e = ([], e)"
| "mail_columns L co body (r # rs) e =
     (case mail_column L co body e of (m, e') \<Rightarrow> case mail_columns L co body rs e' of (ms, e'') \<Rightarrow> (m # ms, e''))"

lemma mail_column_fields:
  assumes "mail_column L co body e = (m, e')"
  shows "eHeader e' = eHeader e" and "plain_row config hash b m' e' r = plain_row config hash b m' e r"
  using assms by (auto simp: mail_column_def compressor_String_def plain_row_def split: if_splits option.splits)

lemma sql_rows_runs:
  "eHeader e = None \<Longrightarrow> cache_ok (insert_text config) w \<Longrightarrow> mt_open (st_world w) \<Longrightarrow>
   runs (sql_rows (table_db never_fails) L config hash body co rs e) w
    (\<lambda>r w'. case mail_columns L co body rs e of (ms, e') \<Rightarrow> r = Inr (None, e')
      \<and> mt_rows (st_world w') = mt_rows (st_world w) @ map2 (\<lambda>r m. (insert_text config 1, plain_row config hash body m e r)) rs ms)"
proof (induction rs arbitrary: e w)
  case Nil
  then show ?case by (simp add: run_simps)
next
  case (Cons r rs)
  obtain m e1 where m: "mail_column L co body e = (m, e1)" by fastforce
  obtain ms e2 where ms: "mail_columns L co body rs e1 = (ms, e2)" by fastforce
  have e1: "eHeader e1 = None" using mail_column_fields(1) [OF m] Cons.prems(1) by simp
  have tail: "runs (sql_rows (table_db never_fails) L config hash body co rs e1) w2
     (\<lambda>q w'. q = Inr (None, e2) \<and> mt_rows (st_world w') = mt_rows (st_world w)
        @ map2 (\<lambda>r m. (insert_text config 1, plain_row config hash body m e r)) (r # rs) (m # ms))"
    if "cache_ok (insert_text config) w2" "mt_open (st_world w2)"
      "mt_rows (st_world w2) = mt_rows (st_world w) @ [(insert_text config 1, plain_row config hash body m e r)]" for w2
    by (rule runs_mono [OF Cons.IH [OF e1 that(1,2)]]) (use ms that(3) in \<open>simp add: mail_column_fields(2) [OF m]\<close>)
  have insert: "runs (doQuery (table_db never_fails) config 1 (plain_row config hash body m e r)) w1
     (\<lambda>q w2. q = Inr None \<and> cache_ok (insert_text config) w2 \<and> mt_open (st_world w2)
        \<and> mt_rows (st_world w2) = mt_rows (st_world w) @ [(insert_text config 1, plain_row config hash body m e r)])"
    if "cache_ok (insert_text config) w1" "st_world w1 = st_world w" for w1
    using doQuery_stores [OF that(1)] that(2) Cons.prems(3) by simp
  have row: "runs (lift_run (sql_row L config hash body co e r)) w Q \<longleftrightarrow> Q (Inr (plain_row config hash body m e r, e1)) w" for Q
    by (simp add: runs_def lift_run_def sql_row_plain [OF Cons.prems(1)] m)
  show ?case
    by (auto simp: run_simps row m ms simp del: One_nat_def intro!: runs_mono [OF prepared [OF Cons.prems(2,3)]] runs_mono [OF insert] runs_mono [OF tail])
qed

lemma mail_columns_compressed:
  "mail_columns L (Some (h, True)) ''gzip'' rs e =
     (case rs of [] \<Rightarrow> ([], e)
      | r # rs \<Rightarrow> (zlib L (h @ eData e) # map (\<lambda>r. zlib L h) rs, e\<lparr>eData := []\<rparr>))"
proof -
  have "mail_columns L (Some (h, True)) ''gzip'' rs (e\<lparr>eData := []\<rparr>) = (map (\<lambda>r. zlib L h) rs, e\<lparr>eData := []\<rparr>)" for rs
    by (induction rs) (simp_all add: mail_column_def compressor_String_def)
  then show ?thesis by (cases rs) (simp_all add: mail_column_def compressor_String_def)
qed

text \<open>
  After the compressor, \<open>sql\<close> stores one row for every recipient, in the order of the recipients, but
  the text of the message is only in the first of them: the others hold the compressed headers alone,
  because printing the compressor empties the buffer of the message.
\<close>

theorem sql_compressed_recipients:
  assumes "eHeader e = None" and "sq_cache w = []" and "mt_open (st_world w)"
  shows "\<exists>w'. sql_rows (table_db (\<lambda>_. False)) L config hash ''gzip'' (Some (h, True)) (r # rs) e w = Done (Inr (None, e\<lparr>eData := []\<rparr>), w')
    \<and> map snd (mt_rows (st_world w')) = map snd (mt_rows (st_world w)) @ plain_row config hash ''gzip'' (zlib L (h @ eData e)) e r
        # map (plain_row config hash ''gzip'' (zlib L h) e) rs"
proof -
  have c: "cache_ok (insert_text config) w" using assms(2) by (simp add: cache_ok_def)
  have m: "map2 (\<lambda>r m. (insert_text config 1, plain_row config hash ''gzip'' m e r)) rs (map (\<lambda>r. zlib L h) rs)
      = map (\<lambda>r. (insert_text config 1, plain_row config hash ''gzip'' (zlib L h) e r)) rs" by (induction rs) simp_all
  show ?thesis using sql_rows_runs [OF assms(1) c assms(3), of L hash "''gzip''" "Some (h, True)" "r # rs"]
    by (auto simp: runs_def mail_columns_compressed m comp_def simp del: One_nat_def mail_columns.simps sql_rows.simps)
qed

text \<open>
  A message whose first \<open>To\<close> header consists of atoms and blanks only, as in \<open>To: undisclosed\<close>, is never
  saved by \<open>sql\<close>: reading the address does not return.
\<close>

theorem sql_hangs:
  assumes "eHeader e = Some h" and "map_of h ''To'' = Some (v # vs)" and "eRcptTo e \<noteq> []"
    and "map_of (eValues e) ''zlib-compressor'' = None"
    and "v \<noteq> []" and "list_all is_phrase v" and "CHR 0x22 \<notin> set v" and "CHR '':'' \<notin> set v"
  shows "sql_process D L config p e TaskSaveMail w = Blocks"
proof -
  have f: "fillAddressFromHeader e' ''To'' = Blocks" if "eHeader e' = Some h" for e'
    using NewAddress_blocks_iff [OF assms(7,8)] assms(2,5,6) that by (simp add: fillAddressFromHeader_def header_value_def)
  obtain r rs where r: "eRcptTo e = r # rs" using assms(3) by (cases "eRcptTo e") auto
  show ?thesis using f assms(1,4) r
    by (simp add: sql_process_def sql_save_def compressor_of_def sql_row_def act_bind_def lift_run_def Let_def)
qed

theorem sql_hangs_witness:
  "sql_process (table_db (\<lambda>_. False)) L config p (e\<lparr>eHeader := Some [(''To'', [''undisclosed''])], eRcptTo := [r], eValues := []\<rparr>)
     TaskSaveMail w = Blocks"
  by (rule sql_hangs [of _ "[(''To'', [''undisclosed''])]" "''undisclosed''" "[]"]) (simp_all add: is_phrase_def is_wsp_def, (code_simp)?)

end
