(* ===== verification/Config.thy ===== *)
theory Config
  imports Gateway
begin

section \<open>The configuration and its change events (config.go, event.go)\<close>

text \<open>
  \<open>AppConfig\<close> with its servers, the defaults that \<open>Load\<close> fills in after the JSON was decoded, the
  validation, and the events that a changed configuration publishes. The operating system is
  the record \<open>os\<close>: the host name and the modification time of a file (\<open>Inl\<close> with the text of an error),
  the error of loading a key pair, if any, and the clock. A nil slice and an empty
  one are the same list here, and two lists have the same JSON exactly when they are equal.
\<close>

subsection \<open>Records\<close>

record tls_conf =
  t_Protocols :: "bytes list"
  t_Ciphers :: "bytes list"
  t_Curves :: "bytes list"
  t_PrivateKeyFile :: bytes
  t_PublicKeyFile :: bytes
  t_RootCAs :: bytes
  t_ClientAuthType :: bytes
  t_privMtime :: int
  t_pubMtime :: int
  t_PreferServerCipherSuites :: bool
  t_StartTLSOn :: bool
  t_AlwaysOn :: bool

record server_conf =
  sc_TLS :: tls_conf
  sc_LogFile :: bytes
  sc_Hostname :: bytes
  sc_ListenInterface :: bytes
  sc_MaxSize :: int
  sc_Timeout :: int
  sc_MaxClients :: int
  sc_IsEnabled :: bool
  sc_XClientOn :: bool

record tenantRegistryConfig =
  tr_URL :: bytes
  tr_PollInterval :: bytes
  tr_Timeout :: bytes
  tr_Headers :: "(bytes \<times> bytes) list"

record app_conf =
  Servers :: "server_conf list"
  AllowedHosts :: "bytes list"
  PidFile :: bytes
  LogFile :: bytes
  LogLevel :: bytes
  BackendConfig :: backendConfig
  AuthConf :: authConfig
  TenantRegistry :: tenantRegistryConfig

record os =
  os_Hostname :: "bytes + bytes"
  os_KeyPair :: "bytes \<Rightarrow> bytes \<Rightarrow> bytes option"
  os_Stat :: "bytes \<Rightarrow> bytes + int"
  os_Now :: int

subsection \<open>Defaults\<close>

abbreviation defaultMaxClients :: int where "defaultMaxClients \<equiv> 100"

abbreviation defaultTimeout :: int where "defaultTimeout \<equiv> 30"

abbreviation defaultInterface :: bytes where "defaultInterface \<equiv> ''127.0.0.1:2525''"

abbreviation defaultMaxSize :: int where "defaultMaxSize \<equiv> 10 * 2 ^ 20"

definition empty_tls :: tls_conf where
  "empty_tls = \<lparr>t_Protocols = [], t_Ciphers = [], t_Curves = [], t_PrivateKeyFile = [], t_PublicKeyFile = [], t_RootCAs = [],
     t_ClientAuthType = [], t_privMtime = 0, t_pubMtime = 0, t_PreferServerCipherSuites = False, t_StartTLSOn = False,
     t_AlwaysOn = False\<rparr>"

definition default_server :: "bytes \<Rightarrow> bytes \<Rightarrow> server_conf" where
  "default_server h logFile = \<lparr>sc_TLS = empty_tls, sc_LogFile = logFile, sc_Hostname = h, sc_ListenInterface = defaultInterface,
     sc_MaxSize = defaultMaxSize, sc_Timeout = defaultTimeout, sc_MaxClients = defaultMaxClients, sc_IsEnabled = True,
     sc_XClientOn = False\<rparr>"

definition Validate :: "os \<Rightarrow> server_conf \<Rightarrow> bytes list" where
  "Validate S sv =
     (if t_StartTLSOn (sc_TLS sv) \<or> t_AlwaysOn (sc_TLS sv) then
        (if t_PublicKeyFile (sc_TLS sv) = [] then [''PublicKeyFile is empty''] else [])
        @ (if t_PrivateKeyFile (sc_TLS sv) = [] then [''PrivateKeyFile is empty''] else [])
        @ (case os_KeyPair S (t_PublicKeyFile (sc_TLS sv)) (t_PrivateKeyFile (sc_TLS sv)) of
             None \<Rightarrow> []
           | Some err \<Rightarrow> [''cannot use TLS config for ['' @ sc_ListenInterface sv @ ''], '' @ err])
      else [])"

definition or_default :: "'a \<Rightarrow> 'a \<Rightarrow> 'a \<Rightarrow> 'a" where
  "or_default zero d x = (if x = zero then d else x)"

definition server_defaults :: "bytes \<Rightarrow> bytes \<Rightarrow> server_conf \<Rightarrow> server_conf" where
  "server_defaults h logFile sv =
     sv\<lparr>sc_Hostname := or_default [] h (sc_Hostname sv),
        sc_MaxClients := or_default 0 defaultMaxClients (sc_MaxClients sv),
        sc_Timeout := or_default 0 defaultTimeout (sc_Timeout sv),
        sc_MaxSize := or_default 0 defaultMaxSize (sc_MaxSize sv),
        sc_LogFile := or_default [] logFile (sc_LogFile sv)\<rparr>"

text \<open>The loop over the servers: the error stops it, the servers before are filled in.\<close>

fun servers_defaults :: "os \<Rightarrow> bytes \<Rightarrow> bytes \<Rightarrow> nat \<Rightarrow> server_conf list \<Rightarrow> bytes option \<times> server_conf list" where
  "servers_defaults S h logFile i [] = (None, [])"
| "servers_defaults S h logFile i (sv # scs) =
     (if sc_ListenInterface sv = []
      then (Some (''listen interface not specified for server at index '' @ show_nat i),
            (server_defaults h [] sv) # scs)
      else (let sv = server_defaults h logFile sv; es = Validate S sv
            in if es \<noteq> [] then (Some (errors_Error es), sv # scs)
               else (case servers_defaults S h logFile (i + 1) scs of (err, scs) \<Rightarrow> (err, sv # scs))))"

definition fill_servers :: "os \<Rightarrow> bytes \<Rightarrow> bytes \<Rightarrow> server_conf list \<Rightarrow> bytes option \<times> server_conf list" where
  "fill_servers S h logFile scs =
     (if scs = [] then (None, [default_server h logFile]) else servers_defaults S h logFile 0 scs)"

definition auth_defaults :: "authConfig \<Rightarrow> authConfig" where
  "auth_defaults a =
     a\<lparr>AuthType := or_default [] ''http'' (AuthType a),
       AuthTimeout := or_default [] ''2s'' (AuthTimeout a),
       AuthURL := or_default [] ''http://127.0.0.1:8080/auth'' (AuthURL a)\<rparr>"

definition setDefaults :: "os \<Rightarrow> app_conf \<Rightarrow> bytes option \<times> app_conf" where
  "setDefaults S c =
     (let c = c\<lparr>LogFile := or_default [] ''stderr'' (LogFile c), LogLevel := or_default [] ''debug'' (LogLevel c)\<rparr>
      in case os_Hostname S of
           Inl err \<Rightarrow> (Some err, c)
         | Inr h \<Rightarrow>
             (let c = c\<lparr>AllowedHosts := or_default [] [h] (AllowedHosts c)\<rparr>
              in case fill_servers S h (LogFile c) (Servers c) of
                   (Some err, scs) \<Rightarrow> (Some err, c\<lparr>Servers := scs\<rparr>)
                 | (None, scs) \<Rightarrow> (None, c\<lparr>Servers := scs, AuthConf := auth_defaults (AuthConf c)\<rparr>)))"

text \<open>The keys of the backend configuration that are filled in when they are missing.\<close>

definition set_missing :: "bytes \<Rightarrow> jvalue \<Rightarrow> backendConfig \<Rightarrow> backendConfig" where
  "set_missing k v bc = (if map_of bc k = None then AList.update k v bc else bc)"

definition default_process :: bytes where
  "default_process = ''HeadersParser|Header|Debugger''"

definition setBackendDefaults :: "os \<Rightarrow> app_conf \<Rightarrow> bytes option \<times> app_conf" where
  "setBackendDefaults S c =
     (if BackendConfig c = [] then
        (case os_Hostname S of
           Inl err \<Rightarrow> (Some err, c)
         | Inr h \<Rightarrow> (None, c\<lparr>BackendConfig := [(''log_received_mails'', JBool True), (''save_workers_size'', JInt 1),
             (''save_process'', JStr default_process), (''primary_mail_host'', JStr h)]\<rparr>))
      else
        (let bc = set_missing ''save_process'' (JStr default_process) (BackendConfig c)
         in case (if map_of bc ''primary_mail_host'' = None then map_sum id (\<lambda>h. AList.update ''primary_mail_host'' (JStr h) bc) (os_Hostname S)
                  else Inr bc) of
              Inl err \<Rightarrow> (Some err, c\<lparr>BackendConfig := bc\<rparr>)
            | Inr bc \<Rightarrow> (None, c\<lparr>BackendConfig := set_missing ''log_received_mails'' (JBool False)
                (set_missing ''save_workers_size'' (JInt 1) bc)\<rparr>)))"

definition loadTlsKeyTimestamps :: "os \<Rightarrow> server_conf \<Rightarrow> bytes option \<times> server_conf" where
  "loadTlsKeyTimestamps S sv =
     (let t = sc_TLS sv; statErr = (\<lambda>err. ''could not stat key for server ['' @ sc_ListenInterface sv @ ''], '' @ err)
      in if t_PrivateKeyFile t = [] then (None, sv\<lparr>sc_TLS := t\<lparr>t_privMtime := os_Now S\<rparr>\<rparr>)
         else if t_PublicKeyFile t = [] then (None, sv\<lparr>sc_TLS := t\<lparr>t_pubMtime := os_Now S\<rparr>\<rparr>)
         else case os_Stat S (t_PrivateKeyFile t) of
                Inl err \<Rightarrow> (Some (statErr err), sv)
              | Inr m1 \<Rightarrow>
                  (let t = t\<lparr>t_privMtime := m1\<rparr>
                   in case os_Stat S (t_PublicKeyFile t) of
                        Inl err \<Rightarrow> (Some (statErr err), sv\<lparr>sc_TLS := t\<rparr>)
                      | Inr m2 \<Rightarrow> (None, sv\<lparr>sc_TLS := t\<lparr>t_pubMtime := m2\<rparr>\<rparr>)))"

fun load_timestamps :: "os \<Rightarrow> server_conf list \<Rightarrow> bytes option \<times> server_conf list" where
  "load_timestamps S [] = (None, [])"
| "load_timestamps S (sv # scs) =
     (case loadTlsKeyTimestamps S sv of
        (Some err, sv) \<Rightarrow> (Some err, sv # scs)
      | (None, sv) \<Rightarrow> (case load_timestamps S scs of (err, scs) \<Rightarrow> (err, sv # scs)))"

text \<open>\<open>Load\<close> after the JSON was decoded into \<open>c\<close>.\<close>

definition conf_Load :: "os \<Rightarrow> app_conf \<Rightarrow> bytes option \<times> app_conf" where
  "conf_Load S c =
     (case setDefaults S c of
        (Some err, c) \<Rightarrow> (Some err, c)
      | (None, c) \<Rightarrow>
          (case setBackendDefaults S c of
             (Some err, c) \<Rightarrow> (Some err, c)
           | (None, c) \<Rightarrow>
               (case filter (\<lambda>es. es \<noteq> []) (map (Validate S) (Servers c)) of
                  es # _ \<Rightarrow> (Some (errors_Error es), c)
                | [] \<Rightarrow> (case load_timestamps S (Servers c) of (err, scs) \<Rightarrow> (err, c\<lparr>Servers := scs\<rparr>)))))"

subsection \<open>Changes\<close>

datatype fval = FI int | FS bytes | FB bool | FL "bytes list"

definition structtomap_server :: "server_conf \<Rightarrow> (bytes \<times> fval) list" where
  "structtomap_server sv = [(''LogFile'', FS (sc_LogFile sv)), (''Hostname'', FS (sc_Hostname sv)),
     (''ListenInterface'', FS (sc_ListenInterface sv)), (''MaxSize'', FI (sc_MaxSize sv)), (''Timeout'', FI (sc_Timeout sv)),
     (''MaxClients'', FI (sc_MaxClients sv)), (''IsEnabled'', FB (sc_IsEnabled sv)), (''XClientOn'', FB (sc_XClientOn sv))]"

definition structtomap_tls :: "tls_conf \<Rightarrow> (bytes \<times> fval) list" where
  "structtomap_tls t = [(''Protocols'', FL (t_Protocols t)), (''Ciphers'', FL (t_Ciphers t)), (''Curves'', FL (t_Curves t)),
     (''PrivateKeyFile'', FS (t_PrivateKeyFile t)), (''PublicKeyFile'', FS (t_PublicKeyFile t)), (''RootCAs'', FS (t_RootCAs t)),
     (''ClientAuthType'', FS (t_ClientAuthType t)), (''_privateKeyFileMtime'', FI (t_privMtime t)),
     (''_publicKeyFileMtime'', FI (t_pubMtime t)), (''PreferServerCipherSuites'', FB (t_PreferServerCipherSuites t)),
     (''StartTLSOn'', FB (t_StartTLSOn t)), (''AlwaysOn'', FB (t_AlwaysOn t))]"

definition map_changes :: "(bytes \<times> fval) list \<Rightarrow> (bytes \<times> fval) list \<Rightarrow> (bytes \<times> fval) list" where
  "map_changes a b = List.map_filter (\<lambda>(key, val). case map_of b key of
       None \<Rightarrow> None
     | Some v \<Rightarrow> if val \<noteq> v then Some (key, v) else None) a"

definition getChanges_server :: "server_conf \<Rightarrow> server_conf \<Rightarrow> (bytes \<times> fval) list" where
  "getChanges_server a b = map_changes (structtomap_server a) (structtomap_server b)"

definition getChanges_tls :: "tls_conf \<Rightarrow> tls_conf \<Rightarrow> (bytes \<times> fval) list" where
  "getChanges_tls a b =
     (let ret = map_changes (structtomap_tls a) (structtomap_tls b);
          ret = (if t_privMtime a \<noteq> t_privMtime b then AList.update ''PrivateKeyFile'' (FS (t_PrivateKeyFile b)) ret else ret)
      in if t_pubMtime a \<noteq> t_pubMtime b then AList.update ''PublicKeyFile'' (FS (t_PublicKeyFile b)) ret else ret)"

datatype event = EventConfigNewConfig | EventConfigAllowedHosts | EventConfigPidFile | EventConfigLogFile | EventConfigLogReopen
  | EventConfigLogLevel | EventConfigBackendConfig | EventConfigServerNew | EventConfigServerRemove | EventConfigServerConfig
  | EventConfigServerStart | EventConfigServerStop | EventConfigServerLogFile | EventConfigServerLogReopen
  | EventConfigServerTimeout | EventConfigServerMaxClients | EventConfigServerTLSConfig

fun event_String :: "event \<Rightarrow> bytes" where
  "event_String EventConfigNewConfig = ''config_change:new_config''"
| "event_String EventConfigAllowedHosts = ''config_change:allowed_hosts''"
| "event_String EventConfigPidFile = ''config_change:pid_file''"
| "event_String EventConfigLogFile = ''config_change:log_file''"
| "event_String EventConfigLogReopen = ''config_change:reopen_log_file''"
| "event_String EventConfigLogLevel = ''config_change:log_level''"
| "event_String EventConfigBackendConfig = ''config_change:backend_config''"
| "event_String EventConfigServerNew = ''server_change:new_server''"
| "event_String EventConfigServerRemove = ''server_change:remove_server''"
| "event_String EventConfigServerConfig = ''server_change:update_config''"
| "event_String EventConfigServerStart = ''server_change:start_server''"
| "event_String EventConfigServerStop = ''server_change:stop_server''"
| "event_String EventConfigServerLogFile = ''server_change:new_log_file''"
| "event_String EventConfigServerLogReopen = ''server_change:reopen_log_file''"
| "event_String EventConfigServerTimeout = ''server_change:timeout''"
| "event_String EventConfigServerMaxClients = ''server_change:max_clients''"
| "event_String EventConfigServerTLSConfig = ''server_change:tls_config''"

text \<open>What is published: an event with the application or a server configuration.\<close>

datatype publication = PubApp event app_conf | PubServer event server_conf

definition changed :: "bytes \<Rightarrow> (bytes \<times> fval) list \<Rightarrow> bool" where
  "changed key changes \<longleftrightarrow> map_of changes key \<noteq> None"

definition emit_server :: "server_conf \<Rightarrow> server_conf \<Rightarrow> publication list" where
  "emit_server oldServer sv =
     (let changes = getChanges_server oldServer sv; tlsChanges = getChanges_tls (sc_TLS oldServer) (sc_TLS sv)
      in (if changes \<noteq> [] \<or> tlsChanges \<noteq> [] then [PubServer EventConfigServerConfig sv] else [])
         @ (if changed ''IsEnabled'' changes
            then [PubServer (if sc_IsEnabled sv then EventConfigServerStart else EventConfigServerStop) sv]
            else [PubServer (if changed ''LogFile'' changes then EventConfigServerLogFile else EventConfigServerLogReopen) sv]
                 @ (if changed ''Timeout'' changes then [PubServer EventConfigServerTimeout sv] else [])
                 @ (if changed ''MaxClients'' changes then [PubServer EventConfigServerMaxClients sv] else [])
                 @ (if tlsChanges \<noteq> [] then [PubServer EventConfigServerTLSConfig sv] else [])))"

text \<open>\<open>getServers\<close>: the last server with an interface wins. The range over the map has no fixed order;
  here it is the order of the list.\<close>

definition getServers :: "server_conf list \<Rightarrow> (bytes \<times> server_conf) list" where
  "getServers scs = foldl (\<lambda>m sv. AList.update (sc_ListenInterface sv) sv m) [] scs"

text \<open>\<open>reflect.DeepEqual\<close> of two configurations: the backend configuration is a map.\<close>

definition same_backend :: "backendConfig \<Rightarrow> backendConfig \<Rightarrow> bool" where
  "same_backend a b = list_all (\<lambda>k. map_of a k = map_of b k) (map fst a @ map fst b)"

definition same_conf :: "app_conf \<Rightarrow> app_conf \<Rightarrow> bool" where
  "same_conf c d \<longleftrightarrow> same_backend (BackendConfig c) (BackendConfig d) \<and> c\<lparr>BackendConfig := []\<rparr> = d\<lparr>BackendConfig := []\<rparr>"

definition EmitChangeEvents :: "app_conf \<Rightarrow> app_conf \<Rightarrow> publication list" where
  "EmitChangeEvents c oldConfig =
     (let oldServers = getServers (Servers oldConfig); newServers = getServers (Servers c)
      in (if \<not> same_backend (BackendConfig c) (BackendConfig oldConfig) then [PubApp EventConfigBackendConfig c] else [])
         @ (if \<not> same_conf oldConfig c then [PubApp EventConfigNewConfig c] else [])
         @ (if AllowedHosts oldConfig \<noteq> AllowedHosts c then [PubApp EventConfigAllowedHosts c] else [])
         @ (if PidFile oldConfig \<noteq> PidFile c then [PubApp EventConfigPidFile c] else [])
         @ (if LogFile oldConfig \<noteq> LogFile c then [PubApp EventConfigLogFile c] else [])
         @ (if LogLevel oldConfig \<noteq> LogLevel c then [PubApp EventConfigLogLevel c] else [])
         @ concat (map (\<lambda>(iface, newServer). case map_of oldServers iface of
               Some oldServer \<Rightarrow> emit_server oldServer newServer
             | None \<Rightarrow> [PubServer EventConfigServerNew newServer]) newServers)
         @ map (\<lambda>(iface, oldServer). PubServer EventConfigServerRemove oldServer)
             (filter (\<lambda>(iface, oldServer). map_of newServers iface = None) oldServers))"

definition EmitLogReopenEvents :: "app_conf \<Rightarrow> publication list" where
  "EmitLogReopenEvents c =
     PubApp EventConfigLogReopen c # map (\<lambda>(iface, sv). PubServer EventConfigServerLogReopen sv) (getServers (Servers c))"

subsection \<open>A loaded configuration is complete\<close>

definition server_complete :: "os \<Rightarrow> server_conf \<Rightarrow> bool" where
  "server_complete S sv \<longleftrightarrow> sc_Hostname sv \<noteq> [] \<and> sc_MaxClients sv \<noteq> 0 \<and> sc_Timeout sv \<noteq> 0 \<and> sc_MaxSize sv \<noteq> 0
     \<and> sc_ListenInterface sv \<noteq> [] \<and> sc_LogFile sv \<noteq> [] \<and> Validate S sv = []"

lemma or_default_simps [simp]: "x \<noteq> z \<Longrightarrow> or_default z d x = x" "or_default z d x = z \<longleftrightarrow> x = z \<and> d = z"
  "or_default z d (or_default z d x) = or_default z d x"
  by (auto simp: or_default_def)

lemma server_defaults_complete:
  "h \<noteq> [] \<Longrightarrow> l \<noteq> [] \<Longrightarrow> sc_ListenInterface sv \<noteq> [] \<Longrightarrow> Validate S (server_defaults h l sv) = [] \<Longrightarrow>
     server_complete S (server_defaults h l sv)"
  by (simp add: server_complete_def server_defaults_def)

lemma server_defaults_id: "server_complete S sv \<Longrightarrow> server_defaults h l sv = sv"
  by (simp add: server_complete_def server_defaults_def)

lemma servers_defaults_complete:
  "servers_defaults S h l i scs = (None, scs') \<Longrightarrow> h \<noteq> [] \<Longrightarrow> l \<noteq> [] \<Longrightarrow>
     list_all (server_complete S) scs' \<and> length scs' = length scs"
proof (induction scs arbitrary: i scs')
  case (Cons sv scs)
  let ?sv = "server_defaults h l sv"
  obtain e r where r: "servers_defaults S h l (i + 1) scs = (e, r)" by fastforce
  have i: "sc_ListenInterface sv \<noteq> []" and v: "Validate S ?sv = []" and e: "e = None" "scs' = ?sv # r"
    using Cons.prems(1) r by (auto simp: Let_def split: if_splits)
  from server_defaults_complete [OF Cons.prems(2,3) i v] Cons.IH [OF r [unfolded e(1)] Cons.prems(2,3)] e show ?case by simp
qed simp

lemma servers_defaults_id:
  "list_all (server_complete S) scs \<Longrightarrow> servers_defaults S h l i scs = (None, scs)"
  by (induction scs arbitrary: i) (auto simp: server_defaults_id server_complete_def)

lemma default_server_complete: "h \<noteq> [] \<Longrightarrow> l \<noteq> [] \<Longrightarrow> server_complete S (default_server h l)"
  by (simp add: server_complete_def default_server_def Validate_def empty_tls_def)

definition conf_complete :: "os \<Rightarrow> app_conf \<Rightarrow> bool" where
  "conf_complete S c \<longleftrightarrow> LogFile c \<noteq> [] \<and> LogLevel c \<noteq> [] \<and> AllowedHosts c \<noteq> [] \<and> Servers c \<noteq> []
     \<and> list_all (server_complete S) (Servers c)"

lemma auth_defaults_idem: "auth_defaults (auth_defaults a) = auth_defaults a"
  by (simp add: auth_defaults_def)

lemma setDefaults_complete:
  assumes "setDefaults S c = (None, c')" and h: "os_Hostname S = Inr h" and "h \<noteq> []"
  shows "conf_complete S c' \<and> BackendConfig c' = BackendConfig c \<and> auth_defaults (AuthConf c') = AuthConf c'"
proof -
  define l where "l = or_default [] ''stderr'' (LogFile c)"
  obtain e scs where r: "fill_servers S h l (Servers c) = (e, scs)"
    by fastforce
  have l: "l \<noteq> []" by (simp add: l_def)
  have e: "e = None" and c': "c' = c\<lparr>LogFile := l, LogLevel := or_default [] ''debug'' (LogLevel c),
      AllowedHosts := or_default [] [h] (AllowedHosts c), Servers := scs, AuthConf := auth_defaults (AuthConf c)\<rparr>"
    using assms(1) r by (simp_all add: setDefaults_def h l_def Let_def split: option.splits)
  have "list_all (server_complete S) scs \<and> scs \<noteq> []"
  proof (cases "Servers c = []")
    case True
    with r default_server_complete [OF assms(3) l] show ?thesis by (auto simp: fill_servers_def)
  next
    case False
    with r e have "servers_defaults S h l 0 (Servers c) = (None, scs)" by (simp add: fill_servers_def)
    from servers_defaults_complete [OF this assms(3) l] False show ?thesis by auto
  qed
  then show ?thesis using c' l by (simp add: conf_complete_def auth_defaults_idem)
qed

lemma setDefaults_id:
  assumes "conf_complete S c" and "os_Hostname S = Inr h" and "auth_defaults (AuthConf c) = AuthConf c"
  shows "setDefaults S c = (None, c)"
  using assms by (simp add: setDefaults_def conf_complete_def fill_servers_def servers_defaults_id)

lemma Validate_mtimes:
  assumes "t_StartTLSOn t = t_StartTLSOn (sc_TLS sv)" "t_AlwaysOn t = t_AlwaysOn (sc_TLS sv)"
    "t_PublicKeyFile t = t_PublicKeyFile (sc_TLS sv)" "t_PrivateKeyFile t = t_PrivateKeyFile (sc_TLS sv)"
  shows "Validate S (sv\<lparr>sc_TLS := t\<rparr>) = Validate S sv"
  using assms by (cases "os_KeyPair S (t_PublicKeyFile t) (t_PrivateKeyFile t)") (simp_all add: Validate_def)

lemma mtimes_complete [simp]:
  "server_complete S (sv\<lparr>sc_TLS := (sc_TLS sv)\<lparr>t_privMtime := m\<rparr>\<rparr>) = server_complete S sv"
  "server_complete S (sv\<lparr>sc_TLS := (sc_TLS sv)\<lparr>t_pubMtime := n\<rparr>\<rparr>) = server_complete S sv"
  "server_complete S (sv\<lparr>sc_TLS := (sc_TLS sv)\<lparr>t_privMtime := m, t_pubMtime := n\<rparr>\<rparr>) = server_complete S sv"
  by (simp_all add: server_complete_def Validate_mtimes)

lemma loadTlsKeyTimestamps_complete:
  "loadTlsKeyTimestamps S sv = (e, sv') \<Longrightarrow> server_complete S sv' = server_complete S sv"
  by (auto simp: loadTlsKeyTimestamps_def Let_def split: if_splits sum.splits)

lemma load_timestamps_complete:
  "load_timestamps S scs = (e, scs') \<Longrightarrow> list_all (server_complete S) scs \<Longrightarrow>
     list_all (server_complete S) scs' \<and> length scs' = length scs"
proof (induction scs arbitrary: e scs')
  case (Cons sv scs)
  obtain e1 sv1 where 1: "loadTlsKeyTimestamps S sv = (e1, sv1)" by fastforce
  obtain e2 r where 2: "load_timestamps S scs = (e2, r)" by fastforce
  from Cons 1 2 loadTlsKeyTimestamps_complete [OF 1] show ?case by (cases e1) auto
qed simp

definition required_keys :: "bytes list" where
  "required_keys = [''save_process'', ''primary_mail_host'', ''save_workers_size'', ''log_received_mails'']"

lemma dom_set_missing [simp]: "dom (map_of (set_missing k v bc)) = insert k (dom (map_of bc))"
  by (auto simp: set_missing_def update_conv')

lemma setBackendDefaults_keys:
  assumes "setBackendDefaults S c = (None, c')"
  shows "set required_keys \<subseteq> dom (map_of (BackendConfig c')) \<and> c' = c\<lparr>BackendConfig := BackendConfig c'\<rparr>"
proof (cases "BackendConfig c = []")
  case True
  with assms show ?thesis by (auto simp: setBackendDefaults_def required_keys_def split: sum.splits)
next
  case False
  define b0 where "b0 = set_missing ''save_process'' (JStr default_process) (BackendConfig c)"
  obtain b where b: "c' = c\<lparr>BackendConfig := set_missing ''log_received_mails'' (JBool False) (set_missing ''save_workers_size'' (JInt 1) b)\<rparr>"
    and d: "dom (map_of b) = insert ''primary_mail_host'' (dom (map_of b0))"
  proof (cases "map_of b0 ''primary_mail_host''")
    case None
    with assms False that show ?thesis
      by (cases "os_Hostname S") (auto simp: setBackendDefaults_def Let_def b0_def [symmetric] update_conv')
  next
    case (Some v)
    with assms False that [of b0] show ?thesis
      by (auto simp: setBackendDefaults_def Let_def b0_def [symmetric] insert_absorb domIff)
  qed
  from b show ?thesis by (simp add: required_keys_def d b0_def)
qed

text \<open>
  C24: A configuration that \<open>Load\<close> accepts is complete: it has a log file, a log level, at least one
  allowed host and one server, each server has a host name, an interface, a log file and limits
  other than zero and passes the validation, and the backend configuration has the four keys the
  default processors read. Filling in the defaults again changes nothing.
\<close>

theorem loaded_config:
  assumes "conf_Load S c = (None, c')" and "os_Hostname S = Inr h" and "h \<noteq> []"
  shows "conf_complete S c' \<and> set required_keys \<subseteq> dom (map_of (BackendConfig c')) \<and> setDefaults S c' = (None, c')"
proof -
  obtain c1 c2 scs where 1: "setDefaults S c = (None, c1)" and 2: "setBackendDefaults S c1 = (None, c2)"
    and 3: "load_timestamps S (Servers c2) = (None, scs)" and c': "c' = c2\<lparr>Servers := scs\<rparr>"
    using assms(1) by (auto simp: conf_Load_def split: prod.splits option.splits list.splits)
  note complete = setDefaults_complete [OF 1 assms(2,3)]
  obtain bc where c2: "c2 = c1\<lparr>BackendConfig := bc\<rparr>" "set required_keys \<subseteq> dom (map_of bc)"
    using setBackendDefaults_keys [OF 2] by metis
  with complete have "list_all (server_complete S) scs \<and> length scs = length (Servers c2)"
    by (intro load_timestamps_complete [OF 3]) (simp add: conf_complete_def)
  with complete c2 have "conf_complete S c'" by (auto simp: conf_complete_def c')
  with complete c2 show ?thesis by (simp add: setDefaults_id [OF _ assms(2)] c')
qed

definition os1 :: os where
  "os1 = \<lparr>os_Hostname = Inr ''mail.example.com'', os_KeyPair = (\<lambda>cert k. if cert = [] then Some ''open : no such file'' else None),
     os_Stat = (\<lambda>f. Inr 1700000000), os_Now = 1750000000\<rparr>"

definition auth0 :: authConfig where
  "auth0 = \<lparr>AuthEnabled = False, AuthType = [], AuthURL = [], AuthTimeout = [], AuthHeaders = []\<rparr>"

definition conf0 :: app_conf where
  "conf0 = \<lparr>Servers = [(default_server [] [])\<lparr>sc_MaxSize := 0, sc_TLS := empty_tls\<lparr>t_StartTLSOn := True, t_PrivateKeyFile := ''k.pem'',
       t_PublicKeyFile := ''c.pem''\<rparr>\<rparr>], AllowedHosts = [], PidFile = [], LogFile = [], LogLevel = [],
     BackendConfig = [(''save_process'', JStr ''Debugger'')], AuthConf = auth0,
     TenantRegistry = \<lparr>tr_URL = [], tr_PollInterval = [], tr_Timeout = [], tr_Headers = []\<rparr>\<rparr>"

theorem loaded_config_witness:
  "fst (conf_Load os1 conf0) = None \<and> conf_complete os1 (snd (conf_Load os1 conf0))"
proof -
  have 1: "fst (conf_Load os1 conf0) = None" and 2: "os_Hostname os1 = Inr ''mail.example.com''" by code_simp+
  from 1 have "conf_Load os1 conf0 = (None, snd (conf_Load os1 conf0))" by (simp add: prod_eq_iff)
  from 1 loaded_config [OF this 2] show ?thesis by simp
qed

subsection \<open>What a changed configuration publishes\<close>

lemma map_changes_self [simp]: "distinct (map fst a) \<Longrightarrow> map_changes a a = []"
  by (auto simp: map_changes_def List.map_filter_def map_of_eq_Some_iff filter_empty_conv split: option.splits)

lemma getChanges_self [simp]: "getChanges_server sv sv = []" "getChanges_tls t t = []"
  by (simp_all add: getChanges_server_def getChanges_tls_def structtomap_server_def structtomap_tls_def)

lemma emit_server_self: "emit_server sv sv = [PubServer EventConfigServerLogReopen sv]"
  by (simp add: emit_server_def changed_def)

lemma same_backend_refl [simp]: "same_backend b b"
  by (simp add: same_backend_def list_all_iff)

lemma concat_singletons: "(\<And>x. x \<in> set xs \<Longrightarrow> g x = [f x]) \<Longrightarrow> concat (map g xs) = map f xs"
  by (induction xs) auto

lemma getServers_distinct: "distinct (map fst (getServers scs))"
proof -
  have "distinct (map fst m) \<Longrightarrow> distinct (map fst (foldl (\<lambda>m sv. AList.update (sc_ListenInterface sv) sv m) m scs))" for m
    by (induction scs arbitrary: m) (simp_all add: distinct_update)
  then show ?thesis by (simp add: getServers_def)
qed

text \<open>
  Loading the same configuration again publishes nothing but the reopening of each server's log,
  once for every listening interface.
\<close>

theorem unchanged_config:
  "EmitChangeEvents c c = map (\<lambda>(iface, sv). PubServer EventConfigServerLogReopen sv) (getServers (Servers c))"
proof -
  let ?svs = "getServers (Servers c)"
  have "map_of ?svs iface = Some sv" if "(iface, sv) \<in> set ?svs" for iface sv
    using that getServers_distinct by simp
  then have "concat (map (\<lambda>(iface, newServer). case map_of ?svs iface of
        Some oldServer \<Rightarrow> emit_server oldServer newServer
      | None \<Rightarrow> [PubServer EventConfigServerNew newServer]) ?svs)
    = map (\<lambda>(iface, sv). PubServer EventConfigServerLogReopen sv) ?svs"
    by (intro concat_singletons) (auto simp: emit_server_self)
  moreover have "filter (\<lambda>(iface, oldServer). map_of ?svs iface = None) ?svs = []"
    by (auto simp: filter_empty_conv map_of_eq_None_iff image_iff)
  ultimately show ?thesis by (simp add: EmitChangeEvents_def same_conf_def Let_def)
qed

end
