(* ===== verification/Pool.thy ===== *)
theory Pool
  imports Session
begin

section \<open>The client pool and the accept loop (pool.go, server.go: Start, Shutdown)\<close>

text \<open>
  A pool lends client objects to connections. Objects are pointers into \<open>heap\<close>; \<open>ready\<close> is the
  channel \<open>pool\<close> (of capacity \<open>cp_size\<close>), \<open>sem\<close> the number of values in the channel \<open>sem\<close>, \<open>active\<close>
  the map of lent clients by id, \<open>wg\<close> the wait group, \<open>flag\<close> the atomic value
  \<open>isShuttingDownFlg\<close> (\<open>None\<close> until something is stored), and \<open>shutdownChan\<close> the number of values in
  the channel of capacity one. \<open>waiting\<close> says that a \<open>Borrow\<close> sits in its \<open>select\<close>: it holds
  \<open>poolGuard\<close>, so no other operation that takes the guard can run.

  \<open>Borrow\<close> is split where it may wait. An operation whose channel operation would block is
  not enabled; a negative wait group is a panic.
\<close>

record cpool =
  cp_size :: nat
  ready :: "nat list"
  sem :: nat
  active :: "(nat \<times> nat) list"
  wg :: nat
  flag :: "bool option"
  shutdownChan :: nat
  waiting :: bool
  heap :: "client list"
  lentTo :: "nat list"

text \<open>\<open>lentTo\<close> is history: the pointers that were lent and not yet returned.\<close>

definition NewPool :: "nat \<Rightarrow> cpool" where
  "NewPool poolSize = \<lparr>cp_size = poolSize, ready = [], sem = 0, active = [], wg = 0, flag = None, shutdownChan = 0,
     waiting = False, heap = [], lentTo = []\<rparr>"

definition cp_Start :: "cpool \<Rightarrow> cpool" where
  "cp_Start p = p\<lparr>flag := Some True\<rparr>"

definition IsShuttingDown :: "cpool \<Rightarrow> bool" where
  "IsShuttingDown p = (case flag p of Some v \<Rightarrow> v | None \<Rightarrow> False)"

definition GetActiveClientsCount :: "cpool \<Rightarrow> nat" where
  "GetActiveClientsCount p = sem p"

definition activeClientsAdd :: "cpool \<Rightarrow> nat \<Rightarrow> cpool" where
  "activeClientsAdd p c = p\<lparr>wg := wg p + 1, active := AList.update (ClientID (heap p ! c)) c (active p)\<rparr>"

definition activeClientsRemove :: "cpool \<Rightarrow> nat \<Rightarrow> cpool outcome" where
  "activeClientsRemove p c =
     (let p = p\<lparr>active := AList.delete (ClientID (heap p ! c)) (active p)\<rparr>
      in if wg p = 0 then Panic ''sync: negative WaitGroup counter'' else Ret (p\<lparr>wg := wg p - 1\<rparr>))"

text \<open>The callback of \<open>SetTimeout\<close> and \<open>ShutdownState\<close>: a client whose deadline cannot be set is killed.\<close>

definition mapAll_kill :: "(nat \<Rightarrow> bool) \<Rightarrow> cpool \<Rightarrow> cpool" where
  "mapAll_kill setTimeout_fails p =
     p\<lparr>heap := fold (\<lambda>c h. if setTimeout_fails c then h[c := kill (h ! c)] else h) (map snd (active p)) (heap p)\<rparr>"

definition cp_SetTimeout :: "(nat \<Rightarrow> bool) \<Rightarrow> cpool \<Rightarrow> cpool" where
  "cp_SetTimeout setTimeout_fails p = mapAll_kill setTimeout_fails p"

definition ShutdownState :: "(nat \<Rightarrow> bool) \<Rightarrow> cpool \<Rightarrow> cpool option" where
  "ShutdownState setTimeout_fails p =
     (if waiting p then None
      else (let p = p\<lparr>flag := Some True\<rparr>
            in if shutdownChan p \<ge> 1 then None
               else Some (mapAll_kill setTimeout_fails (p\<lparr>shutdownChan := 1\<rparr>))))"

definition ShutdownWait :: "cpool \<Rightarrow> cpool option" where
  "ShutdownWait p =
     (if waiting p \<or> wg p > 0 then None
      else (let p = (if shutdownChan p > 0 then p\<lparr>shutdownChan := shutdownChan p - 1\<rparr> else p)
            in Some (p\<lparr>flag := Some False\<rparr>)))"

datatype borrowed = Refused cpool | Waits cpool | Lent nat cpool epool

text \<open>
  The two branches of the \<open>select\<close> of \<open>Borrow\<close>: \<open>p.sem <- true\<close> with what follows (blocked, too,
  when the envelope pool has no room), and \<open><-p.ShutdownChan\<close>.
\<close>

definition borrow_go :: "cpool \<Rightarrow> epool \<Rightarrow> bytes \<Rightarrow> bytes \<Rightarrow> nat \<Rightarrow> (nat \<times> cpool \<times> epool) option" where
  "borrow_go p ep addr qid clientID =
     (if sem p \<ge> cp_size p then None
      else case BorrowEnvelope ep addr qid of
             None \<Rightarrow> None
           | Some (e, ep) \<Rightarrow>
               (let p = p\<lparr>sem := sem p + 1, waiting := False\<rparr>;
                    (c, p) = (case ready p of
                                c # cs \<Rightarrow> (c, p\<lparr>ready := cs, heap := (heap p)[c := init_client (heap p ! c) e clientID]\<rparr>)
                              | [] \<Rightarrow> (length (heap p), p\<lparr>heap := heap p @ [NewClient e clientID]\<rparr>))
                in Some (c, activeClientsAdd (p\<lparr>lentTo := c # lentTo p\<rparr>) c, ep)))"

definition borrow_cancel :: "cpool \<Rightarrow> cpool option" where
  "borrow_cancel p =
     (if shutdownChan p = 0 then None else Some (p\<lparr>shutdownChan := shutdownChan p - 1, waiting := False\<rparr>))"

definition cp_Borrow :: "bool \<Rightarrow> cpool \<Rightarrow> epool \<Rightarrow> bytes \<Rightarrow> bytes \<Rightarrow> nat \<Rightarrow> borrowed option" where
  "cp_Borrow cancel_first p ep addr qid clientID =
     (if waiting p then None
      else if flag p = Some True then Some (Refused p)
      else case (borrow_go p ep addr qid clientID, borrow_cancel p) of
             (Some (c, p, ep), None) \<Rightarrow> Some (Lent c p ep)
           | (None, Some p) \<Rightarrow> Some (Refused p)
           | (Some (c, p, ep), Some p') \<Rightarrow> Some (if cancel_first then Refused p' else Lent c p ep)
           | (None, None) \<Rightarrow> Some (Waits (p\<lparr>waiting := True\<rparr>)))"

definition cp_Return :: "cpool \<Rightarrow> nat \<Rightarrow> cpool option outcome" where
  "cp_Return p c =
     bind_outcome (activeClientsRemove p c) (\<lambda>p.
       let p = (if length (ready p) < cp_size p then p\<lparr>ready := ready p @ [c]\<rparr> else p)
       in Ret (if sem p = 0 then None
               else Some (p\<lparr>sem := sem p - 1, lentTo := remove1 c (lentTo p)\<rparr>)))"

subsection \<open>The accept loop\<close>

text \<open>
  A server that accepts connections. \<open>pend\<close> is the connection whose \<open>Borrow\<close> waits (the accept
  loop itself waits there). The events: a connection or an error from \<open>Accept\<close>, a \<open>Borrow\<close> that goes
  on, a session that ended (with the client as \<open>handleClient\<close> left it), and the end of the
  wait for the last session. When \<open>Borrow\<close> refuses it returns a nil \<open>Poolable\<close>, on which the
  type assertion of the goroutine panics. The client ids are unbounded here.
\<close>

datatype serverState = ServerStateNew | ServerStateStopped | ServerStateRunning | ServerStateStartError | Draining

record server =
  clientPool :: cpool
  envelopePool :: epool
  srvState :: serverState
  clientIDs :: nat
  pend :: "(bytes \<times> bytes \<times> nat) option"
  closedListener :: nat

definition newServer :: "nat \<Rightarrow> server" where
  "newServer maxClients = \<lparr>clientPool = NewPool maxClients, envelopePool = NewEnvelopePool maxClients,
     srvState = ServerStateNew, clientIDs = 0, pend = None, closedListener = 0\<rparr>"

definition srv_listen :: "bool \<Rightarrow> server \<Rightarrow> server" where
  "srv_listen ok s = (if ok then s\<lparr>srvState := ServerStateRunning, clientIDs := 0\<rparr> else s\<lparr>srvState := ServerStateStartError\<rparr>)"

datatype srv_event = EvListen bool | EvAccept bool bytes bytes | EvTemporary | EvClosed "nat \<Rightarrow> bool" | EvResume bool
  | EvSessionEnd nat client | EvDrained

definition no_client :: "'a outcome" where
  "no_client = Panic ''interface conversion: interface is nil, not *guerrilla.client''"

text \<open>The result of an event: \<open>Ret None\<close> when it cannot happen in this state.\<close>

fun srv_step :: "srv_event \<Rightarrow> server \<Rightarrow> server option outcome" where
  "srv_step (EvListen ok) s =
     Ret (if srvState s \<in> {ServerStateNew, ServerStateStopped, ServerStateStartError}
          then Some (srv_listen ok s) else None)"
| "srv_step (EvAccept cancel_first addr qid) s =
     (if srvState s \<noteq> ServerStateRunning \<or> pend s \<noteq> None then Ret None
      else (let s = s\<lparr>clientIDs := clientIDs s + 1\<rparr>
            in case cp_Borrow cancel_first (clientPool s) (envelopePool s) addr qid (clientIDs s) of
                 None \<Rightarrow> Ret None
               | Some (Lent c p ep) \<Rightarrow> Ret (Some (s\<lparr>clientPool := p, envelopePool := ep\<rparr>))
               | Some (Waits p) \<Rightarrow> Ret (Some (s\<lparr>clientPool := p, pend := Some (addr, qid, clientIDs s)\<rparr>))
               | Some (Refused p) \<Rightarrow> no_client))"
| "srv_step (EvResume cancel_first) s =
     (case pend s of
        None \<Rightarrow> Ret None
      | Some (addr, qid, clientID) \<Rightarrow>
          (case (borrow_go (clientPool s) (envelopePool s) addr qid clientID, borrow_cancel (clientPool s)) of
             (None, None) \<Rightarrow> Ret None
           | (Some (c, p, ep), None) \<Rightarrow> Ret (Some (s\<lparr>clientPool := p, envelopePool := ep, pend := None\<rparr>))
           | (None, Some p) \<Rightarrow> no_client
           | (Some (c, p, ep), Some p') \<Rightarrow>
               if cancel_first then no_client else Ret (Some (s\<lparr>clientPool := p, envelopePool := ep, pend := None\<rparr>))))"
| "srv_step EvTemporary s =
     Ret (if srvState s \<noteq> ServerStateRunning \<or> pend s \<noteq> None then None else Some (s\<lparr>clientIDs := clientIDs s + 1\<rparr>))"
| "srv_step (EvClosed fails) s =
     Ret (if srvState s \<noteq> ServerStateRunning \<or> pend s \<noteq> None then None
          else map_option (\<lambda>p. s\<lparr>clientPool := p, srvState := Draining, clientIDs := clientIDs s + 1\<rparr>)
                 (ShutdownState fails (clientPool s)))"
| "srv_step EvDrained s =
     Ret (if srvState s \<noteq> Draining then None
          else map_option (\<lambda>p. s\<lparr>clientPool := p, srvState := ServerStateStopped, closedListener := closedListener s + 1\<rparr>)
                 (ShutdownWait (clientPool s)))"
| "srv_step (EvSessionEnd c cl) s =
     (let p = clientPool s
      in if c \<notin> set (lentTo p) \<or> ClientID cl \<noteq> ClientID (heap p ! c) then Ret None
         else case ReturnEnvelope (envelopePool s) (Env cl) of
                None \<Rightarrow> Ret None
              | Some ep \<Rightarrow>
                  bind_outcome (cp_Return (p\<lparr>heap := (heap p)[c := cl]\<rparr>) c) (\<lambda>r.
                    Ret (map_option (\<lambda>p. s\<lparr>clientPool := p, envelopePool := ep\<rparr>) r)))"

inductive srv_reach :: "nat \<Rightarrow> server \<Rightarrow> bool" for maxClients where
  reach_new: "srv_reach maxClients (newServer maxClients)"
| reach_event: "srv_reach maxClients s \<Longrightarrow> srv_step ev s = Ret (Some s') \<Longrightarrow> srv_reach maxClients s'"

subsection \<open>The invariant of the pool\<close>

definition pool_ok :: "cpool \<Rightarrow> bool" where
  "pool_ok p \<longleftrightarrow> sem p = length (lentTo p) \<and> wg p = length (lentTo p) \<and> distinct (ready p @ lentTo p)
     \<and> length (ready p) + length (lentTo p) = length (heap p) \<and> length (heap p) \<le> cp_size p
     \<and> set (ready p @ lentTo p) = {..<length (heap p)}
     \<and> (\<forall>i c. map_of (active p) i = Some c \<longleftrightarrow> c \<in> set (lentTo p) \<and> ClientID (heap p ! c) = i)
     \<and> (shutdownChan p > 0 \<longrightarrow> flag p = Some True)"

definition ids_below :: "nat \<Rightarrow> cpool \<Rightarrow> bool" where
  "ids_below n p \<longleftrightarrow> (\<forall>c \<in> set (lentTo p). ClientID (heap p ! c) \<le> n)"

lemma pool_ok_New: "pool_ok (NewPool n)"
  by (simp add: pool_ok_def NewPool_def)

lemma fold_kill:
  "length (fold (\<lambda>c h. if f c then h[c := kill (h ! c)] else h) cs h) = length h
   \<and> (\<forall>i < length h. ClientID (fold (\<lambda>c h. if f c then h[c := kill (h ! c)] else h) cs h ! i) = ClientID (h ! i))"
proof (induction cs arbitrary: h)
  case (Cons c cs)
  have "ClientID (h[c := kill (h ! c)] ! i) = ClientID (h ! i)" if "i < length h" for i
    using that by (cases "c = i") (simp_all add: kill_def)
  with Cons [of "h[c := kill (h ! c)]"] Cons [of h] show ?case by simp
qed simp

lemma pool_ok_kill:
  assumes "pool_ok p"
  shows "pool_ok (mapAll_kill f p) \<and> ids_below n (mapAll_kill f p) = ids_below n p"
proof -
  let ?h = "fold (\<lambda>c h. if f c then h[c := kill (h ! c)] else h) (map snd (active p)) (heap p)"
  have "ClientID (?h ! c) = ClientID (heap p ! c)" if "c \<in> set (lentTo p)" for c
    using fold_kill [of f "map snd (active p)" "heap p"] assms that by (auto simp: pool_ok_def)
  then show ?thesis using assms fold_kill [of f "map snd (active p)" "heap p"]
    by (auto simp: pool_ok_def ids_below_def mapAll_kill_def)
qed

text \<open>Lending: to an object from the channel or a new one, under an id above all others.\<close>

lemma pool_ok_lend:
  assumes "pool_ok p" and "\<forall>d \<in> set (lentTo p). ClientID (heap p ! d) \<noteq> i"
    and "distinct (r @ c # lentTo p)" and "set (r @ c # lentTo p) = {..<length h}"
    and "length r + Suc (length (lentTo p)) = length h" and "length h \<le> cp_size p"
    and "\<forall>d \<in> set (lentTo p). ClientID (h ! d) = ClientID (heap p ! d)" and "ClientID (h ! c) = i"
    and "p' = activeClientsAdd (p\<lparr>sem := sem p + 1, waiting := False, ready := r, heap := h, lentTo := c # lentTo p\<rparr>) c"
  shows "pool_ok p'"
proof -
  have "map_of (active p') j = Some d \<longleftrightarrow> d \<in> set (lentTo p') \<and> ClientID (heap p' ! d) = j" for j d
  proof (cases "j = i")
    case True
    have "map_of (active p) i = None" using assms(1,2) by (metis not_None_eq pool_ok_def)
    moreover have "d \<in> set (lentTo p) \<Longrightarrow> ClientID (h ! d) \<noteq> i" using assms(2,7) by metis
    ultimately show ?thesis using assms(8,9) True by (auto simp: activeClientsAdd_def update_conv')
  next
    case False
    have "map_of (active p) j = Some d \<longleftrightarrow> d \<in> set (lentTo p) \<and> ClientID (heap p ! d) = j" using assms(1) by (simp add: pool_ok_def)
    then show ?thesis using assms(7,8,9) False by (auto simp: activeClientsAdd_def update_conv')
  qed
  then show ?thesis using assms(1,3-6,9) by (simp add: pool_ok_def activeClientsAdd_def)
qed

lemma pool_ok_go:
  assumes "pool_ok p" and "ids_below n p" and "n < i" and "borrow_go p ep a q i = Some (c, p', ep')"
  shows "pool_ok p' \<and> ids_below i p' \<and> cp_size p' = cp_size p \<and> flag p' = flag p \<and> shutdownChan p' = shutdownChan p
    \<and> \<not> waiting p' \<and> lentTo p' = c # lentTo p"
proof -
  obtain e where e: "BorrowEnvelope ep a q = Some (e, ep')" and room: "sem p < cp_size p"
    using assms(4) by (auto simp: borrow_go_def Let_def split: if_splits option.splits list.splits)
  have fresh: "\<forall>d \<in> set (lentTo p). ClientID (heap p ! d) \<noteq> i" using assms(2,3) by (auto simp: ids_below_def)
  define h where "h = (case ready p of [] \<Rightarrow> heap p @ [NewClient e i] | d # ds \<Rightarrow> (heap p)[d := init_client (heap p ! d) e i])"
  define r where "r = (case ready p of [] \<Rightarrow> [] | d # ds \<Rightarrow> ds)"
  have p': "p' = activeClientsAdd (p\<lparr>sem := sem p + 1, waiting := False, ready := r, heap := h, lentTo := c # lentTo p\<rparr>) c"
    and c: "c = (case ready p of [] \<Rightarrow> length (heap p) | d # ds \<Rightarrow> d)"
    using assms(4) e room unfolding borrow_go_def h_def r_def Let_def
    by (auto split: list.splits intro!: arg_cong2 [where f = activeClientsAdd] cpool.equality)
  have keep: "\<forall>d \<in> set (lentTo p). ClientID (h ! d) = ClientID (heap p ! d)" and new: "ClientID (h ! c) = i"
  proof -
    have lent: "d < length (heap p)" "d \<notin> set (ready p)" if "d \<in> set (lentTo p)" for d
      using assms(1) that by (auto simp: pool_ok_def)
    have rdy: "d < length (heap p)" if "d \<in> set (ready p)" for d using assms(1) that by (auto simp: pool_ok_def)
    show "ClientID (h ! c) = i" using c rdy by (cases "ready p") (simp_all add: h_def NewClient_def init_client_def)
    show "\<forall>d \<in> set (lentTo p). ClientID (h ! d) = ClientID (heap p ! d)"
      using lent by (cases "ready p") (auto simp: h_def nth_append, metis nth_list_update_neq)
  qed
  have "pool_ok p'"
  proof (rule pool_ok_lend [OF assms(1) fresh _ _ _ _ keep new p'])
    show "distinct (r @ c # lentTo p)" "set (r @ c # lentTo p) = {..<length h}"
      "length r + Suc (length (lentTo p)) = length h" "length h \<le> cp_size p"
      using assms(1) c room by (auto simp: r_def h_def pool_ok_def split: list.splits)
  qed
  moreover have "ids_below i p'" using assms(2,3) keep new p' by (auto simp: ids_below_def activeClientsAdd_def)
  ultimately show ?thesis using p' by (simp add: activeClientsAdd_def)
qed

lemma pool_ok_Return:
  assumes "pool_ok p" and "c \<in> set (lentTo p)" and "ClientID cl = ClientID (heap p ! c)" and "ids_below n p"
  shows "\<exists>p'. cp_Return (p\<lparr>heap := (heap p)[c := cl]\<rparr>) c = Ret (Some p') \<and> pool_ok p' \<and> ids_below n p'
    \<and> cp_size p' = cp_size p \<and> flag p' = flag p \<and> shutdownChan p' = shutdownChan p \<and> waiting p' = waiting p
    \<and> lentTo p' = remove1 c (lentTo p)"
proof -
  let ?h = "(heap p)[c := cl]"
  have c: "c < length (heap p)" using assms(1,2) by (auto simp: pool_ok_def)
  have pos: "0 < wg p" "0 < sem p" using assms(1,2) by (auto simp: pool_ok_def)
  have room: "length (ready p) < cp_size p"
    using assms(1,2) by (cases "lentTo p") (auto simp: pool_ok_def)
  have ids: "ClientID (?h ! d) = ClientID (heap p ! d)" for d using assms(3) c by (cases "d = c") auto
  define p' where "p' = p\<lparr>heap := ?h, active := AList.delete (ClientID cl) (active p), wg := wg p - 1,
    ready := ready p @ [c], sem := sem p - 1, lentTo := remove1 c (lentTo p)\<rparr>"
  have ret: "cp_Return (p\<lparr>heap := ?h\<rparr>) c = Ret (Some p')"
    using c pos room assms(3) by (simp add: cp_Return_def activeClientsRemove_def Let_def p'_def)
  have inj: "d \<in> set (lentTo p) \<Longrightarrow> ClientID (heap p ! d) = ClientID (heap p ! c) \<Longrightarrow> d = c" for d
    using assms(1,2) unfolding pool_ok_def by (metis option.inject)
  have d: "distinct (lentTo p)" using assms(1) by (simp add: pool_ok_def)
  have "map_of (active p') j = Some d \<longleftrightarrow> d \<in> set (lentTo p') \<and> ClientID (heap p' ! d) = j" for j d
  proof -
    have m: "map_of (active p) j = Some d \<longleftrightarrow> d \<in> set (lentTo p) \<and> ClientID (heap p ! d) = j"
      using assms(1) by (simp add: pool_ok_def)
    show ?thesis
      using m inj [of d] assms(3) d by (auto simp: p'_def ids delete_conv' set_remove1_eq)
  qed
  moreover have "set (ready p @ lentTo p) = set (ready p' @ lentTo p')" using assms(2) d by (auto simp: p'_def set_remove1_eq)
  moreover obtain k where "length (lentTo p) = Suc k" using assms(2) by (cases "lentTo p") auto
  ultimately have "pool_ok p'" using assms(1,2) d
    by (simp add: pool_ok_def p'_def length_remove1) (auto simp: set_remove1_eq)
  moreover have "ids_below n p'" using assms(4) d by (auto simp: ids_below_def p'_def ids set_remove1_eq)
  ultimately show ?thesis using ret by (auto simp: p'_def)
qed

lemma pool_ok_frame:
  "pool_ok p \<Longrightarrow> pool_ok (p\<lparr>waiting := w\<rparr>)" "ids_below n (p\<lparr>waiting := w\<rparr>) = ids_below n p"
  by (simp_all add: pool_ok_def ids_below_def)

lemma envelope_pool_ops:
  "BorrowEnvelope ep a q = Some (e, ep') \<Longrightarrow> ep_size ep' = ep_size ep \<and> ep_sem ep' = ep_sem ep + 1"
  "ReturnEnvelope ep e = Some ep' \<Longrightarrow> ep_size ep' = ep_size ep \<and> ep_sem ep' = ep_sem ep - 1"
  by (auto simp: BorrowEnvelope_def ReturnEnvelope_def Let_def split: if_splits list.splits)

lemma borrow_go_envelope: "borrow_go p ep a q i = Some (c, p', ep') \<Longrightarrow> ep_size ep' = ep_size ep \<and> ep_sem ep' = ep_sem ep + 1"
  by (auto simp: borrow_go_def Let_def split: if_splits option.splits prod.splits dest: envelope_pool_ops(1))

subsection \<open>The invariant of the server\<close>

definition idle_state :: "serverState \<Rightarrow> bool" where
  "idle_state st \<longleftrightarrow> st \<in> {ServerStateNew, ServerStateStopped, ServerStateStartError}"

definition srv_ok :: "nat \<Rightarrow> server \<Rightarrow> bool" where
  "srv_ok m s \<longleftrightarrow> pool_ok (clientPool s) \<and> cp_size (clientPool s) = m \<and> ep_size (envelopePool s) = m
     \<and> ep_sem (envelopePool s) = sem (clientPool s)
     \<and> (case pend s of None \<Rightarrow> ids_below (clientIDs s) (clientPool s)
        | Some (a, q, i) \<Rightarrow> i = clientIDs s \<and> 0 < i \<and> ids_below (i - 1) (clientPool s) \<and> srvState s = ServerStateRunning)
     \<and> waiting (clientPool s) = (pend s \<noteq> None)
     \<and> (idle_state (srvState s) \<longrightarrow> lentTo (clientPool s) = [])
     \<and> (if srvState s = Draining then shutdownChan (clientPool s) = 1
        else shutdownChan (clientPool s) = 0 \<and> flag (clientPool s) \<noteq> Some True)"

lemma srv_ok_new: "srv_ok m (newServer m)"
  using pool_ok_New [of m]
  by (simp add: srv_ok_def newServer_def NewPool_def NewEnvelopePool_def ids_below_def idle_state_def)

lemma ids_below_mono: "ids_below n p \<Longrightarrow> n \<le> k \<Longrightarrow> ids_below k p"
  by (auto simp: ids_below_def)

lemma srv_ok_go:
  assumes "pool_ok p" and "ids_below n p" and "n < i" and "borrow_go p ep a q i = Some (c, p', ep')"
    and "srv_ok m s" and "cp_size p = m" and "ep = envelopePool s" and "sem p = sem (clientPool s)"
    and "srvState s = ServerStateRunning" and "clientIDs s = i \<or> clientIDs s + 1 = i"
    and "flag p = flag (clientPool s)" and "shutdownChan p = shutdownChan (clientPool s)"
  shows "srv_ok m (s\<lparr>clientIDs := i, clientPool := p', envelopePool := ep', pend := None\<rparr>)"
proof -
  have "sem p' = sem p + 1" using pool_ok_go [OF assms(1-4)] assms(1) by (simp add: pool_ok_def)
  then show ?thesis using pool_ok_go [OF assms(1-4)] borrow_go_envelope [OF assms(4)] assms(5-)
    by (simp add: srv_ok_def idle_state_def)
qed

lemma borrow_cancel_None: "srv_ok m s \<Longrightarrow> srvState s = ServerStateRunning \<Longrightarrow> borrow_cancel (clientPool s) = None"
  by (simp add: srv_ok_def borrow_cancel_def)

lemma step_okI:
  "x = Ret (Some s') \<Longrightarrow> P s' \<Longrightarrow> \<exists>r. x = Ret r \<and> (\<forall>s'. r = Some s' \<longrightarrow> P s')"
  "x = Ret None \<Longrightarrow> \<exists>r. x = Ret r \<and> (\<forall>s'. r = Some s' \<longrightarrow> P s')"
  by simp_all

lemma srv_step_accept:
  assumes "srv_ok m s"
  shows "\<exists>r. srv_step (EvAccept b a q) s = Ret r \<and> (\<forall>s'. r = Some s' \<longrightarrow> srv_ok m s')"
proof (cases "srvState s = ServerStateRunning \<and> pend s = None")
  case True
  let ?p = "clientPool s" and ?i = "clientIDs s + 1"
  have ok: "pool_ok ?p" "ids_below (clientIDs s) ?p" "\<not> waiting ?p" "flag ?p \<noteq> Some True" "cp_size ?p = m"
    using assms True by (auto simp: srv_ok_def)
  show ?thesis
  proof (cases "borrow_go ?p (envelopePool s) a q ?i")
    case None
    then have "srv_step (EvAccept b a q) s
        = Ret (Some (s\<lparr>clientIDs := ?i, clientPool := ?p\<lparr>waiting := True\<rparr>, pend := Some (a, q, ?i)\<rparr>))"
      using True ok borrow_cancel_None [OF assms] by (simp add: Let_def cp_Borrow_def)
    then show ?thesis using assms True by (simp add: srv_ok_def pool_ok_frame)
  next
    case (Some x)
    then obtain c p' ep' where x: "borrow_go ?p (envelopePool s) a q ?i = Some (c, p', ep')" by (cases x) auto
    have "srv_step (EvAccept b a q) s = Ret (Some (s\<lparr>clientIDs := ?i, clientPool := p', envelopePool := ep'\<rparr>))"
      using True ok x borrow_cancel_None [OF assms] by (simp add: Let_def cp_Borrow_def)
    moreover have "s\<lparr>clientIDs := ?i, clientPool := p', envelopePool := ep'\<rparr>
        = s\<lparr>clientIDs := ?i, clientPool := p', envelopePool := ep', pend := None\<rparr>" using True by (intro server.equality) auto
    ultimately have "srv_step (EvAccept b a q) s
        = Ret (Some (s\<lparr>clientIDs := ?i, clientPool := p', envelopePool := ep', pend := None\<rparr>))" by metis
    then show ?thesis by (rule step_okI) (rule srv_ok_go [OF ok(1,2) _ x assms ok(5)], use True in simp_all)
  qed
qed auto

lemma srv_step_resume:
  assumes "srv_ok m s"
  shows "\<exists>r. srv_step (EvResume b) s = Ret r \<and> (\<forall>s'. r = Some s' \<longrightarrow> srv_ok m s')"
proof (cases "pend s")
  case (Some x)
  obtain a q i where x: "pend s = Some (a, q, i)" using Some by (cases x) auto
  let ?p = "clientPool s"
  have ok: "pool_ok ?p" "ids_below (i - 1) ?p" "i = clientIDs s" "0 < i" "cp_size ?p = m" and run: "srvState s = ServerStateRunning"
    using assms x by (auto simp: srv_ok_def)
  show ?thesis
  proof (cases "borrow_go ?p (envelopePool s) a q i")
    case None
    then show ?thesis using x borrow_cancel_None [OF assms run] by simp
  next
    case (Some y)
    then obtain c p' ep' where y: "borrow_go ?p (envelopePool s) a q i = Some (c, p', ep')" by (cases y) auto
    have "srv_step (EvResume b) s = Ret (Some (s\<lparr>clientPool := p', envelopePool := ep', pend := None\<rparr>))"
      using x y borrow_cancel_None [OF assms run] by simp
    moreover have "s\<lparr>clientPool := p', envelopePool := ep', pend := None\<rparr>
        = s\<lparr>clientIDs := i, clientPool := p', envelopePool := ep', pend := None\<rparr>" using ok by (intro server.equality) auto
    ultimately have "srv_step (EvResume b) s
        = Ret (Some (s\<lparr>clientIDs := i, clientPool := p', envelopePool := ep', pend := None\<rparr>))" by metis
    then show ?thesis by (rule step_okI) (rule srv_ok_go [OF ok(1,2) _ y assms ok(5)], use ok run in simp_all)
  qed
qed simp

lemma srv_step_end:
  assumes "srv_ok m s"
  shows "\<exists>r. srv_step (EvSessionEnd c cl) s = Ret r \<and> (\<forall>s'. r = Some s' \<longrightarrow> srv_ok m s')"
proof (cases "c \<in> set (lentTo (clientPool s)) \<and> ClientID cl = ClientID (heap (clientPool s) ! c)")
  case True
  let ?p = "clientPool s"
  define n where "n = (case pend s of None \<Rightarrow> clientIDs s | Some (a, q, i) \<Rightarrow> i - 1)"
  have ok: "pool_ok ?p" "ids_below n ?p" using assms by (auto simp: srv_ok_def n_def split: option.splits)
  obtain p' where r: "cp_Return (?p\<lparr>heap := (heap ?p)[c := cl]\<rparr>) c = Ret (Some p')" and p': "pool_ok p'" "ids_below n p'"
    "cp_size p' = cp_size ?p" "flag p' = flag ?p" "shutdownChan p' = shutdownChan ?p" "waiting p' = waiting ?p"
    "lentTo p' = remove1 c (lentTo ?p)"
    using pool_ok_Return [OF ok(1) _ _ ok(2)] True by blast
  have "sem p' = sem ?p - 1" using p' ok True by (simp add: pool_ok_def length_remove1)
  moreover have "\<not> idle_state (srvState s)" using assms True by (auto simp: srv_ok_def)
  ultimately have ok': "srv_ok m (s\<lparr>clientPool := p', envelopePool := ep\<rparr>)"
    if "ReturnEnvelope (envelopePool s) (Env cl) = Some ep" for ep
    using p' assms envelope_pool_ops(2) [OF that] by (simp add: srv_ok_def n_def split: option.splits prod.splits)
  show ?thesis
  proof (cases "ReturnEnvelope (envelopePool s) (Env cl)")
    case None
    then show ?thesis using True by (simp add: Let_def)
  next
    case (Some ep)
    then have "srv_step (EvSessionEnd c cl) s = Ret (Some (s\<lparr>clientPool := p', envelopePool := ep\<rparr>))"
      using True r by (simp add: Let_def)
    then show ?thesis by (rule step_okI) (rule ok' [OF Some])
  qed
qed (auto simp: Let_def)

lemma srv_step_ok:
  assumes "srv_ok m s"
  shows "\<exists>r. srv_step ev s = Ret r \<and> (\<forall>s'. r = Some s' \<longrightarrow> srv_ok m s')"
proof (cases ev)
  case (EvListen ok)
  then show ?thesis using assms by (auto simp: srv_listen_def srv_ok_def idle_state_def ids_below_def split: option.splits)
next
  case EvTemporary
  then show ?thesis using assms by (cases "pend s") (auto simp: srv_ok_def intro: ids_below_mono)
next
  case (EvClosed f)
  show ?thesis
  proof (cases "srvState s = ServerStateRunning \<and> pend s = None")
    case True
    let ?p = "(clientPool s)\<lparr>flag := Some True, shutdownChan := 1\<rparr>"
    have "pool_ok ?p" "ids_below (clientIDs s + 1) ?p"
      using assms True by (auto simp: srv_ok_def pool_ok_def ids_below_def)
    then have k: "pool_ok (mapAll_kill f ?p)" "ids_below (clientIDs s + 1) (mapAll_kill f ?p)" using pool_ok_kill by blast+
    have "srv_step ev s = Ret (Some (s\<lparr>clientPool := mapAll_kill f ?p, srvState := Draining, clientIDs := clientIDs s + 1\<rparr>))"
      using assms True EvClosed by (simp add: ShutdownState_def srv_ok_def Let_def)
    then show ?thesis
      by (rule step_okI) (use assms True k in \<open>simp add: srv_ok_def mapAll_kill_def idle_state_def\<close>)
  qed (auto simp: EvClosed)
next
  case EvDrained
  then show ?thesis using assms
    by (auto simp: srv_ok_def ShutdownWait_def Let_def idle_state_def pool_ok_def ids_below_def split: option.splits)
qed (use assms srv_step_accept srv_step_resume srv_step_end in blast)+

lemma srv_reach_ok: "srv_reach m s \<Longrightarrow> srv_ok m s"
proof (induction rule: srv_reach.induct)
  case (reach_event s ev s')
  then show ?case using srv_step_ok [of m s ev] by auto
qed (rule srv_ok_new)

fun srv_run :: "srv_event list \<Rightarrow> server \<Rightarrow> server option" where
  "srv_run [] s = Some s"
| "srv_run (ev # evs) s = (case srv_step ev s of Ret (Some s') \<Rightarrow> srv_run evs s' | _ \<Rightarrow> None)"

lemma srv_run_reach: "srv_run evs s = Some s' \<Longrightarrow> srv_reach m s \<Longrightarrow> srv_reach m s'"
  by (induction evs arbitrary: s) (auto split: outcome.splits option.splits intro: reach_event)

subsection \<open>Properties\<close>

text \<open>
  C20: In every state of a server with \<open>MaxClients\<close> \<open>m\<close>, by any sequence of connections, ends of
  sessions, accept errors, shutdowns and restarts: at most \<open>m\<close> sessions are open and at most
  \<open>m\<close> client objects exist; no object serves two sessions or waits in the pool while it serves one;
  each session is registered under its own connection id; and the next event does not panic (so
  the accept loop never meets a refused \<open>Borrow\<close>).
\<close>

theorem server_sessions:
  assumes "srv_reach m s"
  shows "GetActiveClientsCount (clientPool s) = length (lentTo (clientPool s)) \<and> length (lentTo (clientPool s)) \<le> m
     \<and> length (heap (clientPool s)) \<le> m \<and> distinct (lentTo (clientPool s) @ ready (clientPool s))
     \<and> (\<forall>c \<in> set (lentTo (clientPool s)). map_of (active (clientPool s)) (ClientID (heap (clientPool s) ! c)) = Some c)
     \<and> \<not> panics (srv_step ev s)"
proof -
  have ok: "srv_ok m s" by (rule srv_reach_ok [OF assms])
  then have "pool_ok (clientPool s)" and "cp_size (clientPool s) = m" by (simp_all add: srv_ok_def)
  moreover have "\<not> panics (srv_step ev s)" using srv_step_ok [OF ok, of ev] by auto
  ultimately show ?thesis by (auto simp: pool_ok_def GetActiveClientsCount_def)
qed

text \<open>
  A shutdown cannot release a connection that waits for a free client: while a \<open>Borrow\<close> waits,
  the shutdown channel is empty and neither \<open>ShutdownState\<close> nor \<open>ShutdownWait\<close> can run. A
  server that drains its sessions reaches the stopped state as soon as the last one ends.
\<close>

theorem waiting_borrow:
  assumes "srv_reach m s"
  shows "(pend s \<noteq> None \<longrightarrow> borrow_cancel (clientPool s) = None \<and> ShutdownState f (clientPool s) = None
       \<and> ShutdownWait (clientPool s) = None)
     \<and> (srvState s = Draining \<and> lentTo (clientPool s) = [] \<longrightarrow>
         (\<exists>s'. srv_step EvDrained s = Ret (Some s') \<and> srvState s' = ServerStateStopped \<and> \<not> IsShuttingDown (clientPool s')))"
  using srv_reach_ok [OF assms]
  by (auto simp: srv_ok_def borrow_cancel_def ShutdownState_def ShutdownWait_def pool_ok_def IsShuttingDown_def Let_def
      split: option.splits)

definition demo_server :: server where
  "demo_server = the (srv_run [EvListen True, EvAccept False ''::1'' ''a'', EvAccept False ''::2'' ''b''] (newServer 1))"

lemma demo_server_run:
  "srv_run [EvListen True, EvAccept False ''::1'' ''a'', EvAccept False ''::2'' ''b''] (newServer 1) = Some demo_server
   \<and> pend demo_server = Some (''::2'', ''b'', 2) \<and> lentTo (clientPool demo_server) = [0]"
  by (simp add: demo_server_def newServer_def NewPool_def NewEnvelopePool_def srv_listen_def Let_def cp_Borrow_def borrow_go_def
      borrow_cancel_def BorrowEnvelope_def activeClientsAdd_def)

lemma demo_server_reach: "srv_reach 1 demo_server"
  by (rule srv_run_reach [OF conjunct1 [OF demo_server_run] reach_new])

theorem server_sessions_witness:
  "length (lentTo (clientPool demo_server)) = 1 \<and> \<not> panics (srv_step EvTemporary demo_server)"
  using server_sessions [OF demo_server_reach, of EvTemporary] conjunct2 [OF demo_server_run] by simp

theorem waiting_borrow_witness: "ShutdownState (\<lambda>_. False) (clientPool demo_server) = None"
  using waiting_borrow [OF demo_server_reach] conjunct2 [OF demo_server_run] by simp

end
