(* ===== verification/Logs.thy ===== *)
theory Logs
  imports Prelude "HOL-Library.AList"
begin

section \<open>Loggers (log/log.go, log/hook.go)\<close>

text \<open>
  The factory of loggers with its cache, and the hook that writes to a file and can reopen it.
  Loggers are pointers into \<open>l_objs\<close>. The file system and logrus' \<open>ParseLevel\<close> (the level's name or
  an error) are the record \<open>logfs\<close>; an operation on a file gives \<open>Some\<close> error or \<open>None\<close>. What is
  written to the output is not modelled.
\<close>

record logfs =
  fs_Level :: "bytes \<Rightarrow> bytes + bytes"
  fs_Exists :: "bytes \<Rightarrow> bool"
  fs_Append :: "bytes \<Rightarrow> bytes option"
  fs_Create :: "bytes \<Rightarrow> bytes option"
  fs_Close :: "bytes \<Rightarrow> bytes option"

datatype outputOption = OutputStderr | OutputStdout | OutputOff | OutputNull | OutputFile

fun outputOption_String :: "outputOption \<Rightarrow> bytes" where
  "outputOption_String OutputStderr = ''stderr''"
| "outputOption_String OutputStdout = ''stdout''"
| "outputOption_String OutputOff = ''off''"
| "outputOption_String OutputNull = ''''"
| "outputOption_String OutputFile = ''file''"

definition parseOutputOption :: "bytes \<Rightarrow> outputOption" where
  "parseOutputOption str =
     (if str = ''stderr'' then OutputStderr
      else if str = ''stdout'' then OutputStdout
      else if str = ''off'' then OutputOff
      else if str = [] then OutputNull
      else OutputFile)"

text \<open>Where the output goes. A writer to a file is the open descriptor as well.\<close>

datatype writer = ToStderr | ToStdout | Discard | ToFile bytes

record logrusHook =
  hk_w :: "writer option"
  hk_fd :: "bytes option"
  hk_fname :: bytes
  hk_plain :: bool

definition openAppend :: "logfs \<Rightarrow> bytes \<Rightarrow> logrusHook \<Rightarrow> bytes option \<times> logrusHook" where
  "openAppend F dest h =
     (case fs_Append F dest of
        Some err \<Rightarrow> (Some err, h\<lparr>hk_w := Some ToStderr, hk_fd := None\<rparr>)
      | None \<Rightarrow> (None, h\<lparr>hk_w := Some (ToFile dest), hk_fd := Some dest\<rparr>))"

definition openCreate :: "logfs \<Rightarrow> bytes \<Rightarrow> logrusHook \<Rightarrow> bytes option \<times> logrusHook" where
  "openCreate F dest h =
     (case fs_Create F dest of
        Some err \<Rightarrow> (Some err, h\<lparr>hk_w := Some ToStderr, hk_fd := None\<rparr>)
      | None \<Rightarrow> (None, h\<lparr>hk_w := Some (ToFile dest), hk_fd := Some dest\<rparr>))"

definition open_log :: "logfs \<Rightarrow> bytes \<Rightarrow> logrusHook \<Rightarrow> bytes option \<times> logrusHook" where
  "open_log F dest h = (if fs_Exists F dest then openAppend F dest h else openCreate F dest h)"

definition hook_setup :: "logfs \<Rightarrow> bytes \<Rightarrow> logrusHook \<Rightarrow> bytes option \<times> logrusHook" where
  "hook_setup F dest h =
     (let (err, h) = (case parseOutputOption dest of
            OutputNull \<Rightarrow> (None, h\<lparr>hk_w := Some ToStderr\<rparr>)
          | OutputStderr \<Rightarrow> (None, h\<lparr>hk_w := Some ToStderr\<rparr>)
          | OutputStdout \<Rightarrow> (None, h\<lparr>hk_w := Some ToStdout\<rparr>)
          | OutputOff \<Rightarrow> (None, h\<lparr>hk_w := Some Discard\<rparr>)
          | OutputFile \<Rightarrow> open_log F dest h)
      in if err \<noteq> None then (err, h) else (None, if hk_fd h \<noteq> None then h\<lparr>hk_plain := True\<rparr> else h))"

definition NewLogrusHook :: "logfs \<Rightarrow> bytes \<Rightarrow> bytes option \<times> logrusHook" where
  "NewLogrusHook F dest = hook_setup F dest \<lparr>hk_w = None, hk_fd = None, hk_fname = dest, hk_plain = False\<rparr>"

definition hook_Reopen :: "logfs \<Rightarrow> logrusHook \<Rightarrow> bytes option \<times> logrusHook" where
  "hook_Reopen F h =
     (case hk_fd h of
        None \<Rightarrow> (None, h)
      | Some fd \<Rightarrow> (case fs_Close F fd of Some err \<Rightarrow> (Some err, h) | None \<Rightarrow> open_log F (hk_fname h) h))"

record logger =
  lg_dest :: bytes
  lg_level :: bytes
  lg_out :: writer
  lg_hook :: "logrusHook option"

record logs =
  l_cache :: "((bytes \<times> bytes) \<times> nat) list"
  l_objs :: "logger list"
  l_std :: "bytes option"

text \<open>\<open>l_std\<close> is the level of logrus' own standard logger, \<open>None\<close> until it is set.\<close>

definition newLogrus :: "logfs \<Rightarrow> outputOption \<Rightarrow> bytes \<Rightarrow> bytes + bytes \<times> writer" where
  "newLogrus F out level =
     map_sum id (\<lambda>lv. (lv, case out of OutputNull \<Rightarrow> ToStderr | OutputStderr \<Rightarrow> ToStderr | OutputStdout \<Rightarrow> ToStdout
        | OutputOff \<Rightarrow> Discard | OutputFile \<Rightarrow> Discard)) (fs_Level F level)"

definition GetLogger :: "logfs \<Rightarrow> bytes \<Rightarrow> bytes \<Rightarrow> logs \<Rightarrow> (nat option \<times> bytes option) \<times> logs" where
  "GetLogger F dest level L =
     (case map_of (l_cache L) (dest, level) of
        Some l \<Rightarrow> ((Some l, None), L)
      | None \<Rightarrow>
          (let out = parseOutputOption dest
           in case newLogrus F out level of
                Inl err \<Rightarrow> ((None, Some err), L)
              | Inr (lv, w) \<Rightarrow>
                  (let l = length (l_objs L); c = AList.update (dest, level) l (l_cache L);
                       g = \<lparr>lg_dest = dest, lg_level = lv, lg_out = w, lg_hook = None\<rparr>
                   in if out \<noteq> OutputFile then ((Some l, None), L\<lparr>l_cache := c, l_objs := l_objs L @ [g]\<rparr>)
                      else (case NewLogrusHook F dest of
                              (Some err, h) \<Rightarrow> ((Some l, Some err),
                                 L\<lparr>l_cache := c, l_objs := l_objs L @ [g\<lparr>lg_out := ToStderr\<rparr>]\<rparr>)
                            | (None, h) \<Rightarrow> ((Some l, None),
                                 L\<lparr>l_cache := c, l_objs := l_objs L @ [g\<lparr>lg_out := Discard, lg_hook := Some h\<rparr>]\<rparr>)))))"

definition GetLevel :: "logs \<Rightarrow> nat \<Rightarrow> bytes" where
  "GetLevel L l = lg_level (l_objs L ! l)"

definition IsDebug :: "logs \<Rightarrow> nat \<Rightarrow> bool" where
  "IsDebug L l \<longleftrightarrow> GetLevel L l = ''debug''"

definition GetLogDest :: "logs \<Rightarrow> nat \<Rightarrow> bytes" where
  "GetLogDest L l = lg_dest (l_objs L ! l)"

definition SetLevel :: "logfs \<Rightarrow> bytes \<Rightarrow> logs \<Rightarrow> nat \<Rightarrow> logs" where
  "SetLevel F level L l = (case fs_Level F level of Inl err \<Rightarrow> L | Inr lv \<Rightarrow> L\<lparr>l_std := Some lv\<rparr>)"

definition log_Reopen :: "logfs \<Rightarrow> logs \<Rightarrow> nat \<Rightarrow> bytes option \<times> logs" where
  "log_Reopen F L l =
     (case lg_hook (l_objs L ! l) of
        None \<Rightarrow> (None, L)
      | Some h \<Rightarrow> (case hook_Reopen F h of (err, h) \<Rightarrow>
          (err, L\<lparr>l_objs := (l_objs L)[l := (l_objs L ! l)\<lparr>lg_hook := Some h\<rparr>]\<rparr>)))"

subsection \<open>Invariant\<close>

text \<open>
  The cache maps each key to its own logger with the key's destination; the output of a logger is
  its destination, or standard error when the file could not be opened.
\<close>

definition hook_ok :: "logrusHook \<Rightarrow> bool" where
  "hook_ok h \<longleftrightarrow> parseOutputOption (hk_fname h) = OutputFile
     \<and> (hk_fd h = Some (hk_fname h) \<and> hk_w h = Some (ToFile (hk_fname h)) \<or> hk_fd h = None \<and> hk_w h = Some ToStderr)"

definition logger_ok :: "logger \<Rightarrow> bool" where
  "logger_ok g \<longleftrightarrow> (case lg_hook g of
       Some h \<Rightarrow> hook_ok h \<and> hk_fname h = lg_dest g \<and> lg_out g = Discard
     | None \<Rightarrow> lg_out g = (case parseOutputOption (lg_dest g) of OutputStdout \<Rightarrow> ToStdout | OutputOff \<Rightarrow> Discard | _ \<Rightarrow> ToStderr))"

definition logs_ok :: "logs \<Rightarrow> bool" where
  "logs_ok L \<longleftrightarrow> distinct (map fst (l_cache L)) \<and> distinct (map snd (l_cache L)) \<and> length (l_cache L) = length (l_objs L)
     \<and> (\<forall>((dest, level), l) \<in> set (l_cache L). l < length (l_objs L) \<and> lg_dest (l_objs L ! l) = dest)
     \<and> list_all logger_ok (l_objs L)"

lemma open_log_cases:
  "open_log F d h = (err, h') \<Longrightarrow>
     h' = (if err = None then h\<lparr>hk_w := Some (ToFile d), hk_fd := Some d\<rparr> else h\<lparr>hk_w := Some ToStderr, hk_fd := None\<rparr>)"
  by (auto simp: open_log_def openAppend_def openCreate_def split: if_splits option.splits)

lemma hook_ok_New:
  "NewLogrusHook F d = (None, h) \<Longrightarrow> parseOutputOption d = OutputFile \<Longrightarrow> hook_ok h \<and> hk_fname h = d"
  by (auto simp: NewLogrusHook_def hook_setup_def hook_ok_def Let_def split: prod.splits if_splits dest!: open_log_cases)

lemma hook_ok_Reopen: "hook_Reopen F h = (err, h') \<Longrightarrow> hook_ok h \<Longrightarrow> hook_ok h' \<and> hk_fname h' = hk_fname h"
  by (auto simp: hook_Reopen_def hook_ok_def split: option.splits if_splits dest!: open_log_cases)

lemma update_append: "k \<notin> fst ` set al \<Longrightarrow> AList.update k v al = al @ [(k, v)]"
  by (induction al) auto

lemma logs_ok_add:
  assumes "logs_ok L" and "map_of (l_cache L) (lg_dest g, lv) = None" and "logger_ok g"
  shows "logs_ok (L\<lparr>l_cache := AList.update (lg_dest g, lv) (length (l_objs L)) (l_cache L), l_objs := l_objs L @ [g]\<rparr>)"
proof -
  let ?k = "(lg_dest g, lv)"
  have u: "AList.update ?k v (l_cache L) = l_cache L @ [(?k, v)]" for v
    using assms(2) by (simp add: update_append map_of_eq_None_iff)
  have fresh: "length (l_objs L) \<notin> snd ` set (l_cache L)"
    using assms(1) by (fastforce simp: logs_ok_def)
  have "distinct (map fst (AList.update ?k (length (l_objs L)) (l_cache L)))"
    using assms(1) by (simp add: logs_ok_def distinct_update)
  then show ?thesis using assms fresh by (auto simp: logs_ok_def u nth_append)
qed

lemma GetLogger_cases:
  assumes "GetLogger F dest level L = ((r, err), L')"
  obtains (cached) l where "map_of (l_cache L) (dest, level) = Some l" "r = Some l" "err = None" "L' = L"
  | (level) "map_of (l_cache L) (dest, level) = None" "r = None" "err \<noteq> None" "L' = L"
  | (new) g where "map_of (l_cache L) (dest, level) = None" "r = Some (length (l_objs L))" "lg_dest g = dest"
      "L' = L\<lparr>l_cache := AList.update (dest, level) (length (l_objs L)) (l_cache L), l_objs := l_objs L @ [g]\<rparr>"
      "logger_ok g" "fs_Level F level = Inr (lg_level g)" "err = None \<longrightarrow> parseOutputOption dest = OutputFile \<longrightarrow> lg_hook g \<noteq> None"
      "err \<noteq> None \<longrightarrow> lg_out g = ToStderr \<and> lg_hook g = None"
proof (cases "map_of (l_cache L) (dest, level)")
  case (Some l)
  with assms have "r = Some l \<and> err = None \<and> L' = L" by (auto simp: GetLogger_def)
  with Some cached show ?thesis by blast
next
  case None
  show ?thesis
  proof (cases "fs_Level F level")
    case (Inl e)
    with None assms have "r = None \<and> err \<noteq> None \<and> L' = L" by (auto simp: GetLogger_def newLogrus_def)
    with None level show ?thesis by blast
  next
    case (Inr lv)
    obtain e h where h: "NewLogrusHook F dest = (e, h)" by fastforce
    show ?thesis
    proof (cases "parseOutputOption dest = OutputFile")
      case False
      then show ?thesis using None assms Inr
        by (intro new [OF None, of "last (l_objs L')"]) (auto simp: GetLogger_def newLogrus_def Let_def logger_ok_def split: outputOption.splits)
    next
      case True
      with None assms Inr h hook_ok_New [of F dest h] show ?thesis
        by (cases e; intro new [OF None, of "last (l_objs L')"]) (auto simp: GetLogger_def newLogrus_def Let_def logger_ok_def)
    qed
  qed
qed

lemma logs_ok_GetLogger: "GetLogger F dest level L = ((r, err), L') \<Longrightarrow> logs_ok L \<Longrightarrow> logs_ok L'"
  by (erule GetLogger_cases) (auto intro: logs_ok_add)

lemma logs_ok_Reopen:
  assumes "log_Reopen F L l = (err, L')" and "logs_ok L" and "l < length (l_objs L)"
  shows "logs_ok L'"
proof (cases "lg_hook (l_objs L ! l)")
  case (Some h)
  obtain h' where h': "hook_Reopen F h = (err, h')" and L': "L' = L\<lparr>l_objs := (l_objs L)[l := (l_objs L ! l)\<lparr>lg_hook := Some h'\<rparr>]\<rparr>"
    using assms(1) Some by (auto simp: log_Reopen_def split: prod.splits)
  have "logger_ok (l_objs L ! l)" using assms by (simp add: logs_ok_def list_all_length)
  then have "logger_ok ((l_objs L ! l)\<lparr>lg_hook := Some h'\<rparr>)" using Some hook_ok_Reopen [OF h'] by (auto simp: logger_ok_def)
  then show ?thesis using assms(2,3) by (auto simp: L' logs_ok_def list_all_length nth_list_update)
qed (use assms in \<open>simp add: log_Reopen_def\<close>)

inductive log_reach :: "logfs \<Rightarrow> logs \<Rightarrow> bool" for F where
  start: "log_reach F \<lparr>l_cache = [], l_objs = [], l_std = None\<rparr>"
| get: "log_reach F L \<Longrightarrow> GetLogger F dest level L = (r, L') \<Longrightarrow> log_reach F L'"
| reopen: "log_reach F L \<Longrightarrow> l < length (l_objs L) \<Longrightarrow> log_Reopen F L l = (err, L') \<Longrightarrow> log_reach F L'"
| set_level: "log_reach F L \<Longrightarrow> l < length (l_objs L) \<Longrightarrow> log_reach F (SetLevel F level L l)"

lemma logs_ok_SetLevel: "logs_ok L \<Longrightarrow> logs_ok (SetLevel F level L l)"
  by (simp add: SetLevel_def logs_ok_def split: sum.splits)

lemma log_reach_ok: "log_reach F L \<Longrightarrow> logs_ok L"
proof (induction rule: log_reach.induct)
  case start
  then show ?case by (simp add: logs_ok_def)
next
  case (get L dest level r L')
  then show ?case by (cases r) (auto intro: logs_ok_GetLogger)
qed (auto intro: logs_ok_Reopen logs_ok_SetLevel)

text \<open>The cached loggers stay: later operations neither replace nor redirect them.\<close>

lemma logger_kept:
  "GetLogger F dest level L = ((r, err), L') \<Longrightarrow> map_of (l_cache L) k = Some l \<Longrightarrow> map_of (l_cache L') k = Some l"
  by (erule GetLogger_cases) (auto simp: update_conv')

lemma GetLogger_same:
  assumes "GetLogger F dest level L = ((Some l, err), L)"
  shows "map_of (l_cache L) (dest, level) = Some l"
  using assms
proof (cases rule: GetLogger_cases)
  case (new g)
  then have "l_objs L = l_objs L @ [g]" by (metis logs.select_convs(2) logs.surjective logs.update_convs(1,2))
  then show ?thesis by simp
qed auto

text \<open>
  In every state of the factory, \<open>GetLogger\<close> gives one logger per destination and level: the logger
  it returns is the one it returns for that pair from then on, without an error, it has that
  destination, and two loggers with different keys are different objects. A logger whose file
  could not be opened writes to standard error.
\<close>

theorem logger_factory:
  assumes "log_reach F L" and "GetLogger F dest level L = ((Some l, err), L')"
  shows "GetLogger F dest level L' = ((Some l, None), L') \<and> GetLogDest L' l = dest \<and> logger_ok (l_objs L' ! l)
     \<and> (\<forall>dest2 level2 l2. GetLogger F dest2 level2 L' = ((Some l2, None), L') \<and> l2 = l \<longrightarrow> (dest2, level2) = (dest, level))
     \<and> (err \<noteq> None \<longrightarrow> lg_out (l_objs L' ! l) = ToStderr \<and> lg_hook (l_objs L' ! l) = None)"
proof -
  have ok: "logs_ok L'" using assms logs_ok_GetLogger log_reach_ok by blast
  have l: "map_of (l_cache L') (dest, level) = Some l"
    using assms(2) by (cases rule: GetLogger_cases) (auto simp: update_conv')
  then have in1: "((dest, level), l) \<in> set (l_cache L')" by (rule map_of_SomeD)
  with ok have "l < length (l_objs L')" "GetLogDest L' l = dest" "logger_ok (l_objs L' ! l)"
    by (auto simp: logs_ok_def GetLogDest_def list_all_length)
  moreover have "(dest2, level2) = (dest, level)" if "GetLogger F dest2 level2 L' = ((Some l, None), L')" for dest2 level2
  proof -
    from that have "map_of (l_cache L') (dest2, level2) = Some l" by (rule GetLogger_same)
    then have in2: "((dest2, level2), l) \<in> set (l_cache L')" by (rule map_of_SomeD)
    have "inj_on snd (set (l_cache L'))" using ok by (simp add: logs_ok_def distinct_map)
    from inj_onD [OF this _ in2 in1] show ?thesis by simp
  qed
  moreover have "lg_out (l_objs L' ! l) = ToStderr \<and> lg_hook (l_objs L' ! l) = None" if "err \<noteq> None"
    using assms(2) that by (cases rule: GetLogger_cases) auto
  moreover have "GetLogger F dest level L' = ((Some l, None), L')" using l by (simp add: GetLogger_def)
  ultimately show ?thesis by blast
qed

definition fs1 :: logfs where
  "fs1 = \<lparr>fs_Level = (\<lambda>l. if l \<in> {''debug'', ''info''} then Inr l else Inl ''not a valid logrus Level''),
     fs_Exists = (\<lambda>f. False), fs_Append = (\<lambda>f. None), fs_Create = (\<lambda>f. Some ''permission denied''), fs_Close = (\<lambda>f. None)\<rparr>"

theorem logger_factory_witness:
  "lg_out (l_objs (snd (GetLogger fs1 ''/var/log/a.log'' ''info'' \<lparr>l_cache = [], l_objs = [], l_std = None\<rparr>)) ! 0) = ToStderr"
proof -
  let ?L = "\<lparr>l_cache = [], l_objs = [], l_std = None\<rparr>"
  have 1: "fst (GetLogger fs1 ''/var/log/a.log'' ''info'' ?L) = (Some 0, Some ''permission denied'')" by code_simp
  then have "GetLogger fs1 ''/var/log/a.log'' ''info'' ?L
     = ((Some 0, Some ''permission denied''), snd (GetLogger fs1 ''/var/log/a.log'' ''info'' ?L))" by (simp add: prod_eq_iff)
  from logger_factory [OF log_reach.start this] show ?thesis by simp
qed

end
