(* ===== verification/Server_Object.thy ===== *)
theory Server_Object
  imports Config Pool Logs
begin

section \<open>The server object (server.go, config.go: TLS tables)\<close>

text \<open>
  A server as the daemon keeps it: the stores that are set while it runs, the TLS configuration
  that is built from the server's configuration, and the start and the shutdown of the accept
  loop, whose state is the record \<open>server\<close> of the theory Pool. Backends, loggers and authenticators
  are pointers. The TLS tables are those of Go 1.14 and later, with the numbers of crypto/tls.

  An operation ends (\<open>Done\<close>), waits for ever (\<open>Blocks\<close>) or ends the process (\<open>Crash\<close>): a panic in a
  goroutine without a recovery, or a fatal log entry.
\<close>

subsection \<open>TLS\<close>

definition TLSCiphers :: "(bytes \<times> nat) list" where
  "TLSCiphers =
     [(''TLS_RSA_WITH_3DES_EDE_CBC_SHA'', 0x000a), (''TLS_RSA_WITH_AES_128_CBC_SHA'', 0x002f),
      (''TLS_RSA_WITH_AES_256_CBC_SHA'', 0x0035), (''TLS_ECDHE_ECDSA_WITH_AES_128_CBC_SHA'', 0xc009),
      (''TLS_ECDHE_ECDSA_WITH_AES_256_CBC_SHA'', 0xc00a), (''TLS_ECDHE_RSA_WITH_3DES_EDE_CBC_SHA'', 0xc012),
      (''TLS_ECDHE_RSA_WITH_AES_128_CBC_SHA'', 0xc013), (''TLS_ECDHE_RSA_WITH_AES_256_CBC_SHA'', 0xc014),
      (''TLS_RSA_WITH_RC4_128_SHA'', 0x0005), (''TLS_RSA_WITH_AES_128_GCM_SHA256'', 0x009c),
      (''TLS_RSA_WITH_AES_256_GCM_SHA384'', 0x009d), (''TLS_ECDHE_ECDSA_WITH_RC4_128_SHA'', 0xc007),
      (''TLS_ECDHE_RSA_WITH_RC4_128_SHA'', 0xc011), (''TLS_ECDHE_ECDSA_WITH_AES_128_GCM_SHA256'', 0xc02b),
      (''TLS_ECDHE_RSA_WITH_AES_256_GCM_SHA384'', 0xc030), (''TLS_ECDHE_ECDSA_WITH_AES_256_GCM_SHA384'', 0xc02c)]"

definition TLSCiphers_1_8 :: "(bytes \<times> nat) list" where
  "TLSCiphers_1_8 =
     [(''TLS_RSA_WITH_AES_128_CBC_SHA256'', 0x003c), (''TLS_ECDHE_ECDSA_WITH_AES_128_CBC_SHA256'', 0xc023),
      (''TLS_ECDHE_RSA_WITH_AES_128_CBC_SHA256'', 0xc027), (''TLS_ECDHE_RSA_WITH_AES_128_GCM_SHA256'', 0xc02f),
      (''TLS_ECDHE_RSA_WITH_CHACHA20_POLY1305'', 0xcca8), (''TLS_ECDHE_ECDSA_WITH_CHACHA20_POLY1305'', 0xcca9)]"

definition TLSCiphers_1_13 :: "(bytes \<times> nat) list" where
  "TLSCiphers_1_13 = [(''TLS_AES_128_GCM_SHA256'', 0x1301), (''TLS_AES_256_GCM_SHA384'', 0x1302),
     (''TLS_CHACHA20_POLY1305_SHA256'', 0x1303)]"

definition TLSProtocols :: "(bytes \<times> nat) list" where
  "TLSProtocols = [(''tls1.0'', 0x0301), (''tls1.1'', 0x0302), (''tls1.2'', 0x0303), (''tls1.3'', 0x0304)]"

definition TLSCurves :: "(bytes \<times> nat) list" where
  "TLSCurves = [(''P256'', 23), (''P384'', 24), (''P521'', 25), (''X25519'', 29)]"

definition TLSClientAuthTypes :: "(bytes \<times> nat) list" where
  "TLSClientAuthTypes = [(''NoClientCert'', 0), (''RequestClientCert'', 1), (''RequireAnyClientCert'', 2),
     (''VerifyClientCertIfGiven'', 3), (''RequireAndVerifyClientCert'', 4)]"

record tls_config =
  tc_Cert :: "bytes \<times> bytes"
  tc_ServerName :: bytes
  tc_ClientAuth :: nat
  tc_MinVersion :: nat
  tc_MaxVersion :: nat
  tc_CipherSuites :: "nat list"
  tc_Curves :: "nat list"
  tc_RootCAs :: "bytes option"
  tc_PreferServer :: bool

text \<open>The environment: the operating system, the file system of the logs, the files with certificates
  that can be read, what \<open>net.Listen\<close> gives, and the schedule of a server's goroutines while it is shut
  down. \<open>ListenErr\<close> carries the error and whether the goroutine reports it only after the channel
  of the errors was closed.\<close>

datatype listen_result = ListenOK | ListenErr bytes bool

record env =
  e_os :: os
  e_fs :: logfs
  e_ReadFile :: "bytes \<Rightarrow> bool"
  e_Listen :: "bytes \<Rightarrow> listen_result"
  e_sched :: "bytes \<Rightarrow> srv_event list"
  e_fails :: "bytes \<Rightarrow> nat \<Rightarrow> bool"
  e_WritePid :: "bytes \<Rightarrow> bytes option"

definition build_tls :: "env \<Rightarrow> server_conf \<Rightarrow> tls_config" where
  "build_tls E sConfig =
     (let t = sc_TLS sConfig; version = (\<lambda>n. if n < length (t_Protocols t) then map_of TLSProtocols (t_Protocols t ! n) else None)
      in \<lparr>tc_Cert = (t_PublicKeyFile t, t_PrivateKeyFile t),
          tc_ServerName = sc_Hostname sConfig,
          tc_ClientAuth = (case map_of TLSClientAuthTypes (t_ClientAuthType t) of
             Some ca \<Rightarrow> if length (t_ClientAuthType t) > 0 then ca else 3
           | None \<Rightarrow> 3),
          tc_MinVersion = (case version 0 of Some v \<Rightarrow> v | None \<Rightarrow> 0),
          tc_MaxVersion = (case version 1 of Some v \<Rightarrow> v | None \<Rightarrow> 0),
          tc_CipherSuites = List.map_filter (map_of (TLSCiphers @ TLSCiphers_1_8 @ TLSCiphers_1_13)) (t_Ciphers t),
          tc_Curves = List.map_filter (map_of TLSCurves) (t_Curves t),
          tc_RootCAs = (if length (t_RootCAs t) > 0 \<and> e_ReadFile E (t_RootCAs t) then Some (t_RootCAs t) else None),
          tc_PreferServer = t_PreferServerCipherSuites t\<rparr>)"

subsection \<open>The object\<close>

record dserver =
  dv_srv :: server
  dv_iface :: bytes
  dv_conf :: "server_conf option"
  dv_tls :: "tls_config option"
  dv_timeout :: "int option"
  dv_hosts :: allowedHosts
  dv_auth :: "nat option"
  dv_log :: "nat option"
  dv_mainlog :: "nat option"
  dv_backend :: nat
  dv_listener :: bool

definition no_config :: bytes where
  "no_config = ''interface conversion: interface is nil, not guerrilla.ServerConfig''"

text \<open>\<open>configureTLS\<close>: the error, and the server with the configuration stored.\<close>

definition configureTLS :: "env \<Rightarrow> dserver \<Rightarrow> (bytes option \<times> dserver) run" where
  "configureTLS E sv =
     (case dv_conf sv of
        None \<Rightarrow> Crash no_config
      | Some sConfig \<Rightarrow>
          if t_AlwaysOn (sc_TLS sConfig) \<or> t_StartTLSOn (sc_TLS sConfig) then
            (case os_KeyPair (e_os E) (t_PublicKeyFile (sc_TLS sConfig)) (t_PrivateKeyFile (sc_TLS sConfig)) of
               Some err \<Rightarrow> Done (Some (''error while loading the certificate: '' @ err), sv)
             | None \<Rightarrow> Done (None, sv\<lparr>dv_tls := Some (build_tls E sConfig)\<rparr>))
          else Done (None, sv))"

definition srv_setTimeout :: "env \<Rightarrow> int \<Rightarrow> dserver \<Rightarrow> dserver" where
  "srv_setTimeout E seconds sv =
     sv\<lparr>dv_srv := (dv_srv sv)\<lparr>clientPool := cp_SetTimeout (e_fails E (dv_iface sv)) (clientPool (dv_srv sv))\<rparr>,
        dv_timeout := Some seconds\<rparr>"

definition isEnabled :: "dserver \<Rightarrow> bool run" where
  "isEnabled sv = (case dv_conf sv of None \<Rightarrow> Crash no_config | Some c \<Rightarrow> Done (sc_IsEnabled c))"

text \<open>\<open>loadLog\<close> for the server's log and for the main log: the logger (nil in the case of an error of the
  level), stored when there was no error.\<close>

definition srv_mainlog :: "env \<Rightarrow> dserver \<Rightarrow> logs \<Rightarrow> nat option \<times> dserver \<times> logs" where
  "srv_mainlog E sv L =
     (case dv_mainlog sv of
        Some l \<Rightarrow> (Some l, sv, L)
      | None \<Rightarrow> (case GetLogger (e_fs E) ''stderr'' ''info'' L of
          ((l, err), L) \<Rightarrow> (l, if err = None then sv\<lparr>dv_mainlog := l\<rparr> else sv, L)))"

definition srv_log :: "env \<Rightarrow> dserver \<Rightarrow> logs \<Rightarrow> (nat option \<times> dserver \<times> logs) run" where
  "srv_log E sv L =
     (case dv_log sv of
        Some l \<Rightarrow> Done (Some l, sv, L)
      | None \<Rightarrow>
          (let out = (case dv_conf sv of Some c \<Rightarrow> if sc_LogFile c \<noteq> [] then sc_LogFile c else ''stderr'' | None \<Rightarrow> ''stderr'')
           in case srv_mainlog E sv L of
                (None, sv, L) \<Rightarrow> Crash ''nil pointer dereference''
              | (Some m, sv, L) \<Rightarrow>
                  (case GetLogger (e_fs E) out (GetLevel L m) L of
                     ((l, err), L) \<Rightarrow> Done (l, if err = None then sv\<lparr>dv_log := l\<rparr> else sv, L))))"

text \<open>\<open>newServer\<close>: the error, the server and the loggers. The channels of the pools are made with
  \<open>MaxClients\<close> as capacity, which panics when it is negative.\<close>

definition new_server :: "env \<Rightarrow> server_conf \<Rightarrow> nat \<Rightarrow> nat \<Rightarrow> logs \<Rightarrow> (bytes option \<times> dserver \<times> logs) run" where
  "new_server E c b mainlog L =
     (if sc_MaxClients c < 0 then Crash ''makechan: size out of range''
      else
        (let sv = \<lparr>dv_srv = newServer (nat (sc_MaxClients c)), dv_iface = sc_ListenInterface c, dv_conf = None, dv_tls = None,
               dv_timeout = None, dv_hosts = \<lparr>table = [], wildcards = []\<rparr>, dv_auth = None, dv_log = None,
               dv_mainlog = Some mainlog, dv_backend = b, dv_listener = False\<rparr>;
             ((l, logOpenError), L) = (if sc_LogFile c = [] then ((Some mainlog, None), L)
                                       else GetLogger (e_fs E) (sc_LogFile c) (GetLevel L mainlog) L)
         in if logOpenError \<noteq> None then
              bind_run (srv_log E sv L) (\<lambda>(l, sv, L).
                if l = None then Crash ''nil pointer dereference'' else Done (logOpenError, sv, L))
            else
              (let sv = srv_setTimeout E (sc_Timeout c) (sv\<lparr>dv_log := l, dv_conf := Some c\<rparr>)
               in bind_run (configureTLS E sv) (\<lambda>(err, sv). Done (err, sv, L)))))"

text \<open>\<open>Start\<close> up to the point where the caller stops waiting: the error of \<open>Listen\<close>, if any.\<close>

definition srv_Start :: "env \<Rightarrow> dserver \<Rightarrow> (bytes \<times> bool) option \<times> dserver" where
  "srv_Start E sv =
     (case e_Listen E (dv_iface sv) of
        ListenOK \<Rightarrow> (None, sv\<lparr>dv_listener := True, dv_srv := srv_listen True (dv_srv sv)\<rparr>)
      | ListenErr err late \<Rightarrow>
          (Some (''['' @ dv_iface sv @ ''] Cannot listen on port: '' @ err @ '' '', late),
           sv\<lparr>dv_listener := False, dv_srv := srv_listen False (dv_srv sv)\<rparr>))"

text \<open>
  \<open>Shutdown\<close> closes the listener and waits for the accept loop to report; only a running server has
  an accept loop, which goes through the events of the schedule, the one after the close among them.
\<close>

fun is_listen :: "srv_event \<Rightarrow> bool" where
  "is_listen (EvListen ok) = True"
| "is_listen ev = False"

definition srv_Shutdown :: "env \<Rightarrow> dserver \<Rightarrow> dserver run" where
  "srv_Shutdown E sv =
     (let s = dv_srv sv
      in if dv_listener sv then
           (case (if srvState s = ServerStateRunning then srv_run (filter (\<lambda>ev. \<not> is_listen ev) (e_sched E (dv_iface sv))) s else Some s) of
              None \<Rightarrow> Blocks
            | Some s \<Rightarrow> if closedListener s = 0 then Blocks
                        else Done (sv\<lparr>dv_srv := s\<lparr>closedListener := closedListener s - 1\<rparr>\<rparr>))
         else
           (case ShutdownState (e_fails E (dv_iface sv)) (clientPool s) of
              None \<Rightarrow> Blocks
            | Some p \<Rightarrow> (case ShutdownWait p of
                None \<Rightarrow> Blocks
              | Some p \<Rightarrow> Done (sv\<lparr>dv_srv := s\<lparr>clientPool := p, srvState := ServerStateStopped\<rparr>\<rparr>))))"

end
