(* ===== verification/Daemon.thy ===== *)
theory Daemon
  imports Server_Object
begin

section \<open>The daemon (guerrilla.go)\<close>

text \<open>
  The daemon holds the servers by their interface and the backend they use, and it changes them when
  events of a new configuration are published. Backends are pointers into \<open>g_gateways\<close>; the registry of
  processors, the service of the backends and what their processors change are part of the
  state. The servers are a list of pairs, in the order of insertion, where the code ranges over a map
  in no fixed order. Calls that only write log entries are left out. \<open>g_bus\<close> says that the event bus
  was made, which the first subscription does.
\<close>

datatype daemonState = DaemonNew | DaemonStarted | DaemonStopped

record 'b daemon =
  g_Config :: app_conf
  g_servers :: "(bytes \<times> dserver) list"
  g_state :: daemonState
  g_mainlog :: nat
  g_backend :: nat
  g_auth :: "nat option"
  g_bus :: bool
  g_gateways :: "'b gateway list"
  g_svc :: "'b service"
  g_out :: 'b
  g_logs :: logs
  g_svclog :: "nat option"
  g_pidfiles :: "bytes list"

subsection \<open>Servers\<close>

definition findServer :: "bytes \<Rightarrow> 'b daemon \<Rightarrow> dserver option" where
  "findServer iface g = map_of (g_servers g) iface"

definition removeServer :: "bytes \<Rightarrow> 'b daemon \<Rightarrow> 'b daemon" where
  "removeServer iface g = g\<lparr>g_servers := AList.delete iface (g_servers g)\<rparr>"

definition storeServer :: "bytes \<Rightarrow> dserver \<Rightarrow> 'b daemon \<Rightarrow> 'b daemon" where
  "storeServer iface sv g = g\<lparr>g_servers := AList.update iface sv (g_servers g)\<rparr>"

definition g_setConfig :: "app_conf \<Rightarrow> 'b daemon \<Rightarrow> 'b daemon" where
  "g_setConfig c g = g\<lparr>g_Config := c\<rparr>"

definition setServerConfig :: "server_conf \<Rightarrow> 'b daemon \<Rightarrow> 'b daemon" where
  "setServerConfig c g =
     (case findServer (sc_ListenInterface c) g of
        None \<Rightarrow> g
      | Some sv \<Rightarrow> storeServer (sc_ListenInterface c) (sv\<lparr>dv_conf := Some c\<rparr>) g)"

definition mapServers :: "(dserver \<Rightarrow> dserver) \<Rightarrow> 'b daemon \<Rightarrow> 'b daemon" where
  "mapServers callback g = g\<lparr>g_servers := map (map_prod id callback) (g_servers g)\<rparr>"

definition storeBackend :: "nat \<Rightarrow> 'b daemon \<Rightarrow> 'b daemon" where
  "storeBackend b g = mapServers (\<lambda>sv. sv\<lparr>dv_backend := b\<rparr>) (g\<lparr>g_backend := b\<rparr>)"

definition g_SetAuthenticator :: "nat option \<Rightarrow> 'b daemon \<Rightarrow> 'b daemon" where
  "g_SetAuthenticator a g = mapServers (\<lambda>sv. sv\<lparr>dv_auth := a\<rparr>) (g\<lparr>g_auth := a\<rparr>)"

definition g_SetLogger :: "nat \<Rightarrow> 'b daemon \<Rightarrow> 'b daemon" where
  "g_SetLogger l g = g\<lparr>g_mainlog := l, g_svclog := Some l\<rparr>"

definition g_writePid :: "env \<Rightarrow> 'b daemon \<Rightarrow> bytes option \<times> 'b daemon" where
  "g_writePid E g =
     (if length (PidFile (g_Config g)) > 0
      then (case e_WritePid E (PidFile (g_Config g)) of
              Some err \<Rightarrow> (Some err, g)
            | None \<Rightarrow> (None, g\<lparr>g_pidfiles := g_pidfiles g @ [PidFile (g_Config g)]\<rparr>))
      else (None, g))"

text \<open>The loop of \<open>makeServers\<close> with the errors so far.\<close>

fun make_servers :: "env \<Rightarrow> server_conf list \<Rightarrow> bytes list \<Rightarrow> 'b daemon \<Rightarrow> (bytes list \<times> 'b daemon) run" where
  "make_servers E [] es g = Done (es, g)"
| "make_servers E (c # cs) es g =
     (if findServer (sc_ListenInterface c) g \<noteq> None then make_servers E cs es g
      else if Validate (e_os E) c \<noteq> [] then make_servers E cs (es @ [errors_Error (Validate (e_os E) c)]) g
      else bind_run (new_server E c (g_backend g) (g_mainlog g) (g_logs g)) (\<lambda>(err, sv, L).
             make_servers E cs (case err of Some e \<Rightarrow> es @ [e] | None \<Rightarrow> es)
               (storeServer (sc_ListenInterface c)
                  (sv\<lparr>dv_hosts := setAllowedHosts (AllowedHosts (g_Config g)), dv_auth := g_auth g\<rparr>) (g\<lparr>g_logs := L\<rparr>))))"

definition makeServers :: "env \<Rightarrow> 'b daemon \<Rightarrow> (bytes list \<times> 'b daemon) run" where
  "makeServers E g =
     bind_run (make_servers E (Servers (g_Config g)) [] g) (\<lambda>(es, g).
       Done (if g_servers g = [] then es @ [''there are no servers that can start, please check your config''] else es, g))"

subsection \<open>Start and shutdown\<close>

definition the_gateway :: "'b daemon \<Rightarrow> 'b gateway" where
  "the_gateway g = g_gateways g ! g_backend g"

definition set_gateway :: "'b gateway \<Rightarrow> 'b daemon \<Rightarrow> 'b daemon" where
  "set_gateway gw g = g\<lparr>g_gateways := (g_gateways g)[g_backend g := gw]\<rparr>"

definition backend_Start :: "'b daemon \<Rightarrow> (bytes option \<times> 'b daemon) run" where
  "backend_Start g =
     (case gw_Start (the_gateway g) of
        Panic m \<Rightarrow> Crash m
      | Ret (err, gw) \<Rightarrow> Done (err, set_gateway gw g))"

definition backend_Reinitialize :: "'b registry \<Rightarrow> 'b daemon \<Rightarrow> bytes option \<times> 'b daemon" where
  "backend_Reinitialize reg g =
     (case gw_Reinitialize reg (the_gateway g) (g_svc g) (g_out g) of
        (err, gw, svc, out) \<Rightarrow> (err, (set_gateway gw g)\<lparr>g_svc := svc, g_out := out\<rparr>))"

definition backend_Shutdown :: "'b daemon \<Rightarrow> (bytes option \<times> 'b daemon) run" where
  "backend_Shutdown g =
     (case gw_Shutdown (the_gateway g) (g_svc g) (g_out g) of
        None \<Rightarrow> Blocks
      | Some (err, gw, svc, out) \<Rightarrow> Done (err, (set_gateway gw g)\<lparr>g_svc := svc, g_out := out\<rparr>))"

text \<open>The goroutines of \<open>Start\<close>: an error that is sent after \<open>close(errs)\<close> panics.\<close>

definition starts :: "dserver \<Rightarrow> bool run" where
  "starts sv = bind_run (isEnabled sv) (\<lambda>on.
     Done (on \<and> (srvState (dv_srv sv) = ServerStateNew \<or> srvState (dv_srv sv) = ServerStateStopped)))"

fun start_servers :: "env \<Rightarrow> (bytes \<times> dserver) list \<Rightarrow> (bytes list \<times> (bytes \<times> dserver) list) run" where
  "start_servers E [] = Done ([], [])"
| "start_servers E ((iface, sv) # svs) =
     bind_run (starts sv) (\<lambda>go.
       bind_run (start_servers E svs) (\<lambda>(es, svs).
         if go then (case srv_Start E sv of
              (None, sv) \<Rightarrow> Done (es, (iface, sv) # svs)
            | (Some (err, late), sv) \<Rightarrow>
                if late then Crash ''send on closed channel'' else Done (err # es, (iface, sv) # svs))
         else Done (es, (iface, sv) # svs)))"

definition g_Start :: "env \<Rightarrow> 'b registry \<Rightarrow> 'b daemon \<Rightarrow> (bytes list \<times> 'b daemon) run" where
  "g_Start E reg g =
     (if g_servers g = [] then Done ([''no servers to start, please check the config''], g\<lparr>g_state := DaemonStarted\<rparr>)
      else
        bind_run
          (if g_state g = DaemonStopped then
             (let (err1, g) = backend_Reinitialize reg g
              in bind_run (backend_Start g) (\<lambda>(err2, g).
                   Done ((case err1 of Some e \<Rightarrow> [e] | None \<Rightarrow> []) @ (case err2 of Some e \<Rightarrow> [e] | None \<Rightarrow> []), g)))
           else Done ([], g))
          (\<lambda>(startErrors, g).
             bind_run (start_servers E (g_servers g)) (\<lambda>(es, svs).
               Done (startErrors @ es, g\<lparr>g_servers := svs, g_state := DaemonStarted\<rparr>))))"

fun shutdown_servers :: "env \<Rightarrow> (bytes \<times> dserver) list \<Rightarrow> ((bytes \<times> dserver) list) run" where
  "shutdown_servers E [] = Done []"
| "shutdown_servers E ((iface, sv) # svs) =
     bind_run (if srvState (dv_srv sv) = ServerStateRunning then srv_Shutdown E sv else Done sv) (\<lambda>sv.
       bind_run (shutdown_servers E svs) (\<lambda>svs. Done ((iface, sv) # svs)))"

definition g_Shutdown :: "env \<Rightarrow> 'b daemon \<Rightarrow> 'b daemon run" where
  "g_Shutdown E g =
     bind_run (shutdown_servers E (g_servers g)) (\<lambda>svs.
       bind_run (backend_Shutdown (g\<lparr>g_servers := svs\<rparr>)) (\<lambda>(err, g). Done (g\<lparr>g_state := DaemonStopped\<rparr>)))"

text \<open>\<open>New\<close>: the error and the daemon. The events are subscribed when there was none.\<close>

definition g_New :: "env \<Rightarrow> app_conf \<Rightarrow> nat \<Rightarrow> nat \<Rightarrow> 'b gateway list \<Rightarrow> 'b service \<Rightarrow> 'b \<Rightarrow> logs \<Rightarrow> (bytes list \<times> 'b daemon) run" where
  "g_New E ac b l gws svc out L =
     (let g = \<lparr>g_Config = ac, g_servers = [], g_state = DaemonNew, g_mainlog = l, g_backend = b, g_auth = None, g_bus = False,
            g_gateways = gws, g_svc = svc, g_out = out, g_logs = L, g_svclog = None, g_pidfiles = []\<rparr>;
          g = (if LogLevel ac \<noteq> [] then
                 (case GetLogger (e_fs E) (GetLogDest (g_logs g) l) (LogLevel ac) (g_logs g) of
                    ((Some h, None), L) \<Rightarrow> g\<lparr>g_mainlog := h, g_logs := L\<rparr>
                  | (_, L) \<Rightarrow> g\<lparr>g_logs := L\<rparr>)
               else g);
          g = snd (g_writePid E g)
      in bind_run (makeServers E g) (\<lambda>(es, g).
           if es \<noteq> [] then Done (es, g)
           else bind_run (backend_Start g) (\<lambda>(err, g).
             case err of Some e \<Rightarrow> Done ([e], g) | None \<Rightarrow> Done ([], g\<lparr>g_bus := True\<rparr>))))"

subsection \<open>Events\<close>

definition on_server :: "server_conf \<Rightarrow> 'b daemon \<Rightarrow> (dserver \<Rightarrow> 'b daemon run) \<Rightarrow> 'b daemon run" where
  "on_server c g f = (case findServer (sc_ListenInterface c) g of None \<Rightarrow> Done g | Some sv \<Rightarrow> f sv)"

definition fatal :: "'a run" where
  "fatal = Crash ''exit status 1''"

text \<open>The handler of a changed backend configuration: every branch calls a method of the logger, which
  is nil when the level is not valid.\<close>

definition reload_backend :: "env \<Rightarrow> 'b registry \<Rightarrow> app_conf \<Rightarrow> 'b daemon \<Rightarrow> 'b daemon run" where
  "reload_backend E reg appConfig g =
     (let ((logger, _), L) = GetLogger (e_fs E) (LogFile appConfig) (LogLevel appConfig) (g_logs g)
      in bind_run (backend_Shutdown (g\<lparr>g_logs := L\<rparr>)) (\<lambda>(err, g).
           if logger = None then Crash ''nil pointer dereference''
           else if err \<noteq> None then Done g
           else case gw_New reg (BackendConfig appConfig) (g_svc g) (g_out g) of
                  (Inl newErr, svc, out) \<Rightarrow>
                    (case backend_Reinitialize reg (g\<lparr>g_svc := svc, g_out := out, g_svclog := logger\<rparr>) of
                       (Some err, g) \<Rightarrow> fatal
                     | (None, g) \<Rightarrow> bind_run (backend_Start g) (\<lambda>(err, g). if err \<noteq> None then fatal else Done g))
                | (Inr newBackend, svc, out) \<Rightarrow>
                    (case gw_Start newBackend of
                       Panic m \<Rightarrow> Crash m
                     | Ret (err, newBackend) \<Rightarrow>
                         Done (storeBackend (length (g_gateways g))
                           (g\<lparr>g_gateways := g_gateways g @ [newBackend], g_svc := svc, g_out := out, g_svclog := logger\<rparr>)))))"

text \<open>The handler of each event. A server event names the server by the interface of its configuration.\<close>

fun app_event :: "env \<Rightarrow> 'b registry \<Rightarrow> event \<Rightarrow> app_conf \<Rightarrow> 'b daemon \<Rightarrow> 'b daemon run" where
  "app_event E reg EventConfigNewConfig c g = Done (g_setConfig c g)"
| "app_event E reg EventConfigAllowedHosts c g =
     Done (mapServers (\<lambda>sv. sv\<lparr>dv_hosts := setAllowedHosts (AllowedHosts c)\<rparr>) g)"
| "app_event E reg EventConfigLogFile c g =
     (case GetLogger (e_fs E) (LogFile c) (LogLevel c) (g_logs g) of
        ((Some l, None), L) \<Rightarrow> Done (mapServers (\<lambda>sv. sv\<lparr>dv_mainlog := Some l\<rparr>) (g\<lparr>g_logs := L, g_mainlog := l\<rparr>))
      | (_, L) \<Rightarrow> Done (g\<lparr>g_logs := L\<rparr>))"
| "app_event E reg EventConfigLogReopen c g =
     Done (g\<lparr>g_logs := snd (log_Reopen (e_fs E) (g_logs g) (g_mainlog g))\<rparr>)"
| "app_event E reg EventConfigLogLevel c g =
     (case GetLogger (e_fs E) (GetLogDest (g_logs g) (g_mainlog g)) (LogLevel c) (g_logs g) of
        ((Some l, None), L) \<Rightarrow> Done (mapServers (\<lambda>sv. sv\<lparr>dv_log := Some l\<rparr>) (g\<lparr>g_logs := L, g_mainlog := l\<rparr>))
      | (_, L) \<Rightarrow> Done (g\<lparr>g_logs := L\<rparr>))"
| "app_event E reg EventConfigPidFile c g = Done (snd (g_writePid E g))"
| "app_event E reg EventConfigBackendConfig c g = reload_backend E reg c g"
| "app_event E reg _ c g = Done g"

fun server_event :: "env \<Rightarrow> 'b registry \<Rightarrow> event \<Rightarrow> server_conf \<Rightarrow> 'b daemon \<Rightarrow> 'b daemon run" where
  "server_event E reg EventConfigServerConfig c g = Done (setServerConfig c g)"
| "server_event E reg EventConfigServerNew c g =
     (case findServer (sc_ListenInterface c) g of
        Some sv \<Rightarrow> Done g
      | None \<Rightarrow> bind_run (makeServers E g) (\<lambda>(es, g).
          if es \<noteq> [] then Done g
          else if g_state g = DaemonStarted then bind_run (g_Start E reg g) (\<lambda>(es, g). Done g)
          else Done g))"
| "server_event E reg EventConfigServerStart c g = on_server c g (\<lambda>sv.
     if srvState (dv_srv sv) = ServerStateStopped \<or> srvState (dv_srv sv) = ServerStateNew
     then bind_run (g_Start E reg g) (\<lambda>(es, g). Done g) else Done g)"
| "server_event E reg EventConfigServerStop c g = on_server c g (\<lambda>sv.
     if srvState (dv_srv sv) = ServerStateRunning
     then bind_run (srv_Shutdown E sv) (\<lambda>sv. Done (storeServer (sc_ListenInterface c) sv g)) else Done g)"
| "server_event E reg EventConfigServerRemove c g = on_server c g (\<lambda>sv.
     bind_run (srv_Shutdown E sv) (\<lambda>sv. Done (removeServer (sc_ListenInterface c) g)))"
| "server_event E reg EventConfigServerTLSConfig c g = on_server c g (\<lambda>sv.
     bind_run (configureTLS E sv) (\<lambda>(err, sv). Done (storeServer (sc_ListenInterface c) sv g)))"
| "server_event E reg EventConfigServerTimeout c g = Done (mapServers (srv_setTimeout E (sc_Timeout c)) g)"
| "server_event E reg EventConfigServerMaxClients c g = Done (mapServers (\<lambda>sv. sv) g)"
| "server_event E reg EventConfigServerLogFile c g = on_server c g (\<lambda>sv.
     case GetLogger (e_fs E) (sc_LogFile c) (GetLevel (g_logs g) (g_mainlog g)) (g_logs g) of
       ((Some l, None), L) \<Rightarrow> Done (storeServer (sc_ListenInterface c) (sv\<lparr>dv_log := Some l\<rparr>)
         (g\<lparr>g_logs := L, g_mainlog := l, g_svclog := Some l\<rparr>))
     | (_, L) \<Rightarrow> Done (g\<lparr>g_logs := L\<rparr>))"
| "server_event E reg EventConfigServerLogReopen c g = on_server c g (\<lambda>sv.
     bind_run (srv_log E sv (g_logs g)) (\<lambda>(l, sv, L).
       case l of
         None \<Rightarrow> Crash ''nil pointer dereference''
       | Some l \<Rightarrow> Done (storeServer (sc_ListenInterface c) sv (g\<lparr>g_logs := snd (log_Reopen (e_fs E) L l)\<rparr>))))"
| "server_event E reg _ c g = Done g"

fun Publish :: "env \<Rightarrow> 'b registry \<Rightarrow> publication \<Rightarrow> 'b daemon \<Rightarrow> 'b daemon run" where
  "Publish E reg (PubApp ev c) g = (if g_bus g then app_event E reg ev c g else Crash ''nil pointer dereference'')"
| "Publish E reg (PubServer ev c) g = (if g_bus g then server_event E reg ev c g else Crash ''nil pointer dereference'')"

fun publish_all :: "env \<Rightarrow> 'b registry \<Rightarrow> publication list \<Rightarrow> 'b daemon \<Rightarrow> 'b daemon run" where
  "publish_all E reg [] g = Done g"
| "publish_all E reg (p # ps) g = bind_run (Publish E reg p g) (publish_all E reg ps)"

definition CheckFileLimit :: "(bytes + nat) \<Rightarrow> nat \<Rightarrow> app_conf \<Rightarrow> bool \<times> int \<times> nat" where
  "CheckFileLimit limit failed c =
     (case limit of
        Inl err \<Rightarrow> (True, 0, failed)
      | Inr fileLimit \<Rightarrow>
          (let maxClients = (if Servers c = [] then defaultMaxClients else sum_list (map sc_MaxClients (Servers c)))
           in (nat (maxClients mod 2 ^ 64) \<le> fileLimit, maxClients, fileLimit)))"

end
