(* ===== verification/Daemon_Props.thy ===== *)
theory Daemon_Props
  imports Daemon
begin

section \<open>Properties of the daemon\<close>

text \<open>
  The invariant of the daemon over all its operations and events, what the reload of the backend and
  of the configuration achieve, and the cases in which an operation blocks or ends the process.
\<close>

subsection \<open>Servers\<close>

definition loop_ok :: "server \<Rightarrow> bool" where
  "loop_ok s \<longleftrightarrow> (if srvState s = ServerStateStopped then closedListener s = 1
     else closedListener s = 0 \<and> srvState s \<in> {ServerStateRunning, Draining})"

definition server_ok :: "dserver \<Rightarrow> bool" where
  "server_ok sv \<longleftrightarrow> (\<exists>m. srv_ok m (dv_srv sv)) \<and> closedListener (dv_srv sv) = 0 \<and> srvState (dv_srv sv) \<noteq> Draining
     \<and> (srvState (dv_srv sv) = ServerStateRunning \<longrightarrow> dv_listener sv)
     \<and> (srvState (dv_srv sv) \<in> {ServerStateNew, ServerStateStartError} \<longrightarrow> \<not> dv_listener sv)"

lemma loop_ok_step:
  "srv_step ev s = Ret (Some s') \<Longrightarrow> \<not> is_listen ev \<Longrightarrow> loop_ok s \<Longrightarrow> loop_ok s'"
  by (cases ev) (auto simp: loop_ok_def Let_def no_client_def bind_outcome_Ret_iff split: if_splits option.splits borrowed.splits prod.splits)

lemma srv_run_loop:
  "srv_run (filter (\<lambda>ev. \<not> is_listen ev) evs) s = Some s' \<Longrightarrow> loop_ok s \<Longrightarrow> srv_ok m s \<Longrightarrow> loop_ok s' \<and> srv_ok m s'"
proof (induction evs arbitrary: s)
  case (Cons ev evs)
  show ?case
  proof (cases "is_listen ev")
    case True
    with Cons show ?thesis by simp
  next
    case False
    with Cons.prems(1) obtain s1 where s1: "srv_step ev s = Ret (Some s1)" "srv_run (filter (\<lambda>ev. \<not> is_listen ev) evs) s1 = Some s'"
      by (auto split: outcome.splits option.splits)
    have "srv_ok m s1" using srv_step_ok [OF Cons.prems(3), of ev] s1(1) by auto
    with Cons.IH [OF s1(2)] loop_ok_step [OF s1(1) False Cons.prems(2)] show ?thesis by blast
  qed
qed simp

lemma srv_ok_closed [simp]: "srv_ok m (s\<lparr>closedListener := n\<rparr>) = srv_ok m s"
  by (cases "pend s") (auto simp: srv_ok_def)

lemma srv_Shutdown_ok:
  assumes "srv_Shutdown E sv = Done sv'" and "server_ok sv"
  shows "server_ok sv' \<and> srvState (dv_srv sv') = ServerStateStopped \<and> (\<exists>s. sv' = sv\<lparr>dv_srv := s\<rparr>)"
proof (cases "dv_listener sv")
  case True
  obtain m where m: "srv_ok m (dv_srv sv)" using assms(2) by (auto simp: server_ok_def)
  have run: "srvState (dv_srv sv) = ServerStateRunning" using assms True by (auto simp: srv_Shutdown_def server_ok_def Let_def split: if_splits)
  then obtain s where s: "srv_run (filter (\<lambda>ev. \<not> is_listen ev) (e_sched E (dv_iface sv))) (dv_srv sv) = Some s"
    and c: "closedListener s \<noteq> 0" and sv': "sv' = sv\<lparr>dv_srv := s\<lparr>closedListener := closedListener s - 1\<rparr>\<rparr>"
    using assms(1) True by (auto simp: srv_Shutdown_def Let_def split: option.splits if_splits)
  have "loop_ok (dv_srv sv)" using run assms(2) by (auto simp: loop_ok_def server_ok_def)
  from srv_run_loop [OF s this m] c sv' True show ?thesis by (auto simp: loop_ok_def server_ok_def split: if_splits)
next
  case False
  obtain m where m: "srv_ok m (dv_srv sv)" using assms(2) by (auto simp: server_ok_def)
  obtain p q where p: "ShutdownState (e_fails E (dv_iface sv)) (clientPool (dv_srv sv)) = Some p" "ShutdownWait p = Some q"
    and sv': "sv' = sv\<lparr>dv_srv := (dv_srv sv)\<lparr>clientPool := q, srvState := ServerStateStopped\<rparr>\<rparr>"
    using assms(1) False by (auto simp: srv_Shutdown_def Let_def split: option.splits)
  have st: "idle_state (srvState (dv_srv sv))" using assms(2) False
    by (cases "srvState (dv_srv sv)") (auto simp: server_ok_def idle_state_def)
  let ?p0 = "(clientPool (dv_srv sv))\<lparr>flag := Some True, shutdownChan := 1\<rparr>"
  have q: "q = (mapAll_kill (e_fails E (dv_iface sv)) ?p0)\<lparr>shutdownChan := 0, flag := Some False\<rparr>"
    using p m st by (auto simp: ShutdownState_def ShutdownWait_def Let_def mapAll_kill_def split: if_splits)
  have "pool_ok ?p0" using m by (auto simp: srv_ok_def pool_ok_def)
  from pool_ok_kill [OF this] have "pool_ok (mapAll_kill (e_fails E (dv_iface sv)) ?p0)" by blast
  then have "srv_ok m (dv_srv sv')" using m st
    by (auto simp: sv' q srv_ok_def pool_ok_def mapAll_kill_def ids_below_def idle_state_def split: option.splits)
  then show ?thesis using assms(2) False by (auto simp: server_ok_def sv')
qed

lemma server_ok_timeout: "server_ok sv \<Longrightarrow> server_ok (srv_setTimeout E t sv)"
proof -
  assume ok: "server_ok sv"
  then obtain m where m: "srv_ok m (dv_srv sv)" by (auto simp: server_ok_def)
  let ?p = "mapAll_kill (e_fails E (dv_iface sv)) (clientPool (dv_srv sv))"
  have "pool_ok (clientPool (dv_srv sv))" using m by (simp add: srv_ok_def)
  from pool_ok_kill [OF this, of "e_fails E (dv_iface sv)"] have "pool_ok ?p" "\<And>n. ids_below n ?p = ids_below n (clientPool (dv_srv sv))" by blast+
  then have "srv_ok m ((dv_srv sv)\<lparr>clientPool := ?p\<rparr>)" using m
    by (cases "pend (dv_srv sv)") (auto simp: srv_ok_def mapAll_kill_def)
  with ok show ?thesis by (auto simp: srv_setTimeout_def cp_SetTimeout_def server_ok_def)
qed

lemma server_ok_frame [simp]:
  "server_ok (sv\<lparr>dv_conf := x1\<rparr>) = server_ok sv" "server_ok (sv\<lparr>dv_tls := x2\<rparr>) = server_ok sv"
  "server_ok (sv\<lparr>dv_hosts := x3\<rparr>) = server_ok sv" "server_ok (sv\<lparr>dv_auth := x4\<rparr>) = server_ok sv"
  "server_ok (sv\<lparr>dv_log := x5\<rparr>) = server_ok sv" "server_ok (sv\<lparr>dv_mainlog := x6\<rparr>) = server_ok sv"
  "server_ok (sv\<lparr>dv_backend := x7\<rparr>) = server_ok sv" "server_ok (sv\<lparr>dv_timeout := x8\<rparr>) = server_ok sv"
  by (simp_all add: server_ok_def)

text \<open>What a server shares with the daemon: the interface it is stored under, the backend and the
  authenticator.\<close>

definition sv_ok :: "nat \<Rightarrow> nat option \<Rightarrow> bytes \<times> dserver \<Rightarrow> bool" where
  "sv_ok b a x \<longleftrightarrow> server_ok (snd x) \<and> dv_iface (snd x) = fst x \<and> dv_backend (snd x) = b \<and> dv_auth (snd x) = a
     \<and> (\<forall>c. dv_conf (snd x) = Some c \<longrightarrow> sc_ListenInterface c = fst x)"

definition daemon_ok :: "'b daemon \<Rightarrow> bool" where
  "daemon_ok g \<longleftrightarrow> distinct (map fst (g_servers g)) \<and> (\<forall>x \<in> set (g_servers g). sv_ok (g_backend g) (g_auth g) x)
     \<and> g_backend g < length (g_gateways g) \<and> list_all gw_ok (g_gateways g)"

lemma configureTLS_frame: "configureTLS E sv = Done (err, sv') \<Longrightarrow> \<exists>t. sv' = sv\<lparr>dv_tls := t\<rparr>"
  by (cases sv) (auto simp: configureTLS_def split: option.splits if_splits)

lemma srv_log_frame: "srv_log E sv L = Done (l, sv', L') \<Longrightarrow> \<exists>x y. sv' = sv\<lparr>dv_log := x, dv_mainlog := y\<rparr>"
  by (cases sv) (auto simp: srv_log_def srv_mainlog_def Let_def split: option.splits if_splits prod.splits)

lemma new_server_cases:
  assumes "new_server E c b l L = Done (err, sv, L')"
  shows "sv_ok b None (sc_ListenInterface c, sv) \<and> srvState (dv_srv sv) = ServerStateNew
     \<and> (dv_conf sv = Some c \<and> dv_timeout sv = Some (sc_Timeout c) \<or> dv_conf sv = None \<and> err \<noteq> None)"
proof -
  let ?sv = "\<lparr>dv_srv = newServer (nat (sc_MaxClients c)), dv_iface = sc_ListenInterface c, dv_conf = None, dv_tls = None,
     dv_timeout = None, dv_hosts = \<lparr>table = [], wildcards = []\<rparr>, dv_auth = None, dv_log = None,
     dv_mainlog = Some l, dv_backend = b, dv_listener = False\<rparr>"
  have "server_ok ?sv" using srv_ok_new by (auto simp: server_ok_def newServer_def)
  then have new: "sv_ok b None (sc_ListenInterface c, ?sv)" by (simp add: sv_ok_def)
  then have conf: "server_ok (srv_setTimeout E (sc_Timeout c) (?sv\<lparr>dv_log := x, dv_conf := Some c\<rparr>))" for x
    by (intro server_ok_timeout) (simp add: sv_ok_def server_ok_def)
  obtain x e L1 where g: "(if sc_LogFile c = [] then ((Some l, None), L)
      else GetLogger (e_fs E) (sc_LogFile c) (GetLevel L l) L) = ((x, e), L1)" by (metis surj_pair)
  show ?thesis
  proof (cases e)
    case None
    with assms g obtain sv1 where "sv = sv1" "configureTLS E (srv_setTimeout E (sc_Timeout c) (?sv\<lparr>dv_log := x, dv_conf := Some c\<rparr>)) = Done (err, sv1)"
      by (auto simp: new_server_def Let_def split: if_splits)
    then obtain t where "sv = (srv_setTimeout E (sc_Timeout c) (?sv\<lparr>dv_log := x, dv_conf := Some c\<rparr>))\<lparr>dv_tls := t\<rparr>"
      using configureTLS_frame by blast
    then show ?thesis using conf [of x] by (simp add: sv_ok_def server_ok_def srv_setTimeout_def newServer_def)
  next
    case (Some y)
    with assms g obtain l1 where "srv_log E ?sv L1 = Done (l1, sv, L')" "err = Some y"
      by (auto simp: new_server_def Let_def split: if_splits)
    moreover from this obtain u v where "sv = ?sv\<lparr>dv_log := u, dv_mainlog := v\<rparr>" using srv_log_frame by blast
    ultimately show ?thesis using new by (simp add: sv_ok_def server_ok_def newServer_def)
  qed
qed

subsection \<open>Operations\<close>

lemma set_update_subset: "set (AList.update k v al) \<subseteq> insert (k, v) (set al)"
  by (induction al) auto

lemma daemon_ok_store:
  "daemon_ok g \<Longrightarrow> sv_ok (g_backend g) (g_auth g) (iface, sv) \<Longrightarrow> daemon_ok (storeServer iface sv g)"
  using set_update_subset [of iface sv "g_servers g"] by (auto simp: daemon_ok_def storeServer_def distinct_update)

lemma daemon_ok_map:
  assumes "daemon_ok g" and "\<And>x. sv_ok (g_backend g) (g_auth g) x \<Longrightarrow> sv_ok (g_backend g) (g_auth g) (map_prod id f x)"
  shows "daemon_ok (mapServers f g)"
proof -
  have "map fst (map (map_prod id f) xs) = map fst xs" for xs :: "(bytes \<times> dserver) list" by (induction xs) auto
  then show ?thesis using assms by (auto simp: daemon_ok_def mapServers_def)
qed

lemma daemon_ok_found: "findServer iface g = Some sv \<Longrightarrow> daemon_ok g \<Longrightarrow> sv_ok (g_backend g) (g_auth g) (iface, sv)"
  by (auto simp: findServer_def daemon_ok_def dest: map_of_SomeD)

lemma daemon_ok_frame [simp]:
  "daemon_ok (g\<lparr>g_Config := x1\<rparr>) = daemon_ok g" "daemon_ok (g\<lparr>g_logs := x2\<rparr>) = daemon_ok g"
  "daemon_ok (g\<lparr>g_mainlog := x3\<rparr>) = daemon_ok g" "daemon_ok (g\<lparr>g_svclog := x4\<rparr>) = daemon_ok g"
  "daemon_ok (g\<lparr>g_state := x5\<rparr>) = daemon_ok g" "daemon_ok (g\<lparr>g_bus := x6\<rparr>) = daemon_ok g"
  "daemon_ok (g\<lparr>g_svc := x7\<rparr>) = daemon_ok g" "daemon_ok (g\<lparr>g_out := x8\<rparr>) = daemon_ok g"
  "daemon_ok (g\<lparr>g_pidfiles := x9\<rparr>) = daemon_ok g"
  by (simp_all add: daemon_ok_def)

lemma daemon_ok_gateway: "daemon_ok g \<Longrightarrow> gw_ok gw \<Longrightarrow> daemon_ok (set_gateway gw g)"
  by (auto simp: daemon_ok_def set_gateway_def list_all_length nth_list_update)

lemma daemon_ok_the: "daemon_ok g \<Longrightarrow> gw_ok (the_gateway g)"
  by (simp add: daemon_ok_def the_gateway_def list_all_length)

lemma daemon_ok_backend:
  "backend_Start g = Done (err, g') \<Longrightarrow> daemon_ok g \<Longrightarrow> daemon_ok g'"
  "backend_Reinitialize reg g = (err, g') \<Longrightarrow> daemon_ok g \<Longrightarrow> daemon_ok g'"
  "backend_Shutdown g = Done (err, g') \<Longrightarrow> daemon_ok g \<Longrightarrow> daemon_ok g'"
  by (auto simp: backend_Start_def backend_Reinitialize_def backend_Shutdown_def split: outcome.splits option.splits prod.splits
      intro!: daemon_ok_gateway dest!: gw_ok_Start gw_ok_Reinitialize gw_ok_Shutdown dest: daemon_ok_the)

lemma daemon_ok_make_servers:
  "make_servers E cs es g = Done (es', g') \<Longrightarrow> daemon_ok g \<Longrightarrow> daemon_ok g'"
proof (induction cs arbitrary: es g)
  case (Cons c cs)
  show ?case
  proof (cases "findServer (sc_ListenInterface c) g \<noteq> None \<or> Validate (e_os E) c \<noteq> []")
    case True
    with Cons show ?thesis by (auto split: if_splits)
  next
    case False
    with Cons.prems(1) obtain err sv L where n: "new_server E c (g_backend g) (g_mainlog g) (g_logs g) = Done (err, sv, L)"
      and m: "make_servers E cs (case err of Some e \<Rightarrow> es @ [e] | None \<Rightarrow> es) (storeServer (sc_ListenInterface c)
        (sv\<lparr>dv_hosts := setAllowedHosts (AllowedHosts (g_Config g)), dv_auth := g_auth g\<rparr>) (g\<lparr>g_logs := L\<rparr>)) = Done (es', g')"
      by auto
    show ?thesis by (rule Cons.IH [OF m], rule daemon_ok_store) (use Cons.prems(2) new_server_cases [OF n] in \<open>auto simp: sv_ok_def\<close>)
  qed
qed simp

lemma daemon_ok_makeServers: "makeServers E g = Done (es, g') \<Longrightarrow> daemon_ok g \<Longrightarrow> daemon_ok g'"
  by (auto simp: makeServers_def intro: daemon_ok_make_servers)

lemma srv_listen_ok:
  "srv_ok m s \<Longrightarrow> srvState s \<in> {ServerStateNew, ServerStateStopped} \<Longrightarrow> srv_ok m (srv_listen ok s)"
  using srv_step_ok [of m s "EvListen ok"] by auto

lemma server_ok_Start:
  assumes "srv_Start E sv = (r, sv')" and "server_ok sv" and "srvState (dv_srv sv) \<in> {ServerStateNew, ServerStateStopped}"
  shows "server_ok sv' \<and> (\<exists>ok. sv' = sv\<lparr>dv_listener := ok, dv_srv := srv_listen ok (dv_srv sv)\<rparr>)"
proof -
  obtain ok where sv': "sv' = sv\<lparr>dv_listener := ok, dv_srv := srv_listen ok (dv_srv sv)\<rparr>"
    using assms(1) by (cases "e_Listen E (dv_iface sv)") (fastforce simp: srv_Start_def)+
  obtain m where "srv_ok m (dv_srv sv)" using assms(2) by (auto simp: server_ok_def)
  from srv_listen_ok [OF this assms(3), of ok] assms(2) have "server_ok sv'"
    by (auto simp: sv' server_ok_def srv_listen_def split: if_splits)
  with sv' show ?thesis by blast
qed

lemma start_servers_ok:
  "start_servers E svs = Done (es, svs') \<Longrightarrow> \<forall>x \<in> set svs. sv_ok b a x \<Longrightarrow>
     (\<forall>x \<in> set svs'. sv_ok b a x) \<and> map fst svs' = map fst svs"
proof (induction svs arbitrary: es svs')
  case (Cons x svs)
  obtain iface sv where x: "x = (iface, sv)" by fastforce
  obtain go es1 svs1 where go: "starts sv = Done go" and r: "start_servers E svs = Done (es1, svs1)"
    using Cons.prems(1) by (auto simp: x)
  have st: "srvState (dv_srv sv) \<in> {ServerStateNew, ServerStateStopped}" if go using go that by (auto simp: starts_def)
  obtain e sv1 where s: "srv_Start E sv = (e, sv1)" by fastforce
  have "svs' = (iface, if go then sv1 else sv) # svs1"
    using Cons.prems(1) go r s by (cases e) (auto simp: x split: if_splits prod.splits)
  moreover have "sv_ok b a (iface, if go then sv1 else sv)"
  proof (cases go)
    case True
    with server_ok_Start [OF s] st Cons.prems(2) x show ?thesis by (auto simp: sv_ok_def)
  qed (use Cons.prems(2) x in simp)
  ultimately show ?case using Cons.IH [OF r] Cons.prems(2) by (simp add: x)
qed simp

lemma backend_frame:
  "backend_Start g = Done (err, g') \<Longrightarrow> g_servers g' = g_servers g \<and> g_Config g' = g_Config g"
  "backend_Reinitialize reg g = (err, g') \<Longrightarrow> g_servers g' = g_servers g \<and> g_Config g' = g_Config g"
  "backend_Shutdown g = Done (err, g') \<Longrightarrow> g_servers g' = g_servers g \<and> g_Config g' = g_Config g"
  by (auto simp: backend_Start_def backend_Reinitialize_def backend_Shutdown_def set_gateway_def
      split: outcome.splits option.splits prod.splits)

lemma g_Start_cases:
  assumes "g_Start E reg g = Done (es, g')" and "g_servers g \<noteq> []"
  obtains es0 g0 es1 svs where "g_servers g0 = g_servers g" "g_Config g0 = g_Config g" "daemon_ok g \<longrightarrow> daemon_ok g0"
    "start_servers E (g_servers g) = Done (es1, svs)" "g' = g0\<lparr>g_servers := svs, g_state := DaemonStarted\<rparr>" "es = es0 @ es1"
proof (cases "g_state g = DaemonStopped")
  case True
  obtain e1 g1 where 1: "backend_Reinitialize reg g = (e1, g1)" by fastforce
  obtain e2 g2 es1 svs where 2: "backend_Start g1 = Done (e2, g2)" and 3: "start_servers E (g_servers g2) = Done (es1, svs)"
    and 4: "g' = g2\<lparr>g_servers := svs, g_state := DaemonStarted\<rparr>"
      "es = ((case e1 of Some e \<Rightarrow> [e] | None \<Rightarrow> []) @ (case e2 of Some e \<Rightarrow> [e] | None \<Rightarrow> [])) @ es1"
    using assms True 1 by (auto simp: g_Start_def)
  show ?thesis
    using that [of g2 es1 svs] 3 4 backend_frame(2) [OF 1] backend_frame(1) [OF 2] daemon_ok_backend(2) [OF 1] daemon_ok_backend(1) [OF 2]
    by simp
next
  case False
  then obtain es1 svs where "start_servers E (g_servers g) = Done (es1, svs)" "g' = g\<lparr>g_servers := svs, g_state := DaemonStarted\<rparr>" "es = es1"
    using assms by (auto simp: g_Start_def)
  then show ?thesis using that [of g es1 svs "[]"] by simp
qed

lemma daemon_ok_Start: "g_Start E reg g = Done (es, g') \<Longrightarrow> daemon_ok g \<Longrightarrow> daemon_ok g'"
proof (cases "g_servers g = []")
  case False
  assume ok: "daemon_ok g" and "g_Start E reg g = Done (es, g')"
  from this(2) False show ?thesis
  proof (cases rule: g_Start_cases)
    case (1 es0 g0 es1 svs)
    with ok start_servers_ok [of E "g_servers g" es1 svs "g_backend g0" "g_auth g0"] show ?thesis by (simp add: daemon_ok_def)
  qed
qed (auto simp: g_Start_def)

lemma shutdown_servers_ok:
  "shutdown_servers E svs = Done svs' \<Longrightarrow> \<forall>x \<in> set svs. sv_ok b a x \<Longrightarrow>
     (\<forall>x \<in> set svs'. sv_ok b a x \<and> srvState (dv_srv (snd x)) \<noteq> ServerStateRunning) \<and> map fst svs' = map fst svs"
proof (induction svs arbitrary: svs')
  case (Cons x svs)
  obtain iface sv where x: "x = (iface, sv)" by fastforce
  obtain sv1 svs1 where s: "(if srvState (dv_srv sv) = ServerStateRunning then srv_Shutdown E sv else Done sv) = Done sv1"
    and r: "shutdown_servers E svs = Done svs1" and svs': "svs' = (iface, sv1) # svs1"
    using Cons.prems(1) by (auto simp: x)
  have "sv_ok b a (iface, sv1) \<and> srvState (dv_srv sv1) \<noteq> ServerStateRunning"
  proof (cases "srvState (dv_srv sv) = ServerStateRunning")
    case True
    with s Cons.prems(2) x show ?thesis using srv_Shutdown_ok [of E sv sv1] by (auto simp: sv_ok_def)
  qed (use s Cons.prems(2) x in auto)
  with Cons.IH [OF r] Cons.prems(2) show ?case by (simp add: svs' x)
qed simp

lemma daemon_ok_Shutdown:
  "g_Shutdown E g = Done g' \<Longrightarrow> daemon_ok g \<Longrightarrow> daemon_ok g'"
proof -
  assume h: "g_Shutdown E g = Done g'" and ok: "daemon_ok g"
  obtain svs err g1 where s: "shutdown_servers E (g_servers g) = Done svs"
    and b: "backend_Shutdown (g\<lparr>g_servers := svs\<rparr>) = Done (err, g1)" and g': "g' = g1\<lparr>g_state := DaemonStopped\<rparr>"
    using h by (auto simp: g_Shutdown_def)
  have "daemon_ok (g\<lparr>g_servers := svs\<rparr>)"
    using shutdown_servers_ok [OF s, of "g_backend g" "g_auth g"] ok by (auto simp: daemon_ok_def)
  from daemon_ok_backend(3) [OF b this] show "daemon_ok g'" by (simp add: g')
qed

subsection \<open>Events\<close>

lemma daemon_ok_storeBackend:
  "daemon_ok g \<Longrightarrow> gw_ok gw \<Longrightarrow> daemon_ok (storeBackend (length (g_gateways g)) (g\<lparr>g_gateways := g_gateways g @ [gw], g_svc := svc, g_out := out, g_svclog := l\<rparr>))"
  by (auto simp: daemon_ok_def storeBackend_def mapServers_def sv_ok_def comp_def)

lemma daemon_ok_reload: "reload_backend E reg c g = Done g' \<Longrightarrow> daemon_ok g \<Longrightarrow> daemon_ok g'"
proof -
  assume h: "reload_backend E reg c g = Done g'" and ok: "daemon_ok g"
  obtain l e L where L: "GetLogger (e_fs E) (LogFile c) (LogLevel c) (g_logs g) = ((l, e), L)" by (metis surj_pair)
  obtain err g1 where s: "backend_Shutdown (g\<lparr>g_logs := L\<rparr>) = Done (err, g1)"
    using h L by (auto simp: reload_backend_def)
  have ok1: "daemon_ok g1" using daemon_ok_backend(3) [OF s] ok by simp
  obtain n svc out where n: "gw_New reg (BackendConfig c) (g_svc g1) (g_out g1) = (n, svc, out)" using prod_cases3 by blast
  show "daemon_ok g'"
  proof (cases n)
    case (Inl x)
    obtain err2 g2 where r: "backend_Reinitialize reg (g1\<lparr>g_svc := svc, g_out := out, g_svclog := l\<rparr>) = (err2, g2)" by fastforce
    have "daemon_ok g2" using daemon_ok_backend(2) [OF r] ok1 by simp
    then show ?thesis using h L s n Inl r ok1
      by (auto simp: reload_backend_def fatal_def split: if_splits option.splits dest: daemon_ok_backend(1))
  next
    case (Inr gw)
    obtain err2 gw2 where st: "g' = g1 \<or> gw_Start gw = Ret (err2, gw2) \<and>
        g' = storeBackend (length (g_gateways g1)) (g1\<lparr>g_gateways := g_gateways g1 @ [gw2], g_svc := svc, g_out := out, g_svclog := l\<rparr>)"
      using h L s n Inr by (auto simp: reload_backend_def split: if_splits outcome.splits)
    then show ?thesis
    proof
      assume "gw_Start gw = Ret (err2, gw2) \<and>
        g' = storeBackend (length (g_gateways g1)) (g1\<lparr>g_gateways := g_gateways g1 @ [gw2], g_svc := svc, g_out := out, g_svclog := l\<rparr>)"
      moreover have "gw_ok gw" using gw_ok_New [OF n [unfolded Inr]] by simp
      ultimately show ?thesis using gw_ok_Start [of gw err2 gw2] daemon_ok_storeBackend [OF ok1] by simp
    qed (use ok1 in simp)
  qed
qed

lemma sv_ok_frame [simp]:
  "sv_ok b a (i, sv\<lparr>dv_hosts := h\<rparr>) = sv_ok b a (i, sv)" "sv_ok b a (i, sv\<lparr>dv_tls := h3\<rparr>) = sv_ok b a (i, sv)"
  "sv_ok b a (i, sv\<lparr>dv_mainlog := h1\<rparr>) = sv_ok b a (i, sv)" "sv_ok b a (i, sv\<lparr>dv_log := h2\<rparr>) = sv_ok b a (i, sv)"
  by (simp_all add: sv_ok_def)

lemma daemon_ok_app_event: "app_event E reg ev c g = Done g' \<Longrightarrow> daemon_ok g \<Longrightarrow> daemon_ok g'"
  by (cases ev) (auto simp: g_setConfig_def g_writePid_def split: prod.splits option.splits if_splits intro!: daemon_ok_map dest: daemon_ok_reload)

lemma daemon_ok_setServerConfig: "daemon_ok g \<Longrightarrow> daemon_ok (setServerConfig c g)"
  by (auto simp: setServerConfig_def sv_ok_def split: option.splits intro!: daemon_ok_store dest: daemon_ok_found)

lemma daemon_ok_remove: "daemon_ok g \<Longrightarrow> daemon_ok (removeServer iface g)"
proof -
  have "set (AList.delete iface (g_servers g)) \<subseteq> set (g_servers g)" by (auto simp: AList.delete_eq)
  then show "daemon_ok g \<Longrightarrow> ?thesis" by (auto simp: daemon_ok_def removeServer_def distinct_delete)
qed

lemma daemon_ok_on_server:
  assumes "on_server c g f = Done g'" and "daemon_ok g"
    and "\<And>sv. sv_ok (g_backend g) (g_auth g) (sc_ListenInterface c, sv) \<Longrightarrow> f sv = Done g' \<Longrightarrow> daemon_ok g'"
  shows "daemon_ok g'"
  using assms by (auto simp: on_server_def split: option.splits dest: daemon_ok_found)

lemma daemon_ok_server_event:
  assumes "server_event E reg ev c g = Done g'" and "daemon_ok g"
  shows "daemon_ok g'"
proof (cases ev)
  case EventConfigServerConfig
  with assms show ?thesis by (auto intro: daemon_ok_setServerConfig)
next
  case EventConfigServerNew
  with assms show ?thesis by (auto split: option.splits if_splits dest: daemon_ok_makeServers daemon_ok_Start)
next
  case EventConfigServerStart
  then show ?thesis using assms
    by (auto split: if_splits elim!: daemon_ok_on_server dest: daemon_ok_Start)
next
  case EventConfigServerStop
  then show ?thesis using assms
    by (auto split: if_splits elim!: daemon_ok_on_server intro!: daemon_ok_store simp: sv_ok_def dest!: srv_Shutdown_ok)
next
  case EventConfigServerRemove
  then show ?thesis using assms by (auto elim!: daemon_ok_on_server intro: daemon_ok_remove)
next
  case EventConfigServerTLSConfig
  then show ?thesis using assms
    by (auto elim!: daemon_ok_on_server intro!: daemon_ok_store dest!: configureTLS_frame)
next
  case EventConfigServerTimeout
  then show ?thesis using assms server_ok_timeout
    by (auto intro!: daemon_ok_map simp: sv_ok_def srv_setTimeout_def)
next
  case EventConfigServerMaxClients
  then show ?thesis using assms by (auto intro!: daemon_ok_map)
next
  case EventConfigServerLogFile
  then show ?thesis using assms
    by (auto elim!: daemon_ok_on_server intro!: daemon_ok_store split: prod.splits option.splits)
next
  case EventConfigServerLogReopen
  then show ?thesis using assms
    by (auto elim!: daemon_ok_on_server intro!: daemon_ok_store split: option.splits dest!: srv_log_frame)
qed (use assms in auto)

lemma daemon_ok_Publish: "Publish E reg p g = Done g' \<Longrightarrow> daemon_ok g \<Longrightarrow> daemon_ok g'"
  by (cases p) (auto split: if_splits dest: daemon_ok_app_event daemon_ok_server_event)

lemma daemon_ok_New:
  assumes "g_New E ac 0 l [gw] svc out L = Done (es, g)" and "gw_ok gw"
  shows "daemon_ok g"
proof -
  let ?g = "\<lparr>g_Config = ac, g_servers = [], g_state = DaemonNew, g_mainlog = l, g_backend = 0, g_auth = None, g_bus = False,
     g_gateways = [gw], g_svc = svc, g_out = out, g_logs = L, g_svclog = None, g_pidfiles = []\<rparr>"
  define g1 where "g1 = (if LogLevel ac \<noteq> [] then
      (case GetLogger (e_fs E) (GetLogDest (g_logs ?g) l) (LogLevel ac) (g_logs ?g) of
         ((Some h, None), L) \<Rightarrow> ?g\<lparr>g_mainlog := h, g_logs := L\<rparr>
       | (_, L) \<Rightarrow> ?g\<lparr>g_logs := L\<rparr>)
      else ?g)"
  have "daemon_ok ?g" using assms(2) by (simp add: daemon_ok_def)
  then have "daemon_ok g1" unfolding g1_def
    by (auto simp: daemon_ok_def split: prod.splits option.splits)
  then have 2: "daemon_ok (snd (g_writePid E g1))" by (auto simp: g_writePid_def split: option.splits)
  obtain es3 g3 where 3: "makeServers E (snd (g_writePid E g1)) = Done (es3, g3)"
    and g: "(if es3 \<noteq> [] then Done (es3, g3)
      else bind_run (backend_Start g3) (\<lambda>(err, g). case err of Some e \<Rightarrow> Done ([e], g) | None \<Rightarrow> Done ([], g\<lparr>g_bus := True\<rparr>))) = Done (es, g)"
    using assms(1) unfolding g_New_def Let_def g1_def [symmetric] by auto
  have "daemon_ok g3" by (rule daemon_ok_makeServers [OF 3 2])
  with g show ?thesis by (auto split: if_splits option.splits dest: daemon_ok_backend(1))
qed

inductive daemon_reach :: "env \<Rightarrow> 'b registry \<Rightarrow> 'b daemon \<Rightarrow> bool" for E reg where
  new: "gw_New reg cfg svc0 out0 = (Inr gw, svc, out) \<Longrightarrow> g_New E ac 0 l [gw] svc out L = Done (es, g) \<Longrightarrow> daemon_reach E reg g"
| publish: "daemon_reach E reg g \<Longrightarrow> Publish E reg p g = Done g' \<Longrightarrow> daemon_reach E reg g'"
| start: "daemon_reach E reg g \<Longrightarrow> g_Start E reg g = Done (es, g') \<Longrightarrow> daemon_reach E reg g'"
| shutdown: "daemon_reach E reg g \<Longrightarrow> g_Shutdown E g = Done g' \<Longrightarrow> daemon_reach E reg g'"
| authenticator: "daemon_reach E reg g \<Longrightarrow> daemon_reach E reg (g_SetAuthenticator a g)"
| logger: "daemon_reach E reg g \<Longrightarrow> daemon_reach E reg (g_SetLogger l g)"

lemma daemon_reach_ok: "daemon_reach E reg g \<Longrightarrow> daemon_ok g"
proof (induction rule: daemon_reach.induct)
  case (new cfg svc0 out0 gw svc out ac l L es g)
  then show ?case by (intro daemon_ok_New [OF new(2) conjunct1 [OF gw_ok_New [OF new(1)]]])
next
  case (publish g p g')
  then show ?case using daemon_ok_Publish by blast
next
  case (start g es g')
  then show ?case using daemon_ok_Start by blast
next
  case (shutdown g g')
  then show ?case using daemon_ok_Shutdown by blast
next
  case (authenticator g a)
  then show ?case by (auto simp: g_SetAuthenticator_def mapServers_def daemon_ok_def sv_ok_def comp_def)
next
  case (logger g l)
  then show ?case by (simp add: g_SetLogger_def)
qed

subsection \<open>Backends\<close>

lemma the_set_gateway: "g_backend g < length (g_gateways g) \<Longrightarrow> the_gateway (set_gateway gw g) = gw"
  by (simp add: the_gateway_def set_gateway_def)

lemma gateway_frame [simp]:
  "the_gateway (g\<lparr>g_svc := x1\<rparr>) = the_gateway g" "the_gateway (g\<lparr>g_out := x2\<rparr>) = the_gateway g"
  "the_gateway (g\<lparr>g_logs := x3\<rparr>) = the_gateway g" "the_gateway (g\<lparr>g_svclog := x4\<rparr>) = the_gateway g"
  by (simp_all add: the_gateway_def)

lemma set_gateway_frame [simp]:
  "g_backend (set_gateway gw g) = g_backend g" "length (g_gateways (set_gateway gw g)) = length (g_gateways g)"
  by (simp_all add: set_gateway_def)

lemma backend_Shutdown_running:
  assumes "backend_Shutdown g = Done (err, g1)" and "daemon_ok g" and "gState (the_gateway g) = BackendStateRunning"
    and "fst (svc_shutdown (g_svc g) (g_out g)) = []"
  shows "err = None \<and> gState (the_gateway g1) = BackendStateShuttered \<and> gConfig (the_gateway g1) = gConfig (the_gateway g)
     \<and> g_backend g1 = g_backend g \<and> length (g_gateways g1) = length (g_gateways g)"
proof -
  obtain svc1 out1 where s: "svc_shutdown (g_svc g) (g_out g) = ([], svc1, out1)" using assms(4) by (metis prod.collapse)
  have "list_all id (workStoppers (the_gateway g))"
    using assms(1,3) by (auto simp: backend_Shutdown_def gw_Shutdown_def stopWorkers_def split: option.splits if_splits)
  with assms s show ?thesis
    by (auto simp: backend_Shutdown_def gw_Shutdown_def stopWorkers_def daemon_ok_def the_set_gateway)
qed

lemma backend_Reinitialize_cases:
  assumes "backend_Reinitialize reg g = (None, g')" and "daemon_ok g"
  shows "gState (the_gateway g') = BackendStateInitialized \<and> gConfig (the_gateway g') = gConfig (the_gateway g)
     \<and> g_backend g' = g_backend g \<and> length (g_gateways g') = length (g_gateways g) \<and> g_servers g' = g_servers g"
proof -
  obtain gw svc out where r: "gw_Reinitialize reg (the_gateway g) (g_svc g) (g_out g) = (None, gw, svc, out)"
    and g': "g' = (set_gateway gw g)\<lparr>g_svc := svc, g_out := out\<rparr>"
    using assms(1) by (auto simp: backend_Reinitialize_def split: prod.splits)
  then have sh: "gState (the_gateway g) = BackendStateShuttered"
    and i: "gw_Initialize reg (gConfig (the_gateway g)) (the_gateway g) (svc_reset (g_svc g)) (g_out g) = (None, gw, svc, out)"
    by (auto simp: gw_Reinitialize_def split: if_splits prod.splits option.splits)
  from gw_Initialize_cases [OF i] sh assms(2) show ?thesis by (simp add: g' the_set_gateway daemon_ok_def set_gateway_def the_gateway_def)
qed

lemma backend_Start_cases:
  assumes "backend_Start g = Done (None, g')" and "daemon_ok g"
  shows "gState (the_gateway g') = BackendStateRunning \<and> list_all id (workStoppers (the_gateway g'))
     \<and> gConfig (the_gateway g') = gConfig (the_gateway g) \<and> g_backend g' = g_backend g \<and> g_servers g' = g_servers g"
proof -
  obtain gw where s: "gw_Start (the_gateway g) = Ret (None, gw)" and g': "g' = set_gateway gw g"
    using assms(1) by (auto simp: backend_Start_def split: outcome.splits)
  from s show ?thesis
    by (cases rule: gw_Start_cases) (use assms(2) in \<open>auto simp: g' the_set_gateway daemon_ok_def list_all_iff set_gateway_def the_gateway_def\<close>)
qed

lemma gw_New_config: "gw_New reg cfg svc b = (Inr gw, svc', b') \<Longrightarrow> gConfig gw = cfg"
  by (auto simp: gw_New_def split: prod.splits option.splits)

lemma gw_Start_initialized:
  "gState gw = BackendStateInitialized \<Longrightarrow> gw_ok gw \<Longrightarrow> gw_Start gw = Ret (err, gw') \<Longrightarrow>
     gState gw' = BackendStateRunning \<and> list_all id (workStoppers gw') \<and> gConfig gw' = gConfig gw"
  by (auto simp: gw_Start_def list_all_iff split: option.splits if_splits)

subsection \<open>Properties\<close>



text \<open>
  A server that was stopped by a change of its configuration cannot be removed by a later one: the
  handler waits for ever for an accept loop that has already ended.
\<close>

theorem remove_stopped_server:
  assumes "daemon_reach E reg g" and "findServer (sc_ListenInterface c) g = Some sv" and "srvState (dv_srv sv) = ServerStateRunning"
    and "Publish E reg (PubServer EventConfigServerStop c) g = Done g'" and "sc_ListenInterface d = sc_ListenInterface c"
  shows "Publish E reg (PubServer EventConfigServerRemove d) g' = Blocks"
proof -
  have ok: "daemon_ok g" by (rule daemon_reach_ok [OF assms(1)])
  then have sv: "server_ok sv" "dv_listener sv" using assms(2,3) daemon_ok_found [OF assms(2)] by (auto simp: sv_ok_def server_ok_def)
  obtain sv' where s: "srv_Shutdown E sv = Done sv'" and g': "g' = storeServer (sc_ListenInterface c) sv' g" and b: "g_bus g"
    using assms(2,3,4) by (auto simp: on_server_def split: if_splits)
  have "server_ok sv'" "srvState (dv_srv sv') = ServerStateStopped" "dv_listener sv'"
    using srv_Shutdown_ok [OF s sv(1)] sv(2) by auto
  then have "srv_Shutdown E sv' = Blocks" by (auto simp: srv_Shutdown_def server_ok_def Let_def)
  then show ?thesis using b by (simp add: on_server_def g' findServer_def storeServer_def update_conv' assms(5))
qed

lemma start_servers_find:
  "start_servers E svs = Done (es, svs') \<Longrightarrow> map_of svs iface = Some sv \<Longrightarrow>
     \<exists>c sv'. dv_conf sv = Some c \<and> map_of svs' iface = Some sv' \<and> dv_conf sv' = Some c
     \<and> (if sc_IsEnabled c \<and> srvState (dv_srv sv) \<in> {ServerStateNew, ServerStateStopped}
        then (case e_Listen E (dv_iface sv) of
                ListenOK \<Rightarrow> srvState (dv_srv sv') = ServerStateRunning
              | ListenErr err late \<Rightarrow> srvState (dv_srv sv') = ServerStateStartError \<and> \<not> late \<and> es \<noteq> [])
        else sv' = sv)"
proof (induction svs arbitrary: es svs')
  case (Cons x svs)
  obtain i sv0 where x: "x = (i, sv0)" by fastforce
  obtain go es1 svs1 where go: "starts sv0 = Done go" and r: "start_servers E svs = Done (es1, svs1)"
    using Cons.prems(1) by (auto simp: x)
  show ?case
  proof (cases "i = iface")
    case True
    then have "sv0 = sv" using Cons.prems(2) x by simp
    with Cons.prems(1) go r True show ?thesis
      by (auto simp: x starts_def isEnabled_def srv_Start_def srv_listen_def split: option.splits if_splits listen_result.splits)
  next
    case False
    obtain es2 y where "svs' = (i, y) # svs1" "es = es2 @ es1"
      using Cons.prems(1) go r by (fastforce simp: x split: if_splits prod.splits option.splits)
    with Cons.IH [OF r] Cons.prems(2) False show ?thesis by (auto simp: x split: if_splits listen_result.splits)
  qed
qed simp

text \<open>
  \<open>Start\<close> starts every enabled server that is new or stopped: it listens, or is in the error state
  when it cannot; other servers stay as they are. It does not return normally while a server has no
  configuration, as a server has whose log could not be opened, nor when a server reports
  its error too late.
\<close>

theorem start_all:
  assumes "g_Start E reg g = Done (es, g')" and "findServer iface g = Some sv"
  shows "\<exists>c sv'. dv_conf sv = Some c \<and> findServer iface g' = Some sv' \<and> dv_conf sv' = Some c \<and> g_state g' = DaemonStarted
     \<and> (if sc_IsEnabled c \<and> srvState (dv_srv sv) \<in> {ServerStateNew, ServerStateStopped}
        then (case e_Listen E (dv_iface sv) of
                ListenOK \<Rightarrow> srvState (dv_srv sv') = ServerStateRunning
              | ListenErr err late \<Rightarrow> srvState (dv_srv sv') = ServerStateStartError \<and> \<not> late \<and> es \<noteq> [])
        else sv' = sv)"
proof -
  have f: "map_of (g_servers g) iface = Some sv" using assms(2) by (simp add: findServer_def)
  then have "g_servers g \<noteq> []" by auto
  with assms(1) show ?thesis
  proof (cases rule: g_Start_cases)
    case (1 es0 g0 es1 svs)
    from start_servers_find [OF 1(4) f] show ?thesis by (auto simp: 1(5,6) findServer_def split: if_splits listen_result.splits)
  qed
qed

subsection \<open>An example\<close>

definition env1 :: env where
  "env1 = \<lparr>e_os = os1, e_fs = fs1, e_ReadFile = (\<lambda>f. False), e_Listen = (\<lambda>i. ListenOK), e_sched = (\<lambda>i. [EvClosed (\<lambda>c. False), EvDrained]),
     e_fails = (\<lambda>i c. False), e_WritePid = (\<lambda>f. None)\<rparr>"

definition conf1 :: app_conf where
  "conf1 = conf0\<lparr>Servers := [default_server ''mail.example.com'' []], AllowedHosts := [''example.com''], LogFile := ''stderr'', BackendConfig := []\<rparr>"

definition logs1 :: logs where
  "logs1 = \<lparr>l_cache = [((''stderr'', ''info''), 0)], l_objs = [\<lparr>lg_dest = ''stderr'', lg_level = ''info'', lg_out = ToStderr, lg_hook = None\<rparr>], l_std = None\<rparr>"

definition demo :: "serverState \<Rightarrow> bool \<Rightarrow> daemonState \<Rightarrow> unit daemon" where
  "demo st l ds = \<lparr>g_Config = conf1, g_servers = [(defaultInterface, \<lparr>dv_srv = (newServer 100)\<lparr>srvState := st\<rparr>, dv_iface = defaultInterface,
       dv_conf = Some (default_server ''mail.example.com'' []), dv_tls = None, dv_timeout = Some 30, dv_hosts = setAllowedHosts [''example.com''],
       dv_auth = None, dv_log = Some 0, dv_mainlog = Some 0, dv_backend = 0, dv_listener = l\<rparr>)], g_state = ds, g_mainlog = 0, g_backend = 0,
     g_auth = None, g_bus = True, g_gateways = [idle_gateway BackendStateRunning [True]], g_svc = \<lparr>initializers = [], shutdowners = []\<rparr>,
     g_out = (), g_logs = logs1, g_svclog = None, g_pidfiles = []\<rparr>"

lemma demo_New:
  "g_New env1 conf1 0 0 [idle_gateway BackendStateInitialized []] \<lparr>initializers = [], shutdowners = []\<rparr> () logs1
     = Done ([], demo ServerStateNew False DaemonNew)"
  by (simp add: g_New_def conf1_def conf0_def g_writePid_def makeServers_def findServer_def default_server_def Validate_def empty_tls_def
      new_server_def configureTLS_def srv_setTimeout_def cp_SetTimeout_def mapAll_kill_def newServer_def NewPool_def storeServer_def
      backend_Start_def the_gateway_def idle_gateway_def gw_Start_def set_gateway_def workersSize_def demo_def env1_def)

lemma demo_Start: "g_Start env1 [] (demo ServerStateNew False DaemonNew) = Done ([], demo ServerStateRunning True DaemonStarted)"
  by (simp add: g_Start_def demo_def starts_def isEnabled_def default_server_def newServer_def srv_Start_def env1_def srv_listen_def)

lemma demo_reach: "daemon_reach env1 [] (demo ServerStateRunning True DaemonStarted)"
  by (rule daemon_reach.start [OF _ demo_Start], rule daemon_reach.new [OF gw_New_empty demo_New])


theorem start_all_witness: "dv_conf (snd (hd (g_servers (demo ServerStateNew False DaemonNew)))) = Some (default_server ''mail.example.com'' [])"
  using start_all [OF demo_Start, of defaultInterface "snd (hd (g_servers (demo ServerStateNew False DaemonNew)))"]
  by (auto simp: demo_def findServer_def)

definition returns :: "'a run \<Rightarrow> bool" where
  "returns r = (case r of Done x \<Rightarrow> True | _ \<Rightarrow> False)"

lemma returnsD: "returns r \<Longrightarrow> \<exists>x. r = Done x"
  by (cases r) (auto simp: returns_def)

definition conf2 :: app_conf where
  "conf2 = conf1\<lparr>LogLevel := ''info''\<rparr>"


theorem remove_stopped_server_witness:
  "\<exists>g'. Publish env1 [] (PubServer EventConfigServerStop (default_server [] [])) (demo ServerStateRunning True DaemonStarted) = Done g'
     \<and> Publish env1 [] (PubServer EventConfigServerRemove (default_server [] [])) g' = Blocks"
proof -
  have "returns (Publish env1 [] (PubServer EventConfigServerStop (default_server [] [])) (demo ServerStateRunning True DaemonStarted))" by code_simp
  then obtain g' where g': "Publish env1 [] (PubServer EventConfigServerStop (default_server [] [])) (demo ServerStateRunning True DaemonStarted) = Done g'"
    using returnsD by blast
  have "findServer (sc_ListenInterface (default_server [] [])) (demo ServerStateRunning True DaemonStarted)
      = Some (snd (hd (g_servers (demo ServerStateRunning True DaemonStarted))))"
    and "srvState (dv_srv (snd (hd (g_servers (demo ServerStateRunning True DaemonStarted))))) = ServerStateRunning"
    by (simp_all add: demo_def findServer_def default_server_def)
  from remove_stopped_server [OF demo_reach this g' refl] g' show ?thesis by blast
qed

end
