(* ===== verification/Reload.thy ===== *)
theory Reload
  imports Daemon_Props
begin

section \<open>Reloading a configuration\<close>

text \<open>
  What the daemon promises of its servers when a configuration is loaded while it runs. The abstract
  state is the daemon's configuration with, for each interface, the configuration and the
  allowed hosts of the server there; the specification of an event changes only that. Each
  event of the daemon refines its specification, and the sequence of events of a new configuration
  takes a daemon that runs the old configuration to one that runs the new one.
\<close>

type_synonym sview = "bytes \<Rightarrow> (server_conf option \<times> allowedHosts) option"

definition view :: "'b daemon \<Rightarrow> sview" where
  "view g = map_of (map (\<lambda>(i, sv). (i, dv_conf sv, dv_hosts sv)) (g_servers g))"

definition addable :: "env \<Rightarrow> server_conf list \<Rightarrow> bytes \<Rightarrow> server_conf option" where
  "addable E cs = map_of (map (\<lambda>c. (sc_ListenInterface c, c)) (filter (\<lambda>c. Validate (e_os E) c = []) cs))"

text \<open>The servers that \<open>makeServers\<close> adds; one whose log cannot be opened has no configuration.\<close>

fun added_at :: "app_conf \<Rightarrow> server_conf option \<Rightarrow> (server_conf option \<times> allowedHosts) option \<Rightarrow>
    (server_conf option \<times> allowedHosts) option \<Rightarrow> bool" where
  "added_at cf a (Some x) y \<longleftrightarrow> y = Some x"
| "added_at cf None None y \<longleftrightarrow> y = None"
| "added_at cf (Some c) None y \<longleftrightarrow>
     y = Some (None, setAllowedHosts (AllowedHosts cf)) \<or> y = Some (Some c, setAllowedHosts (AllowedHosts cf))"

definition added :: "env \<Rightarrow> app_conf \<Rightarrow> server_conf list \<Rightarrow> sview \<Rightarrow> sview \<Rightarrow> bool" where
  "added E cf cs v v' \<longleftrightarrow> (\<forall>i. added_at cf (addable E cs i) (v i) (v' i))"

fun spec_event :: "env \<Rightarrow> publication \<Rightarrow> app_conf \<times> sview \<Rightarrow> app_conf \<times> sview \<Rightarrow> bool" where
  "spec_event E (PubApp ev c) (cf, v) s' \<longleftrightarrow>
     s' = (if ev = EventConfigNewConfig then (c, v)
           else if ev = EventConfigAllowedHosts then (cf, \<lambda>i. map_option (map_prod id (\<lambda>_. setAllowedHosts (AllowedHosts c))) (v i))
           else (cf, v))"
| "spec_event E (PubServer ev c) (cf, v) s' \<longleftrightarrow>
     (if ev = EventConfigServerConfig then s' = (cf, v(sc_ListenInterface c := map_option (map_prod (\<lambda>_. Some c) id) (v (sc_ListenInterface c))))
      else if ev = EventConfigServerRemove then s' = (cf, v(sc_ListenInterface c := None))
      else if ev = EventConfigServerNew \<and> v (sc_ListenInterface c) = None then fst s' = cf \<and> added E cf (Servers cf) v (snd s')
      else s' = (cf, v))"

definition abs_daemon :: "'b daemon \<Rightarrow> app_conf \<times> sview" where
  "abs_daemon g = (g_Config g, view g)"

subsection \<open>Refinement\<close>

lemma view_find: "view g i = map_option (\<lambda>sv. (dv_conf sv, dv_hosts sv)) (findServer i g)"
proof -
  have "map_of (map (\<lambda>(i, sv). (i, dv_conf sv, dv_hosts sv)) xs) i = map_option (\<lambda>sv. (dv_conf sv, dv_hosts sv)) (map_of xs i)" for xs
    by (induction xs) auto
  then show ?thesis by (simp add: view_def findServer_def)
qed

lemma view_frame [simp]:
  "view (g\<lparr>g_Config := x1\<rparr>) = view g" "view (g\<lparr>g_logs := x2\<rparr>) = view g" "view (g\<lparr>g_mainlog := x3\<rparr>) = view g"
  "view (g\<lparr>g_svclog := x4\<rparr>) = view g" "view (g\<lparr>g_state := x5\<rparr>) = view g" "view (g\<lparr>g_svc := x7\<rparr>) = view g"
  "view (g\<lparr>g_out := x8\<rparr>) = view g" "view (g\<lparr>g_pidfiles := x9\<rparr>) = view g" "view (g\<lparr>g_gateways := x10\<rparr>) = view g"
  "view (g\<lparr>g_backend := x11\<rparr>) = view g"
  by (simp_all add: view_def)

lemma view_store [simp]: "view (storeServer i sv g) = (view g)(i \<mapsto> (dv_conf sv, dv_hosts sv))"
  by (rule ext) (simp add: view_find findServer_def storeServer_def update_conv')

lemma view_store_same:
  "findServer i g = Some sv \<Longrightarrow> (view g)(i \<mapsto> (dv_conf sv, dv_hosts sv)) = view g"
  by (rule ext) (simp add: view_find)

lemma view_absent: "findServer i g = None \<Longrightarrow> (view g)(i := None) = view g"
  by (rule ext) (simp add: view_find)

lemma view_remove [simp]: "view (removeServer i g) = (view g)(i := None)"
  by (rule ext) (simp add: view_find findServer_def removeServer_def delete_conv')

lemma view_map:
  assumes "\<And>sv. dv_conf (f sv) = dv_conf sv"
  shows "view (mapServers f g) i = map_option (\<lambda>sv. (dv_conf sv, dv_hosts (f sv))) (findServer i g)"
proof -
  have "map_of (map (map_prod id f) xs) i = map_option f (map_of xs i)" for xs :: "(bytes \<times> dserver) list"
    by (induction xs) auto
  then show ?thesis using assms by (simp add: view_find findServer_def mapServers_def option.map_comp comp_def)
qed

lemma view_map_same [simp]:
  "(\<And>sv. dv_conf (f sv) = dv_conf sv) \<Longrightarrow> (\<And>sv. dv_hosts (f sv) = dv_hosts sv) \<Longrightarrow> view (mapServers f g) = view g"
  by (rule ext) (simp only: view_map view_find [of g])

lemma mapServers_Config [simp]: "g_Config (mapServers f g) = g_Config g" "g_Config (storeServer i sv g) = g_Config g"
  "g_Config (removeServer i g) = g_Config g"
  by (simp_all add: mapServers_def storeServer_def removeServer_def)

lemma start_servers_view:
  "start_servers E svs = Done (es, svs') \<Longrightarrow>
     map (\<lambda>(i, sv). (i, dv_conf sv, dv_hosts sv)) svs' = map (\<lambda>(i, sv). (i, dv_conf sv, dv_hosts sv)) svs"
proof (induction svs arbitrary: es svs')
  case (Cons x svs)
  obtain i sv where x: "x = (i, sv)" by fastforce
  obtain go es1 svs1 where go: "starts sv = Done go" and r: "start_servers E svs = Done (es1, svs1)"
    using Cons.prems(1) by (auto simp: x)
  obtain y where "svs' = (i, y) # svs1" "dv_conf y = dv_conf sv" "dv_hosts y = dv_hosts sv"
    using Cons.prems(1) go r by (fastforce simp: x srv_Start_def split: if_splits listen_result.splits)
  with Cons.IH [OF r] show ?case by (simp add: x)
qed simp

lemma abs_Start: "g_Start E reg g = Done (es, g') \<Longrightarrow> abs_daemon g' = abs_daemon g"
proof (cases "g_servers g = []")
  case False
  assume "g_Start E reg g = Done (es, g')"
  then show ?thesis using False
  proof (cases rule: g_Start_cases)
    case (1 es0 g0 es1 svs)
    then show ?thesis using start_servers_view [OF 1(4)] by (simp add: abs_daemon_def view_def)
  qed
qed (auto simp: g_Start_def abs_daemon_def)

lemma abs_backend:
  "backend_Start g = Done (err, g') \<Longrightarrow> abs_daemon g' = abs_daemon g"
  "backend_Reinitialize reg g = (err, g') \<Longrightarrow> abs_daemon g' = abs_daemon g"
  "backend_Shutdown g = Done (err, g') \<Longrightarrow> abs_daemon g' = abs_daemon g"
  using backend_frame by (fastforce simp: abs_daemon_def view_def)+

lemma abs_frame [simp]:
  "abs_daemon (g\<lparr>g_logs := x2\<rparr>) = abs_daemon g" "abs_daemon (g\<lparr>g_svc := x3\<rparr>) = abs_daemon g"
  "abs_daemon (g\<lparr>g_out := x4\<rparr>) = abs_daemon g" "abs_daemon (g\<lparr>g_svclog := x6\<rparr>) = abs_daemon g" "abs_daemon (g\<lparr>g_gateways := x5\<rparr>) = abs_daemon g"
  "abs_daemon (storeBackend b g) = abs_daemon g"
  by (simp_all add: abs_daemon_def storeBackend_def)

lemma abs_reload: "reload_backend E reg c g = Done g' \<Longrightarrow> abs_daemon g' = abs_daemon g"
proof -
  assume h: "reload_backend E reg c g = Done g'"
  obtain l e L where L: "GetLogger (e_fs E) (LogFile c) (LogLevel c) (g_logs g) = ((l, e), L)" by (metis surj_pair)
  obtain err g1 where s: "backend_Shutdown (g\<lparr>g_logs := L\<rparr>) = Done (err, g1)"
    using h L by (auto simp: reload_backend_def)
  have 1: "abs_daemon g1 = abs_daemon g" using abs_backend(3) [OF s] by simp
  obtain n svc out where n: "gw_New reg (BackendConfig c) (g_svc g1) (g_out g1) = (n, svc, out)" using prod_cases3 by blast
  obtain err2 g2 where r: "backend_Reinitialize reg (g1\<lparr>g_svc := svc, g_out := out, g_svclog := l\<rparr>) = (err2, g2)" by fastforce
  have 2: "abs_daemon g2 = abs_daemon g" using abs_backend(2) [OF r] 1 by simp
  show "abs_daemon g' = abs_daemon g"
  proof (cases n)
    case (Inl x)
    then show ?thesis using h L s n r 1 2
      by (auto simp: reload_backend_def fatal_def split: if_splits option.splits dest: abs_backend(1))
  next
    case (Inr gw)
    then show ?thesis using h L s n 1 by (auto simp: reload_backend_def split: if_splits outcome.splits)
  qed
qed

lemma addable_Cons:
  "addable E (c # cs) i = (if Validate (e_os E) c = [] \<and> i = sc_ListenInterface c then Some c else addable E cs i)"
  by (auto simp: addable_def)

lemma added_skip:
  assumes "added E cf cs v v'" and "v (sc_ListenInterface c) \<noteq> None \<or> Validate (e_os E) c \<noteq> []"
  shows "added E cf (c # cs) v v'"
  unfolding added_def
proof
  fix i
  show "added_at cf (addable E (c # cs) i) (v i) (v' i)"
    using assms(2) spec [OF assms(1) [unfolded added_def], of i] by (cases "v i") (auto simp: addable_Cons)
qed

lemma added_put:
  assumes "added E cf cs (v(sc_ListenInterface c \<mapsto> (k, setAllowedHosts (AllowedHosts cf)))) v'" and "k = None \<or> k = Some c"
    and "v (sc_ListenInterface c) = None" and "Validate (e_os E) c = []"
  shows "added E cf (c # cs) v v'"
  unfolding added_def
proof
  fix i
  show "added_at cf (addable E (c # cs) i) (v i) (v' i)"
    using assms(2-4) spec [OF assms(1) [unfolded added_def], of i] by (cases "i = sc_ListenInterface c") (auto simp: addable_Cons)
qed

lemma make_servers_view:
  "make_servers E cs es g = Done (es', g') \<Longrightarrow> g_Config g' = g_Config g \<and> added E (g_Config g) cs (view g) (view g')"
proof (induction cs arbitrary: es g)
  case Nil
  have "added_at cf None x x" for cf x by (cases x) auto
  with Nil show ?case by (auto simp: added_def addable_def)
next
  case (Cons c cs)
  let ?i = "sc_ListenInterface c"
  show ?case
  proof (cases "findServer ?i g \<noteq> None \<or> Validate (e_os E) c \<noteq> []")
    case True
    then obtain es1 where "make_servers E cs es1 g = Done (es', g')" using Cons.prems by (auto split: if_splits)
    with True Cons.IH added_skip show ?thesis by (simp add: view_find)
  next
    case False
    with Cons.prems(1) obtain err sv L where n: "new_server E c (g_backend g) (g_mainlog g) (g_logs g) = Done (err, sv, L)"
      and m: "make_servers E cs (case err of Some e \<Rightarrow> es @ [e] | None \<Rightarrow> es) (storeServer ?i
        (sv\<lparr>dv_hosts := setAllowedHosts (AllowedHosts (g_Config g)), dv_auth := g_auth g\<rparr>) (g\<lparr>g_logs := L\<rparr>)) = Done (es', g')"
      by auto
    have "dv_conf sv = None \<or> dv_conf sv = Some c" using new_server_cases [OF n] by blast
    moreover have "view g ?i = None" using False by (simp add: view_find)
    moreover have "g_Config g' = g_Config g
        \<and> added E (g_Config g) cs ((view g)(?i \<mapsto> (dv_conf sv, setAllowedHosts (AllowedHosts (g_Config g))))) (view g')"
      using Cons.IH [OF m] by (simp del: fun_upd_apply)
    ultimately show ?thesis using False added_put by blast
  qed
qed

lemma makeServers_view:
  "makeServers E g = Done (es, g') \<Longrightarrow> g_Config g' = g_Config g \<and> added E (g_Config g) (Servers (g_Config g)) (view g) (view g')"
  using make_servers_view [of E "Servers (g_Config g)" "[]" g] by (auto simp: makeServers_def)

lemma abs_app_event:
  assumes "app_event E reg ev c g = Done g'"
  shows "spec_event E (PubApp ev c) (abs_daemon g) (abs_daemon g')"
proof (cases ev)
  case EventConfigAllowedHosts
  have "view (mapServers (\<lambda>sv. sv\<lparr>dv_hosts := h\<rparr>) g) i = map_option (map_prod id (\<lambda>_. h)) (view g i)" for h i
    by (subst view_map) (simp_all add: view_find option.map_comp comp_def)
  with EventConfigAllowedHosts assms show ?thesis by (auto simp: abs_daemon_def)
next
  case EventConfigBackendConfig
  with assms abs_reload show ?thesis by (simp add: abs_daemon_def)
qed (use assms in \<open>auto simp: abs_daemon_def g_setConfig_def g_writePid_def split: prod.splits option.splits\<close>)

lemma abs_on_server:
  assumes "on_server c g f = Done g'" and "\<And>sv. findServer (sc_ListenInterface c) g = Some sv \<Longrightarrow> f sv = Done g' \<Longrightarrow> abs_daemon g' = abs_daemon g"
  shows "abs_daemon g' = abs_daemon g"
  using assms by (auto simp: on_server_def split: option.splits)

lemma abs_store_same:
  assumes "findServer i g = Some sv" and "dv_conf sv' = dv_conf sv" and "dv_hosts sv' = dv_hosts sv" and "g_servers g1 = g_servers g"
    and "g_Config g1 = g_Config g"
  shows "abs_daemon (storeServer i sv' g1) = abs_daemon g"
proof -
  have "view g1 = view g" using assms(4) by (simp add: view_def)
  with assms view_store_same [OF assms(1)] show ?thesis by (simp add: abs_daemon_def)
qed

lemma srv_Shutdown_frame: "srv_Shutdown E sv = Done sv' \<Longrightarrow> dv_conf sv' = dv_conf sv \<and> dv_hosts sv' = dv_hosts sv"
  by (auto simp: srv_Shutdown_def Let_def split: if_splits option.splits)

lemma abs_server_event:
  assumes "server_event E reg ev c g = Done g'"
  shows "spec_event E (PubServer ev c) (abs_daemon g) (abs_daemon g')"
proof (cases ev)
  case EventConfigServerConfig
  with assms show ?thesis
    by (auto simp: abs_daemon_def setServerConfig_def view_find [of g "sc_ListenInterface c"] view_absent split: option.splits)
next
  case EventConfigServerNew
  show ?thesis
  proof (cases "findServer (sc_ListenInterface c) g")
    case None
    with EventConfigServerNew assms obtain es g1 where m: "makeServers E g = Done (es, g1)" and "abs_daemon g' = abs_daemon g1"
      by (auto split: if_splits dest: abs_Start)
    with EventConfigServerNew None makeServers_view [OF m] show ?thesis by (simp add: abs_daemon_def view_find)
  next
    case (Some sv)
    with EventConfigServerNew assms show ?thesis by (simp add: abs_daemon_def view_find)
  qed
next
  case EventConfigServerStart
  with assms have "abs_daemon g' = abs_daemon g" by (auto elim!: abs_on_server split: if_splits dest: abs_Start)
  with EventConfigServerStart show ?thesis by (simp add: abs_daemon_def)
next
  case EventConfigServerStop
  with assms have "abs_daemon g' = abs_daemon g"
    by (auto elim!: abs_on_server split: if_splits simp: abs_store_same dest!: srv_Shutdown_frame)
  with EventConfigServerStop show ?thesis by (simp add: abs_daemon_def)
next
  case EventConfigServerRemove
  with assms show ?thesis by (auto simp: abs_daemon_def on_server_def view_find [of g "sc_ListenInterface c"] view_absent split: option.splits)
next
  case EventConfigServerTLSConfig
  with assms have "abs_daemon g' = abs_daemon g"
    by (auto elim!: abs_on_server simp: abs_store_same dest!: configureTLS_frame)
  with EventConfigServerTLSConfig show ?thesis by (simp add: abs_daemon_def)
next
  case EventConfigServerTimeout
  with assms show ?thesis by (auto simp: abs_daemon_def srv_setTimeout_def)
next
  case EventConfigServerLogFile
  with assms have "abs_daemon g' = abs_daemon g"
    by (auto elim!: abs_on_server simp: abs_store_same split: prod.splits option.splits)
  with EventConfigServerLogFile show ?thesis by (simp add: abs_daemon_def)
next
  case EventConfigServerLogReopen
  with assms have "abs_daemon g' = abs_daemon g"
    by (auto elim!: abs_on_server simp: abs_store_same split: option.splits dest!: srv_log_frame)
  with EventConfigServerLogReopen show ?thesis by (simp add: abs_daemon_def)
qed (use assms in \<open>auto simp: abs_daemon_def\<close>)

lemma abs_event: "Publish E reg p g = Done g' \<Longrightarrow> spec_event E p (abs_daemon g) (abs_daemon g')"
  by (cases p) (auto split: if_splits intro: abs_app_event abs_server_event)

text \<open>
  C22: Each event of the daemon refines its specification: a new configuration, new allowed hosts, a
  changed, added or removed server change the daemon's configuration and the servers'
  configurations and hosts as the specification says, and every other event leaves them alone.
\<close>

theorem event_refinement:
  assumes "Publish E reg p g = Done g'"
  shows "spec_event E p (abs_daemon g) (abs_daemon g')"
  using assms by (rule abs_event)

theorem event_refinement_witness:
  "spec_event env1 (PubApp EventConfigNewConfig conf2) (abs_daemon (demo ServerStateRunning True DaemonStarted))
     (abs_daemon (g_setConfig conf2 (demo ServerStateRunning True DaemonStarted)))"
  by (rule event_refinement [where reg = "[]"]) (simp add: demo_def)

subsection \<open>A whole reload\<close>

text \<open>What it means that the servers at the interfaces run a configuration: exactly its interfaces
  have a server, with the configured hosts, and with its configuration if it has one.\<close>

fun serves_at :: "allowedHosts \<Rightarrow> server_conf option \<Rightarrow> (server_conf option \<times> allowedHosts) option \<Rightarrow> bool" where
  "serves_at h None x \<longleftrightarrow> x = None"
| "serves_at h (Some c) x \<longleftrightarrow> x = Some (None, h) \<or> x = Some (Some c, h)"

definition serves :: "app_conf \<Rightarrow> sview \<Rightarrow> bool" where
  "serves c v \<longleftrightarrow> (\<forall>i. serves_at (setAllowedHosts (AllowedHosts c)) (map_of (getServers (Servers c)) i) (v i))"

fun spec_all :: "env \<Rightarrow> publication list \<Rightarrow> app_conf \<times> sview \<Rightarrow> app_conf \<times> sview \<Rightarrow> bool" where
  "spec_all E [] s s' \<longleftrightarrow> s' = s"
| "spec_all E (p # ps) s s' \<longleftrightarrow> (\<exists>s1. spec_event E p s s1 \<and> spec_all E ps s1 s')"

lemma spec_event_one [simp]: "spec_all E [p] s s' = spec_event E p s s'"
  by (cases s') auto

lemma spec_all_append: "spec_all E (ps @ qs) s s' \<longleftrightarrow> (\<exists>s1. spec_all E ps s s1 \<and> spec_all E qs s1 s')"
  by (induction ps arbitrary: s) auto

lemma spec_all_append3:
  assumes "spec_all E (as @ bs @ cs) s s'"
  obtains cf1 v1 cf2 v2 where "spec_all E as s (cf1, v1)" "spec_all E bs (cf1, v1) (cf2, v2)" "spec_all E cs (cf2, v2) s'"
  using assms by (auto simp: spec_all_append)

lemma abs_publish_all: "publish_all E reg ps g = Done g' \<Longrightarrow> spec_all E ps (abs_daemon g) (abs_daemon g')"
proof (induction ps arbitrary: g)
  case (Cons p ps)
  then obtain g1 where "Publish E reg p g = Done g1" "publish_all E reg ps g1 = Done g'" by auto
  then show ?case using Cons.IH abs_event unfolding spec_all.simps by blast
qed simp

lemma map_changes_Nil:
  "map_changes a b = [] \<Longrightarrow> map fst a = map fst b \<Longrightarrow> distinct (map fst b) \<Longrightarrow> a = b"
proof (rule nth_equalityI)
  assume h: "map_changes a b = []" "map fst a = map fst b" "distinct (map fst b)"
  show l: "length a = length b" using h(2) by (metis length_map)
  fix n
  assume n: "n < length a"
  have k: "fst (a ! n) = fst (b ! n)" using h(2) n l by (metis nth_map)
  have "map_of b (fst (b ! n)) = Some (snd (b ! n))" using h(3) n l by simp
  moreover have "\<forall>x \<in> set a. \<forall>v. map_of b (fst x) = Some v \<longrightarrow> snd x = v"
    using h(1) by (auto simp: map_changes_def List.map_filter_def filter_empty_conv split: if_splits)
  ultimately have "snd (a ! n) = snd (b ! n)" using nth_mem [OF n] k by simp
  with k show "a ! n = b ! n" by (simp add: prod_eq_iff)
qed

lemma getChanges_eq:
  assumes "getChanges_server a b = []" and "getChanges_tls (sc_TLS a) (sc_TLS b) = []"
  shows "a = b"
proof -
  have upd: "AList.update k v xs \<noteq> []" for k v xs by (cases xs) auto
  have "map_changes (structtomap_tls (sc_TLS a)) (structtomap_tls (sc_TLS b)) = []"
    using assms(2) by (auto simp: getChanges_tls_def Let_def upd split: if_splits)
  from map_changes_Nil [OF this] have "sc_TLS a = sc_TLS b" by (simp add: structtomap_tls_def tls_conf.equality)
  moreover have "structtomap_server a = structtomap_server b"
    using map_changes_Nil [OF assms(1) [unfolded getChanges_server_def]] by (simp add: structtomap_server_def)
  ultimately show ?thesis by (simp add: structtomap_server_def server_conf.equality)
qed

lemma spec_emit_server:
  assumes "spec_all E (emit_server old sv) (cf, v) (cf', v')"
  shows "cf' = cf \<and> (v' = v \<and> old = sv \<or> v' = v(sc_ListenInterface sv := map_option (map_prod (\<lambda>_. Some sv) id) (v (sc_ListenInterface sv))))"
proof -
  let ?ch = "getChanges_server old sv \<noteq> [] \<or> getChanges_tls (sc_TLS old) (sc_TLS sv) \<noteq> []"
  define rest_ev where "rest_ev = drop (if ?ch then 1 else 0) (emit_server old sv)"
  have e: "emit_server old sv = (if ?ch then [PubServer EventConfigServerConfig sv] else []) @ rest_ev"
    by (simp add: rest_ev_def emit_server_def Let_def)
  have quiet: "\<forall>p \<in> set rest_ev. \<exists>ev. p = PubServer ev sv \<and> ev \<notin> {EventConfigServerConfig, EventConfigServerRemove, EventConfigServerNew}"
    by (auto simp: rest_ev_def emit_server_def Let_def)
  have skip: "spec_all E ps s s' \<Longrightarrow> s' = s"
    if "\<forall>p \<in> set ps. \<exists>ev. p = PubServer ev sv \<and> ev \<notin> {EventConfigServerConfig, EventConfigServerRemove, EventConfigServerNew}" for ps s s'
    using that by (induction ps arbitrary: s) (auto split: if_splits)
  from assms obtain s1 where 1: "spec_all E (if ?ch then [PubServer EventConfigServerConfig sv] else []) (cf, v) s1" and "spec_all E rest_ev s1 (cf', v')"
    unfolding e spec_all_append by blast
  with skip [OF quiet] have "s1 = (cf', v')" by blast
  with 1 getChanges_eq [of old sv] show ?thesis by (auto split: if_splits)
qed

lemma spec_removals:
  "spec_all E (map (\<lambda>(i, sv). PubServer EventConfigServerRemove sv) rs) (cf, v) (cf', v') \<Longrightarrow>
     cf' = cf \<and> v' = (\<lambda>i. if i \<in> sc_ListenInterface ` snd ` set rs then None else v i)"
proof (induction rs arbitrary: v)
  case (Cons x rs)
  then have "spec_all E (map (\<lambda>(i, sv). PubServer EventConfigServerRemove sv) rs) (cf, v(sc_ListenInterface (snd x) := None)) (cf', v')"
    by (cases x) auto
  from Cons.IH [OF this] show ?case by (auto simp: fun_eq_iff)
qed simp

lemma getServers_iface: "(i, sv) \<in> set (getServers scs) \<Longrightarrow> sc_ListenInterface sv = i"
proof -
  have "\<forall>(i, sv) \<in> set m. sc_ListenInterface sv = i \<Longrightarrow>
      \<forall>(i, sv) \<in> set (foldl (\<lambda>m sv. AList.update (sc_ListenInterface sv) sv m) m scs). sc_ListenInterface sv = i" for m
  proof (induction scs arbitrary: m)
    case (Cons c scs)
    then have "\<forall>(i, sv) \<in> set (AList.update (sc_ListenInterface c) c m). sc_ListenInterface sv = i"
      using set_update_subset [of "sc_ListenInterface c" c m] by fastforce
    from Cons.IH [OF this] show ?case by simp
  qed simp
  from this [of "[]"] show "(i, sv) \<in> set (getServers scs) \<Longrightarrow> ?thesis" by (auto simp: getServers_def)
qed

lemma getServers_unique:
  assumes "distinct (map sc_ListenInterface scs)"
  shows "getServers scs = map (\<lambda>c. (sc_ListenInterface c, c)) scs"
proof -
  have "distinct (map fst m @ map sc_ListenInterface scs) \<Longrightarrow>
      foldl (\<lambda>m sv. AList.update (sc_ListenInterface sv) sv m) m scs = m @ map (\<lambda>c. (sc_ListenInterface c, c)) scs" for m
    by (induction scs arbitrary: m) (auto simp: update_append)
  from this [of "[]"] assms show ?thesis by (simp add: getServers_def)
qed

lemma addable_valid:
  "distinct (map sc_ListenInterface cs) \<Longrightarrow> list_all (\<lambda>c. Validate (e_os E) c = []) cs \<Longrightarrow> addable E cs = map_of (getServers cs)"
  by (simp add: addable_def getServers_unique list_all_iff filter_True)

text \<open>The three parts of \<open>EmitChangeEvents\<close>.\<close>

lemma spec_app_events:
  assumes "spec_all E ((if b1 then [PubApp EventConfigBackendConfig c] else []) @ (if \<not> same_conf old c then [PubApp EventConfigNewConfig c] else [])
      @ (if AllowedHosts old \<noteq> AllowedHosts c then [PubApp EventConfigAllowedHosts c] else [])
      @ (if b2 then [PubApp EventConfigPidFile c] else []) @ (if b3 then [PubApp EventConfigLogFile c] else [])
      @ (if b4 then [PubApp EventConfigLogLevel c] else [])) (old, v) (cf, v')" and "serves old v"
  shows "Servers cf = Servers c \<and> AllowedHosts cf = AllowedHosts c
     \<and> (\<forall>i. serves_at (setAllowedHosts (AllowedHosts c)) (map_of (getServers (Servers old)) i) (v' i))"
proof -
  have same: "Servers old = Servers c \<and> AllowedHosts old = AllowedHosts c" if "same_conf old c"
    using that by (cases old; cases c) (simp add: same_conf_def)
  have cf: "cf = (if same_conf old c then old else c)"
    and v': "v' = (if AllowedHosts old = AllowedHosts c then v
      else (\<lambda>i. map_option (map_prod id (\<lambda>_. setAllowedHosts (AllowedHosts c))) (v i)))"
    using assms(1) by (simp_all add: spec_all_append split: if_splits)
  have "serves_at h x (map_option (map_prod id (\<lambda>_. h)) y)" if "serves_at h' x y" for h h' x y
    using that by (cases x) auto
  with assms(2) have "\<forall>i. serves_at h (map_of (getServers (Servers old)) i) (map_option (map_prod id (\<lambda>_. h)) (v i))" for h
    unfolding serves_def by blast
  with assms(2) same show ?thesis
    by (cases "same_conf old c"; cases "AllowedHosts old = AllowedHosts c") (simp_all add: cf v' serves_def)
qed

fun adjusted_at :: "allowedHosts \<Rightarrow> bool \<Rightarrow> server_conf option \<Rightarrow> server_conf option \<Rightarrow> (server_conf option \<times> allowedHosts) option \<Rightarrow> bool" where
  "adjusted_at h p (Some sv) new x \<longleftrightarrow> serves_at h (if p then new else Some sv) x"
| "adjusted_at h p None new x \<longleftrightarrow> serves_at h new x \<or> \<not> p \<and> x = None"

definition adjusted :: "app_conf \<Rightarrow> app_conf \<Rightarrow> bytes set \<Rightarrow> sview \<Rightarrow> bool" where
  "adjusted old c P v \<longleftrightarrow> (\<forall>i. adjusted_at (setAllowedHosts (AllowedHosts c)) (i \<in> P) (map_of (getServers (Servers old)) i)
     (map_of (getServers (Servers c)) i) (v i))"

lemma adjusted_insert:
  assumes "adjusted old c P v" and "\<And>j. j \<noteq> i \<Longrightarrow> v' j = v j"
    and "map_of (getServers (Servers c)) i = Some sv" and "serves_at (setAllowedHosts (AllowedHosts c)) (Some sv) (v' i)"
  shows "adjusted old c (insert i P) v'"
  unfolding adjusted_def
proof
  fix j
  show "adjusted_at (setAllowedHosts (AllowedHosts c)) (j \<in> insert i P) (map_of (getServers (Servers old)) j)
     (map_of (getServers (Servers c)) j) (v' j)"
    using spec [OF assms(1) [unfolded adjusted_def], of j] assms(2-4)
    by (cases "j = i"; cases "map_of (getServers (Servers old)) j") auto
qed

lemma spec_server_event:
  assumes "spec_all E (case map_of (getServers (Servers old)) i of
        Some oldServer \<Rightarrow> emit_server oldServer sv | None \<Rightarrow> [PubServer EventConfigServerNew sv]) (cf, v) (cf', v')"
    and "adjusted old c P v" and "map_of (getServers (Servers c)) i = Some sv"
    and "Servers cf = Servers c" and "AllowedHosts cf = AllowedHosts c" and "addable E (Servers c) = map_of (getServers (Servers c))"
  shows "cf' = cf \<and> adjusted old c (insert i P) v'"
proof (cases "map_of (getServers (Servers old)) i")
  case (Some old_sv)
  have i: "sc_ListenInterface sv = i" by (rule getServers_iface [OF map_of_SomeD [OF assms(3)]])
  have vi: "serves_at (setAllowedHosts (AllowedHosts c)) (if i \<in> P then Some sv else Some old_sv) (v i)"
    using spec [OF assms(2) [unfolded adjusted_def], of i] Some assms(3) by (simp split: if_splits)
  from spec_emit_server [of E old_sv sv cf v cf' v'] assms(1) Some i
  have "cf' = cf" and v': "v' = v \<and> old_sv = sv \<or> v' = v(i := map_option (map_prod (\<lambda>_. Some sv) id) (v i))" by simp_all
  moreover have "serves_at (setAllowedHosts (AllowedHosts c)) (Some sv) (v' i)" using vi v' by (auto split: if_splits)
  moreover have "v' j = v j" if "j \<noteq> i" for j using v' that by auto
  ultimately show ?thesis using adjusted_insert [OF assms(2) _ assms(3)] by blast
next
  case None
  have i: "sc_ListenInterface sv = i" by (rule getServers_iface [OF map_of_SomeD [OF assms(3)]])
  have at: "adjusted_at (setAllowedHosts (AllowedHosts c)) (j \<in> P) (map_of (getServers (Servers old)) j)
     (map_of (getServers (Servers c)) j) (v j)" for j using assms(2) by (simp add: adjusted_def)
  show ?thesis
  proof (cases "v i")
    case (Some x)
    with assms(1) None i have "cf' = cf \<and> v' = v" by simp
    moreover have "serves_at (setAllowedHosts (AllowedHosts c)) (Some sv) (v i)" using at [of i] Some None assms(3) by simp
    ultimately show ?thesis using adjusted_insert [OF assms(2) _ assms(3)] by blast
  next
    case vi: None
    with assms(1) None i have "cf' = cf" and ad: "added E cf (Servers c) v v'" using assms(4) by simp_all
    have "adjusted old c (insert i P) v'" unfolding adjusted_def
    proof
      fix j
      have "added_at cf (map_of (getServers (Servers c)) j) (v j) (v' j)" using ad assms(6) by (simp add: added_def)
      then show "adjusted_at (setAllowedHosts (AllowedHosts c)) (j \<in> insert i P) (map_of (getServers (Servers old)) j)
         (map_of (getServers (Servers c)) j) (v' j)"
        using at [of j] None assms(5)
        by (cases "v j"; cases "map_of (getServers (Servers c)) j"; cases "map_of (getServers (Servers old)) j") (auto split: if_splits)
    qed
    with \<open>cf' = cf\<close> show ?thesis by simp
  qed
qed

lemma spec_server_events:
  assumes "spec_all E (concat (map (\<lambda>(i, sv). case map_of (getServers (Servers old)) i of
        Some oldServer \<Rightarrow> emit_server oldServer sv | None \<Rightarrow> [PubServer EventConfigServerNew sv]) new)) (cf, v) (cf', v')"
    and "set new \<subseteq> set (getServers (Servers c))" and "adjusted old c P v"
    and "Servers cf = Servers c" and "AllowedHosts cf = AllowedHosts c" and "addable E (Servers c) = map_of (getServers (Servers c))"
  shows "cf' = cf \<and> adjusted old c (P \<union> fst ` set new) v'"
  using assms(1-3)
proof (induction new arbitrary: v P)
  case (Cons x new)
  obtain i sv where x: "x = (i, sv)" by fastforce
  obtain cf1 v1 where 1: "spec_all E (case map_of (getServers (Servers old)) i of
        Some oldServer \<Rightarrow> emit_server oldServer sv | None \<Rightarrow> [PubServer EventConfigServerNew sv]) (cf, v) (cf1, v1)"
    and 2: "spec_all E (concat (map (\<lambda>(i, sv). case map_of (getServers (Servers old)) i of
        Some oldServer \<Rightarrow> emit_server oldServer sv | None \<Rightarrow> [PubServer EventConfigServerNew sv]) new)) (cf1, v1) (cf', v')"
    using Cons.prems(1) by (auto simp: x spec_all_append)
  have "map_of (getServers (Servers c)) i = Some sv" using Cons.prems(2) getServers_distinct by (simp add: x)
  from spec_server_event [OF 1 Cons.prems(3) this assms(4-6)] have "cf1 = cf" "adjusted old c (insert i P) v1" by simp_all
  with Cons.IH [of v1 "insert i P"] 2 Cons.prems(2) show ?case by (simp add: x)
qed simp

lemma reload_serves:
  assumes "publish_all E reg (EmitChangeEvents c old) g = Done g'" and "g_Config g = old" and "serves old (view g)"
    and "distinct (map sc_ListenInterface (Servers c))" and "list_all (\<lambda>sv. Validate (e_os E) sv = []) (Servers c)"
  shows "serves c (view g') \<and> Servers (g_Config g') = Servers c \<and> AllowedHosts (g_Config g') = AllowedHosts c"
proof -
  let ?old = "getServers (Servers old)" and ?new = "getServers (Servers c)"
  let ?rs = "filter (\<lambda>(i, sv). map_of ?new i = None) ?old"
  let ?A = "(if \<not> same_backend (BackendConfig c) (BackendConfig old) then [PubApp EventConfigBackendConfig c] else [])
        @ (if \<not> same_conf old c then [PubApp EventConfigNewConfig c] else [])
        @ (if AllowedHosts old \<noteq> AllowedHosts c then [PubApp EventConfigAllowedHosts c] else [])
        @ (if PidFile old \<noteq> PidFile c then [PubApp EventConfigPidFile c] else [])
        @ (if LogFile old \<noteq> LogFile c then [PubApp EventConfigLogFile c] else [])
        @ (if LogLevel old \<noteq> LogLevel c then [PubApp EventConfigLogLevel c] else [])"
    and ?B = "concat (map (\<lambda>(i, sv). case map_of ?old i of
        Some oldServer \<Rightarrow> emit_server oldServer sv | None \<Rightarrow> [PubServer EventConfigServerNew sv]) ?new)"
    and ?R = "map (\<lambda>(i, sv). PubServer EventConfigServerRemove sv) ?rs"
  have "EmitChangeEvents c old = ?A @ ?B @ ?R" unfolding EmitChangeEvents_def Let_def append_assoc ..
  with abs_publish_all [OF assms(1)] assms(2) have "spec_all E (?A @ ?B @ ?R) (old, view g) (g_Config g', view g')"
    by (simp only: abs_daemon_def)
  then obtain cf1 v1 cf2 v2 where 1: "spec_all E ?A (old, view g) (cf1, v1)" and 2: "spec_all E ?B (cf1, v1) (cf2, v2)"
    and 3: "spec_all E ?R (cf2, v2) (g_Config g', view g')" by (rule spec_all_append3)
  note app = spec_app_events [OF 1 assms(3)]
  then have "serves_at (setAllowedHosts (AllowedHosts c)) (map_of ?old i) (v1 i)" for i by simp
  then have "adjusted_at (setAllowedHosts (AllowedHosts c)) False (map_of ?old i) (map_of ?new i) (v1 i)" for i
    by (cases "map_of ?old i") (metis adjusted_at.simps serves_at.simps(1))+
  then have "adjusted old c {} v1" by (simp add: adjusted_def)
  from spec_server_events [OF 2 subset_refl this] app addable_valid [OF assms(4,5)]
  have 22: "cf2 = cf1" "adjusted old c (fst ` set ?new) v2" by simp_all
  have rs: "sc_ListenInterface ` snd ` set ?rs = {i. map_of ?new i = None \<and> map_of ?old i \<noteq> None}"
  proof (intro set_eqI iffI)
    fix i
    assume "i \<in> sc_ListenInterface ` snd ` set ?rs"
    then obtain j sv where "(j, sv) \<in> set ?old" "map_of ?new j = None" "i = sc_ListenInterface sv" by auto
    then show "i \<in> {i. map_of ?new i = None \<and> map_of ?old i \<noteq> None}" using getServers_iface [of j sv "Servers old"] getServers_distinct by auto
  next
    fix i
    assume "i \<in> {i. map_of ?new i = None \<and> map_of ?old i \<noteq> None}"
    then obtain sv where sv: "(i, sv) \<in> set ?old" "map_of ?new i = None" by (auto dest: map_of_SomeD)
    then have "sv \<in> snd ` set ?rs" by force
    with getServers_iface [OF sv(1)] show "i \<in> sc_ListenInterface ` snd ` set ?rs" by blast
  qed
  have "serves c (view g')" unfolding serves_def
  proof
    fix i
    have "i \<in> fst ` set ?new \<longleftrightarrow> map_of ?new i \<noteq> None" by (simp add: map_of_eq_None_iff)
    then show "serves_at (setAllowedHosts (AllowedHosts c)) (map_of ?new i) (view g' i)"
      using spec [OF 22(2) [unfolded adjusted_def], of i] spec_removals [OF 3, unfolded rs]
      by (cases "map_of ?new i"; cases "map_of ?old i") (auto split: if_splits)
  qed
  with spec_removals [OF 3] 22 app show ?thesis by simp
qed

text \<open>
  Loading a new configuration while the daemon runs the old one makes it run the new one: after all
  events of \<open>EmitChangeEvents\<close>, when none of their handlers fails to return, exactly the
  interfaces of the new configuration have a server, each with the new configuration of that interface
  (or none, when its log could not be opened) and with the new allowed hosts. The new
  configuration has valid servers on different interfaces.
\<close>

theorem reload_config:
  assumes "publish_all E reg (EmitChangeEvents c old) g = Done g'" and "g_Config g = old" and "serves old (view g)"
    and "distinct (map sc_ListenInterface (Servers c))" and "list_all (\<lambda>sv. Validate (e_os E) sv = []) (Servers c)"
  shows "serves c (view g') \<and> Servers (g_Config g') = Servers c \<and> AllowedHosts (g_Config g') = AllowedHosts c"
  using assms by (rule reload_serves)

definition conf3 :: app_conf where
  "conf3 = conf1\<lparr>Servers := [(default_server ''mail.example.com'' [])\<lparr>sc_Timeout := 60\<rparr>], AllowedHosts := [''example.org'']\<rparr>"

theorem reload_config_witness:
  "\<exists>g'. publish_all env1 [] (EmitChangeEvents conf3 conf1) (demo ServerStateRunning True DaemonStarted) = Done g' \<and> serves conf3 (view g')"
proof -
  let ?g = "demo ServerStateRunning True DaemonStarted"
  have "returns (publish_all env1 [] (EmitChangeEvents conf3 conf1) ?g)" by code_simp
  then obtain g' where g': "publish_all env1 [] (EmitChangeEvents conf3 conf1) ?g = Done g'" using returnsD by blast
  have "g_Config ?g = conf1" by (simp add: demo_def)
  moreover have "serves conf1 (view ?g)"
    by (simp add: serves_def view_def demo_def conf1_def getServers_def default_server_def)
  moreover have "distinct (map sc_ListenInterface (Servers conf3))" "list_all (\<lambda>sv. Validate (e_os env1) sv = []) (Servers conf3)" by code_simp+
  ultimately show ?thesis using reload_config [OF g'] g' by blast
qed

end
