(* ===== verification/Api.thy ===== *)
theory Api
  imports Reload
begin

section \<open>The interface for programs that embed the server (api.go)\<close>

text \<open>
  \<open>Daemon\<close> is a facade over the configuration, the logger, the backend and the daemon, which it makes at the
  first \<open>Start\<close>. Until then the service of the backends, what the processors change, the logs and the
  backend are fields of the record; from then on they are those of the daemon. The program may
  set \<open>Config\<close>, \<open>Logger\<close> and \<open>Backend\<close>; a logger is one of the package log. The handlers that the
  program subscribes itself are noted in \<open>ap_bus\<close> when the event bus takes them; what they do is not part of the model.
  An error is a list of texts, which is empty for nil. A nil pointer or a nil interface whose method is
  called is a \<open>Crash\<close>.
\<close>

datatype handler = FuncHandler bytes nat | ValueHandler bytes nat

record apienv =
  ae_env :: env
  ae_marshal :: "app_conf \<Rightarrow> bytes + (bytes + app_conf)"
  ae_file :: "bytes \<Rightarrow> bytes + (bytes + app_conf)"
  ae_subscribe :: "event \<Rightarrow> handler \<Rightarrow> bytes option"
  ae_unsubscribe :: "event \<Rightarrow> handler \<Rightarrow> (event \<times> handler) list \<Rightarrow> bytes option \<times> (event \<times> handler) list"

record 'b api =
  ap_Config :: "app_conf option"
  ap_Logger :: "nat option"
  ap_Backend :: "nat option"
  ap_g :: "'b daemon option"
  ap_auth :: "nat option"
  ap_subs :: "(event \<times> handler) list"
  ap_bus :: "(event \<times> handler) list"
  ap_hasbus :: bool
  ap_gateways :: "'b gateway list"
  ap_svc :: "'b service"
  ap_out :: 'b
  ap_logs :: logs
  ap_svclog :: "nat option"

definition nil_pointer :: "'a run" where
  "nil_pointer = Crash ''nil pointer dereference''"

definition zero_conf :: app_conf where
  "zero_conf = \<lparr>Servers = [], AllowedHosts = [], PidFile = [], LogFile = [], LogLevel = [], BackendConfig = [],
     AuthConf = \<lparr>AuthEnabled = False, AuthType = [], AuthURL = [], AuthTimeout = [], AuthHeaders = []\<rparr>,
     TenantRegistry = \<lparr>tr_URL = [], tr_PollInterval = [], tr_Timeout = [], tr_Headers = []\<rparr>\<rparr>"

definition api_logs :: "'b api \<Rightarrow> logs" where
  "api_logs d = (case ap_g d of Some g \<Rightarrow> g_logs g | None \<Rightarrow> ap_logs d)"

definition set_logs :: "logs \<Rightarrow> 'b api \<Rightarrow> 'b api" where
  "set_logs L d = (case ap_g d of Some g \<Rightarrow> d\<lparr>ap_g := Some (g\<lparr>g_logs := L\<rparr>)\<rparr> | None \<Rightarrow> d\<lparr>ap_logs := L\<rparr>)"

subsection \<open>Events and the authenticator\<close>

text \<open>Comparing two function values of one type panics; values of different types differ.\<close>

fun same_handler :: "handler \<Rightarrow> handler \<Rightarrow> bool outcome" where
  "same_handler (FuncHandler t a) (FuncHandler u b) = (if t = u then Panic ''comparing uncomparable type'' else Ret False)"
| "same_handler (ValueHandler t a) (ValueHandler u b) = Ret (t = u \<and> a = b)"
| "same_handler _ _ = Ret False"

definition api_Subscribe :: "apienv \<Rightarrow> event \<Rightarrow> handler \<Rightarrow> 'b api \<Rightarrow> bytes option \<times> 'b api" where
  "api_Subscribe A topic fn d =
     (if ap_g d = None then (None, d\<lparr>ap_subs := ap_subs d @ [(topic, fn)]\<rparr>)
      else (case ae_subscribe A topic fn of
              Some err \<Rightarrow> (Some err, d\<lparr>ap_hasbus := True\<rparr>)
            | None \<Rightarrow> (None, d\<lparr>ap_hasbus := True, ap_bus := ap_bus d @ [(topic, fn)]\<rparr>)))"

text \<open>Events reach the handlers of the daemon only when \<open>New\<close> got as far as its subscriptions.\<close>

definition api_emit :: "apienv \<Rightarrow> 'b registry \<Rightarrow> publication list \<Rightarrow> 'b daemon \<Rightarrow> 'b api \<Rightarrow> 'b api run" where
  "api_emit A reg ps g d =
     (if \<not> g_bus g \<and> ap_hasbus d then Done d
      else bind_run (publish_all (ae_env A) reg ps g) (\<lambda>g. Done (d\<lparr>ap_g := Some g\<rparr>)))"

definition api_Publish :: "apienv \<Rightarrow> 'b registry \<Rightarrow> publication \<Rightarrow> 'b api \<Rightarrow> 'b api run" where
  "api_Publish A reg p d =
     (case ap_g d of
        None \<Rightarrow> Done d
      | Some g \<Rightarrow> api_emit A reg [p] g d)"

text \<open>The indices are those of the list before the loop.\<close>

fun unsub_loop :: "event \<Rightarrow> handler \<Rightarrow> nat list \<Rightarrow> (event \<times> handler) list \<Rightarrow> (event \<times> handler) list outcome" where
  "unsub_loop topic h [] subs = Ret subs"
| "unsub_loop topic h (i # is) subs =
     (if i \<ge> length subs then Panic ''index out of range''
      else if fst (subs ! i) \<noteq> topic then unsub_loop topic h is subs
      else bind_outcome (same_handler (snd (subs ! i)) h) (\<lambda>same.
             unsub_loop topic h is (if same then take i subs @ drop (i + 1) subs else subs)))"

definition api_Unsubscribe :: "apienv \<Rightarrow> event \<Rightarrow> handler \<Rightarrow> 'b api \<Rightarrow> (bytes option \<times> 'b api) outcome" where
  "api_Unsubscribe A topic h d =
     (case ap_g d of
        None \<Rightarrow> bind_outcome (unsub_loop topic h [0..<length (ap_subs d)] (ap_subs d)) (\<lambda>subs. Ret (None, d\<lparr>ap_subs := subs\<rparr>))
      | Some g \<Rightarrow>
          if \<not> g_bus g \<and> \<not> ap_hasbus d then Panic ''nil pointer dereference''
          else (case ae_unsubscribe A topic h (ap_bus d) of (err, bus) \<Rightarrow> Ret (err, d\<lparr>ap_bus := bus\<rparr>)))"

definition api_SetAuthenticator :: "nat option \<Rightarrow> 'b api \<Rightarrow> 'b api" where
  "api_SetAuthenticator a d = d\<lparr>ap_auth := a, ap_g := map_option (g_SetAuthenticator a) (ap_g d)\<rparr>"

subsection \<open>Start and shutdown\<close>

definition api_configureDefaults :: "apienv \<Rightarrow> app_conf \<Rightarrow> 'b api \<Rightarrow> bytes list \<times> 'b api" where
  "api_configureDefaults A c d =
     (case setDefaults (e_os (ae_env A)) c of
        (Some err, c) \<Rightarrow> ([err], d\<lparr>ap_Config := Some c\<rparr>)
      | (None, c) \<Rightarrow>
          if ap_Backend d = None
          then (case setBackendDefaults (e_os (ae_env A)) c of
                  (Some err, c) \<Rightarrow> ([err], d\<lparr>ap_Config := Some c\<rparr>)
                | (None, c) \<Rightarrow> ([], d\<lparr>ap_Config := Some c\<rparr>))
          else ([], d\<lparr>ap_Config := Some c\<rparr>))"

definition api_logger :: "apienv \<Rightarrow> app_conf \<Rightarrow> 'b api \<Rightarrow> bytes list \<times> 'b api" where
  "api_logger A c d =
     (if ap_Logger d = None
      then (case GetLogger (e_fs (ae_env A)) (LogFile c) (LogLevel c) (api_logs d) of
              ((l, err), L) \<Rightarrow> (case err of Some e \<Rightarrow> [e] | None \<Rightarrow> [], (set_logs L d)\<lparr>ap_Logger := l\<rparr>))
      else ([], d))"

definition api_backend :: "'b registry \<Rightarrow> app_conf \<Rightarrow> 'b api \<Rightarrow> bytes list \<times> 'b api" where
  "api_backend reg c d =
     (if ap_Backend d = None
      then (case gw_New reg (BackendConfig c) (ap_svc d) (ap_out d) of
              (Inl err, svc, out) \<Rightarrow> ([err], d\<lparr>ap_svc := svc, ap_out := out, ap_svclog := ap_Logger d\<rparr>)
            | (Inr gw, svc, out) \<Rightarrow>
                ([], d\<lparr>ap_svc := svc, ap_out := out, ap_svclog := ap_Logger d, ap_Backend := Some (length (ap_gateways d)),
                       ap_gateways := ap_gateways d @ [gw]\<rparr>))
      else ([], d))"

text \<open>The deferred subscriptions; their errors are ignored.\<close>

definition api_deferred :: "apienv \<Rightarrow> 'b api \<Rightarrow> 'b api" where
  "api_deferred A d = (fold (\<lambda>(topic, fn) d. snd (api_Subscribe A topic fn d)) (ap_subs d) d)\<lparr>ap_subs := []\<rparr>"

text \<open>\<open>New\<close> returns the daemon also when it returns an error, and \<open>Start\<close> keeps it.\<close>

definition api_new :: "apienv \<Rightarrow> app_conf \<Rightarrow> 'b api \<Rightarrow> (bytes list \<times> 'b api) run" where
  "api_new A c d =
     (case (ap_Backend d, ap_Logger d) of
        (Some b, Some l) \<Rightarrow>
          bind_run (g_New (ae_env A) c b l (ap_gateways d) (ap_svc d) (ap_out d) (api_logs d)) (\<lambda>(es, g).
            let d = d\<lparr>ap_g := Some (g\<lparr>g_svclog := ap_svclog d\<rparr>)\<rparr>
            in if es \<noteq> [] then Done (es, d)
               else Done ([], api_deferred A (if ap_auth d \<noteq> None then api_SetAuthenticator (ap_auth d) d else d)))
      | _ \<Rightarrow> nil_pointer)"

definition api_conf :: "'b api \<Rightarrow> app_conf" where
  "api_conf d = (case ap_Config d of Some c \<Rightarrow> c | None \<Rightarrow> zero_conf)"

definition api_create :: "apienv \<Rightarrow> 'b registry \<Rightarrow> 'b api \<Rightarrow> (bytes list \<times> 'b api) run" where
  "api_create A reg d =
     (let (es, d) = api_configureDefaults A (api_conf d) d in
      if es \<noteq> [] then Done (es, d) else
      let (es, d) = api_logger A (api_conf d) d in
      if es \<noteq> [] then Done (es, d) else
      let (es, d) = api_backend reg (api_conf d) d in
      if es \<noteq> [] then Done (es, d) else api_new A (api_conf d) d)"

definition api_resetLogger :: "apienv \<Rightarrow> 'b api \<Rightarrow> (bytes option \<times> 'b api) run" where
  "api_resetLogger A d =
     (case (ap_Config d, ap_g d) of
        (Some c, Some g) \<Rightarrow>
          (case GetLogger (e_fs (ae_env A)) (LogFile c) (LogLevel c) (g_logs g) of
             ((Some l, None), L) \<Rightarrow> Done (None, d\<lparr>ap_Logger := Some l, ap_g := Some (g_SetLogger l (g\<lparr>g_logs := L\<rparr>))\<rparr>)
           | ((_, err), L) \<Rightarrow> Done (err, set_logs L d))
      | _ \<Rightarrow> nil_pointer)"

definition api_Start :: "apienv \<Rightarrow> 'b registry \<Rightarrow> 'b api \<Rightarrow> (bytes list \<times> 'b api) run" where
  "api_Start A reg d =
     bind_run (if ap_g d = None then api_create A reg d else Done ([], d)) (\<lambda>(es, d).
       if es \<noteq> [] then Done (es, d)
       else (case ap_g d of
          None \<Rightarrow> nil_pointer
        | Some g \<Rightarrow>
            bind_run (g_Start (ae_env A) reg g) (\<lambda>(es, g).
              if es \<noteq> [] then Done (es, d\<lparr>ap_g := Some g\<rparr>)
              else bind_run (api_resetLogger A (d\<lparr>ap_g := Some g\<rparr>)) (\<lambda>(err, d). Done ([], d)))))"

definition api_Shutdown :: "apienv \<Rightarrow> 'b api \<Rightarrow> 'b api run" where
  "api_Shutdown A d =
     (case ap_g d of
        None \<Rightarrow> Done d
      | Some g \<Rightarrow> bind_run (g_Shutdown (ae_env A) g) (\<lambda>g. Done (d\<lparr>ap_g := Some g\<rparr>)))"

subsection \<open>Configuration\<close>

text \<open>The logger of \<open>Log\<close>, nil when the level is not valid and no logger is set.\<close>

definition api_Log :: "apienv \<Rightarrow> 'b api \<Rightarrow> nat option \<times> 'b api" where
  "api_Log A d =
     (if ap_Logger d \<noteq> None then (ap_Logger d, d)
      else (let c = api_conf d;
                out = (if length (LogFile c) > 0 then LogFile c else ''stderr'');
                level = (if length (LogLevel c) > 0 then LogLevel c else ''info'')
            in case GetLogger (e_fs (ae_env A)) out level (api_logs d) of ((l, err), L) \<Rightarrow> (l, set_logs L d)))"

definition with_log :: "apienv \<Rightarrow> 'b api \<Rightarrow> ('b api \<Rightarrow> 'a run) \<Rightarrow> 'a run" where
  "with_log A d f = (case api_Log A d of (None, d) \<Rightarrow> nil_pointer | (Some l, d) \<Rightarrow> f d)"

definition load_json :: "apienv \<Rightarrow> bytes + app_conf \<Rightarrow> bytes + app_conf" where
  "load_json A r =
     (case r of
        Inl err \<Rightarrow> Inl (''could not parse config file: '' @ err)
      | Inr c \<Rightarrow> (case conf_Load (e_os (ae_env A)) c of (Some err, c) \<Rightarrow> Inl err | (None, c) \<Rightarrow> Inr c))"

definition api_LoadConfig :: "apienv \<Rightarrow> bytes \<Rightarrow> 'b api \<Rightarrow> (bytes + app_conf) \<times> 'b api" where
  "api_LoadConfig A file d =
     (case ae_file A file of
        Inl err \<Rightarrow> (Inl (''could not read config file: '' @ err), d)
      | Inr r \<Rightarrow>
          (case load_json A r of
             Inl err \<Rightarrow> (Inl err, d)
           | Inr ac \<Rightarrow> (Inr ac, if ap_Config d = None then d\<lparr>ap_Config := Some ac\<rparr> else d)))"

definition api_SetConfig :: "apienv \<Rightarrow> app_conf \<Rightarrow> 'b api \<Rightarrow> bytes option \<times> 'b api" where
  "api_SetConfig A c d =
     (case ae_marshal A c of
        Inl err \<Rightarrow> (Some err, d)
      | Inr r \<Rightarrow> (case load_json A r of Inl err \<Rightarrow> (Some err, d) | Inr c \<Rightarrow> (None, d\<lparr>ap_Config := Some c\<rparr>)))"

text \<open>Publishing on a daemon that was not made yet calls a method of a nil interface.\<close>

definition api_changes :: "apienv \<Rightarrow> 'b registry \<Rightarrow> publication list \<Rightarrow> 'b api \<Rightarrow> (bytes option \<times> 'b api) run" where
  "api_changes A reg ps d =
     bind_run (case ap_g d of None \<Rightarrow> if ps = [] then Done d else nil_pointer | Some g \<Rightarrow> api_emit A reg ps g d) (\<lambda>d. Done (None, d))"

definition api_ReloadConfig :: "apienv \<Rightarrow> 'b registry \<Rightarrow> app_conf \<Rightarrow> 'b api \<Rightarrow> (bytes option \<times> 'b api) run" where
  "api_ReloadConfig A reg c d =
     (case ap_Config d of
        None \<Rightarrow> nil_pointer
      | Some oldConfig \<Rightarrow>
          (case api_SetConfig A c d of
             (Some err, d) \<Rightarrow> with_log A d (\<lambda>d. Done (Some err, d))
           | (None, d) \<Rightarrow> with_log A d (\<lambda>d.
               api_changes A reg (EmitChangeEvents (api_conf d) oldConfig) d)))"

definition api_ReloadConfigFile :: "apienv \<Rightarrow> 'b registry \<Rightarrow> bytes \<Rightarrow> 'b api \<Rightarrow> (bytes option \<times> 'b api) run" where
  "api_ReloadConfigFile A reg file d =
     (case api_LoadConfig A file d of
        (Inl err, d) \<Rightarrow> with_log A d (\<lambda>d. Done (Some err, d))
      | (Inr ac, d) \<Rightarrow>
          (case ap_Config d of
             None \<Rightarrow> Done (None, d)
           | Some oldConfig \<Rightarrow> with_log A (d\<lparr>ap_Config := Some ac\<rparr>) (\<lambda>d.
               api_changes A reg (EmitChangeEvents ac oldConfig) d)))"

definition api_ReopenLogs :: "apienv \<Rightarrow> 'b registry \<Rightarrow> 'b api \<Rightarrow> (bytes option \<times> 'b api) run" where
  "api_ReopenLogs A reg d =
     (case ap_Config d of
        None \<Rightarrow> Done (Some ''d.Config nil'', d)
      | Some c \<Rightarrow> api_changes A reg (EmitLogReopenEvents c) d)"

subsection \<open>Unsubscribing before the start\<close>

lemma unsub_loop_func:
  "\<forall>i \<in> set is. i < length subs \<Longrightarrow> unsub_loop topic (FuncHandler ty n) is subs =
     (if \<exists>i \<in> set is. \<exists>k. subs ! i = (topic, FuncHandler ty k) then Panic ''comparing uncomparable type'' else Ret subs)"
proof (induction "is")
  case (Cons i "is")
  obtain t f where i: "subs ! i = (t, f)" by fastforce
  with Cons show ?case by (cases f) auto
qed simp

text \<open>
  Before the first start \<open>Unsubscribe\<close> never takes back a handler: for a function it panics as soon as
  a handler of the same type was subscribed to the event, and otherwise there is nothing to take back.
\<close>

theorem unsubscribe_deferred:
  assumes "ap_g d = None"
  shows "api_Unsubscribe A topic (FuncHandler ty n) d =
    (if \<exists>k. (topic, FuncHandler ty k) \<in> set (ap_subs d) then Panic ''comparing uncomparable type'' else Ret (None, d))"
proof -
  have "(\<exists>k. (topic, FuncHandler ty k) \<in> set (ap_subs d))
      \<longleftrightarrow> (\<exists>i \<in> set [0..<length (ap_subs d)]. \<exists>k. ap_subs d ! i = (topic, FuncHandler ty k))"
    by (auto simp: in_set_conv_nth) (metis atLeastLessThan_iff set_upt zero_le)
  with assms show ?thesis by (simp add: api_Unsubscribe_def unsub_loop_func)
qed

subsection \<open>The authenticator\<close>

lemma make_servers_auth: "make_servers E cs es g = Done (es', g') \<Longrightarrow> g_auth g' = g_auth g"
proof (induction cs arbitrary: es g)
  case (Cons c cs)
  then show ?case by (auto split: if_splits simp: storeServer_def dest!: Cons.IH)
qed simp

lemma backend_Start_auth: "backend_Start g = Done (err, g') \<Longrightarrow> g_auth g' = g_auth g \<and> g_state g' = g_state g"
  by (auto simp: backend_Start_def set_gateway_def split: outcome.splits)

lemma g_New_auth: "g_New E ac b l gws svc out L = Done (es, g) \<Longrightarrow> g_auth g = None"
  by (auto simp: g_New_def makeServers_def Let_def g_writePid_def split: if_splits option.splits prod.splits
      dest!: make_servers_auth backend_Start_auth)

lemma g_Start_auth: "g_Start E reg g = Done (es, g') \<Longrightarrow> g_auth g' = g_auth g \<and> g_state g' = DaemonStarted"
  by (auto simp: g_Start_def backend_Reinitialize_def set_gateway_def Let_def split: if_splits prod.splits dest!: backend_Start_auth)

lemma deferred_frame [simp]:
  "ap_g (api_deferred A d) = ap_g d" "ap_subs (api_deferred A d) = []" "ap_auth (api_deferred A d) = ap_auth d"
  "ap_Config (api_deferred A d) = ap_Config d" "ap_Logger (api_deferred A d) = ap_Logger d"
proof -
  have "ap_g (fold (\<lambda>(topic, fn) d. snd (api_Subscribe A topic fn d)) subs d) = ap_g d
      \<and> ap_auth (fold (\<lambda>(topic, fn) d. snd (api_Subscribe A topic fn d)) subs d) = ap_auth d
      \<and> ap_Config (fold (\<lambda>(topic, fn) d. snd (api_Subscribe A topic fn d)) subs d) = ap_Config d
      \<and> ap_Logger (fold (\<lambda>(topic, fn) d. snd (api_Subscribe A topic fn d)) subs d) = ap_Logger d" for subs
  proof (induction subs arbitrary: d)
    case (Cons x subs)
    then show ?case by (cases x) (auto simp: api_Subscribe_def split: option.splits)
  qed simp
  then show "ap_g (api_deferred A d) = ap_g d" "ap_subs (api_deferred A d) = []" "ap_auth (api_deferred A d) = ap_auth d"
      "ap_Config (api_deferred A d) = ap_Config d" "ap_Logger (api_deferred A d) = ap_Logger d"
    by (simp_all add: api_deferred_def)
qed

text \<open>What the daemon is after the parts of the first start.\<close>

definition fresh_api :: "'b api \<Rightarrow> bool" where
  "fresh_api d \<longleftrightarrow> ap_g d = None \<and> ap_Backend d = None \<and> ap_gateways d = []"

lemma daemon_ok_SetAuthenticator:
  "daemon_ok g \<Longrightarrow> daemon_ok (g_SetAuthenticator a g) \<and> g_auth (g_SetAuthenticator a g) = a \<and> g_state (g_SetAuthenticator a g) = g_state g"
  by (auto simp: g_SetAuthenticator_def daemon_ok_def mapServers_def sv_ok_def comp_def server_ok_def)

lemma configured:
  assumes "api_configureDefaults A c d = (es, d1)"
  shows "ap_g d1 = ap_g d \<and> ap_Backend d1 = ap_Backend d \<and> ap_gateways d1 = ap_gateways d \<and> ap_auth d1 = ap_auth d
    \<and> ap_Logger d1 = ap_Logger d"
  using assms by (auto simp: api_configureDefaults_def split: prod.splits option.splits if_splits)

lemma logged:
  assumes "api_logger A c d = (es, d1)"
  shows "(ap_g d = None \<longrightarrow> ap_g d1 = None) \<and> ap_Backend d1 = ap_Backend d \<and> ap_gateways d1 = ap_gateways d \<and> ap_auth d1 = ap_auth d"
  using assms by (auto simp: api_logger_def set_logs_def split: prod.splits option.splits if_splits)

lemma backed:
  assumes "api_backend reg c d = (es, d1)" and "fresh_api d"
  shows "ap_g d1 = None \<and> ap_auth d1 = ap_auth d \<and> (es = [] \<longrightarrow> (\<exists>gw. ap_Backend d1 = Some 0 \<and> ap_gateways d1 = [gw] \<and> gw_ok gw))"
  using assms by (auto simp: api_backend_def fresh_api_def split: prod.splits sum.splits dest: gw_ok_New)

lemma create_cases:
  assumes "api_create A reg d = Done (es, d1)" and "fresh_api d"
  obtains (early) "es \<noteq> []" "ap_g d1 = None"
  | (failed) g where "es \<noteq> []" "ap_g d1 = Some g" "daemon_ok g" "g_auth g = None" "ap_auth d1 = ap_auth d"
  | (made) g where "es = []" "ap_g d1 = Some g" "daemon_ok g" "g_auth g = ap_auth d" "ap_auth d1 = ap_auth d" "ap_subs d1 = []"
proof -
  obtain es1 a where 1: "api_configureDefaults A (api_conf d) d = (es1, a)" by fastforce
  have fa: "fresh_api a" "ap_auth a = ap_auth d" using configured [OF 1] assms(2) by (auto simp: fresh_api_def)
  obtain es2 b where 2: "api_logger A (api_conf a) a = (es2, b)" by fastforce
  have fb: "fresh_api b" "ap_auth b = ap_auth d" using logged [OF 2] fa by (auto simp: fresh_api_def)
  obtain es3 c where 3: "api_backend reg (api_conf b) b = (es3, c)" by fastforce
  note fc = backed [OF 3 fb(1)]
  show thesis
  proof (cases "es1 = [] \<and> es2 = [] \<and> es3 = []")
    case False
    then show ?thesis using assms 1 2 3 fa fb fc early by (auto simp: api_create_def fresh_api_def split: if_splits)
  next
    case True
    then have n: "api_new A (api_conf c) c = Done (es, d1)" using assms(1) 1 2 3 by (simp add: api_create_def)
    from True fc obtain gw where gw: "ap_Backend c = Some 0" "ap_gateways c = [gw]" "gw_ok gw" by auto
    from n gw(1,2) obtain l es4 g where g: "g_New (ae_env A) (api_conf c) 0 l [gw] (ap_svc c) (ap_out c) (api_logs c) = Done (es4, g)"
      and d1: "(es4, d1) = (if es4 \<noteq> [] then (es4, c\<lparr>ap_g := Some (g\<lparr>g_svclog := ap_svclog c\<rparr>)\<rparr>)
        else ([], api_deferred A (if ap_auth c \<noteq> None then api_SetAuthenticator (ap_auth c) (c\<lparr>ap_g := Some (g\<lparr>g_svclog := ap_svclog c\<rparr>)\<rparr>)
          else c\<lparr>ap_g := Some (g\<lparr>g_svclog := ap_svclog c\<rparr>)\<rparr>)))" and es: "es = es4"
      by (auto simp: api_new_def nil_pointer_def Let_def split: option.splits if_splits)
    have ok: "daemon_ok (g\<lparr>g_svclog := ap_svclog c\<rparr>)" using daemon_ok_New [OF g gw(3)] by simp
    have auth: "g_auth (g\<lparr>g_svclog := ap_svclog c\<rparr>) = None" using g_New_auth [OF g] by simp
    show ?thesis
    proof (cases "es4 = []")
      case False
      then show ?thesis using failed d1 es ok auth fc fb by auto
    next
      case True
      show ?thesis
      proof (cases "ap_auth c")
        case None
        then show ?thesis using made True d1 es ok auth fc fb by auto
      next
        case (Some x)
        then show ?thesis using made True d1 es daemon_ok_SetAuthenticator [OF ok, of "Some x"] fc fb
          by (auto simp: api_SetAuthenticator_def)
      qed
    qed
  qed
qed

lemma resetLogger_g:
  assumes "api_resetLogger A d = Done (err, d')" and "ap_g d = Some g"
  shows "\<exists>g'. ap_g d' = Some g' \<and> daemon_ok g' = daemon_ok g \<and> g_auth g' = g_auth g \<and> g_state g' = g_state g \<and> g_servers g' = g_servers g
    \<and> ap_auth d' = ap_auth d \<and> ap_subs d' = ap_subs d"
  using assms by (auto simp: api_resetLogger_def nil_pointer_def g_SetLogger_def set_logs_def split: option.splits prod.splits)

lemma started:
  assumes "api_Start A reg d = Done ([], d')" and "ap_g d = Some g" and "daemon_ok g"
  shows "\<exists>g'. ap_g d' = Some g' \<and> daemon_ok g' \<and> g_auth g' = g_auth g \<and> g_state g' = DaemonStarted \<and> ap_subs d' = ap_subs d"
proof -
  obtain g1 err where g1: "g_Start (ae_env A) reg g = Done ([], g1)" and r: "api_resetLogger A (d\<lparr>ap_g := Some g1\<rparr>) = Done (err, d')"
    using assms(1,2) by (auto simp: api_Start_def split: if_splits)
  from resetLogger_g [OF r] g_Start_auth [OF g1] daemon_ok_Start [OF g1 assms(3)] show ?thesis by auto
qed

lemma start_created:
  "ap_g d = None \<Longrightarrow> api_Start A reg d =
    bind_run (api_create A reg d) (\<lambda>(es, d). if es \<noteq> [] then Done (es, d) else if ap_g d = None then nil_pointer else api_Start A reg d)"
  by (cases "api_create A reg d") (auto simp: api_Start_def split: option.splits)

text \<open>
  When the first \<open>Start\<close> succeeds, the daemon is started, all of its servers use the authenticator that
  was set before, and no subscription is left waiting.
\<close>

theorem first_start:
  assumes "api_Start A reg d = Done ([], d')" and "ap_g d = None" and "ap_Backend d = None" and "ap_gateways d = []"
  shows "\<exists>g. ap_g d' = Some g \<and> g_state g = DaemonStarted \<and> g_auth g = ap_auth d \<and> (\<forall>(iface, sv) \<in> set (g_servers g). dv_auth sv = ap_auth d)
    \<and> ap_subs d' = []"
proof -
  obtain d1 where c: "api_create A reg d = Done ([], d1)" and s: "api_Start A reg d1 = Done ([], d')"
    using assms(1) start_created [OF assms(2)] by (auto simp: nil_pointer_def split: if_splits)
  have "fresh_api d" using assms by (simp add: fresh_api_def)
  from c this obtain g where "ap_g d1 = Some g" "daemon_ok g" "g_auth g = ap_auth d" "ap_subs d1 = []"
    by (cases rule: create_cases) auto
  with started [OF s] show ?thesis by (fastforce simp: daemon_ok_def sv_ok_def)
qed

definition demo_apienv :: apienv where
  "demo_apienv = \<lparr>ae_env = env1, ae_marshal = (\<lambda>c. Inr (Inr c)), ae_file = (\<lambda>f. Inl ''no such file''), ae_subscribe = (\<lambda>topic fn. None),
     ae_unsubscribe = (\<lambda>topic fn subs. (None, remove1 (topic, fn) subs))\<rparr>"

definition demo_api :: "unit daemon option \<Rightarrow> unit api" where
  "demo_api g = \<lparr>ap_Config = Some (conf1\<lparr>BackendConfig := if g = None then [(''save_process'', JStr [])] else []\<rparr>), ap_Logger = Some 0,
     ap_Backend = None, ap_g = g, ap_auth = Some 7, ap_subs = [(EventConfigNewConfig, FuncHandler ''func(*AppConfig)'' 0)], ap_bus = [],
     ap_hasbus = False, ap_gateways = [], ap_svc = \<lparr>initializers = [], shutdowners = []\<rparr>, ap_out = (), ap_logs = logs1, ap_svclog = None\<rparr>"

definition no_error :: "('e list \<times> 'a) run \<Rightarrow> bool" where
  "no_error r = (case r of Done ([], x) \<Rightarrow> True | _ \<Rightarrow> False)"

lemma no_errorD: "no_error r \<Longrightarrow> \<exists>x. r = Done ([], x)"
  by (auto simp: no_error_def split: run.splits list.splits)

definition demo_filled :: app_conf where
  "demo_filled = snd (setDefaults os1 (conf1\<lparr>BackendConfig := [(''save_process'', JStr [])]\<rparr>))"

definition demo_conf :: app_conf where
  "demo_conf = snd (setBackendDefaults os1 demo_filled)"

definition demo_gateway :: "unit gateway" where
  "demo_gateway = (idle_gateway BackendStateInitialized [])\<lparr>gConfig := BackendConfig demo_conf, gwConfig := Some \<lparr>WorkersSize = 1,
     SaveProcess = [], ValidateProcess = [], TimeoutSave = [], TimeoutValidateRcpt = []\<rparr>\<rparr>"

definition demo_made :: "unit api" where
  "demo_made = (demo_api None)\<lparr>ap_Config := Some demo_conf, ap_svclog := Some 0, ap_Backend := Some 0, ap_gateways := [demo_gateway]\<rparr>"

lemma demo_gateway_New:
  "gw_New [] (BackendConfig demo_conf) \<lparr>initializers = [], shutdowners = []\<rparr> () = (Inr demo_gateway, \<lparr>initializers = [], shutdowners = []\<rparr>, ())"
proof -
  have "BackendConfig demo_conf = [(''save_process'', JStr []), (''primary_mail_host'', JStr ''mail.example.com''),
      (''save_workers_size'', JInt 1), (''log_received_mails'', JBool False)]" by code_simp
  then have "ExtractConfig (BackendConfig demo_conf) gateway_fields = Inr [(''WorkersSize'', JInt 1), (''SaveProcess'', JStr [])]"
    by (simp add: gateway_fields_def field_key_omitempty [of _ "''save_workers_size''"] field_key_omitempty [of _ "''save_process''"]
        field_key_omitempty [of _ "''validate_process''"] field_key_omitempty [of _ "''gw_save_timeout''"]
        field_key_omitempty [of _ "''gw_val_rcpt_timeout''"])
  then show ?thesis
    by (simp add: demo_gateway_def idle_gateway_def gw_New_def gw_Initialize_def loadConfig_def workersSize_def newStack_def
        trim_space_def to_lower_def svc_initialize_def new_gateway_def)
qed

lemma demo_create: "api_create demo_apienv [] (demo_api None) = api_new demo_apienv demo_conf demo_made"
proof -
  have "fst (setDefaults os1 (conf1\<lparr>BackendConfig := [(''save_process'', JStr [])]\<rparr>)) = None" by code_simp
  then have 1: "setDefaults os1 (conf1\<lparr>BackendConfig := [(''save_process'', JStr [])]\<rparr>) = (None, demo_filled)"
    by (simp add: demo_filled_def prod_eq_iff)
  have "fst (setBackendDefaults os1 demo_filled) = None" by code_simp
  then have 2: "setBackendDefaults os1 demo_filled = (None, demo_conf)" by (simp add: demo_conf_def prod_eq_iff)
  from 1 2 demo_gateway_New show ?thesis
    by (simp add: api_create_def api_configureDefaults_def api_logger_def api_backend_def demo_api_def api_conf_def demo_apienv_def
        env1_def demo_made_def)
qed

theorem first_start_witness:
  "\<exists>d' g. api_Start demo_apienv [] (demo_api None) = Done ([], d') \<and> ap_g d' = Some g \<and> g_auth g = Some 7 \<and> ap_subs d' = []"
proof -
  have "no_error (bind_run (api_new demo_apienv demo_conf demo_made)
      (\<lambda>(es, d). if es \<noteq> [] then Done (es, d) else if ap_g d = None then nil_pointer else api_Start demo_apienv [] d))" by code_simp
  moreover have "ap_g (demo_api None) = None" by (simp add: demo_api_def)
  ultimately have "no_error (api_Start demo_apienv [] (demo_api None))" by (simp add: start_created demo_create)
  then obtain d' where d': "api_Start demo_apienv [] (demo_api None) = Done ([], d')" using no_errorD by blast
  from first_start [OF d'] d' show ?thesis by (auto simp: demo_api_def)
qed

text \<open>
  When the first \<open>Start\<close> fails in \<open>New\<close>, a later one that succeeds runs the servers without the
  authenticator that was set before.
\<close>

theorem restart_without_authenticator:
  assumes "api_Start A reg d = Done (es, d1)" and "fresh_api d" and "ap_g d1 = Some g1" and "g_state g1 \<noteq> DaemonStarted"
    and "api_Start A reg d1 = Done ([], d2)"
  shows "\<exists>g. ap_g d2 = Some g \<and> g_state g = DaemonStarted \<and> (\<forall>(iface, sv) \<in> set (g_servers g). dv_auth sv = None)"
proof -
  have n: "ap_g d = None" using assms(2) by (simp add: fresh_api_def)
  obtain es0 d0 where c: "api_create A reg d = Done (es0, d0)"
    and rest: "(es0 \<noteq> [] \<longrightarrow> d1 = d0) \<and> (es0 = [] \<longrightarrow> ap_g d0 \<noteq> None \<and> api_Start A reg d0 = Done (es, d1))"
    using assms(1) start_created [OF n] by (auto simp: nil_pointer_def split: if_splits)
  from c assms(2) show ?thesis
  proof (cases rule: create_cases)
    case early
    then show ?thesis using rest assms(3) by simp
  next
    case (failed g)
    then have "ap_g d1 = Some g" using rest by simp
    from started [OF assms(5) this failed(3)] failed(4) show ?thesis by (fastforce simp: daemon_ok_def sv_ok_def)
  next
    case (made g)
    then obtain es2 g2 where g2: "g_Start (ae_env A) reg g = Done (es2, g2)"
      and d1: "es2 \<noteq> [] \<and> d1 = d0\<lparr>ap_g := Some g2\<rparr> \<or> (\<exists>err. api_resetLogger A (d0\<lparr>ap_g := Some g2\<rparr>) = Done (err, d1))"
      using rest by (auto simp: api_Start_def split: if_splits)
    have "g_state g1 = DaemonStarted"
      using d1 g_Start_auth [OF g2] assms(3) by (auto dest!: resetLogger_g)
    with assms(4) show ?thesis by simp
  qed
qed

subsection \<open>Reloading\<close>

lemma loadTlsKeyTimestamps_Validate: "loadTlsKeyTimestamps S sv = (e, sv') \<Longrightarrow> Validate S sv' = Validate S sv"
  by (auto simp: loadTlsKeyTimestamps_def Let_def Validate_mtimes split: if_splits sum.splits)

lemma load_timestamps_Validate:
  "load_timestamps S scs = (None, scs') \<Longrightarrow> map (Validate S) scs' = map (Validate S) scs"
proof (induction scs arbitrary: scs')
  case (Cons sv scs)
  obtain e1 sv1 where 1: "loadTlsKeyTimestamps S sv = (e1, sv1)" by fastforce
  obtain e2 r where 2: "load_timestamps S scs = (e2, r)" by fastforce
  from Cons 1 2 loadTlsKeyTimestamps_Validate [OF 1] show ?case by (cases e1) auto
qed simp

lemma conf_Load_valid: "conf_Load S c = (None, c') \<Longrightarrow> list_all (\<lambda>sv. Validate S sv = []) (Servers c')"
proof -
  assume h: "conf_Load S c = (None, c')"
  obtain c2 scs where v: "filter (\<lambda>es. es \<noteq> []) (map (Validate S) (Servers c2)) = []"
    and t: "load_timestamps S (Servers c2) = (None, scs)" and c': "c' = c2\<lparr>Servers := scs\<rparr>"
    using h by (auto simp: conf_Load_def split: prod.splits option.splits list.splits)
  have "map (Validate S) scs = map (Validate S) (Servers c2)" by (rule load_timestamps_Validate [OF t])
  then have "set (map (Validate S) scs) \<subseteq> {[]}" using v by (auto simp: filter_empty_conv)
  then show ?thesis by (auto simp: c' list_all_iff)
qed


definition loaded_conf :: app_conf where
  "loaded_conf = snd (conf_Load os1 conf1)"

definition loaded_daemon :: "unit daemon" where
  "loaded_daemon = (demo ServerStateRunning True DaemonStarted)\<lparr>g_Config := loaded_conf, g_servers := [(defaultInterface,
     (snd (hd (g_servers (demo ServerStateRunning True DaemonStarted))))\<lparr>dv_conf := Some (hd (Servers loaded_conf))\<rparr>)]\<rparr>"


text \<open>Asking for the logs to be opened again before the first start calls a method of a nil interface.\<close>

theorem reopen_before_start:
  assumes "ap_g d = None" and "ap_Config d = Some c"
  shows "api_ReopenLogs A reg d = Crash ''nil pointer dereference''"
  using assms by (simp add: api_ReopenLogs_def api_changes_def EmitLogReopenEvents_def nil_pointer_def)

end
