(* ===== verification/Session_Props.thy ===== *)
theory Session_Props
  imports Session_Safety
begin

section \<open>Properties of the SMTP session\<close>

text \<open>
  The properties of whole sessions and of single turns, over the invariant of the theory before,
  and the behaviours of the code that its comments do not promise.
\<close>

subsection \<open>Whole sessions\<close>

text \<open>
  C1: no open relay, and nothing oversized. In a session that starts with an empty envelope,
  against any backend that leaves recipients and data alone when it validates a recipient, every
  message handed to \<open>Process\<close> has at least one and at most 101 recipients and at most
  \<open>MaxSize\<close> bytes of data, and unless the client had authenticated (which needs an
  authenticator) every one of its recipients is in an allowed host.
\<close>

theorem no_open_relay:
  assumes "keeps_envelope en" and "fresh_session c" and "processed w = []"
    and "handleClient en c w = Ret (c', w')" and "(e, authed) \<in> set (processed w')"
  shows "eRcptTo e \<noteq> [] \<and> length (eRcptTo e) \<le> 101 \<and> int (length (eData e)) \<le> MaxSize (sc en)
    \<and> (\<not> authed \<longrightarrow> list_all (rcpt_allowed en) (eRcptTo e)) \<and> (authed \<longrightarrow> authenticator en \<noteq> None)"
proof -
  obtain c1 w1 where s: "start_session en c w = (c1, w1)" by fastforce
  have "smtp_backend en" using assms(1) by (simp add: smtp_backend_iff)
  moreover have "handle_loop en c1 w1 = Ret (c', w')" using assms(4) s by (simp add: handleClient_def)
  ultimately have "\<forall>(e, a) \<in> set (processed w'). accepted en e a"
    using smtp_backend.handle_loop_ok start_session_ok [OF assms(2,3) s] by blast
  with assms(5) show ?thesis by (auto simp: accepted_def list_all_iff)
qed

lemma demo_keeps: "keeps_envelope demo_env"
  by (simp add: keeps_envelope_def demo_env_def)

theorem no_open_relay_witness:
  "\<exists>c w e. handleClient demo_env demo_client (demo_world [''RCPT TO:<u@ok.org>'', ''DATA'']) = Ret (c, w)
     \<and> processed w = [(e, False)] \<and> list_all (rcpt_allowed demo_env) (eRcptTo e)"
proof -
  let ?r = "handleClient demo_env demo_client (demo_world [''RCPT TO:<u@ok.org>'', ''DATA''])"
  have "(case ?r of Ret (c, w) \<Rightarrow> map snd (processed w) = [False] | Panic m \<Rightarrow> False)" by code_simp
  then obtain c w e where r: "?r = Ret (c, w)" "processed w = [(e, False)]"
    by (auto split: outcome.splits)
  moreover have "fresh_session demo_client" by (simp add: demo_client_def fresh_New)
  ultimately show ?thesis
    using no_open_relay [OF demo_keeps _ _ r(1), of e False] by (auto simp: demo_world_def)
qed



text \<open>
  C30: the length of a session is bounded by its input. From the start of the loop, after \<open>n\<close> turns
  that go on, at least \<open>(n - 3) / 4\<close> lines of the input have been read, so the loop makes at most
  four turns per line and three more.
\<close>

inductive turns :: "'b env \<Rightarrow> nat \<Rightarrow> client \<times> 'b world \<Rightarrow> client \<times> 'b world \<Rightarrow> bool" for en where
  none: "turns en 0 p p"
| one: "turns en n p (c, w) \<Longrightarrow> \<not> Killed c \<Longrightarrow> turn en c w = Ret (Cont c' w') \<Longrightarrow> turns en (Suc n) p (c', w')"

lemma turns_meas: "turns en n p q \<Longrightarrow> meas (fst q) (snd q) + n \<le> meas (fst p) (snd p)"
proof (induction rule: turns.induct)
  case (one n p c w c' w')
  from turn_meas [OF one(3,2)] one.IH show ?case by simp
qed simp

theorem session_bounded:
  assumes "turns en n (c, w) (c', w')"
  shows "n + 4 * length (reads w') \<le> 4 * length (reads w) + 3"
  using turns_meas [OF assms] weight_le [of c] by (simp add: meas_def)

theorem session_bounded_witness: "1 + 4 * length (reads (demo_world [])) \<le> 4 * length (reads (demo_world [])) + 3"
proof -
  have "(case turn demo_env demo_client (demo_world []) of Ret (Cont c w) \<Rightarrow> reads w = [] | _ \<Rightarrow> False)"
    by code_simp
  then obtain c' w' where "turn demo_env demo_client (demo_world []) = Ret (Cont c' w')" "reads w' = []"
    by (auto split: outcome.splits turn.splits)
  moreover have "\<not> Killed demo_client" by (simp add: demo_client_def NewClient_def)
  ultimately have "turns demo_env 1 (demo_client, demo_world []) (c', w')"
    using turns.one [OF turns.none] by (metis One_nat_def)
  from session_bounded [OF this] show ?thesis by simp
qed

subsection \<open>Authentication\<close>

text \<open>
  C3: only the authenticator makes a client authenticated. If a turn leaves a client authenticated
  that was not before, the configured authenticator was asked during that turn about the client's
  envelope and said yes, and the user name and the tenant of the client are those of that call.
\<close>

theorem authed_by_authenticator:
  assumes "turn en c w = Ret t" and "t = Cont c' w' \<or> t = Return c' w'" and "\<not> Authed c" and "Authed c'"
  shows "\<exists>auth identity password b b' r. authenticator en = Some auth
    \<and> auth identity (AuthUser c') password (Env c) b = (Inr r, b') \<and> AuthOK r \<and> AuthTenant c' = AuthResTenant r"
proof -
  obtain inp w1 c1 w2 where "cmd_AUTH en inp c w1 = (c1, w2)" "Authed c1"
    "AuthUser c' = AuthUser c1" "AuthTenant c' = AuthTenant c1"
    using turn_authed [OF assms] by blast
  with cmd_AUTH_authed [of en inp c w1 c1 w2] assms(3) show ?thesis by auto
qed

definition yes_env :: "unit env" where
  "yes_env = demo_env\<lparr>authenticator := Some (\<lambda>i u p e b. (Inr \<lparr>AuthOK = u = ''user'', AuthResTenant = None\<rparr>, b))\<rparr>"

definition esmtp_client :: client where
  "esmtp_client = demo_client\<lparr>cstate := ClientCmd, Env := (Env demo_client)\<lparr>eESMTP := True\<rparr>\<rparr>"

theorem authed_by_authenticator_witness:
  "\<exists>auth. authenticator yes_env = Some auth"
proof -
  let ?t = "turn yes_env esmtp_client (demo_world [''AUTH LOGIN dXNlcg=='', ''cHc=''])"
  have "(case ?t of Ret (Cont c w) \<Rightarrow> Authed c | _ \<Rightarrow> False)" by code_simp
  then obtain c' w' where "?t = Ret (Cont c' w')" "Authed c'" by (auto split: outcome.splits turn.splits)
  moreover have "\<not> Authed esmtp_client" by (simp add: esmtp_client_def demo_client_def NewClient_def)
  ultimately show ?thesis using authed_by_authenticator by blast
qed

text \<open>
  C4: \<open>STARTTLS\<close> starts the session anew. After a successful handshake the client is on TLS, not
  authenticated, without user, tenant, \<open>EHLO\<close> or transaction, and the next \<open>EHLO\<close> does not
  advertise \<open>STARTTLS\<close>; after a failed one the session is killed.
\<close>

theorem starttls_resets:
  assumes "StartTLSOn (sc en)" and "tlsLoaded en" and "\<not> eTLS (Env c)" and "handshakes w = ok # hs"
    and "turn_starttls en c w = Fall c' w'"
  shows "if ok then eTLS (Env c') \<and> \<not> Authed c' \<and> AuthUser c' = [] \<and> AuthTenant c' = None \<and> \<not> eESMTP (Env c')
      \<and> eRcptTo (Env c') = [] \<and> \<not> isInTransaction c' \<and> eData (Env c') = [] \<and> \<not> advertiseTLS c' \<and> cstate c' = ClientCmd
    else Killed c'"
  using assms(5,1-4)
  by (auto simp: turn_starttls_def upgradeToTLS_def resetTransaction_def ResetTransaction_def isInTransaction_def
      empty_address_def kill_def Let_def)

theorem starttls_resets_witness:
  "\<exists>c' w'. turn_starttls (demo_env\<lparr>sc := (sc demo_env)\<lparr>StartTLSOn := True\<rparr>, tlsLoaded := True\<rparr>)
     (esmtp_client\<lparr>Authed := True, cstate := ClientStartTLS\<rparr>) ((demo_world [])\<lparr>handshakes := [True]\<rparr>) = Fall c' w'
     \<and> \<not> Authed c'"
proof -
  let ?en = "demo_env\<lparr>sc := (sc demo_env)\<lparr>StartTLSOn := True\<rparr>, tlsLoaded := True\<rparr>"
  let ?c = "esmtp_client\<lparr>Authed := True, cstate := ClientStartTLS\<rparr>"
  let ?w = "(demo_world [])\<lparr>handshakes := [True]\<rparr>"
  obtain c' w' where t: "turn_starttls ?en ?c ?w = Fall c' w'" using turn_falls(3) by blast
  from starttls_resets [OF _ _ _ _ t, of True "[]"] t show ?thesis
    by (auto simp: esmtp_client_def demo_client_def NewClient_def NewEnvelope_def)
qed

text \<open>
  An unknown \<open>AUTH\<close> mechanism still reaches the authenticator. The \<open>break\<close> of the default
  case leaves only the inner switch, so the client's 504 is replaced by the authenticator's verdict
  on three empty strings: if it accepts them, the client is authenticated.
\<close>

theorem auth_unknown_mechanism:
  assumes "authenticator en = Some auth" and "\<not> Authed c" and "eESMTP (Env c)" and "\<not> isInTransaction c"
    and "Prelude.fields inp = verb # mech # others" and "to_upper mech \<noteq> ''PLAIN''" and "to_upper mech \<noteq> ''LOGIN''"
    and "auth [] [] [] (Env c) (bstate w) = (Inr r, b)"
  shows "Authed (fst (cmd_AUTH en inp c w)) = AuthOK r"
  using assms
  by (simp add: cmd_AUTH_def auth_finish_def Let_def case_prod_unfold)

theorem auth_unknown_mechanism_witness:
  "Authed (fst (cmd_AUTH (yes_env\<lparr>authenticator := Some (\<lambda>i u p e b. (Inr \<lparr>AuthOK = True, AuthResTenant = None\<rparr>, b))\<rparr>)
     ''AUTH FOO'' esmtp_client (demo_world [])))"
proof -
  have f: "Prelude.fields ''AUTH FOO'' = [''AUTH'', ''FOO'']" by code_simp
  have u: "to_upper ''FOO'' = ''FOO''" by code_simp
  show ?thesis
    using auth_unknown_mechanism [of "yes_env\<lparr>authenticator := Some (\<lambda>i u p e b. (Inr \<lparr>AuthOK = True, AuthResTenant = None\<rparr>, b))\<rparr>"
        "\<lambda>i u p e b. (Inr \<lparr>AuthOK = True, AuthResTenant = None\<rparr>, b)" esmtp_client "''AUTH FOO''" _ _ _ "demo_world []"] f u
    by (simp add: esmtp_client_def demo_client_def NewClient_def NewEnvelope_def isInTransaction_def empty_address_def)
qed

subsection \<open>Commands and replies\<close>

lemma write_short:
  "length (bufout c) + length s \<le> writerSize \<Longrightarrow> write_string s c w = (c\<lparr>bufout := bufout c @ s\<rparr>, w)"
  by (subst write_string.simps) simp

lemma send_items_short:
  "\<not> bufErr c \<Longrightarrow> length (bufout c) + length (concat items) + 2 \<le> writerSize \<Longrightarrow>
   send_items items c w = (c\<lparr>bufout := bufout c @ concat items @ CRLF\<rparr>, w)"
proof (induction items arbitrary: c)
  case Nil
  then show ?case by (simp add: write_short CRLF_def)
next
  case (Cons i items)
  let ?c = "c\<lparr>bufout := bufout c @ i\<rparr>"
  have "write_string i c w = (?c, w)" using Cons.prems by (intro write_short) simp
  moreover have "send_items items ?c w = (?c\<lparr>bufout := bufout ?c @ concat items @ CRLF\<rparr>, w)"
    using Cons.prems by (intro Cons.IH) auto
  ultimately show ?case using Cons.prems by simp
qed

text \<open>
  A reply is its parts and a CRLF, and the last reply wins. A response that fits the write
  buffer replaces whatever was buffered before, whether or not that had been sent, touches nothing
  else of the client and the world, and flushing it appends exactly that text to the connection.
\<close>

theorem reply_text:
  assumes "length (concat items) + 2 \<le> writerSize" and "writes w = []"
  shows "sendResponse items c w = (c\<lparr>bufout := concat items @ CRLF, bufErr := False\<rparr>, w)
    \<and> flush_turn (fst (sendResponse items c w)) w
        = Cont (c\<lparr>bufout := [], bufErr := False\<rparr>) (w\<lparr>sent := sent w @ concat items @ CRLF\<rparr>)"
proof -
  have s: "sendResponse items c w = (c\<lparr>bufout := concat items @ CRLF, bufErr := False\<rparr>, w)"
    unfolding sendResponse_def
    using send_items_short [of "c\<lparr>bufout := [], bufErr := False\<rparr>" items w] assms(1) by simp
  then show ?thesis using assms(2) by (simp add: flush_turn_def flushResponse_def CRLF_def)
qed

theorem reply_text_witness:
  "sendResponse [''250 OK''] (demo_client\<lparr>bufout := ''504 no''\<rparr>) (demo_world [])
     = (demo_client\<lparr>bufout := ''250 OK'' @ CRLF, bufErr := False\<rparr>, demo_world [])"
  using reply_text [of "[''250 OK'']" "demo_world []" "demo_client\<lparr>bufout := ''504 no''\<rparr>"] by (simp add: demo_world_def)

lemma parsePath_Env: "parsePath c inp p = Ret (a, err, c') \<Longrightarrow> Env c' = Env c"
  by (auto simp: parsePath_def Let_def bind_outcome_Ret_iff split: if_splits prod.splits)

text \<open>
  A refused recipient leaves no trace. When \<open>RCPT\<close> names an address outside the allowed hosts
  and the client is not authenticated, the envelope, the backend and the backend's state are not
  touched, and when the backend refuses a recipient the list of recipients is as before.
\<close>

theorem rcpt_refused:
  assumes "keeps_envelope en" and "cmd_RCPT en inp c w = Ret (c', w')"
  shows "eRcptTo (Env c') = eRcptTo (Env c) \<and> eData (Env c') = eData (Env c)
    \<or> (\<exists>to. eRcptTo (Env c') = eRcptTo (Env c) @ [to] \<and> (Authed c \<or> rcpt_allowed en to))"
proof (cases "length (eRcptTo (Env c)) > LimitRecipients")
  case True
  with assms(2) show ?thesis by (auto simp: cmd_RCPT_def sendResponse_fields)
next
  case False
  then obtain arg to err c1 where 1: "parsePath c arg (\<lambda>ps i. Ret (RcptTo ps i)) = Ret (to, err, c1)"
    and 2: "(case err of
                 Some e \<Rightarrow> Ret (sendResponse [e] c1 w)
               | None \<Rightarrow>
                   (let to = defaultHost (Hostname (sc en)) to
                    in if \<not> rcpt_allowed en to \<and> \<not> Authed c1 then
                         (if authenticator en \<noteq> None
                          then Ret (sendResponse [''530 5.7.0 Authentication required''] c1 w)
                          else Ret (sendResponse [resp_str ErrorRelayDenied, '' '', Host to] c1 w))
                       else rcpt_accept en to c1 w)) = Ret (c', w')"
    using assms(2) by (auto simp: cmd_RCPT_def bind_outcome_Ret_iff)
  have e1: "Env c1 = Env c" "Authed c1 = Authed c" using parsePath_Env [OF 1] parsePath_authed [OF 1] .
  let ?to = "defaultHost (Hostname (sc en)) to"
  obtain r e b where v: "validateRcpt en (PushRcpt (Env c) ?to) (bstate w) = (r, e, b)" using prod_cases3 by blast
  then have k: "eRcptTo e = eRcptTo (Env c) @ [?to] \<and> eData e = eData (Env c)"
    using smtp_backend.validate_keeps [OF _ v] assms(1) by (simp add: smtp_backend_iff PushRcpt_def)
  have acc: "rcpt_accept en ?to c1 w = Ret (c', w') \<Longrightarrow> Authed c \<or> rcpt_allowed en ?to \<Longrightarrow> ?thesis"
    using v k e1 by (auto simp: rcpt_accept_def Let_def PopRcpt_def sendResponse_fields split: option.splits)
  show ?thesis using 2 e1 acc by (auto simp: Let_def sendResponse_fields split: option.splits if_splits)
qed

theorem rcpt_refused_witness:
  "\<exists>c' w'. cmd_RCPT demo_env ''RCPT TO:<u@no.org>'' esmtp_client (demo_world []) = Ret (c', w') \<and> eRcptTo (Env c') = []"
proof -
  have "(case cmd_RCPT demo_env ''RCPT TO:<u@no.org>'' esmtp_client (demo_world []) of
      Ret (c, w) \<Rightarrow> length (eRcptTo (Env c)) = 0 | Panic m \<Rightarrow> False)" by code_simp
  then obtain c' w' where r: "cmd_RCPT demo_env ''RCPT TO:<u@no.org>'' esmtp_client (demo_world []) = Ret (c', w')"
    and n: "eRcptTo (Env c') = []" by (auto split: outcome.splits)
  from rcpt_refused [OF demo_keeps r] n r show ?thesis by auto
qed

subsection \<open>Behaviours the comments do not promise\<close>

text \<open>
  Recipients of an abandoned session reach the next one. An envelope that goes back to the pool
  with recipients keeps them when it is lent again, and the new session's \<open>DATA\<close> is accepted for
  them although it named no recipient and no sender.
\<close>

theorem pooled_recipients_survive:
  assumes "eRcptTo e \<noteq> []" and "cmd_DATA (init_client c (Reseed e remoteIP qid) i) w = (c', w')"
  shows "cstate c' = ClientData \<and> eRcptTo (Env c') = eRcptTo e \<and> eRemoteIP (Env c') = remoteIP"
  using assms by (auto simp: cmd_DATA_def init_client_def Reseed_def sendResponse_fields split: prod.splits)

theorem pooled_recipients_survive_witness:
  "\<exists>c' w'. cmd_DATA (init_client demo_client (Reseed (PushRcpt (Env demo_client) empty_address) ''::2'' ''q2'') 2) (demo_world [])
     = (c', w') \<and> cstate c' = ClientData"
proof -
  obtain c' w' where d: "cmd_DATA (init_client demo_client (Reseed (PushRcpt (Env demo_client) empty_address) ''::2'' ''q2'') 2)
     (demo_world []) = (c', w')" by fastforce
  from pooled_recipients_survive [OF _ d] d show ?thesis by (auto simp: PushRcpt_def)
qed

text \<open>
  The line \<open>XCLIENT\<close> alone crashes the session. With \<open>XCLIENT\<close> on, a command line of just
  these seven bytes makes the slice \<open>input[8:]\<close> panic.
\<close>

theorem xclient_panics:
  assumes "XClientOn (sc en)"
  shows "panics (dispatch en ''XCLIENT'' c w)"
proof -
  have "to_upper ''XCLIENT'' = ''XCLIENT''" by code_simp
  with assms show ?thesis by (simp add: dispatch_def cmd_match_def cmd_XCLIENT_def slice_from_def Let_def)
qed

theorem xclient_panics_witness:
  "panics (dispatch (demo_env\<lparr>sc := (sc demo_env)\<lparr>XClientOn := True\<rparr>\<rparr>) ''XCLIENT'' demo_client (demo_world []))"
  using xclient_panics [of "demo_env\<lparr>sc := (sc demo_env)\<lparr>XClientOn := True\<rparr>\<rparr>"] by simp

end
