(* ===== verification/Spec2Isabelle.thy ===== *)
theory Spec2Isabelle
  imports Imap_Props Outbound_Props Storage_Props Api Session_Props Processors
begin

text \<open>
  \<^bold>\<open>Verification of the SMTP server go-guerrilla.\<close>

  The program accepts mail over SMTP, hands it to a backend made of processors, can send it on through
  Amazon SES or Oracle's mail service with the credentials of a tenant, and keeps an index of the mail of
  POP3 and IMAP mailboxes so that a reply is sent from the alias the original was written to. The
  development models the Go sources under src/ as HOL functions and step relations and proves what they
  promise. Every theory opens with a short account of its own; this is the map.

  \<^bold>\<open>Conventions.\<close> A Go string or byte slice is a list of bytes; a function that can panic returns an
  \<open>outcome\<close>, one that can also block or run for ever a \<open>run\<close> (theory \<open>Prelude\<close>), and one that uses the
  world outside the program is an \<open>act\<close> on a world whose type is a variable (theory \<open>Effects\<close>). Errors are
  values of a sum or an option. Loops are recursive functions with a termination proof; a loop that need
  not end is a \<open>partial_function\<close> into \<open>option\<close>, so that not returning is a value a theorem can speak
  about, and no fuel is used anywhere. Integers keep their width where the code can wrap (the UIDs of IMAP
  are 32-bit words, durations in days wrap at 64 bits); elsewhere a Go \<open>int\<close> is an integer. A Go map is an
  association list, since several loops walk over one and show its order.

  \<^bold>\<open>The session\<close> (server.go, client.go, models.go, auth.go, mail/rfc5321/parse.go, response/enhanced.go).
  \<open>Parser\<close> has every production of the command parser with its stale last byte and its slices, \<open>Grammar\<close>
  the RFC grammar; \<open>Parser_Inv\<close> and \<open>Path_Spec\<close> show that a parser object can be used again, and relate what is
  accepted to the grammar. \<open>Net_IP\<close> has the parsing of IP addresses. \<open>Response\<close> has the replies, \<open>Envelope\<close> the addresses, envelopes and
  their pool, \<open>Auth\<close> the decoding of credentials and the HTTP authenticator, \<open>Hosts\<close> the relay table,
  \<open>Backend\<close> results, hooks and \<open>ExtractConfig\<close>. \<open>Session\<close> is \<open>handleClient\<close>, a state machine \<open>turn\<close> over an
  environment that gives the lines read, the handshakes, the verdicts of backend and authenticator and
  the shutdown flag. The locale \<open>smtp_backend\<close> is the contract of a backend; \<open>Session_Inv\<close>, \<open>Session_Safety\<close> and
  \<open>Session_Props\<close> prove for every backend with that contract that a session returns, is bounded by its
  input, never relays for strangers, and authenticates only by the authenticator.

  \<^bold>\<open>The backend\<close> (backends/gateway.go and the processors). \<open>Gateway\<close> has the life of the gateway and its
  stacks, \<open>Dispatcher\<close> the conveyor and the workers as a step relation over all interleavings of callers,
  workers, timers, panics and stop signals, with a measure that bounds every run. \<open>Mime_Header\<close> is header
  parsing and decoding of encoded words; \<open>Processors\<close> has debugger, header, hasher, headersparser and
  compressor and interprets the contract of the session on the gateway with them. The theorem of this
  theory puts session and gateway together.

  \<^bold>\<open>The daemon\<close> (pool.go, config.go, event.go, log/, guerrilla.go, api.go). \<open>Pool\<close> has the pool of clients and the
  accept loop, \<open>Config\<close> loading, defaults and change events, \<open>Logs\<close> the loggers, \<open>Server_Object\<close> a server
  with its TLS settings, \<open>Daemon\<close> the daemon with all its event handlers. \<open>Daemon_Props\<close> proves the invariant
  of the servers and the reload of the backend, \<open>Reload\<close> that each handler refines a short specification
  and that a reload ends in the new configuration. \<open>Api\<close> is the facade for programs that embed the server, with
  its first start and its reload of a configuration.

  \<^bold>\<open>Tenants and the alias index\<close> (backends/tenant.go, tenant_registry.go, email_address.go, alias_store.go,
  alias_message_index.go, alias_indexer.go, pop3_client.go, imap_client.go, imap_watcher.go,
  mail/rfc5321/address.go). \<open>Tenant\<close> and \<open>Tenant_Registry\<close> have the tenant records and the registry with its
  poller. \<open>Address5322\<close> is the parser of header addresses, whose loops need not end, with the exact set of
  plain texts on which it does not. \<open>Alias_Address\<close> has the normal forms of addresses and Message-IDs.
  \<open>Alias_Store\<close> is the store over a database whose statements are actions; what the statements do to the
  tables is the predicate \<open>sql_ok\<close>, the hypothesis of the theorems about the store, and \<open>Mem_Db\<close> is a database
  that fulfils it and runs the witnesses. \<open>Pop3\<close> is the POP3 client, \<open>Alias_Index\<close> the indexer with its
  configuration and event loop, \<open>Imap_Watcher\<close> the IMAP client and the watcher of an account; \<open>Index_Runs\<close>
  and \<open>Imap_Props\<close> prove and run that messages are indexed once, that a range of UIDs is covered batch by
  batch, and that the cursor of a folder moves only past what was handled.

  \<^bold>\<open>Sending on\<close> (backends/p_rewrite_from.go, p_alias_resolve.go, p_ses.go, p_ociemail.go, tenant_send.go).
  \<open>Rewrite_From\<close> has the templates and the rewriting of From, \<open>Alias_Resolve\<close> the processor that finds the
  thread of a reply, with the isolation of tenants; \<open>Outbound\<close> the two senders with their caches of clients,
  \<open>Outbound_Props\<close> follows the SMTP exchange through a log of all calls: when the password is given away and
  how often a message is delivered.

  \<^bold>\<open>Storing\<close> (backends/p_sql.go, p_redis.go, p_guerrilla_db_redis.go, redis_generic.go). \<open>Storage_Procs\<close> has the
  processors that write to MySQL and Redis, with the cache of prepared statements and the query batcher as a
  function of the rows, ticks and stop signals it receives; \<open>Storage_Props\<close> runs them on a table: every row
  is stored once and in order while queries succeed, and what failing queries, the shutdown and several
  recipients do to it.

  \<^bold>\<open>Arguments.\<close> What is not in the repository enters as an argument: sockets, TLS, HTTP, JSON, DNS, clock,
  random ids, hashes, zlib, \<open>net/mail\<close>, the MIME word decoder, \<open>go-imap\<close>, \<open>net/smtp\<close>, the AWS client, the database and Redis drivers, SQLite
  and \<open>time.ParseDuration\<close>. Hypotheses about them are named predicates with a witness: \<open>sql_ok\<close> for SQLite;
  \<open>conn_quiet\<close> and \<open>env_quiet\<close>, which say that talking to a mail server does not change the tables; different hashes for different cache keys.

  \<^bold>\<open>Not modelled.\<close> The restart of the query batcher after a panic of the database driver, cmd/ (command line, signals, process exit), mail/encoding and mail/iconv
  (bindings to character-set libraries), response/quote.go and version.go (text data), the writing of log
  lines, the system calls of guerrilla_unix.go, backends/util.go and the mocks and test clients. Parallel polling of
  mailboxes is modelled as polling in the order of the list, since all of it goes through one database
  connection; the goroutines that wait for a time-out are the environment's choice of what happens first.
\<close>

section \<open>The server with its gateway\<close>


definition demo_pworld :: "pstore world" where
  "demo_pworld = \<lparr>reads = [Slice (''RCPT TO:<u@ok.org>'' @ [CHR 0x0D])], dataReads = [], handshakes = [], writes = [],
     shutdowns = [], quotes = [], sent = [], bstate = demo_store, processed = []\<rparr>"


end
